(* ===== verification/C_Base.thy ===== *)
theory C_Base imports
  Main
  "HOL-Library.Word"
  "HOL-Library.Monad_Syntax"
begin

unbundle bit_operations_syntax

text \<open>
  The prelude of the development: the machine types of the x86-qemu build (a 32-bit target, so
  \<open>int\<close>, \<open>long\<close>, \<open>size_t\<close> and pointers are 32 bits wide), the kinds of failure a C function of
  this repository can end in, and the generic lemmas on lists, ranges and function updates that
  the component theories share. No program code is modelled here.
\<close>

section \<open>Types\<close>

type_synonym u8 = "8 word"
type_synonym u16 = "16 word"
type_synonym u32 = "32 word"

text \<open>A flat byte memory: the kernel runs with one address space.\<close>

type_synonym memory = "nat \<Rightarrow> u8"

text \<open>
  How a function can fail to return: it halts the machine (a failed \<open>assert\<close>, \<open>panic\<close> or
  \<open>_halt\<close>), or it performs an access outside the objects it was given (a null pointer, an index
  out of range, a negative shift), or it spins for ever waiting for something no step of the model
  can change.
\<close>

datatype fault = Halt | BadAccess | Hang

type_synonym 'a result = "fault + 'a"

text \<open>Sequencing: stop at the first fault.\<close>

definition bindr :: "'a result \<Rightarrow> ('a \<Rightarrow> 'b result) \<Rightarrow> 'b result" where
  "bindr x f = (case x of Inl e \<Rightarrow> Inl e | Inr a \<Rightarrow> f a)"

lemma bindr_simps [simp]:
  "bindr (Inl e) f = Inl e"
  "bindr (Inr a) f = f a"
  by (simp_all add: bindr_def)

lemma bindr_eq_Inr: "bindr x f = Inr b \<longleftrightarrow> (\<exists>a. x = Inr a \<and> f a = Inr b)"
  by (cases x) simp_all

lemma bindr_assoc: "bindr (bindr x f) g = bindr x (\<lambda>a. bindr (f a) g)"
  by (cases x) simp_all

text \<open>\<open>assert(c)\<close> of klib.h: halts the machine when \<open>c\<close> is false.\<close>

definition assert_that :: "bool \<Rightarrow> unit result" where
  "assert_that c = (if c then Inr () else Inl Halt)"

lemma assert_that_simps [simp]:
  "assert_that True = Inr ()"
  "assert_that False = Inl Halt"
  by (simp_all add: assert_that_def)

section \<open>Named collections\<close>

named_theorems frame_simps \<open>what an operation leaves unchanged\<close>
named_theorems inv_intros \<open>operations preserve the invariant of their component\<close>

section \<open>Lists and ranges\<close>

lemma nth_append_right [simp]: "length xs \<le> i \<Longrightarrow> (xs @ ys) ! i = ys ! (i - length xs)"
  by (simp add: nth_append)

lemma map_upt_shift: "map f [a..<a + n] = map (\<lambda>i. f (a + i)) [0..<n]"
  by (rule nth_equalityI) auto

lemma list_update_neq_iff: "i < length xs \<Longrightarrow> xs[i := x] = xs \<longleftrightarrow> xs ! i = x"
  by (metis list_update_id nth_list_update_eq)

lemma set_tlD: "x \<in> set (tl xs) \<Longrightarrow> x \<in> set xs"
  by (cases xs) auto

lemma unat_u32_less: "unat (w :: u32) < 4294967296"
  using unsigned_less [of w, where ?'a = nat] by simp

text \<open>A function that agrees with a list on a range and with an old function elsewhere.\<close>

definition overlay :: "(nat \<Rightarrow> 'a) \<Rightarrow> nat \<Rightarrow> 'a list \<Rightarrow> (nat \<Rightarrow> 'a)" where
  "overlay m p xs = (\<lambda>a. if p \<le> a \<and> a < p + length xs then xs ! (a - p) else m a)"

lemma overlay_Nil [simp]: "overlay m p [] = m"
  by (rule ext) (auto simp: overlay_def)

lemma overlay_Cons: "overlay m p (x # xs) = overlay (m(p := x)) (Suc p) xs"
proof (rule ext)
  fix a
  show "overlay m p (x # xs) a = overlay (m(p := x)) (Suc p) xs a"
    by (cases "a = p") (auto simp: overlay_def nth_Cons' Suc_diff_Suc)
qed

lemma overlay_inside: "p \<le> a \<Longrightarrow> a < p + length xs \<Longrightarrow> overlay m p xs a = xs ! (a - p)"
  by (simp add: overlay_def)

lemma overlay_nth [simp]: "i < length xs \<Longrightarrow> overlay m p xs (p + i) = xs ! i"
  by (simp add: overlay_def)

lemma overlay_outside [simp]: "a < p \<or> p + length xs \<le> a \<Longrightarrow> overlay m p xs a = m a"
  by (auto simp: overlay_def)

lemma overlay_append: "overlay m p (xs @ ys) = overlay (overlay m p xs) (p + length xs) ys"
  by (rule ext) (auto simp: overlay_def nth_append)

lemma overlay_overlay_same:
  "length ys = length xs \<Longrightarrow> overlay (overlay m p xs) p ys = overlay m p ys"
  by (rule ext) (auto simp: overlay_def)

lemma overlay_commute:
  "p + length xs \<le> q \<or> q + length ys \<le> p \<Longrightarrow>
     overlay (overlay m p xs) q ys = overlay (overlay m q ys) p xs"
  by (rule ext) (auto simp: overlay_def)

text \<open>The \<open>n\<close> values of a function from \<open>p\<close> on.\<close>

definition window :: "(nat \<Rightarrow> 'a) \<Rightarrow> nat \<Rightarrow> nat \<Rightarrow> 'a list" where
  "window m p n = map m [p..<p + n]"

lemma length_window [simp]: "length (window m p n) = n"
  by (simp add: window_def)

lemma nth_window [simp]: "i < n \<Longrightarrow> window m p n ! i = m (p + i)"
  by (simp add: window_def)

lemma window_0 [simp]: "window m p 0 = []"
  by (simp add: window_def)

lemma window_Suc: "window m p (Suc n) = m p # window m (Suc p) n"
  by (rule nth_equalityI) (auto simp: nth_Cons')

lemma window_overlay_same [simp]: "window (overlay m p xs) p (length xs) = xs"
  by (rule nth_equalityI) simp_all

lemma window_overlay_same_len: "n = length xs \<Longrightarrow> window (overlay m p xs) p n = xs"
  by simp

lemma window_overlay_disjoint:
  "q + n \<le> p \<or> p + length xs \<le> q \<Longrightarrow> window (overlay m p xs) q n = window m q n"
  by (rule nth_equalityI) (auto simp: overlay_def)

lemma overlay_window_same [simp]: "overlay m p (window m p n) = m"
  by (rule ext) (auto simp: overlay_def)

lemma window_cong: "(\<And>a. p \<le> a \<Longrightarrow> a < p + n \<Longrightarrow> m a = m' a) \<Longrightarrow> window m p n = window m' p n"
  by (simp add: window_def)

lemma window_take: "k \<le> n \<Longrightarrow> take k (window m p n) = window m p k"
  by (rule nth_equalityI) auto

lemma window_drop: "k \<le> n \<Longrightarrow> drop k (window m p n) = window m (p + k) (n - k)"
  by (rule nth_equalityI) (auto simp: add.assoc)

lemma window_append: "window m p (j + k) = window m p j @ window m (p + j) k"
  by (rule nth_equalityI) (auto simp: nth_append)

end
