(* ===== verification/Klib_String.thy ===== *)
theory Klib_String imports
  C_Base
  "HOL-Library.List_Lexorder"
begin

text \<open>
  The string and memory routines of \<open>abstract-machine/libs/klib/src/string.c\<close> over a flat byte
  memory. A pointer is an address; a routine that writes returns the new memory. The loops that
  only a NUL byte ends are \<open>partial_function (option)\<close>: \<open>None\<close> is a loop that never ends.
\<close>

section \<open>The routines\<close>

partial_function (option) strlen_loop :: "memory \<Rightarrow> nat \<Rightarrow> nat \<Rightarrow> nat option" where
  "strlen_loop m s ptr = (if m ptr \<noteq> 0 then strlen_loop m s (ptr + 1) else Some (ptr - s))"

declare strlen_loop.simps [code]

definition strlen :: "memory \<Rightarrow> nat \<Rightarrow> nat option" where
  "strlen m s = strlen_loop m s s"

function strnlen_loop :: "memory \<Rightarrow> nat \<Rightarrow> nat \<Rightarrow> nat \<Rightarrow> nat" where
  "strnlen_loop m s n ptr =
     (if m ptr \<noteq> 0 \<and> ptr - s < n then strnlen_loop m s n (ptr + 1) else ptr - s)"
  by pat_completeness auto
termination
  by (relation "measure (\<lambda>(m, s, n, ptr). s + n - ptr)") auto

definition strnlen :: "memory \<Rightarrow> nat \<Rightarrow> nat \<Rightarrow> nat" where
  "strnlen m s n = strnlen_loop m s n s"

text \<open>The condition of the loop is the assignment: the NUL byte is copied before the test.\<close>

partial_function (option) strcpy :: "memory \<Rightarrow> nat \<Rightarrow> nat \<Rightarrow> memory option" where
  "strcpy m dst src =
     (let m' = m(dst := m src)
      in if m src \<noteq> 0 then strcpy m' (dst + 1) (src + 1) else Some m')"

declare strcpy.simps [code]

fun strncpy :: "memory \<Rightarrow> nat \<Rightarrow> nat \<Rightarrow> nat \<Rightarrow> memory" where
  "strncpy m dst src 0 = m"
| "strncpy m dst src (Suc n) =
     (let m' = m(dst := m src)
      in strncpy m' (dst + 1) (if m src \<noteq> 0 then src + 1 else src) n)"

partial_function (option) strcat :: "memory \<Rightarrow> nat \<Rightarrow> nat \<Rightarrow> memory option" where
  "strcat m dst src = (if m dst \<noteq> 0 then strcat m (dst + 1) src else strcpy m dst src)"

declare strcat.simps [code]

text \<open>\<open>unsigned char\<close> operands, so the comparison is of the bytes as unsigned values.\<close>

partial_function (option) strcmp :: "memory \<Rightarrow> nat \<Rightarrow> nat \<Rightarrow> int option" where
  "strcmp m s1 s2 =
     (let c1 = m s1; c2 = m s2
      in if c1 \<noteq> c2 then Some (if c1 < c2 then -1 else 1)
         else if c1 = 0 then Some 0
         else strcmp m (s1 + 1) (s2 + 1))"

declare strcmp.simps [code]

fun strncmp :: "memory \<Rightarrow> nat \<Rightarrow> nat \<Rightarrow> nat \<Rightarrow> int" where
  "strncmp m s1 s2 0 = 0"
| "strncmp m s1 s2 (Suc n) =
     (let c1 = m s1; c2 = m s2
      in if c1 \<noteq> c2 then (if c1 < c2 then -1 else 1)
         else if c1 = 0 then 0
         else strncmp m (s1 + 1) (s2 + 1) n)"

text \<open>\<open>*ptr++ = c\<close> stores the \<open>int\<close> argument converted to \<open>char\<close>: its low eight bits.\<close>

fun memset :: "memory \<Rightarrow> nat \<Rightarrow> u32 \<Rightarrow> nat \<Rightarrow> memory" where
  "memset m v c 0 = m"
| "memset m v c (Suc n) = memset (m(v := ucast c)) (v + 1) c n"

fun memcpy :: "memory \<Rightarrow> nat \<Rightarrow> nat \<Rightarrow> nat \<Rightarrow> memory" where
  "memcpy m out inp 0 = m"
| "memcpy m out inp (Suc n) = memcpy (m(out := m inp)) (out + 1) (inp + 1) n"

text \<open>
  The backward loop of \<open>memmove\<close>: with \<open>k\<close> bytes left the pointers are at \<open>out + k - 1\<close> and
  \<open>in + k - 1\<close>.
\<close>

fun memmove_back :: "memory \<Rightarrow> nat \<Rightarrow> nat \<Rightarrow> nat \<Rightarrow> memory" where
  "memmove_back m out inp 0 = m"
| "memmove_back m out inp (Suc k) = memmove_back (m(out + k := m (inp + k))) out inp k"

definition memmove :: "memory \<Rightarrow> nat \<Rightarrow> nat \<Rightarrow> nat \<Rightarrow> memory" where
  "memmove m out inp n =
     (if out \<le> inp \<or> out \<ge> inp + n then memcpy m out inp n else memmove_back m out inp n)"

fun memcmp :: "memory \<Rightarrow> nat \<Rightarrow> nat \<Rightarrow> nat \<Rightarrow> int" where
  "memcmp m c1 c2 0 = 0"
| "memcmp m c1 c2 (Suc n) =
     (let res = uint (m c1) - uint (m c2)
      in if res \<noteq> 0 then res else memcmp m (c1 + 1) (c2 + 1) n)"

declare strnlen_loop.simps [simp del]

section \<open>Strings in memory\<close>

text \<open>\<open>xs\<close> is the C string at \<open>s\<close>: its bytes, none of them NUL, and the NUL that ends it.\<close>

fun cstr_at :: "memory \<Rightarrow> nat \<Rightarrow> u8 list \<Rightarrow> bool" where
  "cstr_at m s [] \<longleftrightarrow> m s = 0"
| "cstr_at m s (x # xs) \<longleftrightarrow> m s = x \<and> x \<noteq> 0 \<and> cstr_at m (s + 1) xs"

lemma cstr_at_iff:
  "cstr_at m s xs \<longleftrightarrow> window m s (length xs) = xs \<and> 0 \<notin> set xs \<and> m (s + length xs) = 0"
  by (induction xs arbitrary: s) (auto simp: window_Suc)

lemma cstr_at_unique: "cstr_at m s xs \<Longrightarrow> cstr_at m s ys \<Longrightarrow> xs = ys"
proof (induction xs arbitrary: s ys)
  case Nil
  then show ?case by (cases ys) auto
next
  case (Cons x xs)
  then show ?case by (cases ys) auto
qed

lemma cstr_at_cong:
  "(\<And>a. s \<le> a \<Longrightarrow> a \<le> s + length xs \<Longrightarrow> m' a = m a) \<Longrightarrow> cstr_at m' s xs = cstr_at m s xs"
proof (induction xs arbitrary: s)
  case (Cons x xs)
  have "cstr_at m' (s + 1) xs = cstr_at m (s + 1) xs"
    by (rule Cons.IH) (use Cons.prems in auto)
  moreover have "m' s = m s" using Cons.prems by simp
  ultimately show ?case by simp
qed simp

section \<open>What the routines compute\<close>

lemma strlen_loop_cstr:
  "cstr_at m ptr xs \<Longrightarrow> s \<le> ptr \<Longrightarrow> strlen_loop m s ptr = Some (ptr - s + length xs)"
proof (induction xs arbitrary: ptr)
  case Nil
  then show ?case by (simp add: strlen_loop.simps)
next
  case (Cons x xs)
  then show ?case by (subst strlen_loop.simps) (simp add: Suc_diff_le)
qed

lemma strlen_cstr: "cstr_at m s xs \<Longrightarrow> strlen m s = Some (length xs)"
  by (simp add: strlen_def strlen_loop_cstr)

lemma strlen_loop_Some:
  assumes "strlen_loop m s ptr = Some n"
  shows "\<exists>k. m (ptr + k) = 0"
proof (rule strlen_loop.raw_induct [where P = "\<lambda>m s ptr n. \<exists>k. m (ptr + k) = 0", OF _ assms])
  fix f :: "memory \<Rightarrow> nat \<Rightarrow> nat \<Rightarrow> nat option" and m :: memory and s ptr n :: nat
  assume IH: "\<And>m s ptr n. f m s ptr = Some n \<Longrightarrow> \<exists>k. m (ptr + k) = 0"
    and eq: "(if m ptr \<noteq> 0 then f m s (ptr + 1) else Some (ptr - s)) = Some n"
  show "\<exists>k. m (ptr + k) = 0"
  proof (cases "m ptr = 0")
    case True
    then show ?thesis by (metis add_0_right)
  next
    case False
    with eq have "f m s (ptr + 1) = Some n" by simp
    from IH [OF this] obtain k where "m (ptr + 1 + k) = 0" by blast
    then show ?thesis by (metis add.assoc)
  qed
qed

lemma cstr_at_exists: "\<exists>k. m (s + k) = 0 \<Longrightarrow> \<exists>xs. cstr_at m s xs"
proof -
  assume "\<exists>k. m (s + k) = 0"
  then obtain k where "m (s + k) = 0" by blast
  then show ?thesis
  proof (induction k arbitrary: s)
    case 0
    then have "cstr_at m s []" by simp
    then show ?case by blast
  next
    case (Suc k)
    show ?case
    proof (cases "m s = 0")
      case True
      then have "cstr_at m s []" by simp
      then show ?thesis by blast
    next
      case False
      from Suc.prems have "m (Suc s + k) = 0" by simp
      from Suc.IH [OF this] obtain xs where "cstr_at m (Suc s) xs" by blast
      with False have "cstr_at m s (m s # xs)" by simp
      then show ?thesis by blast
    qed
  qed
qed

lemma strlen_returns_iff: "(\<exists>n. strlen m s = Some n) \<longleftrightarrow> (\<exists>k. m (s + k) = 0)"
  by (metis cstr_at_exists strlen_cstr strlen_def strlen_loop_Some)

lemma strnlen_loop_cstr:
  "cstr_at m ptr xs \<Longrightarrow> s \<le> ptr \<Longrightarrow> ptr - s \<le> n \<Longrightarrow>
     strnlen_loop m s n ptr = min n (ptr - s + length xs)"
proof (induction xs arbitrary: ptr)
  case Nil
  then show ?case by (simp add: strnlen_loop.simps)
next
  case (Cons x xs)
  show ?case
  proof (cases "ptr - s < n")
    case True
    with Cons show ?thesis by (subst strnlen_loop.simps) (simp add: Suc_diff_le)
  next
    case False
    with Cons.prems show ?thesis by (subst strnlen_loop.simps) simp
  qed
qed

lemma strnlen_cstr: "cstr_at m s xs \<Longrightarrow> strnlen m s n = min n (length xs)"
  by (simp add: strnlen_def strnlen_loop_cstr)

lemma memset_overlay: "memset m v c n = overlay m v (replicate n (ucast c))"
  by (induction n arbitrary: m v) (simp_all add: overlay_Cons)

lemma memcpy_overlay:
  "out \<le> inp \<or> inp + n \<le> out \<Longrightarrow> memcpy m out inp n = overlay m out (window m inp n)"
proof (induction n arbitrary: m out inp)
  case (Suc n)
  let ?m' = "m(out := m inp)"
  have "window ?m' (Suc inp) n = window m (Suc inp) n"
    by (rule window_cong) (use Suc.prems in auto)
  moreover have "memcpy ?m' (Suc out) (Suc inp) n = overlay ?m' (Suc out) (window ?m' (Suc inp) n)"
    by (rule Suc.IH) (use Suc.prems in auto)
  ultimately show ?case by (simp add: window_Suc overlay_Cons)
qed simp

lemma memmove_back_overlay:
  "inp \<le> out \<Longrightarrow> memmove_back m out inp n = overlay m out (window m inp n)"
proof (induction n arbitrary: m)
  case (Suc n)
  let ?m' = "m(out + n := m (inp + n))"
  have "window ?m' inp n = window m inp n"
    by (rule window_cong) (use Suc.prems in auto)
  with Suc have "memmove_back m out inp (Suc n) = overlay ?m' out (window m inp n)"
    by simp
  also have "\<dots> = overlay m out (window m inp n @ [m (inp + n)])"
    by (rule ext) (auto simp: overlay_def nth_append)
  also have "window m inp n @ [m (inp + n)] = window m inp (Suc n)"
    by (simp add: window_def)
  finally show ?case .
qed simp

lemma memmove_overlay: "memmove m out inp n = overlay m out (window m inp n)"
  by (auto simp: memmove_def memcpy_overlay memmove_back_overlay)

lemma strncpy_overlay:
  assumes "cstr_at m src xs" and "dst + n \<le> src \<or> src + length xs < dst"
  shows "strncpy m dst src n = overlay m dst (take n xs @ replicate (n - length xs) 0)"
  using assms
proof (induction n arbitrary: m dst src xs)
  case (Suc n)
  let ?m' = "m(dst := m src)"
  show ?case
  proof (cases xs)
    case Nil
    have "cstr_at ?m' src []"
      using Suc.prems Nil by (auto split: if_splits)
    then have "strncpy ?m' (dst + 1) src n =
        overlay ?m' (dst + 1) (take n [] @ replicate (n - length ([] :: u8 list)) 0)"
      by (rule Suc.IH) (use Suc.prems Nil in auto)
    with Nil Suc.prems show ?thesis by (simp add: overlay_Cons)
  next
    case (Cons y ys)
    have "cstr_at ?m' (src + 1) ys = cstr_at m (src + 1) ys"
      by (rule cstr_at_cong) (use Suc.prems Cons in auto)
    with Suc.prems Cons have "cstr_at ?m' (src + 1) ys" by simp
    then have "strncpy ?m' (dst + 1) (src + 1) n =
        overlay ?m' (dst + 1) (take n ys @ replicate (n - length ys) 0)"
      by (rule Suc.IH) (use Suc.prems Cons in auto)
    with Cons Suc.prems show ?thesis by (simp add: overlay_Cons)
  qed
qed simp

lemma strcpy_overlay:
  assumes "cstr_at m src xs" and "dst + length xs < src \<or> src + length xs < dst"
  shows "strcpy m dst src = Some (overlay m dst (xs @ [0]))"
  using assms
proof (induction xs arbitrary: m dst src)
  case Nil
  then show ?case by (subst strcpy.simps) (simp add: overlay_Cons)
next
  case (Cons x xs)
  let ?m' = "m(dst := m src)"
  have "cstr_at ?m' (src + 1) xs = cstr_at m (src + 1) xs"
    by (rule cstr_at_cong) (use Cons.prems in auto)
  with Cons.prems have "cstr_at ?m' (src + 1) xs" by simp
  then have "strcpy ?m' (dst + 1) (src + 1) = Some (overlay ?m' (dst + 1) (xs @ [0]))"
    by (rule Cons.IH) (use Cons.prems in auto)
  with Cons.prems show ?case by (subst strcpy.simps) (simp add: overlay_Cons Let_def)
qed

lemma strcat_overlay:
  assumes "cstr_at m dst ys" and "cstr_at m src xs"
    and "dst + length ys + length xs < src \<or> src + length xs < dst + length ys"
  shows "strcat m dst src = Some (overlay m (dst + length ys) (xs @ [0]))"
  using assms
proof (induction ys arbitrary: dst)
  case Nil
  then show ?case by (subst strcat.simps) (simp add: strcpy_overlay)
next
  case (Cons y ys)
  then show ?case by (subst strcat.simps) simp
qed

section \<open>Comparison\<close>

text \<open>The three-way lexicographic comparison of byte strings, the contract of \<open>strcmp\<close>.\<close>

definition lex_cmp :: "u8 list \<Rightarrow> u8 list \<Rightarrow> int" where
  "lex_cmp xs ys = (if xs = ys then 0 else if xs < ys then -1 else 1)"

lemma lex_cmp_simps [simp]:
  "lex_cmp [] [] = 0"
  "lex_cmp [] (y # ys) = -1"
  "lex_cmp (x # xs) [] = 1"
  "lex_cmp (x # xs) (y # ys) = (if x = y then lex_cmp xs ys else if x < y then -1 else 1)"
  by (auto simp: lex_cmp_def)

lemma lex_cmp_eq_0 [simp]: "lex_cmp xs ys = 0 \<longleftrightarrow> xs = ys"
  by (simp add: lex_cmp_def)

lemma lex_cmp_antisym: "lex_cmp ys xs = - lex_cmp xs ys"
  by (auto simp: lex_cmp_def)

lemma word_pos_if_nonzero: "(x :: u8) \<noteq> 0 \<Longrightarrow> 0 < x"
  by (simp add: word_neq_0_conv)

lemma strcmp_lex:
  "cstr_at m s1 xs \<Longrightarrow> cstr_at m s2 ys \<Longrightarrow> strcmp m s1 s2 = Some (lex_cmp xs ys)"
proof (induction xs arbitrary: s1 s2 ys)
  case Nil
  then show ?case
    by (cases ys) (simp_all add: strcmp.simps word_neq_0_conv Let_def)
next
  case (Cons x xs)
  show ?case
  proof (cases ys)
    case Nil
    with Cons.prems show ?thesis by (subst strcmp.simps) (simp add: Let_def)
  next
    case (Cons y ys')
    with Cons.IH [of "s1 + 1" "s2 + 1" ys'] Cons.prems \<open>cstr_at m s1 (x # xs)\<close>
    show ?thesis by (subst strcmp.simps) (simp add: Let_def)
  qed
qed

lemma strncmp_lex:
  "cstr_at m s1 xs \<Longrightarrow> cstr_at m s2 ys \<Longrightarrow> strncmp m s1 s2 n = lex_cmp (take n xs) (take n ys)"
proof (induction n arbitrary: s1 s2 xs ys)
  case (Suc n)
  then show ?case
    by (cases xs; cases ys) (auto simp: Let_def word_neq_0_conv)
qed simp

lemma memcmp_eq_0: "memcmp m c1 c2 n = 0 \<longleftrightarrow> window m c1 n = window m c2 n"
  by (induction n arbitrary: c1 c2) (auto simp: window_Suc Let_def word_uint_eq_iff)

lemma memcmp_first_difference:
  assumes "k < n" and "m (c1 + k) \<noteq> m (c2 + k)" and "window m c1 k = window m c2 k"
  shows "memcmp m c1 c2 n = uint (m (c1 + k)) - uint (m (c2 + k))"
  using assms
proof (induction n arbitrary: c1 c2 k)
  case (Suc n)
  then show ?case
    by (cases k) (auto simp: window_Suc Let_def word_uint_eq_iff)
qed simp

section \<open>Properties\<close>

text \<open>
  \<open>memmove\<close> copies \<open>n\<close> bytes whatever the overlap of the two areas: afterwards the destination
  holds the bytes the source held before the call, and every other byte is unchanged.
\<close>

theorem memmove_copies:
  "memmove m out inp n = (\<lambda>a. if out \<le> a \<and> a < out + n then m (inp + (a - out)) else m a)"
  by (rule ext) (auto simp: memmove_overlay overlay_def)

text \<open>
  \<open>strcmp\<close> returns on any two C strings, and its value is the three-way lexicographic
  comparison of their bytes as unsigned numbers.
\<close>

theorem strcmp_compares:
  "cstr_at m s1 xs \<Longrightarrow> cstr_at m s2 ys \<Longrightarrow>
     strcmp m s1 s2 = Some (if xs = ys then 0 else if xs < ys then -1 else 1)"
  by (simp add: strcmp_lex lex_cmp_def)

lemma strcmp_compares_witness:
  "strcmp (overlay (\<lambda>_. 0) 0 [97, 0, 97, 200, 0]) 0 2 = Some (-1)"
  using strcmp_compares [of "overlay (\<lambda>_. 0) 0 [97, 0, 97, 200, 0]" 0 "[97]" 2 "[97, 200]"]
  by (simp add: overlay_def)

text \<open>
  \<open>strcat\<close> on two C strings, where the source lies outside the bytes the result occupies, returns;
  afterwards the destination holds the concatenation, and no byte outside the appended string and
  its NUL has changed.
\<close>

theorem strcat_appends:
  assumes "cstr_at m dst ys" and "cstr_at m src xs"
    and "dst + length ys + length xs < src \<or> src + length xs < dst + length ys"
  shows "\<exists>m'. strcat m dst src = Some m' \<and> cstr_at m' dst (ys @ xs) \<and>
    (\<forall>a. a < dst + length ys \<or> dst + length ys + length xs < a \<longrightarrow> m' a = m a)"
proof -
  let ?m' = "overlay m (dst + length ys) (xs @ [0])"
  have "window ?m' dst (length ys) = ys" "0 \<notin> set ys"
    using assms(1) by (simp_all add: cstr_at_iff window_overlay_disjoint)
  moreover have "window ?m' (dst + length ys) (length xs) = xs"
    by (rule nth_equalityI) (simp_all add: overlay_def nth_append)
  ultimately have "cstr_at ?m' dst (ys @ xs)"
    using assms(2) by (simp add: cstr_at_iff window_append overlay_def nth_append)
  with strcat_overlay [OF assms] show ?thesis by auto
qed

lemma strcat_appends_witness:
  "\<exists>m'. strcat (overlay (\<lambda>_. 0) 0 [97, 0, 0, 98, 0]) 0 3 = Some m' \<and> cstr_at m' 0 [97, 98]"
  using strcat_appends [of "overlay (\<lambda>_. 0) 0 [97, 0, 0, 98, 0]" 0 "[97]" 3 "[98]"]
  by (auto simp: overlay_def)

end
