(* ===== verification/Klib_Rand.thy ===== *)
theory Klib_Rand imports C_Base begin

text \<open>
  The linear congruential generator of \<open>abstract-machine/libs/klib/src/stdlib.c\<close>. The state
  \<open>next\<close> is an \<open>unsigned long\<close>, 32 bits on this target.
\<close>

definition rand :: "u32 \<Rightarrow> nat \<times> u32" where
  "rand nxt =
     (let nxt' = nxt * 1103515245 + 12345
      in (unat ((nxt' div 65536) mod 32768), nxt'))"

definition srand :: "u32 \<Rightarrow> u32" where
  "srand seed = seed"

lemma rand_bound: "rand nxt = (r, nxt') \<Longrightarrow> r < 32768"
proof -
  assume "rand nxt = (r, nxt')"
  then have "r = unat ((nxt * 1103515245 + 12345) div 65536 mod 32768)"
    by (auto simp: rand_def Let_def)
  also have "\<dots> = unat ((nxt * 1103515245 + 12345) div 65536) mod unat (32768 :: u32)"
    by (rule unat_mod)
  also have "\<dots> < 32768" by simp
  finally show ?thesis .
qed

text \<open>The step is a bijection of the state space: no seed is lost and none is a dead end.\<close>

lemma rand_state_inj: "inj (\<lambda>nxt. snd (rand nxt))"
proof (rule injI)
  fix x y :: u32
  assume "snd (rand x) = snd (rand y)"
  then have "x * 1103515245 = y * 1103515245" by (simp add: rand_def Let_def)
  then have "x * (1103515245 * 4005161829) = y * (1103515245 * 4005161829)"
    by (simp only: mult.assoc [symmetric])
  moreover have "(1103515245 :: u32) * 4005161829 = 1" by simp
  ultimately show "x = y" by (simp only: mult_1_right)
qed

section \<open>Properties\<close>

text \<open>
  \<open>rand\<close> returns a number from 0 to 32767 and moves the generator's 32-bit state by a bijection:
  two states have the same successor only when they are equal.
\<close>

theorem rand_range_and_bijection:
  "fst (rand x) < 32768 \<and> (snd (rand x) = snd (rand y) \<longleftrightarrow> x = y)"
  using rand_bound [of x "fst (rand x)" "snd (rand x)"] rand_state_inj by (auto dest: injD)

end
