(* ===== verification/C_Memory.thy ===== *)
theory C_Memory imports C_Base begin

text \<open>
  Little-endian access to 16- and 32-bit integers in byte memory, and the byte layout the packed
  structs of the kernel have on the RAM disk and in the heap. This is the representation the
  compiler gives the structs of the sources, shared by the allocator and the file system; no
  program code is modelled here.
\<close>

section \<open>Integers as bytes\<close>

definition bytes16 :: "u16 \<Rightarrow> u8 list" where
  "bytes16 w = [ucast w, ucast (drop_bit 8 w)]"

definition bytes32 :: "u32 \<Rightarrow> u8 list" where
  "bytes32 w = [ucast w, ucast (drop_bit 8 w), ucast (drop_bit 16 w), ucast (drop_bit 24 w)]"

definition of_bytes16 :: "u8 list \<Rightarrow> u16" where
  "of_bytes16 bs = ucast (bs ! 0) OR push_bit 8 (ucast (bs ! 1))"

definition of_bytes32 :: "u8 list \<Rightarrow> u32" where
  "of_bytes32 bs = ucast (bs ! 0) OR push_bit 8 (ucast (bs ! 1))
     OR push_bit 16 (ucast (bs ! 2)) OR push_bit 24 (ucast (bs ! 3))"

lemma length_bytes [simp]: "length (bytes16 v) = 2" "length (bytes32 w) = 4"
  by (simp_all add: bytes16_def bytes32_def)

lemma of_bytes16_bytes16 [simp]: "of_bytes16 (bytes16 w) = w"
  by (rule bit_word_eqI) (auto simp: of_bytes16_def bytes16_def bit_simps)

lemma of_bytes32_bytes32 [simp]: "of_bytes32 (bytes32 w) = w"
proof (rule bit_word_eqI)
  fix n assume n: "n < LENGTH(32)"
  then consider "n < 8" | "8 \<le> n" "n < 16" | "16 \<le> n" "n < 24" | "24 \<le> n" by linarith
  then show "bit (of_bytes32 (bytes32 w)) n = bit w n"
    using n by cases (auto simp: of_bytes32_def bytes32_def bit_simps)
qed

text \<open>\<open>ld32 m a\<close> is \<open>*(uint32_t *)a\<close>, \<open>st32 m a w\<close> the store.\<close>

definition ld16 :: "memory \<Rightarrow> nat \<Rightarrow> u16" where
  "ld16 m a = of_bytes16 (window m a 2)"

definition st16 :: "memory \<Rightarrow> nat \<Rightarrow> u16 \<Rightarrow> memory" where
  "st16 m a w = overlay m a (bytes16 w)"

definition ld32 :: "memory \<Rightarrow> nat \<Rightarrow> u32" where
  "ld32 m a = of_bytes32 (window m a 4)"

definition st32 :: "memory \<Rightarrow> nat \<Rightarrow> u32 \<Rightarrow> memory" where
  "st32 m a w = overlay m a (bytes32 w)"

lemma ld32_st32_same [simp]: "ld32 (st32 m a w) a = w"
  by (simp add: ld32_def st32_def window_overlay_same_len)

lemma ld32_st32_disjoint [simp]: "a + 4 \<le> b \<or> b + 4 \<le> a \<Longrightarrow> ld32 (st32 m a w) b = ld32 m b"
  by (auto simp: ld32_def st32_def window_overlay_disjoint)

lemma ld32_cong: "(\<And>x. a \<le> x \<Longrightarrow> x < a + 4 \<Longrightarrow> m x = m' x) \<Longrightarrow> ld32 m a = ld32 m' a"
  by (simp add: ld32_def cong: window_cong)

lemma st32_outside: "x < a \<or> a + 4 \<le> x \<Longrightarrow> st32 m a w x = m x"
  by (simp add: st32_def)

lemma ld16_overlay: "ld16 (overlay m a xs) b = ld16 m b" if "a + length xs \<le> b \<or> b + 2 \<le> a"
  using that by (auto simp: ld16_def window_overlay_disjoint)

lemma ld32_overlay: "ld32 (overlay m a xs) b = ld32 m b" if "a + length xs \<le> b \<or> b + 4 \<le> a"
  using that by (auto simp: ld32_def window_overlay_disjoint)

section \<open>Sequences of 32-bit integers\<close>

definition words32 :: "u32 list \<Rightarrow> u8 list" where
  "words32 ws = concat (map bytes32 ws)"

lemma words32_simps [simp]: "words32 [] = []" "words32 (w # ws) = bytes32 w @ words32 ws"
  by (simp_all add: words32_def)

lemma length_words32 [simp]: "length (words32 ws) = 4 * length ws"
  by (induction ws) simp_all

fun of_words32 :: "nat \<Rightarrow> u8 list \<Rightarrow> u32 list" where
  "of_words32 0 bs = []"
| "of_words32 (Suc n) bs = of_bytes32 (take 4 bs) # of_words32 n (drop 4 bs)"

lemma of_words32_words32 [simp]: "of_words32 (length ws) (words32 ws @ bs) = ws"
  by (induction ws) simp_all

lemma length_of_words32 [simp]: "length (of_words32 n bs) = n"
  by (induction n arbitrary: bs) simp_all

end
