(* ===== verification/Spinlock.thy ===== *)
theory Spinlock imports C_Base begin

text \<open>
  The spinlocks of \<open>kernel/src/kmt.c\<close>: the nesting counter of disabled interrupts
  (\<open>pushcli\<close>, \<open>popcli\<close>), the lock operations as sequential functions on one lock and the state
  of the CPU that runs them, the contract the other components use, and the lock shared by
  several CPUs as a step relation, one step per access to shared memory.

  The build leaves \<open>DEBUG\<close> undefined, so \<open>Assert\<close>, \<open>Panic\<close> and \<open>assertIF0\<close> of debug.h are
  empty; \<open>assert\<close> of klib.h is active.
\<close>

section \<open>Interrupt nesting\<close>

text \<open>
  The per-CPU state: the interrupt flag that \<open>_intr_read\<close> and \<open>_intr_write\<close> access, and the
  entries of \<open>cpuncli\<close> and \<open>intena\<close> for this CPU.
\<close>

record cpu_state =
  intr :: bool
  ncli :: int
  intena :: bool

definition pushcli :: "cpu_state \<Rightarrow> cpu_state" where
  "pushcli s =
     (let f = intr s;
          s1 = s\<lparr>intr := False\<rparr>;
          s2 = (if ncli s1 = 0 then s1\<lparr>intena := f\<rparr> else s1)
      in s2\<lparr>ncli := ncli s2 + 1\<rparr>)"

definition popcli :: "cpu_state \<Rightarrow> cpu_state" where
  "popcli s =
     (let s1 = s\<lparr>ncli := ncli s - 1\<rparr>
      in if ncli s1 = 0 \<and> intena s1 then s1\<lparr>intr := True\<rparr> else s1)"

text \<open>What the kernel keeps true: the depth is never negative, and interrupts are off inside.\<close>

definition cli_ok :: "cpu_state \<Rightarrow> bool" where
  "cli_ok s \<longleftrightarrow> 0 \<le> ncli s \<and> (0 < ncli s \<longrightarrow> \<not> intr s)"

text \<open>A balanced pair leaves the CPU as it was, except that the saved flag is refreshed.\<close>

definition cli_refresh :: "cpu_state \<Rightarrow> cpu_state" where
  "cli_refresh s = (if ncli s = 0 then s\<lparr>intena := intr s\<rparr> else s)"

lemma cli_ok_pushcli [inv_intros]: "cli_ok s \<Longrightarrow> cli_ok (pushcli s)"
  by (simp add: cli_ok_def pushcli_def Let_def)

lemma pushcli_off [simp]: "\<not> intr (pushcli s)"
  by (simp add: pushcli_def Let_def)

lemma ncli_pushcli [simp]: "ncli (pushcli s) = ncli s + 1"
  by (simp add: pushcli_def Let_def)

lemma popcli_pushcli: "cli_ok s \<Longrightarrow> popcli (pushcli s) = cli_refresh s"
  by (cases s) (auto simp: cli_ok_def pushcli_def popcli_def cli_refresh_def Let_def)

lemma cli_refresh_simps [simp]:
  "intr (cli_refresh s) = intr s"
  "ncli (cli_refresh s) = ncli s"
  "cli_ok (cli_refresh s) = cli_ok s"
  "cli_refresh (cli_refresh s) = cli_refresh s"
  by (auto simp: cli_refresh_def cli_ok_def)

lemma cli_refresh_nested: "0 < ncli s \<Longrightarrow> cli_refresh s = s"
  by (simp add: cli_refresh_def)

section \<open>The lock operations\<close>

record spinlock =
  lk_name :: string
  locked :: int
  lk_cpu :: int

definition spin_init :: "spinlock \<Rightarrow> string \<Rightarrow> spinlock" where
  "spin_init lk name = lk\<lparr>lk_cpu := -1, locked := 0, lk_name := name\<rparr>"

definition holding :: "nat \<Rightarrow> spinlock \<Rightarrow> cpu_state \<Rightarrow> bool \<times> cpu_state" where
  "holding c lk s =
     (let s1 = pushcli s;
          r = (locked lk \<noteq> 0 \<and> lk_cpu lk = int c)
      in (r, popcli s1))"

text \<open>
  One CPU running alone: the exchange loop ends at once when the lock is free, and otherwise
  never, since nobody else runs to release it.
\<close>

definition spin_lock :: "nat \<Rightarrow> spinlock \<Rightarrow> cpu_state \<Rightarrow> (spinlock \<times> cpu_state) result" where
  "spin_lock c lk s =
     (let s1 = pushcli s
      in if locked lk \<noteq> 0 then Inl Hang
         else Inr (lk\<lparr>locked := 1, lk_cpu := int c\<rparr>, s1))"

definition spin_unlock :: "nat \<Rightarrow> spinlock \<Rightarrow> cpu_state \<Rightarrow> (spinlock \<times> cpu_state) result" where
  "spin_unlock c lk s =
     (let (h, s1) = holding c lk s
      in bindr (assert_that h) (\<lambda>_.
           Inr (lk\<lparr>lk_cpu := -1, locked := 0\<rparr>, popcli s1)))"

definition lock_free :: "spinlock \<Rightarrow> bool" where
  "lock_free lk \<longleftrightarrow> locked lk = 0 \<and> lk_cpu lk = -1"

lemma lock_free_spin_init [simp]: "lock_free (spin_init lk n)"
  by (simp add: lock_free_def spin_init_def)

lemma spin_lock_free:
  "lock_free lk \<Longrightarrow> spin_lock c lk s = Inr (lk\<lparr>locked := 1, lk_cpu := int c\<rparr>, pushcli s)"
  by (simp add: spin_lock_def lock_free_def Let_def)

lemma spin_lock_held: "locked lk \<noteq> 0 \<Longrightarrow> spin_lock c lk s = Inl Hang"
  by (simp add: spin_lock_def Let_def)

lemma spin_unlock_not_held:
  "locked lk = 0 \<or> lk_cpu lk \<noteq> int c \<Longrightarrow> spin_unlock c lk s = Inl Halt"
  by (auto simp: spin_unlock_def holding_def Let_def)

lemma spin_unlock_held:
  assumes "locked lk \<noteq> 0" and "lk_cpu lk = int c" and "cli_ok s" and "0 < ncli s"
  shows "spin_unlock c lk s = Inr (lk\<lparr>lk_cpu := -1, locked := 0\<rparr>, popcli s)"
  using assms by (simp add: spin_unlock_def holding_def Let_def popcli_pushcli cli_refresh_nested)

section \<open>The contract of a lock\<close>

text \<open>
  What the clients of a lock rely on: acquiring a free lock succeeds and gives a state in which
  releasing it succeeds, the lock is free again and the CPU is as before up to the refreshed
  saved flag; acquiring a lock that is not free never returns.
\<close>

locale lock_contract =
  fixes acquire :: "'l \<Rightarrow> 's \<Rightarrow> ('l \<times> 's) result"
    and release :: "'l \<Rightarrow> 's \<Rightarrow> ('l \<times> 's) result"
    and is_free :: "'l \<Rightarrow> bool"
    and ok :: "'s \<Rightarrow> bool"
    and after :: "'s \<Rightarrow> 's"
  assumes acquire_release: "is_free l \<Longrightarrow> ok s \<Longrightarrow>
      \<exists>l' s'. acquire l s = Inr (l', s') \<and> ok s' \<and> release l' s' = Inr (l, after s)"
    and acquire_twice: "is_free l \<Longrightarrow> ok s \<Longrightarrow> acquire l s = Inr (l', s') \<Longrightarrow>
      acquire l' s'' = Inl Hang"
    and ok_after: "ok s \<Longrightarrow> ok (after s)"
begin

text \<open>A critical section: acquire, compute, release.\<close>

definition section_of :: "'l \<Rightarrow> 's \<Rightarrow> 'r result \<Rightarrow> ('r \<times> 'l \<times> 's) result" where
  "section_of l s body = bindr (acquire l s) (\<lambda>(l1, s1).
     bindr body (\<lambda>r. bindr (release l1 s1) (\<lambda>(l2, s2). Inr (r, l2, s2))))"

lemma section_free:
  "is_free l \<Longrightarrow> ok s \<Longrightarrow> section_of l s (Inr r) = Inr (r, l, after s)"
  using acquire_release [of l s] by (auto simp: section_of_def)

lemma section_fault:
  "is_free l \<Longrightarrow> ok s \<Longrightarrow> section_of l s (Inl e) = Inl e"
  using acquire_release [of l s] by (auto simp: section_of_def)

lemma section_result:
  assumes "is_free l" and "ok s" and "section_of l s body = Inr (r, l', s')"
  shows "body = Inr r \<and> l' = l \<and> s' = after s \<and> is_free l' \<and> ok s'"
  using assms by (cases body) (auto simp: section_free section_fault ok_after)

lemma section_reentered:
  assumes "is_free l" and "ok s" and "acquire l s = Inr (l', s')"
  shows "section_of l' s'' body = Inl Hang"
  using acquire_twice [OF assms] by (simp add: section_of_def)

end

interpretation spin: lock_contract "spin_lock c" "spin_unlock c" lock_free cli_ok cli_refresh
  for c
proof (unfold_locales, goal_cases)
  case (1 l s)
  let ?l = "l\<lparr>locked := 1, lk_cpu := int c\<rparr>"
  have "spin_unlock c ?l (pushcli s) = Inr (?l\<lparr>lk_cpu := -1, locked := 0\<rparr>, popcli (pushcli s))"
    using 1(2) by (intro spin_unlock_held) (auto simp: cli_ok_def pushcli_def Let_def)
  moreover have "?l\<lparr>lk_cpu := -1, locked := 0\<rparr> = l"
    using 1(1) by (simp add: lock_free_def)
  ultimately show ?case
    using 1 by (auto simp: spin_lock_free popcli_pushcli inv_intros)
next
  case (2 l s l' s' s'')
  then show ?case by (auto simp: spin_lock_free intro!: spin_lock_held)
qed simp

text \<open>
  \<open>kmt->spin_lock(&lk); r = body; kmt->spin_unlock(&lk)\<close>, the bracket every client of the locks
  uses.
\<close>

definition with_lock ::
  "nat \<Rightarrow> spinlock \<Rightarrow> cpu_state \<Rightarrow> 'r result \<Rightarrow> ('r \<times> spinlock \<times> cpu_state) result" where
  "with_lock c lk s body = bindr (spin_lock c lk s) (\<lambda>(l1, s1).
     bindr body (\<lambda>r. bindr (spin_unlock c l1 s1) (\<lambda>(l2, s2). Inr (r, l2, s2))))"

lemma with_lock_section: "with_lock c lk s body = spin.section_of c lk s body"
  by (simp add: with_lock_def spin.section_of_def)

lemma with_lock_free [simp]:
  "lock_free lk \<Longrightarrow> cli_ok s \<Longrightarrow> with_lock c lk s (Inr r) = Inr (r, lk, cli_refresh s)"
  by (simp add: with_lock_section spin.section_free)

lemma with_lock_fault [simp]:
  "lock_free lk \<Longrightarrow> cli_ok s \<Longrightarrow> with_lock c lk s (Inl e) = Inl e"
  by (simp add: with_lock_section spin.section_fault)

lemma with_lock_held [simp]: "locked lk \<noteq> 0 \<Longrightarrow> with_lock c lk s body = Inl Hang"
  by (simp add: with_lock_def spin_lock_held)

lemma with_lock_Inr:
  assumes "with_lock c lk s body = Inr (r, lk', s')" and "cli_ok s"
  shows "body = Inr r" and "s' = cli_refresh s" and "lock_free lk'"
proof -
  have "locked lk = 0"
    using assms(1) with_lock_held [of lk c s body] by fastforce
  moreover have "spin_unlock c (lk\<lparr>locked := 1, lk_cpu := int c\<rparr>) (pushcli s) =
      Inr (lk\<lparr>locked := 0, lk_cpu := -1\<rparr>, popcli (pushcli s))"
    using assms(2) by (subst spin_unlock_held) (auto simp: inv_intros cli_ok_def)
  ultimately have "body = Inr r \<and> s' = cli_refresh s \<and> lk' = lk\<lparr>locked := 0, lk_cpu := -1\<rparr>"
    using assms by (cases body) (auto simp: with_lock_def spin_lock_def Let_def popcli_pushcli)
  then show "body = Inr r" "s' = cli_refresh s" "lock_free lk'"
    by (simp_all add: lock_free_def)
qed

text \<open>
  The same bracket around a body that runs code which takes other locks: it starts from the CPU
  state the first lock leaves and hands on the one it ends in.
\<close>

definition with_lock_nested ::
  "nat \<Rightarrow> spinlock \<Rightarrow> cpu_state \<Rightarrow> (cpu_state \<Rightarrow> ('r \<times> cpu_state) result) \<Rightarrow>
     ('r \<times> spinlock \<times> cpu_state) result" where
  "with_lock_nested c lk s body = bindr (spin_lock c lk s) (\<lambda>(l1, s1).
     bindr (body s1) (\<lambda>(r, s2). bindr (spin_unlock c l1 s2) (\<lambda>(l2, s3). Inr (r, l2, s3))))"

lemma with_lock_nested_free:
  assumes "lock_free lk" and "cli_ok s" and "body (pushcli s) = Inr (r, pushcli s)"
  shows "with_lock_nested c lk s body = Inr (r, lk, cli_refresh s)"
proof -
  have "with_lock_nested c lk s body = with_lock c lk s (Inr r)"
    using assms by (simp add: with_lock_nested_def with_lock_def spin_lock_free)
  with assms(1,2) show ?thesis by simp
qed

lemma with_lock_nested_fault:
  assumes "lock_free lk" and "body (pushcli s) = Inl e"
  shows "with_lock_nested c lk s body = Inl e"
  using assms by (simp add: with_lock_nested_def spin_lock_free)

lemma with_lock_nested_held [simp]:
  "locked lk \<noteq> 0 \<Longrightarrow> with_lock_nested c lk s body = Inl Hang"
  by (simp add: with_lock_nested_def spin_lock_held)

lemma cli_refresh_pushcli [simp]: "0 \<le> ncli s \<Longrightarrow> cli_refresh (pushcli s) = pushcli s"
  by (rule cli_refresh_nested) simp

end
