(* ===== verification/Spinlock_SMP.thy ===== *)
theory Spinlock_SMP imports Spinlock begin

text \<open>
  One spinlock of \<open>kernel/src/kmt.c\<close> used by every CPU of the machine at once. A step is one CPU
  doing one access to shared memory (the lock's fields) together with the local work around it;
  which CPU moves next is not determined. The program counter of a CPU names the point between
  two accesses it has reached in \<open>spin_lock\<close> or \<open>spin_unlock\<close>.
\<close>

section \<open>The step relation\<close>

datatype lock_pc =
    Out \<comment> \<open>outside the lock's code, free to enable or disable interrupts\<close>
  | Spinning \<comment> \<open>after \<open>pushcli\<close>, in the exchange loop\<close>
  | Got \<comment> \<open>exchange returned 0, owner not yet written\<close>
  | Critical \<comment> \<open>\<open>spin_lock\<close> has returned\<close>
  | Check_locked \<comment> \<open>in \<open>holding\<close>, after its \<open>pushcli\<close>\<close>
  | Check_cpu \<comment> \<open>in \<open>holding\<close>, \<open>lock->locked\<close> read as nonzero\<close>
  | Clear_cpu \<comment> \<open>the assertion has passed\<close>
  | Clear_locked \<comment> \<open>\<open>lk->cpu\<close> is -1\<close>
  | Popping \<comment> \<open>\<open>lk->locked\<close> is 0\<close>
  | Failed \<comment> \<open>\<open>assert(holding(lk))\<close> has halted the machine\<close>

record smp =
  the_lock :: spinlock
  pcs :: "nat \<Rightarrow> lock_pc"
  cpus :: "nat \<Rightarrow> cpu_state"

definition smp_init :: "(nat \<Rightarrow> cpu_state) \<Rightarrow> spinlock \<Rightarrow> string \<Rightarrow> smp" where
  "smp_init cs lk name = \<lparr>the_lock = spin_init lk name, pcs = (\<lambda>_. Out), cpus = cs\<rparr>"

inductive smp_step :: "nat \<Rightarrow> smp \<Rightarrow> smp \<Rightarrow> bool" where
  set_intr: "pcs s c = Out \<Longrightarrow>
    smp_step c s (s\<lparr>cpus := (cpus s)(c := (cpus s c)\<lparr>intr := b\<rparr>)\<rparr>)"
| enter: "pcs s c = Out \<Longrightarrow>
    smp_step c s (s\<lparr>pcs := (pcs s)(c := Spinning), cpus := (cpus s)(c := pushcli (cpus s c))\<rparr>)"
| xchg_busy: "pcs s c = Spinning \<Longrightarrow> locked (the_lock s) \<noteq> 0 \<Longrightarrow>
    smp_step c s (s\<lparr>the_lock := (the_lock s)\<lparr>locked := 1\<rparr>\<rparr>)"
| xchg_free: "pcs s c = Spinning \<Longrightarrow> locked (the_lock s) = 0 \<Longrightarrow>
    smp_step c s (s\<lparr>the_lock := (the_lock s)\<lparr>locked := 1\<rparr>, pcs := (pcs s)(c := Got)\<rparr>)"
| set_cpu: "pcs s c = Got \<Longrightarrow>
    smp_step c s (s\<lparr>the_lock := (the_lock s)\<lparr>lk_cpu := int c\<rparr>, pcs := (pcs s)(c := Critical)\<rparr>)"
| unlock: "pcs s c = Critical \<Longrightarrow>
    smp_step c s (s\<lparr>pcs := (pcs s)(c := Check_locked), cpus := (cpus s)(c := pushcli (cpus s c))\<rparr>)"
| check_locked: "pcs s c = Check_locked \<Longrightarrow> locked (the_lock s) \<noteq> 0 \<Longrightarrow>
    smp_step c s (s\<lparr>pcs := (pcs s)(c := Check_cpu)\<rparr>)"
| check_locked_fails: "pcs s c = Check_locked \<Longrightarrow> locked (the_lock s) = 0 \<Longrightarrow>
    smp_step c s (s\<lparr>pcs := (pcs s)(c := Failed)\<rparr>)"
| check_cpu: "pcs s c = Check_cpu \<Longrightarrow> lk_cpu (the_lock s) = int c \<Longrightarrow>
    smp_step c s (s\<lparr>pcs := (pcs s)(c := Clear_cpu), cpus := (cpus s)(c := popcli (cpus s c))\<rparr>)"
| check_cpu_fails: "pcs s c = Check_cpu \<Longrightarrow> lk_cpu (the_lock s) \<noteq> int c \<Longrightarrow>
    smp_step c s (s\<lparr>pcs := (pcs s)(c := Failed)\<rparr>)"
| clear_cpu: "pcs s c = Clear_cpu \<Longrightarrow>
    smp_step c s (s\<lparr>the_lock := (the_lock s)\<lparr>lk_cpu := -1\<rparr>, pcs := (pcs s)(c := Clear_locked)\<rparr>)"
| clear_locked: "pcs s c = Clear_locked \<Longrightarrow>
    smp_step c s (s\<lparr>the_lock := (the_lock s)\<lparr>locked := 0\<rparr>, pcs := (pcs s)(c := Popping)\<rparr>)"
| leave: "pcs s c = Popping \<Longrightarrow>
    smp_step c s (s\<lparr>pcs := (pcs s)(c := Out), cpus := (cpus s)(c := popcli (cpus s c))\<rparr>)"

inductive_cases smp_stepE: "smp_step c s t"

inductive smp_reach :: "smp \<Rightarrow> bool" where
  init: "\<forall>c. ncli (cs c) = 0 \<Longrightarrow> smp_reach (smp_init cs lk name)"
| step: "smp_reach s \<Longrightarrow> smp_step c s t \<Longrightarrow> smp_reach t"

section \<open>The invariant\<close>

definition owns :: "lock_pc \<Rightarrow> bool" where
  "owns p \<longleftrightarrow> p \<in> {Got, Critical, Check_locked, Check_cpu, Clear_cpu, Clear_locked}"

definition wrote_cpu :: "lock_pc \<Rightarrow> bool" where
  "wrote_cpu p \<longleftrightarrow> p \<in> {Critical, Check_locked, Check_cpu, Clear_cpu}"

text \<open>The depth of \<open>pushcli\<close> a CPU is at, by its program counter.\<close>

fun depth :: "lock_pc \<Rightarrow> int" where
  "depth Out = 0"
| "depth Check_locked = 2"
| "depth Check_cpu = 2"
| "depth Failed = 2"
| "depth _ = 1"

lemma owns_simps [simp]:
  "\<not> owns Out" "\<not> owns Spinning" "owns Got" "owns Critical" "owns Check_locked" "owns Check_cpu"
  "owns Clear_cpu" "owns Clear_locked" "\<not> owns Popping" "\<not> owns Failed"
  by (simp_all add: owns_def)

lemma wrote_cpu_simps [simp]:
  "\<not> wrote_cpu Out" "\<not> wrote_cpu Spinning" "\<not> wrote_cpu Got" "wrote_cpu Critical"
  "wrote_cpu Check_locked" "wrote_cpu Check_cpu" "wrote_cpu Clear_cpu" "\<not> wrote_cpu Clear_locked"
  "\<not> wrote_cpu Popping" "\<not> wrote_cpu Failed"
  by (simp_all add: wrote_cpu_def)

lemma wrote_cpu_owns: "wrote_cpu p \<Longrightarrow> owns p"
  by (cases p) simp_all

text \<open>
  The lock is taken exactly when one CPU owns it; the owner's number is in \<open>lk->cpu\<close> from the
  write to the clear; interrupts are off wherever the depth is positive.
\<close>

definition lock_agrees :: "smp \<Rightarrow> bool" where
  "lock_agrees s \<longleftrightarrow>
     (\<forall>c d. owns (pcs s c) \<longrightarrow> owns (pcs s d) \<longrightarrow> c = d) \<and>
     (locked (the_lock s) \<noteq> 0 \<longleftrightarrow> (\<exists>c. owns (pcs s c))) \<and>
     (\<forall>c. wrote_cpu (pcs s c) \<longrightarrow> lk_cpu (the_lock s) = int c)"

definition cpu_agrees :: "smp \<Rightarrow> bool" where
  "cpu_agrees s \<longleftrightarrow>
     (\<forall>c. pcs s c \<noteq> Failed \<and> ncli (cpus s c) = depth (pcs s c) \<and>
          (pcs s c \<noteq> Out \<longrightarrow> \<not> intr (cpus s c)))"

lemma lock_agrees_init: "lock_agrees (smp_init cs lk name)"
  by (simp add: lock_agrees_def smp_init_def spin_init_def)

lemma cpu_agrees_init: "\<forall>c. ncli (cs c) = 0 \<Longrightarrow> cpu_agrees (smp_init cs lk name)"
  by (simp add: cpu_agrees_def smp_init_def)

lemma owner_locked: "lock_agrees s \<Longrightarrow> owns (pcs s c) \<Longrightarrow> locked (the_lock s) \<noteq> 0"
  by (auto simp: lock_agrees_def)

lemma owner_unique: "lock_agrees s \<Longrightarrow> owns (pcs s c) \<Longrightarrow> owns (pcs s d) \<Longrightarrow> d = c"
  by (simp add: lock_agrees_def)

lemma owner_cpu: "lock_agrees s \<Longrightarrow> wrote_cpu (pcs s c) \<Longrightarrow> lk_cpu (the_lock s) = int c"
  by (simp add: lock_agrees_def)

text \<open>
  A step of the owner that keeps the lock and moves the owner's program counter: the other CPUs
  own nothing, so only the owner's number can matter.
\<close>

lemma lock_agrees_owner:
  assumes "lock_agrees s" and "owns (pcs s c)" and "owns p"
    and "locked lk = locked (the_lock s)" and "wrote_cpu p \<longrightarrow> lk_cpu lk = int c"
  shows "lock_agrees (s\<lparr>the_lock := lk, pcs := (pcs s)(c := p), cpus := cs\<rparr>)"
proof -
  have others: "\<not> owns (pcs s d)" if "d \<noteq> c" for d
    using owner_unique [OF assms(1,2)] that by blast
  have own: "owns (((pcs s)(c := p)) d) \<longleftrightarrow> d = c" for d
    using others assms(3) by auto
  have "wrote_cpu (((pcs s)(c := p)) d) \<Longrightarrow> d = c \<and> wrote_cpu p" for d
    using others wrote_cpu_owns by (metis fun_upd_apply)
  with own assms(4,5) owner_locked [OF assms(1,2)] show ?thesis
    by (auto simp: lock_agrees_def simp del: fun_upd_apply)
qed

lemma lock_agrees_free:
  assumes "lock_agrees s" and "locked (the_lock s) = 0" and "owns p"
    and "\<not> wrote_cpu p" and "locked lk \<noteq> 0"
  shows "lock_agrees (s\<lparr>the_lock := lk, pcs := (pcs s)(c := p)\<rparr>)"
proof -
  have "\<not> owns (pcs s d)" for d
    using owner_locked [OF assms(1)] assms(2) by blast
  then show ?thesis
    using assms wrote_cpu_owns by (auto simp: lock_agrees_def)
qed

lemma lock_agrees_release:
  assumes "lock_agrees s" and "owns (pcs s c)" and "\<not> owns p" and "locked lk = 0"
  shows "lock_agrees (s\<lparr>the_lock := lk, pcs := (pcs s)(c := p)\<rparr>)"
proof -
  have "\<not> owns (((pcs s)(c := p)) d)" for d
    using owner_unique [OF assms(1,2)] assms(3) by auto
  then show ?thesis
    using assms(4) wrote_cpu_owns by (auto simp: lock_agrees_def simp del: fun_upd_apply)
qed

text \<open>A step of a CPU that owns nothing before and after it.\<close>

lemma lock_agrees_outside:
  assumes "lock_agrees s" and "\<not> owns (pcs s c)" and "\<not> owns p"
  shows "lock_agrees (s\<lparr>pcs := (pcs s)(c := p), cpus := cs\<rparr>)"
proof -
  have "owns (((pcs s)(c := p)) d) \<longleftrightarrow> owns (pcs s d)" for d
    using assms(2,3) by simp
  moreover have "wrote_cpu (((pcs s)(c := p)) d) \<Longrightarrow> wrote_cpu (pcs s d)" for d
    using assms(3) wrote_cpu_owns by (metis fun_upd_apply)
  ultimately show ?thesis
    using assms(1) by (simp add: lock_agrees_def del: fun_upd_apply)
qed

lemma lock_agrees_step: "smp_step c s t \<Longrightarrow> lock_agrees s \<Longrightarrow> lock_agrees t"
proof (induction rule: smp_step.induct)
  case (set_intr s c b)
  then show ?case by (simp add: lock_agrees_def)
next
  case (enter s c)
  then show ?case using lock_agrees_outside [of s c Spinning] by simp
next
  case (xchg_busy s c)
  then show ?case by (simp add: lock_agrees_def)
next
  case (xchg_free s c)
  then show ?case by (simp add: lock_agrees_free)
next
  case (set_cpu s c)
  then show ?case using lock_agrees_owner [of s c Critical _ "cpus s"] by simp
next
  case (unlock s c)
  then show ?case
    using lock_agrees_owner [of s c Check_locked "the_lock s"] owner_cpu [of s c] by simp
next
  case (check_locked s c)
  then show ?case
    using lock_agrees_owner [of s c Check_cpu "the_lock s" "cpus s"] owner_cpu [of s c] by simp
next
  case (check_locked_fails s c)
  then show ?case using owner_locked [of s c] by simp
next
  case (check_cpu s c)
  then show ?case using lock_agrees_owner [of s c Clear_cpu "the_lock s"] by simp
next
  case (check_cpu_fails s c)
  then show ?case using owner_cpu [of s c] by simp
next
  case (clear_cpu s c)
  then show ?case using lock_agrees_owner [of s c Clear_locked _ "cpus s"] by simp
next
  case (clear_locked s c)
  then show ?case by (simp add: lock_agrees_release)
next
  case (leave s c)
  then show ?case using lock_agrees_outside [of s c Out] by simp
qed

lemma cpu_agrees_step: "smp_step c s t \<Longrightarrow> lock_agrees s \<Longrightarrow> cpu_agrees s \<Longrightarrow> cpu_agrees t"
proof (induction rule: smp_step.induct)
  case (check_locked_fails s c)
  then show ?case using owner_locked [of s c] by simp
next
  case (check_cpu_fails s c)
  then show ?case using owner_cpu [of s c] by simp
next
  case (leave s c)
  then show ?case by (simp add: cpu_agrees_def popcli_def Let_def)
next
  case (check_cpu s c)
  then have "ncli (cpus s c) = 2" by (simp add: cpu_agrees_def)
  with check_cpu show ?case by (simp add: cpu_agrees_def popcli_def Let_def)
qed (auto simp: cpu_agrees_def)

lemma smp_reach_agrees: "smp_reach s \<Longrightarrow> lock_agrees s \<and> cpu_agrees s"
proof (induction rule: smp_reach.induct)
  case (init cs lk name)
  then show ?case by (simp add: lock_agrees_init cpu_agrees_init)
next
  case (step s c t)
  then show ?case by (blast intro: lock_agrees_step cpu_agrees_step)
qed

section \<open>Progress\<close>

text \<open>No CPU is ever stuck, and a spinning CPU gets a free lock in one step.\<close>

lemma smp_step_enabled:
  assumes "smp_reach s"
  shows "\<exists>t. smp_step c s t"
proof -
  have "pcs s c \<noteq> Failed"
    using smp_reach_agrees [OF assms] by (simp add: cpu_agrees_def)
  then show ?thesis
    by (cases "pcs s c") (blast intro: smp_step.intros)+
qed

section \<open>Properties\<close>

text \<open>
  C3. Mutual exclusion: in every state the CPUs can reach by running \<open>spin_lock\<close> and
  \<open>spin_unlock\<close> step by step in any order, at most one CPU is between the exchange that took the
  lock and the store that frees it.
\<close>

theorem spin_mutual_exclusion:
  "smp_reach s \<Longrightarrow> owns (pcs s c) \<Longrightarrow> owns (pcs s d) \<Longrightarrow> c = d"
  using smp_reach_agrees by (auto simp: lock_agrees_def)

definition idle_cpus :: "nat \<Rightarrow> cpu_state" where
  "idle_cpus c = \<lparr>intr = True, ncli = 0, intena = False\<rparr>"

lemma smp_reach_critical:
  "\<exists>s. smp_reach s \<and> pcs s 0 = Critical \<and> pcs s 1 = Spinning"
proof -
  define lk where "lk = \<lparr>lk_name = ''l'', locked = 0, lk_cpu = 0\<rparr>"
  define s0 where "s0 = smp_init idle_cpus lk ''l''"
  have r0: "smp_reach s0"
    unfolding s0_def by (rule smp_reach.init) (simp add: idle_cpus_def)
  have s0: "pcs s0 = (\<lambda>_. Out)" "locked (the_lock s0) = 0"
    by (simp_all add: s0_def smp_init_def spin_init_def)
  define s1 where "s1 = s0\<lparr>pcs := (pcs s0)(0 := Spinning), cpus := (cpus s0)(0 := pushcli (cpus s0 0))\<rparr>"
  have r1: "smp_reach s1"
    unfolding s1_def by (rule smp_reach.step [OF r0 smp_step.enter]) (simp add: s0)
  define s2 where "s2 = s1\<lparr>pcs := (pcs s1)(1 := Spinning), cpus := (cpus s1)(1 := pushcli (cpus s1 1))\<rparr>"
  have r2: "smp_reach s2"
    unfolding s2_def by (rule smp_reach.step [OF r1 smp_step.enter]) (simp add: s0 s1_def)
  define s3 where "s3 = s2\<lparr>the_lock := (the_lock s2)\<lparr>locked := 1\<rparr>, pcs := (pcs s2)(0 := Got)\<rparr>"
  have r3: "smp_reach s3"
    unfolding s3_def by (rule smp_reach.step [OF r2 smp_step.xchg_free]) (simp_all add: s0 s1_def s2_def)
  define s4 where "s4 = s3\<lparr>the_lock := (the_lock s3)\<lparr>lk_cpu := int 0\<rparr>, pcs := (pcs s3)(0 := Critical)\<rparr>"
  have "smp_reach s4"
    unfolding s4_def by (rule smp_reach.step [OF r3 smp_step.set_cpu]) (simp add: s3_def)
  then show ?thesis by (intro exI [of _ s4]) (simp add: s4_def s3_def s2_def)
qed

lemma spin_mutual_exclusion_witness:
  "\<exists>s. smp_reach s \<and> pcs s 0 = Critical \<and> (\<forall>d. owns (pcs s d) \<longleftrightarrow> d = 0)"
proof -
  obtain s where s: "smp_reach s" "pcs s 0 = Critical" using smp_reach_critical by blast
  have "owns (pcs s d) \<longleftrightarrow> d = 0" for d
    using spin_mutual_exclusion [OF s(1), of d 0] s(2) by auto
  with s show ?thesis by blast
qed

text \<open>
  \<open>assert(holding(lk))\<close> in \<open>spin_unlock\<close> never halts a machine whose CPUs pair the two calls, and a CPU
  runs with interrupts off from the \<open>pushcli\<close> of \<open>spin_lock\<close> to the \<open>popcli\<close> of \<open>spin_unlock\<close>.
\<close>

theorem spin_assert_and_interrupts:
  "smp_reach s \<Longrightarrow> pcs s c \<noteq> Failed \<and> (pcs s c \<noteq> Out \<longrightarrow> \<not> intr (cpus s c))"
  using smp_reach_agrees by (auto simp: cpu_agrees_def)

lemma spin_assert_and_interrupts_witness:
  "\<exists>s. smp_reach s \<and> pcs s 0 = Critical \<and> \<not> intr (cpus s 0) \<and> \<not> intr (cpus s 1)"
proof -
  obtain s where s: "smp_reach s" "pcs s 0 = Critical" "pcs s 1 = Spinning"
    using smp_reach_critical by blast
  show ?thesis
    using spin_assert_and_interrupts [OF s(1), of 0] spin_assert_and_interrupts [OF s(1), of 1] s
    by auto
qed

text \<open>
  C14. Progress: in every reachable state every CPU has a step, and a CPU that spins while the lock
  is not owned can take it at once.
\<close>

theorem spin_progress:
  "smp_reach s \<Longrightarrow> (\<exists>t. smp_step c s t) \<and>
     (pcs s c = Spinning \<longrightarrow> (\<forall>d. \<not> owns (pcs s d)) \<longrightarrow> (\<exists>t. smp_step c s t \<and> owns (pcs t c)))"
proof (intro conjI impI)
  assume r: "smp_reach s"
  show "\<exists>t. smp_step c s t" by (rule smp_step_enabled [OF r])
  assume p: "pcs s c = Spinning" and free: "\<forall>d. \<not> owns (pcs s d)"
  have "locked (the_lock s) = 0"
    using smp_reach_agrees [OF r] free by (auto simp: lock_agrees_def)
  from smp_step.xchg_free [OF p this] show "\<exists>t. smp_step c s t \<and> owns (pcs t c)"
    by (intro exI conjI) (assumption, simp)
qed

lemma spin_progress_witness:
  "\<exists>s. smp_reach s \<and> pcs s 0 = Critical \<and> (\<exists>t. smp_step 0 s t) \<and> (\<exists>t. smp_step 1 s t)"
proof -
  obtain s where s: "smp_reach s" "pcs s 0 = Critical" using smp_reach_critical by blast
  show ?thesis
    using spin_progress [OF s(1), of 0] spin_progress [OF s(1), of 1] s by blast
qed

end
