(* ===== verification/Pmm.thy ===== *)
theory Pmm imports C_Memory Klib_String Spinlock begin

text \<open>
  The physical memory manager \<open>kernel/src/pmm.c\<close>: a doubly linked list of headers inside the
  heap it manages, first fit. The headers are bytes of the same memory as the blocks handed out,
  so that a client's writes and the allocator's are writes to one array.
\<close>

section \<open>Headers\<close>

text \<open>
  \<open>struct node { struct node *next, *pre; uintptr_t start, end; }\<close>: four 32-bit fields, so
  \<open>BIAS = sizeof(struct node)\<close> is 16.
\<close>

definition BIAS :: u32 where
  "BIAS = 16"

definition nd_next :: "memory \<Rightarrow> u32 \<Rightarrow> u32" where
  "nd_next m p = ld32 m (unat p)"

definition nd_pre :: "memory \<Rightarrow> u32 \<Rightarrow> u32" where
  "nd_pre m p = ld32 m (unat p + 4)"

definition nd_start :: "memory \<Rightarrow> u32 \<Rightarrow> u32" where
  "nd_start m p = ld32 m (unat p + 8)"

definition nd_end :: "memory \<Rightarrow> u32 \<Rightarrow> u32" where
  "nd_end m p = ld32 m (unat p + 12)"

definition set_next :: "memory \<Rightarrow> u32 \<Rightarrow> u32 \<Rightarrow> memory" where
  "set_next m p v = st32 m (unat p) v"

definition set_pre :: "memory \<Rightarrow> u32 \<Rightarrow> u32 \<Rightarrow> memory" where
  "set_pre m p v = st32 m (unat p + 4) v"

definition set_start :: "memory \<Rightarrow> u32 \<Rightarrow> u32 \<Rightarrow> memory" where
  "set_start m p v = st32 m (unat p + 8) v"

definition set_end :: "memory \<Rightarrow> u32 \<Rightarrow> u32 \<Rightarrow> memory" where
  "set_end m p v = st32 m (unat p + 12) v"

section \<open>The operations\<close>

record pmm_state =
  heap :: memory
  head_p :: u32
  tail_p :: u32
  pm_start :: u32
  pm_end :: u32
  alloc_lock :: spinlock
  kcpu :: cpu_state

definition list_init :: "u32 \<Rightarrow> u32 \<Rightarrow> pmm_state \<Rightarrow> pmm_state" where
  "list_init ps pe s =
     (let h = ps;
          t = pe - BIAS;
          m1 = set_next (heap s) h t;
          m2 = set_pre m1 h 0;
          m3 = set_next m2 t 0;
          m4 = set_pre m3 t h;
          m5 = set_start m4 h ps;
          m6 = set_end m5 h (nd_start m5 h + BIAS);
          m7 = set_start m6 t (pe - BIAS);
          m8 = set_end m7 t (nd_start m7 t + BIAS)
      in s\<lparr>heap := m8, head_p := h, tail_p := t\<rparr>)"

definition add_node :: "memory \<Rightarrow> u32 \<Rightarrow> u32 \<Rightarrow> u32 \<times> memory" where
  "add_node m p sz =
     (let tmp = nd_end m p;
          m1 = set_start m tmp (nd_end m p);
          m2 = set_end m1 tmp (nd_start m1 tmp + sz + BIAS);
          m3 = set_pre m2 tmp p;
          m4 = set_next m3 tmp (nd_next m3 p);
          m5 = set_pre m4 (nd_next m4 p) tmp;
          m6 = set_next m5 p tmp
      in (nd_start m6 tmp + BIAS, m6))"

definition delete_node :: "memory \<Rightarrow> u32 \<Rightarrow> memory" where
  "delete_node m p =
     (let m1 = set_pre m (nd_next m p) (nd_pre m p)
      in set_next m1 (nd_pre m1 p) (nd_next m1 p))"

definition pmm_init :: "u32 \<Rightarrow> u32 \<Rightarrow> pmm_state \<Rightarrow> pmm_state" where
  "pmm_init heap_start heap_end s =
     (let s1 = s\<lparr>pm_start := heap_start, pm_end := heap_end,
                 alloc_lock := spin_init (alloc_lock s) ''alloc''\<rparr>
      in list_init (pm_start s1) (pm_end s1) s1)"

text \<open>
  The search loop of \<open>kalloc\<close>: \<open>None\<close> when it does not end, \<open>Some None\<close> when it reaches the
  tail. \<open>Assert\<close> is empty in this build.
\<close>

partial_function (option) find_gap :: "memory \<Rightarrow> u32 \<Rightarrow> u32 \<Rightarrow> u32 \<Rightarrow> u32 option option" where
  "find_gap m tail sz p =
     (if p = tail then Some None
      else if nd_start m (nd_next m p) - nd_end m p \<ge> sz + BIAS then Some (Some p)
      else find_gap m tail sz (nd_next m p))"

declare find_gap.simps [code]

definition kalloc :: "nat \<Rightarrow> u32 \<Rightarrow> pmm_state \<Rightarrow> (u32 \<times> pmm_state) result" where
  "kalloc c sz s =
     bindr (with_lock c (alloc_lock s) (kcpu s)
       (case find_gap (heap s) (tail_p s) sz (head_p s) of
          None \<Rightarrow> Inl Hang
        | Some None \<Rightarrow> Inr (0, heap s)
        | Some (Some p) \<Rightarrow> Inr (add_node (heap s) p sz)))
     (\<lambda>((ret, m), lk, cs). Inr (ret, s\<lparr>heap := m, alloc_lock := lk, kcpu := cs\<rparr>))"

definition kfree :: "nat \<Rightarrow> u32 \<Rightarrow> pmm_state \<Rightarrow> pmm_state result" where
  "kfree c ptr s =
     (let p = ptr - BIAS
      in bindr (with_lock c (alloc_lock s) (kcpu s) (Inr (delete_node (heap s) p)))
           (\<lambda>(m, lk, cs). Inr (s\<lparr>heap := m, alloc_lock := lk, kcpu := cs\<rparr>)))"

text \<open>\<open>balloc\<close>: \<open>size\<close> zeroed bytes of a block one byte larger. The pointer is not checked.\<close>

definition balloc :: "nat \<Rightarrow> u32 \<Rightarrow> pmm_state \<Rightarrow> (u32 \<times> pmm_state) result" where
  "balloc c sz s =
     bindr (kalloc c (sz + 1) s) (\<lambda>(ret, s').
       Inr (ret, s'\<lparr>heap := memset (heap s') (unat ret) 0 (unat sz)\<rparr>))"

section \<open>Separated headers\<close>

definition sep :: "u32 \<Rightarrow> u32 \<Rightarrow> bool" where
  "sep a b \<longleftrightarrow> a = b \<or> unat a + 16 \<le> unat b \<or> unat b + 16 \<le> unat a"

lemmas field_defs =
  nd_next_def nd_pre_def nd_start_def nd_end_def set_next_def set_pre_def set_start_def set_end_def

lemma sep_refl [simp]: "sep a a"
  by (simp add: sep_def)

lemma sep_sym: "sep a b \<Longrightarrow> sep b a"
  by (auto simp: sep_def)

lemma field_same [simp]:
  "nd_next (set_next m a v) a = v"
  "nd_next (set_pre m a v) a = nd_next m a"
  "nd_next (set_start m a v) a = nd_next m a"
  "nd_next (set_end m a v) a = nd_next m a"
  "nd_pre (set_next m a v) a = nd_pre m a"
  "nd_pre (set_pre m a v) a = v"
  "nd_pre (set_start m a v) a = nd_pre m a"
  "nd_pre (set_end m a v) a = nd_pre m a"
  "nd_start (set_next m a v) a = nd_start m a"
  "nd_start (set_pre m a v) a = nd_start m a"
  "nd_start (set_start m a v) a = v"
  "nd_start (set_end m a v) a = nd_start m a"
  "nd_end (set_next m a v) a = nd_end m a"
  "nd_end (set_pre m a v) a = nd_end m a"
  "nd_end (set_start m a v) a = nd_end m a"
  "nd_end (set_end m a v) a = v"
  by (simp_all add: field_defs)

lemma field_other:
  assumes "sep a b" and "a \<noteq> b"
  shows
  "nd_next (set_next m a v) b = nd_next m b"
  "nd_next (set_pre m a v) b = nd_next m b"
  "nd_next (set_start m a v) b = nd_next m b"
  "nd_next (set_end m a v) b = nd_next m b"
  "nd_pre (set_next m a v) b = nd_pre m b"
  "nd_pre (set_pre m a v) b = nd_pre m b"
  "nd_pre (set_start m a v) b = nd_pre m b"
  "nd_pre (set_end m a v) b = nd_pre m b"
  "nd_start (set_next m a v) b = nd_start m b"
  "nd_start (set_pre m a v) b = nd_start m b"
  "nd_start (set_start m a v) b = nd_start m b"
  "nd_start (set_end m a v) b = nd_start m b"
  "nd_end (set_next m a v) b = nd_end m b"
  "nd_end (set_pre m a v) b = nd_end m b"
  "nd_end (set_start m a v) b = nd_end m b"
  "nd_end (set_end m a v) b = nd_end m b"
  using assms unfolding sep_def field_defs
  by (auto intro!: ld32_st32_disjoint)

text \<open>Outside a header its fields' stores change nothing.\<close>

lemma field_outside:
  assumes "x < unat a \<or> unat a + 16 \<le> x"
  shows "set_next m a v x = m x" "set_pre m a v x = m x"
    "set_start m a v x = m x" "set_end m a v x = m x"
  using assms by (auto simp: field_defs intro!: st32_outside)

lemma field_cong:
  assumes "\<And>x. unat a \<le> x \<Longrightarrow> x < unat a + 16 \<Longrightarrow> m' x = m x"
  shows "nd_next m' a = nd_next m a" "nd_pre m' a = nd_pre m a"
    "nd_start m' a = nd_start m a" "nd_end m' a = nd_end m a"
  using assms by (auto simp: field_defs intro!: ld32_cong)

end
