(* ===== verification/Pmm_Refine.thy ===== *)
theory Pmm_Refine imports Pmm begin

text \<open>
  The allocator of \<open>kernel/src/pmm.c\<close> against its specification: a sorted list of intervals, one
  per header with its block, where an allocation takes the first gap that is large enough and a
  release drops an interval. The invariant says that the headers in memory form exactly such a
  list; theory \<open>Pmm_Contract\<close> lifts it to whole states.
\<close>

section \<open>The list of headers\<close>

definition node_ok :: "memory \<Rightarrow> u32 \<Rightarrow> bool" where
  "node_ok m a \<longleftrightarrow> nd_start m a = a \<and> unat a + 16 \<le> unat (nd_end m a)"

definition conn :: "memory \<Rightarrow> u32 \<Rightarrow> u32 \<Rightarrow> bool" where
  "conn m a b \<longleftrightarrow> nd_next m a = b \<and> nd_pre m b = a \<and> unat (nd_end m a) \<le> unat b"

fun adj :: "memory \<Rightarrow> u32 list \<Rightarrow> bool" where
  "adj m [] \<longleftrightarrow> True"
| "adj m [a] \<longleftrightarrow> node_ok m a"
| "adj m (a # b # r) \<longleftrightarrow> node_ok m a \<and> conn m a b \<and> adj m (b # r)"

lemma adj_append:
  "adj m (xs @ a # b # ys) \<longleftrightarrow> adj m (xs @ [a]) \<and> conn m a b \<and> adj m (b # ys)"
proof (induction xs)
  case (Cons x xs)
  then show ?case by (cases xs) auto
qed simp

lemma adj_node_ok: "adj m ns \<Longrightarrow> a \<in> set ns \<Longrightarrow> node_ok m a"
  by (induction m ns rule: adj.induct) auto

lemma adj_above:
  "adj m (a # ns) \<Longrightarrow> b \<in> set ns \<Longrightarrow> unat (nd_end m a) \<le> unat b"
proof (induction ns arbitrary: a)
  case (Cons c ns)
  show ?case
  proof (cases "b = c")
    case True
    with Cons.prems show ?thesis by (simp add: conn_def)
  next
    case False
    with Cons.prems have "unat (nd_end m c) \<le> unat b" by (intro Cons.IH) auto
    moreover have "node_ok m c" using Cons.prems(1) by (cases ns) auto
    ultimately show ?thesis using Cons.prems by (simp add: conn_def node_ok_def)
  qed
qed simp

lemma adj_tl: "adj m (a # ns) \<Longrightarrow> adj m ns"
  by (cases ns) auto

lemma adj_sorted: "adj m ns \<Longrightarrow> sorted_wrt (\<lambda>a b. unat (nd_end m a) \<le> unat b) ns"
  by (induction ns) (auto intro: adj_above dest: adj_tl)

lemma adj_distinct: "adj m ns \<Longrightarrow> distinct ns"
proof (induction ns)
  case (Cons a ns)
  have "a \<notin> set ns"
  proof
    assume "a \<in> set ns"
    with adj_above [OF Cons.prems] have "unat (nd_end m a) \<le> unat a" by blast
    moreover have "node_ok m a" using adj_node_ok [OF Cons.prems] by simp
    ultimately show False by (simp add: node_ok_def)
  qed
  with Cons show ?case by (auto dest: adj_tl)
qed simp

lemma adj_sep: "adj m ns \<Longrightarrow> a \<in> set ns \<Longrightarrow> b \<in> set ns \<Longrightarrow> sep a b"
proof (induction ns)
  case (Cons c ns)
  have *: "sep c d" if "d \<in> set ns" for d
  proof -
    have "unat (nd_end m c) \<le> unat d" using adj_above Cons.prems(1) that by blast
    moreover have "node_ok m c" using adj_node_ok [OF Cons.prems(1)] by simp
    ultimately show ?thesis by (simp add: node_ok_def sep_def)
  qed
  show ?case
    using Cons * adj_tl [OF Cons.prems(1)] by (auto intro: sep_sym)
qed simp

text \<open>
  The shape of a list only depends on these fields: not on the \<open>next\<close> of its last node, nor on
  the \<open>pre\<close> of its first.
\<close>

lemma adj_cong:
  assumes "\<And>a. a \<in> set ns \<Longrightarrow> nd_start m' a = nd_start m a \<and> nd_end m' a = nd_end m a"
    and "\<And>a. a \<in> set (butlast ns) \<Longrightarrow> nd_next m' a = nd_next m a"
    and "\<And>a. a \<in> set (tl ns) \<Longrightarrow> nd_pre m' a = nd_pre m a"
  shows "adj m' ns = adj m ns"
  using assms
proof (induction m ns rule: adj.induct)
  case (3 m a b r)
  have "adj m' (b # r) = adj m (b # r)"
  proof (rule "3.IH")
    fix x assume "x \<in> set (tl (b # r))"
    then show "nd_pre m' x = nd_pre m x" using "3.prems"(3) by simp
  qed (use "3.prems" in auto)
  moreover have "node_ok m' a = node_ok m a"
    using "3.prems"(1) [of a] by (simp add: node_ok_def)
  moreover have "conn m' a b = conn m a b"
    using "3.prems"(1) [of a] "3.prems"(2) [of a] "3.prems"(3) [of b] by (simp add: conn_def)
  ultimately show ?case by simp
qed (auto simp: node_ok_def)

section \<open>The invariant\<close>

definition pmm_wf :: "pmm_state \<Rightarrow> u32 list \<Rightarrow> bool" where
  "pmm_wf s ns \<longleftrightarrow>
     2 \<le> length ns \<and> adj (heap s) ns \<and> hd ns = head_p s \<and> last ns = tail_p s \<and>
     lock_free (alloc_lock s) \<and> cli_ok (kcpu s)"

text \<open>The intervals: each header with the block behind it.\<close>

definition blocks :: "memory \<Rightarrow> u32 list \<Rightarrow> (nat \<times> nat) list" where
  "blocks m ns = map (\<lambda>a. (unat a, unat (nd_end m a))) ns"

fun spec_alloc :: "nat \<Rightarrow> (nat \<times> nat) list \<Rightarrow> (nat \<times> (nat \<times> nat) list) option" where
  "spec_alloc n ((a, e) # (b, f) # r) =
     (if e + n + 16 \<le> b then Some (e + 16, (a, e) # (e, e + n + 16) # (b, f) # r)
      else map_option (\<lambda>(x, bs). (x, (a, e) # bs)) (spec_alloc n ((b, f) # r)))"
| "spec_alloc n bs = None"

definition spec_free :: "nat \<Rightarrow> (nat \<times> nat) list \<Rightarrow> (nat \<times> nat) list" where
  "spec_free p bs = filter (\<lambda>(a, e). a + 16 \<noteq> p) bs"

text \<open>The node after which the first large enough gap lies.\<close>

fun first_fit :: "memory \<Rightarrow> u32 \<Rightarrow> u32 list \<Rightarrow> u32 option" where
  "first_fit m n (a # b # r) =
     (if nd_start m b - nd_end m a \<ge> n + BIAS then Some a else first_fit m n (b # r))"
| "first_fit m n ns = None"

lemma find_gap_first_fit:
  "adj m ns \<Longrightarrow> ns \<noteq> [] \<Longrightarrow> find_gap m (last ns) n (hd ns) = Some (first_fit m n ns)"
proof (induction m n ns rule: first_fit.induct)
  case (1 m n a b r)
  have "a \<noteq> last (b # r)"
    using adj_distinct [OF "1.prems"(1)] last_in_set [of "b # r"] by fastforce
  moreover have "find_gap m (last (b # r)) n b = Some (first_fit m n (b # r))"
    if "\<not> nd_start m b - nd_end m a \<ge> n + BIAS"
    using "1.IH" [OF that] "1.prems" by simp
  ultimately show ?case
    using "1.prems" by (subst find_gap.simps) (auto simp: conn_def)
qed (simp_all add: find_gap.simps)

text \<open>The code's test against the numbers it stands for.\<close>

lemma gap_test:
  assumes "node_ok m b" and "unat (nd_end m a) \<le> unat b" and "unat n + 16 < 2 ^ 32"
  shows "nd_start m b - nd_end m a \<ge> n + BIAS \<longleftrightarrow> unat (nd_end m a) + unat n + 16 \<le> unat b"
proof -
  have "unat (n + BIAS) = unat n + 16"
    using assms(3) by (simp add: BIAS_def unat_add_lem [THEN iffD1])
  moreover have "unat (nd_start m b - nd_end m a) = unat b - unat (nd_end m a)"
    using assms(1,2) by (simp add: node_ok_def unat_sub word_le_nat_alt)
  ultimately show ?thesis
    using assms(2) by (auto simp: word_le_nat_alt)
qed

lemma spec_alloc_first_fit:
  assumes "first_fit m n ns = Some p" and "adj m ns" and "unat n + 16 < 2 ^ 32"
  shows "\<exists>xs q ys. ns = xs @ p # q # ys \<and> unat (nd_end m p) + unat n + 16 \<le> unat q \<and>
    spec_alloc (unat n) (blocks m ns) =
      Some (unat (nd_end m p) + 16, blocks m (xs @ [p]) @
        (unat (nd_end m p), unat (nd_end m p) + unat n + 16) # blocks m (q # ys))"
  using assms
proof (induction m n ns rule: first_fit.induct)
  case (1 m n a b r)
  have b: "node_ok m b" using adj_node_ok [OF "1.prems"(2)] by simp
  have ab: "unat (nd_end m a) \<le> unat b" using "1.prems"(2) by (simp add: conn_def)
  note test = gap_test [OF b ab "1.prems"(3)]
  show ?case
  proof (cases "nd_start m b - nd_end m a \<ge> n + BIAS")
    case True
    with "1.prems"(1) have "p = a" by simp
    with True test show ?thesis
      by (intro exI [of _ "[]"] exI [of _ b] exI [of _ r]) (simp add: blocks_def)
  next
    case False
    with "1.prems" obtain xs q ys
      where split: "b # r = xs @ p # q # ys" "unat (nd_end m p) + unat n + 16 \<le> unat q"
        and sp: "spec_alloc (unat n) (blocks m (b # r)) =
          Some (unat (nd_end m p) + 16, blocks m (xs @ [p]) @
            (unat (nd_end m p), unat (nd_end m p) + unat n + 16) # blocks m (q # ys))"
      using "1.IH" by fastforce
    have "spec_alloc (unat n) (blocks m (a # b # r)) =
        map_option (\<lambda>(x, bs). (x, (unat a, unat (nd_end m a)) # bs))
          (spec_alloc (unat n) (blocks m (b # r)))"
      using False test by (simp add: blocks_def)
    with split sp show ?thesis
      by (intro exI [of _ "a # xs"] exI [of _ q] exI [of _ ys]) (simp add: blocks_def)
  qed
qed simp_all

lemma spec_alloc_no_fit:
  "first_fit m n ns = None \<Longrightarrow> adj m ns \<Longrightarrow> unat n + 16 < 2 ^ 32 \<Longrightarrow>
     spec_alloc (unat n) (blocks m ns) = None"
proof (induction m n ns rule: first_fit.induct)
  case (1 m n a b r)
  have b: "node_ok m b" using adj_node_ok [OF "1.prems"(2)] by simp
  have ab: "unat (nd_end m a) \<le> unat b" using "1.prems"(2) by (simp add: conn_def)
  note test = gap_test [OF b ab "1.prems"(3)]
  have no: "\<not> nd_start m b - nd_end m a \<ge> n + BIAS"
    using "1.prems"(1) by (auto split: if_splits)
  have "spec_alloc (unat n) (blocks m (b # r)) = None"
    by (rule "1.IH" [OF no]) (use "1.prems" no in auto)
  with no test show ?case by (simp add: blocks_def)
qed (simp_all add: blocks_def)

section \<open>Inserting a header\<close>

lemma add_node_closed:
  assumes "sep t p" "t \<noteq> p" "sep t q" "t \<noteq> q" "sep q t" "sep p t" "q \<noteq> t" "p \<noteq> t"
    and "nd_end m p = t" and "nd_next m p = q"
  shows "add_node m p n = (t + BIAS,
    set_next (set_pre (set_next (set_pre (set_end (set_start m t t) t (t + n + BIAS)) t p) t q) q t) p t)"
proof -
  note eval = assms(9,10) field_other [OF assms(1,2)] field_other [OF assms(3,4)]
    field_other [OF assms(5,7)] field_other [OF assms(6,8)]
  show ?thesis by (simp add: add_node_def Let_def eval)
qed

lemma add_node_new:
  assumes "sep t p" "t \<noteq> p" "sep t q" "t \<noteq> q" "sep p q" "p \<noteq> q"
    and "nd_end m p = t" and "nd_next m p = q"
    and m': "add_node m p n = (ret, m')"
  shows "ret = t + BIAS"
    and "nd_start m' t = t" "nd_end m' t = t + n + BIAS" "nd_next m' t = q" "nd_pre m' t = p"
    and "nd_next m' p = t" "nd_pre m' q = t"
    and "nd_start m' p = nd_start m p" "nd_end m' p = nd_end m p" "nd_pre m' p = nd_pre m p"
    and "nd_start m' q = nd_start m q" "nd_end m' q = nd_end m q" "nd_next m' q = nd_next m q"
proof -
  note seps = assms(1-6) assms(1,3,5) [THEN sep_sym] assms(2,4,6) [symmetric]
  have closed: "m' = set_next (set_pre (set_next (set_pre
      (set_end (set_start m t t) t (t + n + BIAS)) t p) t q) q t) p t" and "ret = t + BIAS"
    using add_node_closed [of t p q m n] m' seps assms(7,8) by simp_all
  note eval = closed field_other [OF assms(1,2)] field_other [OF assms(3,4)]
    field_other [OF assms(5,6)] field_other [OF sep_sym [OF assms(1)] assms(2) [symmetric]]
    field_other [OF sep_sym [OF assms(3)] assms(4) [symmetric]]
    field_other [OF sep_sym [OF assms(5)] assms(6) [symmetric]]
  show "ret = t + BIAS" by fact
  show "nd_start m' t = t" "nd_end m' t = t + n + BIAS" "nd_next m' t = q" "nd_pre m' t = p"
    "nd_next m' p = t" "nd_pre m' q = t" "nd_start m' p = nd_start m p" "nd_end m' p = nd_end m p"
    "nd_pre m' p = nd_pre m p" "nd_start m' q = nd_start m q" "nd_end m' q = nd_end m q"
    "nd_next m' q = nd_next m q"
    by (simp_all add: eval)
qed

lemma add_node_other:
  assumes "sep t p" "t \<noteq> p" "sep t q" "t \<noteq> q" "sep p q" "p \<noteq> q"
    and "nd_end m p = t" and "nd_next m p = q"
    and m': "add_node m p n = (ret, m')"
    and b: "sep p b" "p \<noteq> b" "sep q b" "q \<noteq> b" "sep t b" "t \<noteq> b"
  shows "nd_start m' b = nd_start m b" "nd_end m' b = nd_end m b"
    "nd_next m' b = nd_next m b" "nd_pre m' b = nd_pre m b"
proof -
  note seps = assms(1-6) assms(1,3,5) [THEN sep_sym] assms(2,4,6) [symmetric]
  have closed: "m' = set_next (set_pre (set_next (set_pre
      (set_end (set_start m t t) t (t + n + BIAS)) t p) t q) q t) p t"
    using add_node_closed [of t p q m n] m' seps assms(7,8) by simp
  note eval = field_other [OF b(1,2)] field_other [OF b(3,4)] field_other [OF b(5,6)]
  show "nd_start m' b = nd_start m b" "nd_end m' b = nd_end m b"
    "nd_next m' b = nd_next m b" "nd_pre m' b = nd_pre m b"
    by (simp_all add: closed eval)
qed

lemma adj_before: "adj m (xs @ p # ys) \<Longrightarrow> b \<in> set xs \<Longrightarrow> unat b + 16 \<le> unat p"
proof -
  assume adj: "adj m (xs @ p # ys)" and b: "b \<in> set xs"
  then have "unat (nd_end m b) \<le> unat p"
    using adj_sorted [OF adj] by (simp add: sorted_wrt_append)
  moreover have "node_ok m b" using adj_node_ok [OF adj] b by simp
  ultimately show ?thesis by (simp add: node_ok_def)
qed

lemma adj_after: "adj m (xs @ p # ys) \<Longrightarrow> b \<in> set ys \<Longrightarrow> unat (nd_end m p) \<le> unat b"
  using adj_sorted [of m "xs @ p # ys"] by (simp add: sorted_wrt_append)

lemma sep_less: "unat a + 16 \<le> unat b \<Longrightarrow> sep a b \<and> sep b a \<and> a \<noteq> b \<and> b \<noteq> a"
  by (auto simp: sep_def)

lemma blocks_append: "blocks m (xs @ ys) = blocks m xs @ blocks m ys"
  by (simp add: blocks_def)

lemma blocks_cong:
  "(\<And>a. a \<in> set ns \<Longrightarrow> nd_end m' a = nd_end m a) \<Longrightarrow> blocks m' ns = blocks m ns"
  by (simp add: blocks_def)

lemma add_node_adj:
  assumes adj: "adj m (xs @ p # q # ys)" and t: "nd_end m p = t"
    and gap: "unat t + unat n + 16 \<le> unat q"
    and add: "add_node m p n = (ret, m')"
  shows "adj m' (xs @ p # t # q # ys)"
    and "blocks m' (xs @ p # t # q # ys) =
      blocks m (xs @ [p]) @ (unat t, unat t + unat n + 16) # blocks m (q # ys)"
    and "unat ret = unat t + 16"
proof -
  have ok: "node_ok m p" "node_ok m q" using adj_node_ok [OF adj] by auto
  have pq: "conn m p q" and adjs: "adj m (xs @ [p])" "adj m (q # ys)"
    using adj adj_append by blast+
  have pt: "unat p + 16 \<le> unat t" using ok(1) t by (simp add: node_ok_def)
  have tq: "unat t + 16 \<le> unat q" using gap by simp
  note seps = sep_less [OF pt] sep_less [OF tq] sep_less [OF order_trans [OF pt le_trans [OF le_add1 tq]]]
  have q: "nd_next m p = q" using pq by (simp add: conn_def)
  have "unat t + unat n + 16 < 2 ^ 32" using gap unat_u32_less [of q] by simp
  then have size: "unat (t + n + BIAS) = unat t + unat n + 16" "unat (t + BIAS) = unat t + 16"
    by (simp_all add: BIAS_def unat_word_ariths)
  note new = add_node_new [of t p q m n ret m'] and other = add_node_other [of t p q m n ret m']
  have far: "sep p b \<and> p \<noteq> b \<and> sep q b \<and> q \<noteq> b \<and> sep t b \<and> t \<noteq> b"
    if "b \<in> set xs \<or> b \<in> set ys" for b
    using that
  proof
    assume b: "b \<in> set xs"
    have "unat b + 16 \<le> unat p" by (rule adj_before [OF adj b])
    with pt tq show ?thesis
      using sep_less [of b p] sep_less [of b t] sep_less [of b q] by auto
  next
    assume b: "b \<in> set ys"
    have "unat q + 16 \<le> unat b"
      using adj_after [of m "xs @ [p]" q ys b] adj b ok(2) by (simp add: node_ok_def)
    with pt tq show ?thesis
      using sep_less [of p b] sep_less [of t b] sep_less [of q b] by auto
  qed
  have same: "nd_start m' b = nd_start m b \<and> nd_end m' b = nd_end m b \<and>
      nd_next m' b = nd_next m b \<and> nd_pre m' b = nd_pre m b" if "b \<in> set xs \<or> b \<in> set ys" for b
    using other [of b] far [OF that] seps t q add by auto
  have ends: "nd_end m' b = nd_end m b" if "b \<in> set (xs @ [p]) \<or> b \<in> set (q # ys)" for b
    using that same [of b] new seps t q add by auto
  have "adj m' (xs @ [p]) = adj m (xs @ [p])"
  proof (rule adj_cong)
    fix a assume "a \<in> set (tl (xs @ [p]))"
    then have "a \<in> set xs \<or> a = p" by (cases xs) auto
    then show "nd_pre m' a = nd_pre m a"
      using same [of a] new(10) seps t q add by auto
  qed (use same new seps t q add in auto)
  moreover have "adj m' (q # ys) = adj m (q # ys)"
  proof (rule adj_cong)
    fix a assume "a \<in> set (butlast (q # ys))"
    then have "a \<in> set ys \<or> a = q" by (auto dest: in_set_butlastD split: if_splits)
    then show "nd_next m' a = nd_next m a"
      using same [of a] new(13) seps t q add by auto
  qed (use same new seps t q add in auto)
  moreover have "conn m' p t" "conn m' t q" "node_ok m' t"
    using new seps t q add size gap by (auto simp: conn_def node_ok_def)
  moreover have "node_ok m' q" using ok(2) new seps t q add by (auto simp: node_ok_def)
  ultimately have "adj m' (xs @ [p])" "conn m' p t" "adj m' (t # q # ys)"
    using adjs by simp_all
  then show "adj m' (xs @ p # t # q # ys)" by (simp add: adj_append)
  have "nd_end m' t = t + n + BIAS" using new seps t q add by simp
  then show "blocks m' (xs @ p # t # q # ys) =
      blocks m (xs @ [p]) @ (unat t, unat t + unat n + 16) # blocks m (q # ys)"
    using ends size by (simp add: blocks_def)
  show "unat ret = unat t + 16" using new(1) seps t q add size by simp
qed

lemma add_node_outside:
  assumes "sep t p" "t \<noteq> p" "sep t q" "t \<noteq> q" "sep p q" "p \<noteq> q"
    and "nd_end m p = t" "nd_next m p = q" and "add_node m p n = (ret, m')"
    and "\<And>a. a \<in> {p, t, q} \<Longrightarrow> x < unat a \<or> unat a + 16 \<le> x"
  shows "m' x = m x"
proof -
  note seps = assms(1-6) assms(1,3,5) [THEN sep_sym] assms(2,4,6) [symmetric]
  have closed: "m' = set_next (set_pre (set_next (set_pre (set_end (set_start m t t) t
      (t + n + BIAS)) t p) t q) q t) p t"
    using add_node_closed [of t p q m n] assms(7-9) seps by simp
  have "x < unat p \<or> unat p + 16 \<le> x" "x < unat t \<or> unat t + 16 \<le> x" "x < unat q \<or> unat q + 16 \<le> x"
    using assms(10) by auto
  then show ?thesis by (simp add: closed field_outside)
qed

section \<open>Removing a header\<close>

lemma delete_node_adj:
  assumes adj: "adj m (xs @ a # p # b # ys)" and m': "m' = delete_node m p"
  shows "adj m' (xs @ a # b # ys)"
    and "blocks m' (xs @ a # b # ys) = blocks m (xs @ [a]) @ blocks m (b # ys)"
    and "\<And>x. x < unat a \<or> unat a + 16 \<le> x \<Longrightarrow> x < unat b \<or> unat b + 16 \<le> x \<Longrightarrow> m' x = m x"
proof -
  have adj2: "adj m (xs @ [a])" "conn m a p" "adj m (p # b # ys)"
    using adj adj_append by blast+
  then have conns: "nd_pre m p = a" "nd_next m p = b" "unat (nd_end m a) \<le> unat p"
      "unat (nd_end m p) \<le> unat b" "adj m (b # ys)"
    by (auto simp: conn_def)
  have ok: "node_ok m a" "node_ok m p" "node_ok m b" using adj_node_ok [OF adj] by auto
  have ap: "unat a + 16 \<le> unat p" and pb: "unat p + 16 \<le> unat b"
    using ok conns by (auto simp: node_ok_def)
  note seps = sep_less [OF ap] sep_less [OF pb] sep_less [OF order_trans [OF ap le_trans [OF le_add1 pb]]]
  have closed: "m' = set_next (set_pre m b a) a b"
    using seps conns by (simp add: m' delete_node_def Let_def field_other)
  have far: "sep a c \<and> a \<noteq> c \<and> sep b c \<and> b \<noteq> c" if "c \<in> set xs \<or> c \<in> set ys" for c
    using that
  proof
    assume c: "c \<in> set xs"
    have "unat c + 16 \<le> unat a" by (rule adj_before [OF adj c])
    with ap pb show ?thesis using sep_less [of c a] sep_less [of c b] by auto
  next
    assume c: "c \<in> set ys"
    have "unat b + 16 \<le> unat c"
      using adj_after [of m "xs @ [a, p]" b ys c] adj c ok(3) by (simp add: node_ok_def)
    with ap pb show ?thesis using sep_less [of a c] sep_less [of b c] by auto
  qed
  have same: "nd_start m' c = nd_start m c \<and> nd_end m' c = nd_end m c \<and>
      (c \<noteq> a \<longrightarrow> nd_next m' c = nd_next m c) \<and> (c \<noteq> b \<longrightarrow> nd_pre m' c = nd_pre m c)"
    if "c \<in> set xs \<or> c \<in> set ys \<or> c = a \<or> c = b" for c
  proof (cases "c = a \<or> c = b")
    case True
    with seps show ?thesis by (auto simp: closed field_other)
  next
    case False
    with that far [of c] show ?thesis by (auto simp: closed field_other)
  qed
  have "adj m' (xs @ [a]) = adj m (xs @ [a])"
  proof (rule adj_cong)
    fix c assume "c \<in> set (tl (xs @ [a]))"
    then have "c \<in> set xs \<or> c = a" by (cases xs) auto
    then show "nd_pre m' c = nd_pre m c" using same [of c] far [of c] seps by auto
  qed (use same far in auto)
  moreover have "adj m' (b # ys) = adj m (b # ys)"
  proof (rule adj_cong)
    fix c assume "c \<in> set (butlast (b # ys))"
    then have "c \<in> set ys \<or> c = b" by (auto dest: in_set_butlastD split: if_splits)
    then show "nd_next m' c = nd_next m c" using same [of c] far [of c] seps by auto
  qed (use same far in auto)
  moreover have "conn m' a b"
    using same [of a] seps ok conns ap pb by (auto simp: conn_def closed field_other node_ok_def)
  ultimately show "adj m' (xs @ a # b # ys)"
    using adj2(1) conns(5) by (simp add: adj_append)
  show "blocks m' (xs @ a # b # ys) = blocks m (xs @ [a]) @ blocks m (b # ys)"
    using same by (simp add: blocks_def)
  show "\<And>x. x < unat a \<or> unat a + 16 \<le> x \<Longrightarrow> x < unat b \<or> unat b + 16 \<le> x \<Longrightarrow> m' x = m x"
    by (simp add: closed field_outside)
qed

end
