(* ===== verification/Pmm_Contract.thy ===== *)
theory Pmm_Contract imports Pmm_Refine begin

text \<open>
  The operations of \<open>kernel/src/pmm.c\<close> on whole states refine the interval specification, and the
  contract this gives every client of \<open>pmm->alloc\<close> and \<open>pmm->free\<close>: the locale \<open>allocator\<close>, whose
  facts are proved once and interpreted on the model of the code.
\<close>

section \<open>States and intervals\<close>

text \<open>
  \<open>bs\<close> is the sorted list of intervals that the headers in memory describe: the first and the
  last are the sentinels, the others a header of 16 bytes and its block each.
\<close>

definition pmm_rep :: "pmm_state \<Rightarrow> (nat \<times> nat) list \<Rightarrow> bool" where
  "pmm_rep s bs \<longleftrightarrow> (\<exists>ns. pmm_wf s ns \<and> blocks (heap s) ns = bs)"

text \<open>The bytes a client may use.\<close>

definition payload :: "(nat \<times> nat) list \<Rightarrow> nat set" where
  "payload bs = (\<Union>(a, e) \<in> set bs. {a + 16..<e})"

lemma payload_blocks:
  "payload (blocks m ns) = (\<Union>a \<in> set ns. {unat a + 16..<unat (nd_end m a)})"
  by (simp add: payload_def blocks_def)

lemma adj_order:
  "adj m ns \<Longrightarrow> a \<in> set ns \<Longrightarrow> b \<in> set ns \<Longrightarrow> a \<noteq> b \<Longrightarrow>
     unat (nd_end m a) \<le> unat b \<or> unat (nd_end m b) \<le> unat a"
proof (induction ns)
  case (Cons c ns)
  then show ?case
    using adj_above [OF Cons.prems(1)] adj_tl [OF Cons.prems(1)] by auto
qed simp

lemma payload_not_header:
  assumes adj: "adj m ns" and "b \<in> set ns" and x: "x \<in> payload (blocks m ns)"
  shows "x < unat b \<or> unat b + 16 \<le> x"
proof -
  from x obtain a where a: "a \<in> set ns" "unat a + 16 \<le> x" "x < unat (nd_end m a)"
    by (auto simp: payload_blocks)
  moreover have "node_ok m b" using adj_node_ok [OF adj] assms(2) by blast
  ultimately show ?thesis
    using adj_order [OF adj a(1) assms(2)] by (cases "a = b") (auto simp: node_ok_def)
qed

text \<open>A store outside all headers keeps the list, whatever it writes.\<close>

lemma adj_outside:
  assumes adj: "adj m ns"
    and same: "\<And>x b. b \<in> set ns \<Longrightarrow> unat b \<le> x \<Longrightarrow> x < unat b + 16 \<Longrightarrow> m' x = m x"
  shows "adj m' ns" and "blocks m' ns = blocks m ns"
proof -
  have f: "nd_start m' a = nd_start m a \<and> nd_end m' a = nd_end m a \<and>
      nd_next m' a = nd_next m a \<and> nd_pre m' a = nd_pre m a" if "a \<in> set ns" for a
    using field_cong [of a m' m] same [OF that] by simp
  then have "adj m' ns = adj m ns"
    by (intro adj_cong) (auto dest: in_set_butlastD set_tlD)
  with adj show "adj m' ns" by simp
  show "blocks m' ns = blocks m ns" by (rule blocks_cong) (simp add: f)
qed

section \<open>Refinement of the operations\<close>

lemma hd_last_append: "hd (xs @ p # q # ys) = hd (xs @ p # t # q # ys)"
    "last (xs @ p # q # ys) = last (xs @ p # t # q # ys)"
  by (cases xs; simp)+

lemma kalloc_fits:
  assumes rep: "pmm_rep s bs" and n: "unat n + 16 < 2 ^ 32"
    and sp: "spec_alloc (unat n) bs = Some (x, bs')"
  shows "\<exists>p s'. kalloc c n s = Inr (p, s') \<and> unat p = x \<and> pmm_rep s' bs' \<and>
    (\<forall>y \<in> payload bs. heap s' y = heap s y)"
proof -
  obtain ns where wf: "pmm_wf s ns" and bs: "blocks (heap s) ns = bs"
    using rep by (auto simp: pmm_rep_def)
  then have adj: "adj (heap s) ns" and ns: "ns \<noteq> []" by (auto simp: pmm_wf_def)
  have search: "find_gap (heap s) (tail_p s) n (head_p s) = Some (first_fit (heap s) n ns)"
    using find_gap_first_fit [OF adj ns] wf by (simp add: pmm_wf_def)
  obtain p where ff: "first_fit (heap s) n ns = Some p"
    using spec_alloc_no_fit [OF _ adj n] sp bs by fastforce
  obtain xs q ys where split: "ns = xs @ p # q # ys"
    and gap: "unat (nd_end (heap s) p) + unat n + 16 \<le> unat q"
    and eq: "x = unat (nd_end (heap s) p) + 16" "bs' = blocks (heap s) (xs @ [p]) @
      (unat (nd_end (heap s) p), unat (nd_end (heap s) p) + unat n + 16) # blocks (heap s) (q # ys)"
    using spec_alloc_first_fit [OF ff adj n] sp bs by auto
  define t where "t = nd_end (heap s) p"
  obtain ret m' where add: "add_node (heap s) p n = (ret, m')" by fastforce
  note ins = add_node_adj [OF adj [unfolded split] refl, folded t_def, of n ret m']
  let ?s' = "s\<lparr>heap := m', kcpu := cli_refresh (kcpu s)\<rparr>"
  have ins': "adj m' (xs @ p # t # q # ys)" "blocks m' (xs @ p # t # q # ys) = bs'" "unat ret = x"
    using ins gap add eq by (simp_all add: t_def)
  have run: "kalloc c n s = Inr (ret, ?s')"
    using wf search ff add by (simp add: kalloc_def pmm_wf_def)
  have "pmm_wf ?s' (xs @ p # t # q # ys)"
    using wf ins'(1) hd_last_append [of xs p q ys t] by (auto simp: pmm_wf_def split)
  with ins' have "pmm_rep ?s' bs'" by (auto simp: pmm_rep_def)
  moreover have "heap ?s' y = heap s y" if y: "y \<in> payload bs" for y
  proof -
    have ok: "node_ok (heap s) p" and c: "conn (heap s) p q"
      using adj_node_ok [OF adj] adj adj_append split by auto
    have pt: "unat p + 16 \<le> unat t" and tq: "unat t + 16 \<le> unat q"
      using ok gap by (auto simp: node_ok_def t_def)
    have "y < unat a \<or> unat a + 16 \<le> y" if "a \<in> {p, q}" for a
      using payload_not_header [OF adj, of a y] that y bs split by auto
    moreover have "y < unat t \<or> unat t + 16 \<le> y"
    proof -
      from y bs obtain a where a: "a \<in> set ns" "unat a + 16 \<le> y" "y < unat (nd_end (heap s) a)"
        by (auto simp: payload_blocks)
      consider "a \<in> set xs" | "a = p" | "a = q" | "a \<in> set ys" using a(1) split by auto
      then show ?thesis
      proof cases
        case 1
        then have "unat (nd_end (heap s) a) \<le> unat p"
          using adj_sorted [OF adj] split by (simp add: sorted_wrt_append)
        with a pt show ?thesis by simp
      next
        case 2
        with a show ?thesis by (simp add: t_def)
      next
        case 3
        with a tq show ?thesis by simp
      next
        case 4
        have "node_ok (heap s) q" using adj_node_ok [OF adj] split by simp
        with 4 have "unat q \<le> unat a"
          using adj_after [of "heap s" "xs @ [p]" q ys a] adj split by (simp add: node_ok_def)
        with a tq show ?thesis by simp
      qed
    qed
    ultimately have "y < unat a \<or> unat a + 16 \<le> y" if "a \<in> {p, t, q}" for a
      using that by auto
    then have "m' y = heap s y"
      using sep_less [OF pt] sep_less [OF tq] sep_less [OF order_trans [OF pt le_trans [OF le_add1 tq]]]
        c add by (intro add_node_outside [of t p q "heap s" n ret m' y]) (auto simp: conn_def t_def)
    then show ?thesis by simp
  qed
  ultimately show ?thesis using run ins'(3) by blast
qed

lemma kalloc_full:
  assumes rep: "pmm_rep s bs" and n: "unat n + 16 < 2 ^ 32"
    and sp: "spec_alloc (unat n) bs = None"
  shows "kalloc c n s = Inr (0, s\<lparr>kcpu := cli_refresh (kcpu s)\<rparr>)"
proof -
  obtain ns where wf: "pmm_wf s ns" and bs: "blocks (heap s) ns = bs"
    using rep by (auto simp: pmm_rep_def)
  then have adj: "adj (heap s) ns" and ns: "ns \<noteq> []" by (auto simp: pmm_wf_def)
  have search: "find_gap (heap s) (tail_p s) n (head_p s) = Some (first_fit (heap s) n ns)"
    using find_gap_first_fit [OF adj ns] wf by (simp add: pmm_wf_def)
  have "first_fit (heap s) n ns = None"
    using spec_alloc_first_fit [OF _ adj n] sp bs by (cases "first_fit (heap s) n ns") fastforce+
  with wf search show ?thesis by (simp add: kalloc_def pmm_wf_def)
qed

lemma pmm_rep_refresh: "pmm_rep s bs \<Longrightarrow> pmm_rep (s\<lparr>kcpu := cli_refresh (kcpu s)\<rparr>) bs"
  by (auto simp: pmm_rep_def pmm_wf_def)

lemma kfree_block:
  assumes rep: "pmm_rep s bs" and bs: "bs = xs @ (a, e) # (b, f) # (d, g) # ys"
    and ptr: "unat ptr = b + 16"
  shows "\<exists>s'. kfree c ptr s = Inr s' \<and> pmm_rep s' (xs @ (a, e) # (d, g) # ys) \<and>
    (\<forall>y \<in> payload bs. heap s' y = heap s y)"
proof -
  obtain ns where wf: "pmm_wf s ns" and ns: "blocks (heap s) ns = bs"
    using rep by (auto simp: pmm_rep_def)
  then have adj: "adj (heap s) ns" by (simp add: pmm_wf_def)
  obtain xs' p q r ys' where split: "ns = xs' @ p # q # r # ys'"
    and parts: "blocks (heap s) xs' = xs" "unat p = a" "unat (nd_end (heap s) p) = e" "unat q = b"
      "unat r = d" "unat (nd_end (heap s) r) = g" "blocks (heap s) ys' = ys"
    using ns bs unfolding blocks_def by (auto simp: map_eq_append_conv map_eq_Cons_conv)
  have q: "ptr - BIAS = q"
    using ptr parts(4) by (simp add: BIAS_def word_unat_eq_iff unat_sub word_le_nat_alt)
  define m' where "m' = delete_node (heap s) q"
  let ?s' = "s\<lparr>heap := m', kcpu := cli_refresh (kcpu s)\<rparr>"
  note del = delete_node_adj [OF adj [unfolded split] m'_def]
  have run: "kfree c ptr s = Inr ?s'"
    using wf q by (simp add: kfree_def pmm_wf_def m'_def)
  have "pmm_wf ?s' (xs' @ p # r # ys')"
    using wf del(1) by (cases xs') (auto simp: pmm_wf_def split)
  moreover have "blocks m' (xs' @ p # r # ys') = xs @ (a, e) # (d, g) # ys"
    unfolding del(2) using parts by (simp add: blocks_def)
  ultimately have "pmm_rep ?s' (xs @ (a, e) # (d, g) # ys)" by (auto simp: pmm_rep_def)
  moreover have "heap ?s' y = heap s y" if "y \<in> payload bs" for y
  proof -
    have h: "y < unat z \<or> unat z + 16 \<le> y" if "z \<in> set ns" for z
      using payload_not_header [OF adj that] \<open>y \<in> payload bs\<close> ns by blast
    have "m' y = heap s y"
      by (rule del(3)) (use h [of p] h [of r] split in auto)
    then show ?thesis by simp
  qed
  ultimately show ?thesis using run by blast
qed

text \<open>What a client does to its block: one byte at a time, anywhere in the payload.\<close>

definition poke :: "nat \<Rightarrow> u8 \<Rightarrow> pmm_state \<Rightarrow> pmm_state" where
  "poke y v s = s\<lparr>heap := (heap s)(y := v)\<rparr>"

lemma poke_payload:
  assumes rep: "pmm_rep s bs" and y: "y \<in> payload bs"
  shows "pmm_rep (poke y v s) bs"
proof -
  obtain ns where wf: "pmm_wf s ns" and ns: "blocks (heap s) ns = bs"
    using rep by (auto simp: pmm_rep_def)
  then have adj: "adj (heap s) ns" by (simp add: pmm_wf_def)
  have same: "((heap s)(y := v)) x = heap s x"
    if "b \<in> set ns" "unat b \<le> x" "x < unat b + 16" for x b
    using payload_not_header [OF adj that(1), of y] y ns that by auto
  have out: "adj ((heap s)(y := v)) ns" "blocks ((heap s)(y := v)) ns = blocks (heap s) ns"
    using adj_outside [OF adj, of "(heap s)(y := v)"] same by blast+
  have "pmm_wf (poke y v s) ns"
    using wf out(1) by (simp add: pmm_wf_def poke_def)
  with out(2) ns show ?thesis by (auto simp: pmm_rep_def poke_def)
qed

lemma pmm_rep_intervals:
  assumes "pmm_rep s bs"
  shows "sorted_wrt (\<lambda>(a, e) (b, f). e \<le> b) bs" and "\<forall>(a, e) \<in> set bs. a + 16 \<le> e"
proof -
  obtain ns where wf: "pmm_wf s ns" and ns: "blocks (heap s) ns = bs"
    using assms by (auto simp: pmm_rep_def)
  then have adj: "adj (heap s) ns" by (simp add: pmm_wf_def)
  show "sorted_wrt (\<lambda>(a, e) (b, f). e \<le> b) bs"
    using adj_sorted [OF adj] unfolding ns [symmetric] blocks_def sorted_wrt_map by simp
  show "\<forall>(a, e) \<in> set bs. a + 16 \<le> e"
    using adj_node_ok [OF adj] unfolding ns [symmetric] blocks_def by (auto simp: node_ok_def)
qed

section \<open>Initialisation\<close>

lemma pmm_init_rep:
  assumes room: "unat hs + 32 \<le> unat he" and "cli_ok (kcpu s)"
  shows "pmm_rep (pmm_init hs he s)
    [(unat hs, unat hs + 16), (unat he - 16, unat he)]"
proof -
  have t: "unat (he - BIAS) = unat he - 16" and h: "unat (hs + BIAS) = unat hs + 16"
    using room unat_u32_less [of he] by (simp_all add: BIAS_def unat_sub word_le_nat_alt unat_word_ariths)
  have ht: "unat hs + 16 \<le> unat (he - BIAS)" using room t by simp
  note seps = sep_less [OF ht]
  let ?s = "pmm_init hs he s"
  define m where "m = heap ?s"
  note eval = m_def pmm_init_def list_init_def Let_def field_other seps
  have fields: "nd_next m hs = he - BIAS" "nd_pre m (he - BIAS) = hs" "nd_start m hs = hs"
    "nd_end m hs = hs + BIAS" "nd_start m (he - BIAS) = he - BIAS" "nd_end m (he - BIAS) = he"
    by (simp_all add: eval)
  have "adj m [hs, he - BIAS]"
    using fields t h ht room by (simp add: node_ok_def conn_def)
  then have "pmm_wf ?s [hs, he - BIAS]"
    using assms(2) by (simp add: pmm_wf_def m_def pmm_init_def list_init_def Let_def)
  moreover have "blocks m [hs, he - BIAS] = [(unat hs, unat hs + 16), (unat he - 16, unat he)]"
    using fields t h by (simp add: blocks_def)
  ultimately show ?thesis by (auto simp: pmm_rep_def m_def)
qed

section \<open>The contract\<close>

text \<open>
  What a client of the allocator may assume. \<open>bs\<close> is the abstract state; a request that fits its
  address range gets the interval the first-fit specification chooses, or the null pointer; the
  bytes of all live blocks keep their values, and a client that writes inside its own block
  disturbs nothing.
\<close>

locale allocator =
  fixes alloc :: "'n \<Rightarrow> 's \<Rightarrow> ('p \<times> 's) result"
    and dealloc :: "'p \<Rightarrow> 's \<Rightarrow> 's result"
    and peek :: "'s \<Rightarrow> nat \<Rightarrow> u8"
    and put :: "nat \<Rightarrow> u8 \<Rightarrow> 's \<Rightarrow> 's"
    and rep :: "'s \<Rightarrow> (nat \<times> nat) list \<Rightarrow> bool"
    and bytes :: "'n \<Rightarrow> nat"
    and addr :: "'p \<Rightarrow> nat"
    and fits :: "'n \<Rightarrow> bool"
  assumes intervals_sorted: "rep s bs \<Longrightarrow> sorted_wrt (\<lambda>(a, e) (b, f). e \<le> b) bs"
    and intervals_header: "rep s bs \<Longrightarrow> (a, e) \<in> set bs \<Longrightarrow> a + 16 \<le> e"
    and alloc_fits: "rep s bs \<Longrightarrow> fits n \<Longrightarrow> spec_alloc (bytes n) bs = Some (x, bs') \<Longrightarrow>
      \<exists>p s'. alloc n s = Inr (p, s') \<and> addr p = x \<and> rep s' bs' \<and>
        (\<forall>y \<in> payload bs. peek s' y = peek s y)"
    and alloc_full: "rep s bs \<Longrightarrow> fits n \<Longrightarrow> spec_alloc (bytes n) bs = None \<Longrightarrow>
      \<exists>p s'. alloc n s = Inr (p, s') \<and> addr p = 0 \<and> rep s' bs \<and>
        (\<forall>y \<in> payload bs. peek s' y = peek s y)"
    and dealloc_block: "rep s (xs @ i # (b, f) # j # ys) \<Longrightarrow> addr p = b + 16 \<Longrightarrow>
      \<exists>s'. dealloc p s = Inr s' \<and> rep s' (xs @ i # j # ys) \<and>
        (\<forall>y \<in> payload (xs @ i # (b, f) # j # ys). peek s' y = peek s y)"
    and put_inside: "rep s bs \<Longrightarrow> y \<in> payload bs \<Longrightarrow> rep (put y v s) bs"
begin

lemma spec_alloc_split:
  "spec_alloc n bs = Some (x, bs') \<Longrightarrow>
     \<exists>us a e b f vs. bs = us @ (a, e) # (b, f) # vs \<and> x = e + 16 \<and> e + n + 16 \<le> b \<and>
       bs' = us @ (a, e) # (e, e + n + 16) # (b, f) # vs"
proof (induction n bs arbitrary: x bs' rule: spec_alloc.induct)
  case (1 n a e b f r)
  show ?case
  proof (cases "e + n + 16 \<le> b")
    case True
    with "1.prems" show ?thesis by (intro exI [of _ "[]"]) auto
  next
    case False
    with "1.prems" obtain bs'' where r: "spec_alloc n ((b, f) # r) = Some (x, bs'')"
      and bs': "bs' = (a, e) # bs''" by auto
    from "1.IH" [OF False r] obtain us a' e' b' f' vs
      where "(b, f) # r = us @ (a', e') # (b', f') # vs" "x = e' + 16" "e' + n + 16 \<le> b'"
        "bs'' = us @ (a', e') # (e', e' + n + 16) # (b', f') # vs" by blast
    with bs' show ?thesis by (intro exI [of _ "(a, e) # us"]) auto
  qed
qed simp_all

text \<open>The block a successful allocation returns overlaps no live block and no header.\<close>

lemma alloc_disjoint:
  assumes "rep s bs" and "fits n" and "alloc n s = Inr (p, s')" and "addr p \<noteq> 0"
    and "(a, e) \<in> set bs"
  shows "e \<le> addr p \<or> addr p + bytes n \<le> a"
proof -
  obtain x bs' where sp: "spec_alloc (bytes n) bs = Some (x, bs')"
    using alloc_full [OF assms(1,2)] assms(3,4) by (cases "spec_alloc (bytes n) bs") auto
  have p: "addr p = x" using alloc_fits [OF assms(1,2) sp] assms(3) by auto
  obtain us a' e' b f vs where bs: "bs = us @ (a', e') # (b, f) # vs" "x = e' + 16"
    "e' + bytes n + 16 \<le> b" using spec_alloc_split [OF sp] by blast
  have sorted: "sorted_wrt (\<lambda>(a, e) (b, f). e \<le> b) (us @ (a', e') # (b, f) # vs)"
    using intervals_sorted [OF assms(1)] bs(1) by simp
  have hdr: "a' + 16 \<le> e'" "b + 16 \<le> f"
    using intervals_header [OF assms(1)] bs(1) by auto
  consider "(a, e) \<in> set us" | "(a, e) = (a', e')" | "(a, e) = (b, f)" | "(a, e) \<in> set vs"
    using assms(5) bs(1) by auto
  then show ?thesis
  proof cases
    case 1
    then have "e \<le> a'" using sorted by (auto simp: sorted_wrt_append)
    with hdr bs p show ?thesis by simp
  next
    case 2
    with bs p show ?thesis by simp
  next
    case 3
    with bs p show ?thesis by simp
  next
    case 4
    then have "f \<le> a" using sorted by (auto simp: sorted_wrt_append)
    with hdr bs p show ?thesis by simp
  qed
qed

text \<open>A null result means that no gap is large enough.\<close>

lemma alloc_null_iff:
  assumes "rep s bs" and "fits n"
  shows "(\<exists>p s'. alloc n s = Inr (p, s') \<and> addr p = 0) \<longleftrightarrow> spec_alloc (bytes n) bs = None"
proof
  assume "\<exists>p s'. alloc n s = Inr (p, s') \<and> addr p = 0"
  then show "spec_alloc (bytes n) bs = None"
    using alloc_fits [OF assms] spec_alloc_split [of "bytes n" bs]
    by (cases "spec_alloc (bytes n) bs") fastforce+
next
  assume "spec_alloc (bytes n) bs = None"
  then show "\<exists>p s'. alloc n s = Inr (p, s') \<and> addr p = 0"
    using alloc_full [OF assms] by blast
qed

text \<open>Giving back the block just allocated restores the abstract state.\<close>

lemma alloc_dealloc:
  assumes "rep s bs" and "fits n" and "spec_alloc (bytes n) bs = Some (x, bs')"
  shows "\<exists>p s' s''. alloc n s = Inr (p, s') \<and> dealloc p s' = Inr s'' \<and> rep s'' bs \<and>
    (\<forall>y \<in> payload bs. peek s'' y = peek s y)"
proof -
  obtain p s' where p: "alloc n s = Inr (p, s')" "addr p = x" "rep s' bs'"
    and keep: "\<forall>y \<in> payload bs. peek s' y = peek s y"
    using alloc_fits [OF assms] by blast
  obtain us a e b f vs where bs: "bs = us @ (a, e) # (b, f) # vs" "x = e + 16"
    "bs' = us @ (a, e) # (e, e + bytes n + 16) # (b, f) # vs"
    using spec_alloc_split [OF assms(3)] by blast
  have "payload bs \<subseteq> payload bs'" using bs by (auto simp: payload_def)
  moreover obtain s'' where "dealloc p s' = Inr s''" "rep s'' bs"
    "\<forall>y \<in> payload bs'. peek s'' y = peek s' y"
    using dealloc_block [of s' us "(a, e)" e "e + bytes n + 16" "(b, f)" vs p] p bs by auto
  ultimately show ?thesis using p(1) keep by (auto intro!: exI [of _ p] exI [of _ s'])
qed

end

interpretation kmem: allocator "kalloc c" "kfree c" heap poke pmm_rep unat unat
    "\<lambda>n. unat n + 16 < 2 ^ 32"
  for c
proof (unfold_locales, goal_cases)
  case (1 s bs)
  then show ?case by (rule pmm_rep_intervals)
next
  case (2 s bs a e)
  then show ?case using pmm_rep_intervals(2) by blast
next
  case (3 s bs n x bs')
  then show ?case by (intro kalloc_fits) auto
next
  case (4 s bs n)
  then show ?case using kalloc_full [of s bs n c] pmm_rep_refresh by auto
next
  case (5 s xs i b f j ys p)
  then show ?case by (cases i; cases j) (auto intro: kfree_block)
next
  case (6 s bs y v)
  then show ?case by (rule poke_payload)
qed

section \<open>Properties\<close>

definition boot_pmm :: pmm_state where
  "boot_pmm = \<lparr>heap = (\<lambda>_. 0), head_p = 0, tail_p = 0, pm_start = 0, pm_end = 0,
     alloc_lock = \<lparr>lk_name = '''', locked = 0, lk_cpu = 0\<rparr>,
     kcpu = \<lparr>intr = False, ncli = 0, intena = False\<rparr>\<rparr>"

lemma boot_pmm_rep: "pmm_rep (pmm_init 4096 8192 boot_pmm) [(4096, 4112), (8176, 8192)]"
  using pmm_init_rep [of 4096 8192 boot_pmm] by (simp add: boot_pmm_def cli_ok_def)

text \<open>
  \<open>pmm_init\<close> on a heap with room for two headers leaves a well-formed list of exactly the two sentinels,
  the first 16 and the last 16 bytes of the heap.
\<close>

theorem pmm_init_empty:
  "unat hs + 32 \<le> unat he \<Longrightarrow> cli_ok (kcpu s) \<Longrightarrow>
     pmm_rep (pmm_init hs he s) [(unat hs, unat hs + 16), (unat he - 16, unat he)]"
  by (rule pmm_init_rep)

lemma pmm_init_empty_witness:
  "pmm_rep (pmm_init 4096 4196 boot_pmm) [(4096, 4112), (4180, 4196)]"
  using pmm_init_empty [of 4096 4196 boot_pmm] by (simp add: boot_pmm_def cli_ok_def)

text \<open>
  C4. \<open>kalloc\<close> implements first fit: on a well-formed heap and a request that fits the address
  range it returns; the pointer is the one the interval specification chooses, or NULL when the
  specification finds no gap; the list in memory then describes the specification's new intervals,
  and no byte of a live block has changed.
\<close>

theorem kalloc_refines:
  assumes "pmm_rep s bs" and "unat n + 16 < 2 ^ 32"
  shows "\<exists>p s'. kalloc c n s = Inr (p, s') \<and> (\<forall>y \<in> payload bs. heap s' y = heap s y) \<and>
    (case spec_alloc (unat n) bs of
       None \<Rightarrow> p = 0 \<and> pmm_rep s' bs
     | Some (x, bs') \<Rightarrow> unat p = x \<and> pmm_rep s' bs')"
proof (cases "spec_alloc (unat n) bs")
  case None
  then show ?thesis using kalloc_full [OF assms] pmm_rep_refresh [OF assms(1)] by simp
next
  case (Some r)
  then obtain x bs' where "spec_alloc (unat n) bs = Some (x, bs')" by (cases r) auto
  then show ?thesis using kalloc_fits [OF assms] by fastforce
qed

lemma kalloc_refines_witness:
  "\<exists>p s'. kalloc 0 100 (pmm_init 4096 8192 boot_pmm) = Inr (p, s') \<and> unat p = 4128 \<and>
     pmm_rep s' [(4096, 4112), (4112, 4228), (8176, 8192)]"
  using kalloc_refines [OF boot_pmm_rep, of 100 0] by auto

text \<open>
  Memory safety of the allocator: the bytes of a block just returned overlap no block that is live
  and no header.
\<close>

theorem kalloc_disjoint:
  "pmm_rep s bs \<Longrightarrow> unat n + 16 < 2 ^ 32 \<Longrightarrow> kalloc c n s = Inr (p, s') \<Longrightarrow> unat p \<noteq> 0 \<Longrightarrow>
     (a, e) \<in> set bs \<Longrightarrow> e \<le> unat p \<or> unat p + unat n \<le> a"
  by (rule kmem.alloc_disjoint)

lemma kalloc_disjoint_witness:
  "\<exists>p s'. kalloc 0 100 (pmm_init 4096 8192 boot_pmm) = Inr (p, s') \<and> 4112 \<le> unat p \<and> unat p + 100 \<le> 8176"
proof -
  obtain p s' where p: "kalloc 0 100 (pmm_init 4096 8192 boot_pmm) = Inr (p, s')" "unat p = 4128"
    using kalloc_fits [OF boot_pmm_rep, of 100 4128 _ 0] by auto
  with kalloc_disjoint [OF boot_pmm_rep, of 100 0 p s' 8176 8192]
    kalloc_disjoint [OF boot_pmm_rep, of 100 0 p s' 4096 4112] show ?thesis by auto
qed

text \<open>
  C6. Allocating a block and freeing it returns the heap to the same set of intervals, with every live byte
  as it was.
\<close>

theorem kalloc_kfree_roundtrip:
  "pmm_rep s bs \<Longrightarrow> unat n + 16 < 2 ^ 32 \<Longrightarrow> spec_alloc (unat n) bs = Some (x, bs') \<Longrightarrow>
     \<exists>p s' s''. kalloc c n s = Inr (p, s') \<and> kfree c p s' = Inr s'' \<and> pmm_rep s'' bs \<and>
       (\<forall>y \<in> payload bs. heap s'' y = heap s y)"
  by (rule kmem.alloc_dealloc)

lemma kalloc_kfree_roundtrip_witness:
  "\<exists>p s' s''. kalloc 0 100 (pmm_init 4096 8192 boot_pmm) = Inr (p, s') \<and> kfree 0 p s' = Inr s'' \<and>
     pmm_rep s'' [(4096, 4112), (8176, 8192)]"
  using kalloc_kfree_roundtrip [OF boot_pmm_rep, of 100 _ _ 0] by fastforce

text \<open>
  C5. \<open>kfree\<close> of the pointer of any block between the sentinels, in whatever order blocks are freed, drops
  exactly that block from the intervals and changes no byte of any block.
\<close>

theorem kfree_refines:
  assumes rep: "pmm_rep s bs" and b: "(b, f) \<in> set (butlast (tl bs))" and ptr: "unat ptr = b + 16"
  shows "\<exists>s'. kfree c ptr s = Inr s' \<and> pmm_rep s' (spec_free (b + 16) bs) \<and>
    (\<forall>y \<in> payload bs. heap s' y = heap s y)"
proof -
  obtain us vs where mid: "butlast (tl bs) = us @ (b, f) # vs" using b by (auto simp: in_set_conv_decomp)
  have ne: "bs \<noteq> []" "tl bs \<noteq> []" using b by (cases bs; cases "tl bs"; simp)+
  then have "bs = hd bs # butlast (tl bs) @ [last (tl bs)]" by simp
  then obtain i j where bs0: "bs = i # us @ (b, f) # vs @ [j]" using mid by simp
  have sorted: "sorted_wrt (\<lambda>(a, e) (b, f). e \<le> b) bs" and hdr: "\<forall>(a, e) \<in> set bs. a + 16 \<le> e"
    using pmm_rep_intervals [OF rep] by blast+
  obtain xs a e d g ys where bs: "bs = xs @ (a, e) # (b, f) # (d, g) # ys"
  proof -
    obtain xs p where "i # us = xs @ [p]" by (metis list.distinct(1) rev_exhaust)
    moreover obtain q ys where "vs @ [j] = q # ys" by (cases vs) auto
    ultimately have "bs = xs @ p # (b, f) # q # ys"
      using bs0 by (metis append.assoc append_Cons append_Nil)
    then show ?thesis using that by (cases p; cases q) auto
  qed
  have "a' + 16 \<noteq> b + 16" if "(a', e') \<in> set xs \<union> {(a, e), (d, g)} \<union> set ys" for a' e'
  proof -
    have "a' + 16 \<le> e'" "b + 16 \<le> f" using that hdr bs by auto
    moreover have "e' \<le> b \<or> f \<le> a'"
      using that sorted unfolding bs sorted_wrt_append by fastforce
    ultimately show ?thesis by linarith
  qed
  note other = this
  have "filter (\<lambda>(a, e). a + 16 \<noteq> b + 16) xs = xs" "filter (\<lambda>(a, e). a + 16 \<noteq> b + 16) ys = ys"
    by (rule filter_True; use other in blast)+
  moreover have "a + 16 \<noteq> b + 16" "d + 16 \<noteq> b + 16" using other by blast+
  ultimately have "spec_free (b + 16) bs = xs @ (a, e) # (d, g) # ys"
    by (simp add: spec_free_def bs)
  with kfree_block [OF rep bs ptr] show ?thesis by auto
qed

lemma kfree_refines_witness:
  "\<exists>p s' s''. kalloc 0 100 (pmm_init 4096 8192 boot_pmm) = Inr (p, s') \<and> kfree 0 p s' = Inr s'' \<and>
     pmm_rep s'' (spec_free 4128 [(4096, 4112), (4112, 4228), (8176, 8192)])"
proof -
  obtain p s' where p: "kalloc 0 100 (pmm_init 4096 8192 boot_pmm) = Inr (p, s')" "unat p = 4128"
    "pmm_rep s' [(4096, 4112), (4112, 4228), (8176, 8192)]"
    using kalloc_fits [OF boot_pmm_rep, of 100 4128 _ 0] by auto
  with kfree_refines [OF p(3), of 4112 4228 p 0] show ?thesis by auto
qed

text \<open>
  A request of 2^32 - 16 bytes or more, larger than any heap, is granted: \<open>size + BIAS\<close> wraps to
  less than 16, the test on the first gap passes, and \<open>kalloc\<close> returns a pointer that is not NULL.
\<close>

theorem kalloc_size_wraps:
  assumes room: "unat hs + 48 \<le> unat he" and cli: "cli_ok (kcpu s)" and n: "4294967280 \<le> unat n"
  shows "\<exists>s'. kalloc c n (pmm_init hs he s) = Inr (hs + 32, s')"
proof -
  let ?s = "pmm_init hs he s"
  have rep: "pmm_rep ?s [(unat hs, unat hs + 16), (unat he - 16, unat he)]"
    by (rule pmm_init_rep) (use room cli in auto)
  then obtain ns where wf: "pmm_wf ?s ns"
    and bl: "blocks (heap ?s) ns = [(unat hs, unat hs + 16), (unat he - 16, unat he)]"
    by (auto simp: pmm_rep_def)
  then obtain a b where ns: "ns = [a, b]" and ab: "unat a = unat hs" "unat b = unat he - 16"
    and enda: "unat (nd_end (heap ?s) a) = unat hs + 16"
    by (auto simp: blocks_def map_eq_Cons_conv)
  have h: "a = head_p ?s" "b = tail_p ?s" and ok: "node_ok (heap ?s) b" and c: "conn (heap ?s) a b"
    using wf ns by (auto simp: pmm_wf_def)
  have ne: "a \<noteq> b" using ab room by auto
  have startb: "nd_start (heap ?s) b = b" using ok by (simp add: node_ok_def)
  have gap: "unat (b - nd_end (heap ?s) a) = unat b - unat (nd_end (heap ?s) a)"
    using ab enda room by (simp add: unat_sub word_le_nat_alt)
  have small: "unat (n + BIAS) < 16"
  proof -
    obtain k where k: "unat n = 4294967280 + k" using n by (auto simp: le_iff_add)
    then have "k < 16" using unat_u32_less [of n] by simp
    moreover have "unat (n + BIAS) = (4294967296 + k) mod 4294967296"
      by (simp add: BIAS_def unat_word_ariths k)
    ultimately show ?thesis by simp
  qed
  have fit: "n + BIAS \<le> b - nd_end (heap ?s) a"
    using gap small ab enda room by (simp add: word_le_nat_alt)
  have search: "find_gap (heap ?s) (tail_p ?s) n (head_p ?s) = Some (Some (head_p ?s))"
    using c ne startb fit h by (subst find_gap.simps) (simp add: conn_def)
  define t where "t = nd_end (heap ?s) a"
  have seps: "sep a t" "a \<noteq> t" "sep t a" "t \<noteq> a" "sep b t" "b \<noteq> t" "sep t b" "t \<noteq> b"
    using enda ab room by (auto simp: t_def [symmetric] sep_def)
  have t: "t + BIAS = hs + 32"
  proof -
    have "t = hs + 16"
      using enda room unat_u32_less [of he] by (simp add: t_def word_unat_eq_iff unat_word_ariths)
    then show ?thesis by (simp add: BIAS_def)
  qed
  obtain ret m where add: "add_node (heap ?s) a n = (ret, m)" by fastforce
  have "ret = t + BIAS"
    using add c seps unfolding add_node_def Let_def t_def [symmetric]
    by (auto simp: field_other conn_def)
  with search add wf h t show ?thesis by (simp add: kalloc_def pmm_wf_def)
qed

lemma kalloc_size_wraps_witness:
  "\<exists>s'. kalloc 0 4294967295 (pmm_init 4096 8192 boot_pmm) = Inr (4128, s')"
  using kalloc_size_wraps [of 4096 8192 boot_pmm 4294967295 0] by (simp add: boot_pmm_def cli_ok_def)

end
