(* ===== verification/Os_Irq.thy ===== *)
theory Os_Irq imports Spinlock begin

text \<open>
  Interrupt handling in \<open>kernel/src/os.c\<close>: the table of callbacks that \<open>on_irq\<close> keeps by
  sequence number, and \<open>os_trap\<close>, which runs the callbacks of an event. A handler is a function
  from the event, the interrupted context and the kernel state to a context or NULL and the new
  state; contexts and the rest of the kernel state are type parameters.
\<close>

section \<open>Events and callbacks\<close>

datatype event_kind =
    EVENT_NULL | EVENT_ERROR | EVENT_IRQ_TIMER | EVENT_IRQ_IODEV | EVENT_PAGEFAULT | EVENT_YIELD
  | EVENT_SYSCALL

record event =
  ev_event :: event_kind
  ev_cause :: u32
  ev_ref :: u32

type_synonym ('ctx, 'st) handler =
  "event \<Rightarrow> 'ctx \<Rightarrow> cpu_state \<times> 'st \<Rightarrow> ('ctx option \<times> cpu_state \<times> 'st) result"

record ('ctx, 'st) callback =
  cb_handler :: "('ctx, 'st) handler"
  cb_event :: event_kind
  cb_seq :: int

definition MAXCB :: nat where
  "MAXCB = 256"

text \<open>\<open>handlers\<close> holds the entries below \<open>h_handlers\<close>.\<close>

record ('ctx, 'st) os_state =
  handlers :: "('ctx, 'st) callback list"
  lock_os :: spinlock

section \<open>Registration\<close>

text \<open>
  The loop of \<open>os_on_irq\<close>: while the entry at \<open>i\<close> is not above its predecessor, exchange the
  two. The loop does not move \<open>i\<close>. \<open>None\<close> is a loop that does not end.
\<close>

partial_function (option) sink ::
  "('ctx, 'st) callback list \<Rightarrow> nat \<Rightarrow> ('ctx, 'st) callback list option" where
  "sink hs i =
     (if i \<noteq> 0 \<and> cb_seq (hs ! i) \<le> cb_seq (hs ! (i - 1))
      then (let tmp = hs ! (i - 1); hs1 = hs[i - 1 := hs ! i]; hs2 = hs1[i := tmp] in sink hs2 i)
      else Some hs)"

declare sink.simps [code]

definition os_on_irq ::
  "nat \<Rightarrow> int \<Rightarrow> event_kind \<Rightarrow> ('ctx, 'st) handler \<Rightarrow> cpu_state \<times> ('ctx, 'st) os_state \<Rightarrow>
     (cpu_state \<times> ('ctx, 'st) os_state) result" where
  "os_on_irq c seq ev h = (\<lambda>(cs, s).
     bindr (with_lock c (lock_os s) cs
       (if MAXCB \<le> length (handlers s) then Inl BadAccess
        else (let hs = handlers s @ [\<lparr>cb_handler = h, cb_event = ev, cb_seq = seq\<rparr>];
                  i = length hs - 1
              in case sink hs i of None \<Rightarrow> Inl Hang | Some hs' \<Rightarrow> Inr hs')))
     (\<lambda>(hs, lk, cs'). Inr (cs', s\<lparr>handlers := hs, lock_os := lk\<rparr>)))"

section \<open>Dispatch\<close>

text \<open>The callbacks of one event in table order; the last context that is not NULL wins.\<close>

fun run_handlers ::
  "event \<Rightarrow> 'ctx \<Rightarrow> ('ctx, 'st) callback list \<Rightarrow> 'ctx option \<Rightarrow> cpu_state \<times> 'st \<Rightarrow>
     ('ctx option \<times> cpu_state \<times> 'st) result" where
  "run_handlers ev ctx [] ret st = Inr (ret, st)"
| "run_handlers ev ctx (h # hs) ret st =
     (if cb_event h = EVENT_NULL \<or> cb_event h = ev_event ev
      then bindr (cb_handler h ev ctx st) (\<lambda>(nxt, st').
             run_handlers ev ctx hs (case nxt of None \<Rightarrow> ret | Some x \<Rightarrow> Some x) st')
      else run_handlers ev ctx hs ret st)"

definition os_trap ::
  "nat \<Rightarrow> event \<Rightarrow> 'ctx \<Rightarrow> ('ctx, 'st) os_state \<Rightarrow> cpu_state \<times> 'st \<Rightarrow>
     ('ctx option \<times> ('ctx, 'st) os_state \<times> cpu_state \<times> 'st) result" where
  "os_trap c ev ctx s = (\<lambda>(cs, st).
     (if ev_event ev = EVENT_ERROR then Inr (Some ctx, s, cs, st)
      else bindr (with_lock_nested c (lock_os s) cs
                   (\<lambda>cs1. bindr (run_handlers ev ctx (handlers s) None (cs1, st))
                     (\<lambda>(ret, cs2, st'). Inr ((ret, st'), cs2))))
             (\<lambda>((ret, st'), lk, cs'). Inr (ret, s\<lparr>lock_os := lk\<rparr>, cs', st'))))"

section \<open>What registration computes\<close>

abbreviation sorted_seq :: "('ctx, 'st) callback list \<Rightarrow> bool" where
  "sorted_seq hs \<equiv> sorted (map cb_seq hs)"

lemma sink_stop: "i = 0 \<or> cb_seq (hs ! (i - 1)) < cb_seq (hs ! i) \<Longrightarrow> sink hs i = Some hs"
  by (subst sink.simps) auto

lemma sink_swap:
  assumes "0 < i" and "i < length hs" and "cb_seq (hs ! i) < cb_seq (hs ! (i - 1))"
  shows "sink hs i = Some (hs[i - 1 := hs ! i, i := hs ! (i - 1)])"
proof -
  have "sink (hs[i - 1 := hs ! i, i := hs ! (i - 1)]) i = Some (hs[i - 1 := hs ! i, i := hs ! (i - 1)])"
    by (rule sink_stop) (use assms in auto)
  with assms show ?thesis by (subst sink.simps) (simp add: Let_def)
qed

text \<open>Equal sequence numbers: the exchange leaves the test true for ever.\<close>

lemma sink_equal_raw:
  assumes "sink hs i = Some r"
  shows "\<not> (0 < i \<and> i < length hs \<and> cb_seq (hs ! i) = cb_seq (hs ! (i - 1)))"
proof (rule sink.raw_induct [where
      P = "\<lambda>hs i r. \<not> (0 < i \<and> i < length hs \<and> cb_seq (hs ! i) = cb_seq (hs ! (i - 1)))", OF _ assms])
  fix f :: "('a, 'b) callback list \<Rightarrow> nat \<Rightarrow> ('a, 'b) callback list option" and hs i r
  assume IH: "\<And>hs i r. f hs i = Some r \<Longrightarrow>
      \<not> (0 < i \<and> i < length hs \<and> cb_seq (hs ! i) = cb_seq (hs ! (i - 1)))"
    and eq: "(if i \<noteq> 0 \<and> cb_seq (hs ! i) \<le> cb_seq (hs ! (i - 1))
      then (let tmp = hs ! (i - 1); hs1 = hs[i - 1 := hs ! i]; hs2 = hs1[i := tmp] in f hs2 i)
      else Some hs) = Some r"
  show "\<not> (0 < i \<and> i < length hs \<and> cb_seq (hs ! i) = cb_seq (hs ! (i - 1)))"
  proof
    assume *: "0 < i \<and> i < length hs \<and> cb_seq (hs ! i) = cb_seq (hs ! (i - 1))"
    with eq have "f (hs[i - 1 := hs ! i, i := hs ! (i - 1)]) i = Some r"
      by (simp add: Let_def)
    moreover have "i \<noteq> i - 1" "i - 1 < length hs" using * by arith+
    ultimately show False using IH [of "hs[i - 1 := hs ! i, i := hs ! (i - 1)]" i r] *
      by simp
  qed
qed

lemma sink_equal:
  "0 < i \<Longrightarrow> i < length hs \<Longrightarrow> cb_seq (hs ! i) = cb_seq (hs ! (i - 1)) \<Longrightarrow> sink hs i = None"
  using sink_equal_raw by fastforce

text \<open>The table after a registration, and the registrations that never return.\<close>

definition registered :: "('ctx, 'st) callback list \<Rightarrow> ('ctx, 'st) callback \<Rightarrow>
    ('ctx, 'st) callback list result" where
  "registered hs x =
     (if hs = [] \<or> cb_seq (last hs) < cb_seq x then Inr (hs @ [x])
      else if cb_seq x < cb_seq (last hs) then Inr (butlast hs @ [x, last hs])
      else Inl Hang)"

lemma sink_append:
  "sink (hs @ [x]) (length hs) = (case registered hs x of Inr r \<Rightarrow> Some r | Inl _ \<Rightarrow> None)"
proof (cases hs rule: rev_cases)
  case Nil
  then show ?thesis by (simp add: registered_def sink_stop)
next
  case (snoc ys y)
  consider "cb_seq y < cb_seq x" | "cb_seq x < cb_seq y" | "cb_seq x = cb_seq y" by linarith
  then show ?thesis
  proof cases
    case 1
    with snoc show ?thesis by (simp add: registered_def sink_stop)
  next
    case 2
    with snoc show ?thesis
      by (subst sink_swap) (auto simp: registered_def nth_append list_update_append)
  next
    case 3
    with snoc show ?thesis
      by (subst sink_equal) (auto simp: registered_def nth_append)
  qed
qed

lemma on_irq_registered:
  assumes "lock_free (lock_os s)" and "cli_ok cs" and "length (handlers s) < MAXCB"
  shows "os_on_irq c seq ev h (cs, s) =
    (case registered (handlers s) \<lparr>cb_handler = h, cb_event = ev, cb_seq = seq\<rparr> of
       Inl e \<Rightarrow> Inl e
     | Inr hs \<Rightarrow> Inr (cli_refresh cs, s\<lparr>handlers := hs\<rparr>))"
  using assms
  by (simp add: os_on_irq_def Let_def sink_append registered_def)

lemma registered_sorted_iff:
  assumes "sorted_seq hs" and "registered hs x = Inr hs'"
  shows "sorted_seq hs' \<longleftrightarrow> (\<forall>y \<in> set (butlast hs). cb_seq y \<le> cb_seq x)"
proof (cases hs rule: rev_cases)
  case Nil
  with assms(2) show ?thesis by (auto simp: registered_def)
next
  case (snoc ys y)
  with assms show ?thesis
    by (auto simp: registered_def sorted_append split: if_splits)
qed

lemma registered_set: "registered hs x = Inr hs' \<Longrightarrow> set hs' = insert x (set hs)"
  by (cases hs rule: rev_cases) (auto simp: registered_def split: if_splits)

lemma registered_length: "registered hs x = Inr hs' \<Longrightarrow> length hs' = Suc (length hs)"
  by (cases hs rule: rev_cases) (auto simp: registered_def split: if_splits)

section \<open>What dispatch computes\<close>

definition relevant :: "event \<Rightarrow> ('ctx, 'st) callback \<Rightarrow> bool" where
  "relevant ev h \<longleftrightarrow> cb_event h = EVENT_NULL \<or> cb_event h = ev_event ev"

lemma run_handlers_filter:
  "run_handlers ev ctx hs ret st = run_handlers ev ctx (filter (relevant ev) hs) ret st"
proof (induction hs arbitrary: ret st)
  case (Cons h hs)
  then show ?case by (cases "cb_handler h ev ctx st") (auto simp: relevant_def)
qed simp

lemma run_handlers_append:
  "run_handlers ev ctx (hs @ hs') ret st =
     bindr (run_handlers ev ctx hs ret st) (\<lambda>(ret', st'). run_handlers ev ctx hs' ret' st')"
proof (induction hs arbitrary: ret st)
  case (Cons h hs)
  then show ?case by (cases "cb_handler h ev ctx st") (auto split: prod.splits)
qed simp

text \<open>
  The scheduler's callback has the largest number: the context it returns is the one resumed,
  whatever the callbacks before it return.
\<close>

lemma run_handlers_last:
  assumes "run_handlers ev ctx hs None st = Inr (r, st1)" and "relevant ev h"
    and "cb_handler h ev ctx st1 = Inr (Some x, st2)"
  shows "run_handlers ev ctx (hs @ [h]) None st = Inr (Some x, st2)"
  using assms by (simp add: run_handlers_append relevant_def)

section \<open>Properties\<close>

text \<open>
  Registering a callback whose sequence number differs from the last one's in the table returns
  and adds exactly that callback; a table that was sorted by sequence number is sorted afterwards
  exactly when no entry but the last is above the new one, because the loop of \<open>os_on_irq\<close>
  compares only the last two entries.
\<close>

theorem on_irq_inserts:
  assumes "lock_free (lock_os s)" and "cli_ok cs" and "length (handlers s) < MAXCB"
    and "sorted_seq (handlers s)" and "handlers s = [] \<or> cb_seq (last (handlers s)) \<noteq> seq"
  shows "\<exists>hs'. os_on_irq c seq ev h (cs, s) = Inr (cli_refresh cs, s\<lparr>handlers := hs'\<rparr>) \<and>
    length hs' = Suc (length (handlers s)) \<and>
    set hs' = insert \<lparr>cb_handler = h, cb_event = ev, cb_seq = seq\<rparr> (set (handlers s)) \<and>
    (sorted_seq hs' \<longleftrightarrow> (\<forall>y \<in> set (butlast (handlers s)). cb_seq y \<le> seq))"
proof -
  let ?x = "\<lparr>cb_handler = h, cb_event = ev, cb_seq = seq\<rparr>"
  have "\<exists>hs'. registered (handlers s) ?x = Inr hs'"
    using assms(5) by (simp add: registered_def)
  then obtain hs' where reg: "registered (handlers s) ?x = Inr hs'" by blast
  with on_irq_registered [OF assms(1-3)] registered_set [OF reg] registered_length [OF reg]
    registered_sorted_iff [OF assms(4) reg] show ?thesis by auto
qed

definition plain_callback :: "int \<Rightarrow> (unit, unit) callback" where
  "plain_callback n = \<lparr>cb_handler = (\<lambda>ev ctx st. Inr (None, st)), cb_event = EVENT_NULL, cb_seq = n\<rparr>"

definition os_with :: "int list \<Rightarrow> (unit, unit) os_state" where
  "os_with ns = \<lparr>handlers = List.map plain_callback ns,
     lock_os = \<lparr>lk_name = ''os'', locked = 0, lk_cpu = -1\<rparr>\<rparr>"

definition idle_cpu :: cpu_state where
  "idle_cpu = \<lparr>intr = True, ncli = 0, intena = False\<rparr>"

lemma on_irq_inserts_witness:
  "\<exists>hs'. os_on_irq 0 0 EVENT_NULL (\<lambda>ev ctx st. Inr (None, st)) (idle_cpu, os_with [-5, 5]) =
      Inr (cli_refresh idle_cpu, (os_with [-5, 5])\<lparr>handlers := hs'\<rparr>) \<and> sorted_seq hs' \<and> length hs' = 3"
proof -
  have "lock_free (lock_os (os_with [-5, 5]))" "cli_ok idle_cpu" "length (handlers (os_with [-5, 5])) < MAXCB"
    "sorted_seq (handlers (os_with [-5, 5]))" "cb_seq (last (handlers (os_with [-5, 5]))) \<noteq> 0"
    "\<forall>y \<in> set (butlast (handlers (os_with [-5, 5]))). cb_seq y \<le> 0" "length (handlers (os_with [-5, 5])) = 2"
    by (simp_all add: os_with_def plain_callback_def idle_cpu_def lock_free_def cli_ok_def MAXCB_def)
  with on_irq_inserts [OF this(1-4), of 0 0 EVENT_NULL "\<lambda>ev ctx st. Inr (None, st)"] show ?thesis by fastforce
qed

text \<open>
  Registering a callback with the sequence number of the last entry never returns: the loop of
  \<open>os_on_irq\<close> exchanges the two entries for ever, with the lock held.
\<close>

theorem on_irq_equal_hangs:
  assumes "lock_free (lock_os s)" and "cli_ok cs" and "length (handlers s) < MAXCB"
    and "handlers s \<noteq> []" and "cb_seq (last (handlers s)) = seq"
  shows "os_on_irq c seq ev h (cs, s) = Inl Hang"
  using on_irq_registered [OF assms(1-3)] assms(4,5) by (simp add: registered_def)

lemma on_irq_equal_hangs_witness:
  "os_on_irq 0 5 EVENT_NULL (\<lambda>ev ctx st. Inr (None, st)) (idle_cpu, os_with [-5, 5]) = Inl Hang"
  using on_irq_equal_hangs [of "os_with [-5, 5]" idle_cpu 5 0 EVENT_NULL "\<lambda>ev ctx st. Inr (None, st)"]
  by (auto simp: os_with_def plain_callback_def idle_cpu_def lock_free_def cli_ok_def MAXCB_def)

text \<open>
  \<open>os_trap\<close> runs, under its lock and in table order, exactly the callbacks registered for the event or for
  every event, and the context it returns is the one the last of them returns, when that one is not
  NULL; the lock is free again afterwards.
\<close>

theorem os_trap_last_handler_wins:
  assumes "lock_free (lock_os s)" and "cli_ok cs" and "ev_event ev \<noteq> EVENT_ERROR"
    and "filter (relevant ev) (handlers s) = hs @ [h]"
    and "run_handlers ev ctx hs None (pushcli cs, st) = Inr (r, st1)"
    and "cb_handler h ev ctx st1 = Inr (Some x, pushcli cs, st2)"
  shows "os_trap c ev ctx s (cs, st) = Inr (Some x, s, cli_refresh cs, st2)"
proof -
  have h: "relevant ev h"
  proof -
    have "h \<in> set (filter (relevant ev) (handlers s))" using assms(4) by simp
    then show ?thesis by simp
  qed
  have "run_handlers ev ctx (handlers s) None (pushcli cs, st) = Inr (Some x, pushcli cs, st2)"
    using run_handlers_last [OF assms(5) h assms(6)] assms(4)
    by (simp add: run_handlers_filter [of ev ctx "handlers s"])
  then have "with_lock_nested c (lock_os s) cs
      (\<lambda>cs1. bindr (run_handlers ev ctx (handlers s) None (cs1, st))
        (\<lambda>(ret, cs2, st'). Inr ((ret, st'), cs2))) = Inr ((Some x, st2), lock_os s, cli_refresh cs)"
    by (intro with_lock_nested_free assms(1,2)) simp
  with assms(3) show ?thesis by (simp add: os_trap_def)
qed

definition ctx_callback :: "nat \<Rightarrow> (nat, unit) callback" where
  "ctx_callback n = \<lparr>cb_handler = (\<lambda>ev ctx st. Inr (Some n, st)), cb_event = EVENT_NULL, cb_seq = int n\<rparr>"

lemma os_trap_last_handler_wins_witness:
  "os_trap 0 \<lparr>ev_event = EVENT_YIELD, ev_cause = 0, ev_ref = 0\<rparr> 7
     \<lparr>handlers = [ctx_callback 1, ctx_callback 2], lock_os = \<lparr>lk_name = ''os'', locked = 0, lk_cpu = -1\<rparr>\<rparr>
     (idle_cpu, ()) =
   Inr (Some 2, \<lparr>handlers = [ctx_callback 1, ctx_callback 2],
     lock_os = \<lparr>lk_name = ''os'', locked = 0, lk_cpu = -1\<rparr>\<rparr>, cli_refresh idle_cpu, ())"
  using os_trap_last_handler_wins [of
      "\<lparr>handlers = [ctx_callback 1, ctx_callback 2], lock_os = \<lparr>lk_name = ''os'', locked = 0, lk_cpu = -1\<rparr>\<rparr>"
      idle_cpu "\<lparr>ev_event = EVENT_YIELD, ev_cause = 0, ev_ref = 0\<rparr>" "[ctx_callback 1]" "ctx_callback 2"
      7 "()" "Some 1" "(pushcli idle_cpu, ())" 2 "()" 0]
  by (simp add: lock_free_def cli_ok_def idle_cpu_def ctx_callback_def relevant_def)

end
