(* ===== verification/Kmt_Sched.thy ===== *)
theory Kmt_Sched imports Pmm_Contract Klib_Rand Os_Irq begin

text \<open>
  Threads in \<open>kernel/src/kmt.c\<close>: the task table, creation and removal, and the two interrupt
  callbacks that save the interrupted context and choose the next one. Tasks are shared through
  pointers (the table, the current task of each CPU, the task each CPU left last), so they live
  in a store. The context type, and \<open>_kcontext\<close>, which builds the first context of a task,
  are parameters: they belong to the machine layer.
\<close>

section \<open>State\<close>

text \<open>A pointer to a task: a \<open>task_t\<close> of some caller, or \<open>&cpudefaulttask[c]\<close>.\<close>

datatype task_ref = Task nat | Default nat

record 'ctx task =
  t_name :: string
  t_context :: 'ctx
  t_run :: int
  t_id :: int
  t_sleep :: int
  t_stack :: u32

definition MAXTASK :: nat where
  "MAXTASK = 1024"

definition MAXCPU :: nat where
  "MAXCPU = 64"

definition STACKSIZE :: u32 where
  "STACKSIZE = 9182"

text \<open>The kernel's memory manager carries the interrupt state of the CPU that runs.\<close>

record 'ctx kmt_state =
  tasks :: "nat \<Rightarrow> task_ref option"
  cnt_tasks :: int
  cputask :: "nat \<Rightarrow> task_ref option"
  cputask_last :: "nat \<Rightarrow> task_ref option"
  notdefault :: "nat \<Rightarrow> bool"
  tstore :: "task_ref \<Rightarrow> 'ctx task"
  lock_kmt :: spinlock
  rand_next :: u32
  kpmm :: pmm_state

definition upd_task ::
  "task_ref \<Rightarrow> ('ctx task \<Rightarrow> 'ctx task) \<Rightarrow> 'ctx kmt_state \<Rightarrow> 'ctx kmt_state" where
  "upd_task p f s = s\<lparr>tstore := (tstore s)(p := f (tstore s p))\<rparr>"

text \<open>The bracket \<open>spin_lock(&lock_kmt)\<close> ... \<open>spin_unlock(&lock_kmt)\<close> around a computation.\<close>

definition kmt_locked ::
  "nat \<Rightarrow> 'ctx kmt_state \<Rightarrow> ('r \<times> 'ctx kmt_state) result \<Rightarrow> ('r \<times> 'ctx kmt_state) result" where
  "kmt_locked c s body =
     bindr (with_lock c (lock_kmt s) (kcpu (kpmm s)) body) (\<lambda>((r, s'), lk, cs).
       Inr (r, s'\<lparr>lock_kmt := lk, kpmm := (kpmm s')\<lparr>kcpu := cs\<rparr>\<rparr>))"

section \<open>The operations\<close>

definition kmt_context_save ::
  "nat \<Rightarrow> 'ctx \<Rightarrow> 'ctx kmt_state \<Rightarrow> ('ctx option \<times> 'ctx kmt_state) result" where
  "kmt_context_save c ctx s = kmt_locked c s
     (let s1 = (case cputask_last s c of
                  None \<Rightarrow> s
                | Some l \<Rightarrow> if cputask s c \<noteq> Some l then upd_task l (\<lambda>t. t\<lparr>t_run := 0\<rparr>) s else s);
          s2 = (if \<not> notdefault s1 c
                then (upd_task (Default c) (\<lambda>t. t\<lparr>t_context := ctx\<rparr>) s1)
                       \<lparr>notdefault := (notdefault s1)(c := True)\<rparr>
                else s1);
          s3 = (case cputask s2 c of
                  None \<Rightarrow> s2
                | Some p \<Rightarrow> upd_task p (\<lambda>t. t\<lparr>t_context := ctx\<rparr>) s2)
      in Inr (None, s3\<lparr>cputask_last := (cputask_last s3)(c := cputask s3 c)\<rparr>))"

text \<open>
  The scheduler's search: the entries from the one after \<open>seed\<close> on, cyclically, \<open>MAXTASK\<close> of
  them; the first that is neither running nor asleep.
\<close>

definition runnable :: "'ctx kmt_state \<Rightarrow> task_ref \<Rightarrow> bool" where
  "runnable s p \<longleftrightarrow> t_run (tstore s p) = 0 \<and> t_sleep (tstore s p) = 0"

fun pick :: "'ctx kmt_state \<Rightarrow> int \<Rightarrow> nat list \<Rightarrow> task_ref option" where
  "pick s seed [] = None"
| "pick s seed (i # is) =
     (case tasks s (nat ((seed + int i + 1) mod int MAXTASK)) of
        None \<Rightarrow> pick s seed is
      | Some p \<Rightarrow> if runnable s p then Some p else pick s seed is)"

definition kmt_context_switch ::
  "nat \<Rightarrow> 'ctx \<Rightarrow> 'ctx kmt_state \<Rightarrow> ('ctx option \<times> 'ctx kmt_state) result" where
  "kmt_context_switch c ctx s =
     (let (seed, s0) = (case cputask s c of
              Some p \<Rightarrow> (t_id (tstore s p), s)
            | None \<Rightarrow> (let (r, n) = rand (rand_next s)
                       in (int (r mod MAXTASK), s\<lparr>rand_next := n\<rparr>)))
      in kmt_locked c s0
           (let ret = (case pick s0 seed [0..<MAXTASK] of None \<Rightarrow> Default c | Some p \<Rightarrow> p);
                s1 = upd_task ret (\<lambda>t. t\<lparr>t_run := 1\<rparr>) s0;
                s2 = s1\<lparr>cputask := (cputask s1)(c := Some ret)\<rparr>
            in Inr (Some (t_context (tstore s2 ret)), s2)))"

text \<open>
  The search of \<open>kmt_create\<close>: the first \<open>i\<close> whose slot is free, \<open>MAXTASK\<close> when none is, in
  which case the slot \<open>(seed + MAXTASK) % MAXTASK\<close> is overwritten.
\<close>

fun free_slot :: "'ctx kmt_state \<Rightarrow> nat \<Rightarrow> nat list \<Rightarrow> nat" where
  "free_slot s seed [] = MAXTASK"
| "free_slot s seed (i # is) =
     (if tasks s ((seed + i) mod MAXTASK) = None then i else free_slot s seed is)"

definition kmt_create ::
  "(u32 \<Rightarrow> u32 \<Rightarrow> 'e \<Rightarrow> 'a \<Rightarrow> 'ctx) \<Rightarrow> nat \<Rightarrow> nat \<Rightarrow> string \<Rightarrow> 'e \<Rightarrow> 'a \<Rightarrow> 'ctx kmt_state \<Rightarrow>
     (int \<times> 'ctx kmt_state) result" where
  "kmt_create kcontext c p name entry arg s =
     (if cnt_tasks s \<ge> int MAXTASK then Inr (1, s)
      else bindr (kalloc c STACKSIZE (kpmm s)) (\<lambda>(stack, pm).
        let s1 = upd_task (Task p) (\<lambda>t. t\<lparr>t_stack := stack\<rparr>) (s\<lparr>kpmm := pm\<rparr>)
        in if stack = 0 then Inr (1, s1)
           else (let s2 = upd_task (Task p) (\<lambda>t. t\<lparr>t_name := name, t_run := 0, t_sleep := 0,
                            t_context := kcontext stack (stack + STACKSIZE - 1) entry arg\<rparr>) s1
                 in kmt_locked c s2
                      (let s3 = s2\<lparr>cnt_tasks := cnt_tasks s2 + 1\<rparr>;
                           (r, n) = rand (rand_next s3);
                           s4 = s3\<lparr>rand_next := n\<rparr>;
                           seed = r mod MAXTASK;
                           i = free_slot s4 seed [0..<MAXTASK];
                           slot = (seed + i) mod MAXTASK;
                           s5 = s4\<lparr>tasks := (tasks s4)(slot := Some (Task p))\<rparr>
                       in Inr (0, upd_task (Task p) (\<lambda>t. t\<lparr>t_id := int slot\<rparr>) s5)))))"

definition kmt_teardown :: "nat \<Rightarrow> task_ref \<Rightarrow> 'ctx kmt_state \<Rightarrow> 'ctx kmt_state result" where
  "kmt_teardown c p s =
     bindr (kfree c (t_stack (tstore s p)) (kpmm s)) (\<lambda>pm.
       bindr (kmt_locked c (s\<lparr>kpmm := pm\<rparr>)
         (let s1 = s\<lparr>kpmm := pm, cnt_tasks := cnt_tasks s - 1\<rparr>
          in Inr ((), s1\<lparr>tasks := (tasks s1)(nat (t_id (tstore s1 p)) := None)\<rparr>)))
       (\<lambda>(_, s'). Inr s'))"

text \<open>An interrupt that reschedules: the two callbacks one after the other.\<close>

definition kmt_trap :: "nat \<Rightarrow> 'ctx \<Rightarrow> 'ctx kmt_state \<Rightarrow> ('ctx option \<times> 'ctx kmt_state) result" where
  "kmt_trap c ctx s =
     bindr (kmt_context_save c ctx s) (\<lambda>(_, s'). kmt_context_switch c ctx s')"

text \<open>The callbacks as \<open>os_trap\<close> calls them, with the CPU state of the trap.\<close>

definition on_cpu ::
  "('ctx kmt_state \<Rightarrow> ('r \<times> 'ctx kmt_state) result) \<Rightarrow> cpu_state \<times> 'ctx kmt_state \<Rightarrow>
     ('r \<times> cpu_state \<times> 'ctx kmt_state) result" where
  "on_cpu f = (\<lambda>(cs, s).
     bindr (f (s\<lparr>kpmm := (kpmm s)\<lparr>kcpu := cs\<rparr>\<rparr>)) (\<lambda>(r, s'). Inr (r, kcpu (kpmm s'), s')))"

definition save_handler :: "nat \<Rightarrow> ('ctx, 'ctx kmt_state) handler" where
  "save_handler c = (\<lambda>ev ctx. on_cpu (kmt_context_save c ctx))"

definition switch_handler :: "nat \<Rightarrow> ('ctx, 'ctx kmt_state) handler" where
  "switch_handler c = (\<lambda>ev ctx. on_cpu (kmt_context_switch c ctx))"

definition INT_MAX :: int where
  "INT_MAX = 2147483647"

definition INT_MIN :: int where
  "INT_MIN = - INT_MAX - 1"

text \<open>
  The handlers are those of the CPU the trap runs on; the table is shared by all CPUs, so the
  model registers the two functions for the CPU \<open>c\<close> it follows.
\<close>

definition kmt_clear :: "'ctx kmt_state \<Rightarrow> 'ctx kmt_state" where
  "kmt_clear s =
     (let s2 = s\<lparr>tasks := (\<lambda>i. if i < MAXTASK then None else tasks s i)\<rparr>;
          s3 = s2\<lparr>cputask := (\<lambda>i. if i < MAXCPU then None else cputask s2 i),
                  cputask_last := (\<lambda>i. if i < MAXCPU then None else cputask_last s2 i),
                  tstore := (\<lambda>p. case p of
                      Default i \<Rightarrow> if i < MAXCPU
                        then (tstore s2 p)\<lparr>t_run := 0, t_sleep := 0, t_name := ''cpudefault''\<rparr>
                        else tstore s2 p
                    | Task _ \<Rightarrow> tstore s2 p)\<rparr>
      in s3\<lparr>cnt_tasks := 0\<rparr>)"

definition kmt_init ::
  "nat \<Rightarrow> ('ctx, 'ctx kmt_state) os_state \<Rightarrow> 'ctx kmt_state \<Rightarrow>
     (('ctx, 'ctx kmt_state) os_state \<times> 'ctx kmt_state) result" where
  "kmt_init c os s =
     (let s1 = s\<lparr>lock_kmt := spin_init (lock_kmt s) ''kmt''\<rparr>
      in bindr (os_on_irq c INT_MIN EVENT_NULL (save_handler c) (kcpu (kpmm s1), os)) (\<lambda>(cs, os1).
         bindr (os_on_irq c INT_MAX EVENT_NULL (switch_handler c) (cs, os1)) (\<lambda>(cs', os2).
           Inr (os2, kmt_clear (s1\<lparr>kpmm := (kpmm s1)\<lparr>kcpu := cs'\<rparr>\<rparr>)))))"

end
