(* ===== verification/Kmt_Inv.thy ===== *)
theory Kmt_Inv imports Kmt_Sched begin

text \<open>
  What the scheduler of \<open>kernel/src/kmt.c\<close> keeps true: the table and its counter agree, every
  task knows its slot, and no task is in use by two CPUs, where a CPU uses the task it runs and
  the one it left last, on whose stack it may still be. The operations run under one lock, so a
  step of the machine is one operation on one CPU.
\<close>

section \<open>Running under the lock\<close>

definition kmt_ready :: "'ctx kmt_state \<Rightarrow> bool" where
  "kmt_ready s \<longleftrightarrow> lock_free (lock_kmt s) \<and> cli_ok (kcpu (kpmm s))"

definition kmt_refresh :: "'ctx kmt_state \<Rightarrow> 'ctx kmt_state" where
  "kmt_refresh s = s\<lparr>kpmm := (kpmm s)\<lparr>kcpu := cli_refresh (kcpu (kpmm s))\<rparr>\<rparr>"

lemma kmt_refresh_simps [simp]:
  "tasks (kmt_refresh s) = tasks s" "cnt_tasks (kmt_refresh s) = cnt_tasks s"
  "cputask (kmt_refresh s) = cputask s" "cputask_last (kmt_refresh s) = cputask_last s"
  "notdefault (kmt_refresh s) = notdefault s" "tstore (kmt_refresh s) = tstore s"
  "lock_kmt (kmt_refresh s) = lock_kmt s" "rand_next (kmt_refresh s) = rand_next s"
  "kmt_ready (kmt_refresh s) = kmt_ready s"
  "kcpu (kpmm (kmt_refresh s)) = cli_refresh (kcpu (kpmm s))"
  by (simp_all add: kmt_refresh_def kmt_ready_def)

lemma kmt_locked_ready:
  assumes "kmt_ready s" and "lock_kmt s' = lock_kmt s" and "kcpu (kpmm s') = kcpu (kpmm s)"
  shows "kmt_locked c s (Inr (r, s')) = Inr (r, kmt_refresh s')"
  using assms by (simp add: kmt_locked_def kmt_ready_def kmt_refresh_def)

lemma upd_task_simps [simp]:
  "tasks (upd_task p f s) = tasks s" "cnt_tasks (upd_task p f s) = cnt_tasks s"
  "cputask (upd_task p f s) = cputask s" "cputask_last (upd_task p f s) = cputask_last s"
  "notdefault (upd_task p f s) = notdefault s" "lock_kmt (upd_task p f s) = lock_kmt s"
  "rand_next (upd_task p f s) = rand_next s" "kpmm (upd_task p f s) = kpmm s"
  "tstore (upd_task p f s) q = (if q = p then f (tstore s p) else tstore s q)"
  by (simp_all add: upd_task_def)

section \<open>Saving\<close>

definition saved :: "nat \<Rightarrow> 'ctx \<Rightarrow> 'ctx kmt_state \<Rightarrow> 'ctx kmt_state" where
  "saved c ctx s = kmt_refresh (s\<lparr>
     tstore := (\<lambda>p.
       let t = tstore s p;
           t1 = (if cputask_last s c = Some p \<and> cputask s c \<noteq> Some p then t\<lparr>t_run := 0\<rparr> else t)
       in if p = Default c \<and> \<not> notdefault s c \<or> cputask s c = Some p
          then t1\<lparr>t_context := ctx\<rparr> else t1),
     notdefault := (notdefault s)(c := True),
     cputask_last := (cputask_last s)(c := cputask s c)\<rparr>)"

lemma fun_upd_True_idem: "f c \<Longrightarrow> f(c := True) = f"
  by (rule ext) simp

lemma context_save_saved:
  assumes "kmt_ready s"
  shows "kmt_context_save c ctx s = Inr (None, saved c ctx s)"
proof -
  define body where "body =
    (let s1 = (case cputask_last s c of
                  None \<Rightarrow> s
                | Some l \<Rightarrow> if cputask s c \<noteq> Some l then upd_task l (\<lambda>t. t\<lparr>t_run := 0\<rparr>) s else s);
          s2 = (if \<not> notdefault s1 c
                then (upd_task (Default c) (\<lambda>t. t\<lparr>t_context := ctx\<rparr>) s1)
                       \<lparr>notdefault := (notdefault s1)(c := True)\<rparr>
                else s1);
          s3 = (case cputask s2 c of
                  None \<Rightarrow> s2
                | Some p \<Rightarrow> upd_task p (\<lambda>t. t\<lparr>t_context := ctx\<rparr>) s2)
      in s3\<lparr>cputask_last := (cputask_last s3)(c := cputask s3 c)\<rparr>)"
  have eq: "body = s\<lparr>
     tstore := (\<lambda>p.
       let t = tstore s p;
           t1 = (if cputask_last s c = Some p \<and> cputask s c \<noteq> Some p then t\<lparr>t_run := 0\<rparr> else t)
       in if p = Default c \<and> \<not> notdefault s c \<or> cputask s c = Some p
          then t1\<lparr>t_context := ctx\<rparr> else t1),
     notdefault := (notdefault s)(c := True),
     cputask_last := (cputask_last s)(c := cputask s c)\<rparr>"
    unfolding body_def Let_def
    by (cases "cputask_last s c"; cases "cputask s c"; cases "notdefault s c")
      (auto simp: upd_task_def fun_upd_True_idem fun_eq_iff intro!: kmt_state.equality)
  have "kmt_context_save c ctx s = kmt_locked c s (Inr (None, body))"
    by (simp add: kmt_context_save_def body_def Let_def)
  also have "\<dots> = Inr (None, kmt_refresh body)"
    by (rule kmt_locked_ready [OF assms]) (simp_all add: eq)
  finally show ?thesis by (simp add: eq saved_def)
qed

section \<open>Choosing\<close>

lemma pick_Some:
  "pick s seed is = Some p \<Longrightarrow>
     \<exists>k < length is. tasks s (nat ((seed + int (is ! k) + 1) mod int MAXTASK)) = Some p \<and> runnable s p \<and>
       (\<forall>j < k. \<forall>q. tasks s (nat ((seed + int (is ! j) + 1) mod int MAXTASK)) = Some q \<longrightarrow> \<not> runnable s q)"
proof (induction "is")
  case (Cons i "is")
  let ?at = "\<lambda>i. tasks s (nat ((seed + int i + 1) mod int MAXTASK))"
  show ?case
  proof (cases "\<exists>q. ?at i = Some q \<and> runnable s q")
    case True
    with Cons.prems show ?thesis by (intro exI [of _ 0]) auto
  next
    case False
    with Cons.prems have "pick s seed is = Some p" by (auto split: option.splits if_splits)
    from Cons.IH [OF this] obtain k where k: "k < length is" "?at (is ! k) = Some p" "runnable s p"
      "\<forall>j < k. \<forall>q. ?at (is ! j) = Some q \<longrightarrow> \<not> runnable s q" by blast
    have "\<not> runnable s q" if "j < Suc k" "?at ((i # is) ! j) = Some q" for j q
      using that False k(4) by (cases j) auto
    with k show ?thesis by (intro exI [of _ "Suc k"]) auto
  qed
qed simp

lemma pick_None:
  "pick s seed is = None \<longleftrightarrow>
     (\<forall>i \<in> set is. \<forall>q. tasks s (nat ((seed + int i + 1) mod int MAXTASK)) = Some q \<longrightarrow> \<not> runnable s q)"
  by (induction "is") (auto split: option.splits)

text \<open>The search visits every slot: \<open>MAXTASK\<close> steps from any start.\<close>

lemma slot_reached:
  assumes "slot < MAXTASK"
  shows "\<exists>i < MAXTASK. nat ((seed + int i + 1) mod int MAXTASK) = slot"
proof -
  define i where "i = nat ((int slot - seed - 1) mod int MAXTASK)"
  have m: "0 < int MAXTASK" by (simp add: MAXTASK_def)
  have "(seed + int i + 1) mod int MAXTASK = (seed + (int slot - seed - 1) mod int MAXTASK + 1) mod int MAXTASK"
    using m by (simp add: i_def)
  also have "\<dots> = (seed + (int slot - seed - 1) + 1) mod int MAXTASK"
    by (metis (no_types, opaque_lifting) mod_add_left_eq mod_add_right_eq)
  also have "\<dots> = int slot" using assms by (simp add: MAXTASK_def)
  finally have "nat ((seed + int i + 1) mod int MAXTASK) = slot" by simp
  moreover have "i < MAXTASK"
    unfolding i_def using pos_mod_bound [OF m, of "int slot - seed - 1"] m by linarith
  ultimately show ?thesis by blast
qed

lemma pick_idle_iff:
  "pick s seed [0..<MAXTASK] = None \<longleftrightarrow>
    (\<forall>slot < MAXTASK. \<forall>q. tasks s slot = Some q \<longrightarrow> \<not> runnable s q)"
proof
  assume "pick s seed [0..<MAXTASK] = None"
  then show "\<forall>slot < MAXTASK. \<forall>q. tasks s slot = Some q \<longrightarrow> \<not> runnable s q"
    using slot_reached [of _ seed] by (fastforce simp: pick_None)
next
  assume none: "\<forall>slot < MAXTASK. \<forall>q. tasks s slot = Some q \<longrightarrow> \<not> runnable s q"
  have "nat ((seed + int i + 1) mod int MAXTASK) < MAXTASK" for i
    by (simp add: MAXTASK_def nat_less_iff)
  with none show "pick s seed [0..<MAXTASK] = None" unfolding pick_None by blast
qed

text \<open>Where the search starts, and the state it leaves the generator in.\<close>

definition switch_seed :: "nat \<Rightarrow> 'ctx kmt_state \<Rightarrow> int \<times> 'ctx kmt_state" where
  "switch_seed c s = (case cputask s c of
       Some p \<Rightarrow> (t_id (tstore s p), s)
     | None \<Rightarrow> (let (r, n) = rand (rand_next s) in (int (r mod MAXTASK), s\<lparr>rand_next := n\<rparr>)))"

definition chosen :: "nat \<Rightarrow> 'ctx kmt_state \<Rightarrow> task_ref" where
  "chosen c s = (case pick s (fst (switch_seed c s)) [0..<MAXTASK] of None \<Rightarrow> Default c | Some p \<Rightarrow> p)"

definition switched :: "nat \<Rightarrow> 'ctx kmt_state \<Rightarrow> 'ctx kmt_state" where
  "switched c s = (let p = chosen c s; s1 = upd_task p (\<lambda>t. t\<lparr>t_run := 1\<rparr>) (snd (switch_seed c s))
     in kmt_refresh (s1\<lparr>cputask := (cputask s1)(c := Some p)\<rparr>))"

lemma switch_seed_snd [simp]:
  "tasks (snd (switch_seed c s)) = tasks s" "cputask (snd (switch_seed c s)) = cputask s"
  "cputask_last (snd (switch_seed c s)) = cputask_last s"
  "tstore (snd (switch_seed c s)) = tstore s" "lock_kmt (snd (switch_seed c s)) = lock_kmt s"
  "kpmm (snd (switch_seed c s)) = kpmm s" "cnt_tasks (snd (switch_seed c s)) = cnt_tasks s"
  by (auto simp: switch_seed_def rand_def Let_def split: option.splits)

lemma pick_cong: "tasks s = tasks s' \<Longrightarrow> tstore s = tstore s' \<Longrightarrow> pick s seed is = pick s' seed is"
  by (induction "is") (auto simp: runnable_def split: option.splits)

lemma context_switch_switched:
  assumes "kmt_ready s"
  shows "kmt_context_switch c ctx s =
    Inr (Some (t_context (tstore s (chosen c s))), switched c s)"
proof -
  obtain seed s0 where ss: "switch_seed c s = (seed, s0)" by fastforce
  then have same: "tasks s0 = tasks s" "tstore s0 = tstore s" "lock_kmt s0 = lock_kmt s" "kpmm s0 = kpmm s"
    using switch_seed_snd [of c s] by simp_all
  have ready: "kmt_ready s0" using assms same by (simp add: kmt_ready_def)
  have ch: "(case pick s0 seed [0..<MAXTASK] of None \<Rightarrow> Default c | Some p \<Rightarrow> p) = chosen c s"
    using pick_cong [of s0 s seed] same ss by (simp add: chosen_def)
  let ?s1 = "upd_task (chosen c s) (\<lambda>t. t\<lparr>t_run := 1\<rparr>) s0"
  let ?s2 = "?s1\<lparr>cputask := (cputask ?s1)(c := Some (chosen c s))\<rparr>"
  have "kmt_context_switch c ctx s =
      kmt_locked c s0 (Inr (Some (t_context (tstore ?s2 (chosen c s))), ?s2))"
    using ss by (simp add: kmt_context_switch_def switch_seed_def [symmetric] Let_def ch)
  also have "\<dots> = Inr (Some (t_context (tstore ?s2 (chosen c s))), kmt_refresh ?s2)"
    by (rule kmt_locked_ready [OF ready]) simp_all
  also have "tstore ?s2 (chosen c s) = (tstore s (chosen c s))\<lparr>t_run := 1\<rparr>"
    using same by simp
  finally show ?thesis by (simp add: switched_def ss Let_def del: fun_upd_apply)
qed

section \<open>No task on two CPUs\<close>

definition uses :: "'ctx kmt_state \<Rightarrow> nat \<Rightarrow> task_ref \<Rightarrow> bool" where
  "uses s c p \<longleftrightarrow> cputask s c = Some p \<or> cputask_last s c = Some p"

text \<open>
  Every task in use has its \<open>run\<close> flag set, no task is in use by two CPUs, the idle task of a
  CPU is used by that CPU only, and the table never holds an idle task.
\<close>

definition sched_inv :: "'ctx kmt_state \<Rightarrow> bool" where
  "sched_inv s \<longleftrightarrow>
     (\<forall>c p. uses s c p \<longrightarrow> t_run (tstore s p) \<noteq> 0) \<and>
     (\<forall>c d p. uses s c p \<longrightarrow> uses s d p \<longrightarrow> c = d) \<and>
     (\<forall>c d. uses s c (Default d) \<longrightarrow> c = d) \<and>
     (\<forall>i d. tasks s i \<noteq> Some (Default d))"

lemma sched_inv_saved: "sched_inv s \<Longrightarrow> sched_inv (saved c ctx s)"
  unfolding sched_inv_def saved_def uses_def
  by (auto simp: Let_def split: if_splits)

lemma chosen_cases:
  obtains "chosen c s = Default c"
  | slot where "tasks s slot = Some (chosen c s)" "runnable s (chosen c s)"
proof (cases "pick s (fst (switch_seed c s)) [0..<MAXTASK]")
  case None
  with that(1) show ?thesis by (simp add: chosen_def)
next
  case (Some p)
  with pick_Some [OF Some] that(2) show ?thesis by (auto simp: chosen_def)
qed

lemma chosen_not_used:
  assumes "sched_inv s" and "uses s d (chosen c s)"
  shows "d = c"
  using assms by (cases rule: chosen_cases [of c s]) (auto simp: sched_inv_def runnable_def)

lemma sched_inv_switched: "sched_inv s \<Longrightarrow> sched_inv (switched c s)"
proof -
  assume inv: "sched_inv s"
  note new = chosen_not_used [OF inv]
  have u: "uses (switched c s) d p \<longleftrightarrow> (if d = c then p = chosen c s \<or> cputask_last s c = Some p
      else uses s d p)" for d p
    by (auto simp: uses_def switched_def Let_def)
  have "t_run (tstore (switched c s) p) \<noteq> 0" if "uses (switched c s) d p" for d p
    using that inv unfolding u by (auto simp: switched_def Let_def sched_inv_def uses_def split: if_splits)
  moreover have "d = e" if "uses (switched c s) d p" "uses (switched c s) e p" for d e p
    using that inv new unfolding u by (auto simp: sched_inv_def uses_def split: if_splits)
  moreover have "d = e" if "uses (switched c s) d (Default e)" for d e
  proof (cases "d = c \<and> chosen c s = Default e")
    case True
    then show ?thesis using inv by (cases rule: chosen_cases [of c s]) (auto simp: sched_inv_def)
  next
    case False
    with that inv show ?thesis unfolding u by (auto simp: sched_inv_def uses_def split: if_splits)
  qed
  moreover have "tasks (switched c s) i \<noteq> Some (Default d)" for i d
    using inv by (simp add: switched_def Let_def sched_inv_def)
  ultimately show ?thesis unfolding sched_inv_def by blast
qed

section \<open>The table\<close>

definition table_inv :: "'ctx kmt_state \<Rightarrow> bool" where
  "table_inv s \<longleftrightarrow>
     cnt_tasks s = int (card {i. i < MAXTASK \<and> tasks s i \<noteq> None}) \<and>
     (\<forall>i p. tasks s i = Some p \<longrightarrow> i < MAXTASK \<and> t_id (tstore s p) = int i)"

definition in_table :: "'ctx kmt_state \<Rightarrow> task_ref \<Rightarrow> bool" where
  "in_table s p \<longleftrightarrow> (\<exists>i. tasks s i = Some p)"

lemma free_slot_found:
  "\<exists>i \<in> set is. tasks s ((seed + i) mod MAXTASK) = None \<Longrightarrow>
     free_slot s seed is \<in> set is \<and> tasks s ((seed + free_slot s seed is) mod MAXTASK) = None"
  by (induction "is") auto

lemma free_slot_below:
  assumes "table_inv s" and "cnt_tasks s < int MAXTASK"
  shows "free_slot s seed [0..<MAXTASK] < MAXTASK"
    and "tasks s ((seed + free_slot s seed [0..<MAXTASK]) mod MAXTASK) = None"
proof -
  have "card {i. i < MAXTASK \<and> tasks s i \<noteq> None} < card {i. i < MAXTASK}"
    using assms by (simp add: table_inv_def)
  then obtain slot where slot: "slot < MAXTASK" "tasks s slot = None"
    by (metis (mono_tags, lifting) mem_Collect_eq order_less_irrefl Collect_cong)
  obtain i where i: "i < MAXTASK" "nat ((int seed - 1 + int i + 1) mod int MAXTASK) = slot"
    using slot_reached [OF slot(1)] by blast
  have "(int seed - 1 + int i + 1) mod int MAXTASK = int ((seed + i) mod MAXTASK)"
    by (simp add: zmod_int)
  with i slot have "\<exists>i \<in> set [0..<MAXTASK]. tasks s ((seed + i) mod MAXTASK) = None" by auto
  from free_slot_found [OF this]
  show "free_slot s seed [0..<MAXTASK] < MAXTASK"
    and "tasks s ((seed + free_slot s seed [0..<MAXTASK]) mod MAXTASK) = None" by auto
qed

text \<open>The two outcomes of creation.\<close>

definition create_rejected :: "'ctx kmt_state \<Rightarrow> nat \<Rightarrow> 'ctx kmt_state \<Rightarrow> bool" where
  "create_rejected s p s' \<longleftrightarrow>
     tasks s' = tasks s \<and> cnt_tasks s' = cnt_tasks s \<and>
     (\<forall>q. q \<noteq> Task p \<longrightarrow> tstore s' q = tstore s q) \<and>
     t_run (tstore s' (Task p)) = t_run (tstore s (Task p)) \<and>
     t_id (tstore s' (Task p)) = t_id (tstore s (Task p))"

definition create_done :: "'ctx kmt_state \<Rightarrow> nat \<Rightarrow> 'ctx kmt_state \<Rightarrow> bool" where
  "create_done s p s' \<longleftrightarrow>
     cnt_tasks s < int MAXTASK \<and> cnt_tasks s' = cnt_tasks s + 1 \<and>
     (\<exists>slot < MAXTASK. tasks s slot = None \<and> tasks s' = (tasks s)(slot := Some (Task p)) \<and>
       t_id (tstore s' (Task p)) = int slot) \<and>
     runnable s' (Task p) \<and> (\<forall>q. q \<noteq> Task p \<longrightarrow> tstore s' q = tstore s q)"

lemma create_result:
  assumes "kmt_create kc c p name entry arg s = Inr (r, s')"
    and "kmt_ready s" and "table_inv s"
  shows "kmt_ready s' \<and> cputask s' = cputask s \<and> cputask_last s' = cputask_last s \<and>
    (r = 1 \<and> create_rejected s p s' \<or> r = 0 \<and> create_done s p s')"
proof (cases "cnt_tasks s \<ge> int MAXTASK")
    case True
    with assms show ?thesis by (auto simp: kmt_create_def create_rejected_def)
  next
    case False
    then obtain stack pm where alloc: "kalloc c STACKSIZE (kpmm s) = Inr (stack, pm)"
      using assms(1) by (cases "kalloc c STACKSIZE (kpmm s)") (auto simp: kmt_create_def)
    have pm: "kcpu pm = cli_refresh (kcpu (kpmm s))"
      using alloc assms(2) by (auto simp: kalloc_def bindr_eq_Inr kmt_ready_def dest: with_lock_Inr(2))
    show ?thesis
    proof (cases "stack = 0")
      case True
      with False alloc assms pm show ?thesis
        by (auto simp: kmt_create_def upd_task_def kmt_ready_def create_rejected_def)
    next
      case stack: False
      define s2 where "s2 = upd_task (Task p) (\<lambda>t. t\<lparr>t_name := name, t_run := 0, t_sleep := 0,
          t_context := kc stack (stack + STACKSIZE - 1) entry arg\<rparr>)
          (upd_task (Task p) (\<lambda>t. t\<lparr>t_stack := stack\<rparr>) (s\<lparr>kpmm := pm\<rparr>))"
      obtain rr n where rand: "rand (rand_next s) = (rr, n)" by fastforce
      define s4 where "s4 = s2\<lparr>cnt_tasks := cnt_tasks s + 1, rand_next := n\<rparr>"
      define slot where "slot = (rr mod MAXTASK + free_slot s4 (rr mod MAXTASK) [0..<MAXTASK]) mod MAXTASK"
      define s5 where "s5 = upd_task (Task p) (\<lambda>t. t\<lparr>t_id := int slot\<rparr>)
          (s4\<lparr>tasks := (tasks s4)(slot := Some (Task p))\<rparr>)"
      have ready: "kmt_ready s2"
        using assms(2) pm by (simp add: s2_def kmt_ready_def)
      have same: "free_slot s4 k is = free_slot s k is" for k "is"
        by (induction "is") (simp_all add: s4_def s2_def)
      have slot: "slot < MAXTASK" "tasks s slot = None"
        using free_slot_below [OF assms(3), of "rr mod MAXTASK"] False
        by (simp_all add: slot_def same MAXTASK_def)
      have "kmt_create kc c p name entry arg s = kmt_locked c s2 (Inr (0, s5))"
        using False alloc stack rand
        by (simp add: kmt_create_def Let_def s2_def [symmetric] s4_def s5_def slot_def)
          (simp add: s2_def upd_task_def)
      also have "\<dots> = Inr (0, kmt_refresh s5)"
        by (rule kmt_locked_ready [OF ready]) (simp_all add: s5_def s4_def)
      finally have "r = 0" "s' = kmt_refresh s5" using assms(1) by simp_all
      moreover have "kmt_ready s5" using ready by (simp add: s5_def s4_def kmt_ready_def)
      moreover have "create_done s p s5"
        using slot False by (auto simp: create_done_def s5_def s4_def s2_def runnable_def)
      moreover have "cputask s5 = cputask s" "cputask_last s5 = cputask_last s"
        by (simp_all add: s5_def s4_def s2_def)
      ultimately show ?thesis by (auto simp: create_done_def runnable_def)
    qed
qed

lemma sched_inv_create:
  assumes "kmt_create kc c p name entry arg s = Inr (r, s')"
    and "kmt_ready s" and "table_inv s" and "sched_inv s" and "\<forall>d. \<not> uses s d (Task p)"
  shows "sched_inv s'"
proof -
  note res = create_result [OF assms(1-3)]
  have u: "uses s' d q \<longleftrightarrow> uses s d q" for d q
    using res by (simp add: uses_def)
  have t: "tasks s' i = Some (Default d) \<Longrightarrow> tasks s i = Some (Default d)" for i d
    using res by (auto simp: create_rejected_def create_done_def split: if_splits)
  have r: "t_run (tstore s' q) = t_run (tstore s q)" if "q \<noteq> Task p" for q
    using res that by (auto simp: create_rejected_def create_done_def)
  show ?thesis
    unfolding sched_inv_def u
    using assms(4,5) t r by (auto simp: sched_inv_def) metis+
qed

lemma table_inv_create:
  assumes "kmt_create kc c p name entry arg s = Inr (r, s')"
    and "kmt_ready s" and "table_inv s" and fresh: "\<not> in_table s (Task p)"
  shows "table_inv s'"
  using create_result [OF assms(1-3)]
proof (elim conjE disjE)
  assume "create_rejected s p s'"
  with assms(3) fresh show ?thesis
    by (auto simp: create_rejected_def table_inv_def in_table_def) metis
next
  assume cd: "create_done s p s'"
  then obtain slot where slot: "slot < MAXTASK" "tasks s slot = None"
    "tasks s' = (tasks s)(slot := Some (Task p))" "t_id (tstore s' (Task p)) = int slot"
    by (auto simp: create_done_def)
  have "{i. i < MAXTASK \<and> tasks s' i \<noteq> None} = insert slot {i. i < MAXTASK \<and> tasks s i \<noteq> None}"
    using slot by auto
  then have "card {i. i < MAXTASK \<and> tasks s' i \<noteq> None} = Suc (card {i. i < MAXTASK \<and> tasks s i \<noteq> None})"
    using slot(2) by simp
  moreover have "t_id (tstore s' q) = int i" if "tasks s i = Some q" for i q
  proof -
    have "q \<noteq> Task p" using that fresh by (auto simp: in_table_def)
    then have "tstore s' q = tstore s q" using cd by (simp add: create_done_def)
    with that assms(3) show ?thesis by (simp add: table_inv_def)
  qed
  ultimately show ?thesis
    using cd slot assms(3) by (auto simp: create_done_def table_inv_def)
qed

section \<open>Removal\<close>

lemma teardown_result:
  assumes "kmt_teardown c p s = Inr s'" and "kmt_ready s"
  shows "kmt_ready s'" and "cputask s' = cputask s" and "cputask_last s' = cputask_last s"
    and "tstore s' = tstore s" and "cnt_tasks s' = cnt_tasks s - 1"
    and "tasks s' = (tasks s)(nat (t_id (tstore s p)) := None)"
proof -
  obtain pm where free: "kfree c (t_stack (tstore s p)) (kpmm s) = Inr pm"
    using assms(1) by (cases "kfree c (t_stack (tstore s p)) (kpmm s)") (auto simp: kmt_teardown_def)
  have cpu: "kcpu pm = cli_refresh (kcpu (kpmm s))"
    using free assms(2) by (auto simp: kfree_def bindr_eq_Inr kmt_ready_def Let_def dest: with_lock_Inr(2))
  define s1 where "s1 = s\<lparr>kpmm := pm, cnt_tasks := cnt_tasks s - 1\<rparr>"
  have ready: "kmt_ready (s\<lparr>kpmm := pm\<rparr>)" using assms(2) cpu by (simp add: kmt_ready_def)
  have "s' = kmt_refresh (s1\<lparr>tasks := (tasks s1)(nat (t_id (tstore s1 p)) := None)\<rparr>)"
    using assms(1) free kmt_locked_ready [OF ready, where r = "()"]
    by (auto simp: kmt_teardown_def s1_def Let_def bindr_eq_Inr)
  with ready show "kmt_ready s'" "cputask s' = cputask s" "cputask_last s' = cputask_last s"
    "tstore s' = tstore s" "cnt_tasks s' = cnt_tasks s - 1"
    "tasks s' = (tasks s)(nat (t_id (tstore s p)) := None)"
    by (simp_all add: s1_def kmt_ready_def)
qed

lemma table_inv_teardown:
  assumes "kmt_teardown c p s = Inr s'" and "kmt_ready s" and "table_inv s" and "in_table s p"
  shows "table_inv s'" and "\<not> in_table s' p"
proof -
  obtain i where i: "tasks s i = Some p" "i < MAXTASK" "t_id (tstore s p) = int i"
    using assms(3,4) by (auto simp: in_table_def table_inv_def)
  note res = teardown_result [OF assms(1,2)]
  have tasks: "tasks s' = (tasks s)(i := None)" using res i by simp
  have "{j. j < MAXTASK \<and> tasks s j \<noteq> None} = insert i {j. j < MAXTASK \<and> tasks s' j \<noteq> None}"
    using tasks i by auto
  then have "card {j. j < MAXTASK \<and> tasks s j \<noteq> None} = Suc (card {j. j < MAXTASK \<and> tasks s' j \<noteq> None})"
    using tasks by simp
  with tasks assms(3) res show "table_inv s'" by (auto simp: table_inv_def)
  have "j = i" if "tasks s j = Some p" for j
    using that assms(3) i by (auto simp: table_inv_def)
  with tasks show "\<not> in_table s' p" by (auto simp: in_table_def)
qed

section \<open>All CPUs\<close>

text \<open>
  One operation at a time, on any CPU: the two callbacks of a trap (other CPUs may run between
  them), creation with a task structure that is not in use, removal of a task in the table, and
  what the semaphores do to a task, setting and clearing its \<open>sleep\<close> flag.
\<close>

inductive kmt_step ::
  "(u32 \<Rightarrow> u32 \<Rightarrow> 'e \<Rightarrow> 'a \<Rightarrow> 'ctx) \<Rightarrow> 'ctx kmt_state \<Rightarrow> 'ctx kmt_state \<Rightarrow> bool" for kc where
  save: "kmt_context_save c ctx s = Inr (r, s') \<Longrightarrow> kmt_step kc s s'"
| switch: "kmt_context_switch c ctx s = Inr (r, s') \<Longrightarrow> kmt_step kc s s'"
| create: "kmt_create kc c p name entry arg s = Inr (r, s') \<Longrightarrow> \<forall>d. \<not> uses s d (Task p) \<Longrightarrow>
    \<not> in_table s (Task p) \<Longrightarrow> kmt_step kc s s'"
| teardown: "kmt_teardown c p s = Inr s' \<Longrightarrow> in_table s p \<Longrightarrow> kmt_step kc s s'"
| sleep: "kmt_step kc s (upd_task p (\<lambda>t. t\<lparr>t_sleep := v\<rparr>) s)"

definition kmt_inv :: "'ctx kmt_state \<Rightarrow> bool" where
  "kmt_inv s \<longleftrightarrow> kmt_ready s \<and> table_inv s \<and> sched_inv s"

lemma table_inv_saved: "table_inv s \<Longrightarrow> table_inv (saved c ctx s)"
  by (simp add: table_inv_def saved_def Let_def)

lemma table_inv_switched: "table_inv s \<Longrightarrow> table_inv (switched c s)"
  by (simp add: table_inv_def switched_def Let_def)

lemma kmt_ready_saved: "kmt_ready s \<Longrightarrow> kmt_ready (saved c ctx s)"
  by (simp add: saved_def) (simp add: kmt_ready_def)

lemma kmt_ready_switched: "kmt_ready s \<Longrightarrow> kmt_ready (switched c s)"
  by (simp add: switched_def Let_def) (simp add: kmt_ready_def)

lemma kmt_inv_step: "kmt_step kc s s' \<Longrightarrow> kmt_inv s \<Longrightarrow> kmt_inv s'"
proof (induction rule: kmt_step.induct)
  case (save c ctx s r s')
  then show ?case
    by (auto simp: kmt_inv_def context_save_saved kmt_ready_saved table_inv_saved sched_inv_saved)
next
  case (switch c ctx s r s')
  then show ?case
    by (auto simp: kmt_inv_def context_switch_switched kmt_ready_switched table_inv_switched sched_inv_switched)
next
  case (create c p name entry arg s r s')
  then show ?case
    using create_result [OF create.hyps(1)] sched_inv_create [OF create.hyps(1)]
      table_inv_create [OF create.hyps(1)] by (auto simp: kmt_inv_def)
next
  case (teardown c p s s')
  then have inv: "kmt_ready s" "table_inv s" "sched_inv s" by (auto simp: kmt_inv_def)
  note res = teardown_result [OF teardown.hyps(1) inv(1)]
  have "sched_inv s'" using inv(3) res by (auto simp: sched_inv_def uses_def)
  with inv res show ?case
    using table_inv_teardown [OF teardown.hyps(1)] teardown.hyps(2) by (simp add: kmt_inv_def)
next
  case (sleep s p v)
  then show ?case
    by (auto simp: kmt_inv_def kmt_ready_def table_inv_def sched_inv_def uses_def)
qed

lemma kmt_inv_clear:
  assumes "kmt_ready s" and "\<forall>i. MAXTASK \<le> i \<longrightarrow> tasks s i = None"
    and "\<forall>c. MAXCPU \<le> c \<longrightarrow> cputask s c = None \<and> cputask_last s c = None"
  shows "kmt_inv (kmt_clear s)"
  using assms by (auto simp: kmt_inv_def kmt_clear_def Let_def kmt_ready_def table_inv_def
      sched_inv_def uses_def not_le split: if_splits)

section \<open>Properties\<close>

definition boot_kmt :: "unit kmt_state" where
  "boot_kmt = \<lparr>tasks = (\<lambda>_. None), cnt_tasks = 0, cputask = (\<lambda>_. None), cputask_last = (\<lambda>_. None),
     notdefault = (\<lambda>_. False),
     tstore = (\<lambda>_. \<lparr>t_name = '''', t_context = (), t_run = 0, t_id = 0, t_sleep = 0, t_stack = 0\<rparr>),
     lock_kmt = \<lparr>lk_name = ''kmt'', locked = 0, lk_cpu = -1\<rparr>, rand_next = 1,
     kpmm = pmm_init 4096 65536 boot_pmm\<rparr>"

definition unit_kc :: "u32 \<Rightarrow> u32 \<Rightarrow> unit \<Rightarrow> unit \<Rightarrow> unit" where
  "unit_kc lo hi entry arg = ()"

lemma boot_kmt_simps [simp]:
  "tasks boot_kmt = (\<lambda>_. None)" "cputask boot_kmt = (\<lambda>_. None)" "cputask_last boot_kmt = (\<lambda>_. None)"
  "cnt_tasks boot_kmt = 0" "kmt_ready boot_kmt"
  by (simp_all add: boot_kmt_def kmt_ready_def lock_free_def pmm_init_def list_init_def Let_def
      boot_pmm_def cli_ok_def)

lemma boot_kmt_inv: "kmt_inv (kmt_clear boot_kmt)"
  by (rule kmt_inv_clear) simp_all

lemma kmt_inv_steps: "(kmt_step kc)\<^sup>*\<^sup>* s t \<Longrightarrow> kmt_inv s \<Longrightarrow> kmt_inv t"
  by (induction rule: rtranclp_induct) (auto intro: kmt_inv_step)

text \<open>
  C1. No task runs on two CPUs: after \<open>kmt_init\<close> has cleared the tables, whatever traps, task creations,
  removals and sleeps follow on whatever CPUs, a task that is the current task of one CPU, or the
  one whose stack that CPU may still be on, is neither for any other CPU.
\<close>

theorem no_task_on_two_cpus:
  assumes "kmt_ready s0" and "\<forall>i. MAXTASK \<le> i \<longrightarrow> tasks s0 i = None"
    and "\<forall>c. MAXCPU \<le> c \<longrightarrow> cputask s0 c = None \<and> cputask_last s0 c = None"
    and "(kmt_step kc)\<^sup>*\<^sup>* (kmt_clear s0) s"
    and "cputask s c = Some p \<or> cputask_last s c = Some p"
    and "cputask s d = Some p \<or> cputask_last s d = Some p"
  shows "c = d"
  using kmt_inv_steps [OF assms(4) kmt_inv_clear [OF assms(1-3)]] assms(5,6)
  by (auto simp: kmt_inv_def sched_inv_def uses_def)

lemma boot_kmt_switch:
  "\<exists>s. kmt_step kc (kmt_clear boot_kmt) s \<and> cputask s 0 = Some (Default 0)"
proof -
  have "pick (kmt_clear boot_kmt) seed is = None" for seed "is"
    by (induction "is") (auto simp: kmt_clear_def Let_def)
  then have "chosen 0 (kmt_clear boot_kmt) = Default 0" by (simp add: chosen_def)
  moreover have "kmt_ready (kmt_clear boot_kmt)" using boot_kmt_inv by (simp add: kmt_inv_def)
  moreover have "kmt_step kc (kmt_clear boot_kmt) (switched 0 (kmt_clear boot_kmt))"
    by (rule kmt_step.switch [OF context_switch_switched]) fact
  ultimately show ?thesis
    by (intro exI [of _ "switched 0 (kmt_clear boot_kmt)"]) (simp add: switched_def Let_def)
qed

lemma no_task_on_two_cpus_witness:
  "\<exists>s. (kmt_step unit_kc)\<^sup>*\<^sup>* (kmt_clear boot_kmt) s \<and> cputask s 0 = Some (Default 0) \<and>
     cputask s 1 \<noteq> Some (Default 0)"
proof -
  obtain s where s: "kmt_step unit_kc (kmt_clear boot_kmt) s" "cputask s 0 = Some (Default 0)"
    using boot_kmt_switch [of unit_kc] by blast
  have "cputask s 1 \<noteq> Some (Default 0)"
    using no_task_on_two_cpus [of boot_kmt unit_kc s 0 "Default 0" 1] s by auto
  with s show ?thesis by blast
qed



text \<open>
  C9. The scheduler: \<open>kmt_context_switch\<close> returns the saved context of the task it makes current, which
  it marks as running; that task is the first in the table, cyclically from the slot after the
  interrupted task's, that is neither running nor asleep, and the idle task of the CPU when there is
  none. All other tasks are unchanged.
\<close>

theorem context_switch_round_robin:
  assumes "kmt_ready s" and "cputask s c = Some cur"
  shows "\<exists>p s'. kmt_context_switch c ctx s = Inr (Some (t_context (tstore s p)), s') \<and>
    cputask s' = (cputask s)(c := Some p) \<and> t_run (tstore s' p) = 1 \<and>
    (\<forall>q. q \<noteq> p \<longrightarrow> tstore s' q = tstore s q) \<and>
    (let at = (\<lambda>k. tasks s (nat ((t_id (tstore s cur) + int k + 1) mod int MAXTASK)))
     in (\<exists>k < MAXTASK. at k = Some p \<and> runnable s p \<and>
           (\<forall>j < k. \<forall>q. at j = Some q \<longrightarrow> \<not> runnable s q)) \<or>
        (p = Default c \<and> (\<forall>i < MAXTASK. \<forall>q. tasks s i = Some q \<longrightarrow> \<not> runnable s q)))"
proof -
  let ?p = "chosen c s"
  have seed: "fst (switch_seed c s) = t_id (tstore s cur)"
    using assms(2) by (simp add: switch_seed_def)
  have "(\<exists>k < MAXTASK. tasks s (nat ((t_id (tstore s cur) + int k + 1) mod int MAXTASK)) = Some ?p \<and>
        runnable s ?p \<and> (\<forall>j < k. \<forall>q. tasks s (nat ((t_id (tstore s cur) + int j + 1) mod int MAXTASK)) = Some q
          \<longrightarrow> \<not> runnable s q)) \<or>
      (?p = Default c \<and> (\<forall>i < MAXTASK. \<forall>q. tasks s i = Some q \<longrightarrow> \<not> runnable s q))"
  proof (cases "pick s (fst (switch_seed c s)) [0..<MAXTASK]")
    case None
    then have "?p = Default c" by (simp add: chosen_def)
    with None show ?thesis unfolding pick_idle_iff by blast
  next
    case (Some p)
    with pick_Some [OF Some] show ?thesis by (fastforce simp: chosen_def seed)
  qed
  moreover have "cputask (switched c s) = (cputask s)(c := Some ?p)" "t_run (tstore (switched c s) ?p) = 1"
    "\<forall>q. q \<noteq> ?p \<longrightarrow> tstore (switched c s) q = tstore s q"
    by (simp_all add: switched_def Let_def del: fun_upd_apply)
  ultimately show ?thesis
    unfolding Let_def using context_switch_switched [OF assms(1), of c ctx] by blast
qed

lemma context_switch_round_robin_witness:
  "\<exists>p s'. kmt_context_switch 0 () (boot_kmt\<lparr>cputask := (\<lambda>_. None)(0 := Some (Default 0))\<rparr>) =
     Inr (Some (), s') \<and> cputask s' 0 = Some p \<and> t_run (tstore s' p) = 1"
proof -
  let ?s = "boot_kmt\<lparr>cputask := (\<lambda>_. None)(0 := Some (Default 0))\<rparr>"
  have "kmt_ready ?s" using boot_kmt_simps(5) by (simp add: kmt_ready_def)
  from context_switch_round_robin [OF this, of 0 "Default 0" "()"] show ?thesis by fastforce
qed

text \<open>
  C11. \<open>kmt_create\<close> either fails with 1 and leaves the table, the counter and every other task as they were, or
  returns 0 and has put the task, runnable, into a slot that was free and whose number is its id.
\<close>

theorem kmt_create_outcomes:
  assumes "kmt_create kc c p name entry arg s = Inr (r, s')" and "kmt_ready s" and "table_inv s"
  shows "(r = 1 \<and> tasks s' = tasks s \<and> cnt_tasks s' = cnt_tasks s \<and>
      (\<forall>q. q \<noteq> Task p \<longrightarrow> tstore s' q = tstore s q)) \<or>
    (r = 0 \<and> cnt_tasks s < int MAXTASK \<and> cnt_tasks s' = cnt_tasks s + 1 \<and>
      (\<exists>slot < MAXTASK. tasks s slot = None \<and> tasks s' = (tasks s)(slot := Some (Task p)) \<and>
         t_id (tstore s' (Task p)) = int slot) \<and>
      runnable s' (Task p) \<and> (\<forall>q. q \<noteq> Task p \<longrightarrow> tstore s' q = tstore s q))"
  using create_result [OF assms] by (auto simp: create_rejected_def create_done_def)

lemma create_returns:
  assumes "kmt_ready s" and "cnt_tasks s < int MAXTASK"
    and "kalloc c STACKSIZE (kpmm s) = Inr (stack, pm)" and "stack \<noteq> 0"
  shows "\<exists>s'. kmt_create kc c p name entry arg s = Inr (0, s')"
proof -
  have "kcpu pm = cli_refresh (kcpu (kpmm s))"
    using assms by (auto simp: kalloc_def bindr_eq_Inr kmt_ready_def dest: with_lock_Inr(2))
  with assms show ?thesis
    by (simp add: kmt_create_def Let_def kmt_locked_def kmt_ready_def split: prod.split)
qed

lemma boot_create:
  "\<exists>s'. kmt_create unit_kc 0 7 ''t'' () () boot_kmt = Inr (0, s')"
proof -
  have rep: "pmm_rep (kpmm boot_kmt) [(4096, 4112), (65520, 65536)]"
    using pmm_init_rep [of 4096 65536 boot_pmm] by (simp add: boot_kmt_def boot_pmm_def cli_ok_def)
  obtain st pm where a: "kalloc 0 STACKSIZE (kpmm boot_kmt) = Inr (st, pm)" "unat st = 4128"
    using kalloc_fits [OF rep, of STACKSIZE 4128 _ 0] by (auto simp: STACKSIZE_def)
  then have "st \<noteq> 0" by auto
  then show ?thesis using create_returns [OF _ _ a(1)] by (simp add: MAXTASK_def)
qed

lemma kmt_create_outcomes_witness:
  "\<exists>s' slot. kmt_create unit_kc 0 7 ''t'' () () boot_kmt = Inr (0, s') \<and>
     tasks s' slot = Some (Task 7) \<and> cnt_tasks s' = 1"
proof -
  obtain s' where s': "kmt_create unit_kc 0 7 ''t'' () () boot_kmt = Inr (0, s')"
    using boot_create by blast
  have "table_inv boot_kmt" by (simp add: table_inv_def)
  from kmt_create_outcomes [OF s' _ this] s' show ?thesis by auto
qed

end
