(* ===== verification/Fifo.thy ===== *)
theory Fifo imports C_Base begin

text \<open>
  The contract of a first-in first-out queue, shared by the waiter list of the semaphores, the
  keyboard event ring and the line buffer of the terminals. \<open>rep\<close> relates a state to the
  elements it holds, oldest first; \<open>room\<close> says when one more element can be added.
\<close>

locale fifo =
  fixes enq :: "'a \<Rightarrow> 's \<Rightarrow> 's result"
    and deq :: "'s \<Rightarrow> ('a \<times> 's) result"
    and rep :: "'s \<Rightarrow> 'a list \<Rightarrow> bool"
    and room :: "'s \<Rightarrow> 'a \<Rightarrow> bool"
  assumes enq_ok: "rep s q \<Longrightarrow> room s x \<Longrightarrow> \<exists>s'. enq x s = Inr s' \<and> rep s' (q @ [x])"
    and deq_ok: "rep s (x # q) \<Longrightarrow> \<exists>s'. deq s = Inr (x, s') \<and> rep s' q"
begin

text \<open>Taking out everything returns the elements in the order they went in.\<close>

fun drain :: "nat \<Rightarrow> 's \<Rightarrow> ('a list \<times> 's) result" where
  "drain 0 s = Inr ([], s)"
| "drain (Suc n) s = bindr (deq s) (\<lambda>(x, s1). bindr (drain n s1) (\<lambda>(xs, s2). Inr (x # xs, s2)))"

lemma drain_ok: "rep s (q @ r) \<Longrightarrow> \<exists>s'. drain (length q) s = Inr (q, s') \<and> rep s' r"
proof (induction q arbitrary: s)
  case (Cons x q)
  then obtain s1 where s1: "deq s = Inr (x, s1)" "rep s1 (q @ r)" using deq_ok [of s x "q @ r"] by auto
  from Cons.IH [OF s1(2)] obtain s2 where "drain (length q) s1 = Inr (q, s2)" "rep s2 r" by blast
  with s1 show ?case by simp
qed simp

lemma deq_enq:
  assumes "rep s (x # q)" and "room s y"
  shows "\<exists>s1 s2. enq y s = Inr s1 \<and> deq s1 = Inr (x, s2) \<and> rep s2 (q @ [y])"
proof -
  from enq_ok [OF assms] obtain s1 where s1: "enq y s = Inr s1" "rep s1 (x # q @ [y])" by auto
  from deq_ok [OF s1(2)] s1 show ?thesis by auto
qed

end

section \<open>Rings\<close>

text \<open>
  A ring of \<open>N\<close> cells that holds \<open>q\<close> from cell \<open>f\<close> on; \<open>r\<close> is the next free cell. One cell stays
  empty, so that \<open>f = r\<close> means empty.
\<close>

definition ring_rep :: "nat \<Rightarrow> 'a list \<Rightarrow> nat \<Rightarrow> nat \<Rightarrow> 'a list \<Rightarrow> bool" where
  "ring_rep N buf f r q \<longleftrightarrow> length buf = N \<and> f < N \<and> length q < N \<and> r = (f + length q) mod N \<and>
     (\<forall>i < length q. buf ! ((f + i) mod N) = q ! i)"

lemma ring_cell_inj: "f < N \<Longrightarrow> i < N \<Longrightarrow> j < N \<Longrightarrow> (f + i) mod N = (f + j) mod N \<Longrightarrow> i = (j :: nat)"
proof (induction i j rule: linorder_wlog)
  case (le i j)
  then have "(f + j) mod N = (f + i) mod N" by simp
  then have "N dvd (f + j) - (f + i)" using le(1) by (intro mod_eq_dvd_iff_nat [THEN iffD1]) auto
  then have "N dvd j - i" by simp
  moreover have "j - i < N" using le by simp
  ultimately have "j - i = 0" by (meson nat_dvd_not_less neq0_conv)
  with le(1) show ?case by simp
next
  case (sym i j)
  then show ?case by metis
qed

lemma ring_rep_Nil: "length buf = N \<Longrightarrow> f < N \<Longrightarrow> ring_rep N buf f f []"
  by (simp add: ring_rep_def)

lemma ring_empty_iff: "ring_rep N buf f r q \<Longrightarrow> r = f \<longleftrightarrow> q = []"
  using ring_cell_inj [of f N "length q" 0] by (auto simp: ring_rep_def)

lemma ring_full_iff:
  assumes "ring_rep N buf f r q"
  shows "(r + 1) mod N = f \<longleftrightarrow> Suc (length q) = N"
proof -
  have f: "f < N" "length q < N" "r = (f + length q) mod N" using assms by (auto simp: ring_rep_def)
  then have "(r + 1) mod N = (f + Suc (length q)) mod N" by (simp add: mod_Suc_eq)
  moreover have "(f + Suc (length q)) mod N = f \<longleftrightarrow> Suc (length q) = N"
  proof
    assume eq: "(f + Suc (length q)) mod N = f"
    show "Suc (length q) = N"
    proof (rule ccontr)
      assume "Suc (length q) \<noteq> N"
      then have "Suc (length q) = 0"
        using f eq by (intro ring_cell_inj [of f N "Suc (length q)" 0]) auto
      then show False by simp
    qed
  qed (use f in simp)
  ultimately show ?thesis by simp
qed

lemma ring_rep_junk:
  assumes "ring_rep N buf f r q"
  shows "ring_rep N (buf[r := y]) f r q"
proof -
  have "r \<noteq> (f + i) mod N" if "i < length q" for i
    using ring_cell_inj [of f N i "length q"] assms that by (auto simp: ring_rep_def)
  then have "(buf[r := y]) ! ((f + i) mod N) = buf ! ((f + i) mod N)" if "i < length q" for i
    using that by simp
  with assms show ?thesis by (simp add: ring_rep_def)
qed

lemma ring_rep_put:
  assumes rep: "ring_rep N buf f r q" and room: "(r + 1) mod N \<noteq> f"
  shows "ring_rep N (buf[r := x]) f ((r + 1) mod N) (q @ [x])"
proof -
  have room': "Suc (length q) < N"
    using room ring_full_iff [OF rep] rep by (auto simp: ring_rep_def)
  have r: "r < N" using rep by (auto simp: ring_rep_def)
  have "(buf[r := x]) ! ((f + i) mod N) = (q @ [x]) ! i" if "i < Suc (length q)" for i
  proof (cases "i = length q")
    case True
    with rep r show ?thesis by (auto simp: ring_rep_def)
  next
    case False
    then have "(f + i) mod N \<noteq> r"
      using ring_cell_inj [of f N i "length q"] rep that by (auto simp: ring_rep_def)
    with rep False that show ?thesis by (auto simp: ring_rep_def nth_append)
  qed
  with rep room' show ?thesis by (auto simp: ring_rep_def mod_Suc_eq)
qed

lemma ring_rep_get:
  assumes rep: "ring_rep N buf f r (x # q)"
  shows "buf ! f = x" and "f \<noteq> r" and "ring_rep N buf ((f + 1) mod N) r q"
proof -
  show "buf ! f = x" using rep by (force simp: ring_rep_def)
  show "f \<noteq> r" using ring_empty_iff [OF rep] by auto
  have "buf ! ((Suc f mod N + i) mod N) = q ! i" if "i < length q" for i
  proof -
    have "(Suc f mod N + i) mod N = (f + Suc i) mod N" by (simp add: mod_add_left_eq)
    moreover have "buf ! ((f + Suc i) mod N) = (x # q) ! Suc i"
      using rep that unfolding ring_rep_def by (metis Suc_less_eq length_Cons)
    ultimately show ?thesis by simp
  qed
  with rep show "ring_rep N buf ((f + 1) mod N) r q"
    by (auto simp: ring_rep_def mod_add_left_eq)
qed

end
