(* ===== verification/Semaphore.thy ===== *)
theory Semaphore imports Kmt_Inv Fifo begin

text \<open>
  The semaphores of \<open>kernel/src/kmt.c\<close>: a counter and the list of the tasks that wait, newest
  first, whose nodes come from the kernel's allocator. Nodes are only accessed through pointers of
  type \<open>tasknode_t *\<close> and live in a store of their own, indexed by address; a null pointer is 0.
\<close>

section \<open>State\<close>

record tasknode =
  tn_task :: task_ref
  tn_nxt :: u32
  tn_pre :: u32

record semaphore =
  sem_name :: string
  sem_count :: int
  sem_cnt_tasks :: int
  sem_lock :: spinlock
  sem_pcb :: u32

text \<open>One semaphore, with the part of the kernel its operations touch.\<close>

record 'ctx sem_world =
  sem :: semaphore
  tnodes :: "u32 \<Rightarrow> tasknode"
  kern :: "'ctx kmt_state"

text \<open>\<open>sizeof(tasknode_t)\<close>: three pointers.\<close>

definition TASKNODE_SIZE :: u32 where
  "TASKNODE_SIZE = 12"

definition upd_node :: "u32 \<Rightarrow> (tasknode \<Rightarrow> tasknode) \<Rightarrow> 'ctx sem_world \<Rightarrow> 'ctx sem_world" where
  "upd_node p f w = w\<lparr>tnodes := (tnodes w)(p := f (tnodes w p))\<rparr>"

definition upd_sem :: "(semaphore \<Rightarrow> semaphore) \<Rightarrow> 'ctx sem_world \<Rightarrow> 'ctx sem_world" where
  "upd_sem f w = w\<lparr>sem := f (sem w)\<rparr>"

definition upd_pmm :: "pmm_state \<Rightarrow> 'ctx sem_world \<Rightarrow> 'ctx sem_world" where
  "upd_pmm pm w = w\<lparr>kern := (kern w)\<lparr>kpmm := pm\<rparr>\<rparr>"

section \<open>The operations\<close>

text \<open>The \<open>pcb\<close> field is left as it is.\<close>

definition sem_init :: "string \<Rightarrow> int \<Rightarrow> semaphore \<Rightarrow> semaphore" where
  "sem_init name value s =
     s\<lparr>sem_name := name, sem_count := value, sem_cnt_tasks := 0,
       sem_lock := spin_init (sem_lock s) name\<rparr>"

definition sem_list_add :: "nat \<Rightarrow> task_ref \<Rightarrow> 'ctx sem_world \<Rightarrow> 'ctx sem_world result" where
  "sem_list_add c t w =
     bindr (kalloc c TASKNODE_SIZE (kpmm (kern w))) (\<lambda>(n, pm).
       let w1 = upd_pmm pm w
       in if n = 0 then Inl BadAccess
          else (let w2 = upd_node n (\<lambda>x. x\<lparr>tn_task := t\<rparr>) w1;
                    h = sem_pcb (sem w2)
                in if h = 0
                   then (let w3 = upd_node n (\<lambda>x. x\<lparr>tn_nxt := 0, tn_pre := 0\<rparr>) w2;
                             w4 = upd_sem (\<lambda>s. s\<lparr>sem_pcb := n\<rparr>) w3
                         in bindr (assert_that (sem_pcb (sem w4) \<noteq> 0)) (\<lambda>_. Inr w4))
                   else bindr (assert_that (tn_pre (tnodes w2 h) = 0)) (\<lambda>_.
                          let w3 = upd_node n (\<lambda>x. x\<lparr>tn_nxt := h\<rparr>) w2;
                              w4 = upd_node n (\<lambda>x. x\<lparr>tn_pre := tn_pre (tnodes w3 h)\<rparr>) w3;
                              w5 = upd_node h (\<lambda>x. x\<lparr>tn_pre := n\<rparr>) w4;
                              w6 = upd_sem (\<lambda>s. s\<lparr>sem_pcb := n\<rparr>) w5
                          in bindr (assert_that (sem_pcb (sem w6) \<noteq> 0)) (\<lambda>_. Inr w6))))"

text \<open>The walk to the end of the list; \<open>None\<close> on a cyclic list.\<close>

partial_function (option) last_node :: "(u32 \<Rightarrow> tasknode) \<Rightarrow> u32 \<Rightarrow> u32 option" where
  "last_node ns ptr = (if tn_nxt (ns ptr) \<noteq> 0 then last_node ns (tn_nxt (ns ptr)) else Some ptr)"

declare last_node.simps [code]

definition sem_list_delete :: "nat \<Rightarrow> 'ctx sem_world \<Rightarrow> 'ctx sem_world result" where
  "sem_list_delete c w =
     (let h = sem_pcb (sem w)
      in if h = 0 then Inl BadAccess
         else case last_node (tnodes w) h of
                None \<Rightarrow> Inl Hang
              | Some ptr \<Rightarrow>
                  (let w1 = w\<lparr>kern := upd_task (tn_task (tnodes w ptr)) (\<lambda>t. t\<lparr>t_sleep := 0\<rparr>) (kern w)\<rparr>;
                       w2 = (if ptr = h
                             then upd_sem (\<lambda>s. s\<lparr>sem_pcb := tn_nxt (tnodes w1 h)\<rparr>) w1
                             else upd_node (tn_pre (tnodes w1 ptr)) (\<lambda>x. x\<lparr>tn_nxt := tn_nxt (tnodes w1 ptr)\<rparr>) w1);
                       w3 = (if tn_nxt (tnodes w2 ptr) \<noteq> 0
                             then upd_node (tn_nxt (tnodes w2 ptr)) (\<lambda>x. x\<lparr>tn_pre := tn_pre (tnodes w2 ptr)\<rparr>) w2
                             else w2)
                   in bindr (kfree c ptr (kpmm (kern w3))) (\<lambda>pm. Inr (upd_pmm pm w3))))"

text \<open>
  The bracket of the semaphore's lock around code that takes other locks: the CPU state is the
  one in the kernel's memory manager.
\<close>

definition sem_locked ::
  "nat \<Rightarrow> 'ctx sem_world \<Rightarrow> ('ctx sem_world \<Rightarrow> ('r \<times> 'ctx sem_world) result) \<Rightarrow>
     ('r \<times> 'ctx sem_world) result" where
  "sem_locked c w body =
     bindr (with_lock_nested c (sem_lock (sem w)) (kcpu (kpmm (kern w)))
       (\<lambda>cs. bindr (body (upd_pmm ((kpmm (kern w))\<lparr>kcpu := cs\<rparr>) w))
         (\<lambda>(r, w'). Inr ((r, w'), kcpu (kpmm (kern w'))))))
     (\<lambda>((r, w'), lk, cs).
       Inr (r, upd_sem (\<lambda>s. s\<lparr>sem_lock := lk\<rparr>) (upd_pmm ((kpmm (kern w'))\<lparr>kcpu := cs\<rparr>) w')))"

text \<open>Whether \<open>sem_wait\<close> goes on or yields the CPU after it has released the lock.\<close>

datatype wait_result = Proceed | Yield

definition sem_wait_enter :: "nat \<Rightarrow> 'ctx sem_world \<Rightarrow> (wait_result \<times> 'ctx sem_world) result" where
  "sem_wait_enter c w = sem_locked c w (\<lambda>w0.
     let w1 = upd_sem (\<lambda>s. s\<lparr>sem_count := sem_count s - 1\<rparr>) w0
     in if sem_count (sem w1) < 0
        then (let w2 = upd_sem (\<lambda>s. s\<lparr>sem_cnt_tasks := sem_cnt_tasks s + 1\<rparr>) w1
              in case cputask (kern w2) c of
                   None \<Rightarrow> Inl BadAccess
                 | Some t \<Rightarrow>
                     (let w3 = w2\<lparr>kern := upd_task t (\<lambda>x. x\<lparr>t_sleep := 1\<rparr>) (kern w2)\<rparr>
                      in bindr (sem_list_add c t w3) (\<lambda>w4.
                           bindr (assert_that (sem_pcb (sem w4) \<noteq> 0)) (\<lambda>_.
                             bindr (assert_that (t_run (tstore (kern w4) t) = 1)) (\<lambda>_.
                               Inr (Yield, w4))))))
        else Inr (Proceed, w1))"

text \<open>\<open>_yield\<close> traps with the context \<open>ctx\<close>; the context resumed is the scheduler's choice.\<close>

definition sem_wait :: "nat \<Rightarrow> 'ctx \<Rightarrow> 'ctx sem_world \<Rightarrow> ('ctx option \<times> 'ctx sem_world) result" where
  "sem_wait c ctx w = bindr (sem_wait_enter c w) (\<lambda>(r, w').
     case r of
       Proceed \<Rightarrow> Inr (None, w')
     | Yield \<Rightarrow> bindr (kmt_trap c ctx (kern w')) (\<lambda>(x, k). Inr (x, w'\<lparr>kern := k\<rparr>)))"

definition sem_signal :: "nat \<Rightarrow> 'ctx sem_world \<Rightarrow> 'ctx sem_world result" where
  "sem_signal c w = bindr (sem_locked c w (\<lambda>w0.
     bindr (if sem_cnt_tasks (sem w0) > 0
            then bindr (sem_list_delete c w0) (\<lambda>w1.
                   Inr (upd_sem (\<lambda>s. s\<lparr>sem_cnt_tasks := sem_cnt_tasks s - 1\<rparr>) w1))
            else Inr w0)
       (\<lambda>w2. Inr ((), upd_sem (\<lambda>s. s\<lparr>sem_count := sem_count s + 1\<rparr>) w2))))
     (\<lambda>(_, w'). Inr w')"

end
