(* ===== verification/Semaphore_Fifo.thy ===== *)
theory Semaphore_Fifo imports Semaphore begin

text \<open>
  The waiter list of a semaphore is a first-in first-out queue: the nodes in memory form a doubly
  linked list of live blocks of the allocator, a signal wakes the task that has waited longest, and
  the counter is the number of free tokens or, negated, of waiting tasks.
\<close>

section \<open>Live blocks\<close>

text \<open>The blocks of the allocator, by the address of their header: all intervals but the sentinels.\<close>

definition live :: "(nat \<times> nat) list \<Rightarrow> nat \<Rightarrow> bool" where
  "live bs b \<longleftrightarrow> (\<exists>f. (b, f) \<in> set (butlast (tl bs)))"

lemma live_split: "live bs b \<longleftrightarrow> (\<exists>xs i f j ys. bs = xs @ i # (b, f) # j # ys)"
proof
  assume "live bs b"
  then obtain f where f: "(b, f) \<in> set (butlast (tl bs))" by (auto simp: live_def)
  then obtain us vs where mid: "butlast (tl bs) = us @ (b, f) # vs" by (auto simp: in_set_conv_decomp)
  have "bs = hd bs # butlast (tl bs) @ [last (tl bs)]"
    using f by (cases bs; cases "tl bs") simp_all
  then have bs: "bs = (hd bs # us) @ (b, f) # (vs @ [last (tl bs)])" using mid by simp
  obtain xs i where "hd bs # us = xs @ [i]" by (metis list.distinct(1) rev_exhaust)
  moreover obtain j ys where "vs @ [last (tl bs)] = j # ys" by (cases vs) auto
  ultimately have "bs = xs @ i # (b, f) # j # ys" using bs by (metis append.assoc append_Cons append_Nil)
  then show "\<exists>xs i f j ys. bs = xs @ i # (b, f) # j # ys" by blast
next
  assume "\<exists>xs i f j ys. bs = xs @ i # (b, f) # j # ys"
  then show "live bs b" by (auto simp: live_def tl_append butlast_append split: list.splits)
qed

lemma live_insert:
  "live (us @ x # y # vs) b \<Longrightarrow> live (us @ x # z # y # vs) b"
  by (cases us) (auto simp: live_def butlast_append split: if_splits)

lemma spec_alloc_live:
  assumes "pmm_rep s bs" and "spec_alloc n bs = Some (x, bs')"
  shows "16 \<le> x" and "live bs' (x - 16)" and "live bs b \<Longrightarrow> live bs' b" and "\<not> live bs (x - 16)"
proof -
  obtain us a e b' f vs where bs: "bs = us @ (a, e) # (b', f) # vs" "x = e + 16" "e + n + 16 \<le> b'"
    "bs' = us @ (a, e) # (e, e + n + 16) # (b', f) # vs"
    using kmem.spec_alloc_split [OF assms(2)] by blast
  show "16 \<le> x" using bs by simp
  have "live (us @ (a, e) # (e, e + n + 16) # (b', f) # vs) e" unfolding live_split by blast
  then show "live bs' (x - 16)" using bs by simp
  show "live bs b \<Longrightarrow> live bs' b" using bs live_insert by simp
  have sorted: "sorted_wrt (\<lambda>(a, e) (b, f). e \<le> b) (us @ (a, e) # (b', f) # vs)"
    and hdr: "\<forall>(a, e) \<in> set bs. a + 16 \<le> e"
    using pmm_rep_intervals [OF assms(1)] bs by blast+
  have "e \<noteq> a'" if "(a', e') \<in> set bs" for a' e'
  proof -
    have h: "a' + 16 \<le> e'" "a + 16 \<le> e" "b' + 16 \<le> f" using that hdr bs by auto
    have "e' \<le> a \<or> (a' = a \<and> e' = e) \<or> a' = b' \<or> f \<le> a'"
      using that sorted unfolding bs sorted_wrt_append by fastforce
    with h bs(3) show ?thesis by linarith
  qed
  moreover have "(b, f) \<in> set (butlast (tl bs)) \<Longrightarrow> (b, f) \<in> set bs" for b f
    by (meson in_set_butlastD set_tlD)
  ultimately have "\<not> live bs e" unfolding live_def by blast
  then show "\<not> live bs (x - 16)" using bs(2) by simp
qed

lemma live_delete:
  assumes "pmm_rep s bs" and "bs = xs @ i # (b, f) # j # ys" and "live bs d" and "d \<noteq> b"
  shows "live (xs @ i # j # ys) d"
  using assms(2-4)
  by (cases xs) (auto simp: live_def butlast_append split: if_splits)

lemma adj_unique:
  "adj m ns \<Longrightarrow> adj m ns' \<Longrightarrow> ns \<noteq> [] \<Longrightarrow> ns' \<noteq> [] \<Longrightarrow> hd ns = hd ns' \<Longrightarrow> last ns = last ns' \<Longrightarrow> ns = ns'"
proof (induction ns arbitrary: ns')
  case (Cons a ns)
  show ?case
  proof (cases ns)
    case Nil
    with Cons.prems adj_distinct [OF Cons.prems(2)] show ?thesis
      by (cases ns') (auto dest: last_in_set split: if_splits)
  next
    case (Cons b r)
    obtain b' r' where ns': "ns' = a # b' # r'"
    proof (cases ns')
      case (Cons c r')
      show ?thesis
      proof (cases r')
        case Nil
        with Cons \<open>ns = b # r\<close> Cons.prems adj_distinct [OF Cons.prems(1)] last_in_set [of "b # r"] show ?thesis
          by auto
      next
        case (Cons d r'')
        with \<open>ns' = c # r'\<close> Cons.prems that show ?thesis by simp
      qed
    qed (use Cons.prems in simp)
    have "b = b'" using Cons.prems(1,2) Cons ns' by (simp add: conn_def)
    with Cons.IH [of "b' # r'"] Cons.prems Cons ns' show ?thesis by (simp split: if_splits)
  qed
qed simp

lemma pmm_rep_unique: "pmm_rep s bs \<Longrightarrow> pmm_rep s bs' \<Longrightarrow> bs = bs'"
proof -
  assume "pmm_rep s bs" "pmm_rep s bs'"
  then obtain ns ns' where "pmm_wf s ns" "blocks (heap s) ns = bs" "pmm_wf s ns'" "blocks (heap s) ns' = bs'"
    by (auto simp: pmm_rep_def)
  moreover from this have "ns = ns'"
    using adj_unique [of "heap s" ns ns'] by (fastforce simp: pmm_wf_def)
  ultimately show ?thesis by simp
qed

lemma pmm_rep_kcpu: "pmm_rep s bs \<Longrightarrow> cli_ok cs \<Longrightarrow> pmm_rep (s\<lparr>kcpu := cs\<rparr>) bs"
  by (auto simp: pmm_rep_def pmm_wf_def)

lemma pmm_rep_cli: "pmm_rep s bs \<Longrightarrow> cli_ok (kcpu s)"
  by (auto simp: pmm_rep_def pmm_wf_def)

lemma kalloc_kcpu: "kalloc c n s = Inr (p, s') \<Longrightarrow> cli_ok (kcpu s) \<Longrightarrow> kcpu s' = cli_refresh (kcpu s)"
  by (auto simp: kalloc_def bindr_eq_Inr dest: with_lock_Inr(2))

lemma kfree_kcpu: "kfree c p s = Inr s' \<Longrightarrow> cli_ok (kcpu s) \<Longrightarrow> kcpu s' = cli_refresh (kcpu s)"
  by (auto simp: kfree_def bindr_eq_Inr Let_def dest: with_lock_Inr(2))

section \<open>The list\<close>

fun links :: "(u32 \<Rightarrow> tasknode) \<Rightarrow> u32 \<Rightarrow> u32 \<Rightarrow> u32 list \<Rightarrow> bool" where
  "links ns pre p [] \<longleftrightarrow> p = 0"
| "links ns pre p (a # as) \<longleftrightarrow> p = a \<and> a \<noteq> 0 \<and> tn_pre (ns a) = pre \<and> links ns a (tn_nxt (ns a)) as"

lemma links_cong:
  "(\<And>a. a \<in> set as \<Longrightarrow> tn_nxt (ns' a) = tn_nxt (ns a) \<and> tn_pre (ns' a) = tn_pre (ns a)) \<Longrightarrow>
     links ns' pre p as = links ns pre p as"
  by (induction as arbitrary: pre p) auto

lemma last_node_links: "links ns pre p as \<Longrightarrow> as \<noteq> [] \<Longrightarrow> last_node ns p = Some (last as)"
proof (induction as arbitrary: pre p)
  case (Cons a as)
  have a: "p = a" "links ns a (tn_nxt (ns a)) as" using Cons.prems(1) by simp_all
  show ?case
  proof (cases "as = []")
    case True
    with a show ?thesis by (subst last_node.simps) simp
  next
    case False
    then have "tn_nxt (ns a) \<noteq> 0" using a(2) by (cases as) auto
    moreover have "last_node ns (tn_nxt (ns a)) = Some (last as)" by (rule Cons.IH [OF a(2) False])
    ultimately show ?thesis using a(1) False by (subst last_node.simps) simp
  qed
qed simp

lemma links_snoc:
  "links ns pre p (as @ [l]) \<Longrightarrow> tn_nxt (ns l) = 0 \<and> l \<noteq> 0 \<and>
     tn_pre (ns l) = (if as = [] then pre else last as)"
proof (induction as arbitrary: pre p)
  case (Cons a as)
  then have "links ns a (tn_nxt (ns a)) (as @ [l])" by simp
  from Cons.IH [OF this] show ?case by (cases as) simp_all
qed simp

lemma links_cut:
  "links ns pre p (as @ [l]) \<Longrightarrow> distinct (as @ [l]) \<Longrightarrow> as \<noteq> [] \<Longrightarrow>
     links (ns(last as := (ns (last as))\<lparr>tn_nxt := 0\<rparr>)) pre p as"
proof (induction as arbitrary: pre p)
  case (Cons a as)
  show ?case
  proof (cases as)
    case Nil
    with Cons.prems show ?thesis by simp
  next
    case (Cons b bs)
    with Cons.prems Cons.IH [of a "tn_nxt (ns a)"] show ?thesis
      by (auto split: if_splits)
  qed
qed simp

text \<open>\<open>q\<close>: the waiting tasks, the one that has waited longest first.\<close>

definition waiters :: "'ctx sem_world \<Rightarrow> task_ref list \<Rightarrow> bool" where
  "waiters w q \<longleftrightarrow> (\<exists>as bs. links (tnodes w) 0 (sem_pcb (sem w)) as \<and> distinct as \<and>
     map (\<lambda>a. tn_task (tnodes w a)) as = rev q \<and>
     pmm_rep (kpmm (kern w)) bs \<and> (\<forall>a \<in> set as. 16 \<le> unat a \<and> live bs (unat a - 16)))"

definition node_room :: "'ctx sem_world \<Rightarrow> task_ref \<Rightarrow> bool" where
  "node_room w t \<longleftrightarrow> (\<exists>bs r. pmm_rep (kpmm (kern w)) bs \<and> spec_alloc 12 bs = Some r)"

text \<open>Removal together with the task it wakes.\<close>

definition sem_pop :: "nat \<Rightarrow> 'ctx sem_world \<Rightarrow> (task_ref \<times> 'ctx sem_world) result" where
  "sem_pop c w = bindr (sem_list_delete c w) (\<lambda>w'.
     Inr (tn_task (tnodes w (case last_node (tnodes w) (sem_pcb (sem w)) of None \<Rightarrow> 0 | Some l \<Rightarrow> l)), w'))"

text \<open>What the two list operations leave alone: everything but the list, its nodes and the heap.\<close>

definition sem_frame :: "'ctx sem_world \<Rightarrow> 'ctx kmt_state \<Rightarrow> 'ctx sem_world \<Rightarrow> bool" where
  "sem_frame w k w' \<longleftrightarrow>
     sem w' = (sem w)\<lparr>sem_pcb := sem_pcb (sem w')\<rparr> \<and>
     kern w' = k\<lparr>kpmm := kpmm (kern w')\<rparr> \<and>
     kcpu (kpmm (kern w')) = cli_refresh (kcpu (kpmm (kern w)))"

lemma sem_frameD:
  assumes "sem_frame w k w'"
  shows "tstore (kern w') = tstore k" and "cputask (kern w') = cputask k" and "lock_kmt (kern w') = lock_kmt k"
    and "sem_count (sem w') = sem_count (sem w)" and "sem_cnt_tasks (sem w') = sem_cnt_tasks (sem w)"
proof -
  have k: "kern w' = k\<lparr>kpmm := kpmm (kern w')\<rparr>" and s: "sem w' = (sem w)\<lparr>sem_pcb := sem_pcb (sem w')\<rparr>"
    using assms by (simp_all add: sem_frame_def)
  show "tstore (kern w') = tstore k" using arg_cong [OF k, of tstore] by simp
  show "cputask (kern w') = cputask k" using arg_cong [OF k, of cputask] by simp
  show "lock_kmt (kern w') = lock_kmt k" using arg_cong [OF k, of lock_kmt] by simp
  show "sem_count (sem w') = sem_count (sem w)" using arg_cong [OF s, of sem_count] by simp
  show "sem_cnt_tasks (sem w') = sem_cnt_tasks (sem w)" using arg_cong [OF s, of sem_cnt_tasks] by simp
qed

lemmas sem_upd_defs = upd_node_def upd_sem_def upd_pmm_def

lemma waiters_add:
  assumes "waiters w q" and "node_room w t"
  shows "\<exists>w'. sem_list_add c t w = Inr w' \<and> waiters w' (q @ [t]) \<and> sem_frame w (kern w) w' \<and>
    sem_pcb (sem w') \<noteq> 0"
proof -
  obtain as bs where as: "links (tnodes w) 0 (sem_pcb (sem w)) as" "distinct as"
    "map (\<lambda>a. tn_task (tnodes w a)) as = rev q" and rep: "pmm_rep (kpmm (kern w)) bs"
    and lv: "\<forall>a \<in> set as. 16 \<le> unat a \<and> live bs (unat a - 16)"
    using assms(1) by (auto simp: waiters_def)
  obtain x bs' where sp: "spec_alloc 12 bs = Some (x, bs')"
    using assms(2) pmm_rep_unique [OF rep] by (auto simp: node_room_def)
  then have sp': "spec_alloc (unat TASKNODE_SIZE) bs = Some (x, bs')" by (simp add: TASKNODE_SIZE_def)
  obtain n pm where al: "kalloc c TASKNODE_SIZE (kpmm (kern w)) = Inr (n, pm)" "unat n = x" "pmm_rep pm bs'"
    using kalloc_fits [OF rep _ sp', of c] by (auto simp: TASKNODE_SIZE_def)
  note sal = spec_alloc_live [OF rep sp]
  have n0: "n \<noteq> 0" using sal(1) al(2) by auto
  have new: "n \<notin> set as" using lv sal(4) al(2) by blast
  have cpu: "kcpu pm = cli_refresh (kcpu (kpmm (kern w)))"
    using kalloc_kcpu [OF al(1)] pmm_rep_cli [OF rep] by simp
  have lv': "\<forall>a \<in> set (n # as). 16 \<le> unat a \<and> live bs' (unat a - 16)"
    using lv sal al(2) by auto
  show ?thesis
  proof (cases as)
    case Nil
    then have h: "sem_pcb (sem w) = 0" and q: "q = []" using as by simp_all
    let ?w' = "w\<lparr>sem := (sem w)\<lparr>sem_pcb := n\<rparr>,
      tnodes := (tnodes w)(n := (tnodes w n)\<lparr>tn_task := t, tn_nxt := 0, tn_pre := 0\<rparr>),
      kern := (kern w)\<lparr>kpmm := pm\<rparr>\<rparr>"
    have "sem_list_add c t w = Inr ?w'"
      using al(1) n0 h by (simp add: sem_list_add_def Let_def sem_upd_defs)
    moreover have "waiters ?w' (q @ [t])"
      unfolding waiters_def
      by (intro exI [of _ "[n]"] exI [of _ bs']) (use n0 al(3) lv' q in simp)
    ultimately show ?thesis using cpu n0 by (auto simp: sem_frame_def)
  next
    case (Cons h r)
    then have h: "sem_pcb (sem w) = h" "h \<noteq> 0" "tn_pre (tnodes w h) = 0" "h \<noteq> n" "h \<in> set as"
      using as new by auto
    let ?ns = "(tnodes w)(n := (tnodes w n)\<lparr>tn_task := t, tn_nxt := h, tn_pre := 0\<rparr>,
        h := (tnodes w h)\<lparr>tn_pre := n\<rparr>)"
    let ?w' = "w\<lparr>sem := (sem w)\<lparr>sem_pcb := n\<rparr>, tnodes := ?ns, kern := (kern w)\<lparr>kpmm := pm\<rparr>\<rparr>"
    have "sem_list_add c t w = Inr ?w'"
      using al(1) n0 h by (simp add: sem_list_add_def Let_def sem_upd_defs)
    moreover have "links ?ns h (tn_nxt (tnodes w h)) r = links (tnodes w) h (tn_nxt (tnodes w h)) r"
      by (rule links_cong) (use new as(2) Cons in auto)
    then have "links ?ns 0 n (n # as)" using as(1) Cons n0 h by simp
    moreover have "map (\<lambda>a. tn_task (?ns a)) as = map (\<lambda>a. tn_task (tnodes w a)) as"
      by (rule map_cong) (use new h in auto)
    then have "map (\<lambda>a. tn_task (?ns a)) (n # as) = rev (q @ [t])" using as(3) h by simp
    ultimately have "waiters ?w' (q @ [t])"
      unfolding waiters_def using new as(2) al(3) lv'
      by (intro exI [of _ "n # as"] exI [of _ bs']) simp
    then show ?thesis using \<open>sem_list_add c t w = Inr ?w'\<close> cpu n0 by (auto simp: sem_frame_def)
  qed
qed

lemma waiters_delete:
  assumes "waiters w (t # q)"
  shows "\<exists>w' l. sem_list_delete c w = Inr w' \<and> waiters w' q \<and>
    sem_frame w (upd_task t (\<lambda>x. x\<lparr>t_sleep := 0\<rparr>) (kern w)) w' \<and>
    last_node (tnodes w) (sem_pcb (sem w)) = Some l \<and> tn_task (tnodes w l) = t"
proof -
  obtain as bs where as: "links (tnodes w) 0 (sem_pcb (sem w)) as" "distinct as"
    "map (\<lambda>a. tn_task (tnodes w a)) as = rev q @ [t]" and rep: "pmm_rep (kpmm (kern w)) bs"
    and lv: "\<forall>a \<in> set as. 16 \<le> unat a \<and> live bs (unat a - 16)"
    using assms by (auto simp: waiters_def)
  obtain r l where asl: "as = r @ [l]" and tasks: "map (\<lambda>a. tn_task (tnodes w a)) r = rev q"
    "tn_task (tnodes w l) = t"
    using as(3) by (auto simp: map_eq_append_conv)
  have ne: "as \<noteq> []" using asl by simp
  note cut = links_snoc [OF as(1) [unfolded asl]]
  have last: "last_node (tnodes w) (sem_pcb (sem w)) = Some l"
    using last_node_links [OF as(1) ne] asl by simp
  have h0: "sem_pcb (sem w) \<noteq> 0" using as(1) ne by (cases as) auto
  have hd: "l = sem_pcb (sem w) \<longleftrightarrow> r = []"
    using as(1,2) asl by (cases r) auto
  let ?k = "upd_task t (\<lambda>x. x\<lparr>t_sleep := 0\<rparr>) (kern w)"
  have rep': "pmm_rep (kpmm ?k) bs" using rep by simp
  obtain xs i f j ys where bs: "bs = xs @ i # (unat l - 16, f) # j # ys"
    using lv asl unfolding live_split by auto
  have ptr: "unat l = (unat l - 16) + 16" using lv asl by simp
  obtain pm where fr: "kfree c l (kpmm (kern w)) = Inr pm" "pmm_rep pm (xs @ i # j # ys)"
    using kmem.dealloc_block [OF rep [unfolded bs] ptr] by blast
  have cpu: "kcpu pm = cli_refresh (kcpu (kpmm (kern w)))"
    using kfree_kcpu [OF fr(1)] pmm_rep_cli [OF rep] by simp
  have lv': "\<forall>a \<in> set r. 16 \<le> unat a \<and> live (xs @ i # j # ys) (unat a - 16)"
  proof
    fix a assume a: "a \<in> set r"
    then have "a \<noteq> l" using as(2) asl by auto
    moreover have "16 \<le> unat a" "16 \<le> unat l" using a lv asl by auto
    ultimately have "unat a - 16 \<noteq> unat l - 16" by (auto simp: word_unat_eq_iff)
    with a lv asl live_delete [OF rep bs, of "unat a - 16"]
    show "16 \<le> unat a \<and> live (xs @ i # j # ys) (unat a - 16)" by simp
  qed
  let ?ns = "if r = [] then tnodes w else (tnodes w)(last r := (tnodes w (last r))\<lparr>tn_nxt := 0\<rparr>)"
  let ?h = "if r = [] then 0 else sem_pcb (sem w)"
  let ?w' = "w\<lparr>sem := (sem w)\<lparr>sem_pcb := ?h\<rparr>, tnodes := ?ns, kern := ?k\<lparr>kpmm := pm\<rparr>\<rparr>"
  have lastr: "r \<noteq> [] \<Longrightarrow> last r \<noteq> l" using as(2) asl by auto
  have "sem_list_delete c w = Inr ?w'"
  proof (cases "r = []")
    case True
    with hd cut have "l = sem_pcb (sem w)" "tn_nxt (tnodes w (sem_pcb (sem w))) = 0" by auto
    with True last h0 fr(1) tasks(2) show ?thesis
      by (simp add: sem_list_delete_def Let_def sem_upd_defs)
  next
    case False
    with last h0 hd cut fr(1) tasks(2) lastr show ?thesis
      by (simp add: sem_list_delete_def Let_def sem_upd_defs)
  qed
  moreover have "links ?ns 0 ?h r"
    using links_cut [OF as(1) [unfolded asl] as(2) [unfolded asl]] by simp
  moreover have "map (\<lambda>a. tn_task (?ns a)) r = rev q"
  proof -
    have "(\<lambda>a. tn_task (?ns a)) = (\<lambda>a. tn_task (tnodes w a))" by (rule ext) simp
    then show ?thesis using tasks(1) by simp
  qed
  ultimately have "waiters ?w' q"
    unfolding waiters_def using as(2) asl fr(2) lv'
    by (intro exI [of _ r] exI [of _ "xs @ i # j # ys"]) simp
  with \<open>sem_list_delete c w = Inr ?w'\<close> last tasks(2) cpu show ?thesis
    by (intro exI [of _ ?w'] exI [of _ l]) (simp add: sem_frame_def)
qed

interpretation waiting: fifo "sem_list_add c" "sem_pop c" waiters node_room for c
proof (unfold_locales, goal_cases)
  case (1 s q x)
  then show ?case using waiters_add by blast
next
  case (2 s x q)
  then show ?case using waiters_delete [of s x q c] by (auto simp: sem_pop_def)
qed

section \<open>The semaphore\<close>

definition sem_rep :: "'ctx sem_world \<Rightarrow> task_ref list \<Rightarrow> bool" where
  "sem_rep w q \<longleftrightarrow> lock_free (sem_lock (sem w)) \<and> waiters w q \<and>
     sem_cnt_tasks (sem w) = int (length q) \<and> int (length q) = max 0 (- sem_count (sem w)) \<and>
     distinct q \<and> (\<forall>t \<in> set q. t_sleep (tstore (kern w) t) = 1)"

lemma waiters_cong:
  assumes "waiters w q" and "tnodes w' = tnodes w" and "sem_pcb (sem w') = sem_pcb (sem w)"
    and "kpmm (kern w') = (kpmm (kern w))\<lparr>kcpu := cs\<rparr>" and "cli_ok cs"
  shows "waiters w' q"
  using assms pmm_rep_kcpu [OF _ assms(5)] unfolding waiters_def by fastforce

lemma node_room_cong:
  assumes "node_room w t" and "kpmm (kern w') = (kpmm (kern w))\<lparr>kcpu := cs\<rparr>" and "cli_ok cs"
  shows "node_room w' t"
  using assms pmm_rep_kcpu [OF _ assms(3)] unfolding node_room_def by fastforce

lemma waiters_cli: "waiters w q \<Longrightarrow> cli_ok (kcpu (kpmm (kern w)))"
  by (auto simp: waiters_def dest: pmm_rep_cli)

text \<open>The state inside the bracket and the state after it.\<close>

definition inside :: "'ctx sem_world \<Rightarrow> 'ctx sem_world" where
  "inside w = upd_pmm ((kpmm (kern w))\<lparr>kcpu := pushcli (kcpu (kpmm (kern w)))\<rparr>) w"

definition outside :: "'ctx sem_world \<Rightarrow> 'ctx sem_world \<Rightarrow> 'ctx sem_world" where
  "outside w w1 = upd_sem (\<lambda>s. s\<lparr>sem_lock := sem_lock (sem w)\<rparr>)
     (upd_pmm ((kpmm (kern w1))\<lparr>kcpu := cli_refresh (kcpu (kpmm (kern w)))\<rparr>) w1)"

lemma inside_simps [simp]:
  "sem (inside w) = sem w" "tnodes (inside w) = tnodes w" "tstore (kern (inside w)) = tstore (kern w)"
  "cputask (kern (inside w)) = cputask (kern w)"
  "kpmm (kern (inside w)) = (kpmm (kern w))\<lparr>kcpu := pushcli (kcpu (kpmm (kern w)))\<rparr>"
  by (simp_all add: inside_def sem_upd_defs)

lemma outside_simps [simp]:
  "sem (outside w w1) = (sem w1)\<lparr>sem_lock := sem_lock (sem w)\<rparr>" "tnodes (outside w w1) = tnodes w1"
  "tstore (kern (outside w w1)) = tstore (kern w1)" "cputask (kern (outside w w1)) = cputask (kern w1)"
  "kpmm (kern (outside w w1)) = (kpmm (kern w1))\<lparr>kcpu := cli_refresh (kcpu (kpmm (kern w)))\<rparr>"
  by (simp_all add: outside_def sem_upd_defs)

lemma sem_locked_free:
  assumes "lock_free (sem_lock (sem w))" and "cli_ok (kcpu (kpmm (kern w)))"
    and "body (inside w) = Inr (r, w1)"
    and "kcpu (kpmm (kern w1)) = pushcli (kcpu (kpmm (kern w)))"
  shows "sem_locked c w body = Inr (r, outside w w1)"
proof -
  have "with_lock_nested c (sem_lock (sem w)) (kcpu (kpmm (kern w)))
      (\<lambda>cs. bindr (body (upd_pmm ((kpmm (kern w))\<lparr>kcpu := cs\<rparr>) w))
         (\<lambda>(r, w'). Inr ((r, w'), kcpu (kpmm (kern w'))))) =
      Inr ((r, w1), sem_lock (sem w), cli_refresh (kcpu (kpmm (kern w))))"
    by (rule with_lock_nested_free) (use assms in \<open>simp_all add: inside_def\<close>)
  then show ?thesis by (simp add: sem_locked_def outside_def)
qed

lemma cli_pushcli_refresh: "cli_ok cs \<Longrightarrow> cli_refresh (pushcli cs) = pushcli cs"
  by (simp add: cli_ok_def)

lemma waiters_inside: "waiters w q \<Longrightarrow> waiters (inside w) q"
  by (rule waiters_cong) (auto dest: waiters_cli intro: inv_intros)

lemma waiters_outside:
  assumes "waiters w1 q" and "cli_ok (kcpu (kpmm (kern w)))"
  shows "waiters (outside w w1) q"
  by (rule waiters_cong [OF assms(1), of _ "cli_refresh (kcpu (kpmm (kern w)))"])
    (use assms(2) in simp_all)

lemma wait_proceeds:
  assumes rep: "sem_rep w q" and pos: "0 < sem_count (sem w)"
  shows "\<exists>w'. sem_wait_enter c w = Inr (Proceed, w') \<and> sem_rep w' q \<and>
    sem_count (sem w') = sem_count (sem w) - 1 \<and> tstore (kern w') = tstore (kern w)"
proof -
  have w: "waiters w q" and lk: "lock_free (sem_lock (sem w))" using rep by (simp_all add: sem_rep_def)
  note cli = waiters_cli [OF w]
  let ?w1 = "upd_sem (\<lambda>s. s\<lparr>sem_count := sem_count s - 1\<rparr>) (inside w)"
  have "sem_wait_enter c w = Inr (Proceed, outside w ?w1)"
    unfolding sem_wait_enter_def
    by (rule sem_locked_free [OF lk cli]) (use pos in \<open>simp_all add: upd_sem_def\<close>)
  moreover have "waiters ?w1 q"
    by (rule waiters_cong [OF waiters_inside [OF w], of _ "pushcli (kcpu (kpmm (kern w)))"])
      (use cli in \<open>auto simp: upd_sem_def intro: inv_intros\<close>)
  then have "waiters (outside w ?w1) q" by (rule waiters_outside [OF _ cli])
  ultimately show ?thesis
    using rep pos by (intro exI [of _ "outside w ?w1"]) (auto simp: sem_rep_def upd_sem_def)
qed

lemma wait_blocks:
  assumes rep: "sem_rep w q" and none: "sem_count (sem w) \<le> 0" and room: "node_room w t"
    and cur: "cputask (kern w) c = Some t" and run: "t_run (tstore (kern w) t) = 1" and new: "t \<notin> set q"
  shows "\<exists>w'. sem_wait_enter c w = Inr (Yield, w') \<and> sem_rep w' (q @ [t]) \<and>
    sem_count (sem w') = sem_count (sem w) - 1 \<and> cputask (kern w') = cputask (kern w) \<and>
    (kmt_ready (kern w) \<longrightarrow> kmt_ready (kern w')) \<and>
    tstore (kern w') = (tstore (kern w))(t := (tstore (kern w) t)\<lparr>t_sleep := 1\<rparr>)"
proof -
  have w: "waiters w q" and lk: "lock_free (sem_lock (sem w))" using rep by (simp_all add: sem_rep_def)
  note cli = waiters_cli [OF w]
  let ?w2 = "upd_sem (\<lambda>s. s\<lparr>sem_cnt_tasks := sem_cnt_tasks s + 1\<rparr>)
    (upd_sem (\<lambda>s. s\<lparr>sem_count := sem_count s - 1\<rparr>) (inside w))"
  let ?w3 = "?w2\<lparr>kern := upd_task t (\<lambda>x. x\<lparr>t_sleep := 1\<rparr>) (kern ?w2)\<rparr>"
  have w3: "waiters ?w3 q"
    by (rule waiters_cong [OF waiters_inside [OF w], of _ "pushcli (kcpu (kpmm (kern w)))"])
      (use cli in \<open>auto simp: upd_sem_def intro: inv_intros\<close>)
  have "node_room ?w3 t"
    by (rule node_room_cong [OF room, of _ "pushcli (kcpu (kpmm (kern w)))"])
      (use cli in \<open>auto simp: upd_sem_def intro: inv_intros\<close>)
  from waiters_add [OF w3 this] obtain w4 where w4: "sem_list_add c t ?w3 = Inr w4" "waiters w4 (q @ [t])"
    and fr: "sem_frame ?w3 (kern ?w3) w4" and pcb: "sem_pcb (sem w4) \<noteq> 0" by blast
  have k4: "tstore (kern w4) = tstore (kern ?w3)" "cputask (kern w4) = cputask (kern ?w3)"
    "lock_kmt (kern w4) = lock_kmt (kern ?w3)"
    by (rule sem_frameD [OF fr])+
  have cpu: "kcpu (kpmm (kern w4)) = pushcli (kcpu (kpmm (kern w)))"
    using fr cli_pushcli_refresh [OF cli] by (simp add: sem_frame_def upd_sem_def)
  have ready: "kmt_ready (kern w) \<longrightarrow> kmt_ready (kern (outside w w4))"
    using k4(3) cli by (simp add: kmt_ready_def outside_def upd_sem_def upd_pmm_def inside_def)
  have "sem_wait_enter c w = Inr (Yield, outside w w4)"
    unfolding sem_wait_enter_def
    by (rule sem_locked_free [OF lk cli])
      (use none cur run w4(1) pcb k4 cpu in \<open>simp_all add: upd_sem_def Let_def\<close>)
  moreover have "waiters (outside w w4) (q @ [t])" by (rule waiters_outside [OF w4(2) cli])
  moreover have "sem_count (sem w4) = sem_count (sem w) - 1"
    "sem_cnt_tasks (sem w4) = sem_cnt_tasks (sem w) + 1"
    using sem_frameD(4,5) [OF fr] by (simp_all add: upd_sem_def)
  moreover have "tstore (kern w4) = (tstore (kern w))(t := (tstore (kern w) t)\<lparr>t_sleep := 1\<rparr>)"
    "cputask (kern w4) = cputask (kern w)"
    using k4 by (simp_all add: upd_sem_def upd_task_def)
  moreover have "int (length (q @ [t])) = max 0 (- (sem_count (sem w) - 1))"
    using rep none by (simp add: sem_rep_def)
  ultimately show ?thesis
    using rep new ready
    by (intro exI [of _ "outside w w4"]) (simp add: sem_rep_def)
qed

lemma signal_wakes:
  assumes rep: "sem_rep w (t # q)"
  shows "\<exists>w'. sem_signal c w = Inr w' \<and> sem_rep w' q \<and> sem_count (sem w') = sem_count (sem w) + 1 \<and>
    tstore (kern w') = (tstore (kern w))(t := (tstore (kern w) t)\<lparr>t_sleep := 0\<rparr>)"
proof -
  have w: "waiters w (t # q)" and lk: "lock_free (sem_lock (sem w))" using rep by (simp_all add: sem_rep_def)
  note cli = waiters_cli [OF w]
  obtain w1 where w1: "sem_list_delete c (inside w) = Inr w1" "waiters w1 q"
    and fr: "sem_frame (inside w) (upd_task t (\<lambda>x. x\<lparr>t_sleep := 0\<rparr>) (kern (inside w))) w1"
    using waiters_delete [OF waiters_inside [OF w], of c] by blast
  let ?w2 = "upd_sem (\<lambda>s. s\<lparr>sem_count := sem_count s + 1\<rparr>)
    (upd_sem (\<lambda>s. s\<lparr>sem_cnt_tasks := sem_cnt_tasks s - 1\<rparr>) w1)"
  have k1: "tstore (kern w1) = tstore (upd_task t (\<lambda>x. x\<lparr>t_sleep := 0\<rparr>) (kern (inside w)))"
    by (rule sem_frameD [OF fr])
  then have ts: "tstore (kern w1) = (tstore (kern w))(t := (tstore (kern w) t)\<lparr>t_sleep := 0\<rparr>)"
    by (simp add: upd_task_def)
  have counts: "sem_count (sem w1) = sem_count (sem w)" "sem_cnt_tasks (sem w1) = sem_cnt_tasks (sem w)"
    using sem_frameD(4,5) [OF fr] by simp_all
  have cpu: "kcpu (kpmm (kern w1)) = pushcli (kcpu (kpmm (kern w)))"
    using fr cli_pushcli_refresh [OF cli] by (simp add: sem_frame_def)
  have run: "sem_signal c w = Inr (outside w ?w2)"
  proof -
    have "0 < sem_cnt_tasks (sem w)" using rep by (simp add: sem_rep_def)
    then have "sem_locked c w (\<lambda>w0. bindr (if sem_cnt_tasks (sem w0) > 0
            then bindr (sem_list_delete c w0) (\<lambda>w1.
                   Inr (upd_sem (\<lambda>s. s\<lparr>sem_cnt_tasks := sem_cnt_tasks s - 1\<rparr>) w1))
            else Inr w0)
       (\<lambda>w2. Inr ((), upd_sem (\<lambda>s. s\<lparr>sem_count := sem_count s + 1\<rparr>) w2))) = Inr ((), outside w ?w2)"
      by (intro sem_locked_free [OF lk cli]) (use w1(1) cpu in \<open>simp_all add: upd_sem_def\<close>)
    then show ?thesis by (simp add: sem_signal_def)
  qed
  have "waiters ?w2 q"
    by (rule waiters_cong [OF w1(2), of _ "kcpu (kpmm (kern w1))"])
      (use cli cpu in \<open>auto simp: upd_sem_def intro: inv_intros\<close>)
  then have "waiters (outside w ?w2) q" by (rule waiters_outside [OF _ cli])
  moreover have "int (length q) = max 0 (- (sem_count (sem w) + 1))" "sem_cnt_tasks (sem w) - 1 = int (length q)"
    "distinct q" "\<forall>x \<in> set q. x \<noteq> t \<and> t_sleep (tstore (kern w) x) = 1"
    using rep by (auto simp: sem_rep_def)
  ultimately show ?thesis
    using run ts counts lk
    by (intro exI [of _ "outside w ?w2"]) (simp add: sem_rep_def upd_sem_def)
qed

lemma signal_counts:
  assumes rep: "sem_rep w []"
  shows "\<exists>w'. sem_signal c w = Inr w' \<and> sem_rep w' [] \<and> sem_count (sem w') = sem_count (sem w) + 1 \<and>
    tstore (kern w') = tstore (kern w)"
proof -
  have w: "waiters w []" and lk: "lock_free (sem_lock (sem w))" using rep by (simp_all add: sem_rep_def)
  note cli = waiters_cli [OF w]
  let ?w2 = "upd_sem (\<lambda>s. s\<lparr>sem_count := sem_count s + 1\<rparr>) (inside w)"
  have run: "sem_signal c w = Inr (outside w ?w2)"
  proof -
    have "\<not> 0 < sem_cnt_tasks (sem w)" using rep by (simp add: sem_rep_def)
    then have "sem_locked c w (\<lambda>w0. bindr (if sem_cnt_tasks (sem w0) > 0
            then bindr (sem_list_delete c w0) (\<lambda>w1.
                   Inr (upd_sem (\<lambda>s. s\<lparr>sem_cnt_tasks := sem_cnt_tasks s - 1\<rparr>) w1))
            else Inr w0)
       (\<lambda>w2. Inr ((), upd_sem (\<lambda>s. s\<lparr>sem_count := sem_count s + 1\<rparr>) w2))) = Inr ((), outside w ?w2)"
      by (intro sem_locked_free [OF lk cli]) (simp_all add: upd_sem_def)
    then show ?thesis by (simp add: sem_signal_def)
  qed
  have "waiters ?w2 []"
    by (rule waiters_cong [OF waiters_inside [OF w], of _ "pushcli (kcpu (kpmm (kern w)))"])
      (use cli in \<open>auto simp: upd_sem_def intro: inv_intros\<close>)
  then have "waiters (outside w ?w2) []" by (rule waiters_outside [OF _ cli])
  moreover have "max 0 (- (sem_count (sem w) + 1)) = 0"
    using rep by (auto simp: sem_rep_def max_def split: if_splits)
  ultimately show ?thesis
    using rep run lk
    by (intro exI [of _ "outside w ?w2"]) (simp add: sem_rep_def upd_sem_def)
qed

section \<open>Runs\<close>

text \<open>
  The history of one semaphore: \<open>v\<close> its initial value, \<open>q\<close> the tasks that wait, \<open>g\<close> the number
  of waits that have been granted (at once, or by a signal that woke the task) and \<open>n\<close> the number of
  signals. Between its operations the rest of the kernel may run, as long as it leaves the
  semaphore, its nodes and the sleep flags of its tasks alone.
\<close>

inductive sem_reach ::
  "int \<Rightarrow> 'ctx sem_world \<Rightarrow> task_ref list \<Rightarrow> int \<Rightarrow> int \<Rightarrow> bool" for v where
  start: "0 \<le> v \<Longrightarrow> sem_count (sem w) = v \<Longrightarrow> sem_rep w [] \<Longrightarrow> sem_reach v w [] 0 0"
| proceed: "sem_reach v w q g n \<Longrightarrow> 0 < sem_count (sem w) \<Longrightarrow>
    sem_wait_enter c w = Inr (Proceed, w') \<Longrightarrow> sem_reach v w' q (g + 1) n"
| block: "sem_reach v w q g n \<Longrightarrow> sem_count (sem w) \<le> 0 \<Longrightarrow> node_room w t \<Longrightarrow>
    cputask (kern w) c = Some t \<Longrightarrow> t_run (tstore (kern w) t) = 1 \<Longrightarrow> t \<notin> set q \<Longrightarrow>
    sem_wait_enter c w = Inr (Yield, w') \<Longrightarrow> sem_reach v w' (q @ [t]) g n"
| wake: "sem_reach v w (t # q) g n \<Longrightarrow> sem_signal c w = Inr w' \<Longrightarrow> sem_reach v w' q (g + 1) (n + 1)"
| free: "sem_reach v w [] g n \<Longrightarrow> sem_signal c w = Inr w' \<Longrightarrow> sem_reach v w' [] g (n + 1)"
| other: "sem_reach v w q g n \<Longrightarrow> sem_rep w' q \<Longrightarrow> sem_count (sem w') = sem_count (sem w) \<Longrightarrow>
    sem_reach v w' q g n"

lemma sem_reach_rep:
  "sem_reach v w q g n \<Longrightarrow> sem_rep w q \<and> g + max 0 (sem_count (sem w)) = v + n"
proof (induction rule: sem_reach.induct)
  case (proceed w q g n c w')
  with wait_proceeds [of w q c] show ?case by auto
next
  case (block w q g n t c w')
  with wait_blocks [of w q t c] show ?case by auto
next
  case (wake w t q g n c w')
  then have "sem_count (sem w) < 0" by (auto simp: sem_rep_def max_def split: if_splits)
  with wake signal_wakes [of w t q c] show ?case by auto
next
  case (free w g n c w')
  then have "0 \<le> sem_count (sem w)" by (auto simp: sem_rep_def max_def split: if_splits)
  with free signal_counts [of w c] show ?case by auto
qed auto

section \<open>Properties\<close>

lemma switched_fields:
  "t_sleep (tstore (switched c s) p) = t_sleep (tstore s p)"
  "t_context (tstore (switched c s) p) = t_context (tstore s p)"
  "cputask (switched c s) c = Some (chosen c s)"
  "kpmm (switched c s) = (kpmm s)\<lparr>kcpu := cli_refresh (kcpu (kpmm s))\<rparr>"
  by (simp_all add: switched_def Let_def kmt_refresh_def)

lemma saved_fields:
  "t_sleep (tstore (saved c ctx s) p) = t_sleep (tstore s p)"
  "cputask s c = Some p \<Longrightarrow> t_context (tstore (saved c ctx s) p) = ctx"
  "kpmm (saved c ctx s) = (kpmm s)\<lparr>kcpu := cli_refresh (kcpu (kpmm s))\<rparr>"
  by (simp_all add: saved_def Let_def kmt_refresh_def)

definition boot_sem :: "unit sem_world" where
  "boot_sem = \<lparr>sem = sem_init ''s'' 0 \<lparr>sem_name = '''', sem_count = 0, sem_cnt_tasks = 0,
       sem_lock = \<lparr>lk_name = '''', locked = 0, lk_cpu = 0\<rparr>, sem_pcb = 0\<rparr>,
     tnodes = (\<lambda>_. \<lparr>tn_task = Default 0, tn_nxt = 0, tn_pre = 0\<rparr>),
     kern = boot_kmt\<lparr>tstore := (tstore boot_kmt)(Task 5 := (tstore boot_kmt (Task 5))\<lparr>t_run := 1\<rparr>),
                     cputask := (\<lambda>_. None)(0 := Some (Task 5))\<rparr>\<rparr>"

lemma boot_kmt_heap: "pmm_rep (kpmm boot_kmt) [(4096, 4112), (65520, 65536)]"
  using pmm_init_rep [of 4096 65536 boot_pmm] by (simp add: boot_kmt_def boot_pmm_def cli_ok_def)

lemma boot_sem_facts:
  "sem_rep boot_sem []" "node_room boot_sem t" "sem_count (sem boot_sem) = 0"
  "cputask (kern boot_sem) 0 = Some (Task 5)" "t_run (tstore (kern boot_sem) (Task 5)) = 1"
  "kmt_ready (kern boot_sem)"
proof -
  have p: "kpmm (kern boot_sem) = kpmm boot_kmt" by (simp add: boot_sem_def)
  show "sem_rep boot_sem []"
  proof -
    have "waiters boot_sem []"
      unfolding waiters_def
      by (intro exI [of _ "[]"] exI [of _ "[(4096, 4112), (65520, 65536)]"])
        (use boot_kmt_heap p in \<open>simp_all add: boot_sem_def sem_init_def\<close>)
    then show ?thesis by (simp add: sem_rep_def) (simp add: boot_sem_def sem_init_def)
  qed
  show "node_room boot_sem t" using boot_kmt_heap p by (fastforce simp: node_room_def)
  show "kmt_ready (kern boot_sem)" using boot_kmt_simps(5) by (simp add: kmt_ready_def boot_sem_def)
qed (simp_all add: boot_sem_def sem_init_def)



text \<open>
  \<open>sem_wait\<close> without a token puts the calling task to sleep at the end of the queue and gives the CPU to
  another task: the context it yields with is saved in the task, and the task the CPU resumes is
  not the sleeping one.
\<close>

theorem sem_wait_sleeps:
  assumes rep: "sem_rep w q" and none: "sem_count (sem w) \<le> 0" and room: "node_room w t"
    and cur: "cputask (kern w) c = Some t" and run: "t_run (tstore (kern w) t) = 1" and new: "t \<notin> set q"
    and ready: "kmt_ready (kern w)" and t: "t \<noteq> Default c"
  shows "\<exists>x w'. sem_wait c ctx w = Inr (Some x, w') \<and> sem_rep w' (q @ [t]) \<and>
    cputask (kern w') c \<noteq> Some t \<and> t_context (tstore (kern w') t) = ctx"
proof -
  obtain w1 where w1: "sem_wait_enter c w = Inr (Yield, w1)" "sem_rep w1 (q @ [t])"
    "cputask (kern w1) = cputask (kern w)" and r1: "kmt_ready (kern w1)"
    using wait_blocks [OF rep none room cur run new] ready by blast
  let ?k = "switched c (saved c ctx (kern w1))"
  have trap: "kmt_trap c ctx (kern w1) =
      Inr (Some (t_context (tstore (saved c ctx (kern w1)) (chosen c (saved c ctx (kern w1))))), ?k)"
    using r1 by (simp add: kmt_trap_def context_save_saved context_switch_switched kmt_ready_saved)
  have sl: "t_sleep (tstore ?k p) = t_sleep (tstore (kern w1) p)" for p
    by (simp add: switched_fields saved_fields)
  have "t_sleep (tstore (kern w1) t) = 1" using w1(2) by (simp add: sem_rep_def)
  then have "\<not> runnable (saved c ctx (kern w1)) t" by (simp add: runnable_def saved_fields)
  with t have "chosen c (saved c ctx (kern w1)) \<noteq> t"
    by (metis chosen_cases)
  then have "cputask ?k c \<noteq> Some t" "t_context (tstore ?k t) = ctx"
    using cur w1(3) by (simp_all add: switched_fields saved_fields)
  moreover have "waiters (w1\<lparr>kern := ?k\<rparr>) (q @ [t])"
  proof (rule waiters_cong [of w1 _ _ "cli_refresh (kcpu (kpmm (kern w1)))"])
    show w: "waiters w1 (q @ [t])" using w1(2) by (simp add: sem_rep_def)
    show "cli_ok (cli_refresh (kcpu (kpmm (kern w1))))" using waiters_cli [OF w] by simp
    show "kpmm (kern (w1\<lparr>kern := ?k\<rparr>)) = (kpmm (kern w1))\<lparr>kcpu := cli_refresh (kcpu (kpmm (kern w1)))\<rparr>"
      by (simp add: switched_fields saved_fields)
  qed simp_all
  then have "sem_rep (w1\<lparr>kern := ?k\<rparr>) (q @ [t])" using w1(2) sl by (simp add: sem_rep_def)
  ultimately show ?thesis using w1(1) trap by (simp add: sem_wait_def)
qed

lemma sem_wait_sleeps_witness:
  "\<exists>x w'. sem_wait 0 () boot_sem = Inr (Some x, w') \<and> sem_rep w' [Task 5] \<and> cputask (kern w') 0 \<noteq> Some (Task 5)"
  using sem_wait_sleeps [OF boot_sem_facts(1) _ boot_sem_facts(2,4,5) _ boot_sem_facts(6), of "()"] boot_sem_facts(3)
  by auto

text \<open>
  C16. \<open>sem_signal\<close> wakes the task that has waited longest: it leaves the queue and is no longer
  asleep, and every other task is unchanged; with nobody waiting the token is kept.
\<close>

theorem sem_signal_fifo:
  assumes "sem_rep w q"
  shows "\<exists>w'. sem_signal c w = Inr w' \<and> sem_count (sem w') = sem_count (sem w) + 1 \<and>
    sem_rep w' (tl q) \<and>
    (case q of [] \<Rightarrow> tstore (kern w') = tstore (kern w)
     | t # _ \<Rightarrow> tstore (kern w') = (tstore (kern w))(t := (tstore (kern w) t)\<lparr>t_sleep := 0\<rparr>))"
  using assms signal_counts [of w c] signal_wakes [of w "hd q" "tl q" c] by (cases q) auto

lemma sem_signal_fifo_witness:
  "\<exists>w1 w2. sem_wait_enter 0 boot_sem = Inr (Yield, w1) \<and> sem_signal 1 w1 = Inr w2 \<and> sem_rep w2 [] \<and>
     sem_count (sem w2) = 0"
proof -
  obtain w1 where w1: "sem_wait_enter 0 boot_sem = Inr (Yield, w1)" "sem_count (sem w1) = -1" "sem_rep w1 [Task 5]"
    using wait_blocks [OF boot_sem_facts(1) _ boot_sem_facts(2,4,5)] boot_sem_facts(3) by auto
  from sem_signal_fifo [OF w1(3), of 1] w1 show ?thesis by auto
qed

end
