(* ===== verification/Input.thy ===== *)
theory Input imports Semaphore_Fifo "HOL-Library.Char_ord" begin

text \<open>
  The keyboard device: \<open>kernel/src/devices/input/input.c\<close> and \<open>keymaps.c\<close>. Key codes are the
  positions in the list \<open>_KEYS\<close> of amdev.h; bit 15 of a code says that the key went down. The
  events wait in a ring of 128 entries, guarded by a spinlock and counted by a semaphore.
\<close>

section \<open>Keys\<close>

definition KEYS :: "string list" where
  "KEYS = [
     ''NONE'', ''ESCAPE'', ''F1'', ''F2'', ''F3'', ''F4'', ''F5'', ''F6'', ''F7'',
     ''F8'', ''F9'', ''F10'', ''F11'', ''F12'', ''GRAVE'', ''1'', ''2'', ''3'',
     ''4'', ''5'', ''6'', ''7'', ''8'', ''9'', ''0'', ''MINUS'', ''EQUALS'',
     ''BACKSPACE'', ''TAB'', ''Q'', ''W'', ''E'', ''R'', ''T'', ''Y'', ''U'',
     ''I'', ''O'', ''P'', ''LEFTBRACKET'', ''RIGHTBRACKET'', ''BACKSLASH'', ''CAPSLOCK'', ''A'', ''S'',
     ''D'', ''F'', ''G'', ''H'', ''J'', ''K'', ''L'', ''SEMICOLON'', ''APOSTROPHE'',
     ''RETURN'', ''LSHIFT'', ''Z'', ''X'', ''C'', ''V'', ''B'', ''N'', ''M'',
     ''COMMA'', ''PERIOD'', ''SLASH'', ''RSHIFT'', ''LCTRL'', ''APPLICATION'', ''LALT'', ''SPACE'', ''RALT'',
     ''RCTRL'', ''UP'', ''DOWN'', ''LEFT'', ''RIGHT'', ''INSERT'', ''DELETE'', ''HOME'', ''END'',
     ''PAGEUP'', ''PAGEDOWN'']"

definition keymap_entries :: "(string \<times> char) list" where
  "keymap_entries = [
     (''0'', CHR ''0''), (''1'', CHR ''1''), (''2'', CHR ''2''), (''3'', CHR ''3''), (''4'', CHR ''4''),
     (''5'', CHR ''5''), (''6'', CHR ''6''), (''7'', CHR ''7''), (''8'', CHR ''8''), (''9'', CHR ''9''),
     (''GRAVE'', CHR 0x60), (''MINUS'', CHR ''-''), (''EQUALS'', CHR ''=''), (''LEFTBRACKET'', CHR ''[''), (''RIGHTBRACKET'', CHR '']''),
     (''BACKSLASH'', CHR 0x5C), (''SEMICOLON'', CHR '';''), (''APOSTROPHE'', CHR 0x27), (''RETURN'', CHR 0x0A), (''COMMA'', CHR '',''),
     (''PERIOD'', CHR ''.''), (''SLASH'', CHR ''/''), (''SPACE'', CHR '' ''), (''BACKSPACE'', CHR 0x08), (''A'', CHR ''a''),
     (''B'', CHR ''b''), (''C'', CHR ''c''), (''D'', CHR ''d''), (''E'', CHR ''e''), (''F'', CHR ''f''),
     (''G'', CHR ''g''), (''H'', CHR ''h''), (''I'', CHR ''i''), (''J'', CHR ''j''), (''K'', CHR ''k''),
     (''L'', CHR ''l''), (''M'', CHR ''m''), (''N'', CHR ''n''), (''O'', CHR ''o''), (''P'', CHR ''p''),
     (''Q'', CHR ''q''), (''R'', CHR ''r''), (''S'', CHR ''s''), (''T'', CHR ''t''), (''U'', CHR ''u''),
     (''V'', CHR ''v''), (''W'', CHR ''w''), (''X'', CHR ''x''), (''Y'', CHR ''y''), (''Z'', CHR ''z'')]"

definition keymap_shift_entries :: "(string \<times> char) list" where
  "keymap_shift_entries = [
     (''0'', CHR '')''), (''1'', CHR ''!''), (''2'', CHR ''@''), (''3'', CHR ''#''), (''4'', CHR ''$''),
     (''5'', CHR ''%''), (''6'', CHR ''^''), (''7'', CHR ''&''), (''8'', CHR ''*''), (''9'', CHR ''(''),
     (''GRAVE'', CHR ''~''), (''MINUS'', CHR ''_''), (''EQUALS'', CHR ''+''), (''LEFTBRACKET'', CHR ''{''), (''RIGHTBRACKET'', CHR ''}''),
     (''BACKSLASH'', CHR ''|''), (''SEMICOLON'', CHR '':''), (''APOSTROPHE'', CHR 0x22), (''COMMA'', CHR ''<''), (''PERIOD'', CHR ''>''),
     (''SLASH'', CHR ''?''), (''SPACE'', CHR '' ''), (''BACKSPACE'', CHR 0x08), (''A'', CHR ''A''), (''B'', CHR ''B''),
     (''C'', CHR ''C''), (''D'', CHR ''D''), (''E'', CHR ''E''), (''F'', CHR ''F''), (''G'', CHR ''G''),
     (''H'', CHR ''H''), (''I'', CHR ''I''), (''J'', CHR ''J''), (''K'', CHR ''K''), (''L'', CHR ''L''),
     (''M'', CHR ''M''), (''N'', CHR ''N''), (''O'', CHR ''O''), (''P'', CHR ''P''), (''Q'', CHR ''Q''),
     (''R'', CHR ''R''), (''S'', CHR ''S''), (''T'', CHR ''T''), (''U'', CHR ''U''), (''V'', CHR ''V''),
     (''W'', CHR ''W''), (''X'', CHR ''X''), (''Y'', CHR ''Y''), (''Z'', CHR ''Z'')]"

text \<open>\<open>char keymap[256]\<close>: entries without an initialiser are 0.\<close>

definition key_name :: "nat \<Rightarrow> string" where
  "key_name k = (if k < length KEYS then KEYS ! k else '''')"

definition lookup_key :: "(string \<times> char) list \<Rightarrow> nat \<Rightarrow> int" where
  "lookup_key es k = (case map_of es (key_name k) of None \<Rightarrow> 0 | Some ch \<Rightarrow> of_char ch)"

definition keymap :: "nat \<Rightarrow> int" where
  "keymap k = lookup_key keymap_entries k"

definition keymap_shift :: "nat \<Rightarrow> int" where
  "keymap_shift k = lookup_key keymap_shift_entries k"

section \<open>State\<close>

record input_event =
  ev_ctrl :: bool
  ev_alt :: bool
  ev_data :: u16

definition NEVENTS :: nat where
  "NEVENTS = 128"

record input_t =
  in_lock :: spinlock
  in_event_sem :: semaphore
  in_events :: "input_event list"
  in_front :: nat
  in_rear :: nat
  capslock :: bool
  shift_down :: "bool \<times> bool"
  ctrl_down :: "bool \<times> bool"
  alt_down :: "bool \<times> bool"

text \<open>The device, the semaphore of its interrupt, and the kernel state they share.\<close>

record 'ctx input_world =
  in_dev :: input_t
  sem_kbdirq :: semaphore
  in_nodes :: "u32 \<Rightarrow> tasknode"
  in_kern :: "'ctx kmt_state"

text \<open>An operation on one of the semaphores.\<close>

definition on_event_sem ::
  "('ctx sem_world \<Rightarrow> ('r \<times> 'ctx sem_world) result) \<Rightarrow> 'ctx input_world \<Rightarrow> ('r \<times> 'ctx input_world) result" where
  "on_event_sem f w =
     bindr (f \<lparr>sem = in_event_sem (in_dev w), tnodes = in_nodes w, kern = in_kern w\<rparr>) (\<lambda>(r, s).
       Inr (r, w\<lparr>in_dev := (in_dev w)\<lparr>in_event_sem := sem s\<rparr>, in_nodes := tnodes s, in_kern := kern s\<rparr>))"

definition on_kbdirq ::
  "('ctx sem_world \<Rightarrow> ('r \<times> 'ctx sem_world) result) \<Rightarrow> 'ctx input_world \<Rightarrow> ('r \<times> 'ctx input_world) result" where
  "on_kbdirq f w =
     bindr (f \<lparr>sem = sem_kbdirq w, tnodes = in_nodes w, kern = in_kern w\<rparr>) (\<lambda>(r, s).
       Inr (r, w\<lparr>sem_kbdirq := sem s, in_nodes := tnodes s, in_kern := kern s\<rparr>))"

text \<open>The bracket of the ring's spinlock.\<close>

definition in_locked ::
  "nat \<Rightarrow> (input_t \<Rightarrow> ('r \<times> input_t) result) \<Rightarrow> 'ctx input_world \<Rightarrow> ('r \<times> 'ctx input_world) result" where
  "in_locked c f w =
     bindr (with_lock c (in_lock (in_dev w)) (kcpu (kpmm (in_kern w))) (f (in_dev w))) (\<lambda>((r, d), lk, cs).
       Inr (r, w\<lparr>in_dev := d\<lparr>in_lock := lk\<rparr>, in_kern := (in_kern w)\<lparr>kpmm := (kpmm (in_kern w))\<lparr>kcpu := cs\<rparr>\<rparr>\<rparr>))"

section \<open>The ring\<close>

text \<open>\<open>panic\<close> halts the machine.\<close>

definition ring_put :: "input_event \<Rightarrow> input_t \<Rightarrow> input_t result" where
  "ring_put ev d =
     (let d1 = d\<lparr>in_events := (in_events d)[in_rear d := ev]\<rparr>;
          d2 = d1\<lparr>in_rear := (in_rear d1 + 1) mod NEVENTS\<rparr>
      in if in_rear d2 = in_front d2 then Inl Halt else Inr d2)"

definition ring_get :: "input_t \<Rightarrow> (input_event \<times> input_t) result" where
  "ring_get d =
     (if in_rear d = in_front d then Inl Halt
      else (let idx = in_front d;
                d1 = d\<lparr>in_front := (in_front d + 1) mod NEVENTS\<rparr>
            in Inr (in_events d1 ! idx, d1)))"

definition push_event :: "nat \<Rightarrow> input_event \<Rightarrow> 'ctx input_world \<Rightarrow> 'ctx input_world result" where
  "push_event c ev w =
     bindr (in_locked c (\<lambda>d. bindr (ring_put ev d) (\<lambda>d'. Inr ((), d'))) w) (\<lambda>(_, w1).
       bindr (on_event_sem (\<lambda>s. bindr (sem_signal c s) (\<lambda>s'. Inr ((), s'))) w1) (\<lambda>(_, w2). Inr w2))"

text \<open>
  The wait may give the CPU away, and other tasks run before the task is woken: \<open>pop_event\<close> then
  ends with None, and \<open>pop_resume\<close> is what the task does once it runs again.
\<close>

definition pop_resume :: "nat \<Rightarrow> 'ctx input_world \<Rightarrow> (input_event \<times> 'ctx input_world) result" where
  "pop_resume c w = in_locked c ring_get w"

definition pop_event ::
  "nat \<Rightarrow> 'ctx input_world \<Rightarrow> (input_event option \<times> 'ctx input_world) result" where
  "pop_event c w =
     bindr (on_event_sem (sem_wait_enter c) w) (\<lambda>(r, w1).
       case r of
         Yield \<Rightarrow> Inr (None, w1)
       | Proceed \<Rightarrow> bindr (pop_resume c w1) (\<lambda>(ev, w2). Inr (Some ev, w2)))"

section \<open>Keys to events\<close>

definition event_of :: "bool \<Rightarrow> bool \<Rightarrow> int \<Rightarrow> input_event" where
  "event_of ctrl alt data = \<lparr>ev_ctrl = ctrl, ev_alt = alt, ev_data = word_of_int data\<rparr>"

text \<open>
  The event that a key makes, if any. The letters \<open>a\<close> to \<open>z\<close> are 97 to 122.
\<close>

definition key_event :: "input_t \<Rightarrow> nat \<Rightarrow> input_event option" where
  "key_event d key =
     (let ch = keymap key
      in if ch \<noteq> 0
         then (let shift = (fst (shift_down d) \<or> snd (shift_down d));
                   ctrl = (fst (ctrl_down d) \<or> snd (ctrl_down d));
                   alt = (fst (alt_down d) \<or> snd (alt_down d))
               in if ctrl \<or> alt then Some (event_of ctrl alt ch)
                  else (let shift' = (if 97 \<le> ch \<and> ch \<le> 122 then shift \<noteq> capslock d else shift)
                        in if shift' then Some (event_of False False (keymap_shift key))
                           else Some (event_of False False ch)))
         else None)"

definition upd_dev :: "(input_t \<Rightarrow> input_t) \<Rightarrow> 'ctx input_world \<Rightarrow> 'ctx input_world" where
  "upd_dev f w = w\<lparr>in_dev := f (in_dev w)\<rparr>"

text \<open>What the modifier keys do to the device; other keys do nothing here.\<close>

definition modifier_down :: "string \<Rightarrow> (input_t \<Rightarrow> input_t) option" where
  "modifier_down name =
     (if name = ''CAPSLOCK'' then Some (\<lambda>d. d\<lparr>capslock := \<not> capslock d\<rparr>)
      else if name = ''LCTRL'' then Some (\<lambda>d. d\<lparr>ctrl_down := (True, snd (ctrl_down d))\<rparr>)
      else if name = ''RCTRL'' then Some (\<lambda>d. d\<lparr>ctrl_down := (fst (ctrl_down d), True)\<rparr>)
      else if name = ''LALT'' then Some (\<lambda>d. d\<lparr>alt_down := (True, snd (alt_down d))\<rparr>)
      else if name = ''RALT'' then Some (\<lambda>d. d\<lparr>alt_down := (fst (alt_down d), True)\<rparr>)
      else if name = ''LSHIFT'' then Some (\<lambda>d. d\<lparr>shift_down := (True, snd (shift_down d))\<rparr>)
      else if name = ''RSHIFT'' then Some (\<lambda>d. d\<lparr>shift_down := (fst (shift_down d), True)\<rparr>)
      else None)"

definition modifier_up :: "string \<Rightarrow> input_t \<Rightarrow> input_t" where
  "modifier_up name d =
     (if name = ''LCTRL'' then d\<lparr>ctrl_down := (False, snd (ctrl_down d))\<rparr>
      else if name = ''RCTRL'' then d\<lparr>ctrl_down := (fst (ctrl_down d), False)\<rparr>
      else if name = ''LALT'' then d\<lparr>alt_down := (False, snd (alt_down d))\<rparr>
      else if name = ''RALT'' then d\<lparr>alt_down := (fst (alt_down d), False)\<rparr>
      else if name = ''LSHIFT'' then d\<lparr>shift_down := (False, snd (shift_down d))\<rparr>
      else if name = ''RSHIFT'' then d\<lparr>shift_down := (fst (shift_down d), False)\<rparr>
      else d)"

text \<open>A code whose key is outside \<open>keymap\<close> reads past the array.\<close>

definition input_keydown :: "nat \<Rightarrow> u32 \<Rightarrow> 'ctx input_world \<Rightarrow> 'ctx input_world result" where
  "input_keydown c code w =
     (let key = unat (code AND NOT 0x8000)
      in if code AND 0x8000 \<noteq> 0
         then (case modifier_down (key_name key) of
                 Some f \<Rightarrow> Inr (upd_dev f w)
               | None \<Rightarrow>
                   if 256 \<le> key then Inl BadAccess
                   else (case key_event (in_dev w) key of None \<Rightarrow> Inr w | Some ev \<Rightarrow> push_event c ev w))
         else Inr (upd_dev (modifier_up (key_name (unat code))) w))"

definition input_notify :: "nat \<Rightarrow> 'ctx input_world \<Rightarrow> 'ctx input_world result" where
  "input_notify c w =
     bindr (on_kbdirq (\<lambda>s. bindr (sem_signal c s) (\<lambda>s'. Inr ((), s'))) w) (\<lambda>(_, w'). Inr w')"

text \<open>
  The inner loop of \<open>input_task\<close> between two waits: the codes \<open>read_key\<close> has, up to the 0 that
  says there are no more.
\<close>

fun input_codes :: "nat \<Rightarrow> u32 list \<Rightarrow> 'ctx input_world \<Rightarrow> 'ctx input_world result" where
  "input_codes c [] w = Inr w"
| "input_codes c (code # codes) w =
     (if code = 0 then Inr w else bindr (input_keydown c code w) (input_codes c codes))"

text \<open>
  \<open>input_init\<close>: the ring is allocated, its contents are whatever the heap held (\<open>junk\<close>); the
  callback for device interrupts is registered with sequence number 0.
\<close>

definition input_init ::
  "nat \<Rightarrow> input_event list \<Rightarrow> ('ctx, 'ctx input_world) handler \<Rightarrow>
     ('ctx, 'ctx input_world) os_state \<Rightarrow> 'ctx input_world \<Rightarrow>
     (('ctx, 'ctx input_world) os_state \<times> 'ctx input_world) result" where
  "input_init c junk notify os w =
     bindr (kalloc c (of_nat (4 * NEVENTS)) (kpmm (in_kern w))) (\<lambda>(p, pm).
       let d = (in_dev w)\<lparr>in_events := junk\<rparr>;
           d1 = d\<lparr>in_front := 0, in_rear := 0\<rparr>;
           d2 = d1\<lparr>in_lock := spin_init (in_lock d1) ''/dev/input lock''\<rparr>;
           d3 = d2\<lparr>in_event_sem := sem_init ''events in queue'' 0 (in_event_sem d2)\<rparr>;
           w1 = w\<lparr>in_dev := d3, sem_kbdirq := sem_init ''keyboard-interrupt'' 0 (sem_kbdirq w),
                  in_kern := (in_kern w)\<lparr>kpmm := pm\<rparr>\<rparr>
       in bindr (os_on_irq c 0 EVENT_IRQ_IODEV notify (kcpu (kpmm (in_kern w1)), os)) (\<lambda>(cs, os').
            Inr (os', w1\<lparr>in_kern := (in_kern w1)\<lparr>kpmm := (kpmm (in_kern w1))\<lparr>kcpu := cs\<rparr>\<rparr>\<rparr>)))"

text \<open>\<open>input_read\<close> with a buffer of \<open>count\<close> bytes: the event when the buffer can hold its 4 bytes.\<close>

definition input_read ::
  "nat \<Rightarrow> u32 \<Rightarrow> 'ctx input_world \<Rightarrow> ((input_event option \<times> u32) option \<times> 'ctx input_world) result" where
  "input_read c count w = bindr (pop_event c w) (\<lambda>(r, w').
     case r of
       None \<Rightarrow> Inr (None, w')
     | Some ev \<Rightarrow> Inr (Some (if count \<ge> 4 then (Some ev, 4) else (None, 0)), w'))"

definition input_write :: "u32 \<Rightarrow> u32" where
  "input_write count = 0"

section \<open>The ring is a queue\<close>

definition events_rep :: "input_t \<Rightarrow> input_event list \<Rightarrow> bool" where
  "events_rep d q \<longleftrightarrow> ring_rep NEVENTS (in_events d) (in_front d) (in_rear d) q"

definition events_room :: "input_t \<Rightarrow> input_event \<Rightarrow> bool" where
  "events_room d ev \<longleftrightarrow> (in_rear d + 1) mod NEVENTS \<noteq> in_front d"

lemma ring_put_rep:
  "events_rep d q \<Longrightarrow> events_room d ev \<Longrightarrow> \<exists>d'. ring_put ev d = Inr d' \<and> events_rep d' (q @ [ev])"
  using ring_rep_put [of NEVENTS "in_events d" "in_front d" "in_rear d" q ev]
  by (simp add: ring_put_def events_rep_def events_room_def Let_def)

lemma ring_get_rep: "events_rep d (ev # q) \<Longrightarrow> \<exists>d'. ring_get d = Inr (ev, d') \<and> events_rep d' q"
  using ring_rep_get [of NEVENTS "in_events d" "in_front d" "in_rear d" ev q]
  by (auto simp: ring_get_def events_rep_def)

interpretation keyboard: fifo ring_put ring_get events_rep events_room
  by unfold_locales (blast intro: ring_put_rep ring_get_rep)+

lemma ring_put_full: "events_rep d q \<Longrightarrow> ring_put ev d = Inl Halt \<longleftrightarrow> length q = 127"
  using ring_full_iff [of NEVENTS "in_events d" "in_front d" "in_rear d" q]
  by (auto simp: ring_put_def events_rep_def Let_def NEVENTS_def)

text \<open>A run of the device: a list of events pushed one after the other.\<close>

fun put_all :: "input_event list \<Rightarrow> input_t \<Rightarrow> input_t result" where
  "put_all [] d = Inr d"
| "put_all (ev # evs) d = bindr (ring_put ev d) (put_all evs)"

lemma put_all_rep:
  "events_rep d q \<Longrightarrow> length q + length evs \<le> 127 \<Longrightarrow> \<exists>d'. put_all evs d = Inr d' \<and> events_rep d' (q @ evs)"
proof (induction evs arbitrary: d q)
  case (Cons ev evs)
  then have "events_room d ev"
    using ring_full_iff [of NEVENTS "in_events d" "in_front d" "in_rear d" q]
    by (auto simp: events_room_def events_rep_def NEVENTS_def)
  with Cons.prems(1) ring_put_rep obtain d1 where d1: "ring_put ev d = Inr d1" "events_rep d1 (q @ [ev])"
    by blast
  from Cons.IH [OF d1(2)] Cons.prems(2) d1(1) show ?case by auto
qed simp

section \<open>Letters\<close>

lemma keymap_letters:
  "\<forall>k \<in> set [0..<83]. 97 \<le> keymap k \<and> keymap k \<le> 122 \<longrightarrow> keymap_shift k = keymap k - 32"
  by code_simp

lemma keymap_outside: "83 \<le> k \<Longrightarrow> keymap k = 0"
proof -
  assume "83 \<le> k"
  moreover have "length KEYS = 83" by (simp add: KEYS_def)
  moreover have "map_of keymap_entries [] = None" by code_simp
  ultimately show ?thesis by (simp add: keymap_def lookup_key_def key_name_def)
qed

lemma keymap_shift_letter: "97 \<le> keymap k \<Longrightarrow> keymap k \<le> 122 \<Longrightarrow> keymap_shift k = keymap k - 32"
  using keymap_letters keymap_outside [of k] by (cases "k < 83") auto

section \<open>Properties\<close>

definition empty_input :: input_t where
  "empty_input = \<lparr>in_lock = \<lparr>lk_name = ''in'', locked = 0, lk_cpu = -1\<rparr>,
     in_event_sem = \<lparr>sem_name = ''e'', sem_count = 0, sem_cnt_tasks = 0,
       sem_lock = \<lparr>lk_name = ''e'', locked = 0, lk_cpu = -1\<rparr>, sem_pcb = 0\<rparr>,
     in_events = replicate 128 (event_of False False 0), in_front = 100, in_rear = 100,
     capslock = False, shift_down = (True, False), ctrl_down = (False, False), alt_down = (False, False)\<rparr>"

text \<open>
  The keyboard ring loses and reorders nothing: up to 127 events pushed into an empty ring, wherever
  its indices stand, are read back one by one in the order they were pushed, and the ring is then
  empty again.
\<close>

theorem keyboard_fifo:
  assumes "events_rep d []" and "length evs \<le> 127"
  shows "\<exists>d1 d2. put_all evs d = Inr d1 \<and> keyboard.drain (length evs) d1 = Inr (evs, d2) \<and> events_rep d2 []"
proof -
  from put_all_rep [OF assms(1), of evs] assms(2)
  obtain d1 where d1: "put_all evs d = Inr d1" "events_rep d1 evs" by auto
  with keyboard.drain_ok [of d1 evs "[]"] show ?thesis by auto
qed

lemma keyboard_fifo_witness:
  "\<exists>d1 d2. put_all (replicate 60 (event_of False False 97)) empty_input = Inr d1 \<and>
     keyboard.drain 60 d1 = Inr (replicate 60 (event_of False False 97), d2)"
proof -
  have "events_rep empty_input []"
    by (simp add: events_rep_def empty_input_def ring_rep_def NEVENTS_def)
  from keyboard_fifo [OF this, of "replicate 60 (event_of False False 97)"] show ?thesis by auto
qed

text \<open>
  Caps lock and shift: with neither ctrl nor alt held, a letter key makes an event with the upper-case
  letter exactly when one of caps lock and shift is on and the other is not, and with the lower-case
  letter otherwise.
\<close>

theorem letter_case:
  assumes "97 \<le> keymap k" and "keymap k \<le> 122"
    and "ctrl_down d = (False, False)" and "alt_down d = (False, False)"
  shows "key_event d k = Some (event_of False False
    (if (fst (shift_down d) \<or> snd (shift_down d)) = capslock d then keymap k else keymap k - 32))"
  using assms keymap_shift_letter [OF assms(1,2)] by (auto simp: key_event_def Let_def)

lemma keymap_A: "keymap 43 = 97"
  by code_simp

lemma letter_case_witness: "key_event empty_input 43 = Some (event_of False False 65)"
  using letter_case [of 43 empty_input] keymap_A by (simp add: empty_input_def)

end
