(* ===== verification/Tty_Core.thy ===== *)
theory Tty_Core imports Fifo begin

text \<open>
  The virtual terminals of \<open>kernel/src/devices/tty/tty.c\<close>: a screen of characters with a cursor
  and a dirty flag per cell, and a ring of cooked input. Pointers into the screen and the ring are
  indices; a store outside them is \<open>BadAccess\<close>.
\<close>

section \<open>State\<close>

record character =
  metadata :: u32
  ch_code :: u8

definition tty_defaultch :: character where
  "tty_defaultch = \<lparr>metadata = 0, ch_code = 0\<rparr>"

definition TTY_COOK_BUF_SZ :: nat where
  "TTY_COOK_BUF_SZ = 1024"

text \<open>\<open>q_end\<close> is the length of \<open>q_buf\<close>.\<close>

record tty_queue =
  q_buf :: "u8 list"
  q_front :: nat
  q_rear :: nat

record tty =
  tty_display :: nat
  tty_lines :: nat
  tty_columns :: nat
  tty_size :: nat
  tty_buf :: "character list"
  tty_cursor :: nat
  tty_dirty :: "bool list"
  tty_queue :: tty_queue

abbreviation q_end :: "tty_queue \<Rightarrow> nat" where
  "q_end q \<equiv> length (q_buf q)"

section \<open>Cooked input\<close>

definition tty_enqueue :: "u8 \<Rightarrow> tty_queue \<Rightarrow> tty_queue result" where
  "tty_enqueue ch q =
     (let q1 = q\<lparr>q_buf := (q_buf q)[q_rear q := ch], q_rear := q_rear q + 1\<rparr>;
          q2 = (if q_rear q1 = q_end q1 then q1\<lparr>q_rear := 0\<rparr> else q1)
      in if q_rear q2 = q_front q2 then Inl Halt
         else Inr (q2\<lparr>q_buf := (q_buf q2)[q_rear q2 := 0]\<rparr>))"

definition tty_pop_back :: "tty_queue \<Rightarrow> int \<times> tty_queue" where
  "tty_pop_back q =
     (if q_front q \<noteq> q_end q
      then (let pos = (if q_rear q = 0 then q_end q else q_rear q)
            in if q_buf q ! (pos - 1) \<noteq> 0
               then (0, q\<lparr>q_rear := pos - 1, q_buf := (q_buf q)[pos - 1 := 0]\<rparr>)
               else (1, q))
      else (1, q))"

text \<open>
  The loop of \<open>tty_read\<close>: \<open>out\<close> are the bytes stored so far, \<open>nread\<close> the characters counted.
  \<open>None\<close> when there is no NUL in the ring.
\<close>

partial_function (option) tty_read_loop ::
  "u32 \<Rightarrow> tty_queue \<Rightarrow> u32 \<Rightarrow> u8 list \<Rightarrow> (u32 \<times> u8 list \<times> tty_queue) option" where
  "tty_read_loop count q nread out =
     (let ch = q_buf q ! q_front q;
          out' = (if nread < count \<and> ch \<noteq> 0 then out @ [q_buf q ! q_front q] else out);
          q1 = q\<lparr>q_front := q_front q + 1\<rparr>;
          q2 = (if q_front q1 = q_end q1 then q1\<lparr>q_front := 0\<rparr> else q1)
      in if ch = 0 then Some (nread, out', q2)
         else tty_read_loop count q2 (nread + 1) out')"

declare tty_read_loop.simps [code]

section \<open>Screen updates\<close>

text \<open>\<open>memmove(buf, buf + columns, move_sz)\<close> on the cells and on the flags.\<close>

definition move_up :: "nat \<Rightarrow> nat \<Rightarrow> 'a list \<Rightarrow> 'a list" where
  "move_up columns move_sz xs = take move_sz (drop columns xs) @ drop move_sz xs"

fun clear_cells :: "nat \<Rightarrow> nat list \<Rightarrow> tty \<Rightarrow> tty" where
  "clear_cells p [] t = t"
| "clear_cells p (i # is) t = clear_cells p is (t\<lparr>tty_buf := (tty_buf t)[p + i := tty_defaultch]\<rparr>)"

definition tty_upd_scrollup :: "tty \<Rightarrow> tty" where
  "tty_upd_scrollup t =
     (let move_sz = tty_columns t * (tty_lines t - 1);
          t1 = t\<lparr>tty_buf := move_up (tty_columns t) move_sz (tty_buf t)\<rparr>;
          t2 = t1\<lparr>tty_dirty := move_up (tty_columns t1) move_sz (tty_dirty t1)\<rparr>;
          t3 = t2\<lparr>tty_cursor := tty_cursor t2 - tty_columns t2\<rparr>
      in clear_cells (tty_cursor t3) [0..<tty_columns t3] t3)"

definition tty_upd_cr :: "tty \<Rightarrow> tty" where
  "tty_upd_cr t = (let x = tty_cursor t mod tty_columns t in t\<lparr>tty_cursor := tty_cursor t - x\<rparr>)"

definition tty_upd_lf :: "tty \<Rightarrow> tty" where
  "tty_upd_lf t = t\<lparr>tty_cursor := tty_cursor t + tty_columns t\<rparr>"

definition set_ch :: "nat \<Rightarrow> u8 \<Rightarrow> tty \<Rightarrow> tty" where
  "set_ch i ch t = t\<lparr>tty_buf := (tty_buf t)[i := (tty_buf t ! i)\<lparr>ch_code := ch\<rparr>]\<rparr>"

definition tty_upd_backsp :: "tty \<Rightarrow> tty" where
  "tty_upd_backsp t =
     (if tty_cursor t > 0
      then (let t1 = t\<lparr>tty_cursor := tty_cursor t - 1\<rparr> in set_ch (tty_cursor t1) 0 t1)
      else t)"

definition tty_upd_putc :: "u8 \<Rightarrow> tty \<Rightarrow> tty" where
  "tty_upd_putc ch t = (let t1 = set_ch (tty_cursor t) ch t in t1\<lparr>tty_cursor := tty_cursor t1 + 1\<rparr>)"

section \<open>Marking\<close>

definition tty_mark :: "nat \<Rightarrow> tty \<Rightarrow> tty result" where
  "tty_mark i t =
     (if i < length (tty_dirty t) then Inr (t\<lparr>tty_dirty := (tty_dirty t)[i := True]\<rparr>) else Inl BadAccess)"

fun mark_each :: "nat list \<Rightarrow> tty \<Rightarrow> tty result" where
  "mark_each [] t = Inr t"
| "mark_each (i # is) t = bindr (tty_mark i t) (mark_each is)"

definition tty_mark_line :: "nat \<Rightarrow> tty \<Rightarrow> tty result" where
  "tty_mark_line ch t =
     (let x = ch mod tty_columns t in mark_each (map (\<lambda>i. ch - x + i) [0..<tty_columns t]) t)"

definition tty_mark_all :: "tty \<Rightarrow> tty result" where
  "tty_mark_all t = mark_each [0..<tty_size t] t"

definition tty_putc :: "u8 \<Rightarrow> tty \<Rightarrow> tty result" where
  "tty_putc ch t =
     (if ch = 13 then
        (let t1 = tty_upd_cr t in tty_mark_line (tty_cursor t1) t1)
      else if ch = 8 then
        (let t1 = tty_upd_backsp t
         in bindr (tty_mark (tty_cursor t1) t1) (\<lambda>t2. tty_mark (tty_cursor t2 + 1) t2))
      else if ch = 10 then
        (let t1 = tty_upd_lf (tty_upd_cr t)
         in if tty_cursor t1 = tty_size t1 then tty_mark_all (tty_upd_scrollup t1)
            else bindr (tty_mark_line (tty_cursor t1 - tty_columns t1) t1) (\<lambda>t2.
                   tty_mark_line (tty_cursor t2) t2))
      else
        (let t1 = tty_upd_putc ch t
         in if tty_cursor t1 = tty_size t1 then tty_mark_all (tty_upd_scrollup t1)
            else bindr (tty_mark (tty_cursor t1 - 1) t1) (\<lambda>t2. tty_mark (tty_cursor t2) t2)))"

fun tty_puts :: "u8 list \<Rightarrow> tty \<Rightarrow> tty result" where
  "tty_puts [] t = Inr t"
| "tty_puts (ch # cs) t = bindr (tty_putc ch t) (tty_puts cs)"

section \<open>Rendering\<close>

text \<open>The two sprites of a cell: texture, x, y, display; all have \<open>z = 0\<close>.\<close>

record sprite =
  sp_texture :: u16
  sp_x :: u16
  sp_y :: u16
  sp_display :: nat

definition cell_sprites :: "tty \<Rightarrow> nat \<Rightarrow> nat \<Rightarrow> sprite list" where
  "cell_sprites t y x =
     (let i = y * tty_columns t + x;
          draw = (if i = tty_cursor t then 0xdb else unat (ch_code (tty_buf t ! i)))
      in if tty_dirty t ! i
         then [\<lparr>sp_texture = of_nat (draw * 2 + 1), sp_x = of_nat (x * 8), sp_y = of_nat (y * 16),
                sp_display = tty_display t\<rparr>,
               \<lparr>sp_texture = of_nat (draw * 2 + 2), sp_x = of_nat (x * 8), sp_y = of_nat (y * 16 + 8),
                sp_display = tty_display t\<rparr>]
         else [])"

text \<open>What \<open>tty_render\<close> writes to the frame buffer device, in order.\<close>

definition render :: "tty \<Rightarrow> sprite list" where
  "render t = concat (map (\<lambda>y. concat (map (cell_sprites t y) [0..<tty_columns t])) [0..<tty_lines t])"

section \<open>Initialisation\<close>

text \<open>
  \<open>tty_init\<close> for display \<open>dev->id - 1\<close> and a frame buffer of \<open>width\<close> by \<open>height\<close>; \<open>junk\<close> is what
  the heap held where the ring is allocated.
\<close>

definition tty_init :: "nat \<Rightarrow> nat \<Rightarrow> nat \<Rightarrow> u8 list \<Rightarrow> tty" where
  "tty_init dev_id width height junk =
     (let lines = height div 16; columns = width div 8; sz = columns * lines
      in \<lparr>tty_display = dev_id - 1, tty_lines = lines, tty_columns = columns, tty_size = sz,
          tty_buf = replicate sz tty_defaultch, tty_cursor = 0, tty_dirty = replicate sz True,
          tty_queue = \<lparr>q_buf = junk, q_front = 0, q_rear = 0\<rparr>\<rparr>)"

end
