(* ===== verification/Tty.thy ===== *)
theory Tty imports Tty_Core Semaphore_Fifo begin

text \<open>
  The device operations of \<open>kernel/src/devices/tty/tty.c\<close>: the functions of \<open>Tty_Core\<close> under the
  semaphores of the terminal.
\<close>

section \<open>The device operations\<close>

record 'ctx tty_world =
  scr :: tty
  tty_lock :: semaphore
  tty_cooked :: semaphore
  tty_nodes :: "u32 \<Rightarrow> tasknode"
  tty_kern :: "'ctx kmt_state"
  tty_fb :: "sprite list"

definition on_tty_lock ::
  "('ctx sem_world \<Rightarrow> ('r \<times> 'ctx sem_world) result) \<Rightarrow> 'ctx tty_world \<Rightarrow> ('r \<times> 'ctx tty_world) result" where
  "on_tty_lock f w =
     bindr (f \<lparr>sem = tty_lock w, tnodes = tty_nodes w, kern = tty_kern w\<rparr>) (\<lambda>(r, s).
       Inr (r, w\<lparr>tty_lock := sem s, tty_nodes := tnodes s, tty_kern := kern s\<rparr>))"

definition on_tty_cooked ::
  "('ctx sem_world \<Rightarrow> ('r \<times> 'ctx sem_world) result) \<Rightarrow> 'ctx tty_world \<Rightarrow> ('r \<times> 'ctx tty_world) result" where
  "on_tty_cooked f w =
     bindr (f \<lparr>sem = tty_cooked w, tnodes = tty_nodes w, kern = tty_kern w\<rparr>) (\<lambda>(r, s).
       Inr (r, w\<lparr>tty_cooked := sem s, tty_nodes := tnodes s, tty_kern := kern s\<rparr>))"

definition signal_u :: "nat \<Rightarrow> 'ctx sem_world \<Rightarrow> (unit \<times> 'ctx sem_world) result" where
  "signal_u c s = bindr (sem_signal c s) (\<lambda>s'. Inr ((), s'))"

text \<open>
  \<open>sem_wait(&tty->lock)\<close> ... \<open>sem_signal(&tty->lock)\<close>. When the wait gives the CPU away the result is None
  and \<open>tty_section\<close> is what the task does once it is woken.
\<close>

definition tty_section ::
  "nat \<Rightarrow> ('ctx tty_world \<Rightarrow> ('r \<times> 'ctx tty_world) result) \<Rightarrow> 'ctx tty_world \<Rightarrow>
     ('r \<times> 'ctx tty_world) result" where
  "tty_section c body w =
     bindr (body w) (\<lambda>(r, w1). bindr (on_tty_lock (signal_u c) w1) (\<lambda>(_, w2). Inr (r, w2)))"

definition tty_locked ::
  "nat \<Rightarrow> ('ctx tty_world \<Rightarrow> ('r \<times> 'ctx tty_world) result) \<Rightarrow> 'ctx tty_world \<Rightarrow>
     ('r option \<times> 'ctx tty_world) result" where
  "tty_locked c body w =
     bindr (on_tty_lock (sem_wait_enter c) w) (\<lambda>(x, w1).
       case x of
         Yield \<Rightarrow> Inr (None, w1)
       | Proceed \<Rightarrow> bindr (tty_section c body w1) (\<lambda>(r, w2). Inr (Some r, w2)))"

definition on_queue :: "(tty_queue \<Rightarrow> tty_queue result) \<Rightarrow> 'ctx tty_world \<Rightarrow> 'ctx tty_world result" where
  "on_queue f w = bindr (f (tty_queue (scr w))) (\<lambda>q. Inr (w\<lparr>scr := (scr w)\<lparr>tty_queue := q\<rparr>\<rparr>))"

definition tty_cook_body :: "nat \<Rightarrow> u8 \<Rightarrow> 'ctx tty_world \<Rightarrow> (int \<times> 'ctx tty_world) result" where
  "tty_cook_body c ch w =
     (if ch = 10 then
        bindr (on_queue (tty_enqueue ch) w) (\<lambda>w1. bindr (on_queue (tty_enqueue 0) w1) (\<lambda>w2.
          bindr (on_tty_cooked (signal_u c) w2) (\<lambda>(_, w3). Inr (0, w3))))
      else if ch = 8 then
        (let (ret, q) = tty_pop_back (tty_queue (scr w)) in Inr (ret, w\<lparr>scr := (scr w)\<lparr>tty_queue := q\<rparr>\<rparr>))
      else bindr (on_queue (tty_enqueue ch) w) (\<lambda>w1. Inr (0, w1)))"

definition tty_cook :: "nat \<Rightarrow> u8 \<Rightarrow> 'ctx tty_world \<Rightarrow> (int option \<times> 'ctx tty_world) result" where
  "tty_cook c ch = tty_locked c (tty_cook_body c ch)"

definition tty_render :: "nat \<Rightarrow> 'ctx tty_world \<Rightarrow> (unit option \<times> 'ctx tty_world) result" where
  "tty_render c = tty_locked c (\<lambda>w. Inr ((), w\<lparr>tty_fb := tty_fb w @ render (scr w)\<rparr>))"

definition tty_read_body :: "u32 \<Rightarrow> 'ctx tty_world \<Rightarrow> ((u32 \<times> u8 list) \<times> 'ctx tty_world) result" where
  "tty_read_body count w =
     (case tty_read_loop count (tty_queue (scr w)) 0 [] of
        None \<Rightarrow> Inl Hang
      | Some (nread, out, q) \<Rightarrow> Inr ((nread, out), w\<lparr>scr := (scr w)\<lparr>tty_queue := q\<rparr>\<rparr>))"

definition tty_read :: "nat \<Rightarrow> u32 \<Rightarrow> 'ctx tty_world \<Rightarrow> ((u32 \<times> u8 list) option \<times> 'ctx tty_world) result" where
  "tty_read c count w =
     bindr (on_tty_cooked (sem_wait_enter c) w) (\<lambda>(x, w1).
       case x of
         Yield \<Rightarrow> Inr (None, w1)
       | Proceed \<Rightarrow> tty_locked c (tty_read_body count) w1)"

definition tty_write :: "nat \<Rightarrow> u8 list \<Rightarrow> 'ctx tty_world \<Rightarrow> (nat option \<times> 'ctx tty_world) result" where
  "tty_write c bs w =
     bindr (tty_locked c (\<lambda>w1. bindr (tty_puts bs (scr w1)) (\<lambda>t. Inr ((), w1\<lparr>scr := t\<rparr>))) w) (\<lambda>(r, w1).
       case r of
         None \<Rightarrow> Inr (None, w1)
       | Some _ \<Rightarrow> bindr (tty_render c w1) (\<lambda>(r2, w2).
           Inr (case r2 of None \<Rightarrow> None | Some _ \<Rightarrow> Some (length bs), w2)))"

end
