(* ===== verification/Tty_Screen.thy ===== *)
theory Tty_Screen imports Tty_Core begin

text \<open>
  What the terminal of \<open>kernel/src/devices/tty/tty.c\<close> keeps true: the cursor stays on the screen, every
  cell whose picture changes is marked dirty, and the ring of cooked input is a queue of lines.
\<close>

section \<open>The screen invariant\<close>

definition tty_inv :: "tty \<Rightarrow> bool" where
  "tty_inv t \<longleftrightarrow> 0 < tty_columns t \<and> 0 < tty_lines t \<and> 2 \<le> tty_size t \<and>
     tty_size t = tty_columns t * tty_lines t \<and>
     length (tty_buf t) = tty_size t \<and> length (tty_dirty t) = tty_size t \<and> tty_cursor t < tty_size t"

text \<open>The picture of a cell, as \<open>tty_render\<close> draws it.\<close>

definition view :: "tty \<Rightarrow> nat \<Rightarrow> nat" where
  "view t i = (if i = tty_cursor t then 0xdb else unat (ch_code (tty_buf t ! i)))"

definition marked :: "nat set \<Rightarrow> tty \<Rightarrow> tty" where
  "marked A t = t\<lparr>tty_dirty := map (\<lambda>j. tty_dirty t ! j \<or> j \<in> A) [0..<length (tty_dirty t)]\<rparr>"

lemma marked_simps [simp]:
  "tty_columns (marked A t) = tty_columns t" "tty_lines (marked A t) = tty_lines t"
  "tty_size (marked A t) = tty_size t" "tty_buf (marked A t) = tty_buf t"
  "tty_cursor (marked A t) = tty_cursor t" "length (tty_dirty (marked A t)) = length (tty_dirty t)"
  "tty_inv (marked A t) = tty_inv t" "view (marked A t) = view t"
  "tty_queue (marked A t) = tty_queue t" "tty_display (marked A t) = tty_display t"
  by (auto simp: marked_def tty_inv_def view_def)

lemma marked_dirty: "j < length (tty_dirty t) \<Longrightarrow> tty_dirty (marked A t) ! j \<longleftrightarrow> tty_dirty t ! j \<or> j \<in> A"
  by (simp add: marked_def)

lemma marked_marked: "marked B (marked A t) = marked (A \<union> B) t"
  by (auto simp: marked_def intro!: tty.equality)

lemma marked_empty: "marked {} t = t"
  by (simp add: marked_def map_nth)

lemma tty_mark_marked: "i < length (tty_dirty t) \<Longrightarrow> tty_mark i t = Inr (marked {i} t)"
proof -
  assume i: "i < length (tty_dirty t)"
  have "(tty_dirty t)[i := True] = map (\<lambda>j. tty_dirty t ! j \<or> j \<in> {i}) [0..<length (tty_dirty t)]"
  proof (rule nth_equalityI)
    fix j assume "j < length ((tty_dirty t)[i := True])"
    then show "(tty_dirty t)[i := True] ! j = map (\<lambda>j. tty_dirty t ! j \<or> j \<in> {i}) [0..<length (tty_dirty t)] ! j"
      using i by (cases "j = i") simp_all
  qed simp
  with i show ?thesis by (simp add: tty_mark_def marked_def)
qed

lemma mark_each_marked: "\<forall>i \<in> set is. i < length (tty_dirty t) \<Longrightarrow> mark_each is t = Inr (marked (set is) t)"
proof (induction "is" arbitrary: t)
  case (Cons i "is")
  then show ?case by (simp add: tty_mark_marked marked_marked)
qed (simp add: marked_empty)

text \<open>The cells of the line of a cell.\<close>

definition line_of :: "tty \<Rightarrow> nat \<Rightarrow> nat set" where
  "line_of t i = {i - i mod tty_columns t ..< i - i mod tty_columns t + tty_columns t}"

lemma line_in_screen:
  assumes "tty_inv t" and "i < tty_size t" and "j \<in> line_of t i"
  shows "j < tty_size t"
proof -
  let ?c = "tty_columns t"
  have "i div ?c < tty_lines t"
    using assms(1,2) by (simp add: tty_inv_def less_mult_imp_div_less mult.commute)
  then have "(i div ?c + 1) * ?c \<le> tty_lines t * ?c" by (intro mult_le_mono1) simp
  moreover have "i - i mod ?c + ?c = (i div ?c + 1) * ?c"
    by (simp add: minus_mod_eq_div_mult)
  ultimately show ?thesis using assms(1,3) by (simp add: line_of_def tty_inv_def mult.commute)
qed

lemma set_shifted_upt: "set (map (\<lambda>j. k + j) [0..<n]) = {k..<k + n :: nat}"
  by (simp add: image_add_atLeastLessThan add.commute)

lemma mark_line_marked:
  assumes "tty_inv t" and "i < tty_size t"
  shows "tty_mark_line i t = Inr (marked (line_of t i) t)"
proof -
  have set: "set (map (\<lambda>j. i - i mod tty_columns t + j) [0..<tty_columns t]) = line_of t i"
    unfolding line_of_def by (rule set_shifted_upt)
  moreover have "\<forall>j \<in> line_of t i. j < length (tty_dirty t)"
    using line_in_screen [OF assms] assms(1) by (simp add: tty_inv_def)
  ultimately show ?thesis
    unfolding tty_mark_line_def Let_def by (subst mark_each_marked) simp_all
qed

lemma mark_all_marked:
  "length (tty_dirty t) = tty_size t \<Longrightarrow> tty_mark_all t = Inr (marked {..<tty_size t} t)"
  by (simp add: tty_mark_all_def mark_each_marked atLeast0LessThan)

text \<open>The cells a step has changed are dirty afterwards.\<close>

definition covers :: "tty \<Rightarrow> tty \<Rightarrow> bool" where
  "covers t t' \<longleftrightarrow> tty_size t' = tty_size t \<and> tty_inv t' \<and>
     (\<forall>i < tty_size t. view t' i \<noteq> view t i \<or> tty_dirty t ! i \<longrightarrow> tty_dirty t' ! i)"

lemma covers_marked:
  assumes "tty_inv t1" and "tty_dirty t1 = tty_dirty t" and "tty_size t1 = tty_size t"
    and "\<And>i. i < tty_size t \<Longrightarrow> i \<notin> A \<Longrightarrow> view t1 i = view t i"
  shows "covers t (marked A t1)"
  using assms by (auto simp: covers_def marked_dirty tty_inv_def)

section \<open>The steps\<close>

lemma clear_cells_fields [simp]:
  "tty_columns (clear_cells p is t) = tty_columns t" "tty_lines (clear_cells p is t) = tty_lines t"
  "tty_size (clear_cells p is t) = tty_size t" "tty_cursor (clear_cells p is t) = tty_cursor t"
  "tty_dirty (clear_cells p is t) = tty_dirty t" "length (tty_buf (clear_cells p is t)) = length (tty_buf t)"
  "tty_queue (clear_cells p is t) = tty_queue t" "tty_display (clear_cells p is t) = tty_display t"
  by (induction "is" arbitrary: t) simp_all

lemma clear_cells_nth:
  "k < length (tty_buf t) \<Longrightarrow> tty_buf (clear_cells p is t) ! k =
     (if \<exists>i \<in> set is. k = p + i then tty_defaultch else tty_buf t ! k)"
  by (induction "is" arbitrary: t) (auto simp: nth_list_update)

lemma length_move_up [simp]: "c + n \<le> length xs \<Longrightarrow> length (move_up c n xs) = length xs"
  by (simp add: move_up_def)

lemma nth_move_up: "c + n \<le> length xs \<Longrightarrow> i < n \<Longrightarrow> move_up c n xs ! i = xs ! (c + i)"
  by (simp add: move_up_def nth_append)

lemma nth_move_up_tail: "c + n \<le> length xs \<Longrightarrow> n \<le> i \<Longrightarrow> i < length xs \<Longrightarrow> move_up c n xs ! i = xs ! i"
  by (simp add: move_up_def nth_append)

lemma scroll_size:
  assumes "tty_size t = tty_columns t * tty_lines t" and "0 < tty_lines t"
  shows "tty_columns t + tty_columns t * (tty_lines t - 1) = tty_size t"
  using assms by (cases "tty_lines t") simp_all

lemma scrollup_inv:
  assumes "0 < tty_columns t" "0 < tty_lines t" "2 \<le> tty_size t" "tty_size t = tty_columns t * tty_lines t"
    "length (tty_buf t) = tty_size t" "length (tty_dirty t) = tty_size t" "tty_cursor t = tty_size t"
  shows "tty_inv (tty_upd_scrollup t)" and "tty_size (tty_upd_scrollup t) = tty_size t"
  using assms scroll_size [OF assms(4,2)] by (simp_all add: tty_inv_def tty_upd_scrollup_def Let_def)

text \<open>
  Scrolling: every line moves up by one, the last one is blank, and the cursor is at the start of it.
\<close>

lemma scrollup_cells:
  assumes "0 < tty_columns t" "0 < tty_lines t" "tty_size t = tty_columns t * tty_lines t"
    "length (tty_buf t) = tty_size t" "tty_cursor t = tty_size t" and i: "i < tty_size t"
  shows "tty_buf (tty_upd_scrollup t) ! i =
    (if i + tty_columns t < tty_size t then tty_buf t ! (i + tty_columns t) else tty_defaultch)"
proof -
  let ?c = "tty_columns t" and ?m = "tty_columns t * (tty_lines t - 1)"
  have m: "?c + ?m = tty_size t" by (rule scroll_size [OF assms(3,2)])
  have nth: "tty_buf (tty_upd_scrollup t) ! i =
      (if \<exists>j \<in> set [0..<?c]. i = (tty_size t - ?c) + j then tty_defaultch
       else move_up ?c ?m (tty_buf t) ! i)"
    using assms m by (simp add: tty_upd_scrollup_def Let_def clear_cells_nth)
  show ?thesis
  proof (cases "i < ?m")
    case True
    then have "\<not> (\<exists>j \<in> set [0..<?c]. i = (tty_size t - ?c) + j)" using m by auto
    with nth True m assms show ?thesis by (simp add: nth_move_up add.commute)
  next
    case False
    then have "\<exists>j \<in> set [0..<?c]. i = (tty_size t - ?c) + j"
      using m i by (intro bexI [of _ "i - ?m"]) auto
    with nth False m show ?thesis by simp
  qed
qed

lemma set_ch_fields [simp]:
  "tty_columns (set_ch i ch t) = tty_columns t" "tty_lines (set_ch i ch t) = tty_lines t"
  "tty_size (set_ch i ch t) = tty_size t" "tty_cursor (set_ch i ch t) = tty_cursor t"
  "tty_dirty (set_ch i ch t) = tty_dirty t" "length (tty_buf (set_ch i ch t)) = length (tty_buf t)"
  "j \<noteq> i \<Longrightarrow> tty_buf (set_ch i ch t) ! j = tty_buf t ! j"
  by (simp_all add: set_ch_def)

lemma putc_cr:
  assumes "tty_inv t"
  shows "\<exists>t'. tty_putc 13 t = Inr t' \<and> covers t t'"
proof -
  let ?t1 = "tty_upd_cr t"
  have c: "tty_cursor ?t1 = tty_cursor t - tty_cursor t mod tty_columns t"
    by (simp add: tty_upd_cr_def Let_def)
  then have inv: "tty_inv ?t1" using assms by (auto simp: tty_inv_def tty_upd_cr_def Let_def)
  have dvd: "tty_cursor ?t1 mod tty_columns t = 0" by (simp add: c minus_mod_eq_div_mult)
  have "covers t (marked (line_of ?t1 (tty_cursor ?t1)) ?t1)"
  proof (rule covers_marked [OF inv])
    fix i assume i: "i \<notin> line_of ?t1 (tty_cursor ?t1)"
    have cols: "tty_columns ?t1 = tty_columns t" by (simp add: tty_upd_cr_def Let_def)
    have "tty_cursor t < tty_cursor ?t1 + tty_columns t"
    proof -
      have "0 < tty_columns t" using assms by (simp add: tty_inv_def)
      then have "tty_cursor t mod tty_columns t < tty_columns t" by simp
      moreover have "tty_cursor t mod tty_columns t \<le> tty_cursor t" by simp
      ultimately show ?thesis unfolding c by linarith
    qed
    then have "i \<noteq> tty_cursor t" "i \<noteq> tty_cursor ?t1"
      using i dvd cols c assms by (auto simp: line_of_def tty_inv_def)
    then show "view ?t1 i = view t i" by (simp add: view_def tty_upd_cr_def Let_def)
  qed (simp_all add: tty_upd_cr_def Let_def)
  moreover have "tty_cursor ?t1 < tty_size ?t1" using inv by (simp add: tty_inv_def)
  ultimately show ?thesis
    using mark_line_marked [OF inv] by (simp add: tty_putc_def Let_def)
qed

lemma putc_backspace:
  assumes "tty_inv t"
  shows "\<exists>t'. tty_putc 8 t = Inr t' \<and> covers t t'"
proof -
  let ?t1 = "tty_upd_backsp t"
  have inv: "tty_inv ?t1" using assms by (auto simp: tty_inv_def tty_upd_backsp_def Let_def)
  have room: "Suc (tty_cursor ?t1) < tty_size t"
    using assms by (auto simp: tty_inv_def tty_upd_backsp_def Let_def)
  have "covers t (marked {Suc (tty_cursor ?t1), tty_cursor ?t1} ?t1)"
    by (rule covers_marked [OF inv]) (auto simp: tty_upd_backsp_def Let_def view_def)
  moreover have "length (tty_dirty ?t1) = tty_size t" using inv assms
    by (simp add: tty_inv_def tty_upd_backsp_def Let_def)
  ultimately show ?thesis
    using room by (simp add: tty_putc_def Let_def tty_mark_marked marked_marked)
qed

lemma covers_all:
  assumes "tty_inv t1" and "tty_size t1 = tty_size t"
  shows "covers t (marked {..<tty_size t1} t1)"
  using assms by (auto simp: covers_def marked_dirty tty_inv_def)

lemma putc_scroll:
  assumes inv: "tty_inv t" and f: "tty_columns t1 = tty_columns t" "tty_lines t1 = tty_lines t" "tty_size t1 = tty_size t"
    "length (tty_buf t1) = length (tty_buf t)" "length (tty_dirty t1) = length (tty_dirty t)"
    "tty_cursor t1 = tty_size t1"
  shows "\<exists>t'. tty_mark_all (tty_upd_scrollup t1) = Inr t' \<and> covers t t'"
proof -
  have s: "tty_inv (tty_upd_scrollup t1)" "tty_size (tty_upd_scrollup t1) = tty_size t"
    using scrollup_inv [of t1] inv f by (auto simp: tty_inv_def)
  then have "length (tty_dirty (tty_upd_scrollup t1)) = tty_size (tty_upd_scrollup t1)" by (simp add: tty_inv_def)
  from mark_all_marked [OF this] covers_all [OF s] s(2) show ?thesis by auto
qed

lemma putc_newline:
  assumes "tty_inv t"
  shows "\<exists>t'. tty_putc 10 t = Inr t' \<and> covers t t'"
proof -
  let ?c = "tty_columns t" and ?t1 = "tty_upd_lf (tty_upd_cr t)"
  let ?k = "tty_cursor t - tty_cursor t mod ?c"
  have f: "tty_cursor ?t1 = ?k + ?c" "tty_columns ?t1 = ?c" "tty_lines ?t1 = tty_lines t"
    "tty_size ?t1 = tty_size t" "tty_buf ?t1 = tty_buf t" "tty_dirty ?t1 = tty_dirty t"
    by (simp_all add: tty_upd_lf_def tty_upd_cr_def Let_def)
  have k: "?k = (tty_cursor t div ?c) * ?c" by (simp add: minus_mod_eq_div_mult)
  have c0: "0 < ?c" and size: "tty_size t = ?c * tty_lines t" and cur: "tty_cursor t < tty_size t"
    using assms by (simp_all add: tty_inv_def)
  have "tty_cursor t div ?c < tty_lines t" using size cur by (simp add: less_mult_imp_div_less mult.commute)
  then have "(tty_cursor t div ?c + 1) * ?c \<le> tty_lines t * ?c" by (intro mult_le_mono1) simp
  then have le: "?k + ?c \<le> tty_size t" using k size by (simp add: mult.commute)
  show ?thesis
  proof (cases "?k + ?c = tty_size t")
    case True
    then have "tty_putc 10 t = tty_mark_all (tty_upd_scrollup ?t1)"
      using f by (simp add: tty_putc_def Let_def)
    with putc_scroll [of t ?t1] assms f True show ?thesis by simp
  next
    case False
    then have lt: "?k + ?c < tty_size t" using le by simp
    have inv: "tty_inv ?t1" using assms f lt by (simp add: tty_inv_def)
    have l1: "line_of ?t1 ?k = {?k..<?k + ?c}" "line_of ?t1 (?k + ?c) = {?k + ?c..<?k + ?c + ?c}"
      using k f(2) by (simp_all add: line_of_def)
    let ?A = "line_of ?t1 ?k \<union> line_of ?t1 (?k + ?c)"
    have "tty_putc 10 t = Inr (marked ?A ?t1)"
      using f lt mark_line_marked [OF inv, of ?k] mark_line_marked [of "marked (line_of ?t1 ?k) ?t1" "?k + ?c"] inv
      by (simp add: tty_putc_def Let_def marked_marked) (simp add: line_of_def marked_marked)
    moreover have "covers t (marked ?A ?t1)"
    proof (rule covers_marked [OF inv])
      fix i assume i: "i \<notin> ?A"
      have "tty_cursor t < ?k + ?c"
        using k c0 by (metis dividend_less_div_times mult.commute add.commute)
      moreover have "?k \<le> tty_cursor t" by simp
      ultimately have "i \<noteq> tty_cursor t" "i \<noteq> ?k + ?c" using i l1 c0 by auto
      then show "view ?t1 i = view t i" using f by (simp add: view_def)
    qed (use f in simp_all)
    ultimately show ?thesis by blast
  qed
qed

lemma putc_plain:
  assumes "tty_inv t" and "ch \<noteq> 13" "ch \<noteq> 8" "ch \<noteq> 10"
  shows "\<exists>t'. tty_putc ch t = Inr t' \<and> covers t t'"
proof -
  let ?t1 = "tty_upd_putc ch t"
  have f: "tty_cursor ?t1 = Suc (tty_cursor t)" "tty_columns ?t1 = tty_columns t" "tty_lines ?t1 = tty_lines t"
    "tty_size ?t1 = tty_size t" "length (tty_buf ?t1) = length (tty_buf t)" "tty_dirty ?t1 = tty_dirty t"
    "\<And>i. i \<noteq> tty_cursor t \<Longrightarrow> tty_buf ?t1 ! i = tty_buf t ! i"
    by (simp_all add: tty_upd_putc_def Let_def)
  show ?thesis
  proof (cases "tty_cursor ?t1 = tty_size t")
    case True
    then have "tty_putc ch t = tty_mark_all (tty_upd_scrollup ?t1)"
      using f assms by (simp add: tty_putc_def Let_def)
    with putc_scroll [of t ?t1] assms(1) f True show ?thesis by simp
  next
    case False
    then have lt: "Suc (tty_cursor t) < tty_size t" using assms(1) f by (simp add: tty_inv_def)
    have inv: "tty_inv ?t1" using assms(1) f lt by (simp add: tty_inv_def)
    have "length (tty_dirty t) = tty_size t" using assms(1) by (simp add: tty_inv_def)
    then have "tty_putc ch t = Inr (marked {Suc (tty_cursor t), tty_cursor t} ?t1)"
      using f lt assms by (simp add: tty_putc_def Let_def tty_mark_marked marked_marked)
    moreover have "covers t (marked {Suc (tty_cursor t), tty_cursor t} ?t1)"
      by (rule covers_marked [OF inv]) (use f in \<open>auto simp: view_def\<close>)
    ultimately show ?thesis by blast
  qed
qed

lemma putc_covers: "tty_inv t \<Longrightarrow> \<exists>t'. tty_putc ch t = Inr t' \<and> covers t t'"
  using putc_cr [of t] putc_backspace [of t] putc_newline [of t] putc_plain [of t ch]
  by (cases "ch = 13"; cases "ch = 8"; cases "ch = 10") simp_all

section \<open>The cooked ring\<close>

text \<open>The ring holds \<open>q\<close>, and the cell at \<open>rear\<close> is NUL.\<close>

definition cooked_rep :: "tty_queue \<Rightarrow> u8 list \<Rightarrow> bool" where
  "cooked_rep t q \<longleftrightarrow> ring_rep TTY_COOK_BUF_SZ (q_buf t) (q_front t) (q_rear t) q"

definition cooked_room :: "tty_queue \<Rightarrow> u8 \<Rightarrow> bool" where
  "cooked_room t ch \<longleftrightarrow> (q_rear t + 1) mod TTY_COOK_BUF_SZ \<noteq> q_front t"

text \<open>One step of the loop of \<open>tty_read\<close>, as a removal.\<close>

definition cooked_get :: "tty_queue \<Rightarrow> (u8 \<times> tty_queue) result" where
  "cooked_get t = (let t1 = t\<lparr>q_front := q_front t + 1\<rparr>
     in Inr (q_buf t ! q_front t, if q_front t1 = q_end t1 then t1\<lparr>q_front := 0\<rparr> else t1))"

lemma wrap_mod: "r < n \<Longrightarrow> (if Suc r = n then 0 else Suc r) = Suc r mod n"
  by auto

lemma enqueue_rep:
  assumes rep: "cooked_rep t q" and room: "cooked_room t ch"
  shows "\<exists>t'. tty_enqueue ch t = Inr t' \<and> cooked_rep t' (q @ [ch])"
proof -
  let ?n = TTY_COOK_BUF_SZ
  have r: "q_rear t < ?n" "length (q_buf t) = ?n" using rep by (auto simp: cooked_rep_def ring_rep_def)
  let ?r = "Suc (q_rear t) mod ?n" and ?b = "(q_buf t)[q_rear t := ch]"
  have "tty_enqueue ch t = Inr (t\<lparr>q_buf := ?b[?r := 0], q_rear := ?r\<rparr>)"
    using room r wrap_mod [of "q_rear t" ?n] by (auto simp: tty_enqueue_def Let_def cooked_room_def)
  moreover have "ring_rep ?n (?b[?r := 0]) (q_front t) ?r (q @ [ch])"
    using ring_rep_put [of ?n "q_buf t" "q_front t" "q_rear t" q ch] rep room ring_rep_junk
    by (simp add: cooked_rep_def cooked_room_def)
  ultimately show ?thesis by (simp add: cooked_rep_def)
qed

lemma cooked_get_rep:
  assumes "cooked_rep t (ch # q)"
  shows "\<exists>t'. cooked_get t = Inr (ch, t') \<and> cooked_rep t' q"
proof -
  let ?n = TTY_COOK_BUF_SZ
  have r: "q_front t < ?n" "length (q_buf t) = ?n" using assms by (auto simp: cooked_rep_def ring_rep_def)
  note get = ring_rep_get [OF assms [unfolded cooked_rep_def]]
  have "cooked_get t = Inr (ch, t\<lparr>q_front := Suc (q_front t) mod ?n\<rparr>)"
    using get(1) r wrap_mod [of "q_front t" ?n] by (auto simp: cooked_get_def Let_def)
  with get(3) show ?thesis by (simp add: cooked_rep_def)
qed

interpretation cooked: fifo tty_enqueue cooked_get cooked_rep cooked_room
  by unfold_locales (blast intro: enqueue_rep cooked_get_rep)+

text \<open>
  Reading a line: the loop takes the characters up to the NUL, whatever \<open>count\<close> is.
\<close>

lemma read_loop_line:
  assumes "cooked_rep t (line @ 0 # q)" and "0 \<notin> set line" and "k + length line < 2 ^ 32"
  shows "\<exists>t'. tty_read_loop count t (of_nat k) out =
    Some (of_nat (k + length line), out @ take (unat count - k) line, t') \<and> cooked_rep t' q"
  using assms
proof (induction line arbitrary: t k out)
  case Nil
  then obtain t' where g: "cooked_get t = Inr (0, t')" "cooked_rep t' q"
    using cooked_get_rep [of t 0 q] by auto
  then show ?case
    by (subst tty_read_loop.simps) (auto simp: cooked_get_def Let_def)
next
  case (Cons c line)
  then obtain t1 where g: "cooked_get t = Inr (c, t1)" "cooked_rep t1 (line @ 0 # q)" and c: "c \<noteq> 0"
    using cooked_get_rep [of t c "line @ 0 # q"] by auto
  let ?out = "if k < unat count then out @ [c] else out"
  have "unat (of_nat k :: u32) = k" using Cons.prems(3) by (simp add: unat_of_nat)
  then have lt: "(of_nat k :: u32) < count \<longleftrightarrow> k < unat count" by (simp add: word_less_nat_alt)
  have step: "tty_read_loop count t (of_nat k) out = tty_read_loop count t1 (of_nat (Suc k)) ?out"
    using g(1) c lt by (subst tty_read_loop.simps) (auto simp: cooked_get_def Let_def add.commute)
  obtain t' where "tty_read_loop count t1 (of_nat (Suc k)) ?out =
      Some (of_nat (Suc k + length line), ?out @ take (unat count - Suc k) line, t')" "cooked_rep t' q"
    using Cons.IH [OF g(2), of "Suc k" ?out] Cons.prems(2,3) by auto
  moreover have "?out @ take (unat count - Suc k) line = out @ take (unat count - k) (c # line)"
    by (cases "k < unat count") (simp_all add: take_Cons')
  ultimately show ?case unfolding step by simp
qed

text \<open>Backspace: the last character of an unfinished line is taken back.\<close>

lemma pop_back_rep:
  assumes rep: "cooked_rep t (q @ [ch])" and ch: "ch \<noteq> 0"
  shows "\<exists>t'. tty_pop_back t = (0, t') \<and> cooked_rep t' q"
proof -
  let ?n = TTY_COOK_BUF_SZ
  have f: "q_front t < ?n" "length (q_buf t) = ?n" "Suc (length q) < ?n"
    "q_rear t = (q_front t + Suc (length q)) mod ?n" "q_buf t ! ((q_front t + length q) mod ?n) = ch"
    using rep by (auto simp: cooked_rep_def ring_rep_def dest: spec [of _ "length q"])
  let ?p = "(q_front t + length q) mod ?n"
  have "q_rear t = Suc ?p mod ?n" using f(4) by (simp add: mod_Suc_eq)
  moreover have "?p < ?n" using f by (intro mod_less_divisor) linarith
  ultimately have p: "(if q_rear t = 0 then ?n else q_rear t) - 1 = ?p"
    by (cases "Suc ?p = ?n") auto
  have "tty_pop_back t = (0, t\<lparr>q_rear := ?p, q_buf := (q_buf t)[?p := 0]\<rparr>)"
  proof -
    have "q_front t \<noteq> q_end t" using f(1,2) by simp
    then show ?thesis unfolding tty_pop_back_def Let_def f(2) p using f(5) ch by simp
  qed
  moreover have "ring_rep ?n (q_buf t) (q_front t) ?p q"
    using rep by (auto simp: cooked_rep_def ring_rep_def nth_append)
  then have "ring_rep ?n ((q_buf t)[?p := 0]) (q_front t) ?p q" by (rule ring_rep_junk)
  ultimately show ?thesis by (simp add: cooked_rep_def)
qed

section \<open>Properties\<close>

lemma boot_tty_inv: "tty_inv (tty_init 1 640 480 (replicate 1024 0))"
  by (simp add: tty_inv_def tty_init_def Let_def)

text \<open>
  C17. \<open>tty_putc\<close> never leaves the screen and never leaves a stale picture: on a terminal whose cursor
  is on the screen it returns for every character, the cursor is on the screen again, all marks are
  inside the dirty array, and every cell whose picture differs from before, or that was dirty before,
  is marked dirty.
\<close>

theorem tty_putc_marks_changes:
  assumes "tty_inv t"
  shows "\<exists>t'. tty_putc ch t = Inr t' \<and> tty_inv t' \<and>
    (\<forall>i < tty_size t. view t' i \<noteq> view t i \<or> tty_dirty t ! i \<longrightarrow> tty_dirty t' ! i)"
  using putc_covers [OF assms, of ch] by (auto simp: covers_def)

lemma tty_putc_marks_changes_witness:
  "\<exists>t'. tty_putc 10 (tty_init 1 640 480 (replicate 1024 0)) = Inr t' \<and> tty_inv t'"
  using tty_putc_marks_changes [OF boot_tty_inv, of 10] by blast

text \<open>
  When the cursor runs off the last line the screen scrolls: every line moves up by one, the new last line
  is blank, and the cursor is at its start.
\<close>

theorem tty_scrollup_moves_lines:
  assumes "0 < tty_columns t" and "0 < tty_lines t" and "tty_size t = tty_columns t * tty_lines t"
    and "length (tty_buf t) = tty_size t" and "tty_cursor t = tty_size t" and "i < tty_size t"
  shows "tty_cursor (tty_upd_scrollup t) = tty_size t - tty_columns t \<and>
    tty_buf (tty_upd_scrollup t) ! i =
      (if i + tty_columns t < tty_size t then tty_buf t ! (i + tty_columns t) else tty_defaultch)"
  using scrollup_cells [OF assms] assms(5) by (simp add: tty_upd_scrollup_def Let_def)

lemma tty_scrollup_moves_lines_witness:
  "tty_cursor (tty_upd_scrollup ((tty_init 1 640 480 [])\<lparr>tty_cursor := 2400\<rparr>)) = 2320"
  using tty_scrollup_moves_lines [of "(tty_init 1 640 480 [])\<lparr>tty_cursor := 2400\<rparr>" 7]
  by (simp add: tty_init_def Let_def)

text \<open>
  \<open>tty_read\<close> takes exactly one line from the ring, up to its NUL, and stores at most \<open>count\<close>
  characters; but the number it returns is the length of the line, also when that is larger than
  \<open>count\<close>.
\<close>

theorem tty_read_takes_line:
  assumes "cooked_rep t (line @ 0 # q)" and "0 \<notin> set line"
  shows "\<exists>t'. tty_read_loop count t 0 [] = Some (of_nat (length line), take (unat count) line, t') \<and>
    cooked_rep t' q"
proof -
  have "length line < 2 ^ 32"
    using assms(1) by (simp add: cooked_rep_def ring_rep_def TTY_COOK_BUF_SZ_def)
  with read_loop_line [OF assms, of 0 count "[]"] show ?thesis by simp
qed

definition two_lines :: tty_queue where
  "two_lines = \<lparr>q_buf = [97, 98, 10, 0, 99, 10, 0] @ replicate 1017 0, q_front = 0, q_rear = 7\<rparr>"

lemma two_lines_rep: "cooked_rep two_lines ([97, 98, 10] @ 0 # [99, 10, 0])"
  by (auto simp: cooked_rep_def ring_rep_def two_lines_def TTY_COOK_BUF_SZ_def nth_append nth_Cons' less_Suc_eq)

lemma tty_read_takes_line_witness:
  "\<exists>t'. tty_read_loop 2 two_lines 0 [] = Some (3, [97, 98], t') \<and> cooked_rep t' [99, 10, 0]"
  using tty_read_takes_line [OF two_lines_rep, of 2] by simp

text \<open>
  Line editing: a character typed and then erased with backspace leaves the ring holding what it held
  before.
\<close>

theorem tty_backspace_undoes:
  assumes "cooked_rep t q" and "cooked_room t ch" and "ch \<noteq> 0"
  shows "\<exists>t1 t2. tty_enqueue ch t = Inr t1 \<and> tty_pop_back t1 = (0, t2) \<and> cooked_rep t2 q"
  using enqueue_rep [OF assms(1,2)] pop_back_rep [OF _ assms(3)] by blast

lemma tty_backspace_undoes_witness:
  "\<exists>t1 t2. tty_enqueue 65 two_lines = Inr t1 \<and> tty_pop_back t1 = (0, t2) \<and>
     cooked_rep t2 [97, 98, 10, 0, 99, 10, 0]"
  using tty_backspace_undoes [OF two_lines_rep, of 65]
  by (simp add: cooked_room_def two_lines_def TTY_COOK_BUF_SZ_def)

end
