(* ===== verification/Util.thy ===== *)
theory Util imports C_Base begin

text \<open>
  The string utilities of \<open>kernel/src/util.c\<close>. A C string is the list of its characters without the
  NUL; a pointer that may be NULL is an option. The buffers the functions allocate are values: each
  is as long as the longest string the code stores in it.
\<close>

section \<open>Paths\<close>

text \<open>
  \<open>strip\<close> drops one trailing slash. On the empty string the code looks at the byte before the string, the
  top byte of an address in the allocator's header, which is not a slash below 752 MB.
\<close>

definition strip :: "string \<Rightarrow> string" where
  "strip tmp =
     (let len = length tmp
      in if len \<noteq> 1 \<and> len \<noteq> 0 \<and> tmp ! (len - 1) = CHR ''/'' then take (len - 1) tmp else tmp)"

text \<open>The loops: the first slash at or after \<open>i\<close>, and the last one at or before \<open>i\<close>, not below \<open>low\<close>.\<close>

function slash_up :: "string \<Rightarrow> nat \<Rightarrow> nat option" where
  "slash_up path i =
     (if i < length path then (if path ! i = CHR ''/'' then Some i else slash_up path (i + 1)) else None)"
  by pat_completeness auto
termination
  by (relation "measure (\<lambda>(path, i). length path - i)") auto

text \<open>At the index \<open>length path\<close> the loops look at the NUL.\<close>

fun slash_down :: "string \<Rightarrow> nat \<Rightarrow> nat \<Rightarrow> nat option" where
  "slash_down path low 0 =
     (if 0 < low then None else if path \<noteq> [] \<and> path ! 0 = CHR ''/'' then Some 0 else None)"
| "slash_down path low (Suc i) =
     (if Suc i < low then None
      else if Suc i < length path \<and> path ! Suc i = CHR ''/'' then Some (Suc i)
      else slash_down path low i)"

declare slash_up.simps [simp del]

definition rootdir :: "string option \<Rightarrow> string option" where
  "rootdir path = (case path of
       None \<Rightarrow> None
     | Some p \<Rightarrow> if length p = 0 then None
                 else Some (case slash_up p 0 of None \<Rightarrow> p | Some i \<Rightarrow> take i p))"

definition filename :: "string option \<Rightarrow> string option" where
  "filename path = (case path of
       None \<Rightarrow> None
     | Some p \<Rightarrow> if length p = 0 then None
                 else Some (case slash_down p 1 (length p) of None \<Rightarrow> p | Some i \<Rightarrow> drop (i + 1) p))"

text \<open>\<open>balloc\<close> zeroes the buffer: without a slash the result is the empty string.\<close>

definition alldir :: "string option \<Rightarrow> string option" where
  "alldir path = (case path of
       None \<Rightarrow> None
     | Some p \<Rightarrow> if length p = 0 then None
                 else Some (case slash_down p 0 (length p) of None \<Rightarrow> [] | Some i \<Rightarrow> take i p))"

definition postname :: "string option \<Rightarrow> string option" where
  "postname path = (case path of
       None \<Rightarrow> None
     | Some p \<Rightarrow> if length p = 0 then None
                 else Some (case slash_down p 0 (length p) of None \<Rightarrow> [] | Some i \<Rightarrow> drop (i + 1) p))"

section \<open>Numbers\<close>

definition isdigit :: "char \<Rightarrow> bool" where
  "isdigit ch \<longleftrightarrow> (48 :: nat) \<le> of_char ch \<and> of_char ch \<le> (57 :: nat)"

fun isnum :: "string \<Rightarrow> bool" where
  "isnum [] = True"
| "isnum (ch # s) = (if \<not> isdigit ch then False else isnum s)"

text \<open>\<open>int\<close> arithmetic: beyond 2^31 it is undefined in C, and not wrapped here.\<close>

fun atoi_loop :: "int \<Rightarrow> string \<Rightarrow> int" where
  "atoi_loop i [] = i"
| "atoi_loop i (ch # s) = (if isdigit ch then atoi_loop (i * 10 + of_char ch - 48) s else i)"

definition atoi :: "string \<Rightarrow> int" where
  "atoi s = (let (flag, ptr) = (if s \<noteq> [] \<and> hd s = CHR ''-'' then (-1, tl s) else (1, s))
     in atoi_loop 0 ptr * flag)"

section \<open>What they compute\<close>

lemma no_slash_nth: "CHR ''/'' \<notin> set d \<Longrightarrow> j < length d \<Longrightarrow> d ! j \<noteq> CHR ''/''"
  by (metis nth_mem)

lemma slash_up_found:
  "i \<le> k \<Longrightarrow> k < length p \<Longrightarrow> p ! k = CHR ''/'' \<Longrightarrow> \<forall>j. i \<le> j \<and> j < k \<longrightarrow> p ! j \<noteq> CHR ''/'' \<Longrightarrow>
     slash_up p i = Some k"
proof (induction "k - i" arbitrary: i)
  case 0
  then show ?case by (subst slash_up.simps) simp
next
  case (Suc n)
  then have i: "i < k" by simp
  have "slash_up p (i + 1) = Some k" by (rule Suc.hyps(1)) (use Suc i in auto)
  moreover have "p ! i \<noteq> CHR ''/''" using Suc.prems(4) i by blast
  ultimately show ?case using i Suc.prems(2) by (subst slash_up.simps) simp
qed

lemma slash_up_none: "\<forall>j. i \<le> j \<and> j < length p \<longrightarrow> p ! j \<noteq> CHR ''/'' \<Longrightarrow> slash_up p i = None"
proof (induction p i rule: slash_up.induct)
  case (1 p i)
  show ?case
  proof (cases "i < length p")
    case True
    have "slash_up p (i + 1) = None" by (rule "1.IH") (use 1 True in auto)
    with 1 True show ?thesis by (subst slash_up.simps) simp
  next
    case False
    then show ?thesis by (subst slash_up.simps) simp
  qed
qed

lemma slash_down_none:
  "\<forall>j. low \<le> j \<and> j \<le> n \<and> j < length p \<longrightarrow> p ! j \<noteq> CHR ''/'' \<Longrightarrow> slash_down p low n = None"
proof (induction n)
  case (Suc n)
  have "slash_down p low n = None" by (rule Suc.IH) (use Suc.prems in auto)
  moreover have "p ! Suc n \<noteq> CHR ''/''" if "low \<le> Suc n" "Suc n < length p"
    using Suc.prems that by blast
  ultimately show ?case by (cases "Suc n < low") auto
qed auto

lemma slash_down_found:
  "low \<le> k \<Longrightarrow> k \<le> n \<Longrightarrow> k < length p \<Longrightarrow> p ! k = CHR ''/'' \<Longrightarrow>
     \<forall>j. k < j \<and> j \<le> n \<and> j < length p \<longrightarrow> p ! j \<noteq> CHR ''/'' \<Longrightarrow> slash_down p low n = Some k"
proof (induction n)
  case (Suc n)
  show ?case
  proof (cases "k = Suc n")
    case False
    then have "slash_down p low n = Some k" by (intro Suc.IH) (use Suc.prems in auto)
    with Suc.prems False show ?thesis by auto
  qed (use Suc.prems in simp)
qed auto

text \<open>Components: \<open>d\<close> without a slash, then a slash.\<close>

lemma rootdir_component: "CHR ''/'' \<notin> set d \<Longrightarrow> d \<noteq> [] \<Longrightarrow> rootdir (Some (d @ CHR ''/'' # r)) = Some d"
proof -
  assume d: "CHR ''/'' \<notin> set d" "d \<noteq> []"
  have "slash_up (d @ CHR ''/'' # r) 0 = Some (length d)"
    using no_slash_nth [OF d(1)] by (intro slash_up_found) (auto simp: nth_append)
  with d(2) show ?thesis by (simp add: rootdir_def)
qed

lemma rootdir_last: "CHR ''/'' \<notin> set d \<Longrightarrow> d \<noteq> [] \<Longrightarrow> rootdir (Some d) = Some d"
proof -
  assume d: "CHR ''/'' \<notin> set d" "d \<noteq> []"
  have "slash_up d 0 = None" using no_slash_nth [OF d(1)] by (intro slash_up_none) auto
  with d(2) show ?thesis by (simp add: rootdir_def)
qed

lemma slash_down_last:
  assumes "CHR ''/'' \<notin> set d" and "low \<le> length r"
  shows "slash_down (r @ CHR ''/'' # d) low (length (r @ CHR ''/'' # d)) = Some (length r)"
  using assms no_slash_nth [OF assms(1)]
  by (intro slash_down_found) (auto simp: nth_append nth_Cons')

lemma slash_down_no: "CHR ''/'' \<notin> set d \<Longrightarrow> slash_down d low n = None"
  by (rule slash_down_none) (auto dest: no_slash_nth)

lemma postname_component: "CHR ''/'' \<notin> set d \<Longrightarrow> postname (Some (r @ CHR ''/'' # d)) = Some d"
  using slash_down_last [of d 0 r] by (simp add: postname_def)

lemma postname_last: "CHR ''/'' \<notin> set d \<Longrightarrow> d \<noteq> [] \<Longrightarrow> postname (Some d) = Some []"
  by (simp add: postname_def slash_down_no)

lemma alldir_component: "CHR ''/'' \<notin> set d \<Longrightarrow> alldir (Some (r @ CHR ''/'' # d)) = Some r"
  using slash_down_last [of d 0 r] by (simp add: alldir_def)

lemma filename_component: "CHR ''/'' \<notin> set d \<Longrightarrow> r \<noteq> [] \<Longrightarrow> filename (Some (r @ CHR ''/'' # d)) = Some d"
  using slash_down_last [of d 1 r] by (cases r) (simp_all add: filename_def)

lemma filename_last: "CHR ''/'' \<notin> set d \<Longrightarrow> d \<noteq> [] \<Longrightarrow> filename (Some d) = Some d"
  by (simp add: filename_def slash_down_no)

section \<open>Properties\<close>

text \<open>
  A path of a directory and a last component splits into the two: \<open>alldir\<close> is everything before the last
  slash and \<open>filename\<close> everything after it, so that joining them with a slash gives the path back.
\<close>

theorem path_split_roundtrip:
  assumes "CHR ''/'' \<notin> set name" and "dir \<noteq> []"
  shows "alldir (Some (dir @ CHR ''/'' # name)) = Some dir \<and> filename (Some (dir @ CHR ''/'' # name)) = Some name"
  using assms by (simp add: alldir_component filename_component)

lemma path_split_roundtrip_witness:
  "alldir (Some ''usr/bin/zsh'') = Some ''usr/bin'' \<and> filename (Some ''usr/bin/zsh'') = Some ''zsh''"
  using path_split_roundtrip [of "''zsh''" "''usr/bin''"] by simp

text \<open>
  \<open>postname\<close> does not return what follows the first component, as its comment says, but what follows the
  last slash; and \<open>alldir\<close> and \<open>postname\<close> of a path without a slash return the empty string, not NULL.
\<close>

theorem postname_is_last_component:
  assumes "CHR ''/'' \<notin> set name" and "name \<noteq> []"
  shows "postname (Some (dir @ CHR ''/'' # name)) = Some name \<and>
    postname (Some name) = Some [] \<and> alldir (Some name) = Some []"
  using assms by (simp add: postname_component postname_last alldir_def slash_down_no)

lemma postname_is_last_component_witness:
  "postname (Some ''usr/bin/zsh'') = Some ''zsh'' \<and> postname (Some ''usr'') = Some ''''"
  using postname_is_last_component [of "''zsh''" "''usr/bin''"]
    postname_is_last_component [of "''usr''" "[]"] by simp

end
