(* ===== verification/Ramdisk.thy ===== *)
theory Ramdisk imports C_Memory begin

text \<open>
  The RAM disks of \<open>kernel/src/devices/ramdisk/ramdisk.c\<close>: a stretch of memory that \<open>rd_read\<close> and
  \<open>rd_write\<close> copy from and to. The code does not compare an offset with the size of the disk; an
  access that leaves the disk is \<open>BadAccess\<close> here. The contract of a block device, as the file
  system uses it, is the locale \<open>byte_device\<close>.
\<close>

record rd_t =
  rd_bytes :: memory
  rd_len :: nat

definition RD_SIZE :: nat where
  "RD_SIZE = push_bit 20 4"

text \<open>Disk 1 is the initial image, of the size the linker gives it; others are allocated.\<close>

definition rd_init :: "nat \<Rightarrow> memory \<Rightarrow> nat \<Rightarrow> memory \<Rightarrow> rd_t" where
  "rd_init dev_id initrd initrd_len space =
     (if dev_id = 1 then \<lparr>rd_bytes = initrd, rd_len = initrd_len\<rparr>
      else \<lparr>rd_bytes = space, rd_len = RD_SIZE\<rparr>)"

definition rd_read :: "rd_t \<Rightarrow> int \<Rightarrow> int \<Rightarrow> u8 list result" where
  "rd_read rd offset count =
     (if 0 \<le> offset \<and> 0 \<le> count \<and> offset + count \<le> int (rd_len rd)
      then Inr (window (rd_bytes rd) (nat offset) (nat count)) else Inl BadAccess)"

definition rd_write :: "rd_t \<Rightarrow> int \<Rightarrow> u8 list \<Rightarrow> rd_t result" where
  "rd_write rd offset buf =
     (if 0 \<le> offset \<and> offset + int (length buf) \<le> int (rd_len rd)
      then Inr (rd\<lparr>rd_bytes := overlay (rd_bytes rd) (nat offset) buf\<rparr>) else Inl BadAccess)"

locale byte_device =
  fixes dread :: "'d \<Rightarrow> int \<Rightarrow> int \<Rightarrow> u8 list result"
    and dwrite :: "'d \<Rightarrow> int \<Rightarrow> u8 list \<Rightarrow> 'd result"
    and dsize :: "'d \<Rightarrow> int"
  assumes read_ok: "0 \<le> off \<Longrightarrow> 0 \<le> n \<Longrightarrow> off + n \<le> dsize d \<Longrightarrow> \<exists>bs. dread d off n = Inr bs \<and> length bs = nat n"
    and write_ok: "0 \<le> off \<Longrightarrow> off + int (length bs) \<le> dsize d \<Longrightarrow> \<exists>d'. dwrite d off bs = Inr d'"
    and write_size: "dwrite d off bs = Inr d' \<Longrightarrow> dsize d' = dsize d"
    and read_written: "dwrite d off bs = Inr d' \<Longrightarrow> dread d' off (int (length bs)) = Inr bs"
    and read_elsewhere: "dwrite d off bs = Inr d' \<Longrightarrow> i + n \<le> off \<or> off + int (length bs) \<le> i \<Longrightarrow>
      dread d' i n = dread d i n"
begin

text \<open>Two writes to disjoint places both stay.\<close>

lemma write_write_read:
  assumes "dwrite d i xs = Inr d1" and "dwrite d1 j ys = Inr d2"
    and "i + int (length xs) \<le> j \<or> j + int (length ys) \<le> i"
  shows "dread d2 i (int (length xs)) = Inr xs" and "dread d2 j (int (length ys)) = Inr ys"
  using read_written [OF assms(1)] read_written [OF assms(2)] read_elsewhere [OF assms(2)] assms(3) by simp_all

end

interpretation ramdisk: byte_device rd_read rd_write "\<lambda>rd. int (rd_len rd)"
proof (unfold_locales, goal_cases)
  case (4 d off bs d')
  then show ?case by (auto simp: rd_read_def rd_write_def split: if_splits)
next
  case (5 d off bs d' i n)
  show ?case
  proof (cases "0 \<le> i \<and> 0 \<le> n")
    case True
    have "0 \<le> off" using 5(1) by (auto simp: rd_write_def split: if_splits)
    then have "nat i + nat n \<le> nat off \<or> nat off + length bs \<le> nat i" using 5(2) True by linarith
    then have "window (overlay (rd_bytes d) (nat off) bs) (nat i) (nat n) = window (rd_bytes d) (nat i) (nat n)"
      by (rule window_overlay_disjoint)
    with 5(1) show ?thesis by (auto simp: rd_read_def rd_write_def split: if_splits)
  qed (auto simp: rd_read_def)
qed (auto simp: rd_read_def rd_write_def split: if_splits)

end
