(* ===== verification/Ext2.thy ===== *)
theory Ext2 imports Ramdisk Util begin

text \<open>
  The disk layer of the file system, \<open>kernel/src/filesystems/ext2.c\<close>: block 0 is the bitmap of
  inodes, block 1 the bitmap of data blocks, blocks 2 to 11 the inode table, the data blocks follow.
  Buffers the code allocates are values; a use of memory the code has not written is \<open>BadAccess\<close>.
  A scan that never ends is \<open>Hang\<close>.
\<close>

section \<open>Layout\<close>

definition BLOCK_BYTES :: nat where
  "BLOCK_BYTES = push_bit 10 1"

definition INODE_BYTES :: nat where
  "INODE_BYTES = push_bit 7 1"

definition IMAP :: nat where "IMAP = 0"
definition DMAP :: nat where "DMAP = 1"
definition ITABLE :: nat where "ITABLE = 2"
definition ITABLE_NUM :: nat where "ITABLE_NUM = 10"
definition DATA_B :: nat where "DATA_B = ITABLE + ITABLE_NUM"

definition BLOCK :: "nat \<Rightarrow> int" where
  "BLOCK x = int (x * BLOCK_BYTES)"

definition TABLE :: "int \<Rightarrow> int" where
  "TABLE i = BLOCK ITABLE + i * int INODE_BYTES"

definition DATA :: "u32 \<Rightarrow> int" where
  "DATA i = BLOCK DATA_B + uint i * int BLOCK_BYTES"

text \<open>The types of files: \<open>enum TYPE\<close>.\<close>

definition NF :: u32 where "NF = 0"
definition DR :: u32 where "DR = 1"
definition XX :: u32 where "XX = 2"

section \<open>Inodes and directory entries\<close>

record ext2_inode =
  e_index :: u32
  e_type :: u16
  e_permission :: u16
  e_size :: u32
  e_len :: u32
  e_id :: u32
  e_dir_len :: u32
  e_link_num :: u32
  e_link :: "u32 list"

definition inode_bytes :: "ext2_inode \<Rightarrow> u8 list" where
  "inode_bytes e = bytes32 (e_index e) @ bytes16 (e_type e) @ bytes16 (e_permission e) @
     words32 [e_size e, e_len e, e_id e, e_dir_len e, e_link_num e] @ words32 (e_link e)"

definition inode_of_bytes :: "u8 list \<Rightarrow> ext2_inode" where
  "inode_of_bytes bs = (let ws = of_words32 30 (drop 8 bs) in
     \<lparr>e_index = of_bytes32 (take 4 bs), e_type = of_bytes16 (take 2 (drop 4 bs)),
      e_permission = of_bytes16 (take 2 (drop 6 bs)), e_size = ws ! 0, e_len = ws ! 1,
      e_id = ws ! 2, e_dir_len = ws ! 3, e_link_num = ws ! 4, e_link = drop 5 ws\<rparr>)"

record dir_entry =
  d_inode :: u32
  d_rec_len :: u32
  d_name_len :: u32
  d_file_type :: u32

definition entry_bytes :: "dir_entry \<Rightarrow> u8 list" where
  "entry_bytes d = words32 [d_inode d, d_rec_len d, d_name_len d, d_file_type d]"

definition entry_of_bytes :: "u8 list \<Rightarrow> dir_entry" where
  "entry_of_bytes bs = (let ws = of_words32 4 bs in
     \<lparr>d_inode = ws ! 0, d_rec_len = ws ! 1, d_name_len = ws ! 2, d_file_type = ws ! 3\<rparr>)"

text \<open>The bytes of a C string, and the C string at the start of a buffer.\<close>

definition name_bytes :: "string \<Rightarrow> u8 list" where
  "name_bytes s = map of_char s @ [0]"

definition c_str :: "u8 list \<Rightarrow> string result" where
  "c_str bs = (if 0 \<in> set bs then Inr (map (\<lambda>b. char_of (unat b)) (takeWhile (\<lambda>b. b \<noteq> 0) bs)) else Inl BadAccess)"

text \<open>\<open>OFFSET_BLOCK\<close>: the block number of an offset; the table has 25 entries.\<close>

definition OFFSET_BLOCK :: "ext2_inode \<Rightarrow> int \<Rightarrow> u32 result" where
  "OFFSET_BLOCK ino offset =
     (let k = offset div int BLOCK_BYTES
      in if 0 \<le> k \<and> k < int (length (e_link ino)) then Inr (e_link ino ! nat k) else Inl BadAccess)"

definition OFFSET_REMAIN :: "int \<Rightarrow> int" where
  "OFFSET_REMAIN offset = offset mod int BLOCK_BYTES"

section \<open>Blocks and bitmaps\<close>

definition bzero :: "nat \<Rightarrow> rd_t \<Rightarrow> rd_t result" where
  "bzero x rd = rd_write rd (BLOCK x) (replicate BLOCK_BYTES 0)"

definition MAP :: "nat \<Rightarrow> int \<Rightarrow> int" where
  "MAP block i = BLOCK block + i div 8"

definition read_map :: "rd_t \<Rightarrow> nat \<Rightarrow> int \<Rightarrow> bool result" where
  "read_map rd block i =
     (if i < 0 then Inl BadAccess
      else (let m = (push_bit (nat (i mod 8)) 1 :: u8)
            in bindr (rd_read rd (MAP block i) 1) (\<lambda>b. Inr ((b ! 0 AND m) \<noteq> 0))))"

definition write_map :: "nat \<Rightarrow> int \<Rightarrow> u8 \<Rightarrow> rd_t \<Rightarrow> rd_t result" where
  "write_map block i x rd =
     bindr (assert_that (x = 0 \<or> x = 1)) (\<lambda>_.
       if i < 0 then Inl BadAccess
       else (let m = (push_bit (nat (i mod 8)) 1 :: u8)
             in bindr (rd_read rd (MAP block i) 1) (\<lambda>bs.
                  bindr (read_map rd block i) (\<lambda>old.
                    bindr (assert_that (old \<noteq> (x = 1))) (\<lambda>_.
                      let b = (if x = 1 then bs ! 0 OR m else bs ! 0 AND NOT m)
                      in bindr (rd_write rd (MAP block i) [b]) (\<lambda>rd'.
                           bindr (read_map rd' block i) (\<lambda>new.
                             bindr (assert_that (new = (x = 1))) (\<lambda>_. Inr rd'))))))))"

fun free_map_loop :: "rd_t \<Rightarrow> nat \<Rightarrow> nat list \<Rightarrow> int result" where
  "free_map_loop rd block [] = Inr (-1)"
| "free_map_loop rd block (i # is) =
     bindr (read_map rd block (int i)) (\<lambda>b. if \<not> b then Inr (int i) else free_map_loop rd block is)"

definition free_map :: "rd_t \<Rightarrow> nat \<Rightarrow> int result" where
  "free_map rd block = free_map_loop rd block [0..<BLOCK_BYTES]"

section \<open>The inode table\<close>

fun remove_links :: "ext2_inode \<Rightarrow> nat list \<Rightarrow> rd_t \<Rightarrow> rd_t result" where
  "remove_links ino [] rd = Inr rd"
| "remove_links ino (i # is) rd =
     (if i < length (e_link ino)
      then bindr (write_map DMAP (sint (e_link ino ! i)) 0 rd) (remove_links ino is) else Inl BadAccess)"

definition ext2_inode_remove :: "ext2_inode \<Rightarrow> rd_t \<Rightarrow> rd_t result" where
  "ext2_inode_remove ino rd =
     bindr (write_map IMAP (sint (e_index ino)) 0 rd) (remove_links ino [0..<unat (e_len ino)])"

text \<open>\<open>gid\<close> is the counter of file ids, shared by all disks.\<close>

definition ext2_inode_create ::
  "u8 \<Rightarrow> u8 \<Rightarrow> rd_t \<times> u32 \<Rightarrow> (ext2_inode \<times> rd_t \<times> u32) result" where
  "ext2_inode_create type per = (\<lambda>(rd, gid).
     bindr (free_map rd IMAP) (\<lambda>index_inode.
       bindr (write_map IMAP index_inode 1 rd) (\<lambda>rd'.
         let gid' = gid + 1
         in Inr (\<lparr>e_index = word_of_int index_inode, e_type = ucast type, e_permission = ucast per,
                  e_size = 0, e_len = 0, e_id = gid', e_dir_len = 0, e_link_num = 1,
                  e_link = replicate 25 0\<rparr>, rd', gid'))))"

section \<open>Data\<close>

text \<open>
  The loop of \<open>ext2_data_write\<close>. \<open>offset\<close> is not moved: every block of the buffer goes to the place of the
  first one.
\<close>

function data_write_loop ::
  "rd_t \<Rightarrow> ext2_inode \<Rightarrow> u8 list \<Rightarrow> nat \<Rightarrow> nat \<Rightarrow> nat \<Rightarrow> nat \<Rightarrow> bool \<Rightarrow> (rd_t \<times> ext2_inode) result" where
  "data_write_loop rd ino buf bytes buf_offset original_len offset first =
     (if bytes = 0 then Inr (rd, ino)
      else if offset < original_len * BLOCK_BYTES
      then (let towrite = min (if first then BLOCK_BYTES - offset mod BLOCK_BYTES else BLOCK_BYTES) bytes
            in bindr (OFFSET_BLOCK ino (int offset)) (\<lambda>b.
                 bindr (rd_write rd (DATA b + OFFSET_REMAIN (int offset)) (take towrite (drop buf_offset buf))) (\<lambda>rd'.
                   data_write_loop rd' ino buf (bytes - towrite) (buf_offset + towrite) original_len offset False)))
      else bindr (free_map rd DMAP) (\<lambda>i.
             if length (e_link ino) \<le> unat (e_len ino) then Inl BadAccess
             else (let ino1 = ino\<lparr>e_link := (e_link ino)[unat (e_len ino) := word_of_int i]\<rparr>
                   in bindr (write_map DMAP i 1 rd) (\<lambda>rd1.
                        let ino2 = ino1\<lparr>e_len := e_len ino1 + 1\<rparr>;
                            towrite = (if BLOCK_BYTES < bytes then BLOCK_BYTES else bytes)
                        in bindr (OFFSET_BLOCK ino2 (int offset)) (\<lambda>b.
                             bindr (rd_write rd1 (DATA b + OFFSET_REMAIN (int offset)) (take towrite (drop buf_offset buf))) (\<lambda>rd'.
                               data_write_loop rd' ino2 buf (bytes - towrite) (buf_offset + towrite) original_len offset first))))))"
  by pat_completeness auto
termination
  by (relation "measure (\<lambda>(rd, ino, buf, bytes, _). bytes)") (auto simp: BLOCK_BYTES_def)

declare data_write_loop.simps [simp del]

text \<open>The size is that of the buffer.\<close>

definition ext2_data_write :: "u8 list \<Rightarrow> nat \<Rightarrow> rd_t \<times> ext2_inode \<Rightarrow> (rd_t \<times> ext2_inode) result" where
  "ext2_data_write buf offset = (\<lambda>(rd, ino).
     bindr (data_write_loop rd ino buf (length buf) 0 (unat (e_len ino)) offset True) (\<lambda>(rd1, ino1).
       let update_size = offset + length buf
       in if update_size > unat (e_size ino1)
          then (let ino2 = ino1\<lparr>e_size := of_nat update_size\<rparr>
                in bindr (rd_write rd1 (TABLE (uint (e_index ino2))) (inode_bytes ino2)) (\<lambda>rd2. Inr (rd2, ino2)))
          else Inr (rd1, ino1)))"

definition ext2_append_data :: "u8 list \<Rightarrow> rd_t \<times> ext2_inode \<Rightarrow> (rd_t \<times> ext2_inode) result" where
  "ext2_append_data buf st = ext2_data_write buf (unat (e_size (snd st))) st"

text \<open>
  The number of bytes one step of the reading loops takes: to the end of the block, or, in the last
  block, \<open>inode->size - (inode->len-1)*BLOCK_BYTES - OFFSET_REMAIN(offset)\<close> on the first step and
  \<open>inode->size - (inode->len-1)\<close> on a later one.
\<close>

definition read_left :: "ext2_inode \<Rightarrow> int \<Rightarrow> u32 \<Rightarrow> bool \<Rightarrow> int" where
  "read_left ino offset cnt first =
     (if cnt < e_len ino - 1
      then (if first then int BLOCK_BYTES - OFFSET_REMAIN offset else int BLOCK_BYTES)
      else (if first then uint (e_size ino) - (uint (e_len ino) - 1) * int BLOCK_BYTES - OFFSET_REMAIN offset
            else uint (e_size ino) - (uint (e_len ino) - 1)))"

definition read_at :: "rd_t \<Rightarrow> ext2_inode \<Rightarrow> int \<Rightarrow> int \<Rightarrow> u8 list result" where
  "read_at rd ino offset n =
     bindr (OFFSET_BLOCK ino offset) (\<lambda>b. rd_read rd (DATA b + OFFSET_REMAIN offset) n)"

partial_function (option) data_read_loop ::
  "rd_t \<Rightarrow> ext2_inode \<Rightarrow> int \<Rightarrow> int \<Rightarrow> u32 \<Rightarrow> bool \<Rightarrow> u8 list \<Rightarrow> u8 list result option" where
  "data_read_loop rd ino sz offset cnt first out =
     (if offset < uint (e_size ino) \<and> sz \<noteq> 0
      then (let left = min (read_left ino offset cnt first) sz
            in case read_at rd ino offset left of
                 Inl e \<Rightarrow> Some (Inl e)
               | Inr bs \<Rightarrow> data_read_loop rd ino (sz - left) (offset + left) (cnt + 1) False (out @ bs))
      else Some (Inr out))"

declare data_read_loop.simps [code]

text \<open>The bytes read, at most \<open>sz\<close> of them.\<close>

definition ext2_data_read :: "rd_t \<Rightarrow> ext2_inode \<Rightarrow> int \<Rightarrow> int \<Rightarrow> u8 list result" where
  "ext2_data_read rd ino sz offset =
     (case data_read_loop rd ino sz offset (word_of_int (offset div int BLOCK_BYTES)) True [] of
        None \<Rightarrow> Inl Hang | Some r \<Rightarrow> r)"

section \<open>Directories\<close>

definition ext2_create_entry ::
  "u32 \<Rightarrow> string \<Rightarrow> u32 \<Rightarrow> rd_t \<times> ext2_inode \<Rightarrow> (rd_t \<times> ext2_inode) result" where
  "ext2_create_entry entry_index entry_name type = (\<lambda>(rd, ino).
     let name_len = of_nat (length entry_name) + 1;
         dir = \<lparr>d_inode = entry_index, d_rec_len = 16 + name_len, d_name_len = name_len, d_file_type = type\<rparr>;
         ino1 = ino\<lparr>e_dir_len := e_dir_len ino + 1\<rparr>
     in bindr (ext2_append_data (entry_bytes dir) (rd, ino1)) (ext2_append_data (name_bytes entry_name)))"

partial_function (option) dir_lookup_loop ::
  "rd_t \<Rightarrow> ext2_inode \<Rightarrow> string \<Rightarrow> int \<Rightarrow> int result option" where
  "dir_lookup_loop rd ino name offset =
     (if offset < uint (e_size ino)
      then (case ext2_data_read rd ino 16 offset of
              Inl e \<Rightarrow> Some (Inl e)
            | Inr bs \<Rightarrow>
                if length bs < 16 then Some (Inl BadAccess)
                else (let cur = entry_of_bytes bs
                      in if d_file_type cur \<noteq> XX
                         then (case bindr (ext2_data_read rd ino (uint (d_name_len cur)) (offset + 16)) c_str of
                                 Inl e \<Rightarrow> Some (Inl e)
                               | Inr tmp_name \<Rightarrow>
                                   if name = tmp_name then Some (Inr (sint (d_inode cur)))
                                   else dir_lookup_loop rd ino name (offset + uint (d_rec_len cur)))
                         else dir_lookup_loop rd ino name (offset + uint (d_rec_len cur))))
      else Some (Inr (-1)))"

declare dir_lookup_loop.simps [code]

definition ext2_dir_lookup :: "rd_t \<Rightarrow> ext2_inode \<Rightarrow> string \<Rightarrow> int result" where
  "ext2_dir_lookup rd ino name =
     (case dir_lookup_loop rd ino name 0 of None \<Rightarrow> Inl Hang | Some r \<Rightarrow> r)"

text \<open>The scan of \<open>ext2_dir_remove\<close>: where it stops, and the entry it then holds.\<close>

partial_function (option) dir_remove_loop ::
  "rd_t \<Rightarrow> ext2_inode \<Rightarrow> int \<Rightarrow> int \<Rightarrow> dir_entry option \<Rightarrow> (int \<times> dir_entry option) result option" where
  "dir_remove_loop rd ino index offset cur =
     (if offset < uint (e_size ino)
      then (case read_at rd ino offset 16 of
              Inl e \<Rightarrow> Some (Inl e)
            | Inr bs \<Rightarrow>
                (let cur = entry_of_bytes bs
                 in if uint (d_inode cur) = index \<and> d_file_type cur \<noteq> XX
                    then Some (Inr (offset, Some (cur\<lparr>d_file_type := XX\<rparr>)))
                    else dir_remove_loop rd ino index (offset + uint (d_rec_len cur)) (Some cur)))
      else Some (Inr (offset, cur)))"

declare dir_remove_loop.simps [code]

definition ext2_dir_remove :: "int \<Rightarrow> rd_t \<times> ext2_inode \<Rightarrow> (rd_t \<times> ext2_inode) result" where
  "ext2_dir_remove index = (\<lambda>(rd, ino).
     case dir_remove_loop rd ino index 0 None of
       None \<Rightarrow> Inl Hang
     | Some r \<Rightarrow> bindr r (\<lambda>(offset, cur).
         case cur of
           None \<Rightarrow> Inl BadAccess
         | Some d \<Rightarrow> bindr (OFFSET_BLOCK ino offset) (\<lambda>b.
             bindr (rd_write rd (DATA b + OFFSET_REMAIN offset) (entry_bytes d)) (\<lambda>rd1.
               let ino1 = ino\<lparr>e_dir_len := e_dir_len ino - 1\<rparr>
               in bindr (rd_write rd1 (TABLE (uint (e_index ino1))) (inode_bytes ino1)) (\<lambda>rd2.
                    Inr (rd2, ino1))))))"

section \<open>Lookup by path\<close>

lemma postname_shorter: "rootdir tmp \<noteq> None \<Longrightarrow> tmp = Some p \<Longrightarrow> \<exists>q. postname tmp = Some q \<and> length q < length p"
  by (auto simp: rootdir_def postname_def split: if_splits option.splits)

definition path_measure :: "string option \<Rightarrow> nat" where
  "path_measure tmp = (case tmp of None \<Rightarrow> 0 | Some p \<Rightarrow> length p)"

lemma postname_measure: "rootdir tmp = Some pre \<Longrightarrow> path_measure (postname tmp) < path_measure tmp"
  using postname_shorter [of tmp] by (cases tmp) (auto simp: path_measure_def rootdir_def)

text \<open>The loop of \<open>ext2_inode_lookup\<close>; None is the NULL it returns for a name that is not there.\<close>

function inode_lookup_loop :: "rd_t \<Rightarrow> ext2_inode \<Rightarrow> string option \<Rightarrow> ext2_inode option result" where
  "inode_lookup_loop rd ino tmp =
     (case rootdir tmp of
        None \<Rightarrow> Inr (Some ino)
      | Some pre \<Rightarrow>
          bindr (ext2_dir_lookup rd ino pre) (\<lambda>inode_index.
            if inode_index \<ge> 0
            then bindr (rd_read rd (TABLE inode_index) (int INODE_BYTES)) (\<lambda>bs.
                   inode_lookup_loop rd (inode_of_bytes bs) (postname tmp))
            else Inr None))"
  by pat_completeness auto
termination
  by (relation "measure (\<lambda>(rd, ino, tmp). path_measure tmp)") (auto intro: postname_measure)

declare inode_lookup_loop.simps [simp del]

definition ext2_inode_lookup :: "rd_t \<Rightarrow> string option \<Rightarrow> ext2_inode option result" where
  "ext2_inode_lookup rd name = (case name of
       None \<Rightarrow> Inl BadAccess
     | Some s \<Rightarrow> bindr (rd_read rd (TABLE 0) (int INODE_BYTES)) (\<lambda>bs.
         inode_lookup_loop rd (inode_of_bytes bs) (Some (strip s))))"

section \<open>Creation\<close>

definition write_inode :: "ext2_inode \<Rightarrow> rd_t \<Rightarrow> rd_t result" where
  "write_inode ino rd = rd_write rd (TABLE (uint (e_index ino))) (inode_bytes ino)"

definition ext2_create_file ::
  "string \<Rightarrow> bool \<Rightarrow> u8 \<Rightarrow> u8 \<Rightarrow> rd_t \<times> u32 \<Rightarrow> (int \<times> rd_t \<times> u32) result" where
  "ext2_create_file name isroot per type = (\<lambda>(rd, gid).
     if isroot
     then bindr (ext2_inode_create type per (rd, gid)) (\<lambda>(dir, rd1, gid1).
            bindr (ext2_create_entry (e_index dir) ''.'' DR (rd1, dir)) (\<lambda>(rd2, dir2).
              bindr (ext2_create_entry (e_index dir2) ''..'' DR (rd2, dir2)) (\<lambda>(rd3, dir3).
                bindr (write_inode dir3 rd3) (\<lambda>rd4. Inr (0, rd4, gid1)))))
     else (let pre = alldir (Some name); post = filename (Some name)
           in bindr (ext2_inode_lookup rd pre) (\<lambda>father.
                case father of
                  None \<Rightarrow> Inr (-1, rd, gid)
                | Some f \<Rightarrow>
                    bindr (ext2_inode_create type per (rd, gid)) (\<lambda>(dir, rd1, gid1).
                      bindr (if ucast type = DR
                             then bindr (ext2_create_entry (e_index dir) ''.'' DR (rd1, dir))
                                    (ext2_create_entry (e_index f) ''..'' DR)
                             else Inr (rd1, dir)) (\<lambda>(rd2, dir2).
                        case post of
                          None \<Rightarrow> Inl BadAccess
                        | Some entry \<Rightarrow>
                            bindr (ext2_create_entry (e_index dir2) entry (ucast type) (rd2, f)) (\<lambda>(rd3, f3).
                              bindr (write_inode f3 rd3) (\<lambda>rd4.
                                bindr (write_inode dir2 rd4) (\<lambda>rd5. Inr (0, rd5, gid1)))))))))"

end
