(* ===== verification/Ext2_Bitmap.thy ===== *)
theory Ext2_Bitmap imports Ext2 begin

text \<open>
  The bitmaps and the inode encoding of \<open>kernel/src/filesystems/ext2.c\<close>: a bit is set without
  touching another, the search finds the lowest clear bit, and an inode survives its 128 bytes.
\<close>

section \<open>Bits\<close>

definition bit_at :: "rd_t \<Rightarrow> nat \<Rightarrow> int \<Rightarrow> bool" where
  "bit_at rd block i = bit (rd_bytes rd (nat (MAP block i))) (nat (i mod 8))"

definition map_in_range :: "rd_t \<Rightarrow> nat \<Rightarrow> int \<Rightarrow> bool" where
  "map_in_range rd block i \<longleftrightarrow> 0 \<le> i \<and> MAP block i < int (rd_len rd)"

lemma MAP_nonneg: "0 \<le> i \<Longrightarrow> 0 \<le> MAP block i"
  by (simp add: MAP_def BLOCK_def)

lemma and_mask_bit: "n < 8 \<Longrightarrow> (b AND push_bit n (1 :: u8)) \<noteq> 0 \<longleftrightarrow> bit b n"
proof -
  assume n: "n < 8"
  have "bit (b AND push_bit n (1 :: u8)) k \<longleftrightarrow> k = n \<and> bit b n" for k
    using n by (auto simp: bit_simps dest: bit_imp_le_length)
  then show ?thesis by (metis bit_0_eq bot_apply bot_bool_def bit_eq_iff)
qed

lemma read_map_bit: "map_in_range rd block i \<Longrightarrow> read_map rd block i = Inr (bit_at rd block i)"
  using MAP_nonneg [of i block] and_mask_bit [of "nat (i mod 8)"]
  by (simp add: map_in_range_def read_map_def rd_read_def bit_at_def Let_def window_def)

text \<open>Two different bits are in different bytes or at different places of one byte.\<close>

lemma MAP_eq: "MAP block i = MAP block j \<Longrightarrow> i mod 8 = j mod 8 \<Longrightarrow> i = j"
  by (simp add: MAP_def) (metis mult_div_mod_eq)

definition set_byte :: "rd_t \<Rightarrow> int \<Rightarrow> u8 \<Rightarrow> rd_t" where
  "set_byte rd a b = rd\<lparr>rd_bytes := (rd_bytes rd)(nat a := b)\<rparr>"

lemma rd_write_byte: "0 \<le> a \<Longrightarrow> a < int (rd_len rd) \<Longrightarrow> rd_write rd a [b] = Inr (set_byte rd a b)"
  by (simp add: rd_write_def set_byte_def overlay_Cons)

definition new_byte :: "u8 \<Rightarrow> nat \<Rightarrow> u8 \<Rightarrow> u8" where
  "new_byte x n b = (if x = 1 then b OR push_bit n 1 else b AND NOT (push_bit n 1))"

lemma new_byte_bit: "n < 8 \<Longrightarrow> k < 8 \<Longrightarrow> bit (new_byte x n b) k \<longleftrightarrow> (if k = n then x = 1 else bit b k)"
  by (auto simp: new_byte_def bit_simps)

lemma write_map_result:
  assumes r: "map_in_range rd block i" and x: "x = 0 \<or> x = 1" and old: "bit_at rd block i \<noteq> (x = 1)"
  shows "write_map block i x rd =
    Inr (set_byte rd (MAP block i) (new_byte x (nat (i mod 8)) (rd_bytes rd (nat (MAP block i)))))"
proof -
  let ?rd' = "set_byte rd (MAP block i) (new_byte x (nat (i mod 8)) (rd_bytes rd (nat (MAP block i))))"
  have i: "0 \<le> i" "0 \<le> MAP block i" "MAP block i < int (rd_len rd)"
    using r MAP_nonneg by (auto simp: map_in_range_def)
  have r': "map_in_range ?rd' block i" using r by (simp add: map_in_range_def set_byte_def)
  have "nat (i mod 8) < 8" by simp
  then have new: "bit_at ?rd' block i = (x = 1)"
    using new_byte_bit [of "nat (i mod 8)" "nat (i mod 8)"] by (simp add: bit_at_def set_byte_def)
  have read: "rd_read rd (MAP block i) 1 = Inr [rd_bytes rd (nat (MAP block i))]"
    using i by (simp add: rd_read_def window_def)
  show ?thesis
    using i x old read read_map_bit [OF r] read_map_bit [OF r'] new rd_write_byte [OF i(2,3)]
    by (auto simp: write_map_def Let_def new_byte_def)
qed

lemma bit_at_set_byte:
  assumes "0 \<le> i" and "0 \<le> j"
  shows "bit_at (set_byte rd (MAP block i) (new_byte x (nat (i mod 8)) (rd_bytes rd (nat (MAP block i))))) block j =
    (if j = i then x = 1 else bit_at rd block j)"
proof (cases "MAP block j = MAP block i")
  case True
  have "nat (i mod 8) < 8" "nat (j mod 8) < 8" by simp_all
  moreover have "nat (j mod 8) = nat (i mod 8) \<longleftrightarrow> j = i"
    using MAP_eq [OF True] assms by (auto simp: eq_nat_nat_iff)
  ultimately show ?thesis
    using True new_byte_bit [of "nat (i mod 8)" "nat (j mod 8)"] by (auto simp: bit_at_def set_byte_def)
next
  case False
  then have "nat (MAP block j) \<noteq> nat (MAP block i)"
    using MAP_nonneg assms by (metis eq_nat_nat_iff)
  with False show ?thesis by (auto simp: bit_at_def set_byte_def)
qed

section \<open>The search\<close>

lemma free_map_loop_result:
  "\<forall>i \<in> set is. map_in_range rd block (int i) \<Longrightarrow> free_map_loop rd block is =
     (case dropWhile (\<lambda>i. bit_at rd block (int i)) is of [] \<Rightarrow> Inr (-1) | i # _ \<Rightarrow> Inr (int i))"
  by (induction "is") (simp_all add: read_map_bit)

lemma dropWhile_upt:
  "dropWhile P [a..<n] = i # r \<Longrightarrow> a \<le> i \<and> i < n \<and> \<not> P i \<and> (\<forall>j. a \<le> j \<and> j < i \<longrightarrow> P j)"
proof (induction "n - a" arbitrary: a)
  case (Suc k)
  then have a: "a < n" by simp
  show ?case
  proof (cases "P a")
    case True
    then have "dropWhile P [Suc a..<n] = i # r" using Suc.prems a by (simp add: upt_conv_Cons)
    from Suc.hyps(1) [OF _ this] Suc.hyps(2) have "Suc a \<le> i \<and> i < n \<and> \<not> P i \<and> (\<forall>j. Suc a \<le> j \<and> j < i \<longrightarrow> P j)"
      by simp
    with True show ?thesis by (metis Suc_leD Suc_leI le_neq_implies_less)
  next
    case False
    with Suc.prems a have "i = a" by (simp add: upt_conv_Cons)
    with False a show ?thesis by auto
  qed
qed simp

section \<open>Inodes as bytes\<close>

lemma words32_append: "words32 (xs @ ys) = words32 xs @ words32 ys"
  by (simp add: words32_def)

lemma length_inode_bytes: "length (e_link e) = 25 \<Longrightarrow> length (inode_bytes e) = 128"
  by (simp add: inode_bytes_def)

lemma inode_bytes_roundtrip: "length (e_link e) = 25 \<Longrightarrow> inode_of_bytes (inode_bytes e) = e"
proof -
  assume len: "length (e_link e) = 25"
  define ws where "ws = [e_size e, e_len e, e_id e, e_dir_len e, e_link_num e] @ e_link e"
  have bytes: "inode_bytes e = bytes32 (e_index e) @ bytes16 (e_type e) @ bytes16 (e_permission e) @ words32 ws"
    by (simp only: inode_bytes_def ws_def words32_append)
  have "length ws = 30" using len by (simp add: ws_def)
  then have "of_words32 30 (drop 8 (inode_bytes e)) = ws"
    using of_words32_words32 [of ws "[]"] unfolding bytes by simp
  then show ?thesis
    unfolding inode_of_bytes_def Let_def by (simp add: bytes ws_def)
qed

section \<open>Properties\<close>

definition zero_disk :: rd_t where
  "zero_disk = \<lparr>rd_bytes = (\<lambda>_. 0), rd_len = 4194304\<rparr>"

text \<open>
  \<open>write_map\<close> changes one bit: when the bit has the other value it returns, none of its assertions
  halts, the bit then has the value written, every other bit of the map is as before, and no byte
  of the disk but the one of the bit has changed.
\<close>

theorem write_map_sets_one_bit:
  assumes "map_in_range rd block i" and "x = 0 \<or> x = 1" and "bit_at rd block i \<noteq> (x = 1)"
  shows "\<exists>rd'. write_map block i x rd = Inr rd' \<and> bit_at rd' block i = (x = 1) \<and>
    (\<forall>j \<ge> 0. j \<noteq> i \<longrightarrow> bit_at rd' block j = bit_at rd block j) \<and>
    (\<forall>a. a \<noteq> nat (MAP block i) \<longrightarrow> rd_bytes rd' a = rd_bytes rd a)"
  using write_map_result [OF assms] bit_at_set_byte [of i _ rd block x] assms(1)
  by (auto simp: map_in_range_def set_byte_def)

lemma write_map_sets_one_bit_witness:
  "\<exists>rd'. write_map DMAP 9 1 zero_disk = Inr rd' \<and> bit_at rd' DMAP 9 \<and> \<not> bit_at rd' DMAP 8"
proof -
  have r: "map_in_range zero_disk DMAP 9"
    by (simp add: map_in_range_def zero_disk_def MAP_def BLOCK_def DMAP_def BLOCK_BYTES_def)
  have clear: "\<not> bit_at zero_disk DMAP j" for j by (simp add: bit_at_def zero_disk_def)
  obtain rd' where rd': "write_map DMAP 9 1 zero_disk = Inr rd'" "bit_at rd' DMAP 9 = ((1 :: u8) = 1)"
    "\<forall>j \<ge> 0. j \<noteq> 9 \<longrightarrow> bit_at rd' DMAP j = bit_at zero_disk DMAP j"
    using write_map_sets_one_bit [OF r, of 1] clear by auto
  have "\<not> bit_at rd' DMAP 8" using spec [OF rd'(3), of 8] clear by simp
  with rd'(1,2) show ?thesis by auto
qed

text \<open>
  \<open>free_map\<close> finds the lowest clear bit among the first 1024 bits of a map, and returns -1 exactly when all
  of these are set; the other 7168 bits of the block are never used.
\<close>

theorem free_map_lowest:
  assumes "\<forall>i < 1024. map_in_range rd block (int i)"
  shows "\<exists>r. free_map rd block = Inr r \<and>
    (r = -1 \<longleftrightarrow> (\<forall>i < 1024. bit_at rd block (int i))) \<and>
    (r \<noteq> -1 \<longrightarrow> 0 \<le> r \<and> r < 1024 \<and> \<not> bit_at rd block r \<and> (\<forall>j < nat r. bit_at rd block (int j)))"
proof -
  let ?P = "\<lambda>i. bit_at rd block (int i)"
  have eq: "free_map rd block = (case dropWhile ?P [0..<1024] of [] \<Rightarrow> Inr (-1) | i # _ \<Rightarrow> Inr (int i))"
    unfolding free_map_def using assms by (subst free_map_loop_result) (simp_all add: BLOCK_BYTES_def)
  show ?thesis
  proof (cases "dropWhile ?P [0..<1024]")
    case Nil
    then have "\<forall>i < 1024. ?P i" by (auto simp: dropWhile_eq_Nil_conv)
    with eq Nil show ?thesis by simp
  next
    case (Cons i r)
    then have "i < 1024 \<and> \<not> ?P i \<and> (\<forall>j. j < i \<longrightarrow> ?P j)" using dropWhile_upt [OF Cons] by simp
    with eq Cons show ?thesis by auto
  qed
qed

lemma free_map_lowest_witness: "free_map zero_disk IMAP = Inr 0"
proof -
  have "\<forall>i < 1024. map_in_range zero_disk IMAP (int i)"
    by (auto simp: map_in_range_def zero_disk_def MAP_def BLOCK_def IMAP_def BLOCK_BYTES_def)
  from free_map_lowest [OF this] obtain r where r: "free_map zero_disk IMAP = Inr r"
    "r = -1 \<longleftrightarrow> (\<forall>i < 1024. bit_at zero_disk IMAP (int i))"
    "r \<noteq> -1 \<longrightarrow> 0 \<le> r \<and> (\<forall>j < nat r. bit_at zero_disk IMAP (int j))" by blast
  have clear: "\<not> bit_at zero_disk IMAP j" for j by (simp add: bit_at_def zero_disk_def)
  have "r \<noteq> -1"
  proof
    assume "r = -1"
    then have "\<forall>i < 1024. bit_at zero_disk IMAP (int i)" using r(2) by simp
    then have "bit_at zero_disk IMAP (int 0)" by (rule allE [of _ 0]) simp
    with clear show False by simp
  qed
  moreover have "nat r = 0" using r(3) clear \<open>r \<noteq> -1\<close> by (metis neq0_conv)
  ultimately have "r = 0" using r(3) by simp
  with r(1) show ?thesis by simp
qed

text \<open>An inode written to its place in the table and read back is the same inode.\<close>

theorem inode_disk_roundtrip:
  assumes "length (e_link e) = 25" and "write_inode e rd = Inr rd'"
  shows "bindr (rd_read rd' (TABLE (uint (e_index e))) (int INODE_BYTES)) (\<lambda>bs. Inr (inode_of_bytes bs)) = Inr e"
proof -
  have n: "int INODE_BYTES = int (length (inode_bytes e))"
    using length_inode_bytes [OF assms(1)] by (simp add: INODE_BYTES_def)
  have "rd_read rd' (TABLE (uint (e_index e))) (int INODE_BYTES) = Inr (inode_bytes e)"
    unfolding n using assms(2) by (intro ramdisk.read_written) (simp add: write_inode_def)
  then show ?thesis using inode_bytes_roundtrip [OF assms(1)] by simp
qed

definition sample_inode :: ext2_inode where
  "sample_inode = \<lparr>e_index = 3, e_type = 0, e_permission = 11, e_size = 5, e_len = 1, e_id = 9,
     e_dir_len = 0, e_link_num = 1, e_link = 7 # replicate 24 0\<rparr>"

lemma inode_disk_roundtrip_witness:
  "\<exists>rd'. write_inode sample_inode zero_disk = Inr rd' \<and>
     bindr (rd_read rd' (TABLE 3) 128) (\<lambda>bs. Inr (inode_of_bytes bs)) = Inr sample_inode"
proof -
  have len: "length (e_link sample_inode) = 25" by (simp add: sample_inode_def)
  obtain rd' where w: "write_inode sample_inode zero_disk = Inr rd'"
    using length_inode_bytes [OF len]
    by (auto simp: write_inode_def rd_write_def zero_disk_def sample_inode_def TABLE_def BLOCK_def
        ITABLE_def BLOCK_BYTES_def INODE_BYTES_def)
  with inode_disk_roundtrip [OF len w] show ?thesis by (simp add: sample_inode_def INODE_BYTES_def)
qed

end
