(* ===== verification/Ext2_File.thy ===== *)
theory Ext2_File imports Ext2_Bitmap begin

text \<open>
  Files of the disk layer as sequences of bytes: \<open>ext2_data_read\<close> and \<open>ext2_data_write\<close> against the
  content the inode and its blocks describe.
\<close>

section \<open>The content of a file\<close>

lemma BLOCK_BYTES_1024: "BLOCK_BYTES = 1024"
  by (simp add: BLOCK_BYTES_def)

definition data_pos :: "ext2_inode \<Rightarrow> nat \<Rightarrow> nat" where
  "data_pos ino k = nat (DATA (e_link ino ! (k div BLOCK_BYTES))) + k mod BLOCK_BYTES"

definition file_bytes :: "rd_t \<Rightarrow> ext2_inode \<Rightarrow> nat \<Rightarrow> nat \<Rightarrow> u8 list" where
  "file_bytes rd ino off n = map (\<lambda>k. rd_bytes rd (data_pos ino k)) [off..<off + n]"

definition file_content :: "rd_t \<Rightarrow> ext2_inode \<Rightarrow> u8 list" where
  "file_content rd ino = file_bytes rd ino 0 (unat (e_size ino))"

text \<open>
  A sound inode: enough blocks for the size, at most 25, all of them on the disk, marked as used
  and different.
\<close>

definition file_ok :: "rd_t \<Rightarrow> ext2_inode \<Rightarrow> bool" where
  "file_ok rd ino \<longleftrightarrow> length (e_link ino) = 25 \<and> unat (e_len ino) \<le> 25 \<and>
     unat (e_size ino) \<le> unat (e_len ino) * BLOCK_BYTES \<and>
     (\<forall>k < unat (e_len ino). DATA (e_link ino ! k) + int BLOCK_BYTES \<le> int (rd_len rd) \<and>
        e_link ino ! k < 1024 \<and> bit_at rd DMAP (uint (e_link ino ! k))) \<and>
     distinct (take (unat (e_len ino)) (e_link ino))"

lemma DATA_eq: "DATA b = int ((unat b + 12) * 1024)"
  by (simp add: DATA_def BLOCK_def DATA_B_def ITABLE_def ITABLE_NUM_def BLOCK_BYTES_1024)

lemma nat_DATA: "nat (DATA b) = (unat b + 12) * 1024"
  by (simp only: DATA_eq nat_int)

lemma length_file_bytes [simp]: "length (file_bytes rd ino off n) = n"
  by (simp add: file_bytes_def)

lemma length_file_content [simp]: "length (file_content rd ino) = unat (e_size ino)"
  by (simp add: file_content_def)

lemma file_bytes_append: "file_bytes rd ino off (m + n) = file_bytes rd ino off m @ file_bytes rd ino (off + m) n"
  by (simp add: file_bytes_def add.assoc [symmetric] upt_add_eq_append [of off "off + m" n] flip: map_append)

lemma file_bytes_content:
  "off + n \<le> unat (e_size ino) \<Longrightarrow> file_bytes rd ino off n = take n (drop off (file_content rd ino))"
  by (rule nth_equalityI) (auto simp: file_content_def file_bytes_def)

lemma div_mod_add: "(a :: nat) mod b + i < b \<Longrightarrow> (a + i) div b = a div b \<and> (a + i) mod b = a mod b + i"
proof -
  assume less: "a mod b + i < b"
  have eq: "a + i = (a mod b + i) + (a div b) * b" using div_mult_mod_eq [of a b] by linarith
  have "b \<noteq> 0" using less by auto
  then have "((a mod b + i) + (a div b) * b) div b = a div b + (a mod b + i) div b" by (rule div_mult_self1)
  moreover have "((a mod b + i) + (a div b) * b) mod b = (a mod b + i) mod b" by (rule mod_mult_self1)
  ultimately show ?thesis using less by (simp only: eq div_less mod_less) simp
qed

text \<open>Inside one block the bytes of the file are adjacent on the disk.\<close>

lemma file_bytes_block:
  "off mod BLOCK_BYTES + n \<le> BLOCK_BYTES \<Longrightarrow> file_bytes rd ino off n = window (rd_bytes rd) (data_pos ino off) n"
proof (rule nth_equalityI)
  fix i assume le: "off mod BLOCK_BYTES + n \<le> BLOCK_BYTES" and i: "i < length (file_bytes rd ino off n)"
  then have "off mod BLOCK_BYTES + i < BLOCK_BYTES" by simp
  then have "(off + i) div BLOCK_BYTES = off div BLOCK_BYTES \<and> (off + i) mod BLOCK_BYTES = off mod BLOCK_BYTES + i"
    by (rule div_mod_add)
  with i show "file_bytes rd ino off n ! i = window (rd_bytes rd) (data_pos ino off) n ! i"
    by (simp add: file_bytes_def data_pos_def add.assoc)
qed simp

lemma OFFSET_BLOCK_ok:
  "off < unat (e_len ino) * BLOCK_BYTES \<Longrightarrow> file_ok rd ino \<Longrightarrow>
     OFFSET_BLOCK ino (int off) = Inr (e_link ino ! (off div BLOCK_BYTES)) \<and> off div BLOCK_BYTES < unat (e_len ino)"
proof -
  assume off: "off < unat (e_len ino) * BLOCK_BYTES" and ok: "file_ok rd ino"
  have k: "off div BLOCK_BYTES < unat (e_len ino)" using off by (simp add: less_mult_imp_div_less)
  moreover have "int off div int BLOCK_BYTES = int (off div BLOCK_BYTES)" by (simp only: zdiv_int)
  ultimately show ?thesis using ok by (simp add: OFFSET_BLOCK_def file_ok_def Let_def)
qed

lemma read_at_block:
  assumes ok: "file_ok rd ino" and off: "off < unat (e_len ino) * BLOCK_BYTES"
    and n: "off mod BLOCK_BYTES + n \<le> BLOCK_BYTES"
  shows "read_at rd ino (int off) (int n) = Inr (file_bytes rd ino off n)"
proof -
  let ?b = "e_link ino ! (off div BLOCK_BYTES)"
  have b: "OFFSET_BLOCK ino (int off) = Inr ?b" "off div BLOCK_BYTES < unat (e_len ino)"
    using OFFSET_BLOCK_ok [OF off ok] by auto
  then have "DATA ?b + 1024 \<le> int (rd_len rd)" using ok by (simp add: file_ok_def BLOCK_BYTES_1024)
  moreover have "OFFSET_REMAIN (int off) = int (off mod BLOCK_BYTES)" by (simp add: OFFSET_REMAIN_def zmod_int)
  moreover have "nat (DATA ?b + int (off mod BLOCK_BYTES)) = data_pos ino off"
    by (simp add: data_pos_def DATA_eq nat_add_distrib)
  moreover have "0 \<le> DATA ?b" by (simp add: DATA_eq)
  ultimately show ?thesis
    using b(1) n file_bytes_block [OF n] by (simp add: read_at_def rd_read_def BLOCK_BYTES_1024)
qed

section \<open>Reading\<close>

text \<open>One step of the reading loop never leaves the block it reads, and reads something.\<close>

lemma read_left_step:
  assumes ok: "file_ok rd ino" and n: "0 < n" "off + n \<le> unat (e_size ino)" and first: "first \<or> off mod BLOCK_BYTES = 0"
  shows "\<exists>m. min (read_left ino (int off) (of_nat (off div BLOCK_BYTES)) first) (int n) = int m \<and> 0 < m \<and> m \<le> n \<and>
    off mod BLOCK_BYTES + m \<le> BLOCK_BYTES \<and> (m = n \<or> (off + m) mod BLOCK_BYTES = 0)"
proof -
  let ?k = "off div 1024" and ?r = "off mod 1024"
  have size: "unat (e_size ino) \<le> unat (e_len ino) * 1024" "unat (e_len ino) \<le> 25"
    using ok by (simp_all add: file_ok_def BLOCK_BYTES_1024)
  then have k: "?k < unat (e_len ino)" using n by linarith
  have off: "off = ?k * 1024 + ?r" "?r < 1024" by simp_all
  have len0: "e_len ino \<noteq> 0" using k by auto
  then have pred: "unat (e_len ino - 1) = unat (e_len ino) - 1" by (simp add: unat_minus_one)
  have cnt: "unat (of_nat ?k :: u32) = ?k" using k size(2) by (simp add: unat_of_nat)
  have cond: "(of_nat ?k :: u32) < e_len ino - 1 \<longleftrightarrow> ?k < unat (e_len ino) - 1"
    by (simp only: word_less_nat_alt cnt pred)
  have u: "uint (e_size ino) = int (unat (e_size ino))" "uint (e_len ino) = int (unat (e_len ino))" by simp_all
  have rem: "OFFSET_REMAIN (int off) = int ?r" by (simp add: OFFSET_REMAIN_def BLOCK_BYTES_1024 zmod_int)
  show ?thesis
  proof (cases "?k < unat (e_len ino) - 1")
    case True
    then have left: "read_left ino (int off) (of_nat ?k) first = int (if first then 1024 - ?r else 1024)"
      by (simp add: read_left_def cond rem BLOCK_BYTES_1024 of_nat_diff off(2) less_imp_le)
    have wrap: "(off + (1024 - ?r)) mod 1024 = 0"
    proof -
      have "x + (1024 - r) = Suc k * 1024" if "x = k * 1024 + r" "r < 1024" for x k r :: nat using that by simp
      from this [OF off] have "off + (1024 - ?r) = Suc ?k * 1024" .
      then show ?thesis by (simp only: mod_mult_self2_is_0)
    qed
    define m where "m = min (1024 - ?r) n"
    have "(if first then 1024 - ?r else 1024) = 1024 - ?r" using first by (auto simp: BLOCK_BYTES_1024)
    with left have "min (read_left ino (int off) (of_nat ?k) first) (int n) = int m"
      unfolding m_def of_nat_min by (simp only:)
    moreover have "0 < m" "m \<le> n" "?r + m \<le> 1024" "m = n \<or> (off + m) mod 1024 = 0"
      using n off(2) wrap by (auto simp: m_def min_def)
    ultimately show ?thesis by (auto simp: BLOCK_BYTES_1024)
  next
    case False
    then have last: "unat (e_len ino) = ?k + 1" using k by linarith
    let ?l = "if first then unat (e_size ino) - off else unat (e_size ino) - ?k"
    have left: "read_left ino (int off) (of_nat ?k) first = int ?l"
    proof -
      have "int ?k * 1024 + int ?r = int off" using off(1) by (metis of_nat_add of_nat_mult of_nat_numeral)
      moreover have "?k \<le> off" by simp
      ultimately show ?thesis
        using n unfolding read_left_def cond rem u last BLOCK_BYTES_1024 by (simp del: of_nat_unat split del: if_split) auto
    qed
    have "n \<le> ?l" using n off(1) by auto
    moreover have "?r + n \<le> 1024" using n size last off by linarith
    ultimately show ?thesis
      by (intro exI [of _ n]) (use left n in \<open>auto simp: BLOCK_BYTES_1024 min_def\<close>)
  qed
qed

lemma data_read_loop_bytes:
  "file_ok rd ino \<Longrightarrow> off + n \<le> unat (e_size ino) \<Longrightarrow> first \<or> off mod BLOCK_BYTES = 0 \<or> n = 0 \<Longrightarrow>
     data_read_loop rd ino (int n) (int off) (of_nat (off div BLOCK_BYTES)) first out =
       Some (Inr (out @ file_bytes rd ino off n))"
proof (induction n arbitrary: off first out rule: less_induct)
  case (less n)
  show ?case
  proof (cases "n = 0")
    case True
    then show ?thesis by (subst data_read_loop.simps) (simp add: file_bytes_def)
  next
    case False
    have start: "first \<or> off mod BLOCK_BYTES = 0" and pos: "0 < n" using less.prems(3) False by auto
    obtain m where m: "min (read_left ino (int off) (of_nat (off div BLOCK_BYTES)) first) (int n) = int m"
      "0 < m" "m \<le> n" "off mod BLOCK_BYTES + m \<le> BLOCK_BYTES" "m = n \<or> (off + m) mod BLOCK_BYTES = 0"
      using read_left_step [OF less.prems(1) pos less.prems(2) start] by auto
    have "off < unat (e_len ino) * BLOCK_BYTES" using less.prems(1,2) False by (simp add: file_ok_def)
    from read_at_block [OF less.prems(1) this m(4)]
    have read: "read_at rd ino (int off) (int m) = Inr (file_bytes rd ino off m)" .
    have rest: "file_bytes rd ino off n = file_bytes rd ino off m @ file_bytes rd ino (off + m) (n - m)"
      using file_bytes_append [of rd ino off m "n - m"] m(3) by simp
    have "data_read_loop rd ino (int (n - m)) (int (off + m)) (of_nat (off div BLOCK_BYTES) + 1) False
        (out @ file_bytes rd ino off m) =
      Some (Inr ((out @ file_bytes rd ino off m) @ file_bytes rd ino (off + m) (n - m)))"
    proof (cases "m = n")
      case True
      then show ?thesis by (subst data_read_loop.simps) (simp add: file_bytes_def)
    next
      case False
      then have z: "(off + m) mod BLOCK_BYTES = 0" using m(5) by simp
      have "(off + m) div BLOCK_BYTES = off div BLOCK_BYTES + 1"
      proof -
        have "\<not> off mod 1024 + m < 1024" using div_mod_add [of off 1024 m] z m(2) unfolding BLOCK_BYTES_1024 by auto
        then have "off mod 1024 + m = 1024" using m(4) unfolding BLOCK_BYTES_1024 by linarith
        then have "off + m = 1024 + (off div 1024) * 1024" using div_mult_mod_eq [of off 1024] by linarith
        then show ?thesis by (simp add: BLOCK_BYTES_1024)
      qed
      then have cnt: "(of_nat (off div BLOCK_BYTES) + 1 :: u32) = of_nat ((off + m) div BLOCK_BYTES)" by simp
      show ?thesis unfolding cnt by (rule less.IH) (use m less.prems z in auto)
    qed
    moreover have "uint (e_size ino) = int (unat (e_size ino))" by simp
    then have "int off < uint (e_size ino)" using less.prems(2) pos by linarith
    ultimately show ?thesis
      using pos m(1,3) read
      by (subst data_read_loop.simps) (simp add: Let_def rest of_nat_diff)
  qed
qed

lemma ext2_data_read_bytes:
  assumes "file_ok rd ino" and "off + n \<le> unat (e_size ino)"
  shows "ext2_data_read rd ino (int n) (int off) = Inr (file_bytes rd ino off n)"
proof -
  have cnt: "(word_of_int (int off div int BLOCK_BYTES) :: u32) = of_nat (off div BLOCK_BYTES)"
    by (simp flip: zdiv_int)
  show ?thesis
    using data_read_loop_bytes [OF assms, of True "[]"] unfolding ext2_data_read_def cnt by simp
qed

section \<open>Writing inside a block\<close>

definition disk_put :: "rd_t \<Rightarrow> nat \<Rightarrow> u8 list \<Rightarrow> rd_t" where
  "disk_put rd p buf = rd\<lparr>rd_bytes := overlay (rd_bytes rd) p buf\<rparr>"

lemma disk_put_simps [simp]:
  "rd_bytes (disk_put rd p buf) = overlay (rd_bytes rd) p buf" "rd_len (disk_put rd p buf) = rd_len rd"
  by (simp_all add: disk_put_def)

lemma rd_write_put: "p + length buf \<le> rd_len rd \<Longrightarrow> rd_write rd (int p) buf = Inr (disk_put rd p buf)"
  by (simp add: rd_write_def disk_put_def)

text \<open>The blocks of a file are different, so different bytes of it are at different places of the disk.\<close>

lemma data_pos_eq: "data_pos ino k = (unat (e_link ino ! (k div BLOCK_BYTES)) + 12) * BLOCK_BYTES + k mod BLOCK_BYTES"
  by (simp add: data_pos_def nat_DATA BLOCK_BYTES_1024)

lemma data_pos_ge: "12 * BLOCK_BYTES \<le> data_pos ino k"
  unfolding data_pos_eq by (rule trans_le_add1, rule mult_le_mono1) simp

lemma block_of_pos: "(b * BLOCK_BYTES + k mod BLOCK_BYTES) div BLOCK_BYTES = b"
  by (simp add: BLOCK_BYTES_1024)

lemma same_block:
  assumes "distinct (take n l)" and "i < n" and "j < n" and "n \<le> length l" and "l ! i = l ! j"
  shows "i = j"
  using assms nth_eq_iff_index_eq [of "take n l" i j] by simp

lemma data_pos_range:
  assumes ok: "file_ok rd ino" and off: "off < unat (e_len ino) * BLOCK_BYTES" and k: "k < unat (e_len ino) * BLOCK_BYTES"
    and n: "off mod BLOCK_BYTES + n \<le> BLOCK_BYTES"
  shows "data_pos ino off \<le> data_pos ino k \<and> data_pos ino k < data_pos ino off + n \<longleftrightarrow> off \<le> k \<and> k < off + n"
    and "off \<le> k \<Longrightarrow> k < off + n \<Longrightarrow> data_pos ino k - data_pos ino off = k - off"
proof -
  let ?b = "\<lambda>k. unat (e_link ino ! (k div BLOCK_BYTES)) + 12"
  have same: "?b k = ?b off \<Longrightarrow> k div BLOCK_BYTES = off div BLOCK_BYTES"
    by (rule same_block [of "unat (e_len ino)" "e_link ino"])
      (use ok off k in \<open>auto simp: file_ok_def less_mult_imp_div_less word_unat_eq_iff\<close>)
  have pos: "data_pos ino k = ?b k * BLOCK_BYTES + k mod BLOCK_BYTES" "data_pos ino off = ?b off * BLOCK_BYTES + off mod BLOCK_BYTES"
    by (simp_all only: data_pos_eq)
  have split: "k = k div BLOCK_BYTES * BLOCK_BYTES + k mod BLOCK_BYTES" "off = off div BLOCK_BYTES * BLOCK_BYTES + off mod BLOCK_BYTES"
    by simp_all
  have r: "k mod BLOCK_BYTES < BLOCK_BYTES" by (simp add: BLOCK_BYTES_1024)
  have in_file: "k div BLOCK_BYTES = off div BLOCK_BYTES" if "off \<le> k" "k < off + n"
  proof -
    have "off mod BLOCK_BYTES + (k - off) < BLOCK_BYTES" using that n by linarith
    from div_mod_add [OF this] show ?thesis using that by simp
  qed
  have in_disk: "?b k = ?b off" if "data_pos ino off \<le> data_pos ino k" "data_pos ino k < data_pos ino off + n"
  proof -
    have "off mod BLOCK_BYTES + (data_pos ino k - data_pos ino off) < BLOCK_BYTES" using that n by linarith
    moreover have "data_pos ino off mod BLOCK_BYTES = off mod BLOCK_BYTES" unfolding pos(2) by simp
    ultimately have "(data_pos ino off + (data_pos ino k - data_pos ino off)) div BLOCK_BYTES = data_pos ino off div BLOCK_BYTES"
      by (metis div_mod_add)
    then have "data_pos ino k div BLOCK_BYTES = data_pos ino off div BLOCK_BYTES" using that by simp
    then show ?thesis unfolding pos block_of_pos .
  qed
  have shift: "data_pos ino k + off = data_pos ino off + k" if "k div BLOCK_BYTES = off div BLOCK_BYTES"
    using split pos unfolding that by linarith
  show "data_pos ino off \<le> data_pos ino k \<and> data_pos ino k < data_pos ino off + n \<longleftrightarrow> off \<le> k \<and> k < off + n"
  proof
    assume *: "data_pos ino off \<le> data_pos ino k \<and> data_pos ino k < data_pos ino off + n"
    then have "data_pos ino k + off = data_pos ino off + k" using shift same in_disk by blast
    with * show "off \<le> k \<and> k < off + n" by linarith
  next
    assume *: "off \<le> k \<and> k < off + n"
    then have "data_pos ino k + off = data_pos ino off + k" using shift in_file by blast
    with * show "data_pos ino off \<le> data_pos ino k \<and> data_pos ino k < data_pos ino off + n" by linarith
  qed
  show "off \<le> k \<Longrightarrow> k < off + n \<Longrightarrow> data_pos ino k - data_pos ino off = k - off"
    using shift in_file by fastforce
qed

lemma byte_after_put:
  assumes "file_ok rd ino" and "off < unat (e_len ino) * BLOCK_BYTES" and "k < unat (e_len ino) * BLOCK_BYTES"
    and "off mod BLOCK_BYTES + length buf \<le> BLOCK_BYTES"
  shows "rd_bytes (disk_put rd (data_pos ino off) buf) (data_pos ino k) =
    (if off \<le> k \<and> k < off + length buf then buf ! (k - off) else rd_bytes rd (data_pos ino k))"
  using data_pos_range [OF assms] by (auto simp: overlay_def)

text \<open>What a write to the data blocks or to the inode table leaves: the bitmaps, so inodes stay sound.\<close>

lemma bit_at_put:
  "2 * BLOCK_BYTES \<le> p \<Longrightarrow> i < 1024 \<Longrightarrow> bit_at (disk_put rd p buf) DMAP (uint (i :: u32)) = bit_at rd DMAP (uint i)"
proof -
  assume p: "2 * BLOCK_BYTES \<le> p" and i: "i < 1024"
  have "uint i < 1024" using i by (simp add: word_less_def)
  then have "nat (MAP DMAP (uint i)) < 2 * BLOCK_BYTES"
    by (simp add: MAP_def BLOCK_def DMAP_def BLOCK_BYTES_1024 nat_less_iff)
  with p show ?thesis by (simp add: bit_at_def)
qed

lemma file_ok_put: "2 * BLOCK_BYTES \<le> p \<Longrightarrow> file_ok (disk_put rd p buf) ino = file_ok rd ino"
  using bit_at_put unfolding file_ok_def by (metis disk_put_simps(2))

lemma TABLE_eq: "TABLE (uint (i :: u32)) = int (2 * BLOCK_BYTES + unat i * 128)"
  by (simp add: TABLE_def BLOCK_def ITABLE_def INODE_BYTES_def)

text \<open>A write to a place before the data blocks changes no file.\<close>

lemma byte_after_table_put:
  "p + length buf \<le> 12 * BLOCK_BYTES \<Longrightarrow> rd_bytes (disk_put rd p buf) (data_pos ino k) = rd_bytes rd (data_pos ino k)"
  using data_pos_ge [of ino k] by simp

definition disjoint_files :: "ext2_inode \<Rightarrow> ext2_inode \<Rightarrow> bool" where
  "disjoint_files ino other \<longleftrightarrow>
     set (take (unat (e_len ino)) (e_link ino)) \<inter> set (take (unat (e_len other)) (e_link other)) = {}"

lemma other_block:
  assumes "file_ok rd ino" and "file_ok rd other" and "disjoint_files ino other"
    and "off < unat (e_len ino) * BLOCK_BYTES" and "k < unat (e_len other) * BLOCK_BYTES"
  shows "data_pos other k div BLOCK_BYTES \<noteq> data_pos ino off div BLOCK_BYTES"
proof -
  have mem: "e_link i ! (j div BLOCK_BYTES) \<in> set (take (unat (e_len i)) (e_link i))"
    if "file_ok rd i" "j < unat (e_len i) * BLOCK_BYTES" for i j
  proof -
    have "j div BLOCK_BYTES < unat (e_len i)" using that(2) by (rule less_mult_imp_div_less)
    then show ?thesis using that(1) by (auto simp: in_set_conv_nth file_ok_def intro!: exI [of _ "j div BLOCK_BYTES"])
  qed
  have "e_link other ! (k div BLOCK_BYTES) \<noteq> e_link ino ! (off div BLOCK_BYTES)"
    using mem [OF assms(1,4)] mem [OF assms(2,5)] assms(3) by (auto simp: disjoint_files_def)
  then show ?thesis by (simp add: data_pos_eq block_of_pos word_unat_eq_iff)
qed

lemma byte_of_other:
  assumes "file_ok rd ino" and "file_ok rd other" and "disjoint_files ino other"
    and "off < unat (e_len ino) * BLOCK_BYTES" and "k < unat (e_len other) * BLOCK_BYTES"
    and "off mod BLOCK_BYTES + length buf \<le> BLOCK_BYTES"
  shows "rd_bytes (disk_put rd (data_pos ino off) buf) (data_pos other k) = rd_bytes rd (data_pos other k)"
proof -
  have m: "data_pos ino off mod BLOCK_BYTES = off mod BLOCK_BYTES" unfolding data_pos_eq by simp
  have "\<not> (data_pos ino off \<le> data_pos other k \<and> data_pos other k < data_pos ino off + length buf)"
  proof
    assume *: "data_pos ino off \<le> data_pos other k \<and> data_pos other k < data_pos ino off + length buf"
    then have "data_pos ino off mod BLOCK_BYTES + (data_pos other k - data_pos ino off) < BLOCK_BYTES"
      using assms(6) m by linarith
    from div_mod_add [OF this] * other_block [OF assms(1-5)] show False by simp
  qed
  then show ?thesis by (auto simp: overlay_def)
qed

lemma data_write_loop_block:
  assumes ok: "file_ok rd ino" and off: "off < unat (e_len ino) * BLOCK_BYTES" and n: "0 < length buf"
    and fits: "off mod BLOCK_BYTES + length buf \<le> BLOCK_BYTES"
  shows "data_write_loop rd ino buf (length buf) 0 (unat (e_len ino)) off True = Inr (disk_put rd (data_pos ino off) buf, ino)"
proof -
  let ?b = "e_link ino ! (off div BLOCK_BYTES)"
  have b: "OFFSET_BLOCK ino (int off) = Inr ?b" "off div BLOCK_BYTES < unat (e_len ino)"
    using OFFSET_BLOCK_ok [OF off ok] by auto
  then have room: "DATA ?b + int BLOCK_BYTES \<le> int (rd_len rd)" using ok by (simp add: file_ok_def)
  have pos: "DATA ?b + OFFSET_REMAIN (int off) = int (data_pos ino off)"
    by (simp add: OFFSET_REMAIN_def data_pos_eq DATA_eq zmod_int BLOCK_BYTES_1024)
  have "data_pos ino off + length buf \<le> rd_len rd"
    using room fits pos by (simp add: OFFSET_REMAIN_def flip: zmod_int)
  from rd_write_put [OF this]
  have "rd_write rd (DATA ?b + OFFSET_REMAIN (int off)) buf = Inr (disk_put rd (data_pos ino off) buf)" unfolding pos .
  moreover have "min (BLOCK_BYTES - off mod BLOCK_BYTES) (length buf) = length buf" using fits by simp
  ultimately show ?thesis
    using b off n by (subst data_write_loop.simps) (simp add: Let_def data_write_loop.simps)
qed

text \<open>Where a write that stays in its block ends, and that it stays in the file's blocks.\<close>

lemma write_end:
  assumes "off < l * BLOCK_BYTES" and "off mod BLOCK_BYTES + n \<le> BLOCK_BYTES"
  shows "off + n \<le> l * BLOCK_BYTES"
proof -
  have "off div BLOCK_BYTES + 1 \<le> l" using less_mult_imp_div_less [OF assms(1)] by simp
  then have "(off div BLOCK_BYTES + 1) * BLOCK_BYTES \<le> l * BLOCK_BYTES" by (rule mult_le_mono1)
  moreover have "off + n \<le> (off div BLOCK_BYTES + 1) * BLOCK_BYTES"
  proof -
    have "off = off div BLOCK_BYTES * BLOCK_BYTES + off mod BLOCK_BYTES" by simp
    moreover have "(off div BLOCK_BYTES + 1) * BLOCK_BYTES = off div BLOCK_BYTES * BLOCK_BYTES + BLOCK_BYTES" by simp
    ultimately show ?thesis using assms(2) by linarith
  qed
  ultimately show ?thesis by linarith
qed

lemma unat_size: "x \<le> 25 * BLOCK_BYTES \<Longrightarrow> unat (of_nat x :: u32) = x"
  by (simp add: BLOCK_BYTES_1024 unat_of_nat)

lemma size_le: "file_ok rd ino \<Longrightarrow> unat (e_len ino) * BLOCK_BYTES \<le> 25 * BLOCK_BYTES"
  by (auto simp: file_ok_def intro: mult_le_mono1)

lemma data_pos_size [simp]: "data_pos (ino\<lparr>e_size := s\<rparr>) k = data_pos ino k"
  by (simp add: data_pos_def)

lemma file_ok_size:
  "file_ok rd ino \<Longrightarrow> unat (e_size ino) \<le> s \<Longrightarrow> s \<le> unat (e_len ino) * BLOCK_BYTES \<Longrightarrow>
     file_ok rd (ino\<lparr>e_size := of_nat s\<rparr>)"
proof -
  assume ok: "file_ok rd ino" and s: "unat (e_size ino) \<le> s" "s \<le> unat (e_len ino) * BLOCK_BYTES"
  have "unat (of_nat s :: u32) = s" by (rule unat_size) (use size_le [OF ok] s in linarith)
  then show ?thesis using ok s by (auto simp: file_ok_def)
qed

lemma file_ok_disk: "file_ok rd ino \<Longrightarrow> 0 < unat (e_len ino) \<Longrightarrow> 13 * BLOCK_BYTES \<le> rd_len rd"
proof -
  assume "file_ok rd ino" and "0 < unat (e_len ino)"
  then have "DATA (e_link ino ! 0) + int BLOCK_BYTES \<le> int (rd_len rd)" by (simp add: file_ok_def)
  then have "int ((unat (e_link ino ! 0) + 12) * 1024 + 1024) \<le> int (rd_len rd)"
    by (simp only: DATA_eq BLOCK_BYTES_1024 of_nat_add)
  then have "(unat (e_link ino ! 0) + 12) * 1024 + 1024 \<le> rd_len rd" by (simp only: of_nat_le_iff)
  then show ?thesis by (simp add: BLOCK_BYTES_1024)
qed

text \<open>The result of the whole function: the data and, when the file has grown, the inode.\<close>

definition written :: "rd_t \<Rightarrow> ext2_inode \<Rightarrow> u8 list \<Rightarrow> nat \<Rightarrow> rd_t \<times> ext2_inode" where
  "written rd ino buf off =
     (let rd1 = disk_put rd (data_pos ino off) buf; ino1 = ino\<lparr>e_size := of_nat (off + length buf)\<rparr>
      in if off + length buf > unat (e_size ino)
         then (disk_put rd1 (2 * BLOCK_BYTES + unat (e_index ino) * 128) (inode_bytes ino1), ino1)
         else (rd1, ino))"

lemma ext2_data_write_written:
  assumes ok: "file_ok rd ino" and off: "off < unat (e_len ino) * BLOCK_BYTES" and n: "0 < length buf"
    and fits: "off mod BLOCK_BYTES + length buf \<le> BLOCK_BYTES" and idx: "unat (e_index ino) < 80"
  shows "ext2_data_write buf off (rd, ino) = Inr (written rd ino buf off)"
proof -
  let ?p = "2 * BLOCK_BYTES + unat (e_index ino) * 128" and ?ino1 = "ino\<lparr>e_size := of_nat (off + length buf)\<rparr>"
  have "length (inode_bytes ?ino1) = 128" using ok by (simp add: length_inode_bytes file_ok_def)
  moreover have "13 * BLOCK_BYTES \<le> rd_len rd" by (rule file_ok_disk [OF ok]) (use off in \<open>cases "unat (e_len ino)"; simp\<close>)
  ultimately have "?p + length (inode_bytes ?ino1) \<le> rd_len (disk_put rd (data_pos ino off) buf)"
    using idx by (simp add: BLOCK_BYTES_1024)
  from rd_write_put [OF this]
  have "rd_write (disk_put rd (data_pos ino off) buf) (TABLE (uint (e_index ?ino1))) (inode_bytes ?ino1) =
    Inr (disk_put (disk_put rd (data_pos ino off) buf) ?p (inode_bytes ?ino1))" by (simp only: TABLE_eq) simp
  then show ?thesis
    using data_write_loop_block [OF ok off n fits] by (simp add: ext2_data_write_def written_def Let_def)
qed

lemma written_bytes:
  assumes ok: "file_ok rd ino" and off: "off < unat (e_len ino) * BLOCK_BYTES"
    and fits: "off mod BLOCK_BYTES + length buf \<le> BLOCK_BYTES" and idx: "unat (e_index ino) < 80"
  shows "k < unat (e_len ino) * BLOCK_BYTES \<Longrightarrow> rd_bytes (fst (written rd ino buf off)) (data_pos ino k) =
      (if off \<le> k \<and> k < off + length buf then buf ! (k - off) else rd_bytes rd (data_pos ino k))"
    and "file_ok rd other \<Longrightarrow> disjoint_files ino other \<Longrightarrow> k < unat (e_len other) * BLOCK_BYTES \<Longrightarrow>
      rd_bytes (fst (written rd ino buf off)) (data_pos other k) = rd_bytes rd (data_pos other k)"
    and "file_ok (fst (written rd ino buf off)) other = file_ok rd other"
proof -
  have len: "2 * BLOCK_BYTES + unat (e_index ino) * 128 + length (inode_bytes (ino\<lparr>e_size := s\<rparr>)) \<le> 12 * BLOCK_BYTES" for s
  proof -
    have "length (inode_bytes (ino\<lparr>e_size := s\<rparr>)) = 128" using ok by (simp add: length_inode_bytes file_ok_def)
    then show ?thesis using idx by (simp add: BLOCK_BYTES_1024)
  qed
  have two: "2 * BLOCK_BYTES \<le> data_pos ino off" using data_pos_ge [of ino off] by linarith
  show "k < unat (e_len ino) * BLOCK_BYTES \<Longrightarrow> rd_bytes (fst (written rd ino buf off)) (data_pos ino k) =
      (if off \<le> k \<and> k < off + length buf then buf ! (k - off) else rd_bytes rd (data_pos ino k))"
    using byte_after_put [OF ok off _ fits] byte_after_table_put [OF len]
    by (simp only: written_def Let_def fst_conv split: if_split) blast
  show "file_ok rd other \<Longrightarrow> disjoint_files ino other \<Longrightarrow> k < unat (e_len other) * BLOCK_BYTES \<Longrightarrow>
      rd_bytes (fst (written rd ino buf off)) (data_pos other k) = rd_bytes rd (data_pos other k)"
    using byte_of_other [OF ok _ _ off _ fits] byte_after_table_put [OF len]
    by (simp only: written_def Let_def fst_conv split: if_split) blast
  show "file_ok (fst (written rd ino buf off)) other = file_ok rd other"
    using file_ok_put [OF two] file_ok_put [of "2 * BLOCK_BYTES + unat (e_index ino) * 128"]
    by (simp add: written_def Let_def)
qed

lemma written_content:
  assumes ok: "file_ok rd ino" and off: "off < unat (e_len ino) * BLOCK_BYTES" "off \<le> unat (e_size ino)"
    and fits: "off mod BLOCK_BYTES + length buf \<le> BLOCK_BYTES" and idx: "unat (e_index ino) < 80"
  shows "file_ok (fst (written rd ino buf off)) (snd (written rd ino buf off))"
    and "file_content (fst (written rd ino buf off)) (snd (written rd ino buf off)) =
      take off (file_content rd ino) @ buf @ drop (off + length buf) (file_content rd ino)"
    and "unat (e_size (snd (written rd ino buf off))) = max (unat (e_size ino)) (off + length buf)"
    and "file_ok rd other \<Longrightarrow> disjoint_files ino other \<Longrightarrow>
      file_content (fst (written rd ino buf off)) other = file_content rd other"
proof -
  let ?rd = "fst (written rd ino buf off)" and ?ino = "snd (written rd ino buf off)"
  have fin: "off + length buf \<le> unat (e_len ino) * BLOCK_BYTES" by (rule write_end [OF off(1) fits])
  have u: "unat (of_nat (off + length buf) :: u32) = off + length buf"
    by (rule unat_size) (use fin size_le [OF ok] in linarith)
  have ino: "?ino = (if off + length buf > unat (e_size ino) then ino\<lparr>e_size := of_nat (off + length buf)\<rparr> else ino)"
    by (simp add: written_def Let_def)
  show size: "unat (e_size ?ino) = max (unat (e_size ino)) (off + length buf)"
    unfolding ino using u by auto
  show "file_ok ?rd ?ino"
    unfolding written_bytes(3) [OF ok off(1) fits idx] ino using ok file_ok_size [OF ok _ fin] by auto
  have pos: "data_pos ?ino k = data_pos ino k" for k unfolding ino by simp
  have bytes: "file_bytes ?rd ?ino 0 n ! k = (if off \<le> k \<and> k < off + length buf then buf ! (k - off) else file_bytes rd ino 0 n ! k)"
    if "k < n" "n \<le> unat (e_len ino) * BLOCK_BYTES" for k n
    using that written_bytes(1) [OF ok off(1) fits idx, of k] by (simp add: file_bytes_def pos)
  have "unat (e_size ino) \<le> unat (e_len ino) * BLOCK_BYTES" using ok by (simp add: file_ok_def)
  with fin have bound: "unat (e_size ?ino) \<le> unat (e_len ino) * BLOCK_BYTES" unfolding size by simp
  show "file_content ?rd ?ino = take off (file_content rd ino) @ buf @ drop (off + length buf) (file_content rd ino)"
  proof (rule nth_equalityI)
    show "length (file_content ?rd ?ino) =
      length (take off (file_content rd ino) @ buf @ drop (off + length buf) (file_content rd ino))"
      using size off(2) by simp
  next
    fix k assume "k < length (file_content ?rd ?ino)"
    then have k: "k < unat (e_size ?ino)" by simp
    then have "file_content ?rd ?ino ! k =
      (if off \<le> k \<and> k < off + length buf then buf ! (k - off) else file_bytes rd ino 0 (unat (e_size ?ino)) ! k)"
      using bytes [OF k bound] by (simp add: file_content_def)
    also have "\<dots> = (take off (file_content rd ino) @ buf @ drop (off + length buf) (file_content rd ino)) ! k"
      using k size off(2) by (auto simp: nth_append file_content_def file_bytes_def)
    finally show "file_content ?rd ?ino ! k =
      (take off (file_content rd ino) @ buf @ drop (off + length buf) (file_content rd ino)) ! k" .
  qed
  show "file_content ?rd other = file_content rd other" if "file_ok rd other" "disjoint_files ino other"
  proof -
    have "k < unat (e_len other) * BLOCK_BYTES" if "k < unat (e_size other)" for k
      using that \<open>file_ok rd other\<close> by (simp add: file_ok_def)
    then show ?thesis
      using written_bytes(2) [OF ok off(1) fits idx that] by (auto simp: file_content_def file_bytes_def)
  qed
qed

section \<open>Appending\<close>

text \<open>The file with one more block, as the code has it before it writes there.\<close>

definition grown :: "ext2_inode \<Rightarrow> int \<Rightarrow> ext2_inode" where
  "grown ino i = ino\<lparr>e_link := (e_link ino)[unat (e_len ino) := word_of_int i], e_len := e_len ino + 1\<rparr>"

lemma grown_simps [simp]:
  "e_size (grown ino i) = e_size ino" "e_index (grown ino i) = e_index ino"
  "unat (e_len ino) \<le> 25 \<Longrightarrow> unat (e_len (grown ino i)) = unat (e_len ino) + 1"
  by (simp_all add: grown_def unat_word_ariths)

definition disk_ok :: "rd_t \<Rightarrow> bool" where
  "disk_ok rd \<longleftrightarrow> (DATA_B + BLOCK_BYTES) * BLOCK_BYTES \<le> rd_len rd"

lemma map_in_range_disk: "disk_ok rd \<Longrightarrow> 0 \<le> i \<Longrightarrow> i < 1024 \<Longrightarrow> block < 2 \<Longrightarrow> map_in_range rd block i"
  by (simp add: map_in_range_def disk_ok_def DATA_B_def ITABLE_def ITABLE_NUM_def BLOCK_BYTES_1024 MAP_def BLOCK_def)

text \<open>The bitmap after the block is taken.\<close>

definition block_taken :: "rd_t \<Rightarrow> int \<Rightarrow> rd_t" where
  "block_taken rd i =
     set_byte rd (MAP DMAP i) (new_byte 1 (nat (i mod 8)) (rd_bytes rd (nat (MAP DMAP i))))"

lemma free_block:
  assumes "disk_ok rd" and "free_map rd DMAP = Inr i" and "0 \<le> i"
  shows "i < 1024" and "\<not> bit_at rd DMAP i" and "write_map DMAP i 1 rd = Inr (block_taken rd i)"
proof -
  have *: "dropWhile (\<lambda>i. bit_at rd DMAP (int i)) [0..<1024] = nat i # tl (dropWhile (\<lambda>i. bit_at rd DMAP (int i)) [0..<1024])"
    using free_map_loop_result [of "[0..<1024]" rd DMAP] map_in_range_disk [OF assms(1)] assms(2,3)
    by (auto simp: free_map_def BLOCK_BYTES_1024 DMAP_def split: list.splits)
  from dropWhile_upt [OF *] assms(3) show i: "i < 1024" and clear: "\<not> bit_at rd DMAP i" by auto
  have "map_in_range rd DMAP i" by (rule map_in_range_disk [OF assms(1,3) i]) (simp add: DMAP_def)
  from write_map_result [OF this, of 1] clear show "write_map DMAP i 1 rd = Inr (block_taken rd i)"
    by (simp add: block_taken_def)
qed

lemma bit_at_taken:
  "0 \<le> i \<Longrightarrow> 0 \<le> j \<Longrightarrow> bit_at (block_taken rd i) DMAP j = (if j = i then True else bit_at rd DMAP j)"
  unfolding block_taken_def by (subst bit_at_set_byte) auto

lemma rd_len_taken [simp]: "rd_len (block_taken rd i) = rd_len rd"
  by (simp add: block_taken_def set_byte_def)

lemma MAP_small: "0 \<le> i \<Longrightarrow> i < 1024 \<Longrightarrow> nat (MAP DMAP i) < 2 * BLOCK_BYTES"
  by (simp add: MAP_def BLOCK_def DMAP_def BLOCK_BYTES_1024 nat_less_iff)

lemma byte_taken: "0 \<le> i \<Longrightarrow> i < 1024 \<Longrightarrow> rd_bytes (block_taken rd i) (data_pos ino k) = rd_bytes rd (data_pos ino k)"
  using MAP_small [of i] data_pos_ge [of ino k] by (auto simp: block_taken_def set_byte_def)

lemma file_ok_taken: "0 \<le> i \<Longrightarrow> file_ok rd other \<Longrightarrow> file_ok (block_taken rd i) other"
  unfolding file_ok_def by (simp add: bit_at_taken)

lemma grown_ok:
  assumes ok: "file_ok rd ino" and disk: "disk_ok rd" and len: "unat (e_len ino) < 25"
    and i: "0 \<le> i" "i < 1024" "\<not> bit_at rd DMAP i"
  shows "file_ok (block_taken rd i) (grown ino i)"
proof -
  let ?w = "word_of_int i :: u32" and ?n = "unat (e_len ino)"
  have ui: "uint ?w = i" using i by (simp add: uint_word_of_int)
  then have un: "unat ?w = nat i" by (metis unat_eq_nat_uint)
  have fresh: "?w \<notin> set (take ?n (e_link ino))"
    using ok i(3) ui len by (auto simp: file_ok_def in_set_conv_nth)
  have "?w < 1024" using i(2) ui by (simp add: word_less_def)
  moreover have "DATA ?w + int BLOCK_BYTES \<le> int (rd_len rd)"
    using disk i un by (simp add: DATA_eq disk_ok_def DATA_B_def ITABLE_def ITABLE_NUM_def BLOCK_BYTES_1024)
  moreover have "take (?n + 1) ((e_link ino)[?n := ?w]) = take ?n (e_link ino) @ [?w]"
    using ok len by (simp add: file_ok_def take_Suc_conv_app_nth)
  moreover have "unat (e_len (grown ino i)) = ?n + 1" using len by simp
  moreover have "?n * BLOCK_BYTES \<le> (?n + 1) * BLOCK_BYTES" by simp
  ultimately show ?thesis
    using ok len fresh i bit_at_taken [OF i(1)] ui
    by (auto simp: file_ok_def grown_def nth_list_update less_Suc_eq)
qed

lemma grown_content:
  assumes ok: "file_ok rd ino" and len: "unat (e_len ino) < 25" and i: "0 \<le> i" "i < 1024"
  shows "file_content (block_taken rd i) (grown ino i) = file_content rd ino"
proof -
  have "data_pos (grown ino i) k = data_pos ino k" if "k < unat (e_size ino)" for k
  proof -
    have "k < unat (e_len ino) * BLOCK_BYTES" using that ok by (simp add: file_ok_def)
    then have "k div BLOCK_BYTES < unat (e_len ino)" by (rule less_mult_imp_div_less)
    then show ?thesis by (simp add: data_pos_def grown_def)
  qed
  then show ?thesis by (simp add: file_content_def file_bytes_def byte_taken [OF i])
qed

lemma data_write_loop_grow:
  assumes ok: "file_ok rd ino" and disk: "disk_ok rd" and len: "unat (e_len ino) < 25"
    and i: "free_map rd DMAP = Inr i" "0 \<le> i" and n: "0 < length buf" "length buf \<le> BLOCK_BYTES"
  defines "off \<equiv> unat (e_len ino) * BLOCK_BYTES"
  shows "data_write_loop rd ino buf (length buf) 0 (unat (e_len ino)) off True =
    Inr (disk_put (block_taken rd i) (data_pos (grown ino i) off) buf, grown ino i)"
proof -
  note free = free_block [OF disk i]
  have ok': "file_ok (block_taken rd i) (grown ino i)" by (rule grown_ok [OF ok disk len i(2) free(1,2)])
  have off: "off < unat (e_len (grown ino i)) * BLOCK_BYTES" "off mod BLOCK_BYTES = 0"
    using len by (simp_all add: off_def BLOCK_BYTES_1024)
  let ?b = "e_link (grown ino i) ! (off div BLOCK_BYTES)"
  have b: "OFFSET_BLOCK (grown ino i) (int off) = Inr ?b" "off div BLOCK_BYTES < unat (e_len (grown ino i))"
    using OFFSET_BLOCK_ok [OF off(1) ok'] by auto
  then have room: "DATA ?b + int BLOCK_BYTES \<le> int (rd_len rd)" using ok' by (simp add: file_ok_def)
  have pos: "DATA ?b + OFFSET_REMAIN (int off) = int (data_pos (grown ino i) off)"
    by (simp add: OFFSET_REMAIN_def data_pos_eq DATA_eq zmod_int BLOCK_BYTES_1024)
  have "data_pos (grown ino i) off + length buf \<le> rd_len (block_taken rd i)"
    using room n(2) pos off(2) by (simp add: OFFSET_REMAIN_def flip: zmod_int)
  from rd_write_put [OF this]
  have "rd_write (block_taken rd i) (DATA ?b + OFFSET_REMAIN (int off)) buf =
    Inr (disk_put (block_taken rd i) (data_pos (grown ino i) off) buf)" unfolding pos .
  then show ?thesis
    using b n ok len i(1) free(3)
    by (subst data_write_loop.simps)
      (simp add: Let_def data_write_loop.simps off_def file_ok_def grown_def [symmetric])
qed

lemma data_write_grow:
  assumes ok: "file_ok rd ino" and disk: "disk_ok rd" and len: "unat (e_len ino) < 25"
    and i: "free_map rd DMAP = Inr i" "0 \<le> i" and n: "0 < length buf" "length buf \<le> BLOCK_BYTES"
    and idx: "unat (e_index ino) < 80"
  defines "off \<equiv> unat (e_len ino) * BLOCK_BYTES"
  shows "ext2_data_write buf off (rd, ino) = Inr (written (block_taken rd i) (grown ino i) buf off)"
proof -
  note free = free_block [OF disk i]
  have ok': "file_ok (block_taken rd i) (grown ino i)" by (rule grown_ok [OF ok disk len i(2) free(1,2)])
  have off: "off < unat (e_len (grown ino i)) * BLOCK_BYTES" "off mod BLOCK_BYTES + length buf \<le> BLOCK_BYTES"
    using len n by (simp_all add: off_def BLOCK_BYTES_1024)
  have "ext2_data_write buf off (block_taken rd i, grown ino i) = Inr (written (block_taken rd i) (grown ino i) buf off)"
    by (rule ext2_data_write_written [OF ok' off(1) n(1) off(2)]) (use idx in simp)
  then show ?thesis
    using data_write_loop_grow [OF ok disk len i n]
      data_write_loop_block [OF ok' off(1) n(1) off(2)]
    by (simp add: ext2_data_write_def off_def)
qed

text \<open>There is room to append \<open>n\<close> bytes: they fit the last block, or a new block can be taken.\<close>

definition room_to_append :: "rd_t \<Rightarrow> ext2_inode \<Rightarrow> nat \<Rightarrow> bool" where
  "room_to_append rd ino n \<longleftrightarrow> unat (e_size ino) mod BLOCK_BYTES + n \<le> BLOCK_BYTES \<and>
     (unat (e_size ino) = unat (e_len ino) * BLOCK_BYTES \<longrightarrow>
        unat (e_len ino) < 25 \<and> (\<exists>i < 1024. \<not> bit_at rd DMAP (int i)))"

lemma free_map_finds:
  assumes "disk_ok rd" and "i < 1024" and "\<not> bit_at rd DMAP (int i)"
  shows "\<exists>r \<ge> 0. free_map rd DMAP = Inr r"
proof -
  have "free_map rd DMAP = (case dropWhile (\<lambda>i. bit_at rd DMAP (int i)) [0..<1024] of [] \<Rightarrow> Inr (-1) | i # _ \<Rightarrow> Inr (int i))"
    unfolding free_map_def BLOCK_BYTES_1024
    by (rule free_map_loop_result) (simp add: map_in_range_disk [OF assms(1)] DMAP_def)
  moreover have "dropWhile (\<lambda>i. bit_at rd DMAP (int i)) [0..<1024] \<noteq> []"
    using assms(2,3) by (auto simp: dropWhile_eq_Nil_conv)
  ultimately show ?thesis by (auto split: list.splits)
qed

lemma append_cases:
  assumes ok: "file_ok rd ino" and disk: "disk_ok rd" and room: "room_to_append rd ino (length buf)"
    and n: "0 < length buf" and idx: "unat (e_index ino) < 80"
  obtains (inside) "ext2_append_data buf (rd, ino) = Inr (written rd ino buf (unat (e_size ino)))"
      "unat (e_size ino) < unat (e_len ino) * BLOCK_BYTES"
  | (new) i where "ext2_append_data buf (rd, ino) = Inr (written (block_taken rd i) (grown ino i) buf (unat (e_size ino)))"
      "unat (e_size ino) = unat (e_len ino) * BLOCK_BYTES" "unat (e_len ino) < 25" "0 \<le> i" "i < 1024"
      "\<not> bit_at rd DMAP i" "file_ok (block_taken rd i) (grown ino i)"
proof (cases "unat (e_size ino) = unat (e_len ino) * BLOCK_BYTES")
  case True
  with room obtain k where k: "unat (e_len ino) < 25" "k < 1024" "\<not> bit_at rd DMAP (int k)"
    by (auto simp: room_to_append_def)
  obtain i where i: "free_map rd DMAP = Inr i" "0 \<le> i" using free_map_finds [OF disk k(2,3)] by auto
  note free = free_block [OF disk i]
  have "length buf \<le> BLOCK_BYTES" using room by (simp add: room_to_append_def)
  from data_write_grow [OF ok disk k(1) i n this idx] grown_ok [OF ok disk k(1) i(2) free(1,2)] show ?thesis
    using new [of i] True k(1) i(2) free(1,2) by (simp add: ext2_append_data_def)
next
  case False
  then have "unat (e_size ino) < unat (e_len ino) * BLOCK_BYTES" using ok by (simp add: file_ok_def)
  with inside ext2_data_write_written [OF ok this n _ idx] room show ?thesis
    by (simp add: ext2_append_data_def room_to_append_def)
qed

lemma grown_disjoint:
  assumes ok: "file_ok rd ino" "file_ok rd other" and d: "disjoint_files ino other"
    and len: "unat (e_len ino) < 25" and i: "0 \<le> i" "i < 1024" "\<not> bit_at rd DMAP i"
  shows "disjoint_files (grown ino i) other"
proof -
  let ?w = "word_of_int i :: u32" and ?n = "unat (e_len ino)"
  have "uint ?w = i" using i by (simp add: uint_word_of_int)
  then have "?w \<notin> set (take (unat (e_len other)) (e_link other))"
    using ok(2) i(3) by (auto simp: file_ok_def in_set_conv_nth)
  moreover have "take (?n + 1) ((e_link ino)[?n := ?w]) = take ?n (e_link ino) @ [?w]"
    using ok(1) len by (simp add: file_ok_def take_Suc_conv_app_nth)
  moreover have "unat (e_len ino + 1) = ?n + 1" using grown_simps(3) [of ino i] len by (simp add: grown_def)
  ultimately show ?thesis using d by (auto simp: disjoint_files_def grown_def)
qed

lemma snd_written: "e_index (snd (written rd ino buf off)) = e_index ino" "e_len (snd (written rd ino buf off)) = e_len ino"
  "e_link (snd (written rd ino buf off)) = e_link ino" "e_dir_len (snd (written rd ino buf off)) = e_dir_len ino"
  "e_type (snd (written rd ino buf off)) = e_type ino" "rd_len (fst (written rd ino buf off)) = rd_len rd"
  by (simp_all add: written_def Let_def)

lemma append_content:
  assumes ok: "file_ok rd ino" and disk: "disk_ok rd" and room: "room_to_append rd ino (length buf)"
    and n: "0 < length buf" and idx: "unat (e_index ino) < 80"
  shows "\<exists>rd' ino'. ext2_append_data buf (rd, ino) = Inr (rd', ino') \<and> file_ok rd' ino' \<and> disk_ok rd' \<and>
    file_content rd' ino' = file_content rd ino @ buf \<and> e_index ino' = e_index ino \<and>
    (\<forall>other. file_ok rd other \<and> disjoint_files ino other \<longrightarrow>
       file_ok rd' other \<and> disjoint_files ino' other \<and> file_content rd' other = file_content rd other)"
proof -
  let ?off = "unat (e_size ino)"
  have fits: "?off mod BLOCK_BYTES + length buf \<le> BLOCK_BYTES" using room by (simp add: room_to_append_def)
  have splice: "take ?off (file_content rd ino) @ buf @ drop (?off + length buf) (file_content rd ino) = file_content rd ino @ buf"
    by simp
  show ?thesis
  proof (cases rule: append_cases [OF ok disk room n idx, case_names inside new])
    case inside
    note c = written_content [OF ok inside(2) order_refl fits idx] and b = written_bytes(3) [OF ok inside(2) fits idx]
    show ?thesis
      by (rule exI [of _ "fst (written rd ino buf ?off)"], rule exI [of _ "snd (written rd ino buf ?off)"])
        (use inside(1) c b splice disk in \<open>auto simp: snd_written disk_ok_def disjoint_files_def\<close>)
  next
    case (new i)
    let ?rd = "block_taken rd i" and ?ino = "grown ino i"
    have off: "?off < unat (e_len ?ino) * BLOCK_BYTES" "?off \<le> unat (e_size ?ino)" using new(2,3) by (simp_all add: BLOCK_BYTES_1024)
    have idx': "unat (e_index ?ino) < 80" using idx by simp
    note c = written_content [OF new(7) off fits idx'] and b = written_bytes(3) [OF new(7) off(1) fits idx']
    have same: "file_content ?rd ?ino = file_content rd ino" by (rule grown_content [OF ok new(3-5)])
    have other: "file_ok ?rd other \<and> disjoint_files ?ino other \<and> file_content ?rd other = file_content rd other"
      if "file_ok rd other" "disjoint_files ino other" for other
      using file_ok_taken [OF new(4) that(1)] grown_disjoint [OF ok that new(3-6)]
      by (simp add: file_content_def file_bytes_def byte_taken [OF new(4,5)])
    show ?thesis
      by (rule exI [of _ "fst (written ?rd ?ino buf ?off)"], rule exI [of _ "snd (written ?rd ?ino buf ?off)"])
        (use new(1) c b splice same other disk in \<open>auto simp: snd_written disk_ok_def disjoint_files_def\<close>)
  qed
qed

section \<open>Properties\<close>

text \<open>A disk with one file of one block, 600 bytes long, for the examples.\<close>

definition small_file :: ext2_inode where
  "small_file = \<lparr>e_index = 3, e_type = 0, e_permission = 11, e_size = 600, e_len = 1, e_id = 9,
     e_dir_len = 0, e_link_num = 1, e_link = 7 # replicate 24 0\<rparr>"

definition small_disk :: rd_t where
  "small_disk = \<lparr>rd_bytes = (\<lambda>a. if a = 1024 then 128 else 0), rd_len = 4194304\<rparr>"

lemma small_ok: "file_ok small_disk small_file" "disk_ok small_disk"
proof -
  have "bit_at small_disk DMAP 7"
    by (simp add: bit_at_def small_disk_def MAP_def BLOCK_def DMAP_def BLOCK_BYTES_1024 bit_simps)
  then show "file_ok small_disk small_file"
    by (simp add: file_ok_def small_file_def small_disk_def BLOCK_BYTES_1024 DATA_eq)
  show "disk_ok small_disk" by (simp add: disk_ok_def small_disk_def DATA_B_def ITABLE_def ITABLE_NUM_def BLOCK_BYTES_1024)
qed

text \<open>
  C19. Reading a sound file gives its bytes: a read that ends inside the file returns exactly the bytes
  of the range, over any number of blocks, and terminates.
\<close>

theorem data_read_exact:
  assumes "file_ok rd ino" and "off + n \<le> unat (e_size ino)"
  shows "ext2_data_read rd ino (int n) (int off) = Inr (take n (drop off (file_content rd ino)))"
  using ext2_data_read_bytes [OF assms] file_bytes_content [OF assms(2), of rd] by simp

lemma data_read_exact_witness: "\<exists>bs. ext2_data_read small_disk small_file 100 500 = Inr bs \<and> length bs = 100"
  using data_read_exact [OF small_ok(1), of 500 100] by (simp add: small_file_def)

text \<open>
  Writing inside one allocated block is a splice: the content of the file is the old one with the
  buffer at the offset, the file grows when the buffer ends behind it, the inode stays sound, and no
  other file changes.
\<close>

theorem data_write_splices:
  assumes "file_ok rd ino" and "off < unat (e_len ino) * BLOCK_BYTES" and "off \<le> unat (e_size ino)"
    and "0 < length buf" and "off mod BLOCK_BYTES + length buf \<le> BLOCK_BYTES" and "unat (e_index ino) < 80"
  shows "\<exists>rd' ino'. ext2_data_write buf off (rd, ino) = Inr (rd', ino') \<and> file_ok rd' ino' \<and>
    file_content rd' ino' = take off (file_content rd ino) @ buf @ drop (off + length buf) (file_content rd ino) \<and>
    (\<forall>other. file_ok rd other \<and> disjoint_files ino other \<longrightarrow> file_content rd' other = file_content rd other)"
  using ext2_data_write_written [OF assms(1,2,4-6)] written_content [OF assms(1-3,5,6)] by (cases "written rd ino buf off") auto

lemma data_write_splices_witness:
  "\<exists>rd' ino'. ext2_data_write [1, 2, 3] 599 (small_disk, small_file) = Inr (rd', ino') \<and>
     drop 599 (file_content rd' ino') = [1, 2, 3]"
  using data_write_splices [OF small_ok(1), of 599 "[1, 2, 3]"]
  by (auto simp: small_file_def BLOCK_BYTES_1024 min_def)

text \<open>
  C20. Appending with room in the last block, or with a free block when the last one is full, appends: the content
  is the old content followed by the buffer, and every other sound file keeps its content and its blocks.
\<close>

theorem append_data_appends:
  assumes "file_ok rd ino" and "disk_ok rd" and "room_to_append rd ino (length buf)"
    and "0 < length buf" and "unat (e_index ino) < 80"
  shows "\<exists>rd' ino'. ext2_append_data buf (rd, ino) = Inr (rd', ino') \<and> file_ok rd' ino' \<and>
    file_content rd' ino' = file_content rd ino @ buf \<and>
    (\<forall>other. file_ok rd other \<and> disjoint_files ino other \<longrightarrow>
       file_ok rd' other \<and> disjoint_files ino' other \<and> file_content rd' other = file_content rd other)"
  using append_content [OF assms] by blast

lemma append_data_appends_witness:
  "\<exists>rd' ino'. ext2_append_data [1, 2, 3] (small_disk, small_file) = Inr (rd', ino') \<and>
     drop 600 (file_content rd' ino') = [1, 2, 3]"
  using append_data_appends [OF small_ok, of "[1, 2, 3]"]
  by (auto simp: small_file_def BLOCK_BYTES_1024 room_to_append_def)

text \<open>
  The second piece of a write that crosses the end of a block goes to the place of the first, since the
  loop does not move the offset.
\<close>

lemma data_write_loop_clobbers:
  assumes ok: "file_ok rd ino" and off: "off < unat (e_len ino) * BLOCK_BYTES"
    and k: "k = BLOCK_BYTES - off mod BLOCK_BYTES" "k < length buf" "length buf \<le> 2 * k"
  shows "data_write_loop rd ino buf (length buf) 0 (unat (e_len ino)) off True =
    Inr (disk_put (disk_put rd (data_pos ino off) (take k buf)) (data_pos ino off) (drop k buf), ino)"
proof -
  let ?b = "e_link ino ! (off div BLOCK_BYTES)"
  have b: "OFFSET_BLOCK ino (int off) = Inr ?b" "off div BLOCK_BYTES < unat (e_len ino)"
    using OFFSET_BLOCK_ok [OF off ok] by auto
  then have room: "DATA ?b + int BLOCK_BYTES \<le> int (rd_len rd)" using ok by (simp add: file_ok_def)
  have rem: "off mod BLOCK_BYTES < BLOCK_BYTES" by (simp add: BLOCK_BYTES_1024)
  have pos: "DATA ?b + OFFSET_REMAIN (int off) = int (data_pos ino off)"
    by (simp add: OFFSET_REMAIN_def data_pos_eq DATA_eq zmod_int BLOCK_BYTES_1024)
  have fit: "data_pos ino off + k \<le> rd_len rd"
    using room pos rem unfolding k(1) by (simp add: OFFSET_REMAIN_def flip: zmod_int)
  let ?rd1 = "disk_put rd (data_pos ino off) (take k buf)"
  have w1: "rd_write rd (DATA ?b + OFFSET_REMAIN (int off)) (take k buf) = Inr ?rd1"
    unfolding pos by (rule rd_write_put) (use fit k(2) in simp)
  have w2: "rd_write ?rd1 (DATA ?b + OFFSET_REMAIN (int off)) (drop k buf) = Inr (disk_put ?rd1 (data_pos ino off) (drop k buf))"
    unfolding pos by (rule rd_write_put) (use fit k(2,3) in simp)
  have k0: "0 < k" "k \<le> BLOCK_BYTES" using rem k(1) by simp_all
  have m1: "min (BLOCK_BYTES - off mod BLOCK_BYTES) (length buf) = k" using k by simp
  have m2: "min BLOCK_BYTES (length buf - k) = length buf - k" using k k0 by simp
  have second: "data_write_loop ?rd1 ino buf (length buf - k) k (unat (e_len ino)) off False =
    Inr (disk_put ?rd1 (data_pos ino off) (drop k buf), ino)"
    using b off k(2) w2 by (subst data_write_loop.simps) (simp add: Let_def m2 data_write_loop.simps [where bytes = 0])
  show ?thesis
    using b off k(2) w1 second by (subst data_write_loop.simps) (simp add: Let_def m1 del: One_nat_def)
qed

text \<open>
  A write that crosses the end of a block corrupts the file: with \<open>k\<close> bytes left in the block, the bytes
  of the buffer from \<open>k\<close> on overwrite the first ones, at the offset where the write began; yet the call
  succeeds and counts all bytes in the size.
\<close>

theorem data_write_clobbers:
  assumes "file_ok rd ino" and "off < unat (e_len ino) * BLOCK_BYTES" and "unat (e_index ino) < 80"
    and "k = BLOCK_BYTES - off mod BLOCK_BYTES" and "k < length buf" and "length buf \<le> 2 * k"
  shows "\<exists>rd' ino'. ext2_data_write buf off (rd, ino) = Inr (rd', ino') \<and>
    file_bytes rd' ino' off k = drop k buf @ drop (length buf - k) (take k buf) \<and>
    (unat (e_size ino) < off + length buf \<longrightarrow> e_size ino' = of_nat (off + length buf))"
proof -
  let ?rd1 = "disk_put (disk_put rd (data_pos ino off) (take k buf)) (data_pos ino off) (drop k buf)"
  let ?ino1 = "ino\<lparr>e_size := of_nat (off + length buf)\<rparr>" and ?p = "2 * BLOCK_BYTES + unat (e_index ino) * 128"
  have rem: "off mod BLOCK_BYTES < BLOCK_BYTES" by (simp add: BLOCK_BYTES_1024)
  have in_block: "file_bytes rd' ino' off k = window (rd_bytes rd') (data_pos ino off) k"
    if "e_link ino' = e_link ino" for rd' ino'
    using file_bytes_block [of off k rd' ino'] that rem assms(4) by (simp add: data_pos_def)
  have data: "window (rd_bytes ?rd1) (data_pos ino off) k = drop k buf @ drop (length buf - k) (take k buf)"
    using assms(5,6) by (intro nth_equalityI) (auto simp: overlay_def nth_append)
  have len: "length (inode_bytes ?ino1) = 128" using assms(1) by (simp add: length_inode_bytes file_ok_def)
  have "13 * BLOCK_BYTES \<le> rd_len rd" by (rule file_ok_disk [OF assms(1)]) (use assms(2) in \<open>cases "unat (e_len ino)"; simp\<close>)
  then have "?p + length (inode_bytes ?ino1) \<le> rd_len ?rd1" using len assms(3) by (simp add: BLOCK_BYTES_1024)
  from rd_write_put [OF this]
  have put: "rd_write ?rd1 (TABLE (uint (e_index ?ino1))) (inode_bytes ?ino1) = Inr (disk_put ?rd1 ?p (inode_bytes ?ino1))"
    by (simp only: TABLE_eq) simp
  have below: "?p + length (inode_bytes ?ino1) \<le> data_pos ino off"
    using len assms(3) data_pos_ge [of ino off] by (simp add: BLOCK_BYTES_1024)
  then have keep: "window (rd_bytes (disk_put ?rd1 ?p (inode_bytes ?ino1))) (data_pos ino off) k = window (rd_bytes ?rd1) (data_pos ino off) k"
    unfolding disk_put_simps by (intro window_overlay_disjoint) simp
  show ?thesis
  proof (cases "unat (e_size ino) < off + length buf")
    case True
    then have "ext2_data_write buf off (rd, ino) = Inr (disk_put ?rd1 ?p (inode_bytes ?ino1), ?ino1)"
      using data_write_loop_clobbers [OF assms(1,2,4-6)] put by (simp add: ext2_data_write_def Let_def)
    then show ?thesis using in_block [of ?ino1] keep data by fastforce
  next
    case False
    then have "ext2_data_write buf off (rd, ino) = Inr (?rd1, ino)"
      using data_write_loop_clobbers [OF assms(1,2,4-6)] by (simp add: ext2_data_write_def Let_def)
    then show ?thesis using in_block [of ino] data False by fastforce
  qed
qed

lemma data_write_clobbers_witness:
  "\<exists>rd' ino'. ext2_data_write [1, 2, 3] 1022 (small_disk, small_file) = Inr (rd', ino') \<and>
     file_bytes rd' ino' 1022 2 = [3, 2]"
proof -
  have h: "1022 < unat (e_len small_file) * BLOCK_BYTES" "unat (e_index small_file) < 80"
    "2 = BLOCK_BYTES - 1022 mod BLOCK_BYTES" "2 < length [1, 2, 3 :: u8]" "length [1, 2, 3 :: u8] \<le> 2 * 2"
    by (simp_all add: small_file_def BLOCK_BYTES_1024)
  from data_write_clobbers [OF small_ok(1) h]
  obtain rd' ino' where "ext2_data_write [1, 2, 3] 1022 (small_disk, small_file) = Inr (rd', ino')"
    "file_bytes rd' ino' 1022 2 = drop 2 [1, 2, 3] @ drop (length [1, 2, 3 :: u8] - 2) (take 2 [1, 2, 3])" by blast
  then show ?thesis by (intro exI [of _ rd'] exI [of _ ino']) simp
qed

end
