(* ===== verification/Ext2_Dir.thy ===== *)
theory Ext2_Dir imports Ext2_File begin

text \<open>
  Directories as lists of entries: lookup returns the first live entry with the name, creating an entry
  appends one, removing marks one as free; and the lookup of paths.
\<close>

section \<open>The entries of a directory\<close>

type_synonym named_entry = "dir_entry \<times> string"

definition entry_image :: "named_entry \<Rightarrow> u8 list" where
  "entry_image e = entry_bytes (fst e) @ name_bytes (snd e)"

definition dir_image :: "named_entry list \<Rightarrow> u8 list" where
  "dir_image es = concat (map entry_image es)"

definition entry_ok :: "named_entry \<Rightarrow> bool" where
  "entry_ok e \<longleftrightarrow> CHR 0x00 \<notin> set (snd e) \<and> unat (d_name_len (fst e)) = length (snd e) + 1 \<and>
     unat (d_rec_len (fst e)) = length (snd e) + 17"

text \<open>What a lookup should return.\<close>

definition live_entry :: "string \<Rightarrow> named_entry \<Rightarrow> bool" where
  "live_entry name e \<longleftrightarrow> d_file_type (fst e) \<noteq> XX \<and> snd e = name"

fun find_live :: "string \<Rightarrow> named_entry list \<Rightarrow> int" where
  "find_live name [] = -1"
| "find_live name (e # es) = (if live_entry name e then sint (d_inode (fst e)) else find_live name es)"

lemma length_entry_bytes [simp]: "length (entry_bytes d) = 16"
  by (simp add: entry_bytes_def)

lemma length_name_bytes [simp]: "length (name_bytes s) = length s + 1"
  by (simp add: name_bytes_def)

lemma dir_image_simps [simp]:
  "dir_image [] = []" "dir_image (e # es) = entry_image e @ dir_image es" "dir_image (xs @ ys) = dir_image xs @ dir_image ys"
  by (simp_all add: dir_image_def)

lemma length_entry_image [simp]: "length (entry_image e) = length (snd e) + 17"
  by (simp add: entry_image_def)

lemma entry_of_bytes_image [simp]: "entry_of_bytes (entry_bytes d @ bs) = d"
proof -
  have "of_words32 4 (entry_bytes d @ bs) = [d_inode d, d_rec_len d, d_name_len d, d_file_type d]"
    using of_words32_words32 [of "[d_inode d, d_rec_len d, d_name_len d, d_file_type d]" bs]
    by (simp add: entry_bytes_def numeral_eq_Suc)
  then show ?thesis by (simp add: entry_of_bytes_def)
qed

lemma entry_of_bytes_only [simp]: "entry_of_bytes (entry_bytes d) = d"
  using entry_of_bytes_image [of d "[]"] by simp

lemma char_byte: "char_of (unat (of_char c :: u8)) = c"
proof -
  have "(of_char c :: u8) = of_nat (of_char c)" by (simp only: of_nat_of_char)
  then have "unat (of_char c :: u8) = of_char c"
    by (simp only: unat_of_nat) (simp add: nat_of_char_less_256)
  then show ?thesis by simp
qed

lemma c_str_name_bytes: "CHR 0x00 \<notin> set s \<Longrightarrow> c_str (name_bytes s) = Inr s"
proof -
  assume nul: "CHR 0x00 \<notin> set s"
  have nz: "of_char c \<noteq> (0 :: u8)" if "c \<in> set s" for c
  proof
    assume "of_char c = (0 :: u8)"
    with char_byte [of c] have "c = char_of (0 :: nat)" by simp
    then have "c = CHR 0x00" by (simp add: char_of_def)
    with that nul show False by simp
  qed
  have "takeWhile (\<lambda>b. b \<noteq> 0) (map of_char s @ [0 :: u8]) = map of_char s"
    by (subst takeWhile_append2) (use nz in auto)
  then show ?thesis by (simp add: c_str_def name_bytes_def char_byte comp_def map_idI)
qed

section \<open>Lookup\<close>

lemma file_bytes_middle:
  "file_content rd ino = xs @ ys @ zs \<Longrightarrow> file_bytes rd ino (length xs) (length ys) = ys"
proof -
  assume c: "file_content rd ino = xs @ ys @ zs"
  then have "unat (e_size ino) = length xs + length ys + length zs" by (metis length_append length_file_content add.assoc)
  then show ?thesis using file_bytes_content [of "length xs" "length ys" ino rd] c by simp
qed

lemma read_middle:
  "file_ok rd ino \<Longrightarrow> file_content rd ino = xs @ ys @ zs \<Longrightarrow>
     ext2_data_read rd ino (int (length ys)) (int (length xs)) = Inr ys"
proof -
  assume ok: "file_ok rd ino" and c: "file_content rd ino = xs @ ys @ zs"
  then have "length xs + length ys \<le> unat (e_size ino)" by (metis length_append length_file_content add.assoc le_add1)
  from ext2_data_read_bytes [OF ok this] file_bytes_middle [OF c] show ?thesis by simp
qed

lemma dir_lookup_loop_entries:
  "file_ok rd ino \<Longrightarrow> \<forall>e \<in> set es. entry_ok e \<Longrightarrow> file_content rd ino = pre @ dir_image es \<Longrightarrow>
     dir_lookup_loop rd ino name (int (length pre)) = Some (Inr (find_live name es))"
proof (induction es arbitrary: pre)
  case Nil
  then have "unat (e_size ino) = length pre" by (metis append_Nil2 dir_image_simps(1) length_file_content)
  then have "\<not> int (length pre) < uint (e_size ino)" by (metis less_irrefl uint_nat)
  then show ?case by (subst dir_lookup_loop.simps) simp
next
  case (Cons e es)
  obtain d nm where e: "e = (d, nm)" by (cases e)
  have ent: "CHR 0x00 \<notin> set nm" "uint (d_name_len d) = int (length nm + 1)" "uint (d_rec_len d) = int (length nm + 17)"
    using Cons.prems(2) e by (simp_all add: entry_ok_def uint_nat del: of_nat_unat)
  have c: "file_content rd ino = pre @ entry_bytes d @ (name_bytes nm @ dir_image es)"
    "file_content rd ino = (pre @ entry_bytes d) @ name_bytes nm @ dir_image es"
    "file_content rd ino = (pre @ entry_image e) @ dir_image es"
    using Cons.prems(3) e by (simp_all add: entry_image_def)
  have "unat (e_size ino) = length pre + 16 + (length nm + 1) + length (dir_image es)"
    using arg_cong [OF c(1), of length] by simp
  then have inside: "int (length pre) < uint (e_size ino)" by (simp add: uint_nat del: of_nat_unat)
  have head: "ext2_data_read rd ino 16 (int (length pre)) = Inr (entry_bytes d)"
    using read_middle [OF Cons.prems(1) c(1)] by simp
  have name: "ext2_data_read rd ino (uint (d_name_len d)) (int (length pre) + 16) = Inr (name_bytes nm)"
    using read_middle [OF Cons.prems(1) c(2)] ent(2) by (simp add: add.commute)
  have "dir_lookup_loop rd ino name (int (length (pre @ entry_image e))) = Some (Inr (find_live name es))"
    by (rule Cons.IH [OF Cons.prems(1) _ c(3)]) (use Cons.prems(2) in simp)
  then have rest: "dir_lookup_loop rd ino name (int (length pre) + uint (d_rec_len d)) = Some (Inr (find_live name es))"
    using ent(3) e by simp
  show ?case
    using inside head name rest c_str_name_bytes [OF ent(1)] e
    by (subst dir_lookup_loop.simps) (auto simp: live_entry_def Let_def)
qed

lemma ext2_dir_lookup_entries:
  assumes "file_ok rd ino" and "\<forall>e \<in> set es. entry_ok e" and "file_content rd ino = dir_image es"
  shows "ext2_dir_lookup rd ino name = Inr (find_live name es)"
  using dir_lookup_loop_entries [OF assms(1,2), of "[]" name] assms(3) by (simp add: ext2_dir_lookup_def)

section \<open>Creating an entry\<close>

definition new_entry :: "u32 \<Rightarrow> string \<Rightarrow> u32 \<Rightarrow> named_entry" where
  "new_entry i nm type = (\<lparr>d_inode = i, d_rec_len = 16 + (of_nat (length nm) + 1),
     d_name_len = of_nat (length nm) + 1, d_file_type = type\<rparr>, nm)"

lemma new_entry_ok: "CHR 0x00 \<notin> set nm \<Longrightarrow> length nm < 1024 \<Longrightarrow> entry_ok (new_entry i nm type)"
proof -
  assume nul: "CHR 0x00 \<notin> set nm" and len: "length nm < 1024"
  have "unat (of_nat (length nm + 1) :: u32) = length nm + 1" "unat (of_nat (length nm + 17) :: u32) = length nm + 17"
    by (rule unat_size, use len in \<open>simp add: BLOCK_BYTES_1024\<close>)+
  then show ?thesis using nul by (simp add: entry_ok_def new_entry_def add.commute)
qed

lemma dir_len_irrelevant [simp]:
  "file_ok rd (ino\<lparr>e_dir_len := x\<rparr>) = file_ok rd ino" "file_content rd (ino\<lparr>e_dir_len := x\<rparr>) = file_content rd ino"
  "room_to_append rd (ino\<lparr>e_dir_len := x\<rparr>) n = room_to_append rd ino n"
  "disjoint_files (ino\<lparr>e_dir_len := x\<rparr>) other = disjoint_files ino other"
  by (simp_all add: file_ok_def file_content_def file_bytes_def data_pos_def room_to_append_def disjoint_files_def)

lemma room_after:
  assumes ok: "file_ok rd' ino'" and size: "unat (e_size ino') = s + m" and fits: "s mod BLOCK_BYTES + (m + n) \<le> BLOCK_BYTES"
    and pos: "0 < m" "0 < n"
  shows "room_to_append rd' ino' n"
proof -
  have "s mod BLOCK_BYTES + m < BLOCK_BYTES" using fits pos by simp
  from div_mod_add [OF this] have m: "unat (e_size ino') mod BLOCK_BYTES = s mod BLOCK_BYTES + m" using size by simp
  then have "unat (e_size ino') \<noteq> unat (e_len ino') * BLOCK_BYTES" using pos by auto
  then show ?thesis using m fits by (simp add: room_to_append_def)
qed

lemma create_entry_content:
  assumes ok: "file_ok rd ino" and disk: "disk_ok rd" and idx: "unat (e_index ino) < 80"
    and room: "room_to_append rd ino (length nm + 17)"
  shows "\<exists>rd' ino'. ext2_create_entry i nm type (rd, ino) = Inr (rd', ino') \<and> file_ok rd' ino' \<and> disk_ok rd' \<and>
    file_content rd' ino' = file_content rd ino @ entry_image (new_entry i nm type) \<and> e_index ino' = e_index ino \<and>
    (\<forall>other. file_ok rd other \<and> disjoint_files ino other \<longrightarrow>
       file_ok rd' other \<and> disjoint_files ino' other \<and> file_content rd' other = file_content rd other)"
proof -
  let ?ino1 = "ino\<lparr>e_dir_len := e_dir_len ino + 1\<rparr>" and ?d = "fst (new_entry i nm type)"
  have r: "room_to_append rd ino 16" using room by (simp add: room_to_append_def)
  obtain rd1 ino1 where one: "ext2_append_data (entry_bytes ?d) (rd, ?ino1) = Inr (rd1, ino1)" "file_ok rd1 ino1" "disk_ok rd1"
    "file_content rd1 ino1 = file_content rd ino @ entry_bytes ?d" "e_index ino1 = e_index ino"
    "\<forall>other. file_ok rd other \<and> disjoint_files ino other \<longrightarrow>
       file_ok rd1 other \<and> disjoint_files ino1 other \<and> file_content rd1 other = file_content rd other"
    using append_content [of rd ?ino1 "entry_bytes ?d"] ok disk r idx by auto
  have "unat (e_size ino1) = unat (e_size ino) + 16" using arg_cong [OF one(4), of length] by simp
  then have "room_to_append rd1 ino1 (length nm + 1)"
    by (rule room_after [OF one(2)]) (use room in \<open>simp_all add: room_to_append_def\<close>)
  then obtain rd2 ino2 where two: "ext2_append_data (name_bytes nm) (rd1, ino1) = Inr (rd2, ino2)" "file_ok rd2 ino2" "disk_ok rd2"
    "file_content rd2 ino2 = file_content rd1 ino1 @ name_bytes nm" "e_index ino2 = e_index ino1"
    "\<forall>other. file_ok rd1 other \<and> disjoint_files ino1 other \<longrightarrow>
       file_ok rd2 other \<and> disjoint_files ino2 other \<and> file_content rd2 other = file_content rd1 other"
    using append_content [OF one(2,3), of "name_bytes nm"] idx one(5) by auto
  have "ext2_create_entry i nm type (rd, ino) = Inr (rd2, ino2)"
    using one(1) two(1) by (simp add: ext2_create_entry_def new_entry_def Let_def)
  moreover have "file_content rd2 ino2 = file_content rd ino @ entry_image (new_entry i nm type)"
    using one(4) two(4) by (simp add: entry_image_def new_entry_def)
  ultimately show ?thesis using one(5,6) two(2,3,5,6) by auto
qed

lemma find_live_append:
  "find_live name (es @ [e]) = (if \<exists>x \<in> set es. live_entry name x then find_live name es
     else if live_entry name e then sint (d_inode (fst e)) else -1)"
  by (induction es) auto

lemma find_live_none: "\<not> (\<exists>x \<in> set es. live_entry name x) \<Longrightarrow> find_live name es = -1"
  by (induction es) auto

section \<open>Paths\<close>

text \<open>The components of a path.\<close>

definition component :: "string \<Rightarrow> bool" where
  "component c \<longleftrightarrow> c \<noteq> [] \<and> CHR ''/'' \<notin> set c"

lemma inode_lookup_step:
  "inode_lookup_loop rd ino (Some p) = (if p = [] then Inr (Some ino) else
     bindr (ext2_dir_lookup rd ino (the (rootdir (Some p)))) (\<lambda>i.
       if i \<ge> 0 then bindr (rd_read rd (TABLE i) (int INODE_BYTES)) (\<lambda>bs.
         inode_lookup_loop rd (inode_of_bytes bs) (postname (Some p)))
       else Inr None))"
  by (subst inode_lookup_loop.simps) (auto simp: rootdir_def)

lemma strip_component: "component n \<Longrightarrow> strip (r @ n) = r @ n"
proof -
  assume n: "component n"
  then have "last n \<noteq> CHR ''/''" by (metis component_def last_in_set)
  then have "(r @ n) ! (length (r @ n) - 1) \<noteq> CHR ''/''"
    using n by (metis append_is_Nil_conv component_def last_appendR last_conv_nth)
  then show ?thesis by (simp add: strip_def Let_def)
qed

text \<open>The inode a directory entry names.\<close>

definition child_inode :: "rd_t \<Rightarrow> ext2_inode \<Rightarrow> string \<Rightarrow> ext2_inode option result" where
  "child_inode rd dir c = bindr (ext2_dir_lookup rd dir c) (\<lambda>i.
     if i \<ge> 0 then bindr (rd_read rd (TABLE i) (int INODE_BYTES)) (\<lambda>bs. Inr (Some (inode_of_bytes bs))) else Inr None)"

definition root_inode :: "rd_t \<Rightarrow> ext2_inode result" where
  "root_inode rd = bindr (rd_read rd (TABLE 0) (int INODE_BYTES)) (\<lambda>bs. Inr (inode_of_bytes bs))"

lemma lookup_last: "component n \<Longrightarrow> inode_lookup_loop rd ino (Some n) = child_inode rd ino n"
  by (simp add: inode_lookup_step child_inode_def component_def rootdir_last postname_last cong: if_cong)

lemma lookup_first:
  "component d \<Longrightarrow> component n \<Longrightarrow> rest = n \<or> (\<exists>m. rest = m @ CHR ''/'' # n) \<Longrightarrow>
     inode_lookup_loop rd ino (Some (d @ CHR ''/'' # rest)) =
       bindr (child_inode rd ino d) (\<lambda>x. case x of None \<Rightarrow> Inr None | Some dir \<Rightarrow> child_inode rd dir n)"
proof -
  assume d: "component d" and n: "component n" and rest: "rest = n \<or> (\<exists>m. rest = m @ CHR ''/'' # n)"
  have "postname (Some (d @ CHR ''/'' # rest)) = Some n"
    using rest postname_component [of n d] postname_component [of n "d @ CHR ''/'' # _"] n
    by (auto simp: component_def)
  then have "inode_lookup_loop rd ino (Some (d @ CHR ''/'' # rest)) =
    bindr (ext2_dir_lookup rd ino d) (\<lambda>i. if i \<ge> 0
      then bindr (rd_read rd (TABLE i) (int INODE_BYTES)) (\<lambda>bs. child_inode rd (inode_of_bytes bs) n) else Inr None)"
    using d n by (subst inode_lookup_step) (simp add: component_def rootdir_component lookup_last cong: if_cong)
  then show ?thesis
    unfolding child_inode_def [of rd ino d]
    by (cases "ext2_dir_lookup rd ino d") (auto simp: bindr_assoc)
qed

lemma ext2_inode_lookup_root:
  "component n \<Longrightarrow> ext2_inode_lookup rd (Some (r @ n)) =
     bindr (root_inode rd) (\<lambda>root. inode_lookup_loop rd root (Some (r @ n)))"
  by (simp add: ext2_inode_lookup_def root_inode_def strip_component bindr_assoc)

section \<open>Removing an entry\<close>

text \<open>The first live entry that names the inode is marked as free.\<close>

fun mark_removed :: "int \<Rightarrow> named_entry list \<Rightarrow> named_entry list" where
  "mark_removed i [] = []"
| "mark_removed i ((d, nm) # es) =
     (if uint (d_inode d) = i \<and> d_file_type d \<noteq> XX then (d\<lparr>d_file_type := XX\<rparr>, nm) # es else (d, nm) # mark_removed i es)"

definition names_inode :: "int \<Rightarrow> named_entry \<Rightarrow> bool" where
  "names_inode i e \<longleftrightarrow> uint (d_inode (fst e)) = i \<and> d_file_type (fst e) \<noteq> XX"

lemma names_inode_split:
  "\<exists>e \<in> set es. names_inode i e \<Longrightarrow> \<exists>pre d nm post. es = pre @ (d, nm) # post \<and> names_inode i (d, nm) \<and>
     \<not> (\<exists>e \<in> set pre. names_inode i e) \<and> mark_removed i es = pre @ (d\<lparr>d_file_type := XX\<rparr>, nm) # post"
proof (induction es)
  case (Cons e es)
  obtain d nm where e: "e = (d, nm)" by (cases e)
  show ?case
  proof (cases "names_inode i e")
    case True
    then show ?thesis
      by (intro exI [of _ "[]"] exI [of _ d] exI [of _ nm] exI [of _ es]) (simp add: e names_inode_def)
  next
    case False
    with Cons obtain pre d' nm' post where *: "es = pre @ (d', nm') # post" "names_inode i (d', nm')"
      "\<not> (\<exists>e \<in> set pre. names_inode i e)" "mark_removed i es = pre @ (d'\<lparr>d_file_type := XX\<rparr>, nm') # post" by auto
    show ?thesis
      by (intro exI [of _ "e # pre"] exI [of _ d'] exI [of _ nm'] exI [of _ post])
        (use * False e in \<open>auto simp: names_inode_def\<close>)
  qed
qed simp

lemma dir_remove_loop_finds:
  "file_ok rd ino \<Longrightarrow> unat (e_size ino) \<le> BLOCK_BYTES \<Longrightarrow> \<forall>e \<in> set mid. entry_ok e \<and> \<not> names_inode i e \<Longrightarrow>
     names_inode i (d, nm) \<Longrightarrow> file_content rd ino = pre @ dir_image (mid @ (d, nm) # post) \<Longrightarrow>
     dir_remove_loop rd ino i (int (length pre)) cur =
       Some (Inr (int (length pre + length (dir_image mid)), Some (d\<lparr>d_file_type := XX\<rparr>)))"
proof (induction mid arbitrary: pre cur)
  case Nil
  have c: "file_content rd ino = pre @ entry_bytes d @ (name_bytes nm @ dir_image post)"
    using Nil.prems(5) by (simp add: entry_image_def)
  have size: "unat (e_size ino) = length pre + 16 + (length nm + 1) + length (dir_image post)"
    using arg_cong [OF c, of length] by simp
  then have off: "length pre < unat (e_len ino) * BLOCK_BYTES" "length pre mod BLOCK_BYTES + 16 \<le> BLOCK_BYTES"
    using Nil.prems(1,2) by (simp_all add: file_ok_def)
  have read: "read_at rd ino (int (length pre)) 16 = Inr (entry_bytes d)"
    using read_at_block [OF Nil.prems(1) off] file_bytes_middle [OF c] by simp
  have "int (length pre) < uint (e_size ino)" using size by (simp add: uint_nat del: of_nat_unat)
  with read Nil.prems(4) show ?case
    by (subst dir_remove_loop.simps) (simp add: names_inode_def Let_def)
next
  case (Cons e mid)
  obtain d1 nm1 where e: "e = (d1, nm1)" by (cases e)
  have c: "file_content rd ino = pre @ entry_bytes d1 @ (name_bytes nm1 @ dir_image (mid @ (d, nm) # post))"
    "file_content rd ino = (pre @ entry_image e) @ dir_image (mid @ (d, nm) # post)"
    using Cons.prems(5) e by (simp_all add: entry_image_def)
  have size: "unat (e_size ino) \<ge> length pre + 16 + (length nm1 + 1)"
    using arg_cong [OF c(1), of length] by simp
  then have off: "length pre < unat (e_len ino) * BLOCK_BYTES" "length pre mod BLOCK_BYTES + 16 \<le> BLOCK_BYTES"
    using Cons.prems(1,2) by (simp_all add: file_ok_def)
  have read: "read_at rd ino (int (length pre)) 16 = Inr (entry_bytes d1)"
    using read_at_block [OF Cons.prems(1) off] file_bytes_middle [OF c(1)] by simp
  have inside: "int (length pre) < uint (e_size ino)" using size by (simp add: uint_nat del: of_nat_unat)
  have rec: "uint (d_rec_len d1) = int (length nm1 + 17)" and no: "\<not> names_inode i (d1, nm1)"
    using Cons.prems(3) e by (simp_all add: entry_ok_def uint_nat del: of_nat_unat)
  have "dir_remove_loop rd ino i (int (length (pre @ entry_image e))) (Some d1) =
    Some (Inr (int (length (pre @ entry_image e) + length (dir_image mid)), Some (d\<lparr>d_file_type := XX\<rparr>)))"
    by (rule Cons.IH [OF Cons.prems(1,2) _ Cons.prems(4) c(2)]) (use Cons.prems(3) in simp)
  with read inside no rec e show ?case
    by (subst dir_remove_loop.simps) (auto simp: names_inode_def Let_def add.assoc)
qed

lemma disk_put_content:
  assumes ok: "file_ok rd ino" and off: "off + length buf \<le> unat (e_size ino)"
    and fits: "off mod BLOCK_BYTES + length buf \<le> BLOCK_BYTES" and pos: "0 < length buf"
  shows "file_content (disk_put rd (data_pos ino off) buf) ino =
    take off (file_content rd ino) @ buf @ drop (off + length buf) (file_content rd ino)"
proof -
  have size: "unat (e_size ino) \<le> unat (e_len ino) * BLOCK_BYTES" using ok by (simp add: file_ok_def)
  then have o: "off < unat (e_len ino) * BLOCK_BYTES" using off pos by linarith
  have byte: "rd_bytes (disk_put rd (data_pos ino off) buf) (data_pos ino k) =
    (if off \<le> k \<and> k < off + length buf then buf ! (k - off) else rd_bytes rd (data_pos ino k))"
    if "k < unat (e_size ino)" for k
    by (rule byte_after_put [OF ok o _ fits]) (use that size in linarith)
  show ?thesis
    by (rule nth_equalityI)
      (use off byte in \<open>auto simp del: disk_put_simps simp: file_content_def file_bytes_def nth_append\<close>)
qed

lemma table_put_content:
  assumes "length (e_link ino') = 25" and "unat (e_index ino') < 80"
  shows "file_content (disk_put rd (2 * BLOCK_BYTES + unat (e_index ino') * 128) (inode_bytes ino')) ino = file_content rd ino"
proof -
  have "2 * BLOCK_BYTES + unat (e_index ino') * 128 + length (inode_bytes ino') \<le> 12 * BLOCK_BYTES"
    using assms by (simp add: length_inode_bytes BLOCK_BYTES_1024)
  from byte_after_table_put [OF this] show ?thesis
    by (simp del: disk_put_simps add: file_content_def file_bytes_def)
qed

lemma table_write:
  assumes "file_ok rd ino" and "0 < unat (e_len ino)" and "unat (e_index ino') < 80" and "length (e_link ino') = 25"
  shows "rd_write rd (TABLE (uint (e_index ino'))) (inode_bytes ino') =
    Inr (disk_put rd (2 * BLOCK_BYTES + unat (e_index ino') * 128) (inode_bytes ino'))"
proof -
  have "2 * BLOCK_BYTES + unat (e_index ino') * 128 + length (inode_bytes ino') \<le> rd_len rd"
    using file_ok_disk [OF assms(1,2)] assms(3,4) by (simp add: length_inode_bytes BLOCK_BYTES_1024)
  from rd_write_put [OF this] show ?thesis by (simp only: TABLE_eq)
qed

lemma dir_remove_marks:
  assumes ok: "file_ok rd ino" and size: "unat (e_size ino) \<le> BLOCK_BYTES" and idx: "unat (e_index ino) < 80"
    and es: "\<forall>e \<in> set es. entry_ok e" and c: "file_content rd ino = dir_image es"
    and there: "\<exists>e \<in> set es. names_inode i e"
  shows "\<exists>rd' ino'. ext2_dir_remove i (rd, ino) = Inr (rd', ino') \<and> file_ok rd' ino' \<and>
    file_content rd' ino' = dir_image (mark_removed i es) \<and> e_dir_len ino' = e_dir_len ino - 1"
proof -
  obtain pre d nm post where split: "es = pre @ (d, nm) # post" "names_inode i (d, nm)"
    "\<not> (\<exists>e \<in> set pre. names_inode i e)" "mark_removed i es = pre @ (d\<lparr>d_file_type := XX\<rparr>, nm) # post"
    using names_inode_split [OF there] by blast
  let ?off = "length (dir_image pre)" and ?d = "d\<lparr>d_file_type := XX\<rparr>" and ?ino = "ino\<lparr>e_dir_len := e_dir_len ino - 1\<rparr>"
  have loop: "dir_remove_loop rd ino i 0 None = Some (Inr (int ?off, Some ?d))"
    using dir_remove_loop_finds [OF ok size, of pre i d nm "[]" post None] split es c by auto
  have total: "unat (e_size ino) = ?off + 16 + (length nm + 1) + length (dir_image post)"
    using arg_cong [OF c, of length] split(1) by simp
  then have off: "?off + length (entry_bytes ?d) \<le> unat (e_size ino)" "?off mod BLOCK_BYTES + length (entry_bytes ?d) \<le> BLOCK_BYTES"
    using size by simp_all
  then have o: "?off < unat (e_len ino) * BLOCK_BYTES" using ok by (simp add: file_ok_def)
  have block: "OFFSET_BLOCK ino (int ?off) = Inr (e_link ino ! (?off div BLOCK_BYTES))" "?off div BLOCK_BYTES < unat (e_len ino)"
    using OFFSET_BLOCK_ok [OF o ok] by auto
  have pos: "DATA (e_link ino ! (?off div BLOCK_BYTES)) + OFFSET_REMAIN (int ?off) = int (data_pos ino ?off)"
    by (simp add: OFFSET_REMAIN_def data_pos_eq DATA_eq zmod_int BLOCK_BYTES_1024)
  let ?rd1 = "disk_put rd (data_pos ino ?off) (entry_bytes ?d)"
  have "DATA (e_link ino ! (?off div BLOCK_BYTES)) + int BLOCK_BYTES \<le> int (rd_len rd)" using ok block(2) by (simp add: file_ok_def)
  then have "data_pos ino ?off + length (entry_bytes ?d) \<le> rd_len rd"
    using off(2) pos by (simp add: OFFSET_REMAIN_def flip: zmod_int)
  from rd_write_put [OF this]
  have put: "rd_write rd (DATA (e_link ino ! (?off div BLOCK_BYTES)) + OFFSET_REMAIN (int ?off)) (entry_bytes ?d) = Inr ?rd1"
    unfolding pos .
  have two: "2 * BLOCK_BYTES \<le> data_pos ino ?off" using data_pos_ge [of ino ?off] by linarith
  then have ok1: "file_ok ?rd1 ino" using ok file_ok_put by blast
  have "0 < unat (e_len ino)" using block(2) by linarith
  from table_write [OF ok1 this, of ?ino]
  have table: "rd_write ?rd1 (TABLE (uint (e_index ?ino))) (inode_bytes ?ino) =
    Inr (disk_put ?rd1 (2 * BLOCK_BYTES + unat (e_index ?ino) * 128) (inode_bytes ?ino))"
    using idx ok by (simp add: file_ok_def)
  let ?rd2 = "disk_put ?rd1 (2 * BLOCK_BYTES + unat (e_index ?ino) * 128) (inode_bytes ?ino)"
  have run: "ext2_dir_remove i (rd, ino) = Inr (?rd2, ?ino)"
    using loop block(1) put table by (simp add: ext2_dir_remove_def Let_def)
  have "file_content ?rd2 ?ino = file_content ?rd1 ino"
    using table_put_content [of ?ino ?rd1 ino] idx ok by (simp add: file_ok_def del: disk_put_simps)
  also have "\<dots> = dir_image (mark_removed i es)"
    unfolding disk_put_content [OF ok off, simplified] c split(4) by (simp add: split(1) entry_image_def)
  finally have content: "file_content ?rd2 ?ino = dir_image (mark_removed i es)" .
  have "file_ok ?rd2 ?ino" using ok1 file_ok_put [of "2 * BLOCK_BYTES + unat (e_index ino) * 128" ?rd1 "inode_bytes ?ino" ino] by simp
  with run content show ?thesis by (intro exI [of _ ?rd2] exI [of _ ?ino]) simp
qed

section \<open>Properties\<close>

text \<open>A directory of three entries in one block, for the examples.\<close>

definition sample_entries :: "named_entry list" where
  "sample_entries = [new_entry 3 ''.'' DR, new_entry 0 ''..'' DR, new_entry 5 ''bin'' DR]"

definition sample_dir :: ext2_inode where
  "sample_dir = small_file\<lparr>e_size := 57, e_dir_len := 3\<rparr>"

definition dir_disk :: rd_t where
  "dir_disk = disk_put small_disk (data_pos sample_dir 0) (dir_image sample_entries)"

lemma sample_dir_simps [simp]: "e_size sample_dir = 57" "e_len sample_dir = 1" "e_index sample_dir = 3" "e_dir_len sample_dir = 3"
  by (simp_all add: sample_dir_def small_file_def)

lemma sample_length: "length (dir_image sample_entries) = 57"
  by (simp add: sample_entries_def new_entry_def)

lemma dir_disk_ok:
  "file_ok dir_disk sample_dir" "disk_ok dir_disk" "file_content dir_disk sample_dir = dir_image sample_entries"
  "\<forall>e \<in> set sample_entries. entry_ok e"
proof -
  have small: "file_ok small_disk sample_dir"
    using small_ok(1) by (auto simp: file_ok_def sample_dir_def small_file_def BLOCK_BYTES_1024)
  have "2 * BLOCK_BYTES \<le> data_pos sample_dir 0" using data_pos_ge [of sample_dir 0] by linarith
  then show "file_ok dir_disk sample_dir" using small by (simp only: dir_disk_def file_ok_put)
  show "disk_ok dir_disk" using small_ok(2) by (simp add: dir_disk_def disk_ok_def)
  show "file_content dir_disk sample_dir = dir_image sample_entries"
    using disk_put_content [OF small, of 0 "dir_image sample_entries"] sample_length
    by (simp add: dir_disk_def BLOCK_BYTES_1024)
  show "\<forall>e \<in> set sample_entries. entry_ok e"
    by (auto simp: sample_entries_def intro!: new_entry_ok)
qed

text \<open>
  Directory lookup: in a sound directory whose bytes are a list of well-formed entries, \<open>ext2_dir_lookup\<close>
  ends and returns the inode of the first entry with the name that is not marked as free, and -1 when there is none.
\<close>

theorem dir_lookup_first_live:
  assumes "file_ok rd ino" and "\<forall>e \<in> set es. entry_ok e" and "file_content rd ino = dir_image es"
  shows "ext2_dir_lookup rd ino name = Inr (find_live name es)"
  by (rule ext2_dir_lookup_entries [OF assms])

lemma dir_lookup_first_live_witness: "ext2_dir_lookup dir_disk sample_dir ''bin'' = Inr 5"
  using dir_lookup_first_live [OF dir_disk_ok(1,4,3), of "''bin''"]
  by (simp add: sample_entries_def new_entry_def live_entry_def DR_def XX_def)

text \<open>
  C21. A created entry can be found: after \<open>ext2_create_entry\<close> with room in the directory, lookup of the new name gives
  the new inode unless a live entry had the name already, lookup of every other name is as before, and
  the directory is sound again.
\<close>

theorem create_entry_lookup:
  assumes "file_ok rd ino" and "disk_ok rd" and "unat (e_index ino) < 80"
    and "room_to_append rd ino (length nm + 17)" and "CHR 0x00 \<notin> set nm"
    and "\<forall>e \<in> set es. entry_ok e" and "file_content rd ino = dir_image es"
  shows "\<exists>rd' ino'. ext2_create_entry i nm type (rd, ino) = Inr (rd', ino') \<and> file_ok rd' ino' \<and>
    ext2_dir_lookup rd' ino' nm = Inr (if \<exists>e \<in> set es. live_entry nm e then find_live nm es
      else if type \<noteq> XX then sint i else -1) \<and>
    (\<forall>name. name \<noteq> nm \<longrightarrow> ext2_dir_lookup rd' ino' name = ext2_dir_lookup rd ino name)"
proof -
  let ?e = "new_entry i nm type"
  obtain rd' ino' where r: "ext2_create_entry i nm type (rd, ino) = Inr (rd', ino')" "file_ok rd' ino'"
    "file_content rd' ino' = file_content rd ino @ entry_image ?e"
    using create_entry_content [OF assms(1-4)] by blast
  have "length nm < 1024" using assms(4) by (simp add: room_to_append_def BLOCK_BYTES_1024)
  then have ok: "\<forall>e \<in> set (es @ [?e]). entry_ok e" using assms(5,6) new_entry_ok by auto
  have lookup: "ext2_dir_lookup rd' ino' name = Inr (find_live name (es @ [?e]))" for name
    by (rule ext2_dir_lookup_entries [OF r(2) ok]) (simp add: r(3) assms(7))
  have "live_entry name ?e \<longleftrightarrow> type \<noteq> XX \<and> nm = name" for name by (simp add: live_entry_def new_entry_def)
  then show ?thesis
    using r(1,2) lookup ext2_dir_lookup_entries [OF assms(1,6,7)] find_live_none [of es]
    by (intro exI [of _ rd'] exI [of _ ino']) (auto simp: find_live_append new_entry_def)
qed

lemma create_entry_lookup_witness:
  "\<exists>rd' ino'. ext2_create_entry 9 ''usr'' DR (dir_disk, sample_dir) = Inr (rd', ino') \<and>
     ext2_dir_lookup rd' ino' ''usr'' = Inr 9"
proof -
  have room: "room_to_append dir_disk sample_dir (length ''usr'' + 17)" by (simp add: room_to_append_def BLOCK_BYTES_1024)
  have "\<not> (\<exists>e \<in> set sample_entries. live_entry ''usr'' e)"
    by (simp add: sample_entries_def live_entry_def new_entry_def)
  then show ?thesis
    using create_entry_lookup [OF dir_disk_ok(1,2) _ room _ dir_disk_ok(4,3), of 9 DR] by (force simp: DR_def XX_def)
qed

text \<open>
  Removing an entry: in a directory of one block, \<open>ext2_dir_remove\<close> marks the first live entry that names the
  inode as free, counts one entry less, and leaves every other entry as it is.
\<close>

theorem dir_remove_marks_first:
  assumes "file_ok rd ino" and "unat (e_size ino) \<le> BLOCK_BYTES" and "unat (e_index ino) < 80"
    and "\<forall>e \<in> set es. entry_ok e" and "file_content rd ino = dir_image es" and "\<exists>e \<in> set es. names_inode i e"
  shows "\<exists>rd' ino'. ext2_dir_remove i (rd, ino) = Inr (rd', ino') \<and> file_ok rd' ino' \<and>
    file_content rd' ino' = dir_image (mark_removed i es) \<and> e_dir_len ino' = e_dir_len ino - 1"
  by (rule dir_remove_marks [OF assms])

lemma dir_remove_marks_first_witness:
  "\<exists>rd' ino'. ext2_dir_remove 5 (dir_disk, sample_dir) = Inr (rd', ino') \<and> e_dir_len ino' = 2"
proof -
  have "\<exists>e \<in> set sample_entries. names_inode 5 e"
    by (simp add: sample_entries_def names_inode_def new_entry_def DR_def XX_def)
  from dir_remove_marks_first [OF dir_disk_ok(1) _ _ dir_disk_ok(4,3) this]
  show ?thesis by (auto simp: BLOCK_BYTES_1024)
qed

text \<open>
  Path lookup forgets the middle of a path: for components \<open>d\<close> and \<open>n\<close>, looking up \<open>d/m/n\<close> gives the
  result of \<open>d/n\<close> for every \<open>m\<close>, which is the entry \<open>n\<close> of the directory \<open>d\<close> of the root.
\<close>

theorem path_lookup_skips_middle:
  assumes "component d" and "component n"
  shows "ext2_inode_lookup rd (Some (d @ CHR ''/'' # m @ CHR ''/'' # n)) = ext2_inode_lookup rd (Some (d @ CHR ''/'' # n)) \<and>
    ext2_inode_lookup rd (Some (d @ CHR ''/'' # n)) = bindr (root_inode rd) (\<lambda>root.
      bindr (child_inode rd root d) (\<lambda>x. case x of None \<Rightarrow> Inr None | Some dir \<Rightarrow> child_inode rd dir n))"
  using ext2_inode_lookup_root [OF assms(2), of rd "d @ CHR ''/'' # m @ [CHR ''/'']"]
    ext2_inode_lookup_root [OF assms(2), of rd "d @ [CHR ''/'']"]
    lookup_first [OF assms, of "m @ CHR ''/'' # n" rd] lookup_first [OF assms, of n rd] by simp_all

lemma path_lookup_skips_middle_witness:
  "ext2_inode_lookup dir_disk (Some ''usr/bin/zsh'') = ext2_inode_lookup dir_disk (Some ''usr/zsh'')"
  using path_lookup_skips_middle [of "''usr''" "''zsh''" dir_disk "''bin''"] by (simp add: component_def)

end
