(* ===== verification/Ext2_Fs.thy ===== *)
theory Ext2_Fs imports Ext2_Dir begin

text \<open>
  The file-system side of the disk layer, \<open>kernel/src/filesystems/ext2fs.c\<close>, and the types it shares
  with the virtual file system (\<open>kernel/include/vfs.h\<close>). A buffer of the caller is the list of its bytes,
  and a store behind its end is \<open>BadAccess\<close>.
\<close>

section \<open>Types of the virtual file system\<close>

definition MP :: u32 where "MP = 3"
definition DV_CHAR :: u32 where "DV_CHAR = 4"
definition DV_BLOCK :: u32 where "DV_BLOCK = 5"

definition R_OK :: u16 where "R_OK = 1"
definition W_OK :: u16 where "W_OK = 2"
definition X_OK :: u16 where "X_OK = 8"
definition F_OK :: u16 where "F_OK = 16"

definition O_RD :: u32 where "O_RD = 1"
definition O_WR :: u32 where "O_WR = 2"
definition O_CREAT :: u32 where "O_CREAT = 4"
definition O_TRUNC :: u32 where "O_TRUNC = 8"

definition S_SET :: int where "S_SET = 0"
definition S_CUR :: int where "S_CUR = 1"
definition S_END :: int where "S_END = 2"

text \<open>
  The table of operations a file system or an inode points to, one for each file system, and what
  \<open>fs_inode\<close> points to: an inode of the disk layer, a device of \<open>devices[]\<close>, or a string.
\<close>

datatype ops_table = Ext2_ops | Devfs_ops | Procfs_ops

datatype fs_data = NoData | ExtData ext2_inode | DevData nat | NameData string

record filesystem =
  fs_ops :: ops_table
  fs_dev :: "nat option"

record inode =
  i_fs :: filesystem
  i_ops :: ops_table
  fs_inode :: fs_data
  i_permission :: u16
  i_size :: u32
  i_id :: u32
  i_type :: u32
  i_dir_len :: u32
  i_link_num :: u32

record vfile =
  f_inode :: inode
  f_offset :: "64 word"

text \<open>\<open>balloc\<close> zeroes the memory it returns.\<close>

definition new_inode :: "filesystem \<Rightarrow> ops_table \<Rightarrow> inode" where
  "new_inode fs ops = \<lparr>i_fs = fs, i_ops = ops, fs_inode = NoData, i_permission = 0, i_size = 0, i_id = 0,
     i_type = 0, i_dir_len = 0, i_link_num = 0\<rparr>"

text \<open>\<open>EXT(inode)\<close>.\<close>

definition EXT :: "inode \<Rightarrow> ext2_inode result" where
  "EXT ino = (case fs_inode ino of ExtData e \<Rightarrow> Inr e | _ \<Rightarrow> Inl BadAccess)"

section \<open>The file system\<close>

fun clear_table :: "nat list \<Rightarrow> rd_t \<Rightarrow> rd_t result" where
  "clear_table [] rd = Inr rd"
| "clear_table (i # is) rd = bindr (bzero i rd) (clear_table is)"

definition ALL_OK :: u8 where
  "ALL_OK = ucast (R_OK OR W_OK OR X_OK)"

definition ext2_create_dir :: "string \<Rightarrow> bool \<Rightarrow> rd_t \<times> u32 \<Rightarrow> (int \<times> rd_t \<times> u32) result" where
  "ext2_create_dir name isroot = ext2_create_file name isroot ALL_OK (ucast DR)"

definition ext2_init :: "string \<Rightarrow> rd_t \<times> u32 \<Rightarrow> (rd_t \<times> u32) result" where
  "ext2_init name = (\<lambda>(rd, gid).
     bindr (bzero IMAP rd) (\<lambda>rd1. bindr (bzero DMAP rd1) (\<lambda>rd2.
       bindr (clear_table [ITABLE..<ITABLE + ITABLE_NUM] rd2) (\<lambda>rd3.
         bindr (ext2_create_dir name True (rd3, gid)) (\<lambda>(r, st). Inr st)))))"

definition update_inode :: "inode \<Rightarrow> ext2_inode \<Rightarrow> inode" where
  "update_inode ino e = ino\<lparr>fs_inode := ExtData e, i_permission := e_permission e, i_size := e_size e, i_id := e_id e,
     i_type := ucast (e_type e), i_dir_len := e_dir_len e, i_link_num := e_link_num e\<rparr>"

definition ext2_lookup :: "filesystem \<Rightarrow> string option \<Rightarrow> rd_t \<Rightarrow> inode option result" where
  "ext2_lookup fs name rd = bindr (ext2_inode_lookup rd name) (\<lambda>tmp. case tmp of
       Some e \<Rightarrow> Inr (Some (update_inode (new_inode fs Ext2_ops) e))
     | None \<Rightarrow> Inr None)"

definition ext2_close :: "inode \<Rightarrow> int result" where
  "ext2_close ino = bindr (EXT ino) (\<lambda>_. Inr 0)"

definition ext2_mkdir :: "string \<Rightarrow> rd_t \<times> u32 \<Rightarrow> (int \<times> rd_t \<times> u32) result" where
  "ext2_mkdir name = ext2_create_dir name False"

definition ext2_create :: "string \<Rightarrow> rd_t \<times> u32 \<Rightarrow> (int \<times> rd_t \<times> u32) result" where
  "ext2_create name = ext2_create_file name False ALL_OK (ucast NF)"

definition ext2_rm :: "string \<Rightarrow> rd_t \<Rightarrow> (int \<times> rd_t) result" where
  "ext2_rm name rd =
     (if length name = 1 \<and> name ! 0 = CHR ''/'' then Inr (-1, rd)
      else (let pre = alldir (Some name); post = filename (Some name)
            in bindr (ext2_inode_lookup rd pre) (\<lambda>father.
                 case father of
                   None \<Rightarrow> Inr (-1, rd)
                 | Some dir \<Rightarrow>
                     (case post of
                        None \<Rightarrow> Inl BadAccess
                      | Some p \<Rightarrow>
                          bindr (ext2_dir_lookup rd dir p) (\<lambda>index.
                            if index < 0 then Inr (-1, rd)
                            else bindr (rd_read rd (TABLE index) (int INODE_BYTES)) (\<lambda>bs.
                                   let ino = inode_of_bytes bs
                                   in if ucast (e_type ino) = DR \<and> e_dir_len ino > 2 then Inr (-1, rd)
                                      else bindr (ext2_dir_remove index (rd, dir)) (\<lambda>(rd1, dir1).
                                             if e_link_num ino = 1
                                             then bindr (ext2_inode_remove ino rd1) (\<lambda>rd2. Inr (0, rd2))
                                             else bindr (rd_write rd1 (TABLE index)
                                                    (inode_bytes (ino\<lparr>e_link_num := e_link_num ino - 1\<rparr>))) (\<lambda>rd2.
                                                      Inr (0, rd2)))))))))"

section \<open>Buffers\<close>

definition buf_put :: "u8 list \<Rightarrow> nat \<Rightarrow> u8 list \<Rightarrow> u8 list result" where
  "buf_put buf off bs =
     (if off + length bs \<le> length buf then Inr (take off buf @ bs @ drop (off + length bs) buf) else Inl BadAccess)"

text \<open>\<open>strcat(buf, s)\<close>: behind the first NUL.\<close>

definition buf_strcat :: "u8 list \<Rightarrow> u8 list \<Rightarrow> u8 list result" where
  "buf_strcat buf s =
     (if 0 \<in> set buf then buf_put buf (length (takeWhile (\<lambda>b. b \<noteq> 0) buf)) (s @ [0]) else Inl BadAccess)"

section \<open>Inode operations\<close>

definition ext2_inode_open :: "vfile \<Rightarrow> u32 \<Rightarrow> int \<times> vfile" where
  "ext2_inode_open f flags = (0, f\<lparr>f_offset := 0\<rparr>)"

definition ext2_inode_close :: "vfile \<Rightarrow> int" where
  "ext2_inode_close f = 0"

text \<open>
  Listing a directory: \<open>size\<close> counts entries, and entries before the file's offset are skipped. The loop
  returns the number of entries written and the buffer, with the place where it ends.
\<close>

partial_function (option) list_entries ::
  "rd_t \<Rightarrow> ext2_inode \<Rightarrow> 64 word \<Rightarrow> u32 \<Rightarrow> nat \<Rightarrow> int \<Rightarrow> nat \<Rightarrow> u8 list \<Rightarrow> nat \<Rightarrow> (nat \<times> u8 list \<times> nat) result option" where
  "list_entries rd ino start sz cnt offset ret buf buf_offset =
     (if cnt < unat (e_dir_len ino) \<and> sz \<noteq> 0
      then (case read_at rd ino offset 16 of
              Inl e \<Rightarrow> Some (Inl e)
            | Inr bs \<Rightarrow>
                (let cur = entry_of_bytes bs
                 in if d_file_type cur \<noteq> XX
                    then (case bindr (read_at rd ino (offset + 16) (uint (d_name_len cur))) c_str of
                            Inl e \<Rightarrow> Some (Inl e)
                          | Inr name \<Rightarrow>
                              if cnt + 1 > unat start
                              then (case bindr (buf_put buf buf_offset (map of_char name)) (\<lambda>b. buf_strcat b [10]) of
                                      Inl e \<Rightarrow> Some (Inl e)
                                    | Inr buf' \<Rightarrow> list_entries rd ino start (sz - 1) (cnt + 1) (offset + uint (d_rec_len cur))
                                        (ret + 1) buf' (buf_offset + length name + 1))
                              else list_entries rd ino start sz (cnt + 1) (offset + uint (d_rec_len cur)) ret buf buf_offset)
                    else list_entries rd ino start sz cnt (offset + uint (d_rec_len cur)) ret buf buf_offset))
      else Some (Inr (ret, buf, buf_offset)))"

declare list_entries.simps [code]

text \<open>
  The loop for a normal file: as in \<open>ext2_data_read\<close>, but a step is not cut to the bytes still wanted;
  \<open>size\<close> is unsigned.
\<close>

partial_function (option) inode_read_loop ::
  "rd_t \<Rightarrow> ext2_inode \<Rightarrow> u32 \<Rightarrow> int \<Rightarrow> u32 \<Rightarrow> bool \<Rightarrow> u8 list \<Rightarrow> nat \<Rightarrow> (u8 list \<times> nat) result option" where
  "inode_read_loop rd ino sz offset cnt first buf buf_offset =
     (if offset < uint (e_size ino) \<and> sz \<noteq> 0
      then (let left = read_left ino offset cnt first
            in case bindr (read_at rd ino offset left) (\<lambda>bs. buf_put buf buf_offset bs) of
                 Inl e \<Rightarrow> Some (Inl e)
               | Inr buf' \<Rightarrow> inode_read_loop rd ino (sz - word_of_int left) (offset + left) (cnt + 1) False buf'
                   (buf_offset + nat left))
      else Some (Inr (buf, buf_offset)))"

declare inode_read_loop.simps [code]

text \<open>The bytes of a normal file end with a newline and a NUL.\<close>

definition terminate :: "u8 list \<Rightarrow> nat \<Rightarrow> u8 list result" where
  "terminate buf n =
     (if n = 0 \<or> n > length buf then Inl BadAccess
      else if buf ! (n - 1) \<noteq> 10 then buf_put buf n [10, 0] else buf_put buf n [0])"

text \<open>The value returned and the buffer.\<close>

definition ext2_inode_read :: "rd_t \<Rightarrow> vfile \<Rightarrow> u8 list \<Rightarrow> u32 \<Rightarrow> (int \<times> u8 list) result" where
  "ext2_inode_read rd f buf sz =
     bindr (EXT (f_inode f)) (\<lambda>ino.
       if i_type (f_inode f) = DR
       then (case list_entries rd ino (f_offset f) sz 0 0 0 buf 0 of
               None \<Rightarrow> Inl Hang
             | Some r \<Rightarrow> bindr r (\<lambda>(ret, buf', n). bindr (buf_put buf' n [0]) (\<lambda>buf''. Inr (int ret, buf''))))
       else if i_type (f_inode f) = NF
       then (let offset = sint (ucast (f_offset f) :: u32)
             in if offset < 0 then Inl BadAccess
                else case inode_read_loop rd ino sz offset (word_of_int (offset div int BLOCK_BYTES)) True buf 0 of
                  None \<Rightarrow> Inl Hang
                | Some r \<Rightarrow> bindr r (\<lambda>(buf', n). bindr (terminate buf' n) (\<lambda>buf''. Inr (0, buf''))))
       else Inr (0, buf))"

text \<open>
  The loop of \<open>ext2_inode_write\<close> is that of \<open>ext2_data_write\<close>, line for line. A negative offset, as a seek
  with an unknown \<open>whence\<close> leaves it, writes outside the blocks of the file.
\<close>

definition ext2_inode_write :: "u8 list \<Rightarrow> rd_t \<Rightarrow> vfile \<Rightarrow> (int \<times> rd_t \<times> vfile) result" where
  "ext2_inode_write buf rd f =
     bindr (EXT (f_inode f)) (\<lambda>ino.
       if ucast (e_type ino) = DR then Inl Halt
       else if ucast (e_type ino) = NF
       then (let offset = sint (ucast (f_offset f) :: u32)
             in if offset < 0 then Inl BadAccess
                else bindr (data_write_loop rd ino buf (length buf) 0 (unat (e_len ino)) (nat offset) True) (\<lambda>(rd1, ino1).
                  let update_size = nat offset + length buf
                  in if update_size > unat (e_size ino1)
                     then (let ino2 = ino1\<lparr>e_size := of_nat update_size\<rparr>
                           in bindr (write_inode ino2 rd1) (\<lambda>rd2.
                                Inr (int (length buf), rd2,
                                  f\<lparr>f_inode := (f_inode f)\<lparr>fs_inode := ExtData ino2, i_size := of_nat update_size\<rparr>\<rparr>)))
                     else Inr (int (length buf), rd1, f\<lparr>f_inode := (f_inode f)\<lparr>fs_inode := ExtData ino1\<rparr>\<rparr>)))
       else Inr (int (length buf), rd, f))"

definition ext2_inode_link :: "string \<Rightarrow> rd_t \<Rightarrow> vfile \<Rightarrow> (int \<times> rd_t \<times> vfile) result" where
  "ext2_inode_link name rd f =
     bindr (EXT (f_inode f)) (\<lambda>ino.
       bindr (ext2_inode_lookup rd (alldir (Some name))) (\<lambda>father.
         case (father, filename (Some name)) of
           (Some dir, Some post) \<Rightarrow>
             bindr (ext2_create_entry (e_index ino) post NF (rd, dir)) (\<lambda>(rd1, _).
               let ino1 = ino\<lparr>e_link_num := e_link_num ino + 1\<rparr>
               in bindr (write_inode ino1 rd1) (\<lambda>rd2. Inr (0, rd2, f\<lparr>f_inode := (f_inode f)\<lparr>fs_inode := ExtData ino1\<rparr>\<rparr>)))
         | _ \<Rightarrow> Inl BadAccess))"

text \<open>
  \<open>max\<close> and \<open>min\<close> are macros: with the 64-bit unsigned offset of the file in \<open>S_CUR\<close> all of the comparison is
  unsigned, in the other two cases it is signed.
\<close>

definition lseek_target :: "vfile \<Rightarrow> int \<Rightarrow> int \<Rightarrow> int" where
  "lseek_target f offset whence =
     (let sz = sint (i_size (f_inode f))
      in if whence = S_SET then max (min offset sz) 0
         else if whence = S_CUR
         then (let t = f_offset f + word_of_int offset;
                   m = (if t < word_of_int sz then t else word_of_int sz)
               in sint (ucast (if m > 0 then m else 0) :: u32))
         else if whence = S_END then max (min (sz + offset) sz) 0
         else -1)"

definition ext2_inode_lseek :: "vfile \<Rightarrow> int \<Rightarrow> int \<Rightarrow> int \<times> vfile" where
  "ext2_inode_lseek f offset whence =
     (let t = lseek_target f offset whence in (t, f\<lparr>f_offset := word_of_int t\<rparr>))"

section \<open>Properties\<close>

lemma sint_ucast_small: "uint (w :: 64 word) < 2147483648 \<Longrightarrow> sint (ucast w :: u32) = uint w"
proof -
  assume x: "uint w < 2147483648"
  have "- 2147483648 \<le> uint w" by (rule order_trans [OF _ uint_ge_0]) simp
  moreover have "(ucast w :: u32) = word_of_int (uint w)" by (rule ucast_eq)
  ultimately show ?thesis using x sint_sbintrunc' [of "uint w", where 'a = 32] signed_take_bit_int_eq_self [of 31 "uint w"] by simp
qed

lemma uint_small: "0 \<le> x \<Longrightarrow> x < 18446744073709551616 \<Longrightarrow> uint (word_of_int x :: 64 word) = x"
  by (simp add: uint_word_of_int)

text \<open>
  Seeking: with a file of less than 2 GB, seeking from the start or from the end clamps the target into the file; so
  does seeking from the current offset, except that a target before the start of the file becomes its
  end, since the sum wraps in 64 unsigned bits. The file's offset becomes the value returned.
\<close>

theorem lseek_clamps:
  assumes size: "i_size (f_inode f) < 0x80000000" and off: "uint (f_offset f) < 0x80000000"
    and d: "- 0x80000000 \<le> d" "d < 0x80000000"
  defines "sz \<equiv> uint (i_size (f_inode f))"
  shows "ext2_inode_lseek f d S_SET = (max 0 (min d sz), f\<lparr>f_offset := word_of_int (max 0 (min d sz))\<rparr>) \<and>
    ext2_inode_lseek f d S_END = (max 0 (min (sz + d) sz), f\<lparr>f_offset := word_of_int (max 0 (min (sz + d) sz))\<rparr>) \<and>
    fst (ext2_inode_lseek f d S_CUR) =
      (if 0 \<le> uint (f_offset f) + d then min (uint (f_offset f) + d) sz else sz)"
proof -
  have sz: "sint (i_size (f_inode f)) = sz" "0 \<le> sz" "sz < 0x80000000"
    using size signed_take_bit_int_eq_self [of 31 "uint (i_size (f_inode f))"] order_trans [OF _ uint_ge_0, of "- 2147483648" "i_size (f_inode f)"]
    by (auto simp: sz_def word_less_def sint_uint)
  have wsz: "uint (word_of_int sz :: 64 word) = sz" by (rule uint_small) (use sz in simp_all)
  let ?t = "f_offset f + word_of_int d"
  have t: "uint ?t = (uint (f_offset f) + d) mod 18446744073709551616"
    by (simp add: uint_word_ariths uint_word_of_int mod_add_right_eq)
  have cur: "fst (ext2_inode_lseek f d S_CUR) = (if 0 \<le> uint (f_offset f) + d then min (uint (f_offset f) + d) sz else sz)"
  proof (cases "0 \<le> uint (f_offset f) + d")
    case True
    then have "uint ?t = uint (f_offset f) + d" using t off d by simp
    then show ?thesis
      using True sz wsz sint_ucast_small [of ?t] sint_ucast_small [of "word_of_int sz"]
      by (auto simp: ext2_inode_lseek_def lseek_target_def Let_def S_SET_def S_CUR_def word_less_def min_def)
  next
    case False
    define x where "x = uint (f_offset f) + d"
    have "- 2147483648 \<le> x" using d(1) uint_ge_0 [of "f_offset f"] unfolding x_def by linarith
    then have "(x + 18446744073709551616) mod 18446744073709551616 = x + 18446744073709551616"
      using False by (intro mod_pos_pos_trivial) (simp_all add: x_def)
    then have "uint ?t = x + 18446744073709551616" using t by (simp add: x_def)
    moreover have "sz < x + 18446744073709551616" using sz(3) \<open>- 2147483648 \<le> x\<close> by linarith
    ultimately show ?thesis
      using False sz wsz sint_ucast_small [of "word_of_int sz"]
      by (auto simp: ext2_inode_lseek_def lseek_target_def Let_def S_SET_def S_CUR_def word_less_def)
  qed
  show ?thesis
    using cur sz by (auto simp: ext2_inode_lseek_def lseek_target_def Let_def S_SET_def S_CUR_def S_END_def max.commute)
qed

definition sample_file :: vfile where
  "sample_file = \<lparr>f_inode = (new_inode \<lparr>fs_ops = Ext2_ops, fs_dev = Some 0\<rparr> Ext2_ops)\<lparr>i_size := 100\<rparr>, f_offset = 3\<rparr>"

lemma lseek_clamps_witness: "fst (ext2_inode_lseek sample_file (-5) S_CUR) = 100"
  using lseek_clamps [of sample_file "-5"] by (simp add: sample_file_def new_inode_def)

text \<open>
  Reading a normal file of one block ignores the number of bytes asked for: for every count but 0 the whole content
  is copied, so a buffer shorter than the file is overrun; into a buffer that is long enough the content
  arrives, followed by a newline unless it ends with one, and a NUL. The call returns 0.
\<close>

theorem inode_read_ignores_count:
  assumes ok: "file_ok rd ino" and one: "e_len ino = 1" and some: "e_size ino \<noteq> 0"
    and f: "fs_inode (f_inode f) = ExtData ino" "i_type (f_inode f) = NF" "f_offset f = 0" and n: "n \<noteq> 0"
  defines "c \<equiv> file_content rd ino"
  shows "ext2_inode_read rd f buf n =
    (if length buf < length c + (if last c = 10 then 1 else 2) then Inl BadAccess
     else Inr (0, c @ (if last c = 10 then [0] else [10, 0]) @ drop (length c + (if last c = 10 then 1 else 2)) buf))"
proof -
  have size: "0 < unat (e_size ino)" "unat (e_size ino) \<le> BLOCK_BYTES"
    using ok one some by (auto simp: file_ok_def unat_gt_0)
  have c: "length c = unat (e_size ino)" "c \<noteq> []" using size by (auto simp: c_def simp flip: length_greater_0_conv)
  have left: "read_left ino 0 0 True = int (unat (e_size ino))"
    using one by (simp add: read_left_def OFFSET_REMAIN_def)
  have at: "read_at rd ino 0 (int (unat (e_size ino))) = Inr c"
  proof -
    have "0 < unat (e_len ino) * BLOCK_BYTES" "0 mod BLOCK_BYTES + unat (e_size ino) \<le> BLOCK_BYTES"
      using one size(2) by (simp_all add: BLOCK_BYTES_1024)
    from read_at_block [OF ok this] show ?thesis by (simp add: c_def file_content_def del: of_nat_unat)
  qed
  have inside: "0 < uint (e_size ino)" using size(1) by (simp add: uint_nat del: of_nat_unat)
  have stop: "inode_read_loop rd ino m (int (unat (e_size ino))) k False b j = Some (Inr (b, j))" for m k b j
    by (subst inode_read_loop.simps) simp
  have loop: "inode_read_loop rd ino n 0 0 True buf 0 =
    (if length c \<le> length buf then Some (Inr (c @ drop (length c) buf, length c)) else Some (Inl BadAccess))"
    using inside n left at stop c(1)
    by (subst inode_read_loop.simps) (simp add: Let_def buf_put_def del: of_nat_unat)
  have last: "(c @ drop (length c) buf) ! (length c - 1) = last c"
    using c(2) by (simp add: nth_append last_conv_nth)
  have "ext2_inode_read rd f buf n = bindr (the (inode_read_loop rd ino n 0 0 True buf 0)) (\<lambda>(buf', n).
      bindr (terminate buf' n) (\<lambda>buf''. Inr (0, buf'')))"
    using f loop by (simp add: ext2_inode_read_def EXT_def NF_def DR_def)
  also have "\<dots> = (if length c \<le> length buf
      then bindr (terminate (c @ drop (length c) buf) (length c)) (\<lambda>buf''. Inr (0, buf'')) else Inl BadAccess)"
    unfolding loop by simp
  finally have run: "ext2_inode_read rd f buf n = (if length c \<le> length buf
      then bindr (terminate (c @ drop (length c) buf) (length c)) (\<lambda>buf''. Inr (0, buf'')) else Inl BadAccess)" .
  have "terminate (c @ drop (length c) buf) (length c) =
    (if last c = 10 then buf_put (c @ drop (length c) buf) (length c) [0]
     else buf_put (c @ drop (length c) buf) (length c) [10, 0])" if "length c \<le> length buf"
    using that c(2) last by (simp add: terminate_def)
  note stop_char = this
  show ?thesis
  proof (cases "length c \<le> length buf")
    case True
    show ?thesis unfolding run stop_char [OF True] by (cases "last c = 10") (auto simp: buf_put_def True)
  qed (simp add: run)
qed

lemma inode_read_ignores_count_witness:
  "ext2_inode_read small_disk (sample_file\<lparr>f_inode := update_inode (f_inode sample_file) small_file, f_offset := 0\<rparr>)
     (replicate 100 0) 100 = Inl BadAccess"
proof -
  have c: "length (file_content small_disk small_file) = 600" by (simp add: small_file_def)
  show ?thesis
    using inode_read_ignores_count [OF small_ok(1), of
        "sample_file\<lparr>f_inode := update_inode (f_inode sample_file) small_file, f_offset := 0\<rparr>" 100 "replicate 100 0"] c
    by (simp add: update_inode_def small_file_def NF_def)
qed

end
