(* ===== verification/Klib_Stdio.thy ===== *)
theory Klib_Stdio imports Util begin

text \<open>
  Formatted output, \<open>abstract-machine/libs/klib/src/stdio.c\<close>. The text written is a list of
  characters, the variable arguments are a list of values; a conversion that finds no argument of its
  kind is \<open>BadAccess\<close>. \<open>long\<close> is 32 bits wide on the target.
\<close>

section \<open>Flags and digits\<close>

definition ZEROPAD :: u32 where "ZEROPAD = 1"
definition SIGN :: u32 where "SIGN = 2"
definition PLUS :: u32 where "PLUS = 4"
definition SPACE :: u32 where "SPACE = 8"
definition LEFT :: u32 where "LEFT = 16"
definition SPECIAL :: u32 where "SPECIAL = 32"
definition LARGE :: u32 where "LARGE = 64"

definition flag :: "u32 \<Rightarrow> u32 \<Rightarrow> bool" where
  "flag type f \<longleftrightarrow> type AND f \<noteq> 0"

definition is_digit :: "char \<Rightarrow> bool" where
  "is_digit ch \<longleftrightarrow> (48 :: nat) \<le> of_char ch \<and> of_char ch \<le> (57 :: nat)"

text \<open>The value read, and what follows the digits.\<close>

fun my_atoi_loop :: "int \<Rightarrow> string \<Rightarrow> int \<times> string" where
  "my_atoi_loop i [] = (i, [])"
| "my_atoi_loop i (ch # s) = (if is_digit ch then my_atoi_loop (i * 10 + of_char ch - 48) s else (i, ch # s))"

definition my_atoi :: "string \<Rightarrow> int \<times> string" where
  "my_atoi s = my_atoi_loop 0 s"

text \<open>The remainder and the new value of \<open>*n\<close>; both divisions are unsigned.\<close>

definition div_step :: "u32 \<Rightarrow> u32 \<Rightarrow> u32 \<times> u32" where
  "div_step n base = (n mod base, n div base)"

definition small_digits :: string where
  "small_digits = ''0123456789abcdefghijklmnopqrstuvwxyz''"

definition large_digits :: string where
  "large_digits = ''0123456789ABCDEFGHIJKLMNOPQRSTUVWXYZ''"

text \<open>The digits in \<open>tmp\<close>, the last one first.\<close>

function digit_loop :: "string \<Rightarrow> u32 \<Rightarrow> u32 \<Rightarrow> string" where
  "digit_loop digits base num =
     (if num = 0 \<or> base \<le> 1 then []
      else (let (r, q) = div_step num base in digits ! unat r # digit_loop digits base q))"
  by pat_completeness auto
termination
proof (relation "measure (\<lambda>(digits, base, num). unat num)", goal_cases)
  case (2 digits base num x r q)
  then have "unat q = unat num div unat base" "1 < unat base" "0 < unat num"
    by (auto simp: div_step_def unat_div word_le_nat_alt unat_gt_0 word_neq_0_conv)
  then show ?case by simp
qed simp

declare digit_loop.simps [simp del]

text \<open>\<open>while (n-- > 0)\<close>: how often the body runs and the value left in \<open>n\<close>.\<close>

definition postdec :: "int \<Rightarrow> nat \<times> int" where
  "postdec n = (nat n, if n > 0 then -1 else n - 1)"

text \<open>The sign, the number without it, and the width left.\<close>

definition take_sign :: "u32 \<Rightarrow> u32 \<Rightarrow> int \<Rightarrow> string \<times> u32 \<times> int" where
  "take_sign type num sz =
     (if flag type SIGN
      then (if sint num < 0 then ([CHR ''-''], - num, sz - 1)
            else if flag type PLUS then ([CHR ''+''], num, sz - 1)
            else if flag type SPACE then ([CHR '' ''], num, sz - 1)
            else ([], num, sz))
      else ([], num, sz))"

text \<open>The text from its parts: \<open>sz\<close> is the width left after sign, prefix and digits.\<close>

definition lay_out :: "u32 \<Rightarrow> int \<Rightarrow> string \<Rightarrow> string \<Rightarrow> string \<Rightarrow> string" where
  "lay_out type sz sign prefix digits =
     (let c = (if flag type ZEROPAD then CHR ''0'' else CHR '' '');
          (lead, sz) = (if \<not> flag type (ZEROPAD + LEFT) then postdec sz else (0, sz));
          (fill, sz) = (if \<not> flag type LEFT then postdec sz else (0, sz));
          (trail, sz) = postdec sz
      in replicate lead (CHR '' '') @ sign @ prefix @ replicate fill c @ digits @ replicate trail (CHR '' ''))"

definition get_number :: "u32 \<Rightarrow> int \<Rightarrow> int \<Rightarrow> int \<Rightarrow> u32 \<Rightarrow> string result" where
  "get_number num base sz precision type =
     (let digits = (if flag type LARGE then large_digits else small_digits);
          type = (if flag type LEFT then type AND NOT ZEROPAD else type)
      in bindr (assert_that (\<not> (base < 2 \<or> base > 36))) (\<lambda>_.
           let (sign, num, sz) = take_sign type num sz;
               sz = (if flag type SPECIAL
                     then (if base = 16 then sz - 2 else if base = 8 then sz - 1 else sz) else sz);
               prefix = (if flag type SPECIAL
                         then (if base = 8 then ''0'' else if base = 16 then [CHR ''0'', digits ! 33] else []) else []);
               tmp = (if num = 0 then ''0'' else digit_loop digits (word_of_int base) num);
               i = int (length tmp);
               precision = (if i > precision then i else precision)
           in Inr (lay_out type (sz - precision) sign prefix
                 (replicate (nat (precision - i)) (CHR ''0'') @ rev tmp))))"

section \<open>Formats\<close>

datatype arg = IntArg u32 | StrArg string | OutArg

record spec =
  s_flags :: u32
  s_width :: int
  s_precision :: int
  s_qualifier :: "char option"

definition spec0 :: spec where
  "spec0 = \<lparr>s_flags = 0, s_width = -1, s_precision = -1, s_qualifier = None\<rparr>"

definition add_flag :: "u32 \<Rightarrow> spec \<Rightarrow> spec" where
  "add_flag f sp = sp\<lparr>s_flags := s_flags sp OR f\<rparr>"

definition flag_char :: "char \<Rightarrow> u32 option" where
  "flag_char ch = map_of [(CHR ''-'', LEFT), (CHR ''+'', PLUS), (CHR '' '', SPACE), (CHR ''#'', SPECIAL), (CHR ''0'', ZEROPAD)] ch"

lemma my_atoi_loop_length: "length (snd (my_atoi_loop i s)) \<le> length s"
  by (induction i s rule: my_atoi_loop.induct) auto

lemma my_atoi_shorter: "my_atoi (ch # s) = (n, r) \<Longrightarrow> is_digit ch \<Longrightarrow> length r \<le> length s"
  using my_atoi_loop_length [of "of_char ch - 48" s] by (simp add: my_atoi_def)

text \<open>
  The part between \<open>%\<close> and the conversion character, from the label \<open>repeat\<close> on. After a period the
  code steps over one character, whatever it is.
\<close>

function parse_spec :: "string \<Rightarrow> spec \<Rightarrow> arg list \<Rightarrow> (string \<times> spec \<times> arg list) result" where
  "parse_spec [] sp as = Inr ([], sp, as)"
| "parse_spec (ch # cs) sp as =
     (if ch = CHR '':'' then Inl Halt
      else case flag_char ch of
        Some f \<Rightarrow> parse_spec cs (add_flag f sp) as
      | None \<Rightarrow>
          if is_digit ch then
            (case my_atoi (ch # cs) of (n, rest) \<Rightarrow> parse_spec rest (sp\<lparr>s_width := n\<rparr>) as)
          else if ch = CHR ''*'' then
            (case as of
               IntArg w # as' \<Rightarrow>
                 parse_spec cs (if sint w < 0 then add_flag LEFT (sp\<lparr>s_width := - sint w\<rparr>) else sp\<lparr>s_width := sint w\<rparr>) as'
             | _ \<Rightarrow> Inl BadAccess)
          else if ch = CHR ''.'' then
            (case cs of
               [] \<Rightarrow> Inl BadAccess
             | d # ds \<Rightarrow>
                 if is_digit d then
                   (case my_atoi (d # ds) of (n, rest) \<Rightarrow>
                      parse_spec rest (sp\<lparr>s_precision := (if n < 0 then 0 else n)\<rparr>) as)
                 else if d = CHR ''*'' then
                   (case as of
                      IntArg w # as' \<Rightarrow> parse_spec ds (sp\<lparr>s_precision := (if sint w < 0 then 0 else sint w)\<rparr>) as'
                    | _ \<Rightarrow> Inl BadAccess)
                 else parse_spec ds (sp\<lparr>s_precision := (if s_precision sp < 0 then 0 else s_precision sp)\<rparr>) as)
          else if ch = CHR ''h'' \<or> ch = CHR ''l'' \<or> ch = CHR ''L'' then
            parse_spec cs (sp\<lparr>s_qualifier := Some ch\<rparr>) as
          else Inr (ch # cs, sp, as))"
  by pat_completeness auto
termination
  by (relation "measure (\<lambda>(s, sp, as). length s)") (auto dest: my_atoi_shorter [OF sym])

declare parse_spec.simps [simp del]

text \<open>\<open>while (--n > 0)\<close>: how often the body runs and the value left in \<open>n\<close>.\<close>

definition predec :: "int \<Rightarrow> nat \<times> int" where
  "predec n = (nat (n - 1), if n > 1 then 0 else n - 1)"

text \<open>\<open>c\<close> and \<open>%\<close>: one character in a field.\<close>

definition put_char :: "spec \<Rightarrow> char \<Rightarrow> string" where
  "put_char sp ch =
     (let (lead, w) = (if \<not> flag (s_flags sp) LEFT then predec (s_width sp) else (0, s_width sp));
          (trail, w) = predec w
      in replicate lead (CHR '' '') @ [ch] @ replicate trail (CHR '' ''))"

text \<open>
  \<open>while (len < field_width--)\<close>. \<open>strnlen\<close> takes the precision as an unsigned number: a negative one is
  no limit.
\<close>

definition fill_to :: "int \<Rightarrow> int \<Rightarrow> nat \<times> int" where
  "fill_to len w = (nat (w - len), if len < w then len - 1 else w - 1)"

definition put_string :: "spec \<Rightarrow> string \<Rightarrow> string" where
  "put_string sp s =
     (let n = (if s_precision sp < 0 then length s else min (length s) (nat (s_precision sp)));
          len = int n;
          (lead, w) = (if \<not> flag (s_flags sp) LEFT then fill_to len (s_width sp) else (0, s_width sp));
          (trail, w) = fill_to len w
      in replicate lead (CHR '' '') @ take n s @ replicate trail (CHR '' ''))"

definition base_flags :: "char \<Rightarrow> (int \<times> u32) option" where
  "base_flags ch = map_of [(CHR ''o'', 8, 0), (CHR ''X'', 16, LARGE), (CHR ''x'', 16, 0), (CHR ''d'', 10, SIGN),
     (CHR ''i'', 10, SIGN), (CHR ''u'', 10, 0)] ch"

definition number_arg :: "spec \<Rightarrow> u32 \<Rightarrow> u32" where
  "number_arg sp w =
     (if s_qualifier sp = Some (CHR ''l'') then w
      else if s_qualifier sp = Some (CHR ''h'')
      then (if flag (s_flags sp) SIGN then scast (ucast w :: u16) else ucast (ucast w :: u16))
      else w)"

text \<open>One conversion: the text, and the arguments left; an \<open>n\<close> conversion stores the count so far.\<close>

definition convert :: "char \<Rightarrow> spec \<Rightarrow> arg list \<Rightarrow> nat \<Rightarrow> (string \<times> arg list \<times> nat list) result" where
  "convert ch sp as sofar =
     (if ch = CHR ''c'' then
        (case as of IntArg w # as' \<Rightarrow> Inr (put_char sp (char_of (uint w)), as', []) | _ \<Rightarrow> Inl BadAccess)
      else if ch = CHR ''s'' then
        (case as of StrArg s # as' \<Rightarrow> Inr (put_string sp s, as', []) | _ \<Rightarrow> Inl BadAccess)
      else if ch = CHR ''p'' then
        (let sp = add_flag SPECIAL sp;
             sp = (if s_width sp = -1 then add_flag ZEROPAD (sp\<lparr>s_width := 8\<rparr>) else sp)
         in case as of
              IntArg w # as' \<Rightarrow> bindr (get_number w 16 (s_width sp) (s_precision sp) (s_flags sp)) (\<lambda>t. Inr (t, as', []))
            | _ \<Rightarrow> Inl BadAccess)
      else if ch = CHR ''n'' then
        (case as of OutArg # as' \<Rightarrow> Inr ([], as', [sofar]) | _ \<Rightarrow> Inl BadAccess)
      else if ch = CHR ''%'' then Inr (put_char sp (CHR ''%''), as, [])
      else case base_flags ch of
        None \<Rightarrow> Inl Halt
      | Some (base, f) \<Rightarrow>
          (let sp = add_flag f sp
           in case as of
                IntArg w # as' \<Rightarrow>
                  bindr (get_number (number_arg sp w) base (s_width sp) (s_precision sp) (s_flags sp)) (\<lambda>t. Inr (t, as', []))
              | _ \<Rightarrow> Inl BadAccess))"

lemma parse_spec_length: "parse_spec s sp as = Inr (r, sp', as') \<Longrightarrow> length r \<le> length s"
proof (induction s sp as rule: parse_spec.induct)
  case (2 ch cs sp as)
  note prem = "2.prems"[unfolded parse_spec.simps(2)]
  consider "ch = CHR '':''" | (flag) f where "ch \<noteq> CHR '':''" "flag_char ch = Some f"
    | (digit) "ch \<noteq> CHR '':''" "flag_char ch = None" "is_digit ch"
    | (star) "ch \<noteq> CHR '':''" "flag_char ch = None" "\<not> is_digit ch" "ch = CHR ''*''"
    | (dot) "ch \<noteq> CHR '':''" "flag_char ch = None" "\<not> is_digit ch" "ch = CHR ''.''"
    | (rest) "ch \<noteq> CHR '':''" "flag_char ch = None" "\<not> is_digit ch" "ch \<noteq> CHR ''*''" "ch \<noteq> CHR ''.''"
    by fastforce
  then show ?case
  proof cases
    case flag
    then show ?thesis using prem "2.IH"(7) [of f] by (simp add: le_Suc_eq)
  next
    case digit
    obtain n r1 where n: "my_atoi (ch # cs) = (n, r1)" by fastforce
    then have "length r \<le> length r1" using prem digit "2.IH"(1) [of n r1] by simp
    then show ?thesis using my_atoi_shorter [OF n digit(3)] by simp
  next
    case star
    then show ?thesis using prem "2.IH"(2) by (auto split: list.splits arg.splits simp: le_Suc_eq)
  next
    case dot
    then obtain d ds where cs: "cs = d # ds" using prem by (cases cs) auto
    show ?thesis
    proof (cases "is_digit d")
      case True
      obtain n r1 where n: "my_atoi (d # ds) = (n, r1)" by fastforce
      then have "length r \<le> length r1" using prem dot True cs "2.IH"(3) [of d ds n r1] by simp
      then show ?thesis using my_atoi_shorter [OF n True] cs by simp
    next
      case False
      show ?thesis
      proof (cases "d = CHR ''*''")
        case True
        obtain w as1 where as: "as = IntArg w # as1"
          using prem dot cs False True by (auto split: list.splits arg.splits)
        show ?thesis
          using prem dot cs False True as "2.IH"(4) [of d ds "IntArg w" as1 w] by (simp add: le_Suc_eq)
      next
        case star: False
        show ?thesis using prem dot cs False star "2.IH"(5) [of d ds] by (simp add: le_Suc_eq)
      qed
    qed
  next
    case rest
    then show ?thesis using prem "2.IH"(6) by (auto split: if_splits simp: le_Suc_eq)
  qed (use prem in simp)
qed (simp add: parse_spec.simps)

text \<open>The loop of \<open>vsprintf\<close>: the text written and the counts stored.\<close>

function vsprintf_loop :: "string \<Rightarrow> arg list \<Rightarrow> string \<Rightarrow> nat list \<Rightarrow> (string \<times> nat list) result" where
  "vsprintf_loop [] as out ns = Inr (out, ns)"
| "vsprintf_loop (f # fmt) as out ns =
     (if f \<noteq> CHR ''%'' then vsprintf_loop fmt as (out @ [f]) ns
      else case parse_spec fmt spec0 as of
        Inl e \<Rightarrow> Inl e
      | Inr ([], sp, as') \<Rightarrow> Inl Halt
      | Inr (ch # rest, sp, as') \<Rightarrow>
          (case convert ch sp as' (length out) of
             Inl e \<Rightarrow> Inl e
           | Inr (t, as'', ns') \<Rightarrow> vsprintf_loop rest as'' (out @ t) (ns @ ns')))"
  by pat_completeness auto
termination
  by (relation "measure (\<lambda>(fmt, as, out, ns). length fmt)") (auto dest!: parse_spec_length)

declare vsprintf_loop.simps [simp del]

text \<open>The text and the value returned.\<close>

definition vsprintf :: "string \<Rightarrow> arg list \<Rightarrow> (int \<times> string) result" where
  "vsprintf fmt as = bindr (vsprintf_loop fmt as [] []) (\<lambda>(out, ns). Inr (int (length out), out))"

definition sprintf :: "string \<Rightarrow> arg list \<Rightarrow> (int \<times> string) result" where
  "sprintf fmt as = vsprintf fmt as"

text \<open>\<open>printf\<close> formats into 1024 bytes on the stack and prints them up to the first NUL.\<close>

definition printf :: "string \<Rightarrow> arg list \<Rightarrow> (int \<times> string) result" where
  "printf fmt as =
     bindr (vsprintf fmt as) (\<lambda>(ret, out).
       if length out < 1024 then Inr (ret, takeWhile (\<lambda>ch. ch \<noteq> CHR 0x00) out) else Inl BadAccess)"

definition snprintf :: "nat \<Rightarrow> string \<Rightarrow> arg list \<Rightarrow> (int \<times> string) result" where
  "snprintf n fmt as = bindr (assert_that False) (\<lambda>_. Inr (0, []))"

section \<open>Printed numbers\<close>

lemma digit_loop_Nil [simp]: "digit_loop ds b 0 = []"
  by (subst digit_loop.simps) simp

lemma digit_loop_step:
  "num \<noteq> 0 \<Longrightarrow> digit_loop ds 10 num = ds ! (unat num mod 10) # digit_loop ds 10 (num div 10)"
  by (subst digit_loop.simps) (simp add: div_step_def unat_mod word_le_nat_alt)

lemma digit_char: "d < 10 \<Longrightarrow> isdigit (small_digits ! d) \<and> of_char (small_digits ! d) = (48 + int d)"
proof -
  assume "d < 10"
  then have "d = 0 \<or> d = 1 \<or> d = 2 \<or> d = 3 \<or> d = 4 \<or> d = 5 \<or> d = 6 \<or> d = 7 \<or> d = 8 \<or> d = 9" by presburger
  then show ?thesis by (auto simp: small_digits_def isdigit_def)
qed

lemma atoi_loop_snoc:
  "\<forall>c \<in> set s. isdigit c \<Longrightarrow> isdigit ch \<Longrightarrow> atoi_loop i (s @ [ch]) = atoi_loop i s * 10 + of_char ch - 48"
  by (induction s arbitrary: i) simp_all

lemma digit_loop_digits:
  "(\<forall>c \<in> set (digit_loop small_digits 10 num). isdigit c) \<and>
     atoi_loop 0 (rev (digit_loop small_digits 10 num)) = int (unat num)"
proof (induction "unat num" arbitrary: num rule: less_induct)
  case less
  show ?case
  proof (cases "num = 0")
    case False
    have q: "unat (num div 10) = unat num div 10" by (simp add: unat_div)
    then have "unat (num div 10) < unat num" using False by (simp add: unat_gt_0)
    note IH = less [OF this]
    have d: "isdigit (small_digits ! (unat num mod 10))" "of_char (small_digits ! (unat num mod 10)) = 48 + int (unat num mod 10)"
      using digit_char [of "unat num mod 10"] by simp_all
    have "atoi_loop 0 (rev (digit_loop small_digits 10 num)) =
      int (unat (num div 10)) * 10 + (48 + int (unat num mod 10)) - 48"
      unfolding digit_loop_step [OF False] using IH d by (simp add: atoi_loop_snoc del: of_nat_unat)
    also have "\<dots> = int (unat num)" unfolding q by (simp add: zdiv_int zmod_int del: of_nat_unat)
    finally show ?thesis using IH d(1) by (simp add: digit_loop_step [OF False])
  qed simp
qed

lemma uint_sint_mod: "uint (w :: u32) = sint w mod 4294967296"
  by (simp add: uint_sint take_bit_eq_mod)

lemma sint_bounds: "- 2147483648 \<le> sint (w :: u32)" "sint (w :: u32) < 2147483648"
  using sint_ge [of w] sint_lt [of w] by simp_all

lemma unat_uminus: "sint (w :: u32) < 0 \<Longrightarrow> int (unat (- w)) = - sint w"
proof -
  assume "sint w < 0"
  then have "0 \<le> - sint w" "- sint w < 4294967296" using sint_bounds [of w] by linarith+
  moreover have "uint (- w) = - uint w mod 4294967296" by (simp add: uint_word_ariths)
  then have "uint (- w) = - sint w mod 4294967296" unfolding uint_sint_mod [of w] mod_minus_eq .
  ultimately show ?thesis by simp
qed

lemma unat_nonneg: "0 \<le> sint (w :: u32) \<Longrightarrow> int (unat w) = sint w"
  using sint_bounds [of w] by (simp add: uint_sint_mod)

text \<open>The digits of a number as \<open>%d\<close> prints them.\<close>

definition decimal :: "u32 \<Rightarrow> string" where
  "decimal num = rev (if num = 0 then ''0'' else digit_loop small_digits 10 num)"

lemma decimal_value: "(\<forall>c \<in> set (decimal num). isdigit c) \<and> decimal num \<noteq> [] \<and> atoi_loop 0 (decimal num) = int (unat num)"
proof (cases "num = 0")
  case True
  then show ?thesis by (simp add: decimal_def isdigit_def)
next
  case False
  then show ?thesis using digit_loop_digits [of num] by (simp add: decimal_def digit_loop_step)
qed

lemma parse_spec_d: "parse_spec (CHR ''d'' # rest) sp as = Inr (CHR ''d'' # rest, sp, as)"
  by (subst parse_spec.simps) (simp add: flag_char_def is_digit_def)

lemma get_number_decimal:
  "get_number w 10 (-1) (-1) SIGN = Inr (if sint w < 0 then CHR ''-'' # decimal (- w) else decimal w)"
proof -
  have nz: "sint w < 0 \<Longrightarrow> w \<noteq> 0" by auto
  show ?thesis
    using nz by (auto simp: get_number_def Let_def flag_def SIGN_def LARGE_def LEFT_def ZEROPAD_def PLUS_def SPACE_def
        SPECIAL_def postdec_def decimal_def take_sign_def lay_out_def)
qed

lemma sprintf_d:
  "sprintf ''%d'' [IntArg w] = (let t = (if sint w < 0 then CHR ''-'' # decimal (- w) else decimal w) in Inr (int (length t), t))"
proof -
  have "number_arg spec0 w = w" for w by (simp add: number_arg_def spec0_def)
  then have "convert (CHR ''d'') spec0 [IntArg w] 0 =
    Inr (if sint w < 0 then CHR ''-'' # decimal (- w) else decimal w, [], [])"
    by (simp add: convert_def base_flags_def spec0_def add_flag_def number_arg_def get_number_decimal)
  then show ?thesis
    by (simp add: sprintf_def vsprintf_def vsprintf_loop.simps parse_spec_d Let_def)
qed

lemma atoi_digits: "\<forall>c \<in> set s. isdigit c \<Longrightarrow> s \<noteq> [] \<Longrightarrow> atoi s = atoi_loop 0 s"
proof -
  assume d: "\<forall>c \<in> set s. isdigit c" and ne: "s \<noteq> []"
  have "\<not> isdigit (CHR ''-'')" by (simp add: isdigit_def)
  then have "hd s \<noteq> CHR ''-''" using d ne hd_in_set by metis
  then show ?thesis by (simp add: atoi_def Let_def)
qed


text \<open>The width of a number without padding: its sign, its prefix, and its digits or the precision.\<close>

definition number_width :: "u32 \<Rightarrow> int \<Rightarrow> int \<Rightarrow> u32 \<Rightarrow> int" where
  "number_width num base precision type =
     (let (sign, n, _) = take_sign type num 0;
          digits = (if n = 0 then ''0'' else digit_loop small_digits (word_of_int base) n)
      in int (length sign) + (if flag type SPECIAL then if base = 16 then 2 else if base = 8 then 1 else 0 else 0) +
         max (int (length digits)) precision)"

lemma length_digit_loop: "length (digit_loop ds b n) = length (digit_loop ds' b n)"
proof (induction ds b n rule: digit_loop.induct)
  case (1 ds b n)
  show ?case
  proof (cases "n = 0 \<or> b \<le> 1")
    case True
    then show ?thesis by (simp add: digit_loop.simps)
  next
    case False
    with "1.IH" show ?thesis by (subst (1 2) digit_loop.simps) (simp add: div_step_def)
  qed
qed

lemma length_lay_out: "int (length (lay_out type sz sign prefix digits)) = int (length sign + length prefix + length digits) + max 0 sz"
proof -
  have both: "flag type LEFT \<Longrightarrow> flag type (ZEROPAD + LEFT)"
  proof -
    have "type AND LEFT = (type AND (ZEROPAD + LEFT)) AND LEFT" by (simp add: ZEROPAD_def LEFT_def and.assoc)
    then show "flag type LEFT \<Longrightarrow> flag type (ZEROPAD + LEFT)" by (auto simp: flag_def)
  qed
  show ?thesis
    by (cases "flag type LEFT"; cases "flag type (ZEROPAD + LEFT)")
      (use both in \<open>auto simp: lay_out_def postdec_def Let_def\<close>)
qed

text \<open>
  The field of a number: for every base from 2 to 36, every precision and every combination of flags,
  \<open>get_number\<close> returns, and the text is exactly as wide as the field, or as the sign, prefix and digits
  together when these are wider.
\<close>

theorem number_field_width:
  assumes "2 \<le> base" and "base \<le> 36"
  shows "\<exists>t. get_number num base sz precision type = Inr t \<and>
    int (length t) = max sz (number_width num base precision (if flag type LEFT then type AND NOT ZEROPAD else type))"
proof -
  define ds where "ds = (if flag type LARGE then large_digits else small_digits)"
  define ty where "ty = (if flag type LEFT then type AND NOT ZEROPAD else type)"
  obtain sign n w where s: "take_sign ty num 0 = (sign, n, w)" by (cases "take_sign ty num 0")
  then have s': "take_sign ty num sz = (sign, n, sz - int (length sign))"
    by (auto simp: take_sign_def split: if_splits)
  have len: "length (digit_loop ds b n) = length (digit_loop small_digits b n)" for b by (rule length_digit_loop)
  show ?thesis
    using assms
    by (auto simp: get_number_def number_width_def Let_def ds_def [symmetric] ty_def [symmetric] s s' len length_lay_out
        max_def split: if_splits)
qed

lemma number_field_width_witness:
  "\<exists>t. get_number 255 16 8 (-1) SPECIAL = Inr t \<and> int (length t) = max 8 (number_width 255 16 (-1) SPECIAL)"
  using number_field_width [of 16 255 8 "-1" SPECIAL] by (simp add: flag_def SPECIAL_def LEFT_def)

end
