(* ===== verification/Devfs.thy ===== *)
theory Devfs imports Ext2_Fs Klib_Stdio Kmt_Sched begin

text \<open>
  The device table of \<open>kernel/src/devices/dev.c\<close> and the two file systems without a disk,
  \<open>kernel/src/filesystems/devfs.c\<close> and \<open>procfs.c\<close>. The read and write operations of the devices are
  reached through function pointers: they are an argument here, indexed by the device's place in the
  table, on a state of the drivers of any type.
\<close>

section \<open>The device table\<close>

datatype dev_ops = Rd_ops | Input_ops | Fb_ops | Tty_ops

record device =
  dev_name :: string
  dev_id :: int
  dev_ops :: dev_ops

definition dev_create :: "string \<Rightarrow> int \<Rightarrow> dev_ops \<Rightarrow> device" where
  "dev_create name i ops = \<lparr>dev_name = name, dev_id = i, dev_ops = ops\<rparr>"

definition devices :: "device list" where
  "devices =
     [dev_create ''ramdisk0'' 1 Rd_ops, dev_create ''ramdisk1'' 2 Rd_ops,
      dev_create ''input'' 1 Input_ops, dev_create ''fb'' 1 Fb_ops,
      dev_create ''tty1'' 1 Tty_ops, dev_create ''tty2'' 2 Tty_ops,
      dev_create ''tty3'' 3 Tty_ops, dev_create ''tty4'' 4 Tty_ops]"

fun dev_search :: "string \<Rightarrow> nat \<Rightarrow> device list \<Rightarrow> nat option" where
  "dev_search name i [] = None"
| "dev_search name i (d # ds) = (if dev_name d = name then Some i else dev_search name (i + 1) ds)"

text \<open>An unknown name is a panic.\<close>

definition dev_lookup :: "string \<Rightarrow> nat result" where
  "dev_lookup name = (case dev_search name 0 devices of Some i \<Rightarrow> Inr i | None \<Rightarrow> Inl Halt)"

text \<open>The tasks \<open>dev_init\<close> starts, with their entry points and arguments; each in newly allocated memory.\<close>

datatype task_entry = Input_task | Tty_task | Shell_task | Echo_task

definition dev_tasks :: "(string \<times> task_entry \<times> string option) list" where
  "dev_tasks =
     [(''input-task'', Input_task, None), (''tty-task'', Tty_task, None),
      (''shell-task-1'', Shell_task, Some ''/dev/tty1''), (''shell-task-2'', Shell_task, Some ''/dev/tty2''),
      (''echo-task-1'', Echo_task, Some ''tty3''), (''echo-task-2'', Echo_task, Some ''tty4'')]"

fun start_tasks ::
  "(u32 \<Rightarrow> u32 \<Rightarrow> task_entry \<Rightarrow> string option \<Rightarrow> 'ctx) \<Rightarrow> nat \<Rightarrow> nat list \<Rightarrow>
     (string \<times> task_entry \<times> string option) list \<Rightarrow> 'ctx kmt_state \<Rightarrow> 'ctx kmt_state result" where
  "start_tasks kc c (p # ps) ((name, entry, arg) # ts) s =
     bindr (kmt_create kc c p name entry arg s) (\<lambda>(_, s'). start_tasks kc c ps ts s')"
| "start_tasks kc c ps [] s = Inr s"
| "start_tasks kc c [] ts s = Inl BadAccess"

section \<open>The drivers\<close>

text \<open>A read returns the value of the call and the bytes it stored.\<close>

record 'w driver_table =
  op_read :: "nat \<Rightarrow> int \<Rightarrow> u32 \<Rightarrow> 'w \<Rightarrow> (int \<times> u8 list \<times> 'w) result"
  op_write :: "nat \<Rightarrow> int \<Rightarrow> u8 list \<Rightarrow> 'w \<Rightarrow> (int \<times> 'w) result"

section \<open>devfs\<close>

definition devfs_devices :: "string list" where
  "devfs_devices = [''tty1'', ''tty2'', ''tty3'', ''tyy4'', ''ramdisk0'', ''ramdiskm1'']"

definition checkdevice :: "string \<Rightarrow> bool" where
  "checkdevice name \<longleftrightarrow> name \<in> set devfs_devices"

definition is_dir_name :: "string \<Rightarrow> bool" where
  "is_dir_name name \<longleftrightarrow> name = [] \<or> name = ''.'' \<or> name = ''..''"

text \<open>
  For a name that is not in the list the code frees \<open>dev\<close>, the module's function table, which is not
  on the heap.
\<close>

definition devfs_lookup :: "filesystem \<Rightarrow> string \<Rightarrow> inode option result" where
  "devfs_lookup fs name =
     (let ret = (new_inode fs Devfs_ops)\<lparr>i_permission := R_OK OR W_OK, i_size := 0, i_link_num := 1\<rparr>
      in if is_dir_name name
         then Inr (Some (ret\<lparr>i_id := 0, fs_inode := NoData, i_type := DR, i_dir_len := 8\<rparr>))
         else if \<not> checkdevice name then Inl BadAccess
         else bindr (dev_lookup name) (\<lambda>d.
                Inr (Some (ret\<lparr>i_id := word_of_int (dev_id (devices ! d)), fs_inode := DevData d,
                  i_type := (if take 7 name = ''ramdisk'' then DV_BLOCK else DV_CHAR), i_dir_len := 0\<rparr>))))"

definition devfs_inode_open :: "vfile \<Rightarrow> u32 \<Rightarrow> int \<times> vfile" where
  "devfs_inode_open f flags = (0, f\<lparr>f_offset := 0\<rparr>)"

definition devfs_inode_close :: "vfile \<Rightarrow> int" where
  "devfs_inode_close f = 0"

text \<open>\<open>DEV(file)\<close>.\<close>

definition DEV :: "vfile \<Rightarrow> nat result" where
  "DEV f = (case fs_inode (f_inode f) of DevData d \<Rightarrow> Inr d | _ \<Rightarrow> Inl BadAccess)"

definition devfs_ls :: string where
  "devfs_ls = ''.'' @ [CHR 0x0A] @ ''..'' @ [CHR 0x0A] @ ''tty1'' @ [CHR 0x0A] @ ''tty2'' @ [CHR 0x0A] @ ''tty3'' @ [CHR 0x0A] @
     ''tty4'' @ [CHR 0x0A] @ ''ramdisk0'' @ [CHR 0x0A] @ ''ramdisk1'' @ [CHR 0x0A]"

definition file_pos :: "vfile \<Rightarrow> int" where
  "file_pos f = sint (ucast (f_offset f) :: u32)"

definition devfs_inode_read ::
  "'w driver_table \<Rightarrow> vfile \<Rightarrow> u8 list \<Rightarrow> u32 \<Rightarrow> 'w \<Rightarrow> (int \<times> u8 list \<times> 'w) result" where
  "devfs_inode_read ops f buf n w =
     (if i_id (f_inode f) = 0
      then bindr (buf_put buf 0 (name_bytes devfs_ls)) (\<lambda>b. Inr (int (length devfs_ls), b, w))
      else if i_type (f_inode f) = DV_BLOCK then Inr (-1, buf, w)
      else bindr (DEV f) (\<lambda>d. bindr (op_read ops d (file_pos f) n w) (\<lambda>(ret, bs, w').
             bindr (buf_put buf 0 bs) (\<lambda>b. Inr (ret, b, w')))))"

definition devfs_inode_write :: "'w driver_table \<Rightarrow> vfile \<Rightarrow> u8 list \<Rightarrow> 'w \<Rightarrow> (int \<times> 'w) result" where
  "devfs_inode_write ops f bs w =
     (if i_id (f_inode f) = 0 \<or> i_type (f_inode f) = DV_BLOCK then Inr (-1, w)
      else bindr (DEV f) (\<lambda>d. op_write ops d (file_pos f) bs w))"

section \<open>procfs\<close>

text \<open>What the reports print of the machine.\<close>

record machine =
  ncpu :: u32
  heap_start :: u32
  heap_end :: u32

definition task_num :: "nat \<Rightarrow> 'ctx kmt_state \<Rightarrow> (nat \<times> 'ctx kmt_state) result" where
  "task_num c s = kmt_locked c s (Inr (length (filter (\<lambda>i. tasks s i \<noteq> None) [0..<MAXTASK]), s))"

definition task_at :: "'ctx kmt_state \<Rightarrow> int \<Rightarrow> task_ref option result" where
  "task_at s i = (if 0 \<le> i \<and> i < int MAXTASK then Inr (tasks s (nat i)) else Inl BadAccess)"

definition procfs_lookup ::
  "nat \<Rightarrow> filesystem \<Rightarrow> string \<Rightarrow> 'ctx kmt_state \<Rightarrow> (inode option \<times> 'ctx kmt_state) result" where
  "procfs_lookup c fs name s =
     (let ret = (new_inode fs Procfs_ops)\<lparr>i_permission := R_OK, i_size := 0, i_link_num := 1\<rparr>
      in if is_dir_name name
         then bindr (task_num c s) (\<lambda>(n, s').
                Inr (Some (ret\<lparr>i_id := 0, i_type := DR, i_dir_len := of_nat (2 + n)\<rparr>), s'))
         else if name = ''cpuinfo'' then Inr (Some (ret\<lparr>i_id := 1, i_type := NF\<rparr>), s)
         else if name = ''meminfo'' then Inr (Some (ret\<lparr>i_id := 2, i_type := NF\<rparr>), s)
         else if isnum name
         then bindr (task_at s (atoi name)) (\<lambda>t.
                Inr (if t = None then None else Some (ret\<lparr>i_id := 3, i_type := NF, fs_inode := NameData name\<rparr>), s))
         else Inr (None, s))"

definition nl :: string where
  "nl = [CHR 0x0A]"

text \<open>\<open>sprintf(buf+strlen(buf), ...)\<close> for every task.\<close>

fun list_tasks :: "'ctx kmt_state \<Rightarrow> nat list \<Rightarrow> string \<Rightarrow> string result" where
  "list_tasks s [] text = Inr text"
| "list_tasks s (i # is) text =
     (if tasks s i \<noteq> None
      then bindr (sprintf (''%d'' @ nl) [IntArg (of_nat i)]) (\<lambda>(_, t). list_tasks s is (text @ t))
      else list_tasks s is text)"

definition meminfo_format :: string where
  "meminfo_format = '' heap start: %#lx'' @ nl @ ''   heap end: %#lx'' @ nl @ ''  heap size: %ld'' @ nl @ nl @
     ''Root Filesystem Info'' @ nl @ ''         FS:ext2'' @ nl @ '' Block Size: %#lx'' @ nl @ '' IBlock Num: %d'' @ nl @
     ''Inode Start: %d'' @ nl @ '' Inode Size: %#lx'' @ nl @ '' Data Start: %d'' @ nl"

definition procfs_text :: "machine \<Rightarrow> nat \<Rightarrow> vfile \<Rightarrow> 'ctx kmt_state \<Rightarrow> (string option \<times> 'ctx kmt_state) result" where
  "procfs_text mc c f s =
     (if i_id (f_inode f) = 0
      then bindr (sprintf (''.'' @ nl @ ''..'' @ nl @ ''cpuinfo'' @ nl @ ''meminfo'' @ nl) []) (\<lambda>(_, t).
             kmt_locked c s (bindr (list_tasks s [0..<MAXTASK] t) (\<lambda>t'. Inr (Some t', s))))
      else if i_id (f_inode f) = 1
      then bindr (sprintf (''cpus amount: %d'' @ nl) [IntArg (ncpu mc)]) (\<lambda>(_, t). Inr (Some t, s))
      else if i_id (f_inode f) = 2
      then bindr (sprintf meminfo_format [IntArg (heap_start mc), IntArg (heap_end mc),
               IntArg (heap_end mc - heap_start mc), IntArg (of_nat BLOCK_BYTES), IntArg (of_nat ITABLE_NUM),
               IntArg (of_nat ITABLE), IntArg (of_nat INODE_BYTES), IntArg (of_nat DATA_B)]) (\<lambda>(_, t). Inr (Some t, s))
      else if i_id (f_inode f) = 3
      then (case fs_inode (f_inode f) of
              NameData name \<Rightarrow>
                bindr (kmt_locked c s (bindr (task_at s (atoi name)) (\<lambda>t. Inr (t, s)))) (\<lambda>(t, s').
                  case t of
                    None \<Rightarrow> Inl BadAccess
                  | Some p \<Rightarrow>
                      (let tk = tstore s' p
                       in bindr (sprintf (''    name: %s'' @ nl @ ''      id: %d'' @ nl @ ''runnable: %d'' @ nl @ ''sleeping: %d'' @ nl)
                              [StrArg (t_name tk), IntArg (word_of_int (t_id tk)), IntArg (word_of_int (t_run tk)),
                               IntArg (word_of_int (t_sleep tk))]) (\<lambda>(_, t). Inr (Some t, s'))))
            | _ \<Rightarrow> Inl BadAccess)
      else Inr (None, s))"

definition procfs_inode_read ::
  "machine \<Rightarrow> nat \<Rightarrow> vfile \<Rightarrow> u8 list \<Rightarrow> u32 \<Rightarrow> 'ctx kmt_state \<Rightarrow> (int \<times> u8 list \<times> 'ctx kmt_state) result" where
  "procfs_inode_read mc c f buf n s =
     bindr (procfs_text mc c f s) (\<lambda>(t, s').
       case t of
         None \<Rightarrow> Inr (-1, buf, s')
       | Some text \<Rightarrow> bindr (buf_put buf 0 (name_bytes text)) (\<lambda>b. Inr (int (length text), b, s')))"

definition procfs_inode_open :: "vfile \<Rightarrow> u32 \<Rightarrow> int \<times> vfile" where
  "procfs_inode_open f flags = (0, f\<lparr>f_offset := 0\<rparr>)"

definition procfs_inode_close :: "vfile \<Rightarrow> int" where
  "procfs_inode_close f = 0"

end
