(* ===== verification/Vfs.thy ===== *)
theory Vfs imports Devfs begin

text \<open>
  The virtual file system, \<open>kernel/src/vfs.c\<close>: the mount table, the files a task has open, and the
  system calls, which find the file system by the longest mounted prefix and call its operations.
  An operation a file system lacks is a NULL pointer in its table. \<open>c\<close> is the CPU the caller runs on.
\<close>

section \<open>State\<close>

record mountpoint =
  m_path :: string
  m_fs :: filesystem
  m_exists :: bool

definition MAXMP :: nat where "MAXMP = 64"
definition NOFILE :: nat where "NOFILE = 64"

text \<open>
  \<open>flides\<close> is the file table of the task the CPU runs; before the first task runs it is whatever
  \<open>cputask[_cpu()]\<close> points to. \<open>disks\<close> are the RAM disks by their place in the device table.
\<close>

record ('ctx, 'w) vfs_state =
  mpt :: "mountpoint list"
  flides :: "vfile option list"
  initialized :: bool
  lock_vfs :: spinlock
  disks :: "nat \<Rightarrow> rd_t"
  gid :: u32
  vkmt :: "'ctx kmt_state"
  drivers :: 'w

text \<open>What the machine and the drivers provide.\<close>

record 'w vfs_env =
  env_machine :: machine
  env_ops :: "'w driver_table"

text \<open>The CPU state lives in the memory manager; the two locks of this file.\<close>

definition vcpu :: "('ctx, 'w) vfs_state \<Rightarrow> cpu_state" where
  "vcpu s = kcpu (kpmm (vkmt s))"

definition set_vcpu :: "cpu_state \<Rightarrow> ('ctx, 'w) vfs_state \<Rightarrow> ('ctx, 'w) vfs_state" where
  "set_vcpu cs s = s\<lparr>vkmt := (vkmt s)\<lparr>kpmm := (kpmm (vkmt s))\<lparr>kcpu := cs\<rparr>\<rparr>\<rparr>"

definition vfs_lock :: "nat \<Rightarrow> ('ctx, 'w) vfs_state \<Rightarrow> ('ctx, 'w) vfs_state result" where
  "vfs_lock c s = bindr (spin_lock c (lock_vfs s) (vcpu s)) (\<lambda>(lk, cs). Inr (set_vcpu cs (s\<lparr>lock_vfs := lk\<rparr>)))"

definition vfs_unlock :: "nat \<Rightarrow> ('ctx, 'w) vfs_state \<Rightarrow> ('ctx, 'w) vfs_state result" where
  "vfs_unlock c s = bindr (spin_unlock c (lock_vfs s) (vcpu s)) (\<lambda>(lk, cs). Inr (set_vcpu cs (s\<lparr>lock_vfs := lk\<rparr>)))"

section \<open>The mount table\<close>

text \<open>The first free slot, unless the path is mounted already; -1 when there is neither.\<close>

fun mount_slot :: "string \<Rightarrow> int \<Rightarrow> nat \<Rightarrow> mountpoint list \<Rightarrow> int option" where
  "mount_slot path index i [] = Some index"
| "mount_slot path index i (m # ms) =
     (if index = -1 \<and> \<not> m_exists m then mount_slot path (int i) (i + 1) ms
      else if m_exists m \<and> path = m_path m then None
      else mount_slot path index (i + 1) ms)"

definition vfs_mount :: "string \<Rightarrow> filesystem \<Rightarrow> ('ctx, 'w) vfs_state \<Rightarrow> (int \<times> ('ctx, 'w) vfs_state) result" where
  "vfs_mount path fs s =
     (case mount_slot path (-1) 0 (mpt s) of
        None \<Rightarrow> Inr (-1, s)
      | Some i \<Rightarrow>
          if i < 0 then Inl BadAccess
          else Inr (0, s\<lparr>mpt := (mpt s)[nat i := \<lparr>m_path = path, m_fs = fs, m_exists = True\<rparr>]\<rparr>))"

definition vfs_unmount :: "string \<Rightarrow> ('ctx, 'w) vfs_state \<Rightarrow> int \<times> ('ctx, 'w) vfs_state" where
  "vfs_unmount path s =
     (if \<exists>m \<in> set (mpt s). m_exists m \<and> path = m_path m then 0 else -1,
      s\<lparr>mpt := map (\<lambda>m. if m_exists m \<and> path = m_path m then m\<lparr>m_exists := False\<rparr> else m) (mpt s)\<rparr>)"

text \<open>\<open>strncmp(path, p, strlen(p)) == 0\<close>: \<open>p\<close> is a prefix of the path.\<close>

fun get_mount_loop :: "string \<Rightarrow> int \<Rightarrow> nat \<Rightarrow> nat \<Rightarrow> mountpoint list \<Rightarrow> int" where
  "get_mount_loop path index len i [] = index"
| "get_mount_loop path index len i (m # ms) =
     (if m_exists m \<and> take (length (m_path m)) path = m_path m \<and> len < length (m_path m)
      then get_mount_loop path (int i) (length (m_path m)) (i + 1) ms
      else get_mount_loop path index len (i + 1) ms)"

definition get_mount :: "string \<Rightarrow> ('ctx, 'w) vfs_state \<Rightarrow> int" where
  "get_mount path s = get_mount_loop path (-1) 0 0 (mpt s)"

text \<open>The entry and \<open>RAW(path)\<close>; index -1 is outside the table.\<close>

definition mounted :: "string \<Rightarrow> ('ctx, 'w) vfs_state \<Rightarrow> (filesystem \<times> string) result" where
  "mounted path s =
     (let i = get_mount path s
      in if i < 0 then Inl BadAccess
         else Inr (m_fs (mpt s ! nat i), drop (length (m_path (mpt s ! nat i))) path))"

section \<open>Calls through the tables of operations\<close>

definition disk_of :: "filesystem \<Rightarrow> nat result" where
  "disk_of fs = (case fs_dev fs of Some d \<Rightarrow> Inr d | None \<Rightarrow> Inl BadAccess)"

definition fs_lookup ::
  "nat \<Rightarrow> filesystem \<Rightarrow> string \<Rightarrow> ('ctx, 'w) vfs_state \<Rightarrow> (inode option \<times> ('ctx, 'w) vfs_state) result" where
  "fs_lookup c fs name s =
     (case fs_ops fs of
        Ext2_ops \<Rightarrow> bindr (disk_of fs) (\<lambda>d. bindr (ext2_lookup fs (Some name) (disks s d)) (\<lambda>i. Inr (i, s)))
      | Devfs_ops \<Rightarrow> bindr (devfs_lookup fs name) (\<lambda>i. Inr (i, s))
      | Procfs_ops \<Rightarrow> bindr (procfs_lookup c fs name (vkmt s)) (\<lambda>(i, k). Inr (i, s\<lparr>vkmt := k\<rparr>)))"

text \<open>An operation on a disk that may change it; None for a NULL entry in the table.\<close>

definition on_disk ::
  "(rd_t \<times> u32 \<Rightarrow> (int \<times> rd_t \<times> u32) result) \<Rightarrow> filesystem \<Rightarrow> ('ctx, 'w) vfs_state \<Rightarrow> (int \<times> ('ctx, 'w) vfs_state) result" where
  "on_disk f fs s =
     bindr (disk_of fs) (\<lambda>d. bindr (f (disks s d, gid s)) (\<lambda>(r, rd, g).
       Inr (r, s\<lparr>disks := (disks s)(d := rd), gid := g\<rparr>)))"

definition fs_mkdir :: "filesystem \<Rightarrow> (string \<Rightarrow> ('ctx, 'w) vfs_state \<Rightarrow> (int \<times> ('ctx, 'w) vfs_state) result) option" where
  "fs_mkdir fs = (case fs_ops fs of Ext2_ops \<Rightarrow> Some (\<lambda>name. on_disk (ext2_mkdir name) fs) | _ \<Rightarrow> None)"

definition fs_create :: "filesystem \<Rightarrow> (string \<Rightarrow> ('ctx, 'w) vfs_state \<Rightarrow> (int \<times> ('ctx, 'w) vfs_state) result) option" where
  "fs_create fs = (case fs_ops fs of Ext2_ops \<Rightarrow> Some (\<lambda>name. on_disk (ext2_create name) fs) | _ \<Rightarrow> None)"

definition fs_rm :: "filesystem \<Rightarrow> (string \<Rightarrow> ('ctx, 'w) vfs_state \<Rightarrow> (int \<times> ('ctx, 'w) vfs_state) result) option" where
  "fs_rm fs = (case fs_ops fs of
       Ext2_ops \<Rightarrow> Some (\<lambda>name. on_disk (\<lambda>(rd, g). bindr (ext2_rm name rd) (\<lambda>(r, rd'). Inr (r, rd', g))) fs)
     | _ \<Rightarrow> None)"

definition inode_open :: "vfile \<Rightarrow> u32 \<Rightarrow> int \<times> vfile" where
  "inode_open f flags = (case i_ops (f_inode f) of
       Ext2_ops \<Rightarrow> ext2_inode_open f flags | Devfs_ops \<Rightarrow> devfs_inode_open f flags | Procfs_ops \<Rightarrow> procfs_inode_open f flags)"

definition inode_close :: "vfile \<Rightarrow> int" where
  "inode_close f = (case i_ops (f_inode f) of
       Ext2_ops \<Rightarrow> ext2_inode_close f | Devfs_ops \<Rightarrow> devfs_inode_close f | Procfs_ops \<Rightarrow> procfs_inode_close f)"

definition inode_read ::
  "'w vfs_env \<Rightarrow> nat \<Rightarrow> vfile \<Rightarrow> u8 list \<Rightarrow> u32 \<Rightarrow> ('ctx, 'w) vfs_state \<Rightarrow> (int \<times> u8 list \<times> ('ctx, 'w) vfs_state) result" where
  "inode_read env c f buf n s = (case i_ops (f_inode f) of
       Ext2_ops \<Rightarrow> bindr (disk_of (i_fs (f_inode f))) (\<lambda>d.
         bindr (ext2_inode_read (disks s d) f buf n) (\<lambda>(r, b). Inr (r, b, s)))
     | Devfs_ops \<Rightarrow> bindr (devfs_inode_read (env_ops env) f buf n (drivers s)) (\<lambda>(r, b, w). Inr (r, b, s\<lparr>drivers := w\<rparr>))
     | Procfs_ops \<Rightarrow> bindr (procfs_inode_read (env_machine env) c f buf n (vkmt s)) (\<lambda>(r, b, k). Inr (r, b, s\<lparr>vkmt := k\<rparr>)))"

text \<open>The writes and links change the inode of the file; None for a NULL entry.\<close>

definition inode_write ::
  "'w vfs_env \<Rightarrow> vfile \<Rightarrow> (u8 list \<Rightarrow> ('ctx, 'w) vfs_state \<Rightarrow> (int \<times> vfile \<times> ('ctx, 'w) vfs_state) result) option" where
  "inode_write env f = (case i_ops (f_inode f) of
       Ext2_ops \<Rightarrow> Some (\<lambda>bs s. bindr (disk_of (i_fs (f_inode f))) (\<lambda>d.
         bindr (ext2_inode_write bs (disks s d) f) (\<lambda>(r, rd, f'). Inr (r, f', s\<lparr>disks := (disks s)(d := rd)\<rparr>))))
     | Devfs_ops \<Rightarrow> Some (\<lambda>bs s. bindr (devfs_inode_write (env_ops env) f bs (drivers s)) (\<lambda>(r, w). Inr (r, f, s\<lparr>drivers := w\<rparr>)))
     | Procfs_ops \<Rightarrow> None)"

definition inode_link :: "vfile \<Rightarrow> (string \<Rightarrow> ('ctx, 'w) vfs_state \<Rightarrow> (int \<times> vfile \<times> ('ctx, 'w) vfs_state) result) option" where
  "inode_link f = (case i_ops (f_inode f) of
       Ext2_ops \<Rightarrow> Some (\<lambda>name s. bindr (disk_of (i_fs (f_inode f))) (\<lambda>d.
         bindr (ext2_inode_link name (disks s d) f) (\<lambda>(r, rd, f'). Inr (r, f', s\<lparr>disks := (disks s)(d := rd)\<rparr>))))
     | _ \<Rightarrow> None)"

definition inode_lseek :: "vfile \<Rightarrow> (int \<Rightarrow> int \<Rightarrow> int \<times> vfile) option" where
  "inode_lseek f = (case i_ops (f_inode f) of Ext2_ops \<Rightarrow> Some (ext2_inode_lseek f) | _ \<Rightarrow> None)"

section \<open>Open files\<close>

text \<open>\<open>FILE(fd)\<close>, outside the table of 64 entries a wrong access.\<close>

definition FILE :: "int \<Rightarrow> ('ctx, 'w) vfs_state \<Rightarrow> vfile option result" where
  "FILE fd s = (if 0 \<le> fd \<and> fd < int (length (flides s)) then Inr (flides s ! nat fd) else Inl BadAccess)"

definition set_FILE :: "int \<Rightarrow> vfile option \<Rightarrow> ('ctx, 'w) vfs_state \<Rightarrow> ('ctx, 'w) vfs_state" where
  "set_FILE fd f s = s\<lparr>flides := (flides s)[nat fd := f]\<rparr>"

fun free_index :: "nat \<Rightarrow> vfile option list \<Rightarrow> int" where
  "free_index i [] = -1"
| "free_index i (f # fs) = (if f = None then int i else free_index (i + 1) fs)"

definition get_free_flides :: "('ctx, 'w) vfs_state \<Rightarrow> int" where
  "get_free_flides s = (if \<not> initialized s then 0 else free_index 0 (flides s))"

text \<open>\<open>vfs_access\<close> looks the whole path up, and answers -1 whatever it finds.\<close>

definition vfs_access :: "nat \<Rightarrow> string \<Rightarrow> u16 \<Rightarrow> ('ctx, 'w) vfs_state \<Rightarrow> (int \<times> ('ctx, 'w) vfs_state) result" where
  "vfs_access c path mode s =
     bindr (mounted path s) (\<lambda>(fs, _). bindr (fs_lookup c fs path s) (\<lambda>(cur, s').
       Inr (case cur of
              None \<Rightarrow> if (mode OR F_OK) \<noteq> 0 then -1 else 0
            | Some i \<Rightarrow>
                if (mode OR F_OK) \<noteq> 0 \<and> (i_permission i OR R_OK) \<noteq> 0 then -1
                else if (mode OR F_OK) \<noteq> 0 \<and> (i_permission i OR W_OK) \<noteq> 0 then -1
                else if (mode OR F_OK) \<noteq> 0 \<and> (i_permission i OR X_OK) \<noteq> 0 then -1
                else 0, s')))"

definition vfs_mkdir :: "string \<Rightarrow> ('ctx, 'w) vfs_state \<Rightarrow> (int \<times> ('ctx, 'w) vfs_state) result" where
  "vfs_mkdir path s = bindr (mounted path s) (\<lambda>(fs, raw).
     case fs_mkdir fs of None \<Rightarrow> Inr (-1, s) | Some mk \<Rightarrow> mk raw s)"

definition vfs_rmdir :: "string \<Rightarrow> ('ctx, 'w) vfs_state \<Rightarrow> (int \<times> ('ctx, 'w) vfs_state) result" where
  "vfs_rmdir path s = bindr (mounted path s) (\<lambda>(fs, raw).
     if length raw \<le> 1 then Inr (-1, s)
     else case fs_rm fs of None \<Rightarrow> Inr (-1, s) | Some rm \<Rightarrow> rm raw s)"

definition vfs_unlink :: "string \<Rightarrow> ('ctx, 'w) vfs_state \<Rightarrow> (int \<times> ('ctx, 'w) vfs_state) result" where
  "vfs_unlink path s = bindr (mounted path s) (\<lambda>(fs, raw).
     case fs_rm fs of None \<Rightarrow> Inr (-1, s) | Some rm \<Rightarrow> rm raw s)"

text \<open>The part of \<open>vfs_open\<close> that finds the inode or creates the file.\<close>

definition open_inode :: "nat \<Rightarrow> filesystem \<Rightarrow> string \<Rightarrow> u32 \<Rightarrow> ('ctx, 'w) vfs_state \<Rightarrow> (inode option \<times> ('ctx, 'w) vfs_state) result" where
  "open_inode c fs raw flags s =
     bindr (fs_lookup c fs raw s) (\<lambda>(cur, s1).
       case cur of
         Some i \<Rightarrow> Inr (Some i, s1)
       | None \<Rightarrow>
           if flags AND O_CREAT \<noteq> 0
           then (case fs_create fs of
                   None \<Rightarrow> Inr (None, s1)
                 | Some create \<Rightarrow> bindr (create raw s1) (\<lambda>(ret, s2).
                     if ret = 0 then fs_lookup c fs raw s2 else Inr (None, s2)))
           else Inr (None, s1))"

definition vfs_open :: "nat \<Rightarrow> string \<Rightarrow> u32 \<Rightarrow> ('ctx, 'w) vfs_state \<Rightarrow> (int \<times> ('ctx, 'w) vfs_state) result" where
  "vfs_open c path flags s =
     bindr (vfs_lock c s) (\<lambda>s0. bindr (mounted path s0) (\<lambda>(fs, raw).
       bindr (open_inode c fs raw flags s0) (\<lambda>(cur, s1).
         case cur of
           None \<Rightarrow> bindr (vfs_unlock c s1) (\<lambda>s2. Inr (-1, s2))
         | Some i \<Rightarrow>
             (let findex = get_free_flides s1
              in bindr (kmt_locked c (vkmt s1) (bindr (assert_that (findex \<ge> 0)) (\<lambda>_. Inr ((), vkmt s1)))) (\<lambda>(_, k).
                   bindr (FILE findex s1) (\<lambda>_.
                     let s2 = s1\<lparr>vkmt := k\<rparr>;
                         (r, f) = inode_open \<lparr>f_inode = i, f_offset = 0\<rparr> flags
                     in bindr (vfs_unlock c (set_FILE findex (Some f) s2)) (\<lambda>s3. Inr (findex, s3))))))))"

definition vfs_close :: "nat \<Rightarrow> int \<Rightarrow> ('ctx, 'w) vfs_state \<Rightarrow> (int \<times> ('ctx, 'w) vfs_state) result" where
  "vfs_close c fd s =
     bindr (FILE fd s) (\<lambda>x. case x of
       None \<Rightarrow> Inr (-1, s)
     | Some f \<Rightarrow> bindr (vfs_lock c s) (\<lambda>s1.
         let r = inode_close f
         in bindr (vfs_unlock c (set_FILE fd None s1)) (\<lambda>s2. Inr (0, s2))))"

definition vfs_read ::
  "'w vfs_env \<Rightarrow> nat \<Rightarrow> int \<Rightarrow> u8 list \<Rightarrow> u32 \<Rightarrow> ('ctx, 'w) vfs_state \<Rightarrow> (int \<times> u8 list \<times> ('ctx, 'w) vfs_state) result" where
  "vfs_read env c fd buf n s =
     bindr (FILE fd s) (\<lambda>x. case x of None \<Rightarrow> Inr (-1, buf, s) | Some f \<Rightarrow> inode_read env c f buf n s)"

definition vfs_write ::
  "'w vfs_env \<Rightarrow> int \<Rightarrow> u8 list \<Rightarrow> ('ctx, 'w) vfs_state \<Rightarrow> (int \<times> ('ctx, 'w) vfs_state) result" where
  "vfs_write env fd bs s =
     bindr (FILE fd s) (\<lambda>x. case x of
       None \<Rightarrow> Inr (-1, s)
     | Some f \<Rightarrow> (case inode_write env f of
         None \<Rightarrow> Inr (-1, s)
       | Some write \<Rightarrow> bindr (write bs s) (\<lambda>(r, f', s'). Inr (r, set_FILE fd (Some f') s'))))"

definition vfs_lseek :: "int \<Rightarrow> int \<Rightarrow> int \<Rightarrow> ('ctx, 'w) vfs_state \<Rightarrow> (int \<times> ('ctx, 'w) vfs_state) result" where
  "vfs_lseek fd offset whence s =
     bindr (FILE fd s) (\<lambda>x. case x of
       None \<Rightarrow> Inr (-1, s)
     | Some f \<Rightarrow> (case inode_lseek f of
         None \<Rightarrow> Inr (-1, s)
       | Some seek \<Rightarrow> (let (r, f') = seek offset whence in Inr (r, set_FILE fd (Some f') s))))"

text \<open>\<open>vfs_link\<close> does not look at the file descriptor, nor closes it; a NULL file is dereferenced.\<close>

definition vfs_link :: "nat \<Rightarrow> string \<Rightarrow> string \<Rightarrow> ('ctx, 'w) vfs_state \<Rightarrow> (int \<times> ('ctx, 'w) vfs_state) result" where
  "vfs_link c oldpath newpath s =
     bindr (vfs_open c oldpath 0 s) (\<lambda>(fd, s1).
       bindr (FILE fd s1) (\<lambda>x. case x of
         None \<Rightarrow> Inl BadAccess
       | Some f \<Rightarrow> (case inode_link f of
           None \<Rightarrow> Inr (-1, s1)
         | Some link \<Rightarrow> bindr (mounted newpath s1) (\<lambda>(_, raw).
             bindr (link raw s1) (\<lambda>(r, f', s2). Inr (r, set_FILE fd (Some f') s2))))))"

section \<open>Initialisation\<close>

text \<open>A file system on a RAM disk: \<open>init\<close> of \<open>ext2_ops\<close>, then the mount.\<close>

definition mount_disk ::
  "string \<Rightarrow> string \<Rightarrow> ('ctx, 'w) vfs_state \<Rightarrow> ('ctx, 'w) vfs_state result" where
  "mount_disk dname path s =
     bindr (dev_lookup dname) (\<lambda>d.
       bindr (ext2_init ''/'' (disks s d, gid s)) (\<lambda>(rd, g).
         bindr (vfs_mount path \<lparr>fs_ops = Ext2_ops, fs_dev = Some d\<rparr> (s\<lparr>disks := (disks s)(d := rd), gid := g\<rparr>))
           (\<lambda>(_, s'). Inr s')))"

fun make_dirs :: "string list \<Rightarrow> ('ctx, 'w) vfs_state \<Rightarrow> ('ctx, 'w) vfs_state result" where
  "make_dirs [] s = Inr s"
| "make_dirs (p # ps) s = bindr (vfs_mkdir p s) (\<lambda>(_, s'). make_dirs ps s')"

definition passwd_line :: string where
  "passwd_line = ''zhengzangw:x:1000:1000:zhengzangw,,,:/home/zhengzangw:/bin/awsh''"

definition vfs_init :: "'w vfs_env \<Rightarrow> nat \<Rightarrow> ('ctx, 'w) vfs_state \<Rightarrow> ('ctx, 'w) vfs_state result" where
  "vfs_init env c s =
     bindr (mount_disk ''ramdisk0'' ''/'' (s\<lparr>lock_vfs := spin_init (lock_vfs s) ''vfs''\<rparr>)) (\<lambda>s1.
       bindr (make_dirs [''/bin'', ''/home'', ''/usr'', ''/usr/bin'', ''/mnt'', ''/dev'', ''/proc'', ''/etc''] s1) (\<lambda>s2.
         bindr (vfs_open c ''/etc/passwd'' O_CREAT s2) (\<lambda>(fd, s3).
           bindr (vfs_write env fd (map of_char passwd_line) s3) (\<lambda>(_, s4).
             bindr (vfs_close c fd s4) (\<lambda>(_, s5).
               bindr (mount_disk ''ramdisk1'' ''/mnt/'' s5) (\<lambda>s6.
                 bindr (vfs_mount ''/dev/'' \<lparr>fs_ops = Devfs_ops, fs_dev = None\<rparr> s6) (\<lambda>(_, s7).
                   bindr (vfs_mount ''/proc/'' \<lparr>fs_ops = Procfs_ops, fs_dev = None\<rparr> s7) (\<lambda>(_, s8). Inr s8))))))))"

end
