(* ===== verification/Vfs_Files.thy ===== *)
theory Vfs_Files imports Vfs begin

text \<open>
  What the system calls guarantee: the mount a path belongs to, the table of open files, and that the
  locks are free again when a call returns.
\<close>

section \<open>The locks\<close>

definition vfs_idle :: "('ctx, 'w) vfs_state \<Rightarrow> bool" where
  "vfs_idle s \<longleftrightarrow> lock_free (lock_vfs s) \<and> lock_free (lock_kmt (vkmt s)) \<and> cli_ok (vcpu s)"

text \<open>The state inside the lock of the file system, and after it.\<close>

definition vfs_held :: "nat \<Rightarrow> ('ctx, 'w) vfs_state \<Rightarrow> ('ctx, 'w) vfs_state" where
  "vfs_held c s = set_vcpu (pushcli (vcpu s)) (s\<lparr>lock_vfs := (lock_vfs s)\<lparr>locked := 1, lk_cpu := int c\<rparr>\<rparr>)"

definition vfs_released :: "('ctx, 'w) vfs_state \<Rightarrow> ('ctx, 'w) vfs_state" where
  "vfs_released s = set_vcpu (cli_refresh (vcpu s)) s"

lemma set_vcpu_simps [simp]:
  "vcpu (set_vcpu cs s) = cs" "set_vcpu cs (set_vcpu cs' s) = set_vcpu cs s" "set_vcpu (vcpu s) s = s"
  "flides (set_vcpu cs s) = flides s" "mpt (set_vcpu cs s) = mpt s" "initialized (set_vcpu cs s) = initialized s"
  "lock_vfs (set_vcpu cs s) = lock_vfs s" "lock_kmt (vkmt (set_vcpu cs s)) = lock_kmt (vkmt s)"
  by (simp_all add: vcpu_def set_vcpu_def)

lemma vfs_lock_idle: "vfs_idle s \<Longrightarrow> vfs_lock c s = Inr (vfs_held c s)"
  by (simp add: vfs_lock_def vfs_idle_def spin_lock_free vfs_held_def)

lemma idle_lock_again: "lock_free lk \<Longrightarrow> lk\<lparr>locked := 0, lk_cpu := -1\<rparr> = lk"
  by (simp add: lock_free_def)

text \<open>Unlocking a state that differs from the locked one in other parts only.\<close>

lemma vfs_unlock_held:
  assumes idle: "vfs_idle s" and lk: "lock_vfs s1 = lock_vfs (vfs_held c s)" and cpu: "vcpu s1 = vcpu (vfs_held c s)"
  shows "vfs_unlock c s1 = Inr (set_vcpu (cli_refresh (vcpu s)) (s1\<lparr>lock_vfs := lock_vfs s\<rparr>))"
proof -
  have ok: "cli_ok (vcpu s)" "lock_free (lock_vfs s)" using idle by (simp_all add: vfs_idle_def)
  have "spin_unlock c (lock_vfs s1) (vcpu s1) = Inr ((lock_vfs s1)\<lparr>lk_cpu := -1, locked := 0\<rparr>, popcli (vcpu s1))"
    by (rule spin_unlock_held) (use ok lk cpu in \<open>auto simp: vfs_held_def inv_intros cli_ok_def\<close>)
  moreover have "(lock_vfs s1)\<lparr>lk_cpu := -1, locked := 0\<rparr> = lock_vfs s"
    using ok(2) lk by (simp add: vfs_held_def lock_free_def)
  moreover have "popcli (vcpu s1) = cli_refresh (vcpu s)" using cpu ok(1) by (simp add: vfs_held_def popcli_pushcli)
  ultimately show ?thesis by (simp add: vfs_unlock_def)
qed

text \<open>With interrupts off already, a section on the lock of the threads leaves them as they are.\<close>

definition nested :: "'ctx kmt_state \<Rightarrow> bool" where
  "nested k \<longleftrightarrow> lock_free (lock_kmt k) \<and> cli_ok (kcpu (kpmm k)) \<and> 0 < ncli (kcpu (kpmm k))"

lemma kmt_locked_nested:
  "nested k \<Longrightarrow> kmt_locked c k (bindr x (\<lambda>r. Inr (r, k))) = bindr x (\<lambda>r. Inr (r, k))"
  by (cases x) (simp_all add: kmt_locked_def nested_def cli_refresh_nested)

lemma nested_held: "vfs_idle s \<Longrightarrow> nested (vkmt (vfs_held c s))"
  by (simp add: vfs_idle_def nested_def vfs_held_def set_vcpu_def vcpu_def inv_intros) (simp add: cli_ok_def)

section \<open>Lookup under the lock\<close>

lemma task_num_nested: "nested k \<Longrightarrow> task_num c k = Inr (length (filter (\<lambda>i. tasks k i \<noteq> None) [0..<MAXTASK]), k)"
  unfolding task_num_def using kmt_locked_nested [of k c "Inr (length (filter (\<lambda>i. tasks k i \<noteq> None) [0..<MAXTASK]))"] by simp

lemma procfs_lookup_nested: "nested k \<Longrightarrow> procfs_lookup c fs name k = Inr (i, k') \<Longrightarrow> k' = k"
  by (auto simp: procfs_lookup_def task_num_nested Let_def bindr_eq_Inr split: if_splits)

lemma fs_lookup_nested: "nested (vkmt s) \<Longrightarrow> fs_lookup c fs name s = Inr (i, s') \<Longrightarrow> s' = s"
  by (auto simp: fs_lookup_def bindr_eq_Inr dest: procfs_lookup_nested split: ops_table.splits)

lemma on_disk_frame: "on_disk f fs s = Inr (r, s') \<Longrightarrow> \<exists>d g. s' = s\<lparr>disks := d, gid := g\<rparr>"
  by (auto simp: on_disk_def bindr_eq_Inr split_beta)

lemma open_inode_frame:
  assumes "nested (vkmt s)" and "open_inode c fs raw flags s = Inr (i, s1)"
  shows "\<exists>d g. s1 = s\<lparr>disks := d, gid := g\<rparr>"
proof -
  obtain cur s0 where l: "fs_lookup c fs raw s = Inr (cur, s0)"
    using assms(2) by (auto simp: open_inode_def bindr_eq_Inr)
  then have s0: "s0 = s" by (rule fs_lookup_nested [OF assms(1)])
  show ?thesis
  proof (cases "cur = None \<and> flags AND O_CREAT \<noteq> 0 \<and> fs_ops fs = Ext2_ops")
    case False
    with assms(2) l s0 have "s1 = s"
      by (cases cur; cases "fs_ops fs") (auto simp: open_inode_def fs_create_def split: if_splits)
    then show ?thesis by (intro exI [of _ "disks s"] exI [of _ "gid s"]) simp
  next
    case True
    with assms(2) l s0 obtain ret s2 where c: "on_disk (ext2_create raw) fs s = Inr (ret, s2)"
      "(if ret = 0 then fs_lookup c fs raw s2 else Inr (None, s2)) = Inr (i, s1)"
      by (auto simp: open_inode_def fs_create_def bindr_eq_Inr)
    from on_disk_frame [OF c(1)] obtain d g where s2: "s2 = s\<lparr>disks := d, gid := g\<rparr>" by blast
    then have "nested (vkmt s2)" using assms(1) by simp
    then have "s1 = s2" using c(2) fs_lookup_nested by (auto split: if_splits)
    with s2 show ?thesis by blast
  qed
qed

section \<open>Open files\<close>

lemma free_index_found:
  "free_index i fs = int j \<Longrightarrow> i \<le> j \<and> j < i + length fs \<and> fs ! (j - i) = None \<and> (\<forall>k < j - i. fs ! k \<noteq> None)"
proof (induction fs arbitrary: i)
  case (Cons f fs)
  show ?case
  proof (cases "f = None")
    case False
    have "free_index (i + 1) fs = int j" using Cons.prems False by (simp split: if_splits)
    from Cons.IH [OF this] False show ?thesis by (auto simp: nth_Cons' Suc_diff_Suc less_Suc_eq_0_disj)
  qed (use Cons.prems in simp)
qed simp

lemma free_index_range: "free_index i fs = -1 \<or> (\<exists>j. free_index i fs = int j)"
  by (induction fs arbitrary: i) auto

text \<open>The cases of \<open>vfs_open\<close> in a state whose locks are free.\<close>

lemma vfs_open_cases:
  assumes idle: "vfs_idle s" and run: "vfs_open c path flags s = Inr (fd, s')"
  obtains (none) d g where "fd = -1" "s' = vfs_released (s\<lparr>disks := d, gid := g\<rparr>)"
  | (opened) f d g where "fd = get_free_flides s" "0 \<le> fd" "fd < int (length (flides s))" "f_offset f = 0"
      "s' = vfs_released (set_FILE fd (Some f) (s\<lparr>disks := d, gid := g\<rparr>))"
proof -
  let ?s0 = "vfs_held c s"
  have nest: "nested (vkmt ?s0)" by (rule nested_held [OF idle])
  obtain fs raw cur s1 where m: "mounted path ?s0 = Inr (fs, raw)" and oi: "open_inode c fs raw flags ?s0 = Inr (cur, s1)"
    using run vfs_lock_idle [OF idle, of c] by (auto simp: vfs_open_def bindr_eq_Inr split_beta)
  from open_inode_frame [OF nest oi] obtain d g where s1: "s1 = ?s0\<lparr>disks := d, gid := g\<rparr>" by blast
  have same: "lock_vfs s1 = lock_vfs ?s0" "vcpu s1 = vcpu ?s0" "flides s1 = flides s" "initialized s1 = initialized s"
    by (simp_all add: s1 vcpu_def vfs_held_def set_vcpu_def)
  have again: "set_vcpu (cli_refresh (vcpu s)) (s1\<lparr>lock_vfs := lock_vfs s\<rparr>) = vfs_released (s\<lparr>disks := d, gid := g\<rparr>)"
    by (simp add: s1 vfs_held_def vfs_released_def set_vcpu_def vcpu_def)
  show ?thesis
  proof (cases cur)
    case None
    then show ?thesis
      using run m oi vfs_lock_idle [OF idle, of c] vfs_unlock_held [OF idle same(1,2)] again none [where d = d and g = g]
      by (simp add: vfs_open_def)
  next
    case (Some i)
    let ?fd = "get_free_flides s1"
    have fd: "?fd = get_free_flides s" using same by (simp add: get_free_flides_def)
    have nest1: "nested (vkmt s1)" using nest by (simp add: s1)
    have kmt: "kmt_locked c (vkmt s1) (bindr (assert_that (?fd \<ge> 0)) (\<lambda>_. Inr ((), vkmt s1))) =
      bindr (assert_that (?fd \<ge> 0)) (\<lambda>_. Inr ((), vkmt s1))"
      using kmt_locked_nested [OF nest1, where c = c and x = "assert_that (?fd \<ge> 0)"] by simp
    obtain r f where f: "inode_open \<lparr>f_inode = i, f_offset = 0\<rparr> flags = (r, f)" "f_offset f = 0"
      by (cases "i_ops i") (auto simp: inode_open_def ext2_inode_open_def devfs_inode_open_def procfs_inode_open_def)
    let ?s2 = "set_FILE ?fd (Some f) s1"
    have unlock: "vfs_unlock c ?s2 = Inr (set_vcpu (cli_refresh (vcpu s)) (?s2\<lparr>lock_vfs := lock_vfs s\<rparr>))"
      by (rule vfs_unlock_held [OF idle]) (use same in \<open>simp_all add: set_FILE_def vcpu_def\<close>)
    have ok: "0 \<le> ?fd" "?fd < int (length (flides s))"
      using run m oi Some vfs_lock_idle [OF idle, of c] kmt same(3)
      by (auto simp: vfs_open_def FILE_def Let_def bindr_eq_Inr assert_that_def split: if_splits)
    then have "(fd, s') = (?fd, set_vcpu (cli_refresh (vcpu s)) (?s2\<lparr>lock_vfs := lock_vfs s\<rparr>))"
      using run m oi Some vfs_lock_idle [OF idle, of c] kmt f(1) unlock same(3)
      by (auto simp: vfs_open_def FILE_def Let_def)
    moreover have "set_vcpu (cli_refresh (vcpu s)) (?s2\<lparr>lock_vfs := lock_vfs s\<rparr>) =
      vfs_released (set_FILE ?fd (Some f) (s\<lparr>disks := d, gid := g\<rparr>))"
      by (simp add: s1 vfs_held_def vfs_released_def set_vcpu_def vcpu_def set_FILE_def)
    ultimately show ?thesis using opened [where f = f and d = d and g = g] f(2) ok fd by simp
  qed
qed

lemma vfs_released_idle: "vfs_idle s \<Longrightarrow> vfs_idle (vfs_released s)"
  by (simp add: vfs_idle_def vfs_released_def)

lemma vfs_released_flides [simp]: "flides (vfs_released s) = flides s"
  by (simp add: vfs_released_def)

lemma idle_frame [simp]:
  "vfs_idle (s\<lparr>disks := d, gid := g\<rparr>) = vfs_idle s" "vfs_idle (set_FILE fd x s) = vfs_idle s"
  by (simp_all add: vfs_idle_def vcpu_def set_FILE_def)

lemma vfs_close_open_file:
  assumes idle: "vfs_idle s" and fd: "0 \<le> fd" "fd < int (length (flides s))" "flides s ! nat fd = Some f"
  shows "vfs_close c fd s = Inr (0, vfs_released (set_FILE fd None s))"
proof -
  let ?s1 = "set_FILE fd None (vfs_held c s)"
  have "vfs_unlock c ?s1 = Inr (set_vcpu (cli_refresh (vcpu s)) (?s1\<lparr>lock_vfs := lock_vfs s\<rparr>))"
    by (rule vfs_unlock_held [OF idle]) (simp_all add: set_FILE_def vcpu_def)
  moreover have "set_vcpu (cli_refresh (vcpu s)) (?s1\<lparr>lock_vfs := lock_vfs s\<rparr>) = vfs_released (set_FILE fd None s)"
    by (simp add: vfs_held_def vfs_released_def set_vcpu_def vcpu_def set_FILE_def)
  ultimately show ?thesis
    using fd vfs_lock_idle [OF idle, of c] by (simp add: vfs_close_def FILE_def)
qed

section \<open>The mount of a path\<close>

definition prefix_mount :: "string \<Rightarrow> mountpoint \<Rightarrow> bool" where
  "prefix_mount path m \<longleftrightarrow> m_exists m \<and> m_path m \<noteq> [] \<and> take (length (m_path m)) path = m_path m"

text \<open>The loop holds the longest prefix among the entries seen.\<close>

lemma get_mount_loop_best:
  assumes "index = -1 \<and> len = 0 \<and> (\<forall>k < i. \<not> prefix_mount path (ms ! k)) \<or>
    (\<exists>b. index = int b \<and> b < i \<and> prefix_mount path (ms ! b) \<and> len = length (m_path (ms ! b)) \<and>
       (\<forall>k < i. prefix_mount path (ms ! k) \<longrightarrow> length (m_path (ms ! k)) \<le> len))"
    and "rest = drop i ms" and "i \<le> length ms"
  shows "let r = get_mount_loop path index len i rest in
    r = -1 \<and> (\<forall>k < length ms. \<not> prefix_mount path (ms ! k)) \<or>
    (\<exists>b. r = int b \<and> b < length ms \<and> prefix_mount path (ms ! b) \<and>
       (\<forall>k < length ms. prefix_mount path (ms ! k) \<longrightarrow> length (m_path (ms ! k)) \<le> length (m_path (ms ! b))))"
  using assms
proof (induction path index len i rest rule: get_mount_loop.induct)
  case (1 path index len i)
  then have "i = length ms" by simp
  with 1 show ?case by (auto simp: Let_def)
next
  case (2 path index len i m rest)
  have "i < length ms" using "2.prems"(2,3) by (cases "i = length ms") auto
  moreover from Cons_nth_drop_Suc [OF this] have "m # rest = ms ! i # drop (Suc i) ms" using "2.prems"(2) by simp
  ultimately have i: "i < length ms" "ms ! i = m" "rest = drop (i + 1) ms" by simp_all
  show ?case
  proof (cases "m_exists m \<and> take (length (m_path m)) path = m_path m \<and> len < length (m_path m)")
    case True
    then have p: "prefix_mount path m" by (auto simp: prefix_mount_def)
    have "\<forall>k < i + 1. prefix_mount path (ms ! k) \<longrightarrow> length (m_path (ms ! k)) \<le> length (m_path m)"
      using "2.prems"(1) True i(2) by (auto simp: less_Suc_eq)
    then show ?thesis using "2.IH"(1) [OF True _ i(3)] True p i by (fastforce simp: Let_def)
  next
    case False
    have "\<not> prefix_mount path m \<or> length (m_path m) \<le> len" using False by (auto simp: prefix_mount_def)
    then have "\<not> prefix_mount path m \<or> length (m_path m) \<le> len \<and> len \<noteq> 0"
      by (auto simp: prefix_mount_def simp flip: length_greater_0_conv)
    then show ?thesis
      using "2.IH"(2) [OF False _ i(3)] "2.prems"(1) False i by (auto simp: Let_def less_Suc_eq)
  qed
qed

section \<open>Properties\<close>

text \<open>An idle state with a devfs mounted, for the examples.\<close>

definition no_lock :: spinlock where
  "no_lock = \<lparr>lk_name = [], locked = 0, lk_cpu = -1\<rparr>"

definition sample_kmt :: "unit kmt_state" where
  "sample_kmt = \<lparr>tasks = (\<lambda>_. None), cnt_tasks = 0, cputask = (\<lambda>_. None), cputask_last = (\<lambda>_. None),
     notdefault = (\<lambda>_. False), tstore = (\<lambda>_. \<lparr>t_name = [], t_context = (), t_run = 0, t_id = 0, t_sleep = 0, t_stack = 0\<rparr>),
     lock_kmt = no_lock, rand_next = 1,
     kpmm = \<lparr>heap = (\<lambda>_. 0), head_p = 0, tail_p = 0, pm_start = 0, pm_end = 0, alloc_lock = no_lock,
       kcpu = \<lparr>intr = False, ncli = 0, intena = False\<rparr>\<rparr>\<rparr>"

definition sample_vfs :: "(unit, unit) vfs_state" where
  "sample_vfs = \<lparr>mpt = [\<lparr>m_path = ''/'', m_fs = \<lparr>fs_ops = Procfs_ops, fs_dev = None\<rparr>, m_exists = True\<rparr>,
       \<lparr>m_path = ''/dev/'', m_fs = \<lparr>fs_ops = Devfs_ops, fs_dev = None\<rparr>, m_exists = True\<rparr>],
     flides = replicate 64 None, initialized = True, lock_vfs = no_lock, disks = (\<lambda>_. zero_disk), gid = 0,
     vkmt = sample_kmt, drivers = ()\<rparr>"

lemma sample_vfs_idle: "vfs_idle sample_vfs"
  by (simp add: vfs_idle_def sample_vfs_def sample_kmt_def no_lock_def lock_free_def vcpu_def cli_ok_def)

text \<open>
  C23. A path belongs to the longest mounted prefix: \<open>get_mount\<close> returns an entry of the table that is mounted and is a prefix
  of the path, no longer one is mounted, and -1 exactly when none is.
\<close>

theorem get_mount_longest:
  shows "get_mount path s = -1 \<and> (\<forall>k < length (mpt s). \<not> prefix_mount path (mpt s ! k)) \<or>
    (\<exists>b. get_mount path s = int b \<and> b < length (mpt s) \<and> prefix_mount path (mpt s ! b) \<and>
       (\<forall>k < length (mpt s). prefix_mount path (mpt s ! k) \<longrightarrow> length (m_path (mpt s ! k)) \<le> length (m_path (mpt s ! b))))"
  using get_mount_loop_best [of "-1" 0 0 path "mpt s" "mpt s"] by (simp add: get_mount_def Let_def)

lemma get_mount_longest_witness: "get_mount ''/dev/tty1'' sample_vfs = 1"
proof -
  have p: "prefix_mount ''/dev/tty1'' (mpt sample_vfs ! 0)" "prefix_mount ''/dev/tty1'' (mpt sample_vfs ! 1)"
    "length (mpt sample_vfs) = 2" "length (m_path (mpt sample_vfs ! 0)) = 1" "length (m_path (mpt sample_vfs ! 1)) = 5"
    by (simp_all add: sample_vfs_def prefix_mount_def)
  from get_mount_longest [of "''/dev/tty1''" sample_vfs] obtain b where b: "get_mount ''/dev/tty1'' sample_vfs = int b" "b < 2"
    "\<forall>k < 2. prefix_mount ''/dev/tty1'' (mpt sample_vfs ! k) \<longrightarrow> length (m_path (mpt sample_vfs ! k)) \<le> length (m_path (mpt sample_vfs ! b))"
    using p(1,3) by auto
  have "5 \<le> length (m_path (mpt sample_vfs ! b))" using b(3) [rule_format, of 1] p(2,5) by simp
  then have "b = 1" using b(2) p(4) by (cases "b = 0") auto
  with b(1) show ?thesis by simp
qed

text \<open>
  Opening takes the lowest free descriptor and nothing else: from a state with free locks, \<open>vfs_open\<close> either returns -1 and
  leaves the table of open files alone, or the lowest descriptor that was free, which then holds a
  file at offset 0; in both cases the locks are free again.
\<close>

theorem open_takes_lowest:
  assumes "vfs_idle s" and "initialized s" and "vfs_open c path flags s = Inr (fd, s')"
  shows "vfs_idle s' \<and> (fd = -1 \<and> flides s' = flides s \<or>
    (\<exists>j f. fd = int j \<and> j < length (flides s) \<and> flides s ! j = None \<and> (\<forall>k < j. flides s ! k \<noteq> None) \<and>
       f_offset f = 0 \<and> flides s' = (flides s)[j := Some f]))"
  using assms(1,3)
proof (cases rule: vfs_open_cases)
  case (none d g)
  with assms(1) show ?thesis by (simp add: vfs_released_idle)
next
  case (opened f d g)
  from opened(1,2) obtain j where j: "fd = int j" "free_index 0 (flides s) = int j"
    using assms(2) by (metis get_free_flides_def nonneg_int_cases)
  have "vfs_idle s'" using opened(5) assms(1) by (simp add: vfs_released_idle)
  moreover have "flides s' = (flides s)[j := Some f]" using opened(5) j(1) by (simp add: set_FILE_def)
  ultimately show ?thesis
    using free_index_found [OF j(2)] opened(3,4) j(1) by (intro conjI disjI2 exI [of _ j] exI [of _ f]) auto
qed

lemma sample_open: "\<exists>s'. vfs_open 0 ''/dev/'' 0 sample_vfs = Inr (0, s')"
proof -
  have lock: "vfs_lock 0 sample_vfs = Inr (vfs_held 0 sample_vfs)" by (rule vfs_lock_idle [OF sample_vfs_idle])
  have m: "mounted ''/dev/'' (vfs_held 0 sample_vfs) = Inr (\<lparr>fs_ops = Devfs_ops, fs_dev = None\<rparr>, [])"
    by (simp add: mounted_def get_mount_def vfs_held_def) (simp add: sample_vfs_def)
  obtain i where l: "fs_lookup 0 \<lparr>fs_ops = Devfs_ops, fs_dev = None\<rparr> [] (vfs_held 0 sample_vfs) = Inr (Some i, vfs_held 0 sample_vfs)"
    by (simp add: fs_lookup_def devfs_lookup_def is_dir_name_def Let_def)
  let ?s = "vfs_held 0 sample_vfs"
  have fl: "flides ?s = replicate 64 None" "get_free_flides ?s = 0"
    by (simp_all add: vfs_held_def get_free_flides_def) (simp_all add: sample_vfs_def numeral_eq_Suc)
  have k: "kmt_locked 0 (vkmt ?s) (Inr ((), vkmt ?s)) = Inr ((), vkmt ?s)"
    using kmt_locked_nested [OF nested_held [OF sample_vfs_idle], where c = 0 and x = "Inr ()"] by simp
  obtain r f where f: "inode_open \<lparr>f_inode = i, f_offset = 0\<rparr> 0 = (r, f)" by fastforce
  have "vfs_unlock 0 (set_FILE 0 (Some f) ?s) =
    Inr (set_vcpu (cli_refresh (vcpu sample_vfs)) ((set_FILE 0 (Some f) ?s)\<lparr>lock_vfs := lock_vfs sample_vfs\<rparr>))"
    by (rule vfs_unlock_held [OF sample_vfs_idle]) (simp_all add: set_FILE_def vcpu_def)
  then show ?thesis
    using lock m l fl k f by (simp add: vfs_open_def open_inode_def FILE_def Let_def)
qed

lemma open_takes_lowest_witness:
  "\<exists>s' f. vfs_open 0 ''/dev/'' 0 sample_vfs = Inr (0, s') \<and> flides s' ! 0 = Some f \<and> vfs_idle s'"
proof -
  obtain s' where o1: "vfs_open 0 ''/dev/'' 0 sample_vfs = Inr (0, s')" using sample_open by blast
  have init: "initialized sample_vfs" by (simp add: sample_vfs_def)
  from open_takes_lowest [OF sample_vfs_idle init o1] o1 show ?thesis by auto
qed

text \<open>
  Closing undoes opening: a descriptor that \<open>vfs_open\<close> has returned can be closed, the table of open files is then
  the one before, and the locks are free.
\<close>

theorem close_undoes_open:
  assumes "vfs_idle s" and "initialized s" and "vfs_open c path flags s = Inr (fd, s1)" and "fd \<noteq> -1"
  shows "\<exists>s2. vfs_close c fd s1 = Inr (0, s2) \<and> flides s2 = flides s \<and> vfs_idle s2"
  using assms(1,3)
proof (cases rule: vfs_open_cases)
  case (none d g)
  with assms(4) show ?thesis by simp
next
  case (opened f d g)
  then obtain j where j: "fd = int j" "free_index 0 (flides s) = int j" "j < length (flides s)"
    using assms(2) by (metis get_free_flides_def nonneg_int_cases of_nat_less_iff)
  have none: "flides s ! j = None" using free_index_found [OF j(2)] by simp
  have idle: "vfs_idle s1" using opened(5) assms(1) by (simp add: vfs_released_idle)
  have fl: "flides s1 = (flides s)[j := Some f]" using opened(5) j(1) by (simp add: set_FILE_def)
  have "vfs_close c fd s1 = Inr (0, vfs_released (set_FILE fd None s1))"
    by (rule vfs_close_open_file [OF idle, of fd f]) (use j fl in simp_all)
  moreover have "flides (vfs_released (set_FILE fd None s1)) = flides s"
    using fl j(1,3) none by (simp add: set_FILE_def list_update_neq_iff)
  moreover have "vfs_idle (vfs_released (set_FILE fd None s1))" using idle by (simp add: vfs_released_idle)
  ultimately show ?thesis by blast
qed

lemma close_undoes_open_witness:
  "\<exists>s1 s2. vfs_open 0 ''/dev/'' 0 sample_vfs = Inr (0, s1) \<and> vfs_close 0 0 s1 = Inr (0, s2) \<and> flides s2 = replicate 64 None"
proof -
  obtain s1 where o1: "vfs_open 0 ''/dev/'' 0 sample_vfs = Inr (0, s1)" using sample_open by blast
  have init: "initialized sample_vfs" by (simp add: sample_vfs_def)
  have fl: "flides sample_vfs = replicate 64 None" by (simp add: sample_vfs_def)
  from close_undoes_open [OF sample_vfs_idle init o1] o1 fl show ?thesis by auto
qed

text \<open>
  \<open>vfs_access\<close> never grants access: whenever it returns, for every path, every mode and every permission of
  the file found, the answer is -1.
\<close>

theorem access_always_denied:
  assumes "vfs_access c path mode s = Inr (r, s')"
  shows "r = -1"
proof -
  have or: "(x OR y :: u16) \<noteq> 0" if "y \<noteq> 0" for x y
    using that by (metis bit.disj_conj_distrib2 or_eq_0_iff)
  show ?thesis
    using assms or [of F_OK mode] or [of R_OK] by (auto simp: vfs_access_def bindr_eq_Inr F_OK_def R_OK_def split: option.splits)
qed

lemma access_always_denied_witness: "\<exists>s'. vfs_access 0 ''/x'' R_OK sample_vfs = Inr (-1, s')"
proof -
  have m: "mounted ''/x'' sample_vfs = Inr (\<lparr>fs_ops = Procfs_ops, fs_dev = None\<rparr>, ''x'')"
    by (simp add: mounted_def get_mount_def sample_vfs_def)
  have "procfs_lookup 0 \<lparr>fs_ops = Procfs_ops, fs_dev = None\<rparr> ''/x'' sample_kmt = Inr (None, sample_kmt)"
    by (simp add: procfs_lookup_def is_dir_name_def isdigit_def Let_def)
  then have "fs_lookup 0 \<lparr>fs_ops = Procfs_ops, fs_dev = None\<rparr> ''/x'' sample_vfs = Inr (None, sample_vfs\<lparr>vkmt := sample_kmt\<rparr>)"
    by (simp add: fs_lookup_def sample_vfs_def)
  with m obtain r s' where run: "vfs_access 0 ''/x'' R_OK sample_vfs = Inr (r, s')"
    by (simp add: vfs_access_def)
  with access_always_denied [OF run] show ?thesis by auto
qed

end
