(* ===== verification/Shell.thy ===== *)
theory Shell imports Vfs_Files begin

text \<open>
  The shell tasks, \<open>kernel/src/devices/tty/shell.c\<close>: one turn of the loop of \<open>shell_task\<close> prints the
  prompt, reads a line from the terminal, runs the command whose name the line starts with and prints
  the text the command left. The buffers on the stack are lists of bytes of their declared size; a store
  behind the end of one, or a read of a string that has no NUL in its buffer, is \<open>BadAccess\<close>.
  \<open>vfs\<close> is the file system of theory \<open>Vfs\<close>; \<open>c\<close> is the CPU the task runs on.
\<close>

section \<open>State and buffers\<close>

record ('ctx, 'w) shell =
  sh_pwd :: "u8 list"
  sh_line :: "u8 list"
  sh_text :: "u8 list"
  sh_arg1 :: "u8 list"
  sh_arg2 :: "u8 list"
  sh_vfs :: "('ctx, 'w) vfs_state"

definition nl :: string where "nl = [CHR 0x0A]"

text \<open>\<open>strcpy\<close> of a string and \<open>sprintf\<close> to the start of a buffer.\<close>

definition put_str :: "u8 list \<Rightarrow> string \<Rightarrow> u8 list result" where
  "put_str buf s = buf_put buf 0 (name_bytes s)"

definition print_to :: "u8 list \<Rightarrow> string \<Rightarrow> arg list \<Rightarrow> u8 list result" where
  "print_to buf fmt as = bindr (sprintf fmt as) (\<lambda>(_, out). put_str buf out)"

definition say :: "string \<Rightarrow> arg list \<Rightarrow> ('ctx, 'w) shell \<Rightarrow> ('ctx, 'w) shell result" where
  "say fmt as st = bindr (print_to (sh_text st) fmt as) (\<lambda>t. Inr (st\<lparr>sh_text := t\<rparr>))"

definition SUCCESS :: string where "SUCCESS = ''[SUCCESS]: ''"
definition FAIL :: string where "FAIL = ''[FAIL]: ''"

section \<open>The calls\<close>

definition sh_open :: "nat \<Rightarrow> string \<Rightarrow> u32 \<Rightarrow> ('ctx, 'w) shell \<Rightarrow> (int \<times> ('ctx, 'w) shell) result" where
  "sh_open c path flags st = bindr (vfs_open c path flags (sh_vfs st)) (\<lambda>(fd, s). Inr (fd, st\<lparr>sh_vfs := s\<rparr>))"

definition sh_close :: "nat \<Rightarrow> int \<Rightarrow> ('ctx, 'w) shell \<Rightarrow> (int \<times> ('ctx, 'w) shell) result" where
  "sh_close c fd st = bindr (vfs_close c fd (sh_vfs st)) (\<lambda>(r, s). Inr (r, st\<lparr>sh_vfs := s\<rparr>))"

text \<open>\<open>vfs->write(fd, text, strlen(text))\<close>.\<close>

definition sh_write :: "'w vfs_env \<Rightarrow> int \<Rightarrow> u8 list \<Rightarrow> ('ctx, 'w) shell \<Rightarrow> (int \<times> ('ctx, 'w) shell) result" where
  "sh_write env fd buf st =
     bindr (c_str buf) (\<lambda>t. bindr (vfs_write env fd (map of_char t) (sh_vfs st)) (\<lambda>(r, s). Inr (r, st\<lparr>sh_vfs := s\<rparr>)))"

text \<open>\<open>vfs->read(fd, text, n)\<close>.\<close>

definition sh_read :: "'w vfs_env \<Rightarrow> nat \<Rightarrow> int \<Rightarrow> u32 \<Rightarrow> ('ctx, 'w) shell \<Rightarrow> (int \<times> ('ctx, 'w) shell) result" where
  "sh_read env c fd n st =
     bindr (vfs_read env c fd (sh_text st) n (sh_vfs st)) (\<lambda>(r, t, s). Inr (r, st\<lparr>sh_text := t, sh_vfs := s\<rparr>))"

text \<open>\<open>FILE(fd)->inode\<close>.\<close>

definition file_inode :: "int \<Rightarrow> ('ctx, 'w) shell \<Rightarrow> inode result" where
  "file_inode fd st = bindr (FILE fd (sh_vfs st)) (\<lambda>x. case x of None \<Rightarrow> Inl BadAccess | Some f \<Rightarrow> Inr (f_inode f))"

section \<open>The macros\<close>

text \<open>\<open>l\<close> is the string in \<open>line\<close>: the NUL behind it is no blank and differs from every name.\<close>

definition iscmd :: "string \<Rightarrow> string \<Rightarrow> bool" where
  "iscmd l cmd \<longleftrightarrow> take (length cmd) l = cmd"

definition blank_at :: "string \<Rightarrow> nat \<Rightarrow> bool" where
  "blank_at l i \<longleftrightarrow> i < length l \<and> l ! i = CHR '' ''"

text \<open>The result says \<open>nofile\<close>.\<close>

definition get1arg :: "string \<Rightarrow> nat \<Rightarrow> ('ctx, 'w) shell \<Rightarrow> (bool \<times> ('ctx, 'w) shell) result" where
  "get1arg l len st =
     (if blank_at l len
      then bindr (put_str (sh_arg1 st) (drop (len + 1) l)) (\<lambda>a. Inr (False, st\<lparr>sh_arg1 := a\<rparr>))
      else Inr (True, st))"

text \<open>
  \<open>slen\<close> stops at the next blank or the NUL; the \<open>strncpy\<close> writes no NUL. What is copied to \<open>arg2\<close>
  starts behind the byte \<open>slen\<close> stopped at, even if that is the NUL of the line.
\<close>

definition slen_of :: "string \<Rightarrow> nat \<Rightarrow> nat" where
  "slen_of l len = len + 1 + length (takeWhile (\<lambda>ch. ch \<noteq> CHR '' '') (drop (len + 1) l))"

definition get2arg :: "string \<Rightarrow> nat \<Rightarrow> ('ctx, 'w) shell \<Rightarrow> (bool \<times> ('ctx, 'w) shell) result" where
  "get2arg l len st =
     (if blank_at l len
      then (let slen = slen_of l len in
        bindr (buf_put (sh_arg1 st) 0 (map of_char (take (slen - len - 1) (drop (len + 1) l)))) (\<lambda>a1.
          bindr (c_str (drop (slen + 1) (sh_line st))) (\<lambda>w.
            bindr (put_str (sh_arg2 st) w) (\<lambda>a2.
              Inr (\<not> blank_at l slen, st\<lparr>sh_arg1 := a1, sh_arg2 := a2\<rparr>)))))
      else Inr (True, st))"

text \<open>\<open>modify\<close>: a path that does not start with a slash is put behind the working directory.\<close>

definition modify :: "u8 list \<Rightarrow> u8 list \<Rightarrow> u8 list result" where
  "modify pwd file =
     bindr (c_str file) (\<lambda>f.
       if take 1 f = ''/'' then Inr file
       else bindr (c_str pwd) (\<lambda>p. print_to file ''%s%s'' [StrArg p, StrArg f]))"

definition modify1 :: "('ctx, 'w) shell \<Rightarrow> (string \<times> ('ctx, 'w) shell) result" where
  "modify1 st = bindr (modify (sh_pwd st) (sh_arg1 st)) (\<lambda>a. bindr (c_str a) (\<lambda>w. Inr (w, st\<lparr>sh_arg1 := a\<rparr>)))"

definition modify2 :: "('ctx, 'w) shell \<Rightarrow> (string \<times> ('ctx, 'w) shell) result" where
  "modify2 st = bindr (modify (sh_pwd st) (sh_arg2 st)) (\<lambda>a. bindr (c_str a) (\<lambda>w. Inr (w, st\<lparr>sh_arg2 := a\<rparr>)))"

definition missing :: "('ctx, 'w) shell \<Rightarrow> ('ctx, 'w) shell result" where
  "missing st = bindr (put_str (sh_text st) (FAIL @ ''missing operand'' @ nl)) (\<lambda>t. Inr (st\<lparr>sh_text := t\<rparr>))"

definition no_such :: "string \<Rightarrow> ('ctx, 'w) shell \<Rightarrow> ('ctx, 'w) shell result" where
  "no_such w = say (FAIL @ ''no such file or directory %s'' @ nl) [StrArg w]"

definition not_dir :: "string \<Rightarrow> ('ctx, 'w) shell \<Rightarrow> ('ctx, 'w) shell result" where
  "not_dir w = say (FAIL @ ''not a directory: %s'' @ nl) [StrArg w]"

definition is_dir :: "string \<Rightarrow> ('ctx, 'w) shell \<Rightarrow> ('ctx, 'w) shell result" where
  "is_dir w = say (FAIL @ ''Is a directory: %s'' @ nl) [StrArg w]"

text \<open>
  The frame most commands share: \<open>get1arg\<close>, the message when there is no operand, \<open>modify(arg1)\<close>.
\<close>

definition with_path ::
  "string \<Rightarrow> nat \<Rightarrow> (string \<Rightarrow> ('ctx, 'w) shell \<Rightarrow> ('ctx, 'w) shell result) \<Rightarrow> ('ctx, 'w) shell \<Rightarrow> ('ctx, 'w) shell result" where
  "with_path l len body st =
     bindr (get1arg l len st) (\<lambda>(nofile, st1).
       if nofile then missing st1 else bindr (modify1 st1) (\<lambda>(w, st2). body w st2))"

section \<open>cd\<close>

text \<open>The loop that cuts the last component: \<open>i\<close> runs down from \<open>strlen(pwd) - 2\<close>.\<close>

fun cut_slash :: "string \<Rightarrow> nat \<Rightarrow> string" where
  "cut_slash p 0 = p"
| "cut_slash p (Suc i) = (if p ! i = CHR ''/'' then take (i + 1) p else cut_slash p i)"

definition cd_up :: "('ctx, 'w) shell \<Rightarrow> ('ctx, 'w) shell result" where
  "cd_up st =
     bindr (c_str (sh_pwd st)) (\<lambda>p.
       if length p > 1 then bindr (put_str (sh_pwd st) (cut_slash p (length p - 1))) (\<lambda>b. Inr (st\<lparr>sh_pwd := b\<rparr>))
       else Inr st)"

definition component_end :: "string \<Rightarrow> nat \<Rightarrow> nat" where
  "component_end a ptr = ptr + length (takeWhile (\<lambda>ch. ch \<noteq> CHR ''/'') (drop ptr a))"

text \<open>
  The loop over \<open>arg1\<close>; the result is \<open>ret\<close>. A component that is not a directory is remembered and
  the loop goes on, with the descriptor left open; one that cannot be opened ends it.
\<close>

function cd_loop ::
  "nat \<Rightarrow> string \<Rightarrow> nat \<Rightarrow> int \<Rightarrow> ('ctx, 'w) shell \<Rightarrow> (int \<times> ('ctx, 'w) shell) result" where
  "cd_loop c a ptr ret st =
     (if ptr < length a then
        (if a ! ptr = CHR ''.'' then
           (if ptr + 1 < length a \<and> a ! (ptr + 1) = CHR ''.'' then bindr (cd_up st) (cd_loop c a (ptr + 3) ret)
            else cd_loop c a (ptr + 2) ret st)
         else
           (let e = component_end a ptr in
            bindr (c_str (sh_pwd st)) (\<lambda>p.
              bindr (print_to (replicate 128 0) ''%s%s'' [StrArg p, StrArg (take (e - ptr) (drop ptr a))]) (\<lambda>tmppwd.
                bindr (c_str tmppwd) (\<lambda>t.
                  bindr (sh_open c t O_RD st) (\<lambda>(fd, st1).
                    if fd \<ge> 0 then
                      bindr (file_inode fd st1) (\<lambda>i.
                        if i_type i \<noteq> DR then cd_loop c a (e + 1) (-2) st1
                        else bindr (sh_close c fd st1) (\<lambda>(_, st2).
                          bindr (print_to (sh_pwd st2) ''%s/'' [StrArg t]) (\<lambda>b.
                            cd_loop c a (e + 1) ret (st2\<lparr>sh_pwd := b\<rparr>))))
                    else Inr (-1, st1)))))))
      else Inr (ret, st))"
  by pat_completeness auto
termination
  by (relation "measure (\<lambda>(c, a, ptr, ret, st). length a - ptr)") (auto simp: component_end_def)

declare cd_loop.simps [simp del]

definition cd_root :: "('ctx, 'w) shell \<Rightarrow> ('ctx, 'w) shell result" where
  "cd_root st = bindr (put_str (sh_pwd st) ''/'') (\<lambda>b. Inr (st\<lparr>sh_pwd := b\<rparr>))"

definition cd_walk :: "nat \<Rightarrow> string \<Rightarrow> ('ctx, 'w) shell \<Rightarrow> (int \<times> ('ctx, 'w) shell) result" where
  "cd_walk c l st =
     (if \<not> blank_at l 2 then bindr (cd_root st) (\<lambda>st1. Inr (0, st1))
      else bindr (put_str (sh_arg1 st) (drop 3 l)) (\<lambda>b.
        let st1 = st\<lparr>sh_arg1 := b\<rparr>; a = drop 3 l in
        if take 1 a = ''/'' then bindr (cd_root st1) (cd_loop c a 1 0) else cd_loop c a 0 0 st1))"

definition shell_cd :: "nat \<Rightarrow> string \<Rightarrow> ('ctx, 'w) shell \<Rightarrow> ('ctx, 'w) shell result" where
  "shell_cd c l st =
     bindr (cd_walk c l st) (\<lambda>(ret, st1).
       if ret = 0 then bindr (c_str (sh_pwd st1)) (\<lambda>p. say (SUCCESS @ ''change director to %s'' @ nl) [StrArg p] st1)
       else bindr (c_str (sh_arg1 st1)) (\<lambda>w.
         if ret = -1 then say (FAIL @ ''no such file or directory: %s'' @ nl) [StrArg w] st1
         else if ret = -2 then say (FAIL @ ''not a directory: %s'' @ nl) [StrArg w] st1
         else Inr st1))"

section \<open>stat, ls and cat\<close>

text \<open>
  The name of the type goes to ten bytes on the stack, the number of files to twenty; for another type
  both stay unwritten.
\<close>

definition type_text :: "inode \<Rightarrow> (string \<times> string) result" where
  "type_text i =
     (if i_type i = DR then
        bindr (put_str (replicate 10 0) ''directory'') (\<lambda>_.
          bindr (print_to (replicate 20 0) (''Number of Files: %d'' @ nl) [IntArg (i_dir_len i - 2)]) (\<lambda>b.
            bindr (c_str b) (\<lambda>additional. Inr (''directory'', additional))))
      else if i_type i = NF then bindr (put_str (replicate 10 0) ''normal file'') (\<lambda>_. Inr (''normal file'', []))
      else if i_type i = DV_CHAR then bindr (put_str (replicate 10 0) ''char device'') (\<lambda>_. Inr (''char device'', []))
      else if i_type i = DV_BLOCK then bindr (put_str (replicate 10 0) ''block device'') (\<lambda>_. Inr (''block device'', []))
      else Inl BadAccess)"

definition stat_format :: string where
  "stat_format = ''  File: %s'' @ nl @ ''  Type: %s'' @ nl @ ''  Size: %d'' @ nl @ ''Device: %s'' @ nl @
     ''Access: %x'' @ nl @ ''    ID: %d'' @ nl @ '' Links: %d'' @ nl @ ''%s''"

definition fs_dev_name :: "filesystem \<Rightarrow> string result" where
  "fs_dev_name fs = (case fs_dev fs of None \<Rightarrow> Inl BadAccess | Some d \<Rightarrow> Inr (dev_name (devices ! d)))"

definition shell_stat :: "nat \<Rightarrow> string \<Rightarrow> ('ctx, 'w) shell \<Rightarrow> ('ctx, 'w) shell result" where
  "shell_stat c l = with_path l 4 (\<lambda>w st.
     bindr (sh_open c w O_RD st) (\<lambda>(fd, st1).
       if fd < 0 then no_such w st1
       else bindr (file_inode fd st1) (\<lambda>i.
         bindr (type_text i) (\<lambda>(typename, additional).
           bindr (fs_dev_name (i_fs i)) (\<lambda>dev.
             bindr (say stat_format [StrArg w, StrArg typename, IntArg (i_size i), StrArg dev,
                 IntArg (ucast (i_permission i)), IntArg (i_id i), IntArg (i_link_num i), StrArg additional] st1) (\<lambda>st2.
               bindr (sh_close c fd st2) (\<lambda>(_, st3). Inr st3)))))))"

text \<open>\<open>memset(text, 0, n)\<close>.\<close>

definition zero_text :: "nat \<Rightarrow> ('ctx, 'w) shell \<Rightarrow> ('ctx, 'w) shell result" where
  "zero_text n st = bindr (buf_put (sh_text st) 0 (replicate n 0)) (\<lambda>t. Inr (st\<lparr>sh_text := t\<rparr>))"

definition shell_ls :: "'w vfs_env \<Rightarrow> nat \<Rightarrow> string \<Rightarrow> ('ctx, 'w) shell \<Rightarrow> ('ctx, 'w) shell result" where
  "shell_ls env c l st =
     bindr (get1arg l 2 st) (\<lambda>(nofile, st1).
       bindr (if nofile then bindr (c_str (sh_pwd st1)) (\<lambda>p. bindr (put_str (sh_arg1 st1) p) (\<lambda>a. Inr (st1\<lparr>sh_arg1 := a\<rparr>)))
              else Inr st1) (\<lambda>st2.
         bindr (modify1 st2) (\<lambda>(w, st3).
           bindr (sh_open c w O_RD st3) (\<lambda>(fd, st4).
             if fd < 0 then no_such w st4
             else bindr (file_inode fd st4) (\<lambda>i.
               if i_type i \<noteq> DR then not_dir w st4
               else bindr (zero_text 128 st4) (\<lambda>st5.
                 bindr (sh_read env c fd 128 st5) (\<lambda>(_, st6).
                   bindr (sh_close c fd st6) (\<lambda>(_, st7). Inr st7))))))))"

definition shell_cat :: "'w vfs_env \<Rightarrow> nat \<Rightarrow> string \<Rightarrow> ('ctx, 'w) shell \<Rightarrow> ('ctx, 'w) shell result" where
  "shell_cat env c l = with_path l 3 (\<lambda>w st.
     bindr (sh_open c w O_RD st) (\<lambda>(fd, st1).
       if fd < 0 then no_such w st1
       else bindr (file_inode fd st1) (\<lambda>i.
         if i_type i = DR then is_dir w st1
         else bindr (zero_text 1024 st1) (\<lambda>st2.
           bindr (sh_read env c fd 1024 st2) (\<lambda>(bytes, st3).
             bindr (if bytes < 0 then say (FAIL @ ''cannot read to file with fd=%d'' @ nl) [IntArg (word_of_int fd)] st3
                    else Inr st3) (\<lambda>st4.
               bindr (sh_close c fd st4) (\<lambda>(_, st5). Inr st5)))))))"

section \<open>Commands on the tree\<close>

definition shell_mkdir :: "string \<Rightarrow> ('ctx, 'w) shell \<Rightarrow> ('ctx, 'w) shell result" where
  "shell_mkdir l = with_path l 5 (\<lambda>w st.
     bindr (vfs_mkdir w (sh_vfs st)) (\<lambda>(_, s).
       say (SUCCESS @ ''create %s'' @ nl) [StrArg w] (st\<lparr>sh_vfs := s\<rparr>)))"

text \<open>What \<open>rmdir\<close> and \<open>rm\<close> say about the result of the system call.\<close>

definition say_removed :: "int \<Rightarrow> string \<Rightarrow> ('ctx, 'w) shell \<Rightarrow> ('ctx, 'w) shell result" where
  "say_removed ret w = (if ret = 0 then say (SUCCESS @ ''remove %s'' @ nl) [StrArg w]
     else say (FAIL @ ''fail to remove %s'' @ nl) [StrArg w])"

definition shell_rmdir :: "nat \<Rightarrow> string \<Rightarrow> ('ctx, 'w) shell \<Rightarrow> ('ctx, 'w) shell result" where
  "shell_rmdir c l = with_path l 5 (\<lambda>w st.
     bindr (sh_open c w 0 st) (\<lambda>(fd, st1).
       if fd < 0 then no_such w st1
       else bindr (file_inode fd st1) (\<lambda>i.
         if i_type i \<noteq> DR then not_dir w st1
         else bindr (sh_close c fd st1) (\<lambda>(_, st2).
           bindr (vfs_rmdir w (sh_vfs st2)) (\<lambda>(ret, s). say_removed ret w (st2\<lparr>sh_vfs := s\<rparr>))))))"

definition shell_rm :: "nat \<Rightarrow> string \<Rightarrow> ('ctx, 'w) shell \<Rightarrow> ('ctx, 'w) shell result" where
  "shell_rm c l = with_path l 2 (\<lambda>w st.
     bindr (sh_open c w 0 st) (\<lambda>(fd, st1).
       if fd < 0 then no_such w st1
       else bindr (file_inode fd st1) (\<lambda>i.
         if i_type i = DR then is_dir w st1
         else bindr (sh_close c fd st1) (\<lambda>(_, st2).
           bindr (vfs_unlink w (sh_vfs st2)) (\<lambda>(ret, s). say_removed ret w (st2\<lparr>sh_vfs := s\<rparr>))))))"

definition shell_touch :: "nat \<Rightarrow> string \<Rightarrow> ('ctx, 'w) shell \<Rightarrow> ('ctx, 'w) shell result" where
  "shell_touch c l = with_path l 5 (\<lambda>w st.
     bindr (sh_open c w 0 st) (\<lambda>(fd, st1).
       if fd \<ge> 0 then say (FAIL @ ''file already exists %s'' @ nl) [StrArg w] st1
       else bindr (sh_open c w O_CREAT st1) (\<lambda>(fd', st2).
         if fd' \<ge> 0 then bindr (sh_close c fd' st2) (\<lambda>(_, st3). say (SUCCESS @ ''create file %s'' @ nl) [StrArg w] st3)
         else say (FAIL @ ''cannot create file %s'' @ nl) [StrArg w] st2)))"

definition shell_link :: "nat \<Rightarrow> string \<Rightarrow> ('ctx, 'w) shell \<Rightarrow> ('ctx, 'w) shell result" where
  "shell_link c l st =
     bindr (get2arg l 4 st) (\<lambda>(nofile, st1).
       if nofile then missing st1
       else bindr (modify1 st1) (\<lambda>(w1, st2). bindr (modify2 st2) (\<lambda>(w2, st3).
         bindr (vfs_link c w1 w2 (sh_vfs st3)) (\<lambda>(ret, s).
           let st4 = st3\<lparr>sh_vfs := s\<rparr> in
           if ret = -1 then say (FAIL @ ''cannot create link to file %s'' @ nl) [StrArg w1] st4
           else say (SUCCESS @ ''create link %s -> %s'' @ nl) [StrArg w2, StrArg w1] st4))))"

section \<open>Commands on descriptors\<close>

definition shell_open :: "nat \<Rightarrow> string \<Rightarrow> ('ctx, 'w) shell \<Rightarrow> ('ctx, 'w) shell result" where
  "shell_open c l = with_path l 4 (\<lambda>w st.
     bindr (sh_open c w 0 st) (\<lambda>(fd, st1).
       if fd < 0 then no_such w st1
       else bindr (file_inode fd st1) (\<lambda>i.
         if i_type i = DR then is_dir w st1
         else say (SUCCESS @ ''open file %s -> fd=%d'' @ nl) [StrArg w, IntArg (word_of_int fd)] st1)))"

text \<open>The message of a failed \<open>close\<close> has a conversion and no argument for it.\<close>

definition shell_close :: "nat \<Rightarrow> string \<Rightarrow> ('ctx, 'w) shell \<Rightarrow> ('ctx, 'w) shell result" where
  "shell_close c l st =
     bindr (get1arg l 5 st) (\<lambda>(nofile, st1).
       if nofile then missing st1
       else bindr (c_str (sh_arg1 st1)) (\<lambda>w.
         let fd = atoi w in
         bindr (sh_close c fd st1) (\<lambda>(ret, st2).
           if ret = 0 then say (SUCCESS @ ''close file with fd=%d'' @ nl) [IntArg (word_of_int fd)] st2
           else say (FAIL @ ''unable to close file with fd=%d'' @ nl) [] st2)))"

definition shell_write :: "'w vfs_env \<Rightarrow> string \<Rightarrow> ('ctx, 'w) shell \<Rightarrow> ('ctx, 'w) shell result" where
  "shell_write env l st =
     bindr (get2arg l 5 st) (\<lambda>(nofile, st1).
       if nofile then missing st1
       else bindr (c_str (sh_arg1 st1)) (\<lambda>w.
         let fd = atoi w in
         bindr (sh_write env fd (sh_arg2 st1) st1) (\<lambda>(bytes, st2).
           if bytes \<ge> 0 then say (SUCCESS @ ''write %d bytes to file with fd=%d'' @ nl) [IntArg (word_of_int bytes), IntArg (word_of_int fd)] st2
           else say (FAIL @ ''cannot write to file with fd=%d'' @ nl) [IntArg (word_of_int fd)] st2)))"

text \<open>There is no \<open>else\<close>: without an operand the message is written and the read goes on, from file 0.\<close>

definition shell_read :: "'w vfs_env \<Rightarrow> nat \<Rightarrow> string \<Rightarrow> ('ctx, 'w) shell \<Rightarrow> ('ctx, 'w) shell result" where
  "shell_read env c l st =
     bindr (get1arg l 4 st) (\<lambda>(nofile, st0).
       bindr (if nofile then missing st0 else Inr st0) (\<lambda>st1.
         bindr (c_str (sh_arg1 st1)) (\<lambda>w.
           let fd = atoi w in
           bindr (sh_read env c fd 1024 st1) (\<lambda>(bytes, st2).
             if bytes < 0 then say (FAIL @ ''cannot read to file with fd=%d'' @ nl) [IntArg (word_of_int fd)] st2
             else Inr st2))))"

text \<open>\<open>lkset\<close>, \<open>lkcur\<close> and \<open>lkend\<close> differ in \<open>whence\<close> only.\<close>

definition shell_seek :: "int \<Rightarrow> string \<Rightarrow> ('ctx, 'w) shell \<Rightarrow> ('ctx, 'w) shell result" where
  "shell_seek whence l st =
     bindr (get2arg l 5 st) (\<lambda>(nofile, st1).
       if nofile then missing st1
       else bindr (c_str (sh_arg1 st1)) (\<lambda>w1. bindr (c_str (sh_arg2 st1)) (\<lambda>w2.
         let fd = atoi w1 in
         bindr (vfs_lseek fd (atoi w2) whence (sh_vfs st1)) (\<lambda>(off, s).
           let st2 = st1\<lparr>sh_vfs := s\<rparr> in
           if off < 0 then say (''cannot set offset for file with fd=%d'' @ nl) [IntArg (word_of_int fd)] st2
           else say (''set offset to %d for file with fd=%d'' @ nl) [IntArg (word_of_int off), IntArg (word_of_int fd)] st2))))"

section \<open>mount\<close>

text \<open>\<open>sprintf(text+strlen(text), ...)\<close> for each entry; the name of the device of a file system without one is read through NULL.\<close>

fun list_mounts :: "mountpoint list \<Rightarrow> u8 list \<Rightarrow> u8 list result" where
  "list_mounts [] text = Inr text"
| "list_mounts (m # ms) text =
     (if m_exists m then
        bindr (fs_dev_name (m_fs m)) (\<lambda>dev.
          bindr (c_str text) (\<lambda>t.
            bindr (sprintf (''%-12s%s'' @ nl) [StrArg (m_path m), StrArg dev]) (\<lambda>(_, out).
              bindr (buf_put text (length t) (name_bytes out)) (list_mounts ms))))
      else list_mounts ms text)"

text \<open>\<open>memset(text, sizeof(text), 0)\<close> fills no byte.\<close>

definition shell_mount :: "('ctx, 'w) shell \<Rightarrow> ('ctx, 'w) shell result" where
  "shell_mount st =
     bindr (say (''PATH        DEVICE'' @ nl) [] st) (\<lambda>st1.
       bindr (list_mounts (mpt (sh_vfs st1)) (sh_text st1)) (\<lambda>t. Inr (st1\<lparr>sh_text := t\<rparr>)))"

section \<open>The loop of the task\<close>

definition shell_command :: "'w vfs_env \<Rightarrow> nat \<Rightarrow> string \<Rightarrow> ('ctx, 'w) shell \<Rightarrow> ('ctx, 'w) shell result" where
  "shell_command env c l st =
     (if l = ''pwd'' then bindr (c_str (sh_pwd st)) (\<lambda>p. say (''%s'' @ nl) [StrArg p] st)
      else if l = ''exit'' then Inl Halt
      else if iscmd l ''cd'' then shell_cd c l st
      else if iscmd l ''stat'' then shell_stat c l st
      else if iscmd l ''ls'' then shell_ls env c l st
      else if iscmd l ''mkdir'' then shell_mkdir l st
      else if iscmd l ''rmdir'' then shell_rmdir c l st
      else if iscmd l ''rm'' then shell_rm c l st
      else if iscmd l ''touch'' then shell_touch c l st
      else if iscmd l ''cat'' then shell_cat env c l st
      else if iscmd l ''link'' then shell_link c l st
      else if iscmd l ''open'' then shell_open c l st
      else if iscmd l ''close'' then shell_close c l st
      else if iscmd l ''write'' then shell_write env l st
      else if iscmd l ''read'' then shell_read env c l st
      else if iscmd l ''lkset'' then shell_seek S_SET l st
      else if iscmd l ''lkcur'' then shell_seek S_CUR l st
      else if iscmd l ''lkend'' then shell_seek S_END l st
      else if l = ''mount'' then shell_mount st
      else say (FAIL @ ''command not found %s'' @ nl) [StrArg l] st)"

definition shell_prompt :: "'w vfs_env \<Rightarrow> int \<Rightarrow> string \<Rightarrow> ('ctx, 'w) shell \<Rightarrow> ('ctx, 'w) shell result" where
  "shell_prompt env task_fd shell_name st0 =
     (let st = st0\<lparr>sh_arg1 := replicate 128 0, sh_arg2 := replicate 128 0\<rparr> in
      bindr (c_str (sh_pwd st)) (\<lambda>p.
        bindr (say ''(%s):%s $ '' [StrArg shell_name, StrArg p] st) (\<lambda>st1.
          bindr (sh_write env task_fd (sh_text st1) st1) (\<lambda>(_, st2). Inr st2))))"

text \<open>\<open>line[nread-1] = '\0'\<close>: the value of the read is not looked at.\<close>

definition shell_line :: "'w vfs_env \<Rightarrow> nat \<Rightarrow> int \<Rightarrow> ('ctx, 'w) shell \<Rightarrow> ('ctx, 'w) shell result" where
  "shell_line env c task_fd st =
     bindr (vfs_read env c task_fd (sh_line st) 128 (sh_vfs st)) (\<lambda>(nread, b, s).
       if 1 \<le> nread \<and> nread \<le> int (length b)
       then Inr (st\<lparr>sh_line := b[nat (nread - 1) := 0], sh_vfs := s\<rparr>) else Inl BadAccess)"

definition shell_turn :: "'w vfs_env \<Rightarrow> nat \<Rightarrow> int \<Rightarrow> string \<Rightarrow> ('ctx, 'w) shell \<Rightarrow> ('ctx, 'w) shell result" where
  "shell_turn env c task_fd shell_name st =
     bindr (shell_prompt env task_fd shell_name st) (\<lambda>st1.
       bindr (shell_line env c task_fd st1) (\<lambda>st2.
         bindr (c_str (sh_line st2)) (\<lambda>l.
           bindr (shell_command env c l st2) (\<lambda>st3.
             bindr (sh_write env task_fd (sh_text st3) st3) (\<lambda>(_, st4). Inr st4)))))"

fun shell_turns :: "nat \<Rightarrow> 'w vfs_env \<Rightarrow> nat \<Rightarrow> int \<Rightarrow> string \<Rightarrow> ('ctx, 'w) shell \<Rightarrow> ('ctx, 'w) shell result" where
  "shell_turns 0 env c task_fd shell_name st = Inr st"
| "shell_turns (Suc n) env c task_fd shell_name st =
     bindr (shell_turn env c task_fd shell_name st) (shell_turns n env c task_fd shell_name)"

text \<open>
  \<open>shell_task\<close>: its buffers hold whatever \<open>st\<close> says, \<open>pwd\<close> is set to the root, the terminal is opened
  and the first \<open>n\<close> turns of the loop follow.
\<close>

definition shell_task :: "nat \<Rightarrow> 'w vfs_env \<Rightarrow> nat \<Rightarrow> string \<Rightarrow> ('ctx, 'w) shell \<Rightarrow> ('ctx, 'w) shell result" where
  "shell_task n env c name st =
     bindr (cd_root st) (\<lambda>st1.
       case filename (Some name) of
         None \<Rightarrow> Inl BadAccess
       | Some shell_name \<Rightarrow> bindr (sh_open c name 0 st1) (\<lambda>(fd, st2). shell_turns n env c fd shell_name st2))"

end
