(* ===== verification/Shell_Paths.thy ===== *)
theory Shell_Paths imports Shell begin

text \<open>
  What the shell guarantees about its working directory: whatever line it reads, the buffer \<open>pwd\<close> holds
  a path that starts and ends with a slash; \<open>cd ..\<close> takes back \<open>cd name\<close>. Also what some commands get
  wrong: descriptors left open, a buffer too small for the name of a type.
\<close>

section \<open>Strings in buffers\<close>

definition plain :: "string \<Rightarrow> bool" where
  "plain s \<longleftrightarrow> CHR 0x00 \<notin> set s"

lemma plain_simps [simp]:
  "plain []" "plain (ch # s) \<longleftrightarrow> ch \<noteq> CHR 0x00 \<and> plain s" "plain (s @ t) \<longleftrightarrow> plain s \<and> plain t"
  by (auto simp: plain_def)

lemma plain_take: "plain s \<Longrightarrow> plain (take n s)"
  by (auto simp: plain_def dest: in_set_takeD)

lemma plain_drop: "plain s \<Longrightarrow> plain (drop n s)"
  by (auto simp: plain_def dest: in_set_dropD)

lemma buf_put_length: "buf_put buf off bs = Inr b \<Longrightarrow> length b = length buf"
  by (auto simp: buf_put_def split: if_splits)

lemma c_str_append: "0 \<in> set bs \<Longrightarrow> c_str (bs @ rest) = c_str bs"
  by (auto simp: c_str_def takeWhile_append1)

lemma c_str_name_append: "CHR 0x00 \<notin> set s \<Longrightarrow> c_str (name_bytes s @ rest) = Inr s"
  by (subst c_str_append) (simp add: name_bytes_def, rule c_str_name_bytes)

lemma put_str_Inr:
  assumes "put_str buf s = Inr b" and "plain s"
  shows "c_str b = Inr s" and "length b = length buf"
proof -
  have b: "b = name_bytes s @ drop (length (name_bytes s)) buf"
    using assms(1) by (auto simp: put_str_def buf_put_def split: if_splits)
  have "0 \<in> set (name_bytes s)" by (simp add: name_bytes_def)
  then show "c_str b = Inr s" using assms(2) by (simp add: b c_str_append c_str_name_bytes plain_def)
  show "length b = length buf" using assms(1) by (auto simp: put_str_def dest: buf_put_length)
qed

lemma char_of_nul: "char_of (unat b) = CHR 0x00 \<longleftrightarrow> b = (0 :: u8)"
proof
  assume "char_of (unat b) = CHR 0x00"
  then have "of_char (char_of (unat b)) = (0 :: nat)" by simp
  moreover have "unat b < 256" using unsigned_less [of b, where ?'a = nat] by simp
  ultimately have "unat b = 0" by simp
  then show "b = 0" by (simp add: unat_eq_0)
qed (simp add: char_of_def)

lemma c_str_plain: "c_str buf = Inr s \<Longrightarrow> plain s"
  by (auto simp: c_str_def plain_def char_of_nul dest!: set_takeWhileD split: if_splits)
    (metis char_of_nul set_takeWhileD)

section \<open>What the formats print\<close>

lemma convert_s: "convert (CHR ''s'') spec0 (StrArg s # as) n = Inr (s, as, [])"
  by (simp add: convert_def put_string_def spec0_def flag_def fill_to_def Let_def)

lemma parse_spec_s: "parse_spec (CHR ''s'' # rest) sp as = Inr (CHR ''s'' # rest, sp, as)"
  by (subst parse_spec.simps) (simp add: flag_char_def is_digit_def)

lemma vsprintf_loop_s:
  "vsprintf_loop (CHR ''%'' # CHR ''s'' # fmt) (StrArg s # as) out ns = vsprintf_loop fmt as (out @ s) ns"
  by (subst vsprintf_loop.simps) (simp add: parse_spec_s convert_s)

lemma vsprintf_loop_plain:
  "f \<noteq> CHR ''%'' \<Longrightarrow> vsprintf_loop (f # fmt) as out ns = vsprintf_loop fmt as (out @ [f]) ns"
  by (subst vsprintf_loop.simps) simp

lemma vsprintf_loop_end: "vsprintf_loop [] as out ns = Inr (out, ns)"
  by (subst vsprintf_loop.simps) simp

lemmas format_simps = sprintf_def vsprintf_def vsprintf_loop_s vsprintf_loop_plain vsprintf_loop_end

lemma sprintf_s_s: "sprintf ''%s%s'' [StrArg s, StrArg t] = Inr (int (length (s @ t)), s @ t)"
  by (simp add: format_simps)

lemma sprintf_s_slash: "sprintf ''%s/'' [StrArg s] = Inr (int (length (s @ ''/'')), s @ ''/'')"
  by (simp add: format_simps)

section \<open>The working directory\<close>

definition pwd_path :: "string \<Rightarrow> bool" where
  "pwd_path p \<longleftrightarrow> p \<noteq> [] \<and> hd p = CHR ''/'' \<and> last p = CHR ''/''"

definition pwd_ok :: "('ctx, 'w) shell \<Rightarrow> bool" where
  "pwd_ok st \<longleftrightarrow> length (sh_pwd st) = 128 \<and> (\<exists>p. c_str (sh_pwd st) = Inr p \<and> pwd_path p)"

text \<open>The loop finds the last slash before the one at the end.\<close>

lemma cut_slash_path: "pwd_path p \<Longrightarrow> n \<le> length p \<Longrightarrow> pwd_path (cut_slash p n)"
proof (induction p n rule: cut_slash.induct)
  case (2 p i)
  then have "take (i + 1) p = take i p @ [p ! i]" by (simp add: take_Suc_conv_app_nth)
  moreover have "hd (take (i + 1) p) = hd p" by (simp add: hd_take)
  ultimately show ?case using 2 by (auto simp: pwd_path_def)
qed simp

lemma cut_slash_plain: "plain p \<Longrightarrow> plain (cut_slash p n)"
  by (induction p n rule: cut_slash.induct) (simp_all add: plain_take)

lemma cut_slash_component:
  assumes "CHR ''/'' \<notin> set name" and "k \<le> length name"
  shows "cut_slash (p @ CHR ''/'' # name @ rest) (length p + 1 + k) = p @ ''/''"
  using assms(2)
proof (induction k)
  case (Suc k)
  have "name ! k \<noteq> CHR ''/''" using assms(1) Suc.prems by (metis Suc_le_lessD nth_mem)
  then show ?case using Suc by (simp add: nth_append nth_Cons')
qed simp

lemma cd_up_keeps: "pwd_ok st \<Longrightarrow> cd_up st = Inr st' \<Longrightarrow> pwd_ok st'"
  by (auto simp: cd_up_def pwd_ok_def bindr_eq_Inr split: if_splits
      intro!: cut_slash_path exI dest: put_str_Inr [OF _ cut_slash_plain [OF c_str_plain]])

lemma cd_root_keeps: "length (sh_pwd st) = 128 \<Longrightarrow> cd_root st = Inr st' \<Longrightarrow> pwd_ok st'"
  by (auto simp: cd_root_def pwd_ok_def pwd_path_def bindr_eq_Inr dest: put_str_Inr)

text \<open>Calls and messages leave the directory alone.\<close>

lemma sh_pwd_calls:
  "sh_open c path flags st = Inr (fd, st') \<Longrightarrow> sh_pwd st' = sh_pwd st"
  "sh_close c fd st = Inr (r, st') \<Longrightarrow> sh_pwd st' = sh_pwd st"
  "sh_write env fd buf st = Inr (r, st') \<Longrightarrow> sh_pwd st' = sh_pwd st"
  "sh_read env c fd n st = Inr (r, st') \<Longrightarrow> sh_pwd st' = sh_pwd st"
  by (auto simp: sh_open_def sh_close_def sh_write_def sh_read_def bindr_eq_Inr)

lemma sh_pwd_texts:
  "say fmt as st = Inr st' \<Longrightarrow> sh_pwd st' = sh_pwd st"
  "missing st = Inr st' \<Longrightarrow> sh_pwd st' = sh_pwd st"
  "no_such w st = Inr st' \<Longrightarrow> sh_pwd st' = sh_pwd st"
  "not_dir w st = Inr st' \<Longrightarrow> sh_pwd st' = sh_pwd st"
  "is_dir w st = Inr st' \<Longrightarrow> sh_pwd st' = sh_pwd st"
  "say_removed ret w st = Inr st' \<Longrightarrow> sh_pwd st' = sh_pwd st"
  "zero_text n st = Inr st' \<Longrightarrow> sh_pwd st' = sh_pwd st"
  by (auto simp: say_def missing_def no_such_def not_dir_def is_dir_def say_removed_def zero_text_def bindr_eq_Inr split: if_splits)

lemma sh_pwd_args:
  "get1arg l len st = Inr (b, st') \<Longrightarrow> sh_pwd st' = sh_pwd st"
  "get2arg l len st = Inr (b, st') \<Longrightarrow> sh_pwd st' = sh_pwd st"
  "modify1 st = Inr (w, st') \<Longrightarrow> sh_pwd st' = sh_pwd st"
  "modify2 st = Inr (w, st') \<Longrightarrow> sh_pwd st' = sh_pwd st"
  by (auto simp: get1arg_def get2arg_def modify1_def modify2_def bindr_eq_Inr Let_def split: if_splits)

lemmas sh_pwd_dests = sh_pwd_calls sh_pwd_texts sh_pwd_args

lemma with_path_pwd:
  assumes "with_path l len body st = Inr st'" and "\<And>w st1. body w st1 = Inr st' \<Longrightarrow> sh_pwd st' = sh_pwd st1"
  shows "sh_pwd st' = sh_pwd st"
  using assms(1) by (auto simp: with_path_def bindr_eq_Inr dest!: assms(2) sh_pwd_args sh_pwd_texts(2) split: if_splits)

lemma shell_stat_pwd: "shell_stat c l st = Inr st' \<Longrightarrow> sh_pwd st' = sh_pwd st"
  unfolding shell_stat_def by (erule with_path_pwd) (auto simp: bindr_eq_Inr dest!: sh_pwd_dests split: if_splits)

lemma shell_ls_pwd: "shell_ls env c l st = Inr st' \<Longrightarrow> sh_pwd st' = sh_pwd st"
  unfolding shell_ls_def by (auto simp: bindr_eq_Inr dest!: sh_pwd_dests split: if_splits)

lemma shell_cat_pwd: "shell_cat env c l st = Inr st' \<Longrightarrow> sh_pwd st' = sh_pwd st"
  unfolding shell_cat_def by (erule with_path_pwd) (auto simp: bindr_eq_Inr dest!: sh_pwd_dests split: if_splits)

lemma shell_tree_pwd:
  "shell_mkdir l st = Inr st' \<Longrightarrow> sh_pwd st' = sh_pwd st"
  "shell_rmdir c l st = Inr st' \<Longrightarrow> sh_pwd st' = sh_pwd st"
  "shell_rm c l st = Inr st' \<Longrightarrow> sh_pwd st' = sh_pwd st"
  "shell_touch c l st = Inr st' \<Longrightarrow> sh_pwd st' = sh_pwd st"
  "shell_open c l st = Inr st' \<Longrightarrow> sh_pwd st' = sh_pwd st"
  unfolding shell_mkdir_def shell_rmdir_def shell_rm_def shell_touch_def shell_open_def
  by ((erule with_path_pwd), (auto simp: bindr_eq_Inr dest!: sh_pwd_dests split: if_splits))+

lemma shell_fd_pwd:
  "shell_link c l st = Inr st' \<Longrightarrow> sh_pwd st' = sh_pwd st"
  "shell_close c l st = Inr st' \<Longrightarrow> sh_pwd st' = sh_pwd st"
  "shell_write env l st = Inr st' \<Longrightarrow> sh_pwd st' = sh_pwd st"
  "shell_read env c l st = Inr st' \<Longrightarrow> sh_pwd st' = sh_pwd st"
  "shell_seek whence l st = Inr st' \<Longrightarrow> sh_pwd st' = sh_pwd st"
  "shell_mount st = Inr st' \<Longrightarrow> sh_pwd st' = sh_pwd st"
  unfolding shell_link_def shell_close_def shell_write_def shell_read_def shell_seek_def shell_mount_def
  by (auto simp: bindr_eq_Inr Let_def dest!: sh_pwd_dests split: if_splits)

lemmas shell_pwd_dests = sh_pwd_texts(1) shell_stat_pwd shell_ls_pwd shell_cat_pwd shell_tree_pwd shell_fd_pwd

text \<open>The walk of \<open>cd\<close>: the path a step opens, and the directory after a step into it.\<close>

lemma cd_step_path:
  assumes "print_to (replicate 128 0) ''%s%s'' [StrArg p, StrArg f] = Inr tmp" and "c_str tmp = Inr t" and "plain p" and "plain f"
  shows "t = p @ f"
  using assms by (auto simp: print_to_def sprintf_s_s dest: put_str_Inr)

lemma cd_step_keeps:
  assumes "pwd_ok st1" and "sh_close c fd st1 = Inr (x, st2)" and "print_to (sh_pwd st2) ''%s/'' [StrArg t] = Inr b"
    and "plain t" and "t \<noteq> []" and "hd t = CHR ''/''"
  shows "pwd_ok (st2\<lparr>sh_pwd := b\<rparr>)"
proof -
  have "put_str (sh_pwd st2) (t @ ''/'') = Inr b" using assms(3) by (simp add: print_to_def sprintf_s_slash)
  from put_str_Inr [OF this] assms(4) have "c_str b = Inr (t @ ''/'')" "length b = length (sh_pwd st2)" by simp_all
  moreover have "length (sh_pwd st2) = 128" using sh_pwd_calls(2) [OF assms(2)] assms(1) by (simp add: pwd_ok_def)
  ultimately show ?thesis using assms(5,6) by (simp add: pwd_ok_def pwd_path_def)
qed

lemma cd_loop_keeps: "pwd_ok st \<Longrightarrow> plain a \<Longrightarrow> cd_loop c a ptr ret st = Inr (r, st') \<Longrightarrow> pwd_ok st'"
proof (induction c a ptr ret st rule: cd_loop.induct)
  case (1 c a ptr ret st)
  note run = "1.prems"(3) [unfolded cd_loop.simps [of c a ptr ret st]]
  show ?case
  proof (cases "ptr < length a")
    case False
    with run "1.prems"(1) show ?thesis by simp
  next
    case inside: True
    let ?e = "component_end a ptr"
    consider (up) "a ! ptr = CHR ''.''" "ptr + 1 < length a \<and> a ! (ptr + 1) = CHR ''.''"
      | (dot) "a ! ptr = CHR ''.''" "\<not> (ptr + 1 < length a \<and> a ! (ptr + 1) = CHR ''.'')"
      | (name) "a ! ptr \<noteq> CHR ''.''" by blast
    then show ?thesis
    proof cases
      case up
      then obtain st1 where "cd_up st = Inr st1" "cd_loop c a (ptr + 3) ret st1 = Inr (r, st')"
        using run inside by (auto simp: bindr_eq_Inr)
      with "1.IH"(1) [OF inside up] cd_up_keeps "1.prems" show ?thesis by blast
    next
      case dot
      with "1.IH"(2) [OF inside dot] run inside "1.prems" show ?thesis by (auto split: if_splits)
    next
      case name
      then obtain p tmp t fd st1 where walk: "c_str (sh_pwd st) = Inr p"
        "print_to (replicate 128 0) ''%s%s'' [StrArg p, StrArg (take (?e - ptr) (drop ptr a))] = Inr tmp"
        "c_str tmp = Inr t" "sh_open c t O_RD st = Inr (fd, st1)"
        and rest: "(if fd \<ge> 0 then bindr (file_inode fd st1) (\<lambda>i.
                        if i_type i \<noteq> DR then cd_loop c a (?e + 1) (-2) st1
                        else bindr (sh_close c fd st1) (\<lambda>(_, st2).
                          bindr (print_to (sh_pwd st2) ''%s/'' [StrArg t]) (\<lambda>b.
                            cd_loop c a (?e + 1) ret (st2\<lparr>sh_pwd := b\<rparr>))))
                    else Inr (-1, st1)) = Inr (r, st')"
        using run inside by (auto simp: bindr_eq_Inr Let_def)
      have st1: "pwd_ok st1" using sh_pwd_calls(1) [OF walk(4)] "1.prems"(1) by (simp add: pwd_ok_def)
      have p: "plain p" "pwd_path p" using walk(1) "1.prems"(1) c_str_plain by (auto simp: pwd_ok_def)
      have t: "plain t" "t \<noteq> []" "hd t = CHR ''/''"
        using cd_step_path [OF walk(2,3)] p "1.prems"(2) by (auto simp: pwd_path_def plain_take plain_drop)
      show ?thesis
      proof (cases "fd \<ge> 0")
        case False
        with rest st1 show ?thesis by simp
      next
        case True
        with rest obtain i where i: "file_inode fd st1 = Inr i" by (auto simp: bindr_eq_Inr)
        note ih = "1.IH"(3,4) [OF inside name refl True]
        show ?thesis
        proof (cases "i_type i = DR")
          case False
          with rest True i ih(1) [OF False st1 "1.prems"(2)] show ?thesis by auto
        next
          case dir: True
          with rest True i obtain x st2 b where b: "sh_close c fd st1 = Inr (x, st2)"
            "print_to (sh_pwd st2) ''%s/'' [StrArg t] = Inr b" "cd_loop c a (?e + 1) ret (st2\<lparr>sh_pwd := b\<rparr>) = Inr (r, st')"
            by (auto simp: bindr_eq_Inr)
          have "pwd_ok (st2\<lparr>sh_pwd := b\<rparr>)" by (rule cd_step_keeps [OF st1 b(1,2) t])
          then show ?thesis using ih(2) dir b(3) "1.prems"(2) by simp
        qed
      qed
    qed
  qed
qed

lemma pwd_ok_fields [simp]:
  "pwd_ok (st\<lparr>sh_arg1 := a\<rparr>) = pwd_ok st" "pwd_ok (st\<lparr>sh_arg2 := a\<rparr>) = pwd_ok st"
  "pwd_ok (st\<lparr>sh_line := a\<rparr>) = pwd_ok st" "pwd_ok (st\<lparr>sh_text := a\<rparr>) = pwd_ok st"
  "pwd_ok (st\<lparr>sh_vfs := s\<rparr>) = pwd_ok st"
  by (simp_all add: pwd_ok_def)

lemma pwd_ok_length: "pwd_ok st \<Longrightarrow> length (sh_pwd st) = 128"
  by (simp add: pwd_ok_def)

lemma cd_walk_keeps:
  assumes "pwd_ok st" and "plain l" and "cd_walk c l st = Inr (r, st')"
  shows "pwd_ok st'"
proof (cases "blank_at l 2")
  case False
  with assms show ?thesis by (auto simp: cd_walk_def bindr_eq_Inr intro: cd_root_keeps pwd_ok_length)
next
  case True
  with assms(3) obtain b where walk: "(if take 1 (drop 3 l) = ''/'' then bindr (cd_root (st\<lparr>sh_arg1 := b\<rparr>)) (cd_loop c (drop 3 l) 1 0)
      else cd_loop c (drop 3 l) 0 0 (st\<lparr>sh_arg1 := b\<rparr>)) = Inr (r, st')"
    by (auto simp: cd_walk_def bindr_eq_Inr Let_def)
  have ok: "pwd_ok (st\<lparr>sh_arg1 := b\<rparr>)" "plain (drop 3 l)" using assms(1,2) by (simp_all add: plain_drop)
  show ?thesis
  proof (cases "take 1 (drop 3 l) = ''/''")
    case True
    with walk obtain st1 where "cd_root (st\<lparr>sh_arg1 := b\<rparr>) = Inr st1" "cd_loop c (drop 3 l) 1 0 st1 = Inr (r, st')"
      by (auto simp: bindr_eq_Inr)
    then show ?thesis using cd_root_keeps [OF pwd_ok_length [OF ok(1)]] cd_loop_keeps ok(2) by blast
  next
    case False
    with walk have "cd_loop c (drop 3 l) 0 0 (st\<lparr>sh_arg1 := b\<rparr>) = Inr (r, st')" by simp
    with ok show ?thesis by (rule cd_loop_keeps)
  qed
qed

lemma shell_cd_keeps:
  assumes "pwd_ok st" and "plain l" and "shell_cd c l st = Inr st'"
  shows "pwd_ok st'"
proof -
  obtain r st1 where w: "cd_walk c l st = Inr (r, st1)" using assms(3) by (auto simp: shell_cd_def bindr_eq_Inr)
  then have "sh_pwd st' = sh_pwd st1"
    using assms(3) by (auto simp: shell_cd_def bindr_eq_Inr dest: sh_pwd_texts(1) split: if_splits)
  with cd_walk_keeps [OF assms(1,2) w] show ?thesis by (simp add: pwd_ok_def)
qed

section \<open>One turn\<close>

lemma shell_command_pwd:
  "\<not> iscmd l ''cd'' \<Longrightarrow> shell_command env c l st = Inr st' \<Longrightarrow> sh_pwd st' = sh_pwd st"
  unfolding shell_command_def by (auto simp: bindr_eq_Inr dest: shell_pwd_dests split: if_splits)

lemma shell_command_keeps:
  assumes "pwd_ok st" and "plain l" and run: "shell_command env c l st = Inr st'"
  shows "pwd_ok st'"
proof (cases "l \<noteq> ''pwd'' \<and> iscmd l ''cd''")
  case True
  with run have "shell_cd c l st = Inr st'" by (auto simp: shell_command_def split: if_splits)
  with assms(1,2) show ?thesis by (rule shell_cd_keeps)
next
  case False
  then have "\<not> iscmd l ''cd''" by (auto simp: iscmd_def)
  from shell_command_pwd [OF this run] assms(1) show ?thesis by (simp add: pwd_ok_def)
qed

lemma shell_prompt_pwd: "shell_prompt env fd name st = Inr st' \<Longrightarrow> sh_pwd st' = sh_pwd st"
  unfolding shell_prompt_def Let_def by (auto simp: bindr_eq_Inr dest!: sh_pwd_dests)

lemma shell_line_pwd: "shell_line env c fd st = Inr st' \<Longrightarrow> sh_pwd st' = sh_pwd st"
  by (auto simp: shell_line_def bindr_eq_Inr split: if_splits)

lemma shell_turn_keeps:
  assumes "pwd_ok st" and run: "shell_turn env c fd name st = Inr st'"
  shows "pwd_ok st'"
proof -
  obtain st1 st2 l st3 x where "shell_prompt env fd name st = Inr st1" "shell_line env c fd st1 = Inr st2"
    and l: "c_str (sh_line st2) = Inr l" "shell_command env c l st2 = Inr st3"
    and w: "sh_write env fd (sh_text st3) st3 = Inr (x, st')"
    using run by (auto simp: shell_turn_def bindr_eq_Inr)
  then have "pwd_ok st2" using assms(1) by (auto simp: pwd_ok_def dest!: shell_prompt_pwd shell_line_pwd)
  from shell_command_keeps [OF this c_str_plain [OF l(1)] l(2)] show ?thesis
    using sh_pwd_calls(3) [OF w] by (simp add: pwd_ok_def)
qed

lemma shell_turns_keeps: "pwd_ok st \<Longrightarrow> shell_turns n env c fd name st = Inr st' \<Longrightarrow> pwd_ok st'"
proof (induction n arbitrary: st)
  case (Suc n)
  from Suc.prems(2) obtain st1 where "shell_turn env c fd name st = Inr st1" "shell_turns n env c fd name st1 = Inr st'"
    by (auto simp: bindr_eq_Inr)
  with Suc.IH shell_turn_keeps [OF Suc.prems(1)] show ?case by blast
qed simp

section \<open>Into a directory and back\<close>

definition dir_name :: "string \<Rightarrow> bool" where
  "dir_name name \<longleftrightarrow> name \<noteq> [] \<and> CHR ''/'' \<notin> set name \<and> plain name \<and> hd name \<noteq> CHR ''.''"

text \<open>The sizes of the buffers that \<open>cd\<close> writes to.\<close>

definition buffers_ok :: "('ctx, 'w) shell \<Rightarrow> bool" where
  "buffers_ok st \<longleftrightarrow> length (sh_text st) = 1024 \<and> length (sh_arg1 st) = 128"

lemma put_str_fits: "length s < length buf \<Longrightarrow> \<exists>b. put_str buf s = Inr b"
  by (simp add: put_str_def buf_put_def name_bytes_def)

lemma sprintf_changed:
  "sprintf (SUCCESS @ ''change director to %s'' @ nl) [StrArg p] =
     Inr (int (length (SUCCESS @ ''change director to '' @ p @ nl)), SUCCESS @ ''change director to '' @ p @ nl)"
  by (simp add: SUCCESS_def nl_def format_simps)

lemma say_changed:
  assumes "buffers_ok st" and "length p < 128"
  shows "\<exists>t. say (SUCCESS @ ''change director to %s'' @ nl) [StrArg p] st = Inr (st\<lparr>sh_text := t\<rparr>) \<and> length t = 1024"
proof -
  have "length (SUCCESS @ ''change director to '' @ p @ nl) < length (sh_text st)"
    using assms by (simp add: buffers_ok_def SUCCESS_def nl_def)
  from put_str_fits [OF this] obtain t where t: "put_str (sh_text st) (SUCCESS @ ''change director to '' @ p @ nl) = Inr t" by blast
  then have "length t = length (sh_text st)" by (auto simp: put_str_def dest: buf_put_length)
  moreover have "say (SUCCESS @ ''change director to %s'' @ nl) [StrArg p] st = Inr (st\<lparr>sh_text := t\<rparr>)"
    unfolding say_def print_to_def sprintf_changed bindr_simps prod.case t ..
  ultimately show ?thesis using assms(1) by (auto simp: buffers_ok_def)
qed

lemma component_end_name: "CHR ''/'' \<notin> set name \<Longrightarrow> component_end name 0 = length name"
proof -
  assume "CHR ''/'' \<notin> set name"
  then have "takeWhile (\<lambda>ch. ch \<noteq> CHR ''/'') name = name" by (subst takeWhile_eq_all_conv) auto
  then show ?thesis by (simp only: component_end_def drop_0 add_0)
qed

lemma blank_at_cd: "blank_at (''cd '' @ name) 2"
  by (simp add: blank_at_def)

lemma takeWhile_shorter: "\<exists>x \<in> set xs. \<not> P x \<Longrightarrow> length (takeWhile P xs) < length xs"
  by (induction xs) auto

lemma c_str_fits: "c_str b = Inr p \<Longrightarrow> length p < length b"
  using takeWhile_shorter [of b "\<lambda>x. x \<noteq> 0"] by (auto simp: c_str_def split: if_splits)

text \<open>\<open>cd ..\<close> in the directory \<open>p\<close> followed by a component.\<close>

lemma cd_dots:
  assumes bufs: "buffers_ok st" and len: "length (sh_pwd st) = 128"
    and pwd: "c_str (sh_pwd st) = Inr (p @ CHR ''/'' # name @ ''/'')" and name: "CHR ''/'' \<notin> set name"
  shows "\<exists>st2. shell_cd c ''cd ..'' st = Inr st2 \<and> c_str (sh_pwd st2) = Inr (p @ ''/'') \<and> sh_vfs st2 = sh_vfs st"
proof -
  obtain b where b: "put_str (sh_arg1 st) ''..'' = Inr b" "length b = 128"
    using put_str_fits [of "''..''" "sh_arg1 st"] put_str_Inr(2) [of "sh_arg1 st" "''..''"] bufs by (auto simp: buffers_ok_def)
  let ?st = "st\<lparr>sh_arg1 := b\<rparr>"
  have plain: "plain (p @ ''/'')" using c_str_plain [OF pwd] by simp
  have long: "length (p @ ''/'') < length (sh_pwd st)" using c_str_fits [OF pwd] by simp
  have cut: "cut_slash (p @ CHR ''/'' # name @ ''/'') (length (p @ CHR ''/'' # name @ ''/'') - 1) = p @ ''/''"
    using cut_slash_component [OF name, of "length name" p "''/''"] by simp
  obtain w where w: "put_str (sh_pwd st) (p @ ''/'') = Inr w" using put_str_fits [OF long] by blast
  note w' = put_str_Inr [OF w plain]
  let ?up = "?st\<lparr>sh_pwd := w\<rparr>"
  have "cd_up ?st = Inr ?up" using pwd w cut by (simp add: cd_up_def)
  then have "cd_loop c ''..'' 0 0 ?st = Inr (0, ?up)"
    by (subst cd_loop.simps) (simp, subst cd_loop.simps, simp)
  then have walk: "cd_walk c ''cd ..'' st = Inr (0, ?up)" using b by (simp add: cd_walk_def blank_at_def)
  have "buffers_ok ?up" using bufs b(2) by (simp add: buffers_ok_def)
  from say_changed [OF this, of "p @ ''/''"] long len obtain t where
    "say (SUCCESS @ ''change director to %s'' @ nl) [StrArg (p @ ''/'')] ?up = Inr (?up\<lparr>sh_text := t\<rparr>)" by auto
  then show ?thesis using walk w'(1) by (simp add: shell_cd_def)
qed

text \<open>\<open>cd\<close> to a name in the working directory that opens as a directory.\<close>

lemma cd_name:
  assumes bufs: "buffers_ok st" and len: "length (sh_pwd st) = 128" and pwd: "c_str (sh_pwd st) = Inr p" and name: "dir_name name"
    and fits: "length p + length name + 2 \<le> 128"
    and opened: "sh_open c (p @ name) O_RD (st\<lparr>sh_arg1 := b\<rparr>) = Inr (fd, st1)" "0 \<le> fd" "file_inode fd st1 = Inr i" "i_type i = DR"
    and closed: "sh_close c fd st1 = Inr (x, st2)" and arg: "put_str (sh_arg1 st) name = Inr b"
  shows "\<exists>st3. shell_cd c (''cd '' @ name) st = Inr st3 \<and> c_str (sh_pwd st3) = Inr (p @ name @ ''/'') \<and>
    sh_vfs st3 = sh_vfs st2 \<and> buffers_ok st3 \<and> length (sh_pwd st3) = 128"
proof -
  have plain: "plain p" "plain name" using c_str_plain [OF pwd] name by (simp_all add: dir_name_def)
  have "length (p @ name) < length (replicate 128 (0 :: u8))" using fits by simp
  from put_str_fits [OF this] obtain tmp where tmp: "put_str (replicate 128 0) (p @ name) = Inr tmp" by blast
  have tmp': "c_str tmp = Inr (p @ name)" using put_str_Inr(1) [OF tmp] plain by simp
  have same: "sh_pwd st2 = sh_pwd st" "sh_text st2 = sh_text st" "sh_arg1 st2 = b"
    using opened(1) closed by (auto simp: sh_open_def sh_close_def bindr_eq_Inr)
  have "length (p @ name @ ''/'') < length (sh_pwd st2)" using fits len same by simp
  from put_str_fits [OF this] obtain w where w: "put_str (sh_pwd st2) (p @ name @ ''/'') = Inr w" by blast
  have w': "c_str w = Inr (p @ name @ ''/'')" "length w = 128" using put_str_Inr [OF w] plain len same by simp_all
  let ?st3 = "st2\<lparr>sh_pwd := w\<rparr>"
  have 0: "name ! 0 \<noteq> CHR ''.''" "0 < length name" using name by (auto simp: dir_name_def hd_conv_nth)
  have e: "component_end name 0 = length name" using name by (simp add: component_end_name dir_name_def)
  have "cd_loop c name (length name + 1) 0 ?st3 = Inr (0, ?st3)" by (subst cd_loop.simps) simp
  then have "cd_loop c name 0 0 (st\<lparr>sh_arg1 := b\<rparr>) = Inr (0, ?st3)"
    by (subst cd_loop.simps)
      (use 0 e pwd tmp tmp' opened closed w in \<open>simp add: print_to_def sprintf_s_s sprintf_s_slash Let_def\<close>)
  moreover have "take 1 name \<noteq> ''/''" using name by (cases name) (auto simp: dir_name_def)
  ultimately have walk: "cd_walk c (''cd '' @ name) st = Inr (0, ?st3)" using arg by (simp add: cd_walk_def blank_at_def)
  have ok: "buffers_ok ?st3" using bufs same put_str_Inr(2) [OF arg plain(2)] by (simp add: buffers_ok_def)
  from say_changed [OF ok, of "p @ name @ ''/''"] fits obtain t where
    "say (SUCCESS @ ''change director to %s'' @ nl) [StrArg (p @ name @ ''/'')] ?st3 = Inr (?st3\<lparr>sh_text := t\<rparr>)" "length t = 1024" by auto
  then show ?thesis using walk w' ok by (simp add: shell_cd_def buffers_ok_def)
qed

section \<open>A shell to run\<close>

text \<open>A terminal at \<open>/dev/tty1\<close> that reads the line \<open>pwd\<close> for ever, and a directory \<open>/home\<close>.\<close>

definition sample_ops :: "unit driver_table" where
  "sample_ops = \<lparr>op_read = (\<lambda>d off n w. Inr (4, [112, 119, 100, 10], w)), op_write = (\<lambda>d off bs w. Inr (int (length bs), w))\<rparr>"

definition sample_env :: "unit vfs_env" where
  "sample_env = \<lparr>env_machine = \<lparr>ncpu = 1, heap_start = 0, heap_end = 0\<rparr>, env_ops = sample_ops\<rparr>"

definition home_vfs :: "(unit, unit) vfs_state" where
  "home_vfs = sample_vfs\<lparr>mpt := mpt sample_vfs @ [\<lparr>m_path = ''/home'', m_fs = \<lparr>fs_ops = Devfs_ops, fs_dev = None\<rparr>, m_exists = True\<rparr>]\<rparr>"

definition sample_shell :: "(unit, unit) shell" where
  "sample_shell = \<lparr>sh_pwd = name_bytes ''/'' @ replicate 126 0, sh_line = replicate 128 0, sh_text = replicate 1024 0,
     sh_arg1 = replicate 128 0, sh_arg2 = replicate 128 0, sh_vfs = home_vfs\<rparr>"

lemma home_vfs_idle: "vfs_idle home_vfs"
  using sample_vfs_idle by (simp add: home_vfs_def vfs_idle_def vcpu_def)

text \<open>Opening a file of devfs in a state with free locks and a free descriptor.\<close>

lemma open_devfs:
  assumes idle: "vfs_idle s" and m: "mounted path (vfs_held c s) = Inr (fs, raw)" and ops: "fs_ops fs = Devfs_ops"
    and look: "devfs_lookup fs raw = Inr (Some i)" "i_ops i = Devfs_ops" and free: "get_free_flides s = 0" "flides s \<noteq> []"
  shows "\<exists>s' f. vfs_open c path flags s = Inr (0, s') \<and> flides s' = (flides s)[0 := Some f] \<and> f_inode f = i \<and> f_offset f = 0"
proof -
  let ?s = "vfs_held c s"
  have lock: "vfs_lock c s = Inr ?s" by (rule vfs_lock_idle [OF idle])
  have l: "fs_lookup c fs raw ?s = Inr (Some i, ?s)" using ops look by (simp add: fs_lookup_def)
  have fl: "flides ?s = flides s" "get_free_flides ?s = 0"
    using free by (auto simp: vfs_held_def get_free_flides_def set_vcpu_def split: if_splits)
  have k: "kmt_locked c (vkmt ?s) (Inr ((), vkmt ?s)) = Inr ((), vkmt ?s)"
    using kmt_locked_nested [OF nested_held [OF idle], where c = c and x = "Inr ()"] by simp
  let ?f = "\<lparr>f_inode = i, f_offset = 0\<rparr>"
  have f: "inode_open ?f flags = (0, ?f)" using look(2) by (simp add: inode_open_def devfs_inode_open_def)
  have "vfs_unlock c (set_FILE 0 (Some ?f) ?s) =
    Inr (set_vcpu (cli_refresh (vcpu s)) ((set_FILE 0 (Some ?f) ?s)\<lparr>lock_vfs := lock_vfs s\<rparr>))"
    by (rule vfs_unlock_held [OF idle]) (simp_all add: set_FILE_def vcpu_def)
  then show ?thesis
    using lock m l fl k f free(2)
    by (simp add: vfs_open_def open_inode_def FILE_def Let_def) (rule exI [of _ ?f], simp add: set_FILE_def fl)
qed

lemma home_mounted:
  "mounted ''/home'' (vfs_held 0 home_vfs) = Inr (\<lparr>fs_ops = Devfs_ops, fs_dev = None\<rparr>, [])"
  "mounted ''/dev/tty1'' (vfs_held 0 home_vfs) = Inr (\<lparr>fs_ops = Devfs_ops, fs_dev = None\<rparr>, ''tty1'')"
  by (simp_all add: mounted_def get_mount_def vfs_held_def) (simp_all add: home_vfs_def sample_vfs_def)

lemma home_free: "get_free_flides home_vfs = 0" "flides home_vfs \<noteq> []"
  by (simp_all add: home_vfs_def sample_vfs_def get_free_flides_def numeral_eq_Suc)

lemma home_open:
  "\<exists>s' f. vfs_open 0 ''/home'' flags home_vfs = Inr (0, s') \<and> flides s' = (flides home_vfs)[0 := Some f] \<and> i_type (f_inode f) = DR"
proof -
  let ?fs = "\<lparr>fs_ops = Devfs_ops, fs_dev = None\<rparr>"
  obtain i where "devfs_lookup ?fs [] = Inr (Some i)" "i_ops i = Devfs_ops" "i_type i = DR"
    by (simp add: devfs_lookup_def is_dir_name_def Let_def new_inode_def)
  with open_devfs [OF home_vfs_idle home_mounted(1) _ _ _ home_free] show ?thesis by fastforce
qed

lemma no_drivers [simp]: "(s :: ('c, unit) vfs_state)\<lparr>drivers := ()\<rparr> = s"
  by (cases s) simp

lemma sample_write:
  assumes "FILE 0 s = Inr (Some f)" and "i_ops (f_inode f) = Devfs_ops" and "i_id (f_inode f) = 1" and "i_type (f_inode f) = DV_CHAR"
    and "fs_inode (f_inode f) = DevData d"
  shows "\<exists>r. vfs_write sample_env 0 bs s = Inr (r, set_FILE 0 (Some f) s)"
    and "length b = 128 \<Longrightarrow> vfs_read sample_env c 0 b n s = Inr (4, [112, 119, 100, 10] @ drop (Suc (Suc (Suc (Suc 0)))) b, s)"
  using assms by (simp_all add: vfs_write_def vfs_read_def inode_write_def inode_read_def devfs_inode_write_def devfs_inode_read_def
      DEV_def DV_CHAR_def DV_BLOCK_def sample_env_def sample_ops_def buf_put_def)

lemma sample_turn:
  assumes "FILE 0 (sh_vfs st) = Inr (Some f)" and "i_ops (f_inode f) = Devfs_ops" and "i_id (f_inode f) = 1"
    and "i_type (f_inode f) = DV_CHAR" and "fs_inode (f_inode f) = DevData d" and "c_str (sh_pwd st) = Inr ''/''"
    and "length (sh_line st) = 128" and "length (sh_text st) = 1024" and "length (flides (sh_vfs st)) = 64"
  shows "\<exists>st'. shell_turn sample_env 0 0 ''tty1'' st = Inr st'"
proof -
  let ?st = "st\<lparr>sh_arg1 := replicate 128 0, sh_arg2 := replicate 128 0\<rparr>"
  let ?vfs = "set_FILE 0 (Some f) (sh_vfs st)"
  have F: "FILE 0 ?vfs = Inr (Some f)" using assms(9) by (simp add: FILE_def set_FILE_def)
  have fmt: "sprintf ''(%s):%s $ '' [StrArg ''tty1'', StrArg ''/''] = Inr (11, ''(tty1):/ $ '')" by (simp add: format_simps)
  have "length ''(tty1):/ $ '' < length (sh_text st)" using assms(8) by simp
  from put_str_fits [OF this] obtain t where t: "put_str (sh_text st) ''(tty1):/ $ '' = Inr t" by blast
  note t' = put_str_Inr [OF t]
  obtain r where w: "vfs_write sample_env 0 (map of_char ''(tty1):/ $ '') (sh_vfs st) = Inr (r, ?vfs)"
    using sample_write(1) [OF assms(1-5)] by blast
  let ?st2 = "?st\<lparr>sh_text := t, sh_vfs := ?vfs\<rparr>"
  have "shell_prompt sample_env 0 ''tty1'' st = Inr ?st2"
    using assms(6) fmt t t'(1) w by (simp add: shell_prompt_def say_def print_to_def sh_write_def Let_def del: list.map)
  moreover let ?line = "([112, 119, 100, 10] @ drop (Suc (Suc (Suc (Suc 0)))) (sh_line st))[3 := 0]"
  let ?st3 = "?st2\<lparr>sh_line := ?line\<rparr>"
  have "shell_line sample_env 0 0 ?st2 = Inr ?st3"
    using sample_write(2) [OF F assms(2-5,7)] assms(7) by (simp add: shell_line_def)
  moreover have line: "?line = name_bytes ''pwd'' @ drop (Suc (Suc (Suc (Suc 0)))) (sh_line st)" by (simp add: name_bytes_def)
  have "c_str ?line = Inr ''pwd''" unfolding line by (rule c_str_name_append) simp
  moreover have fmt2: "sprintf (''%s'' @ nl) [StrArg ''/''] = Inr (2, ''/'' @ nl)" by (simp add: format_simps nl_def)
  have "length (''/'' @ nl) < length t" using t'(2) assms(8) by (simp add: nl_def)
  from put_str_fits [OF this] obtain u where u: "put_str t (''/'' @ nl) = Inr u" by blast
  have "shell_command sample_env 0 ''pwd'' ?st3 = Inr (?st3\<lparr>sh_text := u\<rparr>)"
    using assms(6) fmt2 u by (simp add: shell_command_def say_def print_to_def)
  moreover obtain r2 where "vfs_write sample_env 0 (map of_char (''/'' @ nl)) ?vfs = Inr (r2, set_FILE 0 (Some f) ?vfs)"
    using sample_write(1) [OF F assms(2-5)] by blast
  then have "sh_write sample_env 0 u (?st3\<lparr>sh_text := u\<rparr>) = Inr (r2, ?st3\<lparr>sh_text := u, sh_vfs := set_FILE 0 (Some f) ?vfs\<rparr>)"
    using put_str_Inr(1) [OF u] by (simp add: sh_write_def nl_def del: list.map)
  ultimately show ?thesis by (simp add: shell_turn_def)
qed

lemma sample_task: "\<exists>st'. shell_task 1 sample_env 0 ''/dev/tty1'' sample_shell = Inr st'"
proof -
  have len: "length ''/'' < length (sh_pwd sample_shell)" by (simp add: sample_shell_def name_bytes_def)
  obtain p where p: "put_str (sh_pwd sample_shell) ''/'' = Inr p" using put_str_fits [OF len] by blast
  let ?fs = "\<lparr>fs_ops = Devfs_ops, fs_dev = None\<rparr>"
  obtain i where i: "devfs_lookup ?fs ''tty1'' = Inr (Some i)" "i_ops i = Devfs_ops" "i_type i = DV_CHAR" "i_id i = 1" "fs_inode i = DevData 4"
    by (simp add: devfs_lookup_def is_dir_name_def checkdevice_def devfs_devices_def dev_lookup_def devices_def dev_create_def Let_def new_inode_def)
  obtain s f where o1: "vfs_open 0 ''/dev/tty1'' 0 home_vfs = Inr (0, s)" "flides s = (flides home_vfs)[0 := Some f]" "f_inode f = i"
    using open_devfs [OF home_vfs_idle home_mounted(2) _ i(1,2) home_free, where flags = 0] by auto
  let ?st = "sample_shell\<lparr>sh_pwd := p, sh_vfs := s\<rparr>"
  have fl: "FILE 0 s = Inr (Some f)" "length (flides s) = 64" using o1(2) by (simp_all add: FILE_def home_vfs_def sample_vfs_def)
  have "filename (Some ''/dev/tty1'') = Some ''tty1''" by (simp add: filename_def slash_down.simps)
  moreover obtain st' where "shell_turn sample_env 0 0 ''tty1'' ?st = Inr st'"
    using sample_turn [of ?st f 4] fl o1(3) i put_str_Inr(1) [OF p] by (auto simp: sample_shell_def)
  ultimately show ?thesis using p o1(1) by (simp add: shell_task_def cd_root_def sh_open_def) (simp add: sample_shell_def)
qed

section \<open>Properties\<close>

text \<open>
  C24. The working directory of a shell is a path that starts and ends with a slash, whatever lines it reads, whatever the
  disks and drivers do and however many turns of its loop it has run: a command that would break this
  does not return.
\<close>

theorem shell_directory:
  assumes "length (sh_pwd st) = 128" and "shell_task n env c name st = Inr st'"
  shows "length (sh_pwd st') = 128 \<and> (\<exists>p. c_str (sh_pwd st') = Inr p \<and> p \<noteq> [] \<and> hd p = CHR ''/'' \<and> last p = CHR ''/'')"
proof -
  obtain st1 fd st2 sname where "cd_root st = Inr st1" and o: "sh_open c name 0 st1 = Inr (fd, st2)"
    and run: "shell_turns n env c fd sname st2 = Inr st'"
    using assms(2) by (auto simp: shell_task_def bindr_eq_Inr split: option.splits)
  then have "pwd_ok st1" using cd_root_keeps [OF assms(1)] by blast
  then have "pwd_ok st2" using sh_pwd_calls(1) [OF o] by (simp add: pwd_ok_def)
  from shell_turns_keeps [OF this run] show ?thesis by (simp add: pwd_ok_def pwd_path_def)
qed

lemma shell_directory_witness:
  "\<exists>st' p. shell_task 1 sample_env 0 ''/dev/tty1'' sample_shell = Inr st' \<and> c_str (sh_pwd st') = Inr p \<and> last p = CHR ''/''"
proof -
  obtain st' where run: "shell_task 1 sample_env 0 ''/dev/tty1'' sample_shell = Inr st'" using sample_task by blast
  have "length (sh_pwd sample_shell) = 128" by (simp add: sample_shell_def name_bytes_def)
  from shell_directory [OF this run] run show ?thesis by blast
qed

text \<open>
  \<open>cd ..\<close> takes back \<open>cd name\<close>: when \<open>name\<close> is one component that opens as a directory and the buffers
  have room for it, both commands return, the directory in between is the old one with the name and a
  slash, the directory afterwards is the old one, and the table of open files is as before.
\<close>

theorem cd_then_up:
  assumes "buffers_ok st" and "length (sh_pwd st) = 128" and "c_str (sh_pwd st) = Inr (q @ ''/'')" and "dir_name name"
    and "length q + length name + 3 \<le> 128" and "vfs_idle (sh_vfs st)" and "initialized (sh_vfs st)"
    and "vfs_open c (q @ ''/'' @ name) O_RD (sh_vfs st) = Inr (fd, s1)" and "fd \<noteq> -1"
    and "flides s1 ! nat fd = Some f" and "i_type (f_inode f) = DR"
  shows "\<exists>st1 st2. shell_command env c (''cd '' @ name) st = Inr st1 \<and> c_str (sh_pwd st1) = Inr (q @ ''/'' @ name @ ''/'') \<and>
    shell_command env c ''cd ..'' st1 = Inr st2 \<and> c_str (sh_pwd st2) = Inr (q @ ''/'') \<and>
    flides (sh_vfs st2) = flides (sh_vfs st)"
proof -
  have "length name < length (sh_arg1 st)" using assms(1,5) by (simp add: buffers_ok_def)
  from put_str_fits [OF this] obtain b where b: "put_str (sh_arg1 st) name = Inr b" by blast
  from open_takes_lowest [OF assms(6-8)] assms(9) obtain j where fd: "fd = int j" "j < length (flides s1)" by auto
  obtain s2 where s2: "vfs_close c fd s1 = Inr (0, s2)" "flides s2 = flides (sh_vfs st)"
    using close_undoes_open [OF assms(6-9)] by blast
  let ?st1 = "(st\<lparr>sh_arg1 := b\<rparr>)\<lparr>sh_vfs := s1\<rparr>"
  have "\<exists>st3. shell_cd c (''cd '' @ name) st = Inr st3 \<and> c_str (sh_pwd st3) = Inr ((q @ ''/'') @ name @ ''/'') \<and>
    sh_vfs st3 = sh_vfs (?st1\<lparr>sh_vfs := s2\<rparr>) \<and> buffers_ok st3 \<and> length (sh_pwd st3) = 128"
  proof (rule cd_name [OF assms(1-4) _ _ _ _ assms(11) _ b, where fd = fd and x = 0])
    show "sh_open c ((q @ ''/'') @ name) O_RD (st\<lparr>sh_arg1 := b\<rparr>) = Inr (fd, ?st1)" using assms(8) by (simp add: sh_open_def)
    show "file_inode fd ?st1 = Inr (f_inode f)" using fd assms(10) by (simp add: file_inode_def FILE_def)
    show "sh_close c fd ?st1 = Inr (0, ?st1\<lparr>sh_vfs := s2\<rparr>)" using s2 by (simp add: sh_close_def)
  qed (use assms(5) fd in simp_all)
  then obtain st3 where st3: "shell_cd c (''cd '' @ name) st = Inr st3" "c_str (sh_pwd st3) = Inr (q @ ''/'' @ name @ ''/'')"
    "sh_vfs st3 = s2" "buffers_ok st3" "length (sh_pwd st3) = 128" by auto
  moreover obtain st4 where "shell_cd c ''cd ..'' st3 = Inr st4" "c_str (sh_pwd st4) = Inr (q @ ''/'')" "sh_vfs st4 = sh_vfs st3"
    using cd_dots [OF st3(4,5), of q name c] st3(2) assms(4) by (auto simp: dir_name_def)
  ultimately show ?thesis using s2(2) by (intro exI [of _ st3] exI [of _ st4]) (simp add: shell_command_def iscmd_def)
qed

lemma cd_then_up_witness:
  "\<exists>st1 st2. shell_command sample_env 0 ''cd home'' sample_shell = Inr st1 \<and> c_str (sh_pwd st1) = Inr ''/home/'' \<and>
    shell_command sample_env 0 ''cd ..'' st1 = Inr st2 \<and> c_str (sh_pwd st2) = Inr ''/''"
proof -
  obtain s1 f where o1: "vfs_open 0 ''/home'' O_RD home_vfs = Inr (0, s1)" "flides s1 = (flides home_vfs)[0 := Some f]"
    "i_type (f_inode f) = DR" using home_open by blast
  have f: "flides s1 ! nat 0 = Some f" using o1(2) home_free(2) by simp
  have "c_str (sh_pwd sample_shell) = Inr ([] @ ''/'')"  by (simp add: sample_shell_def c_str_name_append)
  moreover have "buffers_ok sample_shell" "length (sh_pwd sample_shell) = 128" "sh_vfs sample_shell = home_vfs"
    by (simp_all add: sample_shell_def buffers_ok_def name_bytes_def)
  moreover have "initialized home_vfs" by (simp add: home_vfs_def sample_vfs_def)
  moreover have "dir_name ''home''" by (simp add: dir_name_def)
  ultimately show ?thesis
    using cd_then_up [of sample_shell "[]" "''home''" 0 0 s1 f sample_env] home_vfs_idle o1 f by auto
qed

section \<open>What the commands get wrong\<close>

text \<open>\<open>rm\<close> of a directory leaves the directory, and the descriptor it has opened to look at it.\<close>

lemma rm_directory_leaks:
  assumes "shell_rm c l st = Inr st'" and "get1arg l 2 st = Inr (False, st1)" and "modify1 st1 = Inr (w, st2)"
    and "vfs_open c w 0 (sh_vfs st2) = Inr (fd, s)" and "0 \<le> fd" and "FILE fd s = Inr (Some f)" and "i_type (f_inode f) = DR"
  shows "sh_vfs st' = s"
  using assms by (auto simp: shell_rm_def with_path_def sh_open_def file_inode_def is_dir_def say_def bindr_eq_Inr)

text \<open>The names of the other types do not fit into the ten bytes: \<open>stat\<close> of a file overruns its stack.\<close>

lemma stat_file_overruns: "i_type i = NF \<or> i_type i = DV_CHAR \<or> i_type i = DV_BLOCK \<Longrightarrow> type_text i = Inl BadAccess"
  by (auto simp: type_text_def NF_def DR_def DV_CHAR_def DV_BLOCK_def put_str_def buf_put_def name_bytes_def)

text \<open>\<open>read\<close> without an operand writes its message and then reads from descriptor 0.\<close>

lemma read_without_operand:
  assumes "\<not> blank_at l 4" and "c_str (sh_arg1 st) = Inr []" and "missing st = Inr st1"
    and "sh_read env c 0 1024 st1 = Inr (n, st2)" and "0 \<le> n"
  shows "shell_read env c l st = Inr st2"
proof -
  have "sh_arg1 st1 = sh_arg1 st" using assms(3) by (auto simp: missing_def bindr_eq_Inr)
  moreover have "atoi [] = 0" by (simp add: atoi_def)
  ultimately show ?thesis using assms by (simp add: shell_read_def get1arg_def)
qed

text \<open>The failed \<open>close\<close> prints a number nobody passed.\<close>

lemma close_unknown_faults:
  assumes "get1arg l 5 st = Inr (False, st1)" and "c_str (sh_arg1 st1) = Inr w" and "sh_close c (atoi w) st1 = Inr (r, st2)" and "r \<noteq> 0"
  shows "shell_close c l st = Inl BadAccess"
proof -
  have "sprintf (FAIL @ ''unable to close file with fd=%d'' @ nl) [] = Inl BadAccess"
    by (simp add: FAIL_def nl_def format_simps) (subst vsprintf_loop.simps, simp add: parse_spec_d convert_def base_flags_def Let_def)
  then show ?thesis using assms by (simp add: shell_close_def say_def print_to_def)
qed

end
