(* ===== verification/Video.thy ===== *)
theory Video imports Tty C_Memory begin

text \<open>
  The frame buffer device of \<open>kernel/src/devices/video/video.c\<close>: a table of 8 by 8 textures in memory,
  filled from the font, and sprites that name a texture and a place. A drawing is a call of the video
  device of the machine, recorded here with its pixels. Memory outside the table is \<open>BadAccess\<close>.
\<close>

section \<open>State\<close>

definition NTEXTURE :: nat where "NTEXTURE = 16384"
definition NSPRITE :: nat where "NSPRITE = 16384"
definition TEXTURE_W :: nat where "TEXTURE_W = 8"
definition TEXTURE_H :: nat where "TEXTURE_H = 8"
definition SPRITE_BRK :: int where "SPRITE_BRK = 0x1000000"
definition TEXTURE_BYTES :: nat where "TEXTURE_BYTES = 4 * (TEXTURE_W * TEXTURE_H)"

record display_info =
  di_width :: u32
  di_height :: u32
  di_num_displays :: u32
  di_current :: u32
  di_num_textures :: u32
  di_num_sprites :: u32

record fb =
  fb_info :: display_info
  fb_textures :: memory

text \<open>One rectangle sent to the device.\<close>

record blit =
  bl_x :: nat
  bl_y :: nat
  bl_w :: nat
  bl_h :: nat
  bl_pixels :: "u32 list"

section \<open>Textures and the font\<close>

text \<open>The pixels \<open>texture_fill\<close> writes, row by row: \<open>bits\<close> are the sixteen rows of a character.\<close>

definition texture_pixels :: "bool \<Rightarrow> u8 list \<Rightarrow> u32 \<Rightarrow> u32 \<Rightarrow> u32 list" where
  "texture_pixels tp bits fg bg =
     concat (map (\<lambda>y. map (\<lambda>x.
       let bitmask = (if tp then bits ! (y + TEXTURE_H) else bits ! y)
       in if drop_bit (7 - x) bitmask AND 1 \<noteq> 0 then fg else bg) [0..<TEXTURE_W]) [0..<TEXTURE_H])"

definition texture_fill :: "nat \<Rightarrow> bool \<Rightarrow> u8 list \<Rightarrow> u32 \<Rightarrow> u32 \<Rightarrow> memory \<Rightarrow> memory" where
  "texture_fill i tp bits fg bg m = overlay m (i * TEXTURE_BYTES) (words32 (texture_pixels tp bits fg bg))"

fun font_load_loop :: "u8 list \<Rightarrow> nat list \<Rightarrow> memory \<Rightarrow> memory" where
  "font_load_loop font [] m = m"
| "font_load_loop font (ch # chs) m =
     font_load_loop font chs
       (texture_fill (ch * 2 + 2) True (drop (16 * ch) font) 0xffffff 0x000000
         (texture_fill (ch * 2 + 1) False (drop (16 * ch) font) 0xffffff 0x000000 m))"

definition font_load :: "u8 list \<Rightarrow> fb \<Rightarrow> fb" where
  "font_load font fb = fb\<lparr>fb_textures := font_load_loop font [0..<256] (fb_textures fb)\<rparr>"

text \<open>\<open>junk\<close> is what the heap held where the textures are allocated.\<close>

definition fb_init :: "u32 \<Rightarrow> u32 \<Rightarrow> u8 list \<Rightarrow> memory \<Rightarrow> fb" where
  "fb_init width height font junk =
     font_load font \<lparr>fb_info = \<lparr>di_width = width, di_height = height, di_num_displays = 8, di_current = 0,
         di_num_textures = of_nat NTEXTURE, di_num_sprites = of_nat NSPRITE\<rparr>, fb_textures = junk\<rparr>"

section \<open>Structures in buffers\<close>

definition info_bytes :: "display_info \<Rightarrow> u8 list" where
  "info_bytes i = words32 [di_width i, di_height i, di_num_displays i, di_current i, di_num_textures i, di_num_sprites i]"

text \<open>The packed sprite: \<open>display\<close> is the low four bits of its last two bytes, \<open>z\<close> the rest, 0 here.\<close>

definition sprite_bytes :: "sprite \<Rightarrow> u8 list" where
  "sprite_bytes sp = bytes16 (sp_texture sp) @ bytes16 (sp_x sp) @ bytes16 (sp_y sp) @ bytes16 (of_nat (sp_display sp) AND 15)"

definition sprite_of_bytes :: "u8 list \<Rightarrow> sprite" where
  "sprite_of_bytes bs =
     \<lparr>sp_texture = of_bytes16 (take 2 bs), sp_x = of_bytes16 (take 2 (drop 2 bs)), sp_y = of_bytes16 (take 2 (drop 4 bs)),
      sp_display = unat (of_bytes16 (take 2 (drop 6 bs)) AND 15)\<rparr>"

section \<open>The device operations\<close>

definition fb_read :: "fb \<Rightarrow> int \<Rightarrow> u32 \<Rightarrow> int \<times> u8 list" where
  "fb_read fb offset count =
     (if offset \<noteq> 0 then (0, [])
      else if count \<noteq> 24 then (0, [])
      else (0, info_bytes (fb_info fb)))"

definition texture_at :: "memory \<Rightarrow> nat \<Rightarrow> u32 list" where
  "texture_at m i = of_words32 (TEXTURE_W * TEXTURE_H) (window m (i * TEXTURE_BYTES) TEXTURE_BYTES)"

text \<open>One turn of the loop over the sprites: what it sends to the device.\<close>

definition draw_sprite :: "fb \<Rightarrow> sprite \<Rightarrow> blit list result" where
  "draw_sprite fb sp =
     (if sp_texture sp > 0 \<and> sp_display sp = unat (di_current (fb_info fb))
      then (if unat (sp_texture sp) < NTEXTURE
            then Inr [\<lparr>bl_x = unat (sp_x sp), bl_y = unat (sp_y sp), bl_w = TEXTURE_W, bl_h = TEXTURE_H,
                       bl_pixels = texture_at (fb_textures fb) (unat (sp_texture sp))\<rparr>]
            else Inl BadAccess)
      else Inr [])"

function draw_sprites :: "fb \<Rightarrow> u8 list \<Rightarrow> blit list result" where
  "draw_sprites fb bs =
     (if bs = [] then Inr []
      else if length bs < 8 then Inl BadAccess
      else bindr (draw_sprite fb (sprite_of_bytes (take 8 bs))) (\<lambda>b.
             bindr (draw_sprites fb (drop 8 bs)) (\<lambda>rest. Inr (b @ rest))))"
  by pat_completeness auto
termination
  by (relation "measure (\<lambda>(fb, bs). length bs)") auto

declare draw_sprites.simps [simp del]

text \<open>What \<open>fb_write\<close> does between the two calls on the semaphore.\<close>

definition fb_store :: "int \<Rightarrow> u8 list \<Rightarrow> fb \<Rightarrow> (blit list \<times> fb) result" where
  "fb_store offset buf fb =
     (if offset = 0 then
        (if length buf < 16 then Inl BadAccess
         else (let cur = of_bytes32 (take 4 (drop 12 buf)) in
           Inr ([], if di_current (fb_info fb) \<noteq> cur then fb\<lparr>fb_info := (fb_info fb)\<lparr>di_current := cur\<rparr>\<rparr> else fb)))
      else if offset < SPRITE_BRK then
        (if 0 \<le> offset \<and> nat offset + length buf \<le> NTEXTURE * TEXTURE_BYTES
         then Inr ([], fb\<lparr>fb_textures := overlay (fb_textures fb) (nat offset) buf\<rparr>) else Inl BadAccess)
      else bindr (draw_sprites fb buf) (\<lambda>b. Inr (b, fb)))"

text \<open>The device with its semaphore; \<open>fbw_out\<close> is what the machine has drawn.\<close>

record 'ctx fb_world =
  fbw_fb :: fb
  fbw_out :: "blit list"
  fbw_sem :: "'ctx sem_world"

definition fb_section :: "nat \<Rightarrow> int \<Rightarrow> u8 list \<Rightarrow> 'ctx fb_world \<Rightarrow> (nat \<times> 'ctx fb_world) result" where
  "fb_section c offset buf w =
     bindr (fb_store offset buf (fbw_fb w)) (\<lambda>(b, fb).
       bindr (sem_signal c (fbw_sem w)) (\<lambda>s.
         Inr (length buf, w\<lparr>fbw_fb := fb, fbw_out := fbw_out w @ b, fbw_sem := s\<rparr>)))"

text \<open>When the wait gives the CPU away the result is None and \<open>fb_section\<close> is what the task does once it is woken.\<close>

definition fb_write :: "nat \<Rightarrow> int \<Rightarrow> u8 list \<Rightarrow> 'ctx fb_world \<Rightarrow> (nat option \<times> 'ctx fb_world) result" where
  "fb_write c offset buf w =
     bindr (sem_wait_enter c (fbw_sem w)) (\<lambda>(x, s).
       case x of
         Yield \<Rightarrow> Inr (None, w\<lparr>fbw_sem := s\<rparr>)
       | Proceed \<Rightarrow> bindr (fb_section c offset buf (w\<lparr>fbw_sem := s\<rparr>)) (\<lambda>(n, w'). Inr (Some n, w')))"

section \<open>The font in the table\<close>

lemma length_texture_pixels [simp]: "length (texture_pixels tp bits fg bg) = 64"
  by (simp add: texture_pixels_def TEXTURE_W_def TEXTURE_H_def length_concat comp_def sum_list_triv)

lemma texture_at_fill:
  "texture_at (texture_fill i tp bits fg bg m) j = (if j = i then texture_pixels tp bits fg bg else texture_at m j)"
proof (cases "j = i")
  case True
  have "window (texture_fill i tp bits fg bg m) (i * TEXTURE_BYTES) TEXTURE_BYTES = words32 (texture_pixels tp bits fg bg)"
    unfolding texture_fill_def
    by (rule window_overlay_same_len) (simp add: TEXTURE_BYTES_def TEXTURE_W_def TEXTURE_H_def)
  with of_words32_words32 [of "texture_pixels tp bits fg bg" "[]"] True show ?thesis
    by (simp add: texture_at_def TEXTURE_W_def TEXTURE_H_def)
next
  case False
  then have "i < j \<or> j < i" by linarith
  then have apart: "j * TEXTURE_BYTES + TEXTURE_BYTES \<le> i * TEXTURE_BYTES \<or> i * TEXTURE_BYTES + TEXTURE_BYTES \<le> j * TEXTURE_BYTES"
    by (metis Suc_leI add.commute mult_Suc mult_le_mono1)
  have "window (texture_fill i tp bits fg bg m) (j * TEXTURE_BYTES) TEXTURE_BYTES = window m (j * TEXTURE_BYTES) TEXTURE_BYTES"
    unfolding texture_fill_def
    by (rule window_overlay_disjoint) (use apart in \<open>simp add: TEXTURE_BYTES_def TEXTURE_W_def TEXTURE_H_def\<close>)
  with False show ?thesis by (simp add: texture_at_def)
qed

lemma font_load_loop_other:
  "\<forall>ch \<in> set chs. j \<noteq> ch * 2 + 1 \<and> j \<noteq> ch * 2 + 2 \<Longrightarrow> texture_at (font_load_loop font chs m) j = texture_at m j"
  by (induction chs arbitrary: m) (simp_all add: texture_at_fill)

lemma font_load_loop_textures:
  "ch \<in> set chs \<Longrightarrow> distinct chs \<Longrightarrow>
     texture_at (font_load_loop font chs m) (ch * 2 + 1) = texture_pixels False (drop (16 * ch) font) 0xffffff 0 \<and>
     texture_at (font_load_loop font chs m) (ch * 2 + 2) = texture_pixels True (drop (16 * ch) font) 0xffffff 0"
proof (induction chs arbitrary: m)
  case (Cons d chs)
  show ?case
  proof (cases "ch = d")
    case True
    have "\<forall>e \<in> set chs. ch * 2 + 1 \<noteq> e * 2 + 1 \<and> ch * 2 + 1 \<noteq> e * 2 + 2"
      "\<forall>e \<in> set chs. ch * 2 + 2 \<noteq> e * 2 + 1 \<and> ch * 2 + 2 \<noteq> e * 2 + 2"
      using Cons.prems True by (auto, presburger+)
    from font_load_loop_other [OF this(1)] font_load_loop_other [OF this(2)] True show ?thesis
      by (simp add: texture_at_fill)
  next
    case False
    with Cons show ?thesis by simp
  qed
qed simp

end
