(* ===== verification/Video_Render.thy ===== *)
theory Video_Render imports Video begin

text \<open>
  The terminal and the frame buffer together: what a rendering of the screen draws, pixel by pixel, once
  the font is in the table of textures.
\<close>

section \<open>Pixels\<close>

text \<open>Half \<open>h\<close> of the character \<open>ch\<close>: eight rows of eight pixels, white where the font has a one.\<close>

definition glyph_half :: "u8 list \<Rightarrow> nat \<Rightarrow> nat \<Rightarrow> u32 list" where
  "glyph_half font ch h =
     map (\<lambda>i. if bit (font ! (16 * ch + 8 * h + i div 8)) (7 - i mod 8) then 0xffffff else 0) [0..<64]"

lemma shifted_bit: "drop_bit n (w :: u8) AND 1 \<noteq> 0 \<longleftrightarrow> bit w n"
  by (simp add: and_one_eq bit_iff_odd_drop_bit odd_iff_mod_2_eq_one flip: mod_2_eq_odd)

lemma concat_rows:
  "concat (map (\<lambda>y. map (f y) [0..<8]) [0..<n]) = map (\<lambda>i. f (i div 8) (i mod 8)) [0..<8 * n]"
proof (induction n)
  case (Suc n)
  have "[0..<8 * Suc n] = [0..<8 * n] @ [8 * n..<8 * n + 8]" using upt_add_eq_append [of 0 "8 * n" 8] by (simp add: add.commute)
  moreover have "map (\<lambda>i. f (i div 8) (i mod 8)) [8 * n..<8 * n + 8] = map (f n) [0..<8]"
    by (simp add: map_upt_shift)
  ultimately show ?case using Suc.IH by simp
qed simp

lemma texture_pixels_glyph:
  assumes "16 * ch + 16 \<le> length font"
  shows "texture_pixels tp (drop (16 * ch) font) 0xffffff 0 = glyph_half font ch (if tp then 1 else 0)"
proof -
  have n: "drop (16 * ch) font ! k = font ! (16 * ch + k)" if "k < 16" for k
    using assms that by simp
  have "texture_pixels tp (drop (16 * ch) font) 0xffffff 0 =
    concat (map (\<lambda>y. map (\<lambda>x. if bit (font ! (16 * ch + 8 * (if tp then 1 else 0) + y)) (7 - x) then 0xffffff else 0) [0..<8]) [0..<8])"
    unfolding texture_pixels_def TEXTURE_W_def TEXTURE_H_def Let_def shifted_bit
    by (intro arg_cong [of _ _ concat] map_cong refl) (auto simp: n add_ac)
  then show ?thesis by (simp add: concat_rows glyph_half_def)
qed

section \<open>Sprites through the buffer\<close>

lemma unat_of_nat_16: "n < 65536 \<Longrightarrow> unat (of_nat n :: u16) = n"
  by (simp add: unat_of_nat)

lemma sprite_roundtrip: "sp_display sp < 16 \<Longrightarrow> sprite_of_bytes (sprite_bytes sp) = sp"
proof -
  assume d: "sp_display sp < 16"
  have "(of_nat (sp_display sp) :: u16) AND 15 = take_bit 4 (of_nat (sp_display sp))"
    by (simp add: take_bit_eq_mask mask_eq_exp_minus_1)
  also have "unat \<dots> = sp_display sp"
    using d by (simp add: unsigned_take_bit_eq unat_of_nat_16 take_bit_nat_eq_self)
  finally have "unat ((of_nat (sp_display sp) :: u16) AND 15) = sp_display sp" .
  then show ?thesis
    by (cases sp) (simp add: sprite_of_bytes_def sprite_bytes_def)
qed

lemma length_sprite_bytes [simp]: "length (sprite_bytes sp) = 8"
  by (simp add: sprite_bytes_def)

lemma draw_sprites_each:
  "\<forall>sp \<in> set sps. sp_display sp < 16 \<and> draw_sprite fb sp = Inr (f sp) \<Longrightarrow>
     draw_sprites fb (concat (map sprite_bytes sps)) = Inr (concat (map f sps))"
proof (induction sps)
  case Nil
  show ?case by (simp add: draw_sprites.simps)
next
  case (Cons sp sps)
  have "sprite_bytes sp \<noteq> []" by (metis length_sprite_bytes length_0_conv zero_neq_numeral)
  with Cons show ?case by (subst draw_sprites.simps) (simp add: sprite_roundtrip)
qed

lemma concat_map_concat: "concat (map f (concat xss)) = concat (map (\<lambda>xs. concat (map f xs)) xss)"
  by (induction xss) auto

section \<open>A screen\<close>

definition screen_fits :: "tty \<Rightarrow> bool" where
  "screen_fits t \<longleftrightarrow> tty_display t < 16 \<and> 16 * tty_lines t \<le> 65536 \<and> 8 * tty_columns t \<le> 65536"

text \<open>The character a cell shows: the block 0xdb at the cursor.\<close>

definition shown :: "tty \<Rightarrow> nat \<Rightarrow> nat" where
  "shown t i = (if i = tty_cursor t then 0xdb else unat (ch_code (tty_buf t ! i)))"

lemma shown_less: "shown t i < 256"
  using unsigned_less [of "ch_code (tty_buf t ! i)", where ?'a = nat] by (simp add: shown_def)

definition half_blit :: "u8 list \<Rightarrow> tty \<Rightarrow> nat \<Rightarrow> nat \<Rightarrow> nat \<Rightarrow> blit" where
  "half_blit font t y x h =
     \<lparr>bl_x = x * 8, bl_y = y * 16 + 8 * h, bl_w = 8, bl_h = 8, bl_pixels = glyph_half font (shown t (y * tty_columns t + x)) h\<rparr>"

definition cell_blits :: "u8 list \<Rightarrow> tty \<Rightarrow> nat \<Rightarrow> nat \<Rightarrow> blit list" where
  "cell_blits font t y x =
     (if tty_dirty t ! (y * tty_columns t + x) then [half_blit font t y x 0, half_blit font t y x 1] else [])"

lemma draw_half:
  assumes font: "length font = 4096" and cur: "di_current (fb_info fb) = of_nat (tty_display t)" and fits: "screen_fits t"
    and y: "y < tty_lines t" and x: "x < tty_columns t" and h: "h = 0 \<or> h = 1"
  shows "draw_sprite (font_load font fb) \<lparr>sp_texture = of_nat (shown t i * 2 + 1 + h), sp_x = of_nat (x * 8), sp_y = of_nat (y * 16 + 8 * h),
      sp_display = tty_display t\<rparr> =
    Inr [\<lparr>bl_x = x * 8, bl_y = y * 16 + 8 * h, bl_w = 8, bl_h = 8, bl_pixels = glyph_half font (shown t i) h\<rparr>]"
proof -
  let ?ch = "shown t i"
  have ch: "?ch < 256" by (rule shown_less)
  then have tex: "unat (of_nat (?ch * 2 + 1 + h) :: u16) = ?ch * 2 + 1 + h" using h by (subst unat_of_nat_16) auto
  then have pos: "(of_nat (?ch * 2 + 1 + h) :: u16) > 0" by (metis add_is_0 unat_0 word_gt_0 zero_neq_one)
  have coords: "unat (of_nat (x * 8) :: u16) = x * 8" "unat (of_nat (y * 16 + 8 * h) :: u16) = y * 16 + 8 * h"
  proof -
    show "unat (of_nat (x * 8) :: u16) = x * 8" by (rule unat_of_nat_16) (use fits x in \<open>simp add: screen_fits_def\<close>)
    show "unat (of_nat (y * 16 + 8 * h) :: u16) = y * 16 + 8 * h"
      by (rule unat_of_nat_16) (use fits y h in \<open>auto simp: screen_fits_def\<close>)
  qed
  have disp: "unat (di_current (fb_info (font_load font fb))) = tty_display t"
    using cur fits by (simp add: font_load_def screen_fits_def unat_of_nat)
  have "texture_at (fb_textures (font_load font fb)) (?ch * 2 + 1 + h) = glyph_half font ?ch h"
    using h ch font font_load_loop_textures [of ?ch "[0..<256]" font "fb_textures fb"]
      texture_pixels_glyph [of ?ch font False] texture_pixels_glyph [of ?ch font True]
    by (auto simp: font_load_def)
  moreover have "?ch * 2 + 1 + h < NTEXTURE" using h ch by (auto simp: NTEXTURE_def)
  ultimately show ?thesis using tex pos coords disp
    by (simp add: draw_sprite_def TEXTURE_W_def TEXTURE_H_def del: of_nat_add of_nat_mult of_nat_Suc)
qed

lemma cell_sprites_shown:
  "cell_sprites t y x = (if tty_dirty t ! (y * tty_columns t + x) then
     [\<lparr>sp_texture = of_nat (shown t (y * tty_columns t + x) * 2 + 1 + 0), sp_x = of_nat (x * 8), sp_y = of_nat (y * 16 + 8 * 0), sp_display = tty_display t\<rparr>,
      \<lparr>sp_texture = of_nat (shown t (y * tty_columns t + x) * 2 + 1 + 1), sp_x = of_nat (x * 8), sp_y = of_nat (y * 16 + 8 * 1), sp_display = tty_display t\<rparr>]
     else [])"
  by (simp add: cell_sprites_def shown_def Let_def)

section \<open>Properties\<close>

text \<open>
  C18. Rendering draws the characters: what \<open>tty_render\<close> sends to a frame buffer that has the font loaded and shows
  the terminal's display is drawn without a fault, and it is, row by row and column by column, the two
  halves of the glyph of every dirty cell at the place of the cell, pixel by pixel as the font says, with a
  block at the cursor.
\<close>

theorem render_draws:
  assumes "length font = 4096" and "di_current (fb_info fb) = of_nat (tty_display t)" and "screen_fits t"
  shows "draw_sprites (font_load font fb) (concat (map sprite_bytes (render t))) =
    Inr (concat (map (\<lambda>y. concat (map (cell_blits font t y) [0..<tty_columns t])) [0..<tty_lines t]))"
proof -
  define f where "f sp = [\<lparr>bl_x = unat (sp_x sp), bl_y = unat (sp_y sp), bl_w = 8, bl_h = 8,
    bl_pixels = texture_at (fb_textures (font_load font fb)) (unat (sp_texture sp))\<rparr>]" for sp :: sprite
  have half: "draw_sprite (font_load font fb) sp = Inr b \<Longrightarrow> b \<noteq> [] \<Longrightarrow> f sp = b" for sp b
    by (auto simp: draw_sprite_def f_def TEXTURE_W_def TEXTURE_H_def split: if_splits)
  have cell: "(\<forall>sp \<in> set (cell_sprites t y x). sp_display sp < 16 \<and> draw_sprite (font_load font fb) sp = Inr (f sp)) \<and>
      concat (map f (cell_sprites t y x)) = cell_blits font t y x"
    if "y < tty_lines t" "x < tty_columns t" for y x
    unfolding cell_sprites_shown cell_blits_def half_blit_def
    using draw_half [OF assms that, of 0 "y * tty_columns t + x"] draw_half [OF assms that, of 1 "y * tty_columns t + x"]
      half [OF draw_half [OF assms that, of 0 "y * tty_columns t + x"]] half [OF draw_half [OF assms that, of 1 "y * tty_columns t + x"]]
      assms(3) by (simp add: screen_fits_def del: of_nat_add of_nat_mult)
  have "\<forall>sp \<in> set (render t). sp_display sp < 16 \<and> draw_sprite (font_load font fb) sp = Inr (f sp)"
    using cell by (fastforce simp: render_def)
  then have "draw_sprites (font_load font fb) (concat (map sprite_bytes (render t))) = Inr (concat (map f (render t)))"
    by (rule draw_sprites_each)
  also have "concat (map f (render t)) = concat (map (\<lambda>y. concat (map (cell_blits font t y) [0..<tty_columns t])) [0..<tty_lines t])"
    unfolding render_def concat_map_concat
    using cell by (auto simp: comp_def concat_map_concat intro!: arg_cong [of _ _ concat])
  finally show ?thesis .
qed

lemma render_draws_witness:
  "draw_sprites (fb_init 8 16 (replicate 4096 (- 1)) (\<lambda>_. 0)) (concat (map sprite_bytes (render (tty_init 1 8 16 [])))) =
     Inr [\<lparr>bl_x = 0, bl_y = 0, bl_w = 8, bl_h = 8, bl_pixels = replicate 64 0xffffff\<rparr>,
          \<lparr>bl_x = 0, bl_y = 8, bl_w = 8, bl_h = 8, bl_pixels = replicate 64 0xffffff\<rparr>]"
proof -
  let ?font = "replicate 4096 (- 1) :: u8 list" and ?t = "tty_init 1 8 16 []"
  let ?fb = "\<lparr>fb_info = \<lparr>di_width = 8, di_height = 16, di_num_displays = 8, di_current = 0,
    di_num_textures = of_nat NTEXTURE, di_num_sprites = of_nat NSPRITE\<rparr>, fb_textures = (\<lambda>_. 0)\<rparr>"
  have glyph: "glyph_half ?font 0xdb h = replicate 64 0xffffff" if "h < 2" for h
    using that by (intro nth_equalityI) (auto simp: glyph_half_def less_mult_imp_div_less)
  have t: "tty_lines ?t = 1" "tty_columns ?t = 1" "tty_dirty ?t = [True]" "tty_cursor ?t = 0" "tty_display ?t = 0"
    by (simp_all add: tty_init_def)
  then have fits: "screen_fits ?t" by (simp add: screen_fits_def)
  have "cell_blits ?font ?t 0 0 = [\<lparr>bl_x = 0, bl_y = 0, bl_w = 8, bl_h = 8, bl_pixels = replicate 64 0xffffff\<rparr>,
          \<lparr>bl_x = 0, bl_y = 8, bl_w = 8, bl_h = 8, bl_pixels = replicate 64 0xffffff\<rparr>]"
    using t glyph [of 0] glyph [of 1] by (simp add: cell_blits_def half_blit_def shown_def)
  with render_draws [OF _ _ fits, of ?font ?fb] t show ?thesis by (simp add: fb_init_def)
qed

end
