(* ===== verification/Nes_State.thy ===== *)
theory Nes_State imports C_Base "HOL-Library.Signed_Division" begin

text \<open>
  LiteNES (apps/litenes): the global variables of the emulator as one record, the bit helpers of
  common.h and common.c, and the cartridge memory of mmc.c. Arrays are functions from their index;
  every access that can leave its array goes through \<open>in_bounds\<close>, which sets the flag \<open>oob\<close> when
  the index is out of range: from then on the C program has no defined behaviour. The C type
  \<open>int\<close> is \<open>int\<close> where the values stay small (this is proved for \<open>op_value\<close> and \<open>op_address\<close>).
\<close>

section \<open>State\<close>

text \<open>\<open>CPU_STATE\<close> of cpu.h and \<open>PPU_STATE\<close> of ppu.h.\<close>

record cpu_state =
  rPC :: u16
  rSP :: u8
  rA :: u8
  rX :: u8
  rY :: u8
  rP :: u8

record ppu_state =
  PPUCTRL :: u8
  PPUMASK :: u8
  PPUSTATUS :: u8
  OAMADDR :: u8
  PPUSCROLL :: u16
  PPUSCROLL_X :: u8
  PPUSCROLL_Y :: u8
  PPUADDR :: u16
  PPUDATA :: u16
  scroll_received_x :: bool
  addr_received_high_byte :: bool
  ppu_ready :: bool
  mirroring :: int
  mirroring_xor :: int
  scanline :: int

text \<open>What the emulator sends to the screen: \<open>draw_rect\<close> and \<open>draw_sync\<close> of klib.\<close>

datatype screen_op = Draw_rect "u32 list" int int int int | Draw_sync

record nes =
  cpu :: cpu_state
  CPU_RAM :: "nat \<Rightarrow> u8"
  op_code :: u8
  op_value :: int
  op_address :: int
  op_cycles :: nat
  cpu_cycles :: u32
  mmc_id :: u8
  mmc_chr_pages :: "nat \<Rightarrow> nat \<Rightarrow> u8"
  mmc_chr_pages_number :: nat
  mmc_memory :: "nat \<Rightarrow> u8"
  prev_write :: u8
  psg_p :: nat
  key_state :: "nat \<Rightarrow> int"
  PPU_SPRRAM :: "nat \<Rightarrow> u8"
  PPU_RAM :: "nat \<Rightarrow> u8"
  ppu_2007_first_read :: bool
  ppu_addr_latch :: u8
  ppu :: ppu_state
  ppu_latch :: u8
  ppu_sprite_hit_occured :: bool
  ppu_screen_background :: "nat \<Rightarrow> nat \<Rightarrow> u8"
  XHL :: "nat \<Rightarrow> nat \<Rightarrow> nat \<Rightarrow> u8"
  XHL64 :: "nat \<Rightarrow> nat \<Rightarrow> 64 word"
  XHLmask :: "nat \<Rightarrow> nat \<Rightarrow> 64 word"
  ppu_ram_map :: "nat \<Rightarrow> u16"
  frame_cnt :: int
  canvas :: "nat \<Rightarrow> nat \<Rightarrow> u8"
  xmap :: "nat \<Rightarrow> int"
  fce_rom_type :: u16
  scr_width :: int
  scr_height :: int
  screen :: "screen_op list"
  oob :: bool

definition upd_cpu :: "(cpu_state \<Rightarrow> cpu_state) \<Rightarrow> nes \<Rightarrow> nes" where
  "upd_cpu f s = s\<lparr>cpu := f (cpu s)\<rparr>"

definition upd_ppu :: "(ppu_state \<Rightarrow> ppu_state) \<Rightarrow> nes \<Rightarrow> nes" where
  "upd_ppu f s = s\<lparr>ppu := f (ppu s)\<rparr>"

definition in_bounds :: "bool \<Rightarrow> nes \<Rightarrow> nes" where
  "in_bounds ok s = (if ok then s else s\<lparr>oob := True\<rparr>)"

text \<open>
  The state before \<open>main\<close>: static storage is zero, but for \<open>p\<close> of psg.c, which starts at 10. The
  size of the screen is fixed by the device.
\<close>

definition nes_start :: "int \<Rightarrow> int \<Rightarrow> nes" where
  "nes_start w h = \<lparr>
    cpu = \<lparr>rPC = 0, rSP = 0, rA = 0, rX = 0, rY = 0, rP = 0\<rparr>,
    CPU_RAM = \<lambda>_. 0, op_code = 0, op_value = 0, op_address = 0, op_cycles = 0, cpu_cycles = 0,
    mmc_id = 0, mmc_chr_pages = \<lambda>_ _. 0, mmc_chr_pages_number = 0, mmc_memory = \<lambda>_. 0,
    prev_write = 0, psg_p = 10, key_state = \<lambda>_. 0,
    PPU_SPRRAM = \<lambda>_. 0, PPU_RAM = \<lambda>_. 0, ppu_2007_first_read = False, ppu_addr_latch = 0,
    ppu = \<lparr>PPUCTRL = 0, PPUMASK = 0, PPUSTATUS = 0, OAMADDR = 0, PPUSCROLL = 0, PPUSCROLL_X = 0,
      PPUSCROLL_Y = 0, PPUADDR = 0, PPUDATA = 0, scroll_received_x = False,
      addr_received_high_byte = False, ppu_ready = False, mirroring = 0, mirroring_xor = 0,
      scanline = 0\<rparr>,
    ppu_latch = 0, ppu_sprite_hit_occured = False, ppu_screen_background = \<lambda>_ _. 0,
    XHL = \<lambda>_ _ _. 0, XHL64 = \<lambda>_ _. 0, XHLmask = \<lambda>_ _. 0, ppu_ram_map = \<lambda>_. 0,
    frame_cnt = 0, canvas = \<lambda>_ _. 0, xmap = \<lambda>_. 0, fce_rom_type = 0,
    scr_width = w, scr_height = h, screen = [], oob = False\<rparr>"

section \<open>Bit helpers\<close>

text \<open>common.c for bytes; the variants for words and double words differ in the type only.\<close>

definition common_bit_set :: "int \<Rightarrow> nat \<Rightarrow> int" where
  "common_bit_set value position = value AND push_bit position 1"

definition common_set_bit :: "nat \<Rightarrow> ('a::len) word \<Rightarrow> 'a word" where
  "common_set_bit position v = v OR push_bit position 1"

definition common_unset_bit :: "nat \<Rightarrow> ('a::len) word \<Rightarrow> 'a word" where
  "common_unset_bit position v = v AND NOT (push_bit position 1)"

definition common_toggle_bit :: "nat \<Rightarrow> ('a::len) word \<Rightarrow> 'a word" where
  "common_toggle_bit position v = v XOR push_bit position 1"

definition common_modify_bit :: "nat \<Rightarrow> bool \<Rightarrow> ('a::len) word \<Rightarrow> 'a word" where
  "common_modify_bit position b v = (if b then common_set_bit position v else common_unset_bit position v)"

text \<open>\<open>memcpy\<close> of common.h, from a range of a byte array to a range of another.\<close>

primrec memcpy_loop :: "(nat \<Rightarrow> u8) \<Rightarrow> nat \<Rightarrow> (nat \<Rightarrow> u8) \<Rightarrow> nat \<Rightarrow> nat \<Rightarrow> nat \<Rightarrow> u8" where
  "memcpy_loop dest d src a 0 = dest"
| "memcpy_loop dest d src a (Suc n) = (memcpy_loop dest d src a n)(d + n := src (a + n))"

text \<open>\<open>memcmp\<close> of common.h: the sign of the first difference.\<close>

primrec common_memcmp :: "u8 list \<Rightarrow> u8 list \<Rightarrow> int" where
  "common_memcmp [] ys = 0"
| "common_memcmp (x # xs) ys =
    (if x < hd ys then - 1 else if x > hd ys then 1 else common_memcmp xs (tl ys))"

section \<open>Cartridge\<close>

definition MMC_MAX_PAGE_COUNT :: nat where
  "MMC_MAX_PAGE_COUNT = 1"

definition mmc_read :: "u16 \<Rightarrow> nes \<Rightarrow> u8" where
  "mmc_read address s = mmc_memory s (unat address)"

definition mmc_write :: "u16 \<Rightarrow> u8 \<Rightarrow> nes \<Rightarrow> nes" where
  "mmc_write address data s = s\<lparr>mmc_memory := (mmc_memory s)(unat address := data)\<rparr>"

text \<open>A block of the cartridge file is the list of its bytes; a shorter one is read past its end.\<close>

definition mmc_copy :: "nat \<Rightarrow> u8 list \<Rightarrow> nat \<Rightarrow> nes \<Rightarrow> nes" where
  "mmc_copy address source n s =
    in_bounds (n \<le> length source \<and> address + n \<le> 0x10000)
      (s\<lparr>mmc_memory := memcpy_loop (mmc_memory s) address ((!) source) 0 n\<rparr>)"

definition mmc_append_chr_rom_page :: "u8 list \<Rightarrow> nes \<Rightarrow> nes" where
  "mmc_append_chr_rom_page source s =
    (let k = mmc_chr_pages_number s
     in in_bounds (k < MMC_MAX_PAGE_COUNT \<and> 0x2000 \<le> length source)
       (s\<lparr>mmc_chr_pages_number := k + 1,
          mmc_chr_pages := (mmc_chr_pages s)(k := memcpy_loop (mmc_chr_pages s k) 0 ((!) source) 0 0x2000)\<rparr>))"

end
