(* ===== verification/Nes_Ppu.thy ===== *)
theory Nes_Ppu imports Nes_State begin

text \<open>
  LiteNES: the picture processing unit of ppu.c -- its register bits, its memory, the tables for
  fast rendering, the scan lines of background and sprites, and its memory-mapped registers.
  \<open>ppu_cycle\<close>, which calls the CPU and the screen, is in \<open>Nes_Run\<close>.
\<close>

section \<open>Register bits\<close>

definition ppu_base_nametable_addresses :: "u16 list" where
  "ppu_base_nametable_addresses = [0x2000, 0x2400, 0x2800, 0x2C00]"

definition ctrl_bit :: "nat \<Rightarrow> nes \<Rightarrow> bool" where
  "ctrl_bit k s = (common_bit_set (uint (PPUCTRL (ppu s))) k \<noteq> 0)"

definition ppu_base_nametable_address :: "nes \<Rightarrow> u16" where
  "ppu_base_nametable_address s = ppu_base_nametable_addresses ! unat (PPUCTRL (ppu s) AND 0x3)"

definition ppu_vram_address_increment :: "nes \<Rightarrow> u8" where
  "ppu_vram_address_increment s = (if ctrl_bit 2 s then 32 else 1)"

definition ppu_sprite_pattern_table_address :: "nes \<Rightarrow> u16" where
  "ppu_sprite_pattern_table_address s = (if ctrl_bit 3 s then 0x1000 else 0x0000)"

definition ppu_background_pattern_table_address :: "nes \<Rightarrow> u16" where
  "ppu_background_pattern_table_address s = (if ctrl_bit 4 s then 0x1000 else 0x0000)"

definition ppu_sprite_height :: "nes \<Rightarrow> u8" where
  "ppu_sprite_height s = (if ctrl_bit 5 s then 16 else 8)"

definition ppu_generates_nmi :: "nes \<Rightarrow> bool" where
  "ppu_generates_nmi s = ctrl_bit 7 s"

definition mask_bit :: "nat \<Rightarrow> nes \<Rightarrow> bool" where
  "mask_bit k s = (common_bit_set (uint (PPUMASK (ppu s))) k \<noteq> 0)"

definition set_mask_bit :: "nat \<Rightarrow> bool \<Rightarrow> nes \<Rightarrow> nes" where
  "set_mask_bit k b = upd_ppu (\<lambda>p. p\<lparr>PPUMASK := common_modify_bit k b (PPUMASK p)\<rparr>)"

definition ppu_renders_grayscale :: "nes \<Rightarrow> bool" where "ppu_renders_grayscale = mask_bit 0"
definition ppu_shows_background_in_leftmost_8px :: "nes \<Rightarrow> bool" where
  "ppu_shows_background_in_leftmost_8px = mask_bit 1"
definition ppu_shows_sprites_in_leftmost_8px :: "nes \<Rightarrow> bool" where
  "ppu_shows_sprites_in_leftmost_8px = mask_bit 2"
definition ppu_shows_background :: "nes \<Rightarrow> bool" where "ppu_shows_background = mask_bit 3"
definition ppu_shows_sprites :: "nes \<Rightarrow> bool" where "ppu_shows_sprites = mask_bit 4"
definition ppu_intensifies_reds :: "nes \<Rightarrow> bool" where "ppu_intensifies_reds = mask_bit 5"
definition ppu_intensifies_greens :: "nes \<Rightarrow> bool" where "ppu_intensifies_greens = mask_bit 6"
definition ppu_intensifies_blues :: "nes \<Rightarrow> bool" where "ppu_intensifies_blues = mask_bit 7"

definition ppu_set_renders_grayscale :: "bool \<Rightarrow> nes \<Rightarrow> nes" where
  "ppu_set_renders_grayscale = set_mask_bit 0"
definition ppu_set_shows_background_in_leftmost_8px :: "bool \<Rightarrow> nes \<Rightarrow> nes" where
  "ppu_set_shows_background_in_leftmost_8px = set_mask_bit 1"
definition ppu_set_shows_sprites_in_leftmost_8px :: "bool \<Rightarrow> nes \<Rightarrow> nes" where
  "ppu_set_shows_sprites_in_leftmost_8px = set_mask_bit 2"
definition ppu_set_shows_background :: "bool \<Rightarrow> nes \<Rightarrow> nes" where
  "ppu_set_shows_background = set_mask_bit 3"
definition ppu_set_shows_sprites :: "bool \<Rightarrow> nes \<Rightarrow> nes" where
  "ppu_set_shows_sprites = set_mask_bit 4"
definition ppu_set_intensifies_reds :: "bool \<Rightarrow> nes \<Rightarrow> nes" where
  "ppu_set_intensifies_reds = set_mask_bit 5"
definition ppu_set_intensifies_greens :: "bool \<Rightarrow> nes \<Rightarrow> nes" where
  "ppu_set_intensifies_greens = set_mask_bit 6"
definition ppu_set_intensifies_blues :: "bool \<Rightarrow> nes \<Rightarrow> nes" where
  "ppu_set_intensifies_blues = set_mask_bit 7"

definition status_bit :: "nat \<Rightarrow> nes \<Rightarrow> bool" where
  "status_bit k s = (common_bit_set (uint (PPUSTATUS (ppu s))) k \<noteq> 0)"

definition set_status_bit :: "nat \<Rightarrow> bool \<Rightarrow> nes \<Rightarrow> nes" where
  "set_status_bit k b = upd_ppu (\<lambda>p. p\<lparr>PPUSTATUS := common_modify_bit k b (PPUSTATUS p)\<rparr>)"

definition ppu_sprite_overflow :: "nes \<Rightarrow> bool" where "ppu_sprite_overflow = status_bit 5"
definition ppu_sprite_0_hit :: "nes \<Rightarrow> bool" where "ppu_sprite_0_hit = status_bit 6"
definition ppu_in_vblank :: "nes \<Rightarrow> bool" where "ppu_in_vblank = status_bit 7"

definition ppu_set_sprite_overflow :: "bool \<Rightarrow> nes \<Rightarrow> nes" where
  "ppu_set_sprite_overflow = set_status_bit 5"
definition ppu_set_sprite_0_hit :: "bool \<Rightarrow> nes \<Rightarrow> nes" where
  "ppu_set_sprite_0_hit = set_status_bit 6"
definition ppu_set_in_vblank :: "bool \<Rightarrow> nes \<Rightarrow> nes" where
  "ppu_set_in_vblank = set_status_bit 7"

section \<open>Memory\<close>

definition ppu_get_real_ram_address :: "u16 \<Rightarrow> u16" where
  "ppu_get_real_ram_address address =
    (if address < 0x2000 then address
     else if address < 0x3F00 then (if address < 0x3000 then address else address)
     else if address < 0x4000 then
       (let a = 0x3F00 OR (address AND 0x1F)
        in if a = 0x3F10 \<or> a = 0x3F14 \<or> a = 0x3F18 \<or> a = 0x3F1C then a - 0x10 else a)
     else 0xFFFF)"

text \<open>Both arrays have \<open>0x4000\<close> entries.\<close>

definition ppu_ram_ok :: "u16 \<Rightarrow> nes \<Rightarrow> bool" where
  "ppu_ram_ok address s = (unat address < 0x4000 \<and> unat (ppu_ram_map s (unat address)) < 0x4000)"

definition ppu_ram_read :: "u16 \<Rightarrow> nes \<Rightarrow> u8" where
  "ppu_ram_read address s = PPU_RAM s (unat (ppu_ram_map s (unat address)))"

definition ppu_ram_write :: "u16 \<Rightarrow> u8 \<Rightarrow> nes \<Rightarrow> nes" where
  "ppu_ram_write address data s =
    in_bounds (ppu_ram_ok address s)
      (s\<lparr>PPU_RAM := (PPU_RAM s)(unat (ppu_ram_map s (unat address)) := data)\<rparr>)"

definition ppu_copy :: "nat \<Rightarrow> u8 list \<Rightarrow> nat \<Rightarrow> nes \<Rightarrow> nes" where
  "ppu_copy address source n s =
    in_bounds (n \<le> length source \<and> address + n \<le> 0x4000)
      (s\<lparr>PPU_RAM := memcpy_loop (PPU_RAM s) address ((!) source) 0 n\<rparr>)"

definition ppu_sprram_write :: "u8 \<Rightarrow> nes \<Rightarrow> nes" where
  "ppu_sprram_write data s =
    upd_ppu (\<lambda>p. p\<lparr>OAMADDR := OAMADDR p + 1\<rparr>)
      (s\<lparr>PPU_SPRRAM := (PPU_SPRRAM s)(unat (OAMADDR (ppu s)) := data)\<rparr>)"

section \<open>Tables\<close>

text \<open>
  The colour of pixel \<open>x\<close> of a tile row with bit planes \<open>h\<close> and \<open>l\<close>. \<open>int_shl\<close> is the C function,
  with 32-bit signed halves: a left shift that reaches bit 31 gives a negative half, which the
  conversion to \<open>uint64_t\<close> extends by its sign; the x86 shift takes its count modulo 32 (this
  matters for \<open>n >> (32 - s)\<close> with \<open>s = 0\<close>, which C leaves undefined).
\<close>

definition pixel_color :: "nat \<Rightarrow> nat \<Rightarrow> nat \<Rightarrow> nat" where
  "pixel_color x h l =
    push_bit 1 (drop_bit (7 - x) h AND 1) OR (drop_bit (7 - x) l AND 1)"

definition sar32 :: "int \<Rightarrow> nat \<Rightarrow> int" where
  "sar32 n c = drop_bit (c mod 32) n"

definition shl32 :: "int \<Rightarrow> nat \<Rightarrow> int" where
  "shl32 n c = signed_take_bit 31 (push_bit (c mod 32) n)"

definition int_shl :: "int \<Rightarrow> nat \<Rightarrow> 64 word" where
  "int_shl n sh =
    (let (lo, hi) = (if sh < 32 then (shl32 n sh, sar32 n (32 - sh)) else (0, shl32 n (sh - 32)))
     in push_bit 32 (word_of_int hi) OR word_of_int lo)"

text \<open>
  \<open>table_init\<close>: the loops over \<open>x\<close>, \<open>h\<close> and \<open>l\<close> touch each entry \<open>(h, l)\<close> once for every \<open>x\<close>, in
  increasing order of \<open>x\<close>; written per entry.
\<close>

definition XHL64_entry :: "nat \<Rightarrow> nat \<Rightarrow> 64 word \<Rightarrow> 64 word" where
  "XHL64_entry h l = fold (\<lambda>x v. v OR int_shl (int (pixel_color x h l)) (x * 8)) [0..<8]"

definition XHLmask_entry :: "nat \<Rightarrow> nat \<Rightarrow> 64 word \<Rightarrow> 64 word" where
  "XHLmask_entry h l =
    fold (\<lambda>x v. if pixel_color x h l = 0 then v OR int_shl 0xff (x * 8) else v) [0..<8]"

definition table_init :: "nes \<Rightarrow> nes" where
  "table_init s = s\<lparr>
    XHL := \<lambda>x h l. if x < 8 \<and> h < 256 \<and> l < 256 then of_nat (pixel_color x h l) else XHL s x h l,
    XHL64 := \<lambda>h l. if h < 256 \<and> l < 256 then XHL64_entry h l (XHL64 s h l) else XHL64 s h l,
    XHLmask := \<lambda>h l. if h < 256 \<and> l < 256 then XHLmask_entry h l (XHLmask s h l) else XHLmask s h l,
    ppu_ram_map := \<lambda>x. if x < 0x4000 then ppu_get_real_ram_address (of_nat x) else ppu_ram_map s x\<rparr>"

section \<open>Background\<close>

text \<open>\<open>canvas\<close> has 257 rows of 520 bytes.\<close>

definition draw :: "int \<Rightarrow> int \<Rightarrow> u8 \<Rightarrow> nes \<Rightarrow> nes" where
  "draw col r idx s =
    in_bounds (0 \<le> r \<and> r < 257 \<and> 0 \<le> col + 0xff \<and> col + 0xff < 520)
      (s\<lparr>canvas := (canvas s)(nat r := (canvas s (nat r))(nat (col + 0xff) := idx))\<rparr>)"

text \<open>A load and a store of a little-endian \<open>uint64_t\<close> in a row of bytes.\<close>

definition load64 :: "(nat \<Rightarrow> u8) \<Rightarrow> nat \<Rightarrow> 64 word" where
  "load64 r c = foldr (\<lambda>i w. push_bit (8 * i) (ucast (r (c + i))) OR w) [0..<8] 0"

definition store64 :: "(nat \<Rightarrow> u8) \<Rightarrow> nat \<Rightarrow> 64 word \<Rightarrow> nat \<Rightarrow> u8" where
  "store64 r c w = (\<lambda>j. if c \<le> j \<and> j < c + 8 then ucast (drop_bit (8 * (j - c)) w) else r j)"

text \<open>The eight pixels of one tile row, drawn with the colours of its palette.\<close>

definition draw_tile_row :: "int \<Rightarrow> int \<Rightarrow> u16 \<Rightarrow> u8 \<Rightarrow> u8 \<Rightarrow> nes \<Rightarrow> nes" where
  "draw_tile_row scroll_base r palette_address h l s =
    fold (\<lambda>x s1. let color = XHL s1 x (unat h) (unat l)
        in if color \<noteq> 0
           then draw (scroll_base + int x) r (ppu_ram_read (palette_address + ucast color) s1) s1
           else s1) [0..<8] s"

text \<open>The two bits of the attribute byte that the code selects.\<close>

definition select_attribute :: "int \<Rightarrow> nat \<Rightarrow> u8 \<Rightarrow> u8" where
  "select_attribute line tile_x b =
    (let b1 = (if line AND 31 < 16 then b else drop_bit 4 b);
         b2 = (if tile_x AND 31 < 16 then b1 else drop_bit 2 b1)
     in b2 AND 3)"

text \<open>The store that keeps the colour numbers of the background for the sprite test.\<close>

definition background_store :: "nat \<Rightarrow> nat \<Rightarrow> nat \<Rightarrow> nat \<Rightarrow> nes \<Rightarrow> nes" where
  "background_store line c h l s =
    (let r = ppu_screen_background s line;
         w = XHL64 s h l OR (XHLmask s h l AND load64 r c)
     in in_bounds (line < 264 \<and> c + 8 \<le> 264)
          (s\<lparr>ppu_screen_background := (ppu_screen_background s)(line := store64 r c w)\<rparr>))"

text \<open>
  One round of the loop over the tiles of a line; the loop carries \<open>taddr\<close>, \<open>attribute_address\<close>
  and \<open>scroll_base\<close>.
\<close>

definition background_tile ::
    "bool \<Rightarrow> nat \<Rightarrow> int \<times> u16 \<times> int \<times> nes \<Rightarrow> int \<times> u16 \<times> int \<times> nes" where
  "background_tile mirror tile_x st = (case st of (taddr, attribute_address, scroll_base, s) \<Rightarrow>
    (let line = scanline (ppu s); y_in_tile = line AND 7; off = (if mirror then 256 else 0) in
     if 8 * int tile_x - uint (PPUSCROLL_X (ppu s)) + off > 256 then st
     else
       (let tile_index = ppu_ram_read (word_of_int taddr) s;
            tile_address = ppu_background_pattern_table_address s + push_bit 4 (ucast tile_index);
            l_addr = tile_address + word_of_int y_in_tile;
            l = ppu_ram_read l_addr s;
            h = ppu_ram_read (l_addr + 8) s;
            s1 = in_bounds (ppu_ram_ok (word_of_int taddr) s \<and> ppu_ram_ok l_addr s \<and> ppu_ram_ok (l_addr + 8) s) s;
            (attribute_address1, s2) =
              (if frame_cnt s1 mod 3 = 0 then
                (let a = attribute_address + (if tile_x AND 3 = 0 then 1 else 0);
                     palette_attribute = select_attribute line tile_x (ppu_ram_read a s1);
                     palette_address = 0x3F00 + push_bit 2 (ucast palette_attribute);
                     s1' = in_bounds (ppu_ram_ok a s1 \<and> ppu_ram_ok (palette_address + 1) s1
                       \<and> ppu_ram_ok (palette_address + 2) s1 \<and> ppu_ram_ok (palette_address + 3) s1) s1
                 in (a, draw_tile_row scroll_base (line + 1) palette_address h l s1'))
               else (attribute_address, s1));
            s3 = background_store (nat line) (8 * tile_x) (unat h) (unat l) s2
        in (taddr + 1, attribute_address1, scroll_base + 8, s3))))"

definition ppu_draw_background_scanline :: "bool \<Rightarrow> nes \<Rightarrow> nes" where
  "ppu_draw_background_scanline mirror s =
    (let line = scanline (ppu s);
         tile_y = drop_bit 3 line;
         base = ppu_base_nametable_address s;
         taddr = uint base + push_bit 5 tile_y + (if mirror then 0x400 else 0);
         scroll_base = - uint (PPUSCROLL_X (ppu s)) + (if mirror then 256 else 0);
         attribute_address = word_of_int (uint base + (if mirror then 0x400 else 0) + 0x3C0 - 1
           + push_bit 3 (drop_bit 5 line));
         start = (if ppu_shows_background_in_leftmost_8px s then 0 else 1);
         (_, _, _, s1) = fold (background_tile mirror) [start..<32] (taddr, attribute_address, scroll_base, s)
     in s1)"

section \<open>Sprites\<close>

text \<open>One pixel of a sprite; \<open>n\<close> is the offset of the sprite in the sprite memory.\<close>

definition sprite_pixel :: "nat \<Rightarrow> u8 \<Rightarrow> u8 \<Rightarrow> nat \<Rightarrow> nes \<Rightarrow> nes" where
  "sprite_pixel n l h x s =
    (let attr = PPU_SPRRAM s (n + 2);
         sprite_x = uint (PPU_SPRRAM s (n + 3));
         sprite_y = uint (PPU_SPRRAM s n);
         y_in_tile = scanline (ppu s) AND 7;
         hflip = attr AND 0x40 \<noteq> 0;
         palette_address = 0x3F10 + push_bit 2 (ucast (attr AND 0x3)) :: u16;
         color = (if hflip then XHL s (7 - x) (unat h) (unat l) else XHL s x (unat h) (unat l))
     in if color = 0 then s
        else
          (let screen_x = sprite_x + int x;
               s1 = (if frame_cnt s mod 3 = 0 then
                   (let a = palette_address + ucast color
                    in draw screen_x (sprite_y + y_in_tile + 1) (ppu_ram_read a s)
                         (in_bounds (ppu_ram_ok a s) s))
                 else s)
           in if ppu_shows_background s1 \<and> \<not> ppu_sprite_hit_occured s1 \<and> n = 0 then
                (let s2 = in_bounds (sprite_y + y_in_tile < 264 \<and> screen_x < 264) s1
                 in if ppu_screen_background s2 (nat (sprite_y + y_in_tile)) (nat screen_x) = color
                    then (ppu_set_sprite_0_hit True s2)\<lparr>ppu_sprite_hit_occured := True\<rparr>
                    else s2)
              else s1))"

definition draw_sprite :: "nat \<Rightarrow> nat \<times> nes \<Rightarrow> nat \<times> nes" where
  "draw_sprite n st = (case st of (scanline_sprite_count, s) \<Rightarrow>
    (let sprite_y = uint (PPU_SPRRAM s n); line = scanline (ppu s) in
     if sprite_y > line \<or> sprite_y + uint (ppu_sprite_height s) < line then st
     else
       (let cnt = scanline_sprite_count + 1;
            s1 = (if cnt > 8 then ppu_set_sprite_overflow True s else s);
            vflip = PPU_SPRRAM s1 (n + 2) AND 0x80 \<noteq> 0;
            tile_address = ppu_sprite_pattern_table_address s1 + 16 * ucast (PPU_SPRRAM s1 (n + 1));
            y_in_tile = line AND 7;
            l_addr = tile_address + word_of_int (if vflip then 7 - y_in_tile else y_in_tile);
            s2 = in_bounds (ppu_ram_ok l_addr s1 \<and> ppu_ram_ok (l_addr + 8) s1) s1;
            l = ppu_ram_read l_addr s2;
            h = ppu_ram_read (l_addr + 8) s2
        in (cnt, fold (sprite_pixel n l h) [0..<8] s2))))"

definition ppu_draw_sprite_scanline :: "nes \<Rightarrow> nes" where
  "ppu_draw_sprite_scanline s = snd (fold (\<lambda>k. draw_sprite (4 * k)) [0..<64] (0, s))"

section \<open>Memory-mapped registers\<close>

definition ppu_io_read :: "u16 \<Rightarrow> nes \<Rightarrow> u8 \<times> nes" where
  "ppu_io_read address s0 =
    (let s = upd_ppu (\<lambda>p. p\<lparr>PPUADDR := PPUADDR p AND 0x3FFF\<rparr>) s0; reg = address AND 7 in
     if reg = 2 then
       (let v = PPUSTATUS (ppu s);
            s1 = ppu_set_sprite_0_hit False (ppu_set_in_vblank False s);
            s2 = upd_ppu (\<lambda>p. p\<lparr>scroll_received_x := False, PPUSCROLL := 0, addr_received_high_byte := False\<rparr>) s1
        in (v, s2\<lparr>ppu_latch := v, ppu_addr_latch := 0, ppu_2007_first_read := True\<rparr>))
     else if reg = 4 then
       (let v = PPU_SPRRAM s (unat (OAMADDR (ppu s))) in (v, s\<lparr>ppu_latch := v\<rparr>))
     else if reg = 7 then
       (let a = PPUADDR (ppu s);
            v = ppu_ram_read a s;
            s1 = in_bounds (ppu_ram_ok a s) s;
            s2 = (if a < 0x3F00 then s1\<lparr>ppu_latch := v\<rparr> else s1\<lparr>ppu_latch := 0\<rparr>);
            s3 = (if ppu_2007_first_read s2 then s2\<lparr>ppu_2007_first_read := False\<rparr>
                  else upd_ppu (\<lambda>p. p\<lparr>PPUADDR := PPUADDR p + ucast (ppu_vram_address_increment s2)\<rparr>) s2)
        in (v, s3))
     else (0xFF, s))"

definition ppu_data_write :: "u8 \<Rightarrow> nes \<Rightarrow> nes" where
  "ppu_data_write data s =
    (let a = PPUADDR (ppu s) in
     if a > 0x1FFF \<or> a < 0x4000
     then ppu_ram_write a data
            (ppu_ram_write (word_of_int (uint a XOR mirroring_xor (ppu s))) data s)
     else ppu_ram_write a data s)"

definition ppu_io_write :: "u16 \<Rightarrow> u8 \<Rightarrow> nes \<Rightarrow> nes" where
  "ppu_io_write address data s0 =
    (let reg = address AND 7;
         s = upd_ppu (\<lambda>p. p\<lparr>PPUADDR := PPUADDR p AND 0x3FFF\<rparr>) (s0\<lparr>ppu_latch := data\<rparr>);
         p = ppu s;
         s1 =
           (if reg = 0 then (if ppu_ready p then upd_ppu (\<lambda>p. p\<lparr>PPUCTRL := data\<rparr>) s else s)
            else if reg = 1 then (if ppu_ready p then upd_ppu (\<lambda>p. p\<lparr>PPUMASK := data\<rparr>) s else s)
            else if reg = 3 then upd_ppu (\<lambda>p. p\<lparr>OAMADDR := data\<rparr>) s
            else if reg = 4 then
              upd_ppu (\<lambda>p. p\<lparr>OAMADDR := OAMADDR p + 1\<rparr>)
                (s\<lparr>PPU_SPRRAM := (PPU_SPRRAM s)(unat (OAMADDR p) := data)\<rparr>)
            else if reg = 5 then
              upd_ppu (\<lambda>p. (if scroll_received_x p then p\<lparr>PPUSCROLL_Y := data\<rparr> else p\<lparr>PPUSCROLL_X := data\<rparr>)
                \<lparr>scroll_received_x := \<not> scroll_received_x p\<rparr>) s
            else if reg = 6 then
              (if \<not> ppu_ready p then s
               else
                 (let s' = (if addr_received_high_byte p
                      then upd_ppu (\<lambda>p. p\<lparr>PPUADDR := push_bit 8 (ucast (ppu_addr_latch s)) + ucast data\<rparr>) s
                      else s\<lparr>ppu_addr_latch := data\<rparr>)
                  in (upd_ppu (\<lambda>p. p\<lparr>addr_received_high_byte := \<not> addr_received_high_byte p\<rparr>) s')
                       \<lparr>ppu_2007_first_read := True\<rparr>))
            else if reg = 7 then ppu_data_write data s
            else s)
     in s1\<lparr>ppu_latch := data\<rparr>)"

section \<open>Initialisation\<close>

definition ppu_init :: "nes \<Rightarrow> nes" where
  "ppu_init s =
    table_init ((upd_ppu (\<lambda>p. p\<lparr>PPUCTRL := 0, PPUMASK := 0, PPUSTATUS := 0 OR 0xA0, OAMADDR := 0,
        PPUSCROLL_X := 0, PPUSCROLL_Y := 0, PPUADDR := 0, PPUDATA := 0\<rparr>) s)
      \<lparr>ppu_2007_first_read := True\<rparr>)"

definition ppu_set_background_color :: "u8 \<Rightarrow> nes \<Rightarrow> nes" where
  "ppu_set_background_color color s = s"

definition ppu_set_mirroring :: "u8 \<Rightarrow> nes \<Rightarrow> nes" where
  "ppu_set_mirroring m = upd_ppu (\<lambda>p. p\<lparr>mirroring := uint m, mirroring_xor := push_bit (unat m) 0x400\<rparr>)"

end
