(* ===== verification/Nes_Bus.thy ===== *)
theory Nes_Bus imports Nes_Ppu begin

text \<open>
  LiteNES: the address space of the CPU (include/memory.h) with the joystick port of psg.c and the
  work RAM of cpu.c. A read can change the state, so it returns the byte and the new state.
\<close>

section \<open>Work RAM and joystick\<close>

definition cpu_ram_read :: "u16 \<Rightarrow> nes \<Rightarrow> u8" where
  "cpu_ram_read address s = CPU_RAM s (unat (address AND 0x7FF))"

definition cpu_ram_write :: "u16 \<Rightarrow> u8 \<Rightarrow> nes \<Rightarrow> nes" where
  "cpu_ram_write address data s = s\<lparr>CPU_RAM := (CPU_RAM s)(unat (address AND 0x7FF) := data)\<rparr>"

text \<open>
  \<open>MAP\<close> of psg.c: the key codes of amdev.h for the buttons on/off, A (G), B (H), select (T),
  start (Y), up (W), down (S), left (A), right (D), and 255 for the read after them.
\<close>

definition psg_MAP :: "nat list" where
  "psg_MAP = [0, 47, 48, 33, 34, 30, 44, 43, 45, 255] @ replicate 246 0"

definition psg_io_read :: "u16 \<Rightarrow> nes \<Rightarrow> u8 \<times> nes" where
  "psg_io_read address s =
    (if address = 0x4016 then
      (let q = psg_p s; s1 = s\<lparr>psg_p := q + 1\<rparr>
       in if q < 9 then (word_of_int (key_state s1 (psg_MAP ! psg_p s1)), s1) else (0, s1))
     else (0, s))"

definition psg_io_write :: "u16 \<Rightarrow> u8 \<Rightarrow> nes \<Rightarrow> nes" where
  "psg_io_write address data s =
    (let s1 = (if address = 0x4016 \<and> data AND 1 = 0 \<and> prev_write s = 1 then s\<lparr>psg_p := 0\<rparr> else s)
     in s1\<lparr>prev_write := data AND 1\<rparr>)"

section \<open>Address space\<close>

definition memory_readb :: "u16 \<Rightarrow> nes \<Rightarrow> u8 \<times> nes" where
  "memory_readb address s =
    (let bank = drop_bit 13 address in
     if bank = 0 then (cpu_ram_read (address AND 0x07FF) s, s)
     else if bank = 1 then ppu_io_read address s
     else if bank = 2 then psg_io_read address s
     else if bank = 3 then (cpu_ram_read (address AND 0x1FFF) s, s)
     else (mmc_read address s, s))"

text \<open>A write to \<open>0x4014\<close> copies a page of the work RAM to the sprite memory.\<close>

definition dma_transfer :: "u8 \<Rightarrow> nes \<Rightarrow> nes" where
  "dma_transfer data s =
    fold (\<lambda>i s1. ppu_sprram_write (cpu_ram_read (0x100 * ucast data + of_nat i) s1) s1) [0..<256] s"

definition memory_writeb :: "u16 \<Rightarrow> u8 \<Rightarrow> nes \<Rightarrow> nes" where
  "memory_writeb address data s =
    (if address = 0x4014 then dma_transfer data s
     else
       (let bank = drop_bit 13 address in
        if bank = 0 then cpu_ram_write (address AND 0x07FF) data s
        else if bank = 1 then ppu_io_write address data s
        else if bank = 2 then psg_io_write address data s
        else if bank = 3 then cpu_ram_write (address AND 0x1FFF) data s
        else mmc_write address data s))"

text \<open>C leaves the order of the two reads open; they are done from left to right.\<close>

definition memory_readw :: "u16 \<Rightarrow> nes \<Rightarrow> u16 \<times> nes" where
  "memory_readw address s =
    (let (lo, s1) = memory_readb address s;
         (hi, s2) = memory_readb (address + 1) s1
     in (ucast lo + push_bit 8 (ucast hi), s2))"

definition memory_writew :: "u16 \<Rightarrow> u16 \<Rightarrow> nes \<Rightarrow> nes" where
  "memory_writew address data s =
    memory_writeb (address + 1) (ucast (drop_bit 8 data)) (memory_writeb address (ucast (data AND 0xFF)) s)"

end
