(* ===== verification/Nes_Cpu.thy ===== *)
theory Nes_Cpu imports Nes_Bus begin

text \<open>
  LiteNES: the 6502 processor of cpu.c and cpu-addressing.c. Every instruction and every
  addressing mode is a function on the state; the tables of function pointers that \<open>cpu_init\<close>
  fills are the lists at the end, and \<open>cpu_step\<close> is the body of the loop of \<open>cpu_run\<close>.
\<close>

section \<open>Flags\<close>

definition zero_flag :: u8 where "zero_flag = 0x02"
definition interrupt_flag :: u8 where "interrupt_flag = 0x04"
definition break_flag :: u8 where "break_flag = 0x10"
definition unused_flag :: u8 where "unused_flag = 0x20"
definition negative_flag :: u8 where "negative_flag = 0x80"

definition carry_bp :: nat where "carry_bp = 0"
definition zero_bp :: nat where "zero_bp = 1"
definition interrupt_bp :: nat where "interrupt_bp = 2"
definition decimal_bp :: nat where "decimal_bp = 3"
definition unused_bp :: nat where "unused_bp = 5"
definition overflow_bp :: nat where "overflow_bp = 6"
definition negative_bp :: nat where "negative_bp = 7"

lemmas flag_defs = zero_flag_def interrupt_flag_def break_flag_def unused_flag_def
  negative_flag_def carry_bp_def zero_bp_def interrupt_bp_def decimal_bp_def unused_bp_def
  overflow_bp_def negative_bp_def

definition cpu_flag_set :: "nat \<Rightarrow> nes \<Rightarrow> int" where
  "cpu_flag_set flag s = common_bit_set (uint (rP (cpu s))) flag"

definition cpu_modify_flag :: "nat \<Rightarrow> bool \<Rightarrow> nes \<Rightarrow> nes" where
  "cpu_modify_flag flag b = upd_cpu (\<lambda>c. c\<lparr>rP := common_modify_bit flag b (rP c)\<rparr>)"

definition cpu_set_flag :: "nat \<Rightarrow> nes \<Rightarrow> nes" where
  "cpu_set_flag flag = upd_cpu (\<lambda>c. c\<lparr>rP := common_set_bit flag (rP c)\<rparr>)"

definition cpu_unset_flag :: "nat \<Rightarrow> nes \<Rightarrow> nes" where
  "cpu_unset_flag flag = upd_cpu (\<lambda>c. c\<lparr>rP := common_unset_bit flag (rP c)\<rparr>)"

definition cpu_zn_flag_table :: "u8 list" where
  "cpu_zn_flag_table = zero_flag # replicate 127 0 @ replicate 128 negative_flag"

definition cpu_update_zn_flags :: "u8 \<Rightarrow> nes \<Rightarrow> nes" where
  "cpu_update_zn_flags v = upd_cpu (\<lambda>c. c\<lparr>rP :=
     (rP c AND NOT (zero_flag OR negative_flag)) OR cpu_zn_flag_table ! unat v\<rparr>)"

definition cpu_branch :: "bool \<Rightarrow> nes \<Rightarrow> nes" where
  "cpu_branch flag s = (if flag then upd_cpu (\<lambda>c. c\<lparr>rPC := word_of_int (op_address s)\<rparr>) s else s)"

definition cpu_compare :: "u8 \<Rightarrow> nes \<Rightarrow> nes" where
  "cpu_compare r s =
    (let result = uint r - op_value s
     in cpu_modify_flag negative_bp (drop_bit 7 result AND 1 \<noteq> 0)
          (cpu_modify_flag zero_bp (result = 0) (cpu_modify_flag carry_bp (result \<ge> 0) s)))"

section \<open>Interrupt vectors and stack\<close>

definition cpu_nmi_interrupt_address :: "nes \<Rightarrow> u16 \<times> nes" where
  "cpu_nmi_interrupt_address = memory_readw 0xFFFA"

definition cpu_reset_interrupt_address :: "nes \<Rightarrow> u16 \<times> nes" where
  "cpu_reset_interrupt_address = memory_readw 0xFFFC"

definition cpu_irq_interrupt_address :: "nes \<Rightarrow> u16 \<times> nes" where
  "cpu_irq_interrupt_address = memory_readw 0xFFFE"

definition add_sp :: "u8 \<Rightarrow> nes \<Rightarrow> nes" where
  "add_sp k = upd_cpu (\<lambda>c. c\<lparr>rSP := rSP c + k\<rparr>)"

definition cpu_stack_pushb :: "u8 \<Rightarrow> nes \<Rightarrow> nes" where
  "cpu_stack_pushb data s = memory_writeb (0x100 + ucast (rSP (cpu s))) data (add_sp (- 1) s)"

definition cpu_stack_pushw :: "u16 \<Rightarrow> nes \<Rightarrow> nes" where
  "cpu_stack_pushw data s = add_sp (- 2) (memory_writew (0xFF + ucast (rSP (cpu s))) data s)"

definition cpu_stack_popb :: "nes \<Rightarrow> u8 \<times> nes" where
  "cpu_stack_popb s = (let s1 = add_sp 1 s in memory_readb (0x100 + ucast (rSP (cpu s1))) s1)"

definition cpu_stack_popw :: "nes \<Rightarrow> u16 \<times> nes" where
  "cpu_stack_popw s = (let s1 = add_sp 2 s in memory_readw (0xFF + ucast (rSP (cpu s1))) s1)"

section \<open>Instructions\<close>

definition FE_nop :: "nes \<Rightarrow> nes" where "FE_nop s = s"

definition cpu_op_nop :: "nes \<Rightarrow> nes" where "cpu_op_nop s = s"

definition set_A :: "u8 \<Rightarrow> nes \<Rightarrow> nes" where "set_A v = upd_cpu (\<lambda>c. c\<lparr>rA := v\<rparr>)"
definition set_X :: "u8 \<Rightarrow> nes \<Rightarrow> nes" where "set_X v = upd_cpu (\<lambda>c. c\<lparr>rX := v\<rparr>)"
definition set_Y :: "u8 \<Rightarrow> nes \<Rightarrow> nes" where "set_Y v = upd_cpu (\<lambda>c. c\<lparr>rY := v\<rparr>)"
definition set_P :: "u8 \<Rightarrow> nes \<Rightarrow> nes" where "set_P v = upd_cpu (\<lambda>c. c\<lparr>rP := v\<rparr>)"
definition set_PC :: "u16 \<Rightarrow> nes \<Rightarrow> nes" where "set_PC v = upd_cpu (\<lambda>c. c\<lparr>rPC := v\<rparr>)"

definition set_A_zn :: "u8 \<Rightarrow> nes \<Rightarrow> nes" where "set_A_zn v s = cpu_update_zn_flags v (set_A v s)"
definition set_X_zn :: "u8 \<Rightarrow> nes \<Rightarrow> nes" where "set_X_zn v s = cpu_update_zn_flags v (set_X v s)"
definition set_Y_zn :: "u8 \<Rightarrow> nes \<Rightarrow> nes" where "set_Y_zn v s = cpu_update_zn_flags v (set_Y v s)"

subsection \<open>Arithmetic\<close>

definition cpu_op_adc :: "nes \<Rightarrow> nes" where
  "cpu_op_adc s =
    (let a = uint (rA (cpu s)); v = op_value s;
         result = a + v + (if cpu_flag_set carry_bp s \<noteq> 0 then 1 else 0);
         s1 = cpu_modify_flag carry_bp (result AND 0x100 \<noteq> 0) s;
         s2 = cpu_modify_flag overflow_bp ((NOT (a XOR v)) AND (a XOR result) AND 0x80 \<noteq> 0) s1
     in set_A_zn (word_of_int (result AND 0xFF)) s2)"

definition cpu_op_sbc :: "nes \<Rightarrow> nes" where
  "cpu_op_sbc s =
    (let a = uint (rA (cpu s)); v = op_value s;
         result = a - v - (if cpu_flag_set carry_bp s \<noteq> 0 then 0 else 1);
         s1 = cpu_modify_flag carry_bp (result AND 0x100 = 0) s;
         s2 = cpu_modify_flag overflow_bp ((a XOR v) AND (a XOR result) AND 0x80 \<noteq> 0) s1
     in set_A_zn (word_of_int (result AND 0xFF)) s2)"

subsection \<open>Bits\<close>

definition cpu_op_and :: "nes \<Rightarrow> nes" where
  "cpu_op_and s = set_A_zn (word_of_int (uint (rA (cpu s)) AND op_value s)) s"

definition cpu_op_bit :: "nes \<Rightarrow> nes" where
  "cpu_op_bit s =
    (let s1 = cpu_modify_flag zero_bp (uint (rA (cpu s)) AND op_value s = 0) s
     in set_P ((rP (cpu s1) AND 0x3F) OR word_of_int (0xC0 AND op_value s)) s1)"

definition cpu_op_eor :: "nes \<Rightarrow> nes" where
  "cpu_op_eor s = set_A_zn (word_of_int (uint (rA (cpu s)) XOR op_value s)) s"

definition cpu_op_ora :: "nes \<Rightarrow> nes" where
  "cpu_op_ora s = set_A_zn (word_of_int (uint (rA (cpu s)) OR op_value s)) s"

definition cpu_op_asla :: "nes \<Rightarrow> nes" where
  "cpu_op_asla s = set_A_zn (push_bit 1 (rA (cpu s))) (cpu_modify_flag carry_bp (rA (cpu s) AND 0x80 \<noteq> 0) s)"

definition write_back :: "nes \<Rightarrow> nes" where
  "write_back s = memory_writeb (word_of_int (op_address s)) (word_of_int (op_value s)) s"

definition zn_value :: "nes \<Rightarrow> nes" where
  "zn_value s = cpu_update_zn_flags (word_of_int (op_value s)) s"

definition cpu_op_asl :: "nes \<Rightarrow> nes" where
  "cpu_op_asl s =
    (let s1 = cpu_modify_flag carry_bp (op_value s AND 0x80 \<noteq> 0) s;
         s2 = s1\<lparr>op_value := push_bit 1 (op_value s1) AND 0xFF\<rparr>
     in write_back (zn_value s2))"

definition cpu_op_lsra :: "nes \<Rightarrow> nes" where
  "cpu_op_lsra s =
    (let v = drop_bit 1 (rA (cpu s))
     in set_A_zn v (cpu_modify_flag carry_bp (rA (cpu s) AND 0x01 \<noteq> 0) s))"

definition cpu_op_lsr :: "nes \<Rightarrow> nes" where
  "cpu_op_lsr s =
    (let s1 = cpu_modify_flag carry_bp (op_value s AND 0x01 \<noteq> 0) s;
         s2 = s1\<lparr>op_value := drop_bit 1 (op_value s1) AND 0xFF\<rparr>
     in zn_value (write_back s2))"

definition cpu_op_rola :: "nes \<Rightarrow> nes" where
  "cpu_op_rola s =
    (let v = push_bit 1 (uint (rA (cpu s))) OR (if cpu_flag_set carry_bp s \<noteq> 0 then 1 else 0)
     in set_A_zn (word_of_int (v AND 0xFF)) (cpu_modify_flag carry_bp (v > 0xFF) s))"

definition cpu_op_rol :: "nes \<Rightarrow> nes" where
  "cpu_op_rol s =
    (let v = push_bit 1 (op_value s) OR (if cpu_flag_set carry_bp s \<noteq> 0 then 1 else 0);
         s1 = cpu_modify_flag carry_bp (v > 0xFF) s
     in zn_value (write_back (s1\<lparr>op_value := v AND 0xFF\<rparr>)))"

definition cpu_op_rora :: "nes \<Rightarrow> nes" where
  "cpu_op_rora s =
    (let carry = cpu_flag_set carry_bp s;
         s1 = cpu_modify_flag carry_bp (rA (cpu s) AND 0x01 \<noteq> 0) s;
         s2 = set_A (word_of_int (drop_bit 1 (uint (rA (cpu s1))) OR push_bit 7 carry)) s1
     in cpu_modify_flag negative_bp (carry \<noteq> 0) (cpu_modify_flag zero_bp (rA (cpu s2) = 0) s2))"

definition cpu_op_ror :: "nes \<Rightarrow> nes" where
  "cpu_op_ror s =
    (let carry = cpu_flag_set carry_bp s;
         s1 = cpu_modify_flag carry_bp (op_value s AND 0x01 \<noteq> 0) s;
         s2 = s1\<lparr>op_value := (drop_bit 1 (op_value s1) OR push_bit 7 carry) AND 0xFF\<rparr>
     in write_back (cpu_modify_flag negative_bp (carry \<noteq> 0)
          (cpu_modify_flag zero_bp (op_value s2 = 0) s2)))"

subsection \<open>Loads, stores and transfers\<close>

definition cpu_op_lda :: "nes \<Rightarrow> nes" where "cpu_op_lda s = set_A_zn (word_of_int (op_value s)) s"
definition cpu_op_ldx :: "nes \<Rightarrow> nes" where "cpu_op_ldx s = set_X_zn (word_of_int (op_value s)) s"
definition cpu_op_ldy :: "nes \<Rightarrow> nes" where "cpu_op_ldy s = set_Y_zn (word_of_int (op_value s)) s"

definition store_reg :: "u8 \<Rightarrow> nes \<Rightarrow> nes" where
  "store_reg v s = memory_writeb (word_of_int (op_address s)) v s"

definition cpu_op_sta :: "nes \<Rightarrow> nes" where "cpu_op_sta s = store_reg (rA (cpu s)) s"
definition cpu_op_stx :: "nes \<Rightarrow> nes" where "cpu_op_stx s = store_reg (rX (cpu s)) s"
definition cpu_op_sty :: "nes \<Rightarrow> nes" where "cpu_op_sty s = store_reg (rY (cpu s)) s"

definition cpu_op_tax :: "nes \<Rightarrow> nes" where "cpu_op_tax s = set_X_zn (rA (cpu s)) s"
definition cpu_op_txa :: "nes \<Rightarrow> nes" where "cpu_op_txa s = set_A_zn (rX (cpu s)) s"
definition cpu_op_tay :: "nes \<Rightarrow> nes" where "cpu_op_tay s = set_Y_zn (rA (cpu s)) s"
definition cpu_op_tya :: "nes \<Rightarrow> nes" where "cpu_op_tya s = set_A_zn (rY (cpu s)) s"
definition cpu_op_tsx :: "nes \<Rightarrow> nes" where "cpu_op_tsx s = set_X_zn (rSP (cpu s)) s"
definition cpu_op_txs :: "nes \<Rightarrow> nes" where
  "cpu_op_txs s = upd_cpu (\<lambda>c. c\<lparr>rSP := rX c\<rparr>) s"

subsection \<open>Branches and jumps\<close>

definition cpu_op_bcs :: "nes \<Rightarrow> nes" where "cpu_op_bcs s = cpu_branch (cpu_flag_set carry_bp s \<noteq> 0) s"
definition cpu_op_beq :: "nes \<Rightarrow> nes" where "cpu_op_beq s = cpu_branch (cpu_flag_set zero_bp s \<noteq> 0) s"
definition cpu_op_bmi :: "nes \<Rightarrow> nes" where "cpu_op_bmi s = cpu_branch (cpu_flag_set negative_bp s \<noteq> 0) s"
definition cpu_op_bvs :: "nes \<Rightarrow> nes" where "cpu_op_bvs s = cpu_branch (cpu_flag_set overflow_bp s \<noteq> 0) s"
definition cpu_op_bne :: "nes \<Rightarrow> nes" where "cpu_op_bne s = cpu_branch (cpu_flag_set zero_bp s = 0) s"
definition cpu_op_bcc :: "nes \<Rightarrow> nes" where "cpu_op_bcc s = cpu_branch (cpu_flag_set carry_bp s = 0) s"
definition cpu_op_bpl :: "nes \<Rightarrow> nes" where "cpu_op_bpl s = cpu_branch (cpu_flag_set negative_bp s = 0) s"
definition cpu_op_bvc :: "nes \<Rightarrow> nes" where "cpu_op_bvc s = cpu_branch (cpu_flag_set overflow_bp s = 0) s"

definition cpu_op_jmp :: "nes \<Rightarrow> nes" where "cpu_op_jmp s = set_PC (word_of_int (op_address s)) s"

definition cpu_op_jsr :: "nes \<Rightarrow> nes" where
  "cpu_op_jsr s =
    (let s1 = cpu_stack_pushw (rPC (cpu s) - 1) s in set_PC (word_of_int (op_address s1)) s1)"

definition cpu_op_rts :: "nes \<Rightarrow> nes" where
  "cpu_op_rts s = (let (a, s1) = cpu_stack_popw s in set_PC (a + 1) s1)"

definition cpu_op_brk :: "nes \<Rightarrow> nes" where
  "cpu_op_brk s =
    (let s1 = cpu_stack_pushw (rPC (cpu s) - 1) s;
         s2 = cpu_stack_pushb (rP (cpu s1)) s1;
         s3 = set_P (rP (cpu s2) OR (unused_flag OR break_flag)) s2;
         (a, s4) = cpu_nmi_interrupt_address s3
     in set_PC a s4)"

definition cpu_op_rti :: "nes \<Rightarrow> nes" where
  "cpu_op_rti s =
    (let (p, s1) = cpu_stack_popb s;
         s2 = set_P (p OR unused_flag) s1;
         (a, s3) = cpu_stack_popw s2
     in set_PC a s3)"

subsection \<open>Flags and comparison\<close>

definition cpu_op_clc :: "nes \<Rightarrow> nes" where "cpu_op_clc = cpu_unset_flag carry_bp"
definition cpu_op_cld :: "nes \<Rightarrow> nes" where "cpu_op_cld = cpu_unset_flag decimal_bp"
definition cpu_op_cli :: "nes \<Rightarrow> nes" where "cpu_op_cli = cpu_unset_flag interrupt_bp"
definition cpu_op_clv :: "nes \<Rightarrow> nes" where "cpu_op_clv = cpu_unset_flag overflow_bp"
definition cpu_op_sec :: "nes \<Rightarrow> nes" where "cpu_op_sec = cpu_set_flag carry_bp"
definition cpu_op_sed :: "nes \<Rightarrow> nes" where "cpu_op_sed = cpu_set_flag decimal_bp"
definition cpu_op_sei :: "nes \<Rightarrow> nes" where "cpu_op_sei = cpu_set_flag interrupt_bp"

definition cpu_op_cmp :: "nes \<Rightarrow> nes" where "cpu_op_cmp s = cpu_compare (rA (cpu s)) s"
definition cpu_op_cpx :: "nes \<Rightarrow> nes" where "cpu_op_cpx s = cpu_compare (rX (cpu s)) s"
definition cpu_op_cpy :: "nes \<Rightarrow> nes" where "cpu_op_cpy s = cpu_compare (rY (cpu s)) s"

subsection \<open>Increment, decrement, stack\<close>

definition cpu_op_inc :: "nes \<Rightarrow> nes" where
  "cpu_op_inc s = (let r = word_of_int (op_value s + 1) in cpu_update_zn_flags r (store_reg r s))"
definition cpu_op_inx :: "nes \<Rightarrow> nes" where "cpu_op_inx s = set_X_zn (rX (cpu s) + 1) s"
definition cpu_op_iny :: "nes \<Rightarrow> nes" where "cpu_op_iny s = set_Y_zn (rY (cpu s) + 1) s"
definition cpu_op_dec :: "nes \<Rightarrow> nes" where
  "cpu_op_dec s = (let r = word_of_int (op_value s - 1) in cpu_update_zn_flags r (store_reg r s))"
definition cpu_op_dex :: "nes \<Rightarrow> nes" where "cpu_op_dex s = set_X_zn (rX (cpu s) - 1) s"
definition cpu_op_dey :: "nes \<Rightarrow> nes" where "cpu_op_dey s = set_Y_zn (rY (cpu s) - 1) s"

definition cpu_op_php :: "nes \<Rightarrow> nes" where "cpu_op_php s = cpu_stack_pushb (rP (cpu s) OR 0x30) s"
definition cpu_op_pha :: "nes \<Rightarrow> nes" where "cpu_op_pha s = cpu_stack_pushb (rA (cpu s)) s"
definition cpu_op_pla :: "nes \<Rightarrow> nes" where
  "cpu_op_pla s = (let (v, s1) = cpu_stack_popb s in set_A_zn v s1)"
definition cpu_op_plp :: "nes \<Rightarrow> nes" where
  "cpu_op_plp s = (let (v, s1) = cpu_stack_popb s in set_P ((v AND 0xEF) OR 0x20) s1)"

subsection \<open>Extended instructions\<close>

definition cpu_op_aso :: "nes \<Rightarrow> nes" where "cpu_op_aso s = cpu_op_ora (cpu_op_asl s)"
definition cpu_op_axa :: "nes \<Rightarrow> nes" where
  "cpu_op_axa s = store_reg (word_of_int
     (uint (rA (cpu s)) AND uint (rX (cpu s)) AND drop_bit 8 (op_address s))) s"
definition cpu_op_axs :: "nes \<Rightarrow> nes" where "cpu_op_axs s = store_reg (rA (cpu s) AND rX (cpu s)) s"
definition cpu_op_dcm :: "nes \<Rightarrow> nes" where
  "cpu_op_dcm s = cpu_op_cmp (write_back (s\<lparr>op_value := (op_value s - 1) AND 0xFF\<rparr>))"
definition cpu_op_ins :: "nes \<Rightarrow> nes" where
  "cpu_op_ins s = cpu_op_sbc (write_back (s\<lparr>op_value := (op_value s + 1) AND 0xFF\<rparr>))"
definition cpu_op_lax :: "nes \<Rightarrow> nes" where
  "cpu_op_lax s = (let v = word_of_int (op_value s) in set_A_zn v (set_X v s))"
definition cpu_op_lse :: "nes \<Rightarrow> nes" where "cpu_op_lse s = cpu_op_eor (cpu_op_lsr s)"
definition cpu_op_rla :: "nes \<Rightarrow> nes" where "cpu_op_rla s = cpu_op_and (cpu_op_rol s)"
definition cpu_op_rra :: "nes \<Rightarrow> nes" where "cpu_op_rra s = cpu_op_adc (cpu_op_ror s)"

section \<open>Addressing modes\<close>

definition pc_plus :: "u16 \<Rightarrow> nes \<Rightarrow> nes" where
  "pc_plus k = upd_cpu (\<lambda>c. c\<lparr>rPC := rPC c + k\<rparr>)"

definition page_cycle :: "nes \<Rightarrow> nes" where
  "page_cycle s =
    (if drop_bit 8 (op_address s) \<noteq> drop_bit 8 (uint (rPC (cpu s)))
     then s\<lparr>op_cycles := op_cycles s + 1\<rparr> else s)"

definition load_operand :: "int \<Rightarrow> nes \<Rightarrow> nes" where
  "load_operand a s =
    (let (v, s1) = memory_readb (word_of_int a) (s\<lparr>op_address := a\<rparr>) in s1\<lparr>op_value := uint v\<rparr>)"

definition zero_page_operand :: "int \<Rightarrow> nes \<Rightarrow> nes" where
  "zero_page_operand a s = pc_plus 1 (s\<lparr>op_address := a, op_value := uint (CPU_RAM s (nat a))\<rparr>)"

definition cpu_address_implied :: "nes \<Rightarrow> nes" where "cpu_address_implied s = s"

definition cpu_address_immediate :: "nes \<Rightarrow> nes" where
  "cpu_address_immediate s =
    (let (v, s1) = memory_readb (rPC (cpu s)) s in pc_plus 1 (s1\<lparr>op_value := uint v\<rparr>))"

definition cpu_address_zero_page :: "nes \<Rightarrow> nes" where
  "cpu_address_zero_page s =
    (let (v, s1) = memory_readb (rPC (cpu s)) s in zero_page_operand (uint v) s1)"

definition cpu_address_zero_page_x :: "nes \<Rightarrow> nes" where
  "cpu_address_zero_page_x s =
    (let (v, s1) = memory_readb (rPC (cpu s)) s
     in zero_page_operand ((uint v + uint (rX (cpu s1))) AND 0xFF) s1)"

definition cpu_address_zero_page_y :: "nes \<Rightarrow> nes" where
  "cpu_address_zero_page_y s =
    (let (v, s1) = memory_readb (rPC (cpu s)) s
     in zero_page_operand ((uint v + uint (rY (cpu s1))) AND 0xFF) s1)"

definition cpu_address_absolute :: "nes \<Rightarrow> nes" where
  "cpu_address_absolute s =
    (let (v, s1) = memory_readw (rPC (cpu s)) s in pc_plus 2 (load_operand (uint v) s1))"

definition cpu_address_absolute_x :: "nes \<Rightarrow> nes" where
  "cpu_address_absolute_x s =
    (let (v, s1) = memory_readw (rPC (cpu s)) s
     in page_cycle (pc_plus 2 (load_operand (uint v + uint (rX (cpu s1))) s1)))"

definition cpu_address_absolute_y :: "nes \<Rightarrow> nes" where
  "cpu_address_absolute_y s =
    (let (v, s1) = memory_readw (rPC (cpu s)) s
     in page_cycle (pc_plus 2 (load_operand ((uint v + uint (rY (cpu s1))) AND 0xFFFF) s1)))"

definition cpu_address_relative :: "nes \<Rightarrow> nes" where
  "cpu_address_relative s =
    (let (v, s1) = memory_readb (rPC (cpu s)) s;
         s2 = pc_plus 1 s1;
         a = (if uint v AND 0x80 \<noteq> 0 then uint v - 0x100 else uint v)
     in page_cycle (s2\<lparr>op_address := a + uint (rPC (cpu s2))\<rparr>))"

definition cpu_address_indirect :: "nes \<Rightarrow> nes" where
  "cpu_address_indirect s =
    (let (arg_addr, s1) = memory_readw (rPC (cpu s)) s;
         (a, s2) =
           (if arg_addr AND 0xFF = 0xFF then
              (let (hi, t1) = memory_readb (arg_addr AND 0xFF00) s1;
                   (lo, t2) = memory_readb arg_addr t1
               in (push_bit 8 (uint hi) + uint lo, t2))
            else (let (w, t1) = memory_readw arg_addr s1 in (uint w, t1)))
     in pc_plus 2 (s2\<lparr>op_address := a\<rparr>))"

definition cpu_address_indirect_x :: "nes \<Rightarrow> nes" where
  "cpu_address_indirect_x s =
    (let (arg_addr, s1) = memory_readb (rPC (cpu s)) s;
         b = uint arg_addr + uint (rX (cpu s1));
         (hi, s2) = memory_readb (word_of_int ((b + 1) AND 0xFF)) s1;
         (lo, s3) = memory_readb (word_of_int (b AND 0xFF)) s2
     in pc_plus 1 (load_operand (push_bit 8 (uint hi) OR uint lo) s3))"

definition cpu_address_indirect_y :: "nes \<Rightarrow> nes" where
  "cpu_address_indirect_y s =
    (let (arg_addr, s1) = memory_readb (rPC (cpu s)) s;
         (hi, s2) = memory_readb (word_of_int ((uint arg_addr + 1) AND 0xFF)) s1;
         (lo, s3) = memory_readb (ucast arg_addr) s2
     in page_cycle (pc_plus 1
          (load_operand (((push_bit 8 (uint hi) OR uint lo) + uint (rY (cpu s3))) AND 0xFFFF) s3)))"

section \<open>Tables\<close>

text \<open>Opcode, cycles, handler, name, addressing mode, and whether it is a base instruction.\<close>

type_synonym op_entry = "nat \<times> nat \<times> (nes \<Rightarrow> nes) \<times> string \<times> (nes \<Rightarrow> nes) \<times> bool"

definition base_instruction_set :: "op_entry list" where
  "base_instruction_set = [
    (0x00, 7, cpu_op_brk, ''BRK'', cpu_address_implied, True),
    (0x01, 6, cpu_op_ora, ''ORA'', cpu_address_indirect_x, True),
    (0x05, 3, cpu_op_ora, ''ORA'', cpu_address_zero_page, True),
    (0x06, 5, cpu_op_asl, ''ASL'', cpu_address_zero_page, True),
    (0x08, 3, cpu_op_php, ''PHP'', cpu_address_implied, True),
    (0x09, 2, cpu_op_ora, ''ORA'', cpu_address_immediate, True),
    (0x0A, 2, cpu_op_asla, ''ASL'', cpu_address_implied, True),
    (0x0D, 4, cpu_op_ora, ''ORA'', cpu_address_absolute, True),
    (0x0E, 6, cpu_op_asl, ''ASL'', cpu_address_absolute, True),
    (0x10, 2, cpu_op_bpl, ''BPL'', cpu_address_relative, True),
    (0x11, 5, cpu_op_ora, ''ORA'', cpu_address_indirect_y, True),
    (0x15, 4, cpu_op_ora, ''ORA'', cpu_address_zero_page_x, True),
    (0x16, 6, cpu_op_asl, ''ASL'', cpu_address_zero_page_x, True),
    (0x18, 2, cpu_op_clc, ''CLC'', cpu_address_implied, True),
    (0x19, 4, cpu_op_ora, ''ORA'', cpu_address_absolute_y, True),
    (0x1D, 4, cpu_op_ora, ''ORA'', cpu_address_absolute_x, True),
    (0x1E, 7, cpu_op_asl, ''ASL'', cpu_address_absolute_x, True),
    (0x20, 6, cpu_op_jsr, ''JSR'', cpu_address_absolute, True),
    (0x21, 6, cpu_op_and, ''AND'', cpu_address_indirect_x, True),
    (0x24, 3, cpu_op_bit, ''BIT'', cpu_address_zero_page, True),
    (0x25, 3, cpu_op_and, ''AND'', cpu_address_zero_page, True),
    (0x26, 5, cpu_op_rol, ''ROL'', cpu_address_zero_page, True),
    (0x28, 4, cpu_op_plp, ''PLP'', cpu_address_implied, True),
    (0x29, 2, cpu_op_and, ''AND'', cpu_address_immediate, True),
    (0x2A, 2, cpu_op_rola, ''ROL'', cpu_address_implied, True),
    (0x2C, 4, cpu_op_bit, ''BIT'', cpu_address_absolute, True),
    (0x2D, 2, cpu_op_and, ''AND'', cpu_address_absolute, True),
    (0x2E, 6, cpu_op_rol, ''ROL'', cpu_address_absolute, True),
    (0x30, 2, cpu_op_bmi, ''BMI'', cpu_address_relative, True),
    (0x31, 5, cpu_op_and, ''AND'', cpu_address_indirect_y, True),
    (0x35, 4, cpu_op_and, ''AND'', cpu_address_zero_page_x, True),
    (0x36, 6, cpu_op_rol, ''ROL'', cpu_address_zero_page_x, True),
    (0x38, 2, cpu_op_sec, ''SEC'', cpu_address_implied, True),
    (0x39, 4, cpu_op_and, ''AND'', cpu_address_absolute_y, True),
    (0x3D, 4, cpu_op_and, ''AND'', cpu_address_absolute_x, True),
    (0x3E, 7, cpu_op_rol, ''ROL'', cpu_address_absolute_x, True),
    (0x40, 6, cpu_op_rti, ''RTI'', cpu_address_implied, True),
    (0x41, 6, cpu_op_eor, ''EOR'', cpu_address_indirect_x, True),
    (0x45, 3, cpu_op_eor, ''EOR'', cpu_address_zero_page, True),
    (0x46, 5, cpu_op_lsr, ''LSR'', cpu_address_zero_page, True),
    (0x48, 3, cpu_op_pha, ''PHA'', cpu_address_implied, True),
    (0x49, 2, cpu_op_eor, ''EOR'', cpu_address_immediate, True),
    (0x4A, 2, cpu_op_lsra, ''LSR'', cpu_address_implied, True),
    (0x4C, 3, cpu_op_jmp, ''JMP'', cpu_address_absolute, True),
    (0x4D, 4, cpu_op_eor, ''EOR'', cpu_address_absolute, True),
    (0x4E, 6, cpu_op_lsr, ''LSR'', cpu_address_absolute, True),
    (0x50, 2, cpu_op_bvc, ''BVC'', cpu_address_relative, True),
    (0x51, 5, cpu_op_eor, ''EOR'', cpu_address_indirect_y, True),
    (0x55, 4, cpu_op_eor, ''EOR'', cpu_address_zero_page_x, True),
    (0x56, 6, cpu_op_lsr, ''LSR'', cpu_address_zero_page_x, True),
    (0x58, 2, cpu_op_cli, ''CLI'', cpu_address_implied, True),
    (0x59, 4, cpu_op_eor, ''EOR'', cpu_address_absolute_y, True),
    (0x5D, 4, cpu_op_eor, ''EOR'', cpu_address_absolute_x, True),
    (0x5E, 7, cpu_op_lsr, ''LSR'', cpu_address_absolute_x, True),
    (0x60, 6, cpu_op_rts, ''RTS'', cpu_address_implied, True),
    (0x61, 6, cpu_op_adc, ''ADC'', cpu_address_indirect_x, True),
    (0x65, 3, cpu_op_adc, ''ADC'', cpu_address_zero_page, True),
    (0x66, 5, cpu_op_ror, ''ROR'', cpu_address_zero_page, True),
    (0x68, 4, cpu_op_pla, ''PLA'', cpu_address_implied, True),
    (0x69, 2, cpu_op_adc, ''ADC'', cpu_address_immediate, True),
    (0x6A, 2, cpu_op_rora, ''ROR'', cpu_address_implied, True),
    (0x6C, 5, cpu_op_jmp, ''JMP'', cpu_address_indirect, True),
    (0x6D, 4, cpu_op_adc, ''ADC'', cpu_address_absolute, True),
    (0x6E, 6, cpu_op_ror, ''ROR'', cpu_address_absolute, True),
    (0x70, 2, cpu_op_bvs, ''BVS'', cpu_address_relative, True),
    (0x71, 5, cpu_op_adc, ''ADC'', cpu_address_indirect_y, True),
    (0x75, 4, cpu_op_adc, ''ADC'', cpu_address_zero_page_x, True),
    (0x76, 6, cpu_op_ror, ''ROR'', cpu_address_zero_page_x, True),
    (0x78, 2, cpu_op_sei, ''SEI'', cpu_address_implied, True),
    (0x79, 4, cpu_op_adc, ''ADC'', cpu_address_absolute_y, True),
    (0x7D, 4, cpu_op_adc, ''ADC'', cpu_address_absolute_x, True),
    (0x7E, 7, cpu_op_ror, ''ROR'', cpu_address_absolute_x, True),
    (0x81, 6, cpu_op_sta, ''STA'', cpu_address_indirect_x, True),
    (0x84, 3, cpu_op_sty, ''STY'', cpu_address_zero_page, True),
    (0x85, 3, cpu_op_sta, ''STA'', cpu_address_zero_page, True),
    (0x86, 3, cpu_op_stx, ''STX'', cpu_address_zero_page, True),
    (0x88, 2, cpu_op_dey, ''DEY'', cpu_address_implied, True),
    (0x8A, 2, cpu_op_txa, ''TXA'', cpu_address_implied, True),
    (0x8C, 4, cpu_op_sty, ''STY'', cpu_address_absolute, True),
    (0x8D, 4, cpu_op_sta, ''STA'', cpu_address_absolute, True),
    (0x8E, 4, cpu_op_stx, ''STX'', cpu_address_absolute, True),
    (0x90, 2, cpu_op_bcc, ''BCC'', cpu_address_relative, True),
    (0x91, 6, cpu_op_sta, ''STA'', cpu_address_indirect_y, True),
    (0x94, 4, cpu_op_sty, ''STY'', cpu_address_zero_page_x, True),
    (0x95, 4, cpu_op_sta, ''STA'', cpu_address_zero_page_x, True),
    (0x96, 4, cpu_op_stx, ''STX'', cpu_address_zero_page_y, True),
    (0x98, 2, cpu_op_tya, ''TYA'', cpu_address_implied, True),
    (0x99, 5, cpu_op_sta, ''STA'', cpu_address_absolute_y, True),
    (0x9A, 2, cpu_op_txs, ''TXS'', cpu_address_implied, True),
    (0x9D, 5, cpu_op_sta, ''STA'', cpu_address_absolute_x, True),
    (0xA0, 2, cpu_op_ldy, ''LDY'', cpu_address_immediate, True),
    (0xA1, 6, cpu_op_lda, ''LDA'', cpu_address_indirect_x, True),
    (0xA2, 2, cpu_op_ldx, ''LDX'', cpu_address_immediate, True),
    (0xA4, 3, cpu_op_ldy, ''LDY'', cpu_address_zero_page, True),
    (0xA5, 3, cpu_op_lda, ''LDA'', cpu_address_zero_page, True),
    (0xA6, 3, cpu_op_ldx, ''LDX'', cpu_address_zero_page, True),
    (0xA8, 2, cpu_op_tay, ''TAY'', cpu_address_implied, True),
    (0xA9, 2, cpu_op_lda, ''LDA'', cpu_address_immediate, True),
    (0xAA, 2, cpu_op_tax, ''TAX'', cpu_address_implied, True),
    (0xAC, 4, cpu_op_ldy, ''LDY'', cpu_address_absolute, True),
    (0xAD, 4, cpu_op_lda, ''LDA'', cpu_address_absolute, True),
    (0xAE, 4, cpu_op_ldx, ''LDX'', cpu_address_absolute, True),
    (0xB0, 2, cpu_op_bcs, ''BCS'', cpu_address_relative, True),
    (0xB1, 5, cpu_op_lda, ''LDA'', cpu_address_indirect_y, True),
    (0xB4, 4, cpu_op_ldy, ''LDY'', cpu_address_zero_page_x, True),
    (0xB5, 4, cpu_op_lda, ''LDA'', cpu_address_zero_page_x, True),
    (0xB6, 4, cpu_op_ldx, ''LDX'', cpu_address_zero_page_y, True),
    (0xB8, 2, cpu_op_clv, ''CLV'', cpu_address_implied, True),
    (0xB9, 4, cpu_op_lda, ''LDA'', cpu_address_absolute_y, True),
    (0xBA, 2, cpu_op_tsx, ''TSX'', cpu_address_implied, True),
    (0xBC, 4, cpu_op_ldy, ''LDY'', cpu_address_absolute_x, True),
    (0xBD, 4, cpu_op_lda, ''LDA'', cpu_address_absolute_x, True),
    (0xBE, 4, cpu_op_ldx, ''LDX'', cpu_address_absolute_y, True),
    (0xC0, 2, cpu_op_cpy, ''CPY'', cpu_address_immediate, True),
    (0xC1, 6, cpu_op_cmp, ''CMP'', cpu_address_indirect_x, True),
    (0xC4, 3, cpu_op_cpy, ''CPY'', cpu_address_zero_page, True),
    (0xC5, 3, cpu_op_cmp, ''CMP'', cpu_address_zero_page, True),
    (0xC6, 5, cpu_op_dec, ''DEC'', cpu_address_zero_page, True),
    (0xC8, 2, cpu_op_iny, ''INY'', cpu_address_implied, True),
    (0xC9, 2, cpu_op_cmp, ''CMP'', cpu_address_immediate, True),
    (0xCA, 2, cpu_op_dex, ''DEX'', cpu_address_implied, True),
    (0xCC, 4, cpu_op_cpy, ''CPY'', cpu_address_absolute, True),
    (0xCD, 4, cpu_op_cmp, ''CMP'', cpu_address_absolute, True),
    (0xCE, 6, cpu_op_dec, ''DEC'', cpu_address_absolute, True),
    (0xD0, 2, cpu_op_bne, ''BNE'', cpu_address_relative, True),
    (0xD1, 5, cpu_op_cmp, ''CMP'', cpu_address_indirect_y, True),
    (0xD5, 4, cpu_op_cmp, ''CMP'', cpu_address_zero_page_x, True),
    (0xD6, 6, cpu_op_dec, ''DEC'', cpu_address_zero_page_x, True),
    (0xD8, 2, cpu_op_cld, ''CLD'', cpu_address_implied, True),
    (0xD9, 4, cpu_op_cmp, ''CMP'', cpu_address_absolute_y, True),
    (0xDD, 4, cpu_op_cmp, ''CMP'', cpu_address_absolute_x, True),
    (0xDE, 7, cpu_op_dec, ''DEC'', cpu_address_absolute_x, True),
    (0xE0, 2, cpu_op_cpx, ''CPX'', cpu_address_immediate, True),
    (0xE1, 6, cpu_op_sbc, ''SBC'', cpu_address_indirect_x, True),
    (0xE4, 3, cpu_op_cpx, ''CPX'', cpu_address_zero_page, True),
    (0xE5, 3, cpu_op_sbc, ''SBC'', cpu_address_zero_page, True),
    (0xE6, 5, cpu_op_inc, ''INC'', cpu_address_zero_page, True),
    (0xE8, 2, cpu_op_inx, ''INX'', cpu_address_implied, True),
    (0xE9, 2, cpu_op_sbc, ''SBC'', cpu_address_immediate, True),
    (0xEA, 2, cpu_op_nop, ''NOP'', cpu_address_implied, True),
    (0xEC, 4, cpu_op_cpx, ''CPX'', cpu_address_absolute, True),
    (0xED, 4, cpu_op_sbc, ''SBC'', cpu_address_absolute, True),
    (0xEE, 6, cpu_op_inc, ''INC'', cpu_address_absolute, True),
    (0xF0, 2, cpu_op_beq, ''BEQ'', cpu_address_relative, True),
    (0xF1, 5, cpu_op_sbc, ''SBC'', cpu_address_indirect_y, True),
    (0xF5, 4, cpu_op_sbc, ''SBC'', cpu_address_zero_page_x, True),
    (0xF6, 6, cpu_op_inc, ''INC'', cpu_address_zero_page_x, True),
    (0xF8, 2, cpu_op_sed, ''SED'', cpu_address_implied, True),
    (0xF9, 4, cpu_op_sbc, ''SBC'', cpu_address_absolute_y, True),
    (0xFD, 4, cpu_op_sbc, ''SBC'', cpu_address_absolute_x, True),
    (0xFE, 7, cpu_op_inc, ''INC'', cpu_address_absolute_x, True)]"

definition extended_instruction_set :: "op_entry list" where
  "extended_instruction_set = [
    (0x03, 8, cpu_op_aso, ''SLO'', cpu_address_indirect_x, False),
    (0x07, 5, cpu_op_aso, ''SLO'', cpu_address_zero_page, False),
    (0x0F, 6, cpu_op_aso, ''SLO'', cpu_address_absolute, False),
    (0x13, 8, cpu_op_aso, ''SLO'', cpu_address_indirect_y, False),
    (0x17, 6, cpu_op_aso, ''SLO'', cpu_address_zero_page_x, False),
    (0x1B, 7, cpu_op_aso, ''SLO'', cpu_address_absolute_y, False),
    (0x1F, 7, cpu_op_aso, ''SLO'', cpu_address_absolute_x, False),
    (0x23, 8, cpu_op_rla, ''RLA'', cpu_address_indirect_x, False),
    (0x27, 5, cpu_op_rla, ''RLA'', cpu_address_zero_page, False),
    (0x2F, 6, cpu_op_rla, ''RLA'', cpu_address_absolute, False),
    (0x33, 8, cpu_op_rla, ''RLA'', cpu_address_indirect_y, False),
    (0x37, 6, cpu_op_rla, ''RLA'', cpu_address_zero_page_x, False),
    (0x3B, 7, cpu_op_rla, ''RLA'', cpu_address_absolute_y, False),
    (0x3F, 7, cpu_op_rla, ''RLA'', cpu_address_absolute_x, False),
    (0x43, 8, cpu_op_lse, ''SRE'', cpu_address_indirect_x, False),
    (0x47, 5, cpu_op_lse, ''SRE'', cpu_address_zero_page, False),
    (0x4F, 6, cpu_op_lse, ''SRE'', cpu_address_absolute, False),
    (0x53, 8, cpu_op_lse, ''SRE'', cpu_address_indirect_y, False),
    (0x57, 6, cpu_op_lse, ''SRE'', cpu_address_zero_page_x, False),
    (0x5B, 7, cpu_op_lse, ''SRE'', cpu_address_absolute_y, False),
    (0x5F, 7, cpu_op_lse, ''SRE'', cpu_address_absolute_x, False),
    (0x63, 8, cpu_op_rra, ''RRA'', cpu_address_indirect_x, False),
    (0x67, 5, cpu_op_rra, ''RRA'', cpu_address_zero_page, False),
    (0x6F, 6, cpu_op_rra, ''RRA'', cpu_address_absolute, False),
    (0x73, 8, cpu_op_rra, ''RRA'', cpu_address_indirect_y, False),
    (0x77, 6, cpu_op_rra, ''RRA'', cpu_address_zero_page_x, False),
    (0x7B, 7, cpu_op_rra, ''RRA'', cpu_address_absolute_y, False),
    (0x7F, 7, cpu_op_rra, ''RRA'', cpu_address_absolute_x, False),
    (0x83, 6, cpu_op_axs, ''SAX'', cpu_address_indirect_x, False),
    (0x87, 3, cpu_op_axs, ''SAX'', cpu_address_zero_page, False),
    (0x8F, 4, cpu_op_axs, ''SAX'', cpu_address_absolute, False),
    (0x93, 6, cpu_op_axa, ''SAX'', cpu_address_indirect_y, False),
    (0x97, 4, cpu_op_axs, ''SAX'', cpu_address_zero_page_y, False),
    (0x9F, 5, cpu_op_axa, ''SAX'', cpu_address_absolute_y, False),
    (0xA3, 6, cpu_op_lax, ''LAX'', cpu_address_indirect_x, False),
    (0xA7, 3, cpu_op_lax, ''LAX'', cpu_address_zero_page, False),
    (0xAF, 4, cpu_op_lax, ''LAX'', cpu_address_absolute, False),
    (0xB3, 5, cpu_op_lax, ''LAX'', cpu_address_indirect_y, False),
    (0xB7, 4, cpu_op_lax, ''LAX'', cpu_address_zero_page_y, False),
    (0xBF, 4, cpu_op_lax, ''LAX'', cpu_address_absolute_y, False),
    (0xC3, 8, cpu_op_dcm, ''DCP'', cpu_address_indirect_x, False),
    (0xC7, 5, cpu_op_dcm, ''DCP'', cpu_address_zero_page, False),
    (0xCF, 6, cpu_op_dcm, ''DCP'', cpu_address_absolute, False),
    (0xD3, 8, cpu_op_dcm, ''DCP'', cpu_address_indirect_y, False),
    (0xD7, 6, cpu_op_dcm, ''DCP'', cpu_address_zero_page_x, False),
    (0xDB, 7, cpu_op_dcm, ''DCP'', cpu_address_absolute_y, False),
    (0xDF, 7, cpu_op_dcm, ''DCP'', cpu_address_absolute_x, False),
    (0xE3, 8, cpu_op_ins, ''ISB'', cpu_address_indirect_x, False),
    (0xE7, 5, cpu_op_ins, ''ISB'', cpu_address_zero_page, False),
    (0xEB, 2, cpu_op_sbc, ''SBC'', cpu_address_immediate, False),
    (0xEF, 6, cpu_op_ins, ''ISB'', cpu_address_absolute, False),
    (0xF3, 8, cpu_op_ins, ''ISB'', cpu_address_indirect_y, False),
    (0xF7, 6, cpu_op_ins, ''ISB'', cpu_address_zero_page_x, False),
    (0xFB, 7, cpu_op_ins, ''ISB'', cpu_address_absolute_y, False),
    (0xFF, 7, cpu_op_ins, ''ISB'', cpu_address_absolute_x, False)]"

definition not_implemented_instructions :: "op_entry list" where
  "not_implemented_instructions = [
    (0x04, 1, FE_nop, ''NOP'', cpu_address_zero_page, False),
    (0x0C, 1, FE_nop, ''NOP'', cpu_address_absolute, False),
    (0x14, 1, FE_nop, ''NOP'', cpu_address_zero_page_x, False),
    (0x1A, 1, FE_nop, ''NOP'', cpu_address_implied, False),
    (0x1C, 1, FE_nop, ''NOP'', cpu_address_absolute_x, False),
    (0x34, 1, FE_nop, ''NOP'', cpu_address_zero_page_x, False),
    (0x3A, 1, FE_nop, ''NOP'', cpu_address_implied, False),
    (0x3C, 1, FE_nop, ''NOP'', cpu_address_absolute_x, False),
    (0x44, 1, FE_nop, ''NOP'', cpu_address_zero_page, False),
    (0x54, 1, FE_nop, ''NOP'', cpu_address_zero_page_x, False),
    (0x5A, 1, FE_nop, ''NOP'', cpu_address_implied, False),
    (0x5C, 1, FE_nop, ''NOP'', cpu_address_absolute_x, False),
    (0x64, 1, FE_nop, ''NOP'', cpu_address_zero_page, False),
    (0x74, 1, FE_nop, ''NOP'', cpu_address_zero_page_x, False),
    (0x7A, 1, FE_nop, ''NOP'', cpu_address_implied, False),
    (0x7C, 1, FE_nop, ''NOP'', cpu_address_absolute_x, False),
    (0x80, 1, FE_nop, ''NOP'', cpu_address_immediate, False),
    (0xD4, 1, FE_nop, ''NOP'', cpu_address_zero_page_x, False),
    (0xDA, 1, FE_nop, ''NOP'', cpu_address_implied, False),
    (0xDC, 1, FE_nop, ''NOP'', cpu_address_absolute_x, False),
    (0xF4, 1, FE_nop, ''NOP'', cpu_address_zero_page_x, False),
    (0xFA, 1, FE_nop, ''NOP'', cpu_address_implied, False),
    (0xFC, 1, FE_nop, ''NOP'', cpu_address_absolute_x, False)]"
definition cpu_op_table :: "op_entry list" where
  "cpu_op_table = base_instruction_set @ extended_instruction_set @ not_implemented_instructions"

text \<open>An opcode without an entry has a null addressing mode and 0 cycles.\<close>

definition op_lookup :: "u8 \<Rightarrow> (nat \<times> (nes \<Rightarrow> nes) \<times> string \<times> (nes \<Rightarrow> nes) \<times> bool) option" where
  "op_lookup o8 = map_of cpu_op_table (unat o8)"

definition cpu_init :: "nes \<Rightarrow> nes" where
  "cpu_init = upd_cpu (\<lambda>c. c\<lparr>rP := 0x24, rSP := 0x00, rA := 0, rX := 0, rY := 0\<rparr>)"

definition cpu_reset :: "nes \<Rightarrow> nes" where
  "cpu_reset s =
    (let (a, s1) = cpu_reset_interrupt_address s
     in upd_cpu (\<lambda>c. c\<lparr>rPC := a, rSP := rSP c - 3, rP := rP c OR interrupt_flag\<rparr>) s1)"

definition cpu_interrupt :: "nes \<Rightarrow> nes" where
  "cpu_interrupt s =
    (if ppu_generates_nmi s then
      (let s1 = cpu_unset_flag unused_bp (set_P (rP (cpu s) OR interrupt_flag) s);
           s2 = cpu_stack_pushw (rPC (cpu s1)) s1;
           s3 = cpu_stack_pushb (rP (cpu s2)) s2;
           (a, s4) = cpu_nmi_interrupt_address s3
       in set_PC a s4)
     else s)"

definition cpu_clock :: "nes \<Rightarrow> u32" where "cpu_clock s = cpu_cycles s"

text \<open>One round of the loop: the cycles it takes off the budget, and the next state.\<close>

definition cpu_step :: "nes \<Rightarrow> nat \<times> nes" where
  "cpu_step s =
    (let pc = rPC (cpu s);
         (o8, s1) = memory_readb pc (pc_plus 1 s);
         s2 = s1\<lparr>op_code := o8\<rparr>;
         (base, s3) = (case op_lookup o8 of None \<Rightarrow> (0, s2)
           | Some (cyc, handler, _, mode, _) \<Rightarrow> (cyc, handler (mode s2)));
         used = base + op_cycles s3
     in (used, s3\<lparr>cpu_cycles := cpu_cycles s3 - of_nat used, op_cycles := 0\<rparr>))"

partial_function (option) cpu_run :: "int \<Rightarrow> nes \<Rightarrow> nes option" where
  "cpu_run cycles s =
    (if cycles > 0 then (let (used, s1) = cpu_step s in cpu_run (cycles - int used) s1) else Some s)"

declare cpu_run.simps [code]

end
