(* ===== verification/Nes_Run.thy ===== *)
theory Nes_Run imports Nes_Cpu begin

text \<open>
  LiteNES: one scan line (\<open>ppu_cycle\<close>), the screen update, the loading of a cartridge and the frame
  loop of fce.c. \<open>wait_for_frame\<close> only lets time pass and is left out; the key that \<open>read_key\<close> gives
  at the end of a frame is an argument.
\<close>

section \<open>Screen\<close>

definition nes_W :: int where "nes_W = 256"
definition nes_H :: int where "nes_H = 240"

definition palette :: "u32 list" where
  "palette = [
  0x808080, 0x0000BB, 0x3700BF, 0x8400A6, 0xBB006A, 0xB7001E,
  0xB30000, 0x912600, 0x7B2B00, 0x003E00, 0x00480D, 0x003C22,
  0x002F66, 0x000000, 0x050505, 0x050505, 0xC8C8C8, 0x0059FF,
  0x443CFF, 0xB733CC, 0xFF33AA, 0xFF375E, 0xFF371A, 0xD54B00,
  0xC46200, 0x3C7B00, 0x1E8415, 0x009566, 0x0084C4, 0x111111,
  0x090909, 0x090909, 0xFFFFFF, 0x0095FF, 0x6F84FF, 0xD56FFF,
  0xFF77CC, 0xFF6F99, 0xFF7B59, 0xFF915F, 0xFFA233, 0xA6BF00,
  0x51D96A, 0x4DD5AE, 0x00D9FF, 0x666666, 0x0D0D0D, 0x0D0D0D,
  0xFFFFFF, 0x84BFFF, 0xBBBBFF, 0xD0BBFF, 0xFFBFEA, 0xFFBFCC,
  0xFFC4B7, 0xFFCCAE, 0xFFD9A2, 0xCCE199, 0xAEEEB7, 0xAAF7EE,
  0xB3EEFF, 0xDDDDDD, 0x111111, 0x111111]"

definition xmap_init :: "nes \<Rightarrow> nes" where
  "xmap_init s =
    (let w = scr_width s; h = scr_height s; pad = (w - h) sdiv 2
     in in_bounds (0 \<le> pad \<and> w - pad \<le> 1024)
          (s\<lparr>xmap := \<lambda>x. if pad \<le> int x \<and> int x < w - pad then (int x - pad) * nes_W sdiv h else xmap s x\<rparr>))"

text \<open>Line \<open>y\<close> of the window: the pixels, and whether every index is inside its array.\<close>

definition screen_pixel :: "int \<Rightarrow> int \<Rightarrow> nes \<Rightarrow> u8" where
  "screen_pixel y1 x s = canvas s (nat y1) (nat (xmap s (nat x) + 0xff))"

definition screen_line :: "int \<Rightarrow> nes \<Rightarrow> nes" where
  "screen_line y s =
    (let w = scr_width s; h = scr_height s; pad = (w - h) sdiv 2;
         y1 = y * (nes_H - 1) sdiv h + 1;
         cols = [pad..w - pad - 1];
         ok = (\<forall>x\<in>set cols. 0 \<le> x \<and> x < 1024 \<and> 0 \<le> y1 \<and> y1 < 257 \<and> 0 \<le> xmap s (nat x) + 0xff
           \<and> xmap s (nat x) + 0xff < 520 \<and> unat (screen_pixel y1 x s) < 64)
     in in_bounds ok (s\<lparr>screen := screen s @
          [Draw_rect (map (\<lambda>x. palette ! unat (screen_pixel y1 x s)) cols) pad y (w - 2 * pad) 1]\<rparr>))"

definition fce_update_screen :: "nes \<Rightarrow> nes" where
  "fce_update_screen s =
    (let s0 = in_bounds (ppu_ram_ok 0x3F00 s) s;
         idx = ppu_ram_read 0x3F00 s0;
         s1 = s0\<lparr>frame_cnt := frame_cnt s0 + 1\<rparr>
     in if frame_cnt s1 mod 3 \<noteq> 0 then s1
        else
          (let s2 = fold screen_line [0..scr_height s1 - 1] s1
           in s2\<lparr>screen := screen s2 @ [Draw_sync], canvas := \<lambda>_ _. idx\<rparr>))"

section \<open>Scan lines\<close>

definition upd_scanline :: "int \<Rightarrow> nes \<Rightarrow> nes" where
  "upd_scanline n = upd_ppu (\<lambda>p. p\<lparr>scanline := n\<rparr>)"

definition ppu_cycle :: "nes \<Rightarrow> nes" where
  "ppu_cycle s =
    (let s1 = (if \<not> ppu_ready (ppu s) \<and> cpu_clock s > 29658 then upd_ppu (\<lambda>p. p\<lparr>ppu_ready := True\<rparr>) s else s);
         s2 = upd_scanline (scanline (ppu s1) + 1) s1;
         s3 = (if ppu_shows_background s2
               then ppu_draw_background_scanline True (ppu_draw_background_scanline False s2) else s2);
         s4 = (if ppu_shows_sprites s3 then ppu_draw_sprite_scanline s3 else s3)
     in if scanline (ppu s4) = 241 then
          cpu_interrupt (ppu_set_sprite_0_hit False (ppu_set_in_vblank True s4))
        else if scanline (ppu s4) = 262 then
          fce_update_screen (ppu_set_in_vblank False ((upd_scanline (- 1) s4)\<lparr>ppu_sprite_hit_occured := False\<rparr>))
        else s4)"

definition ppu_run :: "nat \<Rightarrow> nes \<Rightarrow> nes" where
  "ppu_run cycles s = (ppu_cycle ^^ cycles) s"

section \<open>Cartridge\<close>

text \<open>
  \<open>romread\<close>: the bytes from the cursor and the new cursor; the file may be shorter than asked for,
  which the copies notice.
\<close>

definition romread :: "nat \<Rightarrow> u8 list \<Rightarrow> u8 list \<times> u8 list" where
  "romread n buf = (take n buf, drop n buf)"

text \<open>The fields of \<open>ines_header\<close>, little-endian, 16 bytes.\<close>

definition rom_signature :: "u8 list \<Rightarrow> u8 list" where "rom_signature h = take 4 h"
definition prg_block_count :: "u8 list \<Rightarrow> u8" where "prg_block_count h = h ! 4"
definition chr_block_count :: "u8 list \<Rightarrow> u8" where "chr_block_count h = h ! 5"
definition rom_type :: "u8 list \<Rightarrow> u16" where "rom_type h = ucast (h ! 6) + push_bit 8 (ucast (h ! 7))"

definition load_chr_page :: "nat \<Rightarrow> u8 list \<times> nes \<Rightarrow> u8 list \<times> nes" where
  "load_chr_page i st = (case st of (buf, s) \<Rightarrow>
    (let (blk, buf1) = romread 0x2000 buf;
         s1 = mmc_append_chr_rom_page blk s
     in (buf1, if i = 0 then ppu_copy 0 blk 0x2000 s1 else s1)))"

definition fce_load_rom :: "u8 list \<Rightarrow> nes \<Rightarrow> int \<times> nes" where
  "fce_load_rom rom s =
    (let (header, buf) = romread 16 rom; s0 = in_bounds (16 \<le> length rom) (s\<lparr>fce_rom_type := rom_type header\<rparr>) in
     if common_memcmp (rom_signature header) [0x4E, 0x45, 0x53, 0x1A] \<noteq> 0 then (- 1, s0)
     else
       (let s1 = s0\<lparr>mmc_id := ucast (drop_bit 4 (rom_type header AND 0xF0))\<rparr>;
            prg_size = unat (prg_block_count header) * 0x4000;
            blk = buf; buf1 = drop prg_size buf
        in if mmc_id s1 = 0 \<or> mmc_id s1 = 3 then
             (let s2 = (if prg_block_count header = 1
                        then mmc_copy 0xC000 blk 0x4000 (mmc_copy 0x8000 blk 0x4000 s1)
                        else mmc_copy 0x8000 blk 0x8000 s1);
                  (_, s3) = fold load_chr_page [0..<unat (chr_block_count header)] (buf1, s2)
              in (0, s3))
           else (- 1, s1)))"

definition fce_init :: "nes \<Rightarrow> nes" where
  "fce_init s =
    cpu_reset (ppu_set_mirroring (ucast (fce_rom_type s AND 1)) (ppu_init (cpu_init s)))"

section \<open>Frames\<close>

definition KEY_NONE :: int where "KEY_NONE = 0"

definition handle_key :: "int \<Rightarrow> nes \<Rightarrow> nes" where
  "handle_key key s =
    (if key = KEY_NONE then s
     else
       (let down = (if key AND 0x8000 \<noteq> 0 then 1 else 0); code = key AND NOT 0x8000
        in in_bounds (0 \<le> code \<and> code < 256) (s\<lparr>key_state := (key_state s)(nat code := down)\<rparr>)))"

primrec fce_scanlines :: "nat \<Rightarrow> nes \<Rightarrow> nes option" where
  "fce_scanlines 0 s = Some s"
| "fce_scanlines (Suc n) s =
    (case cpu_run (1364 div 12) (ppu_run 1 s) of None \<Rightarrow> None | Some s1 \<Rightarrow> fce_scanlines n s1)"

definition fce_frame :: "int \<Rightarrow> nes \<Rightarrow> nes option" where
  "fce_frame key s = map_option (handle_key key) (fce_scanlines 262 s)"

primrec fce_frames :: "int list \<Rightarrow> nes \<Rightarrow> nes option" where
  "fce_frames [] s = Some s"
| "fce_frames (key # keys) s = (case fce_frame key s of None \<Rightarrow> None | Some s1 \<Rightarrow> fce_frames keys s1)"

text \<open>\<open>fce_run\<close> up to the frames whose keys are given, and \<open>main\<close>.\<close>

definition fce_run :: "int list \<Rightarrow> nes \<Rightarrow> nes option" where
  "fce_run keys s = fce_frames keys (s\<lparr>key_state := (key_state s)(0 := 1)\<rparr>)"

definition fce_main :: "int \<Rightarrow> int \<Rightarrow> u8 list \<Rightarrow> int list \<Rightarrow> nes option" where
  "fce_main w h rom keys = fce_run keys (fce_init (snd (fce_load_rom rom (xmap_init (nes_start w h)))))"

end
