(* ===== verification/Nes_Inv.thy ===== *)
theory Nes_Inv imports Nes_Run begin

text \<open>
  LiteNES: what the memory accesses of the CPU leave unchanged, the ranges of the operand variables,
  and the absence of out-of-range accesses. The rules for single operations are collected in
  \<open>nes_frame\<close> (equations) and \<open>nes_safe\<close> (preservation of \<open>safe\<close>).
\<close>

named_theorems nes_frame \<open>fields of the emulator an operation leaves unchanged\<close>
named_theorems nes_safe \<open>operations of the emulator that stay within the arrays\<close>

section \<open>Frames\<close>

text \<open>What a memory access never changes.\<close>

definition core :: "nes \<Rightarrow> cpu_state \<times> int \<times> int \<times> nat \<times> u32 \<times> u8" where
  "core s = (cpu s, op_value s, op_address s, op_cycles s, cpu_cycles s, op_code s)"

lemma core_in_bounds [nes_frame]: "core (in_bounds b s) = core s"
  by (simp add: in_bounds_def core_def)

lemma core_upd_ppu [nes_frame]: "core (upd_ppu f s) = core s"
  by (simp add: upd_ppu_def core_def)

lemma core_updates [nes_frame]:
  "core (s\<lparr>CPU_RAM := f1\<rparr>) = core s"
  "core (s\<lparr>mmc_memory := f2\<rparr>) = core s"
  "core (s\<lparr>prev_write := v1\<rparr>) = core s"
  "core (s\<lparr>psg_p := v2\<rparr>) = core s"
  "core (s\<lparr>PPU_SPRRAM := f3\<rparr>) = core s"
  "core (s\<lparr>PPU_RAM := f4\<rparr>) = core s"
  "core (s\<lparr>ppu_2007_first_read := v3\<rparr>) = core s"
  "core (s\<lparr>ppu_addr_latch := v4\<rparr>) = core s"
  "core (s\<lparr>ppu_latch := v5\<rparr>) = core s"
  by (simp_all add: core_def)

lemma fold_keeps:
  assumes "\<And>x s. g (f x s) = g s"
  shows "g (fold f xs s) = g s"
  using assms by (induction xs arbitrary: s) simp_all

lemma core_status [nes_frame]:
  "core (ppu_set_in_vblank b s) = core s"
  "core (ppu_set_sprite_0_hit b s) = core s"
  by (simp_all add: ppu_set_in_vblank_def ppu_set_sprite_0_hit_def set_status_bit_def nes_frame)

lemma core_ppu_ram_write [nes_frame]: "core (ppu_ram_write a v s) = core s"
  by (simp add: ppu_ram_write_def nes_frame)

lemma core_ppu_io_read [nes_frame]: "core (snd (ppu_io_read a s)) = core s"
  by (simp add: ppu_io_read_def Let_def nes_frame)

lemma core_ppu_data_write [nes_frame]: "core (ppu_data_write v s) = core s"
  by (simp add: ppu_data_write_def Let_def nes_frame)

lemma core_ppu_io_write [nes_frame]: "core (ppu_io_write a v s) = core s"
  by (simp add: ppu_io_write_def Let_def nes_frame)

lemma core_dma_transfer [nes_frame]: "core (dma_transfer v s) = core s"
  unfolding dma_transfer_def
  by (rule fold_keeps) (simp add: ppu_sprram_write_def nes_frame)

lemma core_memory_readb [nes_frame]: "core (snd (memory_readb a s)) = core s"
  by (simp add: memory_readb_def psg_io_read_def Let_def nes_frame)

lemma core_memory_writeb [nes_frame]: "core (memory_writeb a v s) = core s"
  by (simp add: memory_writeb_def psg_io_write_def cpu_ram_write_def mmc_write_def Let_def nes_frame)

lemma core_memory_readw [nes_frame]: "core (snd (memory_readw a s)) = core s"
  by (simp add: memory_readw_def case_prod_beta nes_frame)

lemma core_memory_writew [nes_frame]: "core (memory_writew a v s) = core s"
  by (simp add: memory_writew_def nes_frame)

lemma core_eqD:
  assumes "core s' = core s"
  shows "cpu s' = cpu s" "op_value s' = op_value s" "op_address s' = op_address s"
    "op_cycles s' = op_cycles s" "cpu_cycles s' = cpu_cycles s" "op_code s' = op_code s"
  using assms by (simp_all add: core_def)

lemmas readb_frame [nes_frame, simp] = core_eqD [OF core_memory_readb]
lemmas readw_frame [nes_frame, simp] = core_eqD [OF core_memory_readw]
lemmas writeb_frame [nes_frame, simp] = core_eqD [OF core_memory_writeb]
lemmas writew_frame [nes_frame, simp] = core_eqD [OF core_memory_writew]

lemma upd_cpu_frame [simp]:
  "cpu (upd_cpu f s) = f (cpu s)" "op_value (upd_cpu f s) = op_value s"
  "op_address (upd_cpu f s) = op_address s" "op_cycles (upd_cpu f s) = op_cycles s"
  "cpu_cycles (upd_cpu f s) = cpu_cycles s" "op_code (upd_cpu f s) = op_code s"
  "CPU_RAM (upd_cpu f s) = CPU_RAM s" "ppu (upd_cpu f s) = ppu s"
  by (simp_all add: upd_cpu_def)

section \<open>Ranges of the operand variables\<close>

definition operands_ok :: "int \<Rightarrow> int \<Rightarrow> bool" where
  "operands_ok v a = (0 \<le> v \<and> v < 0x100 \<and> - 0x100 \<le> a \<and> a < 0x100FF)"

definition nes_typed :: "nes \<Rightarrow> bool" where
  "nes_typed s = operands_ok (op_value s) (op_address s)"

lemma and_byte_mod: "(x::int) AND 0xFF = x mod 0x100"
proof -
  have "(0xFF::int) = mask 8" by (simp add: mask_eq_exp_minus_1)
  then show ?thesis by (simp only: take_bit_eq_mask [symmetric] take_bit_eq_mod) simp
qed

lemma and_half_mod: "(x::int) AND 0xFFFF = x mod 0x10000"
proof -
  have "(0xFFFF::int) = mask 16" by (simp add: mask_eq_exp_minus_1)
  then show ?thesis by (simp only: take_bit_eq_mask [symmetric] take_bit_eq_mod) simp
qed

lemma and_byte_range: "0 \<le> (x::int) AND 0xFF" "(x::int) AND 0xFF < 0x100"
  by (simp_all add: and_byte_mod)

lemma and_half_range: "0 \<le> (x::int) AND 0xFFFF" "(x::int) AND 0xFFFF < 0x10000"
  by (simp_all add: and_half_mod)

lemma uint8_range: "0 \<le> uint (b::u8)" "uint (b::u8) < 0x100"
  using uint_lt2p [of b] by simp_all

lemma uint16_range: "0 \<le> uint (w::u16)" "uint (w::u16) < 0x10000"
  using uint_lt2p [of w] by simp_all

lemma or_bytes_range:
  "0 \<le> push_bit 8 (uint (hi::u8)) OR uint (lo::u8)"
  "push_bit 8 (uint (hi::u8)) OR uint (lo::u8) < 0x10000"
proof -
  show "0 \<le> push_bit 8 (uint hi) OR uint lo" by (simp add: push_bit_eq_mult)
  have "push_bit 8 (uint hi) < 2 ^ 16" "uint lo < 2 ^ 16" "0 \<le> push_bit 8 (uint hi)"
    using uint8_range [of hi] uint8_range [of lo] by (simp_all add: push_bit_eq_mult)
  from OR_upper [OF this(3,1,2)] show "push_bit 8 (uint hi) OR uint lo < 0x10000" by simp
qed

section \<open>Invariants of the processor\<close>

lemmas cpu_helper_defs = set_A_def set_X_def set_Y_def set_P_def set_PC_def add_sp_def pc_plus_def
  cpu_modify_flag_def cpu_set_flag_def cpu_unset_flag_def cpu_update_zn_flags_def set_A_zn_def
  set_X_zn_def set_Y_zn_def cpu_branch_def cpu_compare_def store_reg_def write_back_def zn_value_def
  cpu_stack_pushb_def cpu_stack_pushw_def cpu_stack_popb_def cpu_stack_popw_def
  cpu_nmi_interrupt_address_def cpu_reset_interrupt_address_def memory_readw_def memory_writew_def

lemmas cpu_op_defs = FE_nop_def
  cpu_op_nop_def cpu_op_adc_def cpu_op_sbc_def cpu_op_and_def cpu_op_bit_def cpu_op_eor_def
  cpu_op_ora_def cpu_op_asla_def cpu_op_asl_def cpu_op_lsra_def cpu_op_lsr_def cpu_op_rola_def
  cpu_op_rol_def cpu_op_rora_def cpu_op_ror_def cpu_op_lda_def cpu_op_ldx_def cpu_op_ldy_def
  cpu_op_sta_def cpu_op_stx_def cpu_op_sty_def cpu_op_tax_def cpu_op_txa_def cpu_op_tay_def
  cpu_op_tya_def cpu_op_tsx_def cpu_op_txs_def cpu_op_bcs_def cpu_op_beq_def cpu_op_bmi_def
  cpu_op_bvs_def cpu_op_bne_def cpu_op_bcc_def cpu_op_bpl_def cpu_op_bvc_def cpu_op_jmp_def
  cpu_op_jsr_def cpu_op_rts_def cpu_op_brk_def cpu_op_rti_def cpu_op_clc_def cpu_op_cld_def
  cpu_op_cli_def cpu_op_clv_def cpu_op_sec_def cpu_op_sed_def cpu_op_sei_def cpu_op_cmp_def
  cpu_op_cpx_def cpu_op_cpy_def cpu_op_inc_def cpu_op_inx_def cpu_op_iny_def cpu_op_dec_def
  cpu_op_dex_def cpu_op_dey_def cpu_op_php_def cpu_op_pha_def cpu_op_pla_def cpu_op_plp_def
  cpu_op_axa_def cpu_op_axs_def cpu_op_lax_def

lemmas cpu_ext_defs =
  cpu_op_aso_def cpu_op_lse_def cpu_op_rla_def cpu_op_rra_def cpu_op_dcm_def cpu_op_ins_def

lemmas cpu_address_defs = load_operand_def zero_page_operand_def page_cycle_def
  cpu_address_implied_def cpu_address_immediate_def cpu_address_zero_page_def
  cpu_address_zero_page_x_def cpu_address_zero_page_y_def cpu_address_absolute_def
  cpu_address_absolute_x_def cpu_address_absolute_y_def cpu_address_relative_def
  cpu_address_indirect_def cpu_address_indirect_x_def cpu_address_indirect_y_def

text \<open>
  A predicate that survives the accesses to memory and the updates of the registers and of the
  operand variables within their ranges survives every instruction. The ranges are what the C code
  needs for its \<open>int\<close> variables; they are established here once, for every addressing mode.
\<close>

locale nes_invariant =
  fixes I :: "nes \<Rightarrow> bool"
  assumes I_readb: "I s \<Longrightarrow> I (snd (memory_readb a s))"
    and I_writeb: "I s \<Longrightarrow> I (memory_writeb a v s)"
    and I_upd_cpu: "I (upd_cpu f s) = I s"
    and I_op_code: "I (s\<lparr>op_code := c\<rparr>) = I s"
    and I_op_cycles: "I (s\<lparr>op_cycles := n\<rparr>) = I s"
    and I_cpu_cycles: "I (s\<lparr>cpu_cycles := u\<rparr>) = I s"
    and I_op_value: "I s \<Longrightarrow> 0 \<le> x \<Longrightarrow> x < 0x100 \<Longrightarrow> I (s\<lparr>op_value := x\<rparr>)"
    and I_op_address: "I s \<Longrightarrow> - 0x100 \<le> x \<Longrightarrow> x < 0x100FF \<Longrightarrow> I (s\<lparr>op_address := x\<rparr>)"
begin

lemmas I_simps = I_readb I_writeb I_upd_cpu I_op_code I_op_cycles I_cpu_cycles

lemma I_handlers:
  assumes "I s"
  shows
    "I (FE_nop s)"
    "I (cpu_op_nop s)"
    "I (cpu_op_adc s)"
    "I (cpu_op_sbc s)"
    "I (cpu_op_and s)"
    "I (cpu_op_bit s)"
    "I (cpu_op_eor s)"
    "I (cpu_op_ora s)"
    "I (cpu_op_asla s)"
    "I (cpu_op_asl s)"
    "I (cpu_op_lsra s)"
    "I (cpu_op_lsr s)"
    "I (cpu_op_rola s)"
    "I (cpu_op_rol s)"
    "I (cpu_op_rora s)"
    "I (cpu_op_ror s)"
    "I (cpu_op_lda s)"
    "I (cpu_op_ldx s)"
    "I (cpu_op_ldy s)"
    "I (cpu_op_sta s)"
    "I (cpu_op_stx s)"
    "I (cpu_op_sty s)"
    "I (cpu_op_tax s)"
    "I (cpu_op_txa s)"
    "I (cpu_op_tay s)"
    "I (cpu_op_tya s)"
    "I (cpu_op_tsx s)"
    "I (cpu_op_txs s)"
    "I (cpu_op_bcs s)"
    "I (cpu_op_beq s)"
    "I (cpu_op_bmi s)"
    "I (cpu_op_bvs s)"
    "I (cpu_op_bne s)"
    "I (cpu_op_bcc s)"
    "I (cpu_op_bpl s)"
    "I (cpu_op_bvc s)"
    "I (cpu_op_jmp s)"
    "I (cpu_op_jsr s)"
    "I (cpu_op_rts s)"
    "I (cpu_op_brk s)"
    "I (cpu_op_rti s)"
    "I (cpu_op_clc s)"
    "I (cpu_op_cld s)"
    "I (cpu_op_cli s)"
    "I (cpu_op_clv s)"
    "I (cpu_op_sec s)"
    "I (cpu_op_sed s)"
    "I (cpu_op_sei s)"
    "I (cpu_op_cmp s)"
    "I (cpu_op_cpx s)"
    "I (cpu_op_cpy s)"
    "I (cpu_op_inc s)"
    "I (cpu_op_inx s)"
    "I (cpu_op_iny s)"
    "I (cpu_op_dec s)"
    "I (cpu_op_dex s)"
    "I (cpu_op_dey s)"
    "I (cpu_op_php s)"
    "I (cpu_op_pha s)"
    "I (cpu_op_pla s)"
    "I (cpu_op_plp s)"
    "I (cpu_op_axa s)"
    "I (cpu_op_axs s)"
    "I (cpu_op_lax s)"
  using assms
  by (simp_all add: cpu_op_defs cpu_helper_defs Let_def case_prod_beta I_simps I_op_value and_byte_range)

lemma I_extended:
  assumes "I s"
  shows
    "I (cpu_op_aso s)"
    "I (cpu_op_lse s)"
    "I (cpu_op_rla s)"
    "I (cpu_op_rra s)"
    "I (cpu_op_dcm s)"
    "I (cpu_op_ins s)"
  using assms
  by (simp_all add: cpu_ext_defs I_handlers write_back_def I_simps I_op_value and_byte_range)

lemma I_pc_plus: "I (pc_plus k s) = I s"
  by (simp add: pc_plus_def I_upd_cpu)

lemma I_page_cycle: "I (page_cycle s) = I s"
  by (simp add: page_cycle_def I_op_cycles)

lemma I_readw: "I s \<Longrightarrow> I (snd (memory_readw a s))"
  by (simp add: memory_readw_def case_prod_beta I_readb)

lemma I_load_operand: "I s \<Longrightarrow> - 0x100 \<le> a \<Longrightarrow> a < 0x100FF \<Longrightarrow> I (load_operand a s)"
  by (simp add: load_operand_def case_prod_beta I_simps I_op_value I_op_address uint8_range)

lemma I_zero_page_operand:
  assumes "I s" "0 \<le> a" "a < 0x100"
  shows "I (zero_page_operand a s)"
proof -
  have "I ((s\<lparr>op_address := a\<rparr>)\<lparr>op_value := uint (CPU_RAM s (nat a))\<rparr>)"
    using assms by (intro I_op_value I_op_address) (simp_all add: uint8_range)
  then show ?thesis by (simp add: zero_page_operand_def I_pc_plus)
qed

lemmas I_mode_simps = I_pc_plus I_page_cycle I_readb I_readw I_load_operand I_zero_page_operand
  I_op_value uint8_range and_byte_range

lemma I_zero_page_modes:
  assumes "I s"
  shows "I (cpu_address_implied s)" "I (cpu_address_immediate s)" "I (cpu_address_zero_page s)"
    "I (cpu_address_zero_page_x s)" "I (cpu_address_zero_page_y s)"
  using assms
  by (simp_all add: cpu_address_implied_def cpu_address_immediate_def cpu_address_zero_page_def
      cpu_address_zero_page_x_def cpu_address_zero_page_y_def case_prod_beta Let_def I_mode_simps)

lemma sum_range:
  "- 0x100 \<le> uint (w::u16) + uint (b::u8)" "uint (w::u16) + uint (b::u8) < 0x100FF"
  "- 0x100 \<le> uint (w::u16)" "uint (w::u16) < 0x100FF"
  using uint16_range [of w] uint8_range [of b] by linarith+

lemma and_half_operand: "- 0x100 \<le> (x::int) AND 0xFFFF" "(x::int) AND 0xFFFF < 0x100FF"
  using and_half_range [of x] by linarith+

lemma or_bytes_operand:
  "- 0x100 \<le> push_bit 8 (uint (hi::u8)) OR uint (lo::u8)"
  "push_bit 8 (uint (hi::u8)) OR uint (lo::u8) < 0x100FF"
  using or_bytes_range [of hi lo] by linarith+

lemma I_absolute_modes:
  assumes "I s"
  shows "I (cpu_address_absolute s)" "I (cpu_address_absolute_x s)" "I (cpu_address_absolute_y s)"
    "I (cpu_address_indirect_x s)" "I (cpu_address_indirect_y s)"
  using assms
  by (simp_all add: cpu_address_absolute_def cpu_address_absolute_x_def cpu_address_absolute_y_def
      cpu_address_indirect_x_def cpu_address_indirect_y_def case_prod_beta Let_def I_mode_simps
      sum_range and_half_operand or_bytes_operand)

lemma I_relative:
  assumes "I s"
  shows "I (cpu_address_relative s)"
proof -
  have rel: "- 0x100 \<le> (if b then uint v - 0x100 else uint v) + uint (w::u16) \<and>
    (if b then uint v - 0x100 else uint v) + uint w < 0x100FF" for v :: u8 and w b
  proof -
    note r = uint8_range [of v] uint16_range [of w]
    show ?thesis
    proof (cases b)
      case True then show ?thesis by (simp only: if_True) (use r in linarith)
    next
      case False then show ?thesis by (simp only: if_False) (use r in linarith)
    qed
  qed
  from assms rel show ?thesis
    by (simp add: cpu_address_relative_def case_prod_beta Let_def I_page_cycle I_op_address I_pc_plus
        I_readb del: if_split)
qed

lemma I_indirect:
  assumes "I s"
  shows "I (cpu_address_indirect s)"
proof -
  have "0 \<le> push_bit 8 (uint hi)" "push_bit 8 (uint hi) \<le> 0xFF00" for hi :: u8
    using uint8_range [of hi] by (simp_all add: push_bit_eq_mult)
  note r = this
  have "- 0x100 \<le> push_bit 8 (uint hi) + uint lo" "push_bit 8 (uint hi) + uint lo < 0x100FF"
    for hi lo :: u8
    using r [of hi] uint8_range [of lo] by linarith+
  with assms show ?thesis
    by (simp add: cpu_address_indirect_def case_prod_beta Let_def I_op_address I_pc_plus I_readb
        I_readw sum_range)
qed

lemmas I_modes = I_zero_page_modes I_absolute_modes I_relative I_indirect

text \<open>Hence every entry of the tables, and the loop body.\<close>

lemma I_table:
  assumes "(opc, c, h, nm, m, b) \<in> set cpu_op_table" "I s"
  shows "I (h (m s))"
proof -
  have "list_all (\<lambda>(opc, c, h, nm, m, b). I (h (m s))) base_instruction_set"
    by (simp add: base_instruction_set_def I_handlers I_modes assms(2))
  moreover have "list_all (\<lambda>(opc, c, h, nm, m, b). I (h (m s))) extended_instruction_set"
    by (simp add: extended_instruction_set_def I_extended I_handlers I_modes assms(2))
  moreover have "list_all (\<lambda>(opc, c, h, nm, m, b). I (h (m s))) not_implemented_instructions"
    by (simp add: not_implemented_instructions_def I_handlers I_modes assms(2))
  ultimately show ?thesis
    using assms(1) by (fastforce simp: cpu_op_table_def list_all_iff)
qed

lemma I_step:
  assumes "I s"
  shows "I (snd (cpu_step s))"
  using assms
  by (auto simp: cpu_step_def op_lookup_def case_prod_beta Let_def I_simps I_pc_plus
      dest!: map_of_SomeD split: option.split intro: I_table)

end

section \<open>The two invariants\<close>

interpretation typed: nes_invariant nes_typed
  by unfold_locales (simp_all add: nes_typed_def operands_ok_def)

text \<open>
  The registers of the picture unit that keep its array indices in range: the mirroring distance is
  one of the two that \<open>ppu_set_mirroring\<close> gives for a bit, and the address map stays in the array.
\<close>

definition bus_ok :: "nes \<Rightarrow> bool" where
  "bus_ok s = (mirroring_xor (ppu s) \<in> {0x400, 0x800} \<and>
     (\<forall>a < 0x4000. unat (ppu_ram_map s a) < 0x4000))"

definition safe :: "nes \<Rightarrow> bool" where
  "safe s = (bus_ok s \<and> \<not> oob s)"

lemma safe_updates [nes_safe]:
  "safe (s\<lparr>CPU_RAM := f1\<rparr>) = safe s"
  "safe (s\<lparr>mmc_memory := f2\<rparr>) = safe s"
  "safe (s\<lparr>prev_write := v1\<rparr>) = safe s"
  "safe (s\<lparr>psg_p := v2\<rparr>) = safe s"
  "safe (s\<lparr>PPU_SPRRAM := f3\<rparr>) = safe s"
  "safe (s\<lparr>PPU_RAM := f4\<rparr>) = safe s"
  "safe (s\<lparr>ppu_2007_first_read := v3\<rparr>) = safe s"
  "safe (s\<lparr>ppu_addr_latch := v4\<rparr>) = safe s"
  "safe (s\<lparr>ppu_latch := v5\<rparr>) = safe s"
  "safe (s\<lparr>op_code := v6\<rparr>) = safe s"
  "safe (s\<lparr>op_value := v7\<rparr>) = safe s"
  "safe (s\<lparr>op_address := v8\<rparr>) = safe s"
  "safe (s\<lparr>op_cycles := v9\<rparr>) = safe s"
  "safe (s\<lparr>cpu_cycles := v10\<rparr>) = safe s"
  "safe (s\<lparr>key_state := f5\<rparr>) = safe s"
  "safe (upd_cpu f s) = safe s"
  by (simp_all add: safe_def bus_ok_def upd_cpu_def)

lemma safe_upd_ppu [nes_safe]:
  "(\<And>p. mirroring_xor (f p) = mirroring_xor p) \<Longrightarrow> safe (upd_ppu f s) = safe s"
  by (simp add: safe_def bus_ok_def upd_ppu_def)

lemma safe_in_bounds [nes_safe]: "safe s \<Longrightarrow> b \<Longrightarrow> safe (in_bounds b s)"
  by (simp add: in_bounds_def)

lemma ppu_ram_ok_safe: "safe s \<Longrightarrow> unat a < 0x4000 \<Longrightarrow> ppu_ram_ok a s"
  by (simp add: ppu_ram_ok_def safe_def bus_ok_def)

lemma unat_and_le: "unat ((a::('a::len) word) AND b) \<le> unat b"
proof -
  have "a AND b \<le> b" by (rule word_and_le1)
  then show ?thesis by (simp only: word_le_nat_alt)
qed

lemma unat_less_uint: "unat (w::('a::len) word) < n \<longleftrightarrow> uint w < int n"
  by (metis of_nat_less_iff of_nat_unat)

lemma masked_address: "unat ((a::u16) AND 0x3FFF) < 0x4000"
  by (rule le_less_trans [OF unat_and_le]) simp

text \<open>The mirrored address stays below \<open>0x4000\<close>.\<close>

lemma mirrored_address:
  assumes "unat (a::u16) < 0x4000" "x \<in> {0x400, 0x800::int}"
  shows "unat (word_of_int (uint a XOR x) :: u16) < 0x4000"
proof -
  have a: "0 \<le> uint a" "uint a < 2 ^ 14" using assms(1) by (simp_all add: unat_less_uint)
  have x: "0 \<le> x" "x < 2 ^ 14" using assms(2) by auto
  have y: "0 \<le> uint a XOR x" "uint a XOR x < 2 ^ 14"
    using XOR_lower [OF a(1) x(1)] XOR_upper [OF a x(2)] by (simp_all only:)
  then have "uint (word_of_int (uint a XOR x) :: u16) = uint a XOR x"
    by (simp add: uint_word_of_int)
  with y(2) show ?thesis by (simp only: unat_less_uint) simp
qed

lemma safe_ppu_ram_write [nes_safe]:
  "safe s \<Longrightarrow> unat a < 0x4000 \<Longrightarrow> safe (ppu_ram_write a v s)"
  by (simp add: ppu_ram_write_def nes_safe ppu_ram_ok_safe)

lemma safe_ppu_data_write [nes_safe]:
  assumes "safe s" "unat (PPUADDR (ppu s)) < 0x4000"
  shows "safe (ppu_data_write v s)"
proof -
  have "mirroring_xor (ppu s) \<in> {0x400, 0x800}" using assms(1) by (simp add: safe_def bus_ok_def)
  from mirrored_address [OF assms(2) this] assms show ?thesis
    by (simp add: ppu_data_write_def Let_def safe_ppu_ram_write)
qed

lemma safe_status [nes_safe]:
  "safe (ppu_set_in_vblank b s) = safe s"
  "safe (ppu_set_sprite_0_hit b s) = safe s"
  "safe (ppu_set_sprite_overflow b s) = safe s"
  by (simp_all add: ppu_set_in_vblank_def ppu_set_sprite_0_hit_def ppu_set_sprite_overflow_def
      set_status_bit_def nes_safe)

lemma ppuaddr_masked:
  "unat (PPUADDR (ppu (upd_ppu (\<lambda>p. p\<lparr>PPUADDR := PPUADDR p AND 0x3FFF\<rparr>) s))) < 0x4000"
  by (simp add: upd_ppu_def masked_address)

lemma safe_ppu_io_read [nes_safe]: "safe s \<Longrightarrow> safe (snd (ppu_io_read a s))"
  by (simp add: ppu_io_read_def Let_def nes_safe ppu_ram_ok_safe ppuaddr_masked)

lemma safe_ppu_io_write [nes_safe]: "safe s \<Longrightarrow> safe (ppu_io_write a v s)"
  by (simp add: ppu_io_write_def Let_def nes_safe ppuaddr_masked)

lemma fold_safe:
  assumes "\<And>x s. safe s \<Longrightarrow> safe (f x s)" "safe s"
  shows "safe (fold f xs s)"
  using assms by (induction xs arbitrary: s) simp_all

lemma safe_dma_transfer [nes_safe]: "safe s \<Longrightarrow> safe (dma_transfer v s)"
  unfolding dma_transfer_def
  by (rule fold_safe) (simp_all add: ppu_sprram_write_def nes_safe)

lemma safe_memory_readb [nes_safe]: "safe s \<Longrightarrow> safe (snd (memory_readb a s))"
  by (simp add: memory_readb_def psg_io_read_def Let_def nes_safe)

lemma safe_memory_writeb [nes_safe]: "safe s \<Longrightarrow> safe (memory_writeb a v s)"
  by (simp add: memory_writeb_def psg_io_write_def cpu_ram_write_def mmc_write_def Let_def nes_safe)

interpretation bus: nes_invariant safe
  by unfold_locales (simp_all add: nes_safe)

end
