(* ===== verification/Nes_Exec.thy ===== *)
theory Nes_Exec imports Nes_Inv begin

text \<open>
  LiteNES: the properties of the execution loop -- types of the operands, accesses within the
  arrays, termination -- and of the subroutine instructions.
\<close>

section \<open>Cycles\<close>

text \<open>Every entry of the tables takes at least one cycle, and the addressing modes only add cycles.\<close>

lemma table_cycles:
  assumes "(opc, c, h, nm, m, b) \<in> set cpu_op_table"
  shows "0 < c"
proof -
  have "list_all (\<lambda>(opc, c, h, nm, m, b). 0 < c) cpu_op_table"
    by (simp add: cpu_op_table_def base_instruction_set_def extended_instruction_set_def
        not_implemented_instructions_def)
  with assms show ?thesis by (fastforce simp: list_all_iff)
qed

lemma op_lookup_FF: "op_lookup 0xFF \<noteq> None"
  by (simp add: op_lookup_def cpu_op_table_def base_instruction_set_def extended_instruction_set_def
      not_implemented_instructions_def)

lemma ppu_read_FF: "fst (memory_readb 0x2000 s) = 0xFF"
  by (simp add: memory_readb_def ppu_io_read_def Let_def)

definition opcode_at :: "nes \<Rightarrow> u8" where
  "opcode_at s = fst (memory_readb (rPC (cpu s)) (pc_plus 1 s))"

lemma step_listed:
  assumes "op_lookup (opcode_at s) \<noteq> None"
  shows "0 < fst (cpu_step s)"
proof -
  obtain c h nm m b where e: "op_lookup (opcode_at s) = Some (c, h, nm, m, b)"
    using assms by (cases "op_lookup (opcode_at s)") auto
  then have "0 < c" by (auto simp: op_lookup_def dest: map_of_SomeD table_cycles)
  with e show ?thesis by (simp add: cpu_step_def opcode_at_def case_prod_beta Let_def)
qed

lemma step_unlisted:
  assumes "op_lookup (opcode_at s) = None"
  shows "rPC (cpu (snd (cpu_step s))) = rPC (cpu s) + 1"
  using assms
  by (simp add: cpu_step_def opcode_at_def case_prod_beta Let_def pc_plus_def)

section \<open>Termination\<close>

text \<open>
  An opcode without an entry takes no cycles, so the budget alone does not bound the loop; but the
  program counter moves on, and at \<open>0x2000\<close> the picture unit answers \<open>0xFF\<close>, which has an entry.
\<close>

definition fetch_distance :: "nes \<Rightarrow> nat" where
  "fetch_distance s = unat (0x2000 - rPC (cpu s))"

lemma unat_pred_less: "(x::u16) \<noteq> 0 \<Longrightarrow> unat (x - 1) < unat x"
  by (simp add: unat_minus_one unat_gt_0)

lemma distance_step:
  assumes "op_lookup (opcode_at s) = None"
  shows "fetch_distance (snd (cpu_step s)) < fetch_distance s"
proof -
  have "rPC (cpu s) \<noteq> 0x2000"
    using assms op_lookup_FF by (auto simp: opcode_at_def ppu_read_FF)
  then have "unat (0x2000 - rPC (cpu s) - 1) < unat (0x2000 - rPC (cpu s))"
    by (intro unat_pred_less) simp
  moreover have "0x2000 - rPC (cpu s) - 1 = 0x2000 - (rPC (cpu s) + 1)" by (simp only: diff_diff_eq)
  ultimately show ?thesis by (simp only: fetch_distance_def step_unlisted [OF assms])
qed

lemma cpu_run_total: "\<exists>s'. cpu_run cycles s = Some s'"
proof (induction "(nat cycles, fetch_distance s)" arbitrary: cycles s
    rule: wf_induct_rule [OF wf_lex_prod [OF wf_less_than wf_less_than]])
  case (1 cycles s)
  show ?case
  proof (cases "cycles > 0")
    case True
    obtain used s1 where st: "cpu_step s = (used, s1)" by (cases "cpu_step s")
    have "((nat (cycles - int used), fetch_distance s1), nat cycles, fetch_distance s)
      \<in> less_than <*lex*> less_than"
    proof (cases "op_lookup (opcode_at s) = None")
      case True
      from distance_step [OF this] st show ?thesis by auto
    next
      case False
      from step_listed [OF this] st \<open>cycles > 0\<close> show ?thesis by simp
    qed
    from 1 [OF this] st True show ?thesis by (subst cpu_run.simps) simp
  next
    case False
    then show ?thesis by (subst cpu_run.simps) simp
  qed
qed

lemma fce_scanlines_total: "\<exists>s'. fce_scanlines n s = Some s'"
proof (induction n arbitrary: s)
  case (Suc n)
  obtain s1 where "cpu_run 113 (ppu_run 1 s) = Some s1" using cpu_run_total by blast
  with Suc show ?case by simp
qed simp

lemma fce_frames_total: "\<exists>s'. fce_frames keys s = Some s'"
proof (induction keys arbitrary: s)
  case (Cons key keys)
  obtain s1 where "fce_scanlines 262 s = Some s1" using fce_scanlines_total by blast
  with Cons show ?case by (simp add: fce_frame_def)
qed simp

text \<open>
  C25. The frame loop never hangs inside a frame: for every list of keys and every state, \<open>fce_run\<close>
  finishes all the frames, although opcodes without an entry take no cycles off the budget.
\<close>

theorem fce_run_returns: "\<exists>s'. fce_run keys s = Some s'"
  by (simp add: fce_run_def fce_frames_total)

section \<open>Invariants of a run\<close>

context nes_invariant begin

lemma I_cpu_run:
  assumes "cpu_run cycles s = Some s'" "I s"
  shows "I s'"
proof -
  have "I s \<longrightarrow> I s'"
  proof (rule cpu_run.raw_induct [where P = "\<lambda>_ s s'. I s \<longrightarrow> I s'", OF _ assms(1)])
    fix f cycles s s'
    assume IH: "\<And>cycles s s'. f cycles s = Some s' \<Longrightarrow> I s \<longrightarrow> I s'"
      and run: "(if 0 < cycles then let (used, s1) = cpu_step s in f (cycles - int used) s1 else Some s) = Some s'"
    show "I s \<longrightarrow> I s'"
      using IH run I_step [of s] by (cases "0 < cycles") (auto simp: case_prod_beta)
  qed
  with assms(2) show ?thesis by simp
qed

end

section \<open>Initialisation and drawing\<close>

lemma palette_address_range: "unat (0x3F00 OR (a AND 0x1F) :: u16) < 0x4000"
proof -
  have "uint (a AND 0x1F) \<le> 0x1F"
    using unat_and_le [of "0x1F :: u16"] word_and_le1 [of a "0x1F"] by (simp add: word_le_def)
  then have "(0x3F00 :: int) OR uint (a AND 0x1F) < 2 ^ 14"
    by (intro OR_upper) simp_all
  then show ?thesis by (simp add: unat_less_uint uint_or)
qed

lemma ppu_ram_map_range:
  assumes "x < 0x4000"
  shows "unat (ppu_get_real_ram_address (of_nat x)) < 0x4000"
proof -
  have x: "unat (of_nat x :: u16) = x" using assms by (simp add: unat_of_nat)
  have sub: "unat (a - 0x10) < 0x4000" if "a \<in> {0x3F10, 0x3F14, 0x3F18, 0x3F1C}" for a :: u16
    using that by auto
  show ?thesis
    using assms x palette_address_range [of "of_nat x"] sub
    by (auto simp: ppu_get_real_ram_address_def Let_def word_less_nat_alt)
qed

lemma ppu_set_mirroring_range: "mirroring_xor (ppu (ppu_set_mirroring (ucast (v AND 1)) s)) \<in> {0x400, 0x800}" for v :: u16
  by (cases "odd v") (simp_all add: and_one_eq mod_2_eq_odd ppu_set_mirroring_def upd_ppu_def)

lemma bus_ok_readb: "bus_ok (snd (memory_readb a s)) = bus_ok s"
  by (simp add: bus_ok_def memory_readb_def psg_io_read_def ppu_io_read_def Let_def upd_ppu_def
      in_bounds_def ppu_set_in_vblank_def ppu_set_sprite_0_hit_def set_status_bit_def)

lemma fce_init_bus_ok: "bus_ok (fce_init s)"
proof -
  define s1 where "s1 = ppu_init (cpu_init s)"
  define s2 where "s2 = ppu_set_mirroring (ucast (fce_rom_type s AND 1)) s1"
  have "ppu_ram_map s2 = (\<lambda>x. if x < 0x4000 then ppu_get_real_ram_address (of_nat x) else ppu_ram_map s x)"
    by (simp add: s2_def s1_def ppu_set_mirroring_def ppu_init_def table_init_def upd_ppu_def
        cpu_init_def upd_cpu_def fun_eq_iff)
  then have "bus_ok s2"
    using ppu_set_mirroring_range [of "fce_rom_type s" s1] ppu_ram_map_range
    by (simp add: bus_ok_def s2_def)
  moreover have "bus_ok (upd_cpu f t) = bus_ok t" for f t by (simp add: bus_ok_def upd_cpu_def)
  ultimately show ?thesis
    by (simp add: fce_init_def cpu_reset_def cpu_reset_interrupt_address_def memory_readw_def
        case_prod_beta bus_ok_readb s1_def s2_def)
qed

text \<open>Drawing touches neither the processor nor its operands.\<close>

lemma core_draw: "core (draw c r i s) = core s"
  by (simp add: draw_def core_in_bounds) (simp add: core_def)

lemma core_draw_tile_row: "core (draw_tile_row b r p h l s) = core s"
  unfolding draw_tile_row_def by (rule fold_keeps) (simp add: Let_def core_draw)

lemma core_background_store: "core (background_store n c h l s) = core s"
  by (simp add: background_store_def Let_def core_in_bounds) (simp add: core_def)

lemma core_background_tile: "core (snd (snd (snd (background_tile m x st)))) = core (snd (snd (snd st)))"
  by (cases st) (simp add: background_tile_def Let_def core_background_store core_draw_tile_row
      core_in_bounds case_prod_beta)

lemma core_background: "core (ppu_draw_background_scanline m s) = core s"
proof -
  have "core (snd (snd (snd (fold (background_tile m) xs st)))) = core (snd (snd (snd st)))" for xs st
    using fold_keeps [of "\<lambda>st. core (snd (snd (snd st)))" "background_tile m" xs st]
    by (simp add: core_background_tile)
  then show ?thesis by (simp add: ppu_draw_background_scanline_def Let_def case_prod_beta)
qed

lemma core_hit: "core (s\<lparr>ppu_sprite_hit_occured := b\<rparr>) = core s"
  by (simp add: core_def)

lemma core_sprite_pixel: "core (sprite_pixel n l h x s) = core s"
  by (simp add: sprite_pixel_def Let_def core_draw core_in_bounds core_hit core_status)

lemma core_draw_sprite: "core (snd (draw_sprite n st)) = core (snd st)"
proof -
  have "core (fold (sprite_pixel n l h) xs s) = core s" for l h xs s
    by (rule fold_keeps) (simp add: core_sprite_pixel)
  then show ?thesis
    by (cases st) (simp add: draw_sprite_def Let_def core_in_bounds ppu_set_sprite_overflow_def
        set_status_bit_def core_upd_ppu)
qed

lemma core_sprites: "core (ppu_draw_sprite_scanline s) = core s"
  unfolding ppu_draw_sprite_scanline_def
  using fold_keeps [of "\<lambda>st. core (snd st)" "\<lambda>k. draw_sprite (4 * k)" "[0..<64]" "(0, s)"]
  by (simp add: core_draw_sprite)

lemma core_update_screen: "core (fce_update_screen s) = core s"
proof -
  have "core (fold screen_line xs s) = core s" for xs s
    by (rule fold_keeps) (simp add: screen_line_def Let_def core_in_bounds, simp add: core_def)
  moreover have "core (t\<lparr>frame_cnt := n\<rparr>) = core t" "core (t\<lparr>screen := o1, canvas := c\<rparr>) = core t" for t n o1 c
    by (simp_all add: core_def)
  ultimately show ?thesis by (simp add: fce_update_screen_def Let_def core_in_bounds)
qed

lemma core_typed: "core s' = core s \<Longrightarrow> nes_typed s' = nes_typed s"
  by (simp add: core_def nes_typed_def)

context nes_invariant begin

lemma I_interrupt: "I s \<Longrightarrow> I (cpu_interrupt s)"
  by (simp add: cpu_interrupt_def cpu_helper_defs Let_def case_prod_beta I_simps)

lemma I_reset: "I s \<Longrightarrow> I (cpu_reset s)"
  by (simp add: cpu_reset_def cpu_helper_defs case_prod_beta I_simps)

end

lemma typed_ppu_cycle: "nes_typed s \<Longrightarrow> nes_typed (ppu_cycle s)"
  by (simp add: ppu_cycle_def Let_def upd_scanline_def typed.I_interrupt core_hit
      core_typed [OF core_status(1)] core_typed [OF core_status(2)] core_typed [OF core_upd_ppu]
      core_typed [OF core_background] core_typed [OF core_sprites] core_typed [OF core_update_screen]
      core_typed [OF core_hit])

lemma typed_ppu_run: "nes_typed s \<Longrightarrow> nes_typed (ppu_run n s)"
  unfolding ppu_run_def by (induction n) (simp_all add: typed_ppu_cycle)

lemma typed_handle_key: "nes_typed (handle_key k s) = nes_typed s"
  by (simp add: handle_key_def Let_def core_typed [OF core_in_bounds]) (simp add: nes_typed_def)

lemma typed_scanlines: "fce_scanlines n s = Some s' \<Longrightarrow> nes_typed s \<Longrightarrow> nes_typed s'"
proof (induction n arbitrary: s)
  case (Suc n)
  from Suc.prems(1) obtain s1 where "cpu_run (1364 div 12) (ppu_run 1 s) = Some s1" "fce_scanlines n s1 = Some s'"
    by (auto split: option.splits)
  with Suc show ?case using typed.I_cpu_run typed_ppu_run by blast
qed simp

lemma typed_frames: "fce_frames keys s = Some s' \<Longrightarrow> nes_typed s \<Longrightarrow> nes_typed s'"
proof (induction keys arbitrary: s)
  case (Cons k keys)
  then obtain s1 where "fce_scanlines 262 s = Some s1" "fce_frames keys (handle_key k s1) = Some s'"
    by (auto simp: fce_frame_def split: option.splits)
  with Cons show ?case using typed_scanlines typed_handle_key by blast
qed simp

lemma core_copies:
  "core (mmc_copy a b n s) = core s" "core (ppu_copy a b n s) = core s"
  "core (mmc_append_chr_rom_page b s) = core s"
  by (simp_all add: mmc_copy_def ppu_copy_def mmc_append_chr_rom_page_def Let_def core_in_bounds)
    (simp_all add: core_def)

lemma core_load_chr_page: "core (snd (load_chr_page i st)) = core (snd st)"
  by (cases st) (simp add: load_chr_page_def case_prod_beta Let_def core_copies)

lemma core_load_rom: "core (snd (fce_load_rom rom s)) = core s"
proof -
  have "core (snd (fold load_chr_page xs st)) = core (snd st)" for xs st
    using fold_keeps [of "\<lambda>st. core (snd st)" load_chr_page xs st] by (simp add: core_load_chr_page)
  moreover have "core (t\<lparr>fce_rom_type := r\<rparr>) = core t" "core (t\<lparr>mmc_id := i\<rparr>) = core t" for t r i
    by (simp_all add: core_def)
  ultimately show ?thesis
    by (simp add: fce_load_rom_def Let_def case_prod_beta core_in_bounds core_copies romread_def)
qed

lemma typed_fce_init: "nes_typed s \<Longrightarrow> nes_typed (fce_init s)"
proof -
  have "core (table_init t) = core t" "core (t\<lparr>ppu_2007_first_read := b\<rparr>) = core t" for t b
    by (simp_all add: table_init_def core_def)
  then have "nes_typed (ppu_init t) = nes_typed t" for t
    by (intro core_typed) (simp add: ppu_init_def core_upd_ppu)
  moreover have "nes_typed (ppu_set_mirroring m t) = nes_typed t" for m t
    by (simp add: ppu_set_mirroring_def core_typed [OF core_upd_ppu])
  ultimately show "nes_typed s \<Longrightarrow> nes_typed (fce_init s)"
    by (simp add: fce_init_def typed.I_reset cpu_init_def typed.I_upd_cpu)
qed

text \<open>
  C26. The operand variables always hold what their C types and the tables need: for every screen,
  every cartridge file and every list of keys, \<open>main\<close> runs through the frames, and at their end
  \<open>op_value\<close> is a byte (so the flag table is never indexed outside) and \<open>op_address\<close> is between
  -256 and 0x100FE (so no \<open>int\<close> operation on it overflows).
\<close>

theorem operands_in_range:
  "\<exists>s. fce_main w h rom keys = Some s \<and> 0 \<le> op_value s \<and> op_value s < 0x100 \<and>
     - 0x100 \<le> op_address s \<and> op_address s < 0x100FF"
proof -
  define s0 where "s0 = fce_init (snd (fce_load_rom rom (xmap_init (nes_start w h))))"
  obtain s where s: "fce_run keys s0 = Some s" using fce_frames_total by (auto simp: fce_run_def)
  have "nes_typed (nes_start w h)" by (simp add: nes_typed_def operands_ok_def nes_start_def)
  moreover have "core (xmap_init t) = core t" for t
    by (simp add: xmap_init_def Let_def core_in_bounds) (simp add: core_def)
  then have "nes_typed (xmap_init t) = nes_typed t" for t by (rule core_typed)
  ultimately have "nes_typed s0"
    by (simp add: s0_def typed_fce_init core_typed [OF core_load_rom])
  then have "nes_typed (s0\<lparr>key_state := f\<rparr>)" for f by (simp add: nes_typed_def)
  with s have "nes_typed s" using typed_frames by (auto simp: fce_run_def)
  with s show ?thesis by (simp add: fce_main_def s0_def nes_typed_def operands_ok_def)
qed



section \<open>Rows behind the canvas\<close>

text \<open>
  \<open>ppu_cycle\<close> draws line \<open>n\<close> into row \<open>n + 1\<close> for every line up to 262, but the canvas has 257 rows: on
  the lines 256 to 262 the first visible pixel of a tile is written behind it.
\<close>

lemma oob_draw: "oob s \<Longrightarrow> oob (draw c r i s)"
  by (simp add: draw_def in_bounds_def)

lemma background_overflows_canvas:
  assumes "257 \<le> r" "\<exists>x<8. XHL s x (unat h) (unat l) \<noteq> 0"
  shows "oob (draw_tile_row b r p h l s)"
proof -
  define f where "f = (\<lambda>x s1. let color = XHL s1 x (unat h) (unat l)
     in if color \<noteq> 0 then draw (b + int x) r (ppu_ram_read (p + ucast color) s1) s1 else s1)"
  have keep: "XHL (f x t) = XHL t" "oob t \<Longrightarrow> oob (f x t)" for x t
    by (simp_all add: f_def Let_def draw_def in_bounds_def)
  have hit: "oob (f x t)" if "XHL t x (unat h) (unat l) \<noteq> 0" for x t
    using that assms(1) by (simp add: f_def Let_def draw_def in_bounds_def)
  have "\<exists>x\<in>set xs. XHL t x (unat h) (unat l) \<noteq> 0 \<Longrightarrow> oob (fold f xs t)"
    "oob t \<Longrightarrow> oob (fold f xs t)" for xs t
    by (induction xs arbitrary: t) (auto simp: keep(2) hit, metis keep(1))
  moreover have "\<exists>x\<in>set [0..<8]. XHL s x (unat h) (unat l) \<noteq> 0" using assms(2) by auto
  ultimately show ?thesis unfolding draw_tile_row_def f_def by blast
qed

end
