(* ===== verification/Typing.thy ===== *)
theory Typing imports C_Base Klib_Rand Input begin

text \<open>
  The typing game of \<open>apps/typing\<close>: letters fall from the top of the screen, typing one sends it back up
  and out. The letters are nodes of a doubly linked list taken from a static pool of the macro
  \<open>LINKLIST_IMPL\<close> in \<open>game.h\<close>; pointers are positions in that pool. The times \<open>uptime\<close> gives and the
  codes \<open>read_key\<close> gives are arguments of a frame, the font of \<open>font.c\<close> is a parameter. A traversal of the list
  takes a bound on its length; running out of it would be a list with a cycle, \<open>Hang\<close>.
\<close>

section \<open>State\<close>

definition HZ :: nat where "HZ = 100"
definition FPS :: nat where "FPS = 30"
definition CHARACTER_PER_SECOND :: nat where "CHARACTER_PER_SECOND = 10"
definition UPDATE_PER_SECOND :: nat where "UPDATE_PER_SECOND = 100"
definition W :: int where "W = 320"
definition H :: int where "H = 200"

text \<open>The second argument of \<open>LINKLIST_IMPL(fly, 1000)\<close>; the pool has one element more.\<close>

definition POOL :: nat where "POOL = 1000"

record fly =
  fl_x :: int
  fl_y :: int
  fl_text :: nat
  fl_v :: int
  fl_prev :: "nat option"
  fl_next :: "nat option"

record typing =
  fly_pool :: "nat \<Rightarrow> fly"
  fly_free_head :: "nat option"
  head :: "nat option"
  hit :: nat
  miss :: nat
  letter_pressed :: "nat \<Rightarrow> bool"
  key_code :: nat
  rnd :: u32
  canvas :: "int \<times> int \<Rightarrow> u32"
  shown :: "int \<times> int \<times> (int \<times> int \<Rightarrow> u32)"
  real_fps :: nat
  num_draw :: nat
  frames :: nat
  next_frame :: nat
  next_refresh :: nat

definition upd_fly :: "nat \<Rightarrow> (fly \<Rightarrow> fly) \<Rightarrow> typing \<Rightarrow> typing" where
  "upd_fly p f s = s\<lparr>fly_pool := (fly_pool s)(p := f (fly_pool s p))\<rparr>"

section \<open>The list\<close>

definition fly_new :: "typing \<Rightarrow> nat \<times> typing" where
  "fly_new s =
     (let (free_head, s1) = (case fly_free_head s of
            Some p \<Rightarrow> (p, s)
          | None \<Rightarrow> (0, fold (\<lambda>i. upd_fly (i - 1) (\<lambda>n. n\<lparr>fl_next := Some i\<rparr>)) [1..<POOL + 1] s));
          s2 = s1\<lparr>fly_free_head := fl_next (fly_pool s1 free_head)\<rparr>
      in (free_head, upd_fly free_head (\<lambda>n. n\<lparr>fl_next := None, fl_prev := None\<rparr>) s2))"

definition fly_insert :: "nat option \<Rightarrow> nat option \<Rightarrow> nat \<Rightarrow> typing \<Rightarrow> typing" where
  "fly_insert prev nxt obj s =
     (let s1 = upd_fly obj (\<lambda>n. n\<lparr>fl_prev := prev, fl_next := nxt\<rparr>) s;
          s2 = (case prev of None \<Rightarrow> s1 | Some p \<Rightarrow> upd_fly p (\<lambda>n. n\<lparr>fl_next := Some obj\<rparr>) s1)
      in case nxt of None \<Rightarrow> s2 | Some q \<Rightarrow> upd_fly q (\<lambda>n. n\<lparr>fl_prev := Some obj\<rparr>) s2)"

definition fly_remove :: "nat \<Rightarrow> typing \<Rightarrow> typing" where
  "fly_remove node s =
     (let prev = fl_prev (fly_pool s node); nxt = fl_next (fly_pool s node);
          s1 = (case prev of None \<Rightarrow> s | Some p \<Rightarrow> upd_fly p (\<lambda>n. n\<lparr>fl_next := nxt\<rparr>) s)
      in case nxt of None \<Rightarrow> s1 | Some q \<Rightarrow> upd_fly q (\<lambda>n. n\<lparr>fl_prev := prev\<rparr>) s1)"

definition fly_free :: "nat \<Rightarrow> typing \<Rightarrow> typing" where
  "fly_free node s = (upd_fly node (\<lambda>n. n\<lparr>fl_next := fly_free_head s\<rparr>) s)\<lparr>fly_free_head := Some node\<rparr>"

section \<open>Keys\<close>

definition letter_code :: "nat \<Rightarrow> nat" where
  "letter_code i = length (takeWhile (\<lambda>k. k \<noteq> [char_of (i + 65)]) KEYS)"

definition press_key :: "nat \<Rightarrow> typing \<Rightarrow> typing" where
  "press_key scan_code s =
     fold (\<lambda>i s. if letter_code i = scan_code then s\<lparr>letter_pressed := (letter_pressed s)(i := True)\<rparr> else s) [0..<26] s"

definition release_key :: "nat \<Rightarrow> typing \<Rightarrow> typing" where
  "release_key i s = s\<lparr>letter_pressed := (letter_pressed s)(i := False)\<rparr>"

definition KEYDOWN_MASK :: nat where "KEYDOWN_MASK = 0x8000"

text \<open>\<open>keyboard_event\<close> for one code that is not \<open>_KEY_NONE\<close>.\<close>

definition keyboard_event :: "nat \<Rightarrow> typing \<Rightarrow> bool \<times> typing" where
  "keyboard_event keycode s =
     (let key = (if bit keycode 15 then keycode - KEYDOWN_MASK else keycode)
      in if key = 0 then (False, s)
         else if bit keycode 15 then (True, press_key key (s\<lparr>key_code := key\<rparr>))
         else (True, fold (\<lambda>i s. if keycode = letter_code i then release_key i s else s) [0..<26] s))"

text \<open>\<open>while (keyboard_event())\<close> on the codes the device holds; then it gives \<open>_KEY_NONE\<close>.\<close>

fun keyboard_events :: "nat list \<Rightarrow> typing \<Rightarrow> typing" where
  "keyboard_events [] s = s"
| "keyboard_events (k # ks) s = (let (more, s') = keyboard_event k s in if more then keyboard_events ks s' else s')"

section \<open>Rules\<close>

definition create_new_letter :: "typing \<Rightarrow> typing" where
  "create_new_letter s =
     (let (p, s1) = (case head s of
             None \<Rightarrow> fly_new s
           | Some h \<Rightarrow> (let (now, s1) = fly_new s in (now, fly_insert None (head s1) now s1)));
          (r1, n1) = rand (rnd s1); (r2, n2) = rand n1; (r3, n3) = rand n2
      in release_key (r3 mod 26)
           ((upd_fly p (\<lambda>n. n\<lparr>fl_y := 0, fl_x := int (r1 mod (nat W div 8 - 2)) * 8 + 8,
                fl_v := int (r2 mod 1000 div 2000) + 1, fl_text := r3 mod 26\<rparr>) s1)\<lparr>head := Some p, rnd := n3\<rparr>))"

fun update_letter_loop :: "nat \<Rightarrow> nat option \<Rightarrow> typing \<Rightarrow> typing result" where
  "update_letter_loop fuel None s = Inr s"
| "update_letter_loop 0 (Some it) s = Inl Hang"
| "update_letter_loop (Suc fuel) (Some it) s =
     (let nxt = fl_next (fly_pool s it);
          s1 = upd_fly it (\<lambda>n. n\<lparr>fl_y := fl_y n + fl_v n\<rparr>) s;
          y = fl_y (fly_pool s1 it);
          s2 = (if y < 0 \<or> y + 8 > H
                then (let s2 = (if y < 0 then s1\<lparr>hit := hit s1 + 1\<rparr> else s1\<lparr>miss := miss s1 + 1\<rparr>);
                          s3 = fly_free it (fly_remove it s2)
                      in if head s3 = Some it then s3\<lparr>head := nxt\<rparr> else s3)
                else s1)
      in update_letter_loop fuel nxt s2)"

definition update_letter_pos :: "typing \<Rightarrow> typing result" where
  "update_letter_pos s = update_letter_loop (POOL + 1) (head s) s"

fun keypress_loop :: "nat \<Rightarrow> nat option \<Rightarrow> int \<Rightarrow> nat option \<Rightarrow> typing \<Rightarrow> nat option result" where
  "keypress_loop fuel None best target s = Inr target"
| "keypress_loop 0 (Some it) best target s = Inl Hang"
| "keypress_loop (Suc fuel) (Some it) best target s =
     (let n = fly_pool s it
      in if 0 < fl_v n \<and> best < fl_y n \<and> letter_pressed s (fl_text n)
         then keypress_loop fuel (fl_next n) (fl_y n) (Some it) s
         else keypress_loop fuel (fl_next n) best target s)"

definition update_keypress :: "typing \<Rightarrow> (bool \<times> typing) result" where
  "update_keypress s =
     bindr (keypress_loop (POOL + 1) (head s) (-100) None s) (\<lambda>target.
       Inr (case target of
              None \<Rightarrow> (False, s)
            | Some t \<Rightarrow> (True, upd_fly t (\<lambda>n. n\<lparr>fl_v := -3\<rparr>) (release_key (fl_text (fly_pool s t)) s))))"

text \<open>\<open>while (update_keypress())\<close>; every turn releases a key, so 26 turns and the last one are enough.\<close>

fun keypresses :: "nat \<Rightarrow> typing \<Rightarrow> typing result" where
  "keypresses 0 s = Inl Hang"
| "keypresses (Suc n) s =
     bindr (update_keypress s) (\<lambda>(more, s'). if more then keypresses n s' else Inr s')"

section \<open>Drawing\<close>

text \<open>\<open>canvas[y][x]\<close> is the entry at \<open>(y, x)\<close>; \<open>shown\<close> is the position and the pixels of the last \<open>draw_rect\<close>.\<close>

function itoa :: "nat \<Rightarrow> string" where
  "itoa n = (if n div 10 > 0 then itoa (n div 10) @ [char_of (n mod 10 + 48)] else [char_of (n mod 10 + 48)])"
  by pat_completeness auto

termination by (relation "measure id") auto

declare itoa.simps [simp del]

definition put_pixel :: "int \<Rightarrow> int \<Rightarrow> u32 \<Rightarrow> typing \<Rightarrow> typing result" where
  "put_pixel x y color s =
     (if x < W \<and> y < H
      then if x < 0 \<or> y < 0 then Inl BadAccess else Inr (s\<lparr>canvas := (canvas s)((y, x) := color)\<rparr>)
      else Inr s)"

definition draw_character :: "(nat \<Rightarrow> nat \<Rightarrow> u8) \<Rightarrow> char \<Rightarrow> int \<Rightarrow> int \<Rightarrow> u32 \<Rightarrow> typing \<Rightarrow> typing result" where
  "draw_character font ch x y color s =
     fold (\<lambda>(i, j) r. bindr r (\<lambda>s.
         if bit (font (of_char ch) i) j then put_pixel (x + int j) (y + int i) color s else Inr s))
       (List.product [0..<8] [0..<8]) (Inr s)"

fun draw_string :: "(nat \<Rightarrow> nat \<Rightarrow> u8) \<Rightarrow> string \<Rightarrow> int \<Rightarrow> int \<Rightarrow> u32 \<Rightarrow> typing \<Rightarrow> typing result" where
  "draw_string font [] x y color s = Inr s"
| "draw_string font (ch # str) x y color s =
     bindr (draw_character font ch x y color s) (\<lambda>s'.
       if x + 8 \<ge> W then draw_string font str 0 (y + 8) color s'
       else draw_string font str (x + 8) y color s')"

fun draw_letters :: "(nat \<Rightarrow> nat \<Rightarrow> u8) \<Rightarrow> nat \<Rightarrow> nat option \<Rightarrow> typing \<Rightarrow> typing result" where
  "draw_letters font fuel None s = Inr s"
| "draw_letters font 0 (Some it) s = Inl Hang"
| "draw_letters font (Suc fuel) (Some it) s =
     (let n = fly_pool s it
      in bindr (draw_string font [char_of (fl_text n + 65)] (fl_x n) (fl_y n) 0xFFFFFFFF s) (\<lambda>s'.
           draw_letters font fuel (fl_next n) s'))"

definition redraw_screen :: "(nat \<Rightarrow> nat \<Rightarrow> u8) \<Rightarrow> int \<Rightarrow> int \<Rightarrow> typing \<Rightarrow> typing result" where
  "redraw_screen font sw sh s =
     bindr (draw_letters font (POOL + 1) (head s) s) (\<lambda>s.
     bindr (draw_string font (itoa (key_code s)) 0 (H - 8) 0xFFFFFFFF s) (\<lambda>s.
     bindr (let h = itoa (hit s) in draw_string font h (W - int (length h) * 8) 0 0x00FF00 s) (\<lambda>s.
     bindr (let m = itoa (miss s) in draw_string font m (W - int (length m) * 8) (H - 8) 0xFA5858 s) (\<lambda>s.
     bindr (let f = itoa (real_fps s)
            in bindr (draw_string font f 0 0 0xF3F781 s) (draw_string font ''FPS'' (int (length f) * 8) 0 0xF3F781)) (\<lambda>s.
     bindr (assert_that (sw \<ge> W)) (\<lambda>_. bindr (assert_that (sh \<ge> H)) (\<lambda>_.
       Inr (s\<lparr>shown := ((sw - W) div 2, (sh - H) div 2, canvas s),
              canvas := (\<lambda>(y, x). if 0 \<le> y \<and> y < H \<and> 0 \<le> x \<and> x < W then 0x2A0A29 else canvas s (y, x))\<rparr>))))))))"

section \<open>The main loop\<close>

text \<open>
  One turn of the loop of \<open>main\<close>: \<open>time\<close> is the first reading of \<open>uptime\<close> that is not before
  \<open>next_frame\<close>, \<open>keys\<close> the codes the device holds.
\<close>

definition typing_frame ::
  "(nat \<Rightarrow> nat \<Rightarrow> u8) \<Rightarrow> int \<Rightarrow> int \<Rightarrow> nat \<times> nat list \<Rightarrow> typing \<Rightarrow> typing result" where
  "typing_frame font sw sh = (\<lambda>(time, keys) s.
     (let redraw = next_refresh s < time;
          s1 = s\<lparr>frames := frames s + 1,
                 next_refresh := (if redraw then next_refresh s + 1000 div FPS else next_refresh s),
                 next_frame := next_frame s + 1000 div HZ\<rparr>
      in bindr (keypresses 27 (keyboard_events keys s1)) (\<lambda>s2.
         let s3 = (if frames s2 mod (HZ div CHARACTER_PER_SECOND) = 0 then create_new_letter s2 else s2)
         in bindr (if frames s3 mod (HZ div UPDATE_PER_SECOND) = 0 then update_letter_pos s3 else Inr s3) (\<lambda>s4.
            if redraw
            then (let s5 = s4\<lparr>num_draw := num_draw s4 + 1\<rparr>
                  in redraw_screen font sw sh (s5\<lparr>real_fps := num_draw s5 * 1000 div time\<rparr>))
            else Inr s4))))"

fun typing_frames ::
  "(nat \<Rightarrow> nat \<Rightarrow> u8) \<Rightarrow> int \<Rightarrow> int \<Rightarrow> (nat \<times> nat list) list \<Rightarrow> typing \<Rightarrow> typing result" where
  "typing_frames font sw sh [] s = Inr s"
| "typing_frames font sw sh (f # fs) s = bindr (typing_frame font sw sh f s) (typing_frames font sw sh fs)"

definition typing_start :: "u32 \<Rightarrow> typing" where
  "typing_start seed =
     \<lparr>fly_pool = (\<lambda>_. \<lparr>fl_x = 0, fl_y = 0, fl_text = 0, fl_v = 0, fl_prev = None, fl_next = None\<rparr>),
      fly_free_head = None, head = None, hit = 0, miss = 0, letter_pressed = (\<lambda>_. False), key_code = 0,
      rnd = seed, canvas = (\<lambda>_. 0), shown = (0, 0, \<lambda>_. 0), real_fps = 0, num_draw = 0, frames = 0,
      next_frame = 0, next_refresh = 0\<rparr>"

end
