(* ===== verification/Typing_List.thy ===== *)
theory Typing_List imports Typing begin

text \<open>
  The linked list of letters: in memory, doubly linked nodes of the pool and the free list over the
  other nodes; abstractly, a list of letters from the newest to the oldest. Every operation of the
  game on the nodes is an operation on that list.
\<close>

section \<open>Linked nodes\<close>

definition hd_opt :: "'a list \<Rightarrow> 'a option" where
  "hd_opt xs = (case xs of [] \<Rightarrow> None | a # _ \<Rightarrow> Some a)"

definition last_opt :: "'a list \<Rightarrow> 'a option" where
  "last_opt xs = (if xs = [] then None else Some (last xs))"

lemma hd_opt_simps [simp]:
  "hd_opt [] = None" "hd_opt (a # as) = Some a"
  "hd_opt (as @ bs) = (if as = [] then hd_opt bs else hd_opt as)"
  by (auto simp: hd_opt_def split: list.split)

lemma last_opt_simps [simp]:
  "last_opt [] = None" "last_opt (a # as) = (if as = [] then Some a else last_opt as)"
  "last_opt (as @ bs) = (if bs = [] then last_opt as else last_opt bs)"
  by (auto simp: last_opt_def)

lemma hd_opt_in: "hd_opt xs = Some a \<Longrightarrow> a \<in> set xs"
  by (cases xs) auto

lemma last_opt_in: "last_opt xs = Some a \<Longrightarrow> a \<in> set xs"
  by (auto simp: last_opt_def split: if_splits)

definition linked :: "(nat \<Rightarrow> fly) \<Rightarrow> nat list \<Rightarrow> bool" where
  "linked pl xs \<longleftrightarrow> (\<forall>as b cs. xs = as @ b # cs \<longrightarrow> fl_prev (pl b) = last_opt as \<and> fl_next (pl b) = hd_opt cs)"

fun free_chain :: "(nat \<Rightarrow> fly) \<Rightarrow> nat option \<Rightarrow> nat list \<Rightarrow> bool" where
  "free_chain pl p [] \<longleftrightarrow> p = None"
| "free_chain pl p (a # as) \<longleftrightarrow> p = Some a \<and> free_chain pl (fl_next (pl a)) as"

lemma linkedD:
  "linked pl (as @ b # cs) \<Longrightarrow> fl_prev (pl b) = last_opt as"
  "linked pl (as @ b # cs) \<Longrightarrow> fl_next (pl b) = hd_opt cs"
  by (auto simp: linked_def)

lemma linked_cong:
  "(\<And>a. a \<in> set xs \<Longrightarrow> fl_prev (pl' a) = fl_prev (pl a) \<and> fl_next (pl' a) = fl_next (pl a)) \<Longrightarrow>
     linked pl' xs = linked pl xs"
  unfolding linked_def by (metis in_set_conv_decomp)

lemma free_chain_cong:
  "(\<And>a. a \<in> set xs \<Longrightarrow> fl_next (pl' a) = fl_next (pl a)) \<Longrightarrow> free_chain pl' p xs = free_chain pl p xs"
  by (induction xs arbitrary: p) auto

text \<open>Unlinking a node, and putting one in front.\<close>

definition unlink :: "nat option \<Rightarrow> nat option \<Rightarrow> (nat \<Rightarrow> fly) \<Rightarrow> nat \<Rightarrow> fly" where
  "unlink prev nxt pl = (\<lambda>a. (pl a)
     \<lparr>fl_next := (if prev = Some a then nxt else fl_next (pl a)),
      fl_prev := (if nxt = Some a then prev else fl_prev (pl a))\<rparr>)"

lemma linked_unlink:
  assumes "linked pl (as @ b # cs)" and "distinct (as @ b # cs)"
  shows "linked (unlink (last_opt as) (hd_opt cs) pl) (as @ cs)"
  unfolding linked_def
proof (intro allI impI)
  fix us c ws assume eq: "as @ cs = us @ c # ws"
  let ?pl = "unlink (last_opt as) (hd_opt cs) pl"
  from eq consider (left) v where "as = us @ c # v" "ws = v @ cs" | (right) v where "us = as @ v" "cs = v @ c # ws"
    by (auto simp: append_eq_append_conv2 append_eq_Cons_conv Cons_eq_append_conv)
  then show "fl_prev (?pl c) = last_opt us \<and> fl_next (?pl c) = hd_opt ws"
  proof cases
    case left
    have old: "fl_prev (pl c) = last_opt us" "fl_next (pl c) = hd_opt (v @ b # cs)"
      using assms(1) left linkedD [of pl us c "v @ b # cs"] by simp_all
    have "hd_opt cs \<noteq> Some c" using assms(2) left hd_opt_in [of cs c] by auto
    moreover have "last_opt as = Some c \<longleftrightarrow> v = []"
      using assms(2) left last_opt_in [of v c] by auto
    ultimately show ?thesis using old left by (cases "v = []") (simp_all add: unlink_def)
  next
    case right
    have old: "fl_prev (pl c) = last_opt (as @ b # v)" "fl_next (pl c) = hd_opt ws"
      using assms(1) linkedD [of pl "as @ b # v" c ws] right by simp_all
    have "last_opt as \<noteq> Some c" using assms(2) right last_opt_in [of as c] by auto
    moreover have "hd_opt cs = Some c \<longleftrightarrow> v = []" using assms(2) right hd_opt_in [of v c] by auto
    ultimately show ?thesis using old right by (cases "v = []") (simp_all add: unlink_def)
  qed
qed

lemma linked_front:
  assumes "linked pl xs" and "p \<notin> set xs" and "distinct xs"
    and "fl_prev (pl' p) = None" and "fl_next (pl' p) = hd_opt xs"
    and "\<And>a. a \<in> set xs \<Longrightarrow> fl_next (pl' a) = fl_next (pl a)"
    and "\<And>a. a \<in> set xs \<Longrightarrow> fl_prev (pl' a) = (if hd_opt xs = Some a then Some p else fl_prev (pl a))"
  shows "linked pl' (p # xs)"
  unfolding linked_def
proof (intro allI impI)
  fix us c ws assume eq: "p # xs = us @ c # ws"
  show "fl_prev (pl' c) = last_opt us \<and> fl_next (pl' c) = hd_opt ws"
  proof (cases us)
    case Nil
    then show ?thesis using eq assms(4,5) by auto
  next
    case (Cons u vs)
    then have xs: "xs = vs @ c # ws" "u = p" using eq by auto
    have "hd_opt xs = Some c \<longleftrightarrow> vs = []" using xs assms(3) hd_opt_in [of vs c] by auto
    then show ?thesis
      using assms(6,7) [of c] linkedD [of pl vs c ws] assms(1) xs Cons by simp
  qed
qed

section \<open>The representation\<close>

text \<open>Before the first letter the pool is as the loader left it; afterwards every node is in one of the lists.\<close>

definition typing_rep :: "typing \<Rightarrow> nat list \<Rightarrow> nat list \<Rightarrow> bool" where
  "typing_rep s xs ys \<longleftrightarrow> linked (fly_pool s) xs \<and> head s = hd_opt xs \<and>
     free_chain (fly_pool s) (fly_free_head s) ys \<and> distinct (xs @ ys) \<and>
     (set (xs @ ys) = {..POOL} \<or> xs = [] \<and> ys = [] \<and> fl_next (fly_pool s POOL) = None)"

type_synonym letter = "int \<times> int \<times> nat \<times> int"

definition letter_of :: "fly \<Rightarrow> letter" where
  "letter_of n = (fl_x n, fl_y n, fl_text n, fl_v n)"

definition letters :: "typing \<Rightarrow> nat list \<Rightarrow> letter list" where
  "letters s xs = map (\<lambda>a. letter_of (fly_pool s a)) xs"

lemma typing_rep_length:
  assumes "typing_rep s xs ys"
  shows "length xs \<le> POOL + 1"
proof -
  have "length xs = card (set xs)" using assms by (simp add: typing_rep_def distinct_card)
  also have "\<dots> \<le> card {..POOL}" by (rule card_mono) (use assms in \<open>auto simp: typing_rep_def\<close>)
  finally show ?thesis by simp
qed

text \<open>A change of other fields keeps the representation.\<close>

lemma typing_rep_cong:
  "fly_pool s' = fly_pool s \<Longrightarrow> head s' = head s \<Longrightarrow> fly_free_head s' = fly_free_head s \<Longrightarrow>
     typing_rep s' xs ys = typing_rep s xs ys"
  "fly_pool s' = fly_pool s \<Longrightarrow> letters s' xs = letters s xs"
  by (simp_all add: typing_rep_def letters_def)

lemma fly_remove_unlink:
  "fly_remove a s = s\<lparr>fly_pool := unlink (fl_prev (fly_pool s a)) (fl_next (fly_pool s a)) (fly_pool s)\<rparr>"
  by (cases "fl_prev (fly_pool s a)"; cases "fl_next (fly_pool s a)")
    (auto simp: fly_remove_def upd_fly_def unlink_def Let_def fun_eq_iff intro!: typing.equality)

lemma letter_of_unlink [simp]: "letter_of (unlink p q pl a) = letter_of (pl a)"
  by (simp add: letter_of_def unlink_def)

lemma init_pool:
  "fold (\<lambda>i. upd_fly (i - 1) (\<lambda>n. n\<lparr>fl_next := Some i\<rparr>)) [1..<n + 1] s =
     s\<lparr>fly_pool := (\<lambda>a. if a < n then (fly_pool s a)\<lparr>fl_next := Some (a + 1)\<rparr> else fly_pool s a)\<rparr>"
proof (induction n)
  case (Suc n)
  then show ?case by (auto simp: upd_fly_def fun_eq_iff less_Suc_eq intro!: typing.equality)
qed simp

lemma free_chain_upt:
  "k \<le> N \<Longrightarrow> \<forall>a < N. fl_next (pl a) = Some (a + 1) \<Longrightarrow> fl_next (pl N) = None \<Longrightarrow>
     free_chain pl (Some k) [k..<N + 1]"
proof (induction "N - k" arbitrary: k)
  case (Suc d)
  then have k: "k < N" by simp
  then have "[k..<N + 1] = k # [k + 1..<N + 1]" by (simp add: upt_conv_Cons)
  moreover have "free_chain pl (Some (k + 1)) [k + 1..<N + 1]" using Suc k by (intro Suc.hyps) simp_all
  ultimately show ?case using Suc.prems k by simp
qed simp

text \<open>A node that is not in the list, taken from the free list or from the pool the first time.\<close>

lemma fly_new_node:
  assumes "typing_rep s xs ys" and "length xs \<le> POOL"
  shows "\<exists>p zs pl fh. fly_new s = (p, s\<lparr>fly_pool := pl, fly_free_head := fh\<rparr>) \<and>
    linked pl xs \<and> (\<forall>a \<in> set xs. pl a = fly_pool s a) \<and> free_chain pl fh zs \<and> distinct (p # xs @ zs) \<and>
    set (p # xs @ zs) = {..POOL} \<and> fl_prev (pl p) = None \<and> fl_next (pl p) = None"
proof (cases "set (xs @ ys) = {..POOL}")
  case True
  have "length xs + length ys = POOL + 1"
    using distinct_card [of "xs @ ys"] assms(1) True by (simp add: typing_rep_def)
  then obtain p zs where ys: "ys = p # zs" using assms(2) by (cases ys) auto
  let ?pl = "(fly_pool s)(p := (fly_pool s p)\<lparr>fl_next := None, fl_prev := None\<rparr>)"
  have fc: "fly_free_head s = Some p" "free_chain (fly_pool s) (fl_next (fly_pool s p)) zs"
    using assms(1) ys by (simp_all add: typing_rep_def)
  have d: "distinct (p # xs @ zs)" "set (p # xs @ zs) = {..POOL}"
    using assms(1) True ys by (auto simp: typing_rep_def)
  have "fly_new s = (p, s\<lparr>fly_pool := ?pl, fly_free_head := fl_next (fly_pool s p)\<rparr>)"
    by (simp add: fly_new_def fc Let_def upd_fly_def)
  moreover have "linked ?pl xs"
    using assms(1) d by (subst linked_cong [of _ _ "fly_pool s"]) (auto simp: typing_rep_def)
  moreover have "free_chain ?pl (fl_next (fly_pool s p)) zs"
    using fc d by (subst free_chain_cong [of _ _ "fly_pool s"]) auto
  moreover have "\<forall>a \<in> set xs. ?pl a = fly_pool s a" using d by auto
  ultimately show ?thesis using d by (intro exI [of _ p] exI [of _ zs] exI [of _ ?pl] exI) auto
next
  case False
  then have e: "xs = []" "ys = []" "fl_next (fly_pool s POOL) = None" "fly_free_head s = None"
    using assms(1) by (auto simp: typing_rep_def)
  define pl where "pl = (\<lambda>a. if a < POOL then (fly_pool s a)\<lparr>fl_next := Some (a + 1)\<rparr> else fly_pool s a)"
  let ?pl = "pl(0 := (pl 0)\<lparr>fl_next := None, fl_prev := None\<rparr>)"
  have "fly_new s = (0, s\<lparr>fly_pool := ?pl, fly_free_head := Some 1\<rparr>)"
    unfolding fly_new_def e option.case init_pool pl_def [symmetric]
    by (simp add: Let_def upd_fly_def pl_def POOL_def)
  note new = this
  define zs where "zs = [1..<POOL + 1]"
  have "free_chain pl (Some 1) zs"
    unfolding zs_def by (rule free_chain_upt) (use e in \<open>simp_all add: pl_def POOL_def\<close>)
  moreover have zs: "set zs = {1..POOL}" by (simp only: zs_def set_upt) auto
  ultimately have "free_chain ?pl (Some 1) zs" by (subst free_chain_cong [of zs _ pl]) auto
  moreover have "distinct zs" by (simp only: zs_def distinct_upt)
  then have "distinct (0 # xs @ zs)" "set (0 # xs @ zs) = {..POOL}" using zs by (auto simp: e)
  moreover have "linked ?pl xs" by (simp add: linked_def e)
  ultimately show ?thesis using new
    by (intro exI [of _ 0] exI [of _ zs] exI [of _ ?pl] exI [of _ "Some 1"]) (simp add: e)
qed

section \<open>A new letter\<close>

definition new_letter :: "u32 \<Rightarrow> letter \<times> u32" where
  "new_letter seed =
     (let (r1, n1) = rand seed; (r2, n2) = rand n1; (r3, n3) = rand n2
      in ((int (r1 mod (nat W div 8 - 2)) * 8 + 8, 0, r3 mod 26, int (r2 mod 1000 div 2000) + 1), n3))"

lemma create_refines:
  assumes rep: "typing_rep s xs ys" and room: "length xs \<le> POOL" and new: "new_letter (rnd s) = ((x, y, t, v), n)"
  shows "\<exists>p zs pl fh. create_new_letter s =
      s\<lparr>fly_pool := pl, fly_free_head := fh, head := Some p, rnd := n, letter_pressed := (letter_pressed s)(t := False)\<rparr> \<and>
    typing_rep (create_new_letter s) (p # xs) zs \<and>
    letters (create_new_letter s) (p # xs) = (x, y, t, v) # letters s xs"
proof -
  obtain p zs pl fh where fn: "fly_new s = (p, s\<lparr>fly_pool := pl, fly_free_head := fh\<rparr>)"
    and pl: "linked pl xs" "\<forall>a \<in> set xs. pl a = fly_pool s a" "free_chain pl fh zs" "distinct (p # xs @ zs)"
      "set (p # xs @ zs) = {..POOL}" "fl_prev (pl p) = None" "fl_next (pl p) = None"
    using fly_new_node [OF rep room] by blast
  have head: "head s = hd_opt xs" using rep by (simp add: typing_rep_def)
  let ?put = "\<lambda>n. n\<lparr>fl_y := y, fl_x := x, fl_v := v, fl_text := t\<rparr>"
  define pl' where "pl' = (\<lambda>a. if a = p then ?put ((pl p)\<lparr>fl_next := hd_opt xs\<rparr>)
      else if hd_opt xs = Some a then (pl a)\<lparr>fl_prev := Some p\<rparr> else pl a)"
  have npx: "hd_opt xs \<noteq> Some p" using pl(4) hd_opt_in [of xs p] by auto
  have cre: "create_new_letter s =
      s\<lparr>fly_pool := pl', fly_free_head := fh, head := Some p, rnd := n, letter_pressed := (letter_pressed s)(t := False)\<rparr>"
  proof (cases xs)
    case Nil
    then show ?thesis using new head pl(7) fn
      by (auto simp: create_new_letter_def new_letter_def release_key_def upd_fly_def pl'_def fun_eq_iff
          split: prod.splits intro!: typing.equality)
  next
    case (Cons h hs)
    then show ?thesis using new head pl(6) fn npx
      by (auto simp: create_new_letter_def new_letter_def fly_insert_def release_key_def upd_fly_def pl'_def fun_eq_iff
          split: prod.splits intro!: typing.equality)
  qed
  have "linked pl' (p # xs)"
  proof (rule linked_front [OF pl(1)])
    show "fl_prev (pl' a) = (if hd_opt xs = Some a then Some p else fl_prev (pl a))"
      "fl_next (pl' a) = fl_next (pl a)" if "a \<in> set xs" for a
      using that pl(4) by (auto simp: pl'_def)
  qed (use pl(4,6) in \<open>simp_all add: pl'_def\<close>)
  moreover have "free_chain pl' fh zs"
    using pl(3,4) hd_opt_in [of xs] by (subst free_chain_cong [of zs _ pl]) (auto simp: pl'_def)
  ultimately have "typing_rep (create_new_letter s) (p # xs) zs"
    unfolding cre using pl(4,5) by (simp add: typing_rep_def)
  moreover have "letters (create_new_letter s) (p # xs) = (x, y, t, v) # letters s xs"
    unfolding cre using pl(2,4) by (auto simp: letters_def letter_of_def pl'_def)
  ultimately show ?thesis using cre by blast
qed

section \<open>Moving the letters\<close>

fun fall :: "letter \<Rightarrow> letter" where
  "fall (x, y, t, v) = (x, y + v, t, v)"

fun on_screen :: "letter \<Rightarrow> bool" where
  "on_screen (x, y, t, v) \<longleftrightarrow> 0 \<le> y \<and> y + 8 \<le> H"

fun gone_up :: "letter \<Rightarrow> bool" where
  "gone_up (x, y, t, v) \<longleftrightarrow> y < 0"

definition hits_of :: "letter list \<Rightarrow> nat" where
  "hits_of ls = length (filter gone_up (map fall ls))"

definition misses_of :: "letter list \<Rightarrow> nat" where
  "misses_of ls = length (filter (\<lambda>l. \<not> gone_up l \<and> \<not> on_screen l) (map fall ls))"

text \<open>Taking a node out of the list and onto the free list.\<close>

lemma drop_node:
  assumes "linked (fly_pool s) (as @ b # bs)" and "distinct (as @ b # bs @ ys)"
    and "free_chain (fly_pool s) (fly_free_head s) ys"
  shows "\<exists>pl. fly_free b (fly_remove b s) = s\<lparr>fly_pool := pl, fly_free_head := Some b\<rparr> \<and>
    linked pl (as @ bs) \<and> free_chain pl (Some b) (b # ys) \<and> (\<forall>a. letter_of (pl a) = letter_of (fly_pool s a))"
proof -
  define u where "u = unlink (last_opt as) (hd_opt bs) (fly_pool s)"
  let ?pl = "u(b := (u b)\<lparr>fl_next := fly_free_head s\<rparr>)"
  have "fly_free b (fly_remove b s) = s\<lparr>fly_pool := ?pl, fly_free_head := Some b\<rparr>"
    using linkedD [OF assms(1)] by (simp add: fly_free_def fly_remove_unlink u_def upd_fly_def)
  moreover have "linked u (as @ bs)" unfolding u_def by (rule linked_unlink) (use assms in auto)
  then have "linked ?pl (as @ bs)" using assms(2) by (subst linked_cong [of _ _ u]) auto
  moreover have "free_chain ?pl (fly_free_head s) ys"
    using assms(2,3) last_opt_in [of as] by (subst free_chain_cong [of ys _ "fly_pool s"]) (auto simp: u_def unlink_def)
  moreover have "letter_of (?pl a) = letter_of (fly_pool s a)" for a
    by (cases "a = b") (simp_all add: letter_of_def u_def unlink_def)
  ultimately show ?thesis by (intro exI [of _ ?pl]) simp
qed

definition seen :: "(nat \<Rightarrow> fly) \<Rightarrow> nat list \<Rightarrow> letter list" where
  "seen pl xs = map (\<lambda>a. letter_of (pl a)) xs"

lemma seen_cong: "(\<And>a. a \<in> set xs \<Longrightarrow> letter_of (pl a) = letter_of (pl' a)) \<Longrightarrow> seen pl xs = seen pl' xs"
  by (simp add: seen_def)

lemma letters_seen: "letters s xs = seen (fly_pool s) xs"
  by (simp add: letters_def seen_def)

text \<open>The state the loop is in: the nodes \<open>as\<close> are done, the nodes \<open>bs\<close> are left.\<close>

definition at_node :: "typing \<Rightarrow> nat list \<Rightarrow> nat list \<Rightarrow> nat list \<Rightarrow> bool" where
  "at_node s as bs ys \<longleftrightarrow> linked (fly_pool s) (as @ bs) \<and> head s = hd_opt (as @ bs) \<and>
     free_chain (fly_pool s) (fly_free_head s) ys \<and> distinct (as @ bs @ ys)"

definition moved :: "typing \<Rightarrow> nat \<Rightarrow> typing" where
  "moved s b = upd_fly b (\<lambda>n. n\<lparr>fl_y := fl_y n + fl_v n\<rparr>) s"

lemma at_node_moved:
  assumes "at_node s as (b # bs) ys"
  shows "at_node (moved s b) as (b # bs) ys"
    and "letter_of (fly_pool (moved s b) a) = (if a = b then fall (letter_of (fly_pool s b)) else letter_of (fly_pool s a))"
proof -
  have "linked (fly_pool (moved s b)) (as @ b # bs)"
    using assms by (subst linked_cong [of _ _ "fly_pool s"]) (auto simp: at_node_def moved_def upd_fly_def)
  moreover have "free_chain (fly_pool (moved s b)) (fly_free_head s) ys"
    using assms by (subst free_chain_cong [of ys _ "fly_pool s"]) (auto simp: at_node_def moved_def upd_fly_def)
  ultimately show "at_node (moved s b) as (b # bs) ys"
    using assms by (auto simp: at_node_def) (simp_all add: moved_def upd_fly_def)
  show "letter_of (fly_pool (moved s b) a) = (if a = b then fall (letter_of (fly_pool s b)) else letter_of (fly_pool s a))"
    by (simp add: moved_def upd_fly_def letter_of_def)
qed

text \<open>One turn: the letter stays, or its node goes to the free list and it is counted.\<close>

definition counted :: "letter \<Rightarrow> typing \<Rightarrow> typing" where
  "counted l s = (if gone_up l then s\<lparr>hit := hit s + 1\<rparr> else s\<lparr>miss := miss s + 1\<rparr>)"

lemma update_turn:
  assumes at: "at_node s as (b # bs) ys"
  defines "l \<equiv> fall (letter_of (fly_pool s b))"
  defines "as' \<equiv> (if on_screen l then as @ [b] else as)"
  shows "\<exists>s' ys'. update_letter_loop (Suc f) (Some b) s = update_letter_loop f (hd_opt bs) s' \<and>
    at_node s' as' bs ys' \<and> set (as' @ ys') = set (as @ b # ys) \<and>
    seen (fly_pool s') as' = seen (fly_pool s) as @ (if on_screen l then [l] else []) \<and>
    seen (fly_pool s') bs = seen (fly_pool s) bs \<and>
    s' = (if on_screen l then s else counted l s)
      \<lparr>fly_pool := fly_pool s', fly_free_head := fly_free_head s', head := head s'\<rparr>"
proof -
  let ?m = "moved s b"
  note m = at_node_moved [OF at]
  have nxt: "fl_next (fly_pool s b) = hd_opt bs" using at linkedD(2) by (auto simp: at_node_def)
  have l: "letter_of (fly_pool ?m b) = l" using m(2) by (simp add: l_def)
  have on: "on_screen l \<longleftrightarrow> \<not> (fl_y (fly_pool ?m b) < 0 \<or> fl_y (fly_pool ?m b) + 8 > H)"
    unfolding l [symmetric] letter_of_def by auto
  have dist: "distinct (as @ b # bs @ ys)" using at by (simp add: at_node_def)
  have others: "seen (fly_pool ?m) as = seen (fly_pool s) as" "seen (fly_pool ?m) bs = seen (fly_pool s) bs"
    using dist by (auto intro!: seen_cong simp: m(2))
  show ?thesis
  proof (cases "on_screen l")
    case True
    then have "update_letter_loop (Suc f) (Some b) s = update_letter_loop f (hd_opt bs) ?m"
      using on by (simp add: Let_def nxt moved_def)
    moreover have "at_node ?m (as @ [b]) bs ys" using m(1) by (simp add: at_node_def)
    moreover have "seen (fly_pool ?m) (as @ [b]) = seen (fly_pool s) as @ [l]" using others l by (simp add: seen_def)
    moreover have "?m = s\<lparr>fly_pool := fly_pool ?m, fly_free_head := fly_free_head ?m, head := head ?m\<rparr>"
      by (simp add: moved_def upd_fly_def)
    ultimately show ?thesis using True others unfolding as'_def
      by (intro exI [of _ ?m] exI [of _ ys]) (simp del: update_letter_loop.simps)
  next
    case False
    let ?c = "counted l ?m"
    have c: "fly_pool ?c = fly_pool ?m" "fly_free_head ?c = fly_free_head ?m" "head ?c = head ?m"
      by (simp_all add: counted_def)
    from m(1) obtain pl where pl: "fly_free b (fly_remove b ?c) = ?c\<lparr>fly_pool := pl, fly_free_head := Some b\<rparr>"
      "linked pl (as @ bs)" "free_chain pl (Some b) (b # ys)" "\<forall>a. letter_of (pl a) = letter_of (fly_pool ?m a)"
      using drop_node [of ?c as b bs ys] dist by (auto simp: at_node_def c)
    let ?s = "?c\<lparr>fly_pool := pl, fly_free_head := Some b, head := hd_opt (as @ bs)\<rparr>"
    have hd: "head ?m = hd_opt (as @ b # bs)" using m(1) by (simp add: at_node_def)
    have "hd_opt as \<noteq> Some b" using dist hd_opt_in [of as b] by auto
    then have "(if head ?c = Some b then (?c\<lparr>fly_pool := pl, fly_free_head := Some b\<rparr>)\<lparr>head := hd_opt bs\<rparr>
        else ?c\<lparr>fly_pool := pl, fly_free_head := Some b\<rparr>) = ?s"
      using hd by (auto simp: c)
    moreover have "update_letter_loop (Suc f) (Some b) s = update_letter_loop f (hd_opt bs)
        (let s3 = fly_free b (fly_remove b ?c) in if head s3 = Some b then s3\<lparr>head := hd_opt bs\<rparr> else s3)"
    proof -
      have "fl_y (fly_pool ?m b) < 0 \<or> fl_y (fly_pool ?m b) + 8 > H" using False on by blast
      moreover have "gone_up l \<longleftrightarrow> fl_y (fly_pool ?m b) < 0" unfolding l [symmetric] letter_of_def by simp
      ultimately show ?thesis by (simp only: update_letter_loop.simps Let_def nxt moved_def [symmetric] counted_def if_True)
    qed
    ultimately have "update_letter_loop (Suc f) (Some b) s = update_letter_loop f (hd_opt bs) ?s"
      using pl(1) by (simp add: Let_def)
    moreover have "at_node ?s as bs (b # ys)" using pl dist by (auto simp: at_node_def)
    moreover have "?s = (counted l s)\<lparr>fly_pool := pl, fly_free_head := Some b, head := hd_opt (as @ bs)\<rparr>"
      by (simp add: counted_def moved_def upd_fly_def)
    moreover have "seen pl as = seen (fly_pool s) as" "seen pl bs = seen (fly_pool s) bs"
      using others pl(4) by (simp_all add: seen_def)
    ultimately show ?thesis using False unfolding as'_def
      by (intro exI [of _ ?s] exI [of _ "b # ys"]) (simp del: update_letter_loop.simps)
  qed
qed

lemma gone_up_off: "gone_up l \<Longrightarrow> \<not> on_screen l"
  by (cases l) simp

lemma update_loop_refines:
  "at_node s as bs ys \<Longrightarrow> length bs \<le> f \<Longrightarrow>
   \<exists>s' ks zs. update_letter_loop f (hd_opt bs) s = Inr s' \<and> at_node s' (as @ ks) [] zs \<and>
     set (as @ ks @ zs) = set (as @ bs @ ys) \<and>
     seen (fly_pool s') (as @ ks) = seen (fly_pool s) as @ filter on_screen (map fall (seen (fly_pool s) bs)) \<and>
     s' = s\<lparr>fly_pool := fly_pool s', fly_free_head := fly_free_head s', head := head s',
       hit := hit s + hits_of (seen (fly_pool s) bs), miss := miss s + misses_of (seen (fly_pool s) bs)\<rparr>"
proof (induction bs arbitrary: s as ys f)
  case Nil
  then show ?case
    by (intro exI [of _ s] exI [of _ "[]"] exI [of _ ys]) (simp add: seen_def hits_of_def misses_of_def)
next
  case (Cons b bs)
  then obtain g where f: "f = Suc g" "length bs \<le> g" by (cases f) auto
  let ?l = "fall (letter_of (fly_pool s b))" and ?ls = "seen (fly_pool s) bs"
  obtain s1 as1 ys1 where t: "update_letter_loop (Suc g) (Some b) s = update_letter_loop g (hd_opt bs) s1"
    "at_node s1 as1 bs ys1" "set (as1 @ ys1) = set (as @ b # ys)"
    "as1 = (if on_screen ?l then as @ [b] else as)"
    "seen (fly_pool s1) as1 = seen (fly_pool s) as @ (if on_screen ?l then [?l] else [])"
    "seen (fly_pool s1) bs = ?ls"
    "s1 = (if on_screen ?l then s else counted ?l s)
      \<lparr>fly_pool := fly_pool s1, fly_free_head := fly_free_head s1, head := head s1\<rparr>"
    using update_turn [OF Cons.prems(1), of g] by blast
  obtain s' ks zs where r: "update_letter_loop g (hd_opt bs) s1 = Inr s'" "at_node s' (as1 @ ks) [] zs"
    "set (as1 @ ks @ zs) = set (as1 @ bs @ ys1)"
    "seen (fly_pool s') (as1 @ ks) = seen (fly_pool s1) as1 @ filter on_screen (map fall ?ls)"
    "s' = s1\<lparr>fly_pool := fly_pool s', fly_free_head := fly_free_head s', head := head s',
       hit := hit s1 + hits_of ?ls, miss := miss s1 + misses_of ?ls\<rparr>"
    using Cons.IH [OF t(2) f(2)] unfolding t(6) by blast
  let ?ks = "if on_screen ?l then b # ks else ks"
  have ks: "as1 @ ks = as @ ?ks" using t(4) by simp
  have "seen (fly_pool s') (as @ ?ks) = seen (fly_pool s) as @ filter on_screen (map fall (seen (fly_pool s) (b # bs)))"
    using r(4) t(5) unfolding ks by (simp add: seen_def)
  moreover have "set (as @ ?ks @ zs) = set (as @ (b # bs) @ ys)"
  proof -
    have "set (as @ ?ks @ zs) = set (as1 @ ks @ zs)" by (metis append_assoc ks)
    also have "\<dots> = set (as1 @ ys1) \<union> set bs" unfolding r(3) by auto
    also have "\<dots> = set (as @ (b # bs) @ ys)" unfolding t(3) by auto
    finally show ?thesis .
  qed
  moreover have "hits_of (seen (fly_pool s) (b # bs)) = (if gone_up ?l then 1 else 0) + hits_of ?ls"
    "misses_of (seen (fly_pool s) (b # bs)) = (if gone_up ?l \<or> on_screen ?l then 0 else 1) + misses_of ?ls"
    by (auto simp: hits_of_def misses_of_def seen_def)
  then have "s' = s\<lparr>fly_pool := fly_pool s', fly_free_head := fly_free_head s', head := head s',
       hit := hit s + hits_of (seen (fly_pool s) (b # bs)), miss := miss s + misses_of (seen (fly_pool s) (b # bs))\<rparr>"
    using gone_up_off [of ?l] by (subst r(5), subst (1 2 3) t(7)) (auto simp: counted_def)
  moreover have "update_letter_loop f (hd_opt (b # bs)) s = Inr s'"
    unfolding f(1) hd_opt_simps t(1) by (rule r(1))
  ultimately show ?case using r(2) unfolding ks by blast
qed

text \<open>\<open>update_letter_pos\<close>: every letter moves, those that leave the screen are counted and taken out.\<close>

lemma update_refines:
  assumes rep: "typing_rep s xs ys"
  shows "\<exists>s' ks zs. update_letter_pos s = Inr s' \<and> typing_rep s' ks zs \<and>
    letters s' ks = filter on_screen (map fall (letters s xs)) \<and>
    s' = s\<lparr>fly_pool := fly_pool s', fly_free_head := fly_free_head s', head := head s',
       hit := hit s + hits_of (letters s xs), miss := miss s + misses_of (letters s xs)\<rparr>"
proof (cases "set (xs @ ys) = {..POOL}")
  case True
  have "at_node s [] xs ys" using rep by (simp add: at_node_def typing_rep_def)
  from update_loop_refines [OF this typing_rep_length [OF rep]]
  obtain s' ks zs where r: "update_letter_loop (POOL + 1) (hd_opt xs) s = Inr s'" "at_node s' ks [] zs"
    "set (ks @ zs) = set (xs @ ys)" "seen (fly_pool s') ks = filter on_screen (map fall (letters s xs))"
    "s' = s\<lparr>fly_pool := fly_pool s', fly_free_head := fly_free_head s', head := head s',
       hit := hit s + hits_of (letters s xs), miss := miss s + misses_of (letters s xs)\<rparr>"
    unfolding letters_seen by (auto simp: seen_def)
  have "update_letter_pos s = Inr s'" using r(1) rep by (simp add: update_letter_pos_def typing_rep_def)
  moreover have "typing_rep s' ks zs"
    using r(2) r(3) True by (simp add: typing_rep_def at_node_def)
  ultimately show ?thesis using r(4,5) unfolding letters_seen by blast
next
  case False
  then have e: "xs = []" "head s = None" using rep by (auto simp: typing_rep_def)
  then have "update_letter_pos s = Inr s" by (simp add: update_letter_pos_def)
  with rep e show ?thesis
    by (intro exI [of _ s] exI [of _ "[]"] exI [of _ ys]) (simp add: letters_def hits_of_def misses_of_def)
qed

section \<open>Typing a letter\<close>

text \<open>
  \<open>update_keypress\<close> looks for the lowest falling letter whose key is pressed; \<open>best\<close> is the height of
  the letter found so far.
\<close>

fun typed :: "(nat \<Rightarrow> bool) \<Rightarrow> letter \<Rightarrow> bool" where
  "typed pressed (x, y, t, v) \<longleftrightarrow> 0 < v \<and> pressed t"

fun height :: "letter \<Rightarrow> int" where
  "height (x, y, t, v) = y"

lemma keypress_loop_lowest:
  "linked (fly_pool s) (as @ bs) \<Longrightarrow> length bs \<le> f \<Longrightarrow>
   \<exists>t m. keypress_loop f (hd_opt bs) best target s = Inr t \<and> best \<le> m \<and>
     (\<forall>b \<in> set bs. typed (letter_pressed s) (letter_of (fly_pool s b)) \<longrightarrow> height (letter_of (fly_pool s b)) \<le> m) \<and>
     (t = target \<and> m = best \<or> (\<exists>b \<in> set bs. t = Some b \<and> typed (letter_pressed s) (letter_of (fly_pool s b)) \<and>
        height (letter_of (fly_pool s b)) = m))"
proof (induction bs arbitrary: as f best target)
  case Nil
  then show ?case by simp
next
  case (Cons b bs)
  then obtain g where f: "f = Suc g" "length bs \<le> g" by (cases f) auto
  let ?n = "fly_pool s b"
  have nxt: "fl_next ?n = hd_opt bs" using linkedD(2) Cons.prems(1) by blast
  have l: "linked (fly_pool s) ((as @ [b]) @ bs)" using Cons.prems(1) by simp
  have typed: "typed (letter_pressed s) (letter_of ?n) \<longleftrightarrow> 0 < fl_v ?n \<and> letter_pressed s (fl_text ?n)"
    "height (letter_of ?n) = fl_y ?n" by (simp_all add: letter_of_def)
  show ?case
  proof (cases "0 < fl_v ?n \<and> best < fl_y ?n \<and> letter_pressed s (fl_text ?n)")
    case True
    then have step: "keypress_loop f (hd_opt (b # bs)) best target s = keypress_loop g (hd_opt bs) (fl_y ?n) (Some b) s"
      by (simp add: f nxt Let_def)
    obtain t m where "keypress_loop g (hd_opt bs) (fl_y ?n) (Some b) s = Inr t" "fl_y ?n \<le> m"
      "\<forall>b \<in> set bs. typed (letter_pressed s) (letter_of (fly_pool s b)) \<longrightarrow> height (letter_of (fly_pool s b)) \<le> m"
      "t = Some b \<and> m = fl_y ?n \<or> (\<exists>b \<in> set bs. t = Some b \<and> typed (letter_pressed s) (letter_of (fly_pool s b)) \<and>
        height (letter_of (fly_pool s b)) = m)"
      using Cons.IH [OF l f(2), of "fl_y ?n" "Some b"] by blast
    with True show ?thesis unfolding step by (intro exI [of _ t] exI [of _ m]) (auto simp: typed)
  next
    case False
    then have step: "keypress_loop f (hd_opt (b # bs)) best target s = keypress_loop g (hd_opt bs) best target s"
      by (auto simp add: f nxt Let_def)
    obtain t m where "keypress_loop g (hd_opt bs) best target s = Inr t" "best \<le> m"
      "\<forall>b \<in> set bs. typed (letter_pressed s) (letter_of (fly_pool s b)) \<longrightarrow> height (letter_of (fly_pool s b)) \<le> m"
      "t = target \<and> m = best \<or> (\<exists>b \<in> set bs. t = Some b \<and> typed (letter_pressed s) (letter_of (fly_pool s b)) \<and>
        height (letter_of (fly_pool s b)) = m)"
      using Cons.IH [OF l f(2), of best target] by blast
    with False show ?thesis unfolding step by (intro exI [of _ t] exI [of _ m]) (auto simp: typed)
  qed
qed

fun sent_up :: "letter \<Rightarrow> letter" where
  "sent_up (x, y, t, v) = (x, y, t, -3)"

fun text_of :: "letter \<Rightarrow> nat" where
  "text_of (x, y, t, v) = t"

lemma keypress_refines:
  assumes rep: "typing_rep s xs ys"
  shows "\<exists>more s'. update_keypress s = Inr (more, s') \<and> typing_rep s' xs ys \<and>
    (if more
     then \<exists>i < length xs. let l = letters s xs ! i
       in typed (letter_pressed s) l \<and> letters s' xs = (letters s xs)[i := sent_up l] \<and>
          (\<forall>k \<in> set (letters s xs). typed (letter_pressed s) k \<longrightarrow> height k \<le> height l) \<and>
          s' = s\<lparr>fly_pool := fly_pool s', letter_pressed := (letter_pressed s)(text_of l := False)\<rparr>
     else s' = s)"
proof -
  have lk: "linked (fly_pool s) ([] @ xs)" "head s = hd_opt xs" using rep by (simp_all add: typing_rep_def)
  obtain t m where t: "keypress_loop (POOL + 1) (head s) (-100) None s = Inr t"
    "\<forall>b \<in> set xs. typed (letter_pressed s) (letter_of (fly_pool s b)) \<longrightarrow> height (letter_of (fly_pool s b)) \<le> m"
    "t = None \<or> (\<exists>b \<in> set xs. t = Some b \<and> typed (letter_pressed s) (letter_of (fly_pool s b)) \<and>
        height (letter_of (fly_pool s b)) = m)"
    using keypress_loop_lowest [OF lk(1) typing_rep_length [OF rep], of "-100" None] unfolding lk(2) by blast
  show ?thesis
  proof (cases t)
    case None
    then have "update_keypress s = Inr (False, s)" using t(1) by (simp add: update_keypress_def)
    then show ?thesis using rep by auto
  next
    case (Some b)
    then have b: "b \<in> set xs" "typed (letter_pressed s) (letter_of (fly_pool s b))"
      "height (letter_of (fly_pool s b)) = m" using t(3) by auto
    then obtain i where i: "i < length xs" "xs ! i = b" by (auto simp: in_set_conv_nth)
    let ?pl = "(fly_pool s)(b := (fly_pool s b)\<lparr>fl_v := -3\<rparr>)"
    let ?s = "s\<lparr>fly_pool := ?pl, letter_pressed := (letter_pressed s)(fl_text (fly_pool s b) := False)\<rparr>"
    have upd: "update_keypress s = Inr (True, ?s)"
      using t(1) Some by (simp add: update_keypress_def release_key_def upd_fly_def)
    have "linked ?pl xs" using lk(1) by (subst linked_cong [of _ _ "fly_pool s"]) auto
    moreover have "free_chain ?pl (fly_free_head s) ys"
      using rep by (subst free_chain_cong [of ys _ "fly_pool s"]) (auto simp: typing_rep_def)
    ultimately have rep': "typing_rep ?s xs ys" using rep b(1) by (auto simp: typing_rep_def)
    have d: "distinct xs" using rep by (simp add: typing_rep_def)
    have li: "letters s xs ! i = letter_of (fly_pool s b)" using i by (simp add: letters_def)
    have "letters ?s xs = (letters s xs)[i := sent_up (letter_of (fly_pool s b))]"
      by (rule nth_equalityI)
        (use i d in \<open>auto simp: letters_def nth_list_update letter_of_def nth_eq_iff_index_eq\<close>)
    moreover have "\<forall>k \<in> set (letters s xs). typed (letter_pressed s) k \<longrightarrow> height k \<le> m"
      using t(2) by (auto simp: letters_def)
    moreover have "text_of (letter_of (fly_pool s b)) = fl_text (fly_pool s b)" by (simp add: letter_of_def)
    ultimately have "let l = letters s xs ! i
       in typed (letter_pressed s) l \<and> letters ?s xs = (letters s xs)[i := sent_up l] \<and>
          (\<forall>k \<in> set (letters s xs). typed (letter_pressed s) k \<longrightarrow> height k \<le> height l) \<and>
          ?s = s\<lparr>fly_pool := fly_pool ?s, letter_pressed := (letter_pressed s)(text_of l := False)\<rparr>"
      using b(2,3) by (simp add: li Let_def)
    with upd rep' i(1) show ?thesis by (intro exI [of _ True] exI [of _ ?s]) (simp only: if_True, blast)
  qed
qed

end
