(* ===== verification/Typing_Inv.thy ===== *)
theory Typing_Inv imports Typing_List begin

text \<open>
  What every frame of the typing game keeps: letters are on the screen, there are never more than 26 of
  them, so the pool is never used up while its nodes are linked, every letter made is still
  there or counted, and every pixel drawn is inside the canvas.
\<close>

section \<open>The age of the letters\<close>

text \<open>
  The age of a letter counts the updates since it was made. It bounds its height, and ten frames lie
  between two letters, so the ages bound the number of letters.
\<close>

fun letter_ok :: "letter \<times> int \<Rightarrow> bool" where
  "letter_ok ((x, y, t, v), a) \<longleftrightarrow> 0 \<le> x \<and> x \<le> 304 \<and> 0 \<le> y \<and> y \<le> 192 \<and> t < 26 \<and>
     (v = 1 \<and> y = a \<or> v = -3 \<and> y + 3 * a \<le> 768)"

fun aged :: "int \<Rightarrow> (letter \<times> int) list \<Rightarrow> bool" where
  "aged c [] \<longleftrightarrow> True"
| "aged c (p # ps) \<longleftrightarrow> letter_ok p \<and> c \<le> snd p \<and> aged (c + 10) ps"

lemma aged_mono: "aged c ps \<Longrightarrow> c' \<le> c \<Longrightarrow> aged c' ps"
  by (induction ps arbitrary: c c') auto

lemma aged_filter: "aged c ps \<Longrightarrow> aged c (filter P ps)"
proof (induction ps arbitrary: c)
  case (Cons p ps)
  then have "aged (c + 10) (filter P ps)" by simp
  then show ?case using Cons.prems aged_mono [of "c + 10" "filter P ps" c] by auto
qed simp

lemma aged_ok: "aged c ps \<Longrightarrow> p \<in> set ps \<Longrightarrow> letter_ok p"
  by (induction ps arbitrary: c) auto

lemma letter_ok_age: "letter_ok p \<Longrightarrow> snd p \<le> 256"
  by (cases p rule: letter_ok.cases) auto

lemma aged_length: "aged c ps \<Longrightarrow> ps \<noteq> [] \<Longrightarrow> c + 10 * int (length ps) \<le> 266"
proof (induction ps arbitrary: c)
  case (Cons p ps)
  show ?case
  proof (cases "ps = []")
    case True
    then show ?thesis using Cons.prems letter_ok_age [of p] by simp
  next
    case False
    then show ?thesis using Cons.IH [of "c + 10"] Cons.prems by simp
  qed
qed simp

text \<open>An update, and a letter that is sent up.\<close>

definition older :: "letter \<times> int \<Rightarrow> letter \<times> int" where
  "older p = (fall (fst p), snd p + 1)"

lemma letter_ok_older: "letter_ok p \<Longrightarrow> on_screen (fst (older p)) \<Longrightarrow> letter_ok (older p)"
  by (cases p rule: letter_ok.cases) (auto simp: older_def H_def)

lemma aged_update: "aged c ps \<Longrightarrow> aged (c + 1) (filter (\<lambda>p. on_screen (fst p)) (map older ps))"
proof (induction ps arbitrary: c)
  case (Cons p ps)
  have "aged (c + 10 + 1) (filter (\<lambda>p. on_screen (fst p)) (map older ps))"
    by (rule Cons.IH) (use Cons.prems in simp)
  moreover have "c + 10 + 1 = c + 1 + 10" by simp
  ultimately have ih: "aged (c + 1 + 10) (filter (\<lambda>p. on_screen (fst p)) (map older ps))" by (simp only:)
  show ?case
  proof (cases "on_screen (fst (older p))")
    case True
    moreover have "c + 1 \<le> snd (older p)" using Cons.prems by (simp add: older_def)
    ultimately show ?thesis using ih Cons.prems letter_ok_older [of p] by simp
  next
    case False
    then show ?thesis using aged_mono [OF ih, of "c + 1"] by simp
  qed
qed simp

lemma letter_ok_up: "letter_ok (l, a) \<Longrightarrow> typed pressed l \<Longrightarrow> letter_ok (sent_up l, a)"
  by (cases l) auto

lemma aged_up:
  "aged c ps \<Longrightarrow> i < length ps \<Longrightarrow> typed pressed (fst (ps ! i)) \<Longrightarrow>
     aged c (ps[i := (sent_up (fst (ps ! i)), snd (ps ! i))])"
proof (induction ps arbitrary: c i)
  case (Cons p ps)
  then show ?case using letter_ok_up [of "fst p" "snd p" pressed] by (cases i) auto
qed simp

lemma letters_gone: "hits_of ls + misses_of ls + length (filter on_screen (map fall ls)) = length ls"
  by (induction ls) (auto simp: hits_of_def misses_of_def dest: gone_up_off)

section \<open>The operations\<close>

text \<open>\<open>k\<close> is the number of letters made so far, \<open>c\<close> a bound below the age of the newest.\<close>

definition typing_inv :: "int \<Rightarrow> nat \<Rightarrow> typing \<Rightarrow> bool" where
  "typing_inv c k s \<longleftrightarrow> (\<exists>xs ys ps. typing_rep s xs ys \<and> letters s xs = map fst ps \<and> aged c ps \<and>
     hit s + miss s + length ps = k)"

lemma typing_inv_same:
  "typing_inv c k s \<Longrightarrow> fly_pool s' = fly_pool s \<Longrightarrow> head s' = head s \<Longrightarrow> fly_free_head s' = fly_free_head s \<Longrightarrow>
     hit s' = hit s \<Longrightarrow> miss s' = miss s \<Longrightarrow> typing_inv c k s'"
  unfolding typing_inv_def by (metis typing_rep_cong)

text \<open>The fields the list and the counters are in, with the number of the frame.\<close>

definition core :: "typing \<Rightarrow> (nat \<Rightarrow> fly) \<times> nat option \<times> nat option \<times> nat \<times> nat \<times> nat" where
  "core s = (fly_pool s, head s, fly_free_head s, hit s, miss s, frames s)"

lemma typing_inv_core: "core s' = core s \<Longrightarrow> typing_inv c k s' = typing_inv c k s"
  using typing_inv_same [of c k s s'] typing_inv_same [of c k s' s] by (auto simp: core_def)

lemma press_key_core: "core (press_key k s) = core s"
proof -
  have "core (fold (\<lambda>i s. if P i then s\<lparr>letter_pressed := (letter_pressed s)(i := True)\<rparr> else s) is s) = core s" for P "is"
    by (induction "is" arbitrary: s) (auto simp: core_def)
  then show ?thesis by (simp add: press_key_def)
qed

lemma release_keys_core: "core (fold (\<lambda>i s. if P i then release_key i s else s) is s) = core s"
  by (induction "is" arbitrary: s) (auto simp: core_def release_key_def)

lemma keyboard_event_core: "core (snd (keyboard_event k s)) = core s"
  by (simp add: keyboard_event_def Let_def press_key_core release_keys_core) (simp add: core_def)

lemma keyboard_events_core: "core (keyboard_events ks s) = core s"
proof (induction ks arbitrary: s)
  case (Cons k ks)
  then show ?case using keyboard_event_core [of k s] by (auto split: prod.split)
qed simp

section \<open>Keys, new letters, moving letters\<close>

definition npressed :: "typing \<Rightarrow> nat" where
  "npressed s = card {i. i < 26 \<and> letter_pressed s i}"

lemma npressed_26: "npressed s < 27"
proof -
  have "npressed s \<le> card {..<26::nat}" unfolding npressed_def by (rule card_mono) auto
  then show ?thesis by simp
qed

lemma text_of_ok: "letter_ok (l, a) \<Longrightarrow> text_of l < 26"
  by (cases l) auto

lemma typed_text: "typed pressed l \<Longrightarrow> pressed (text_of l)"
  by (cases l) auto

lemma keypress_inv:
  assumes "typing_inv c k s"
  shows "\<exists>more s'. update_keypress s = Inr (more, s') \<and> typing_inv c k s' \<and> frames s' = frames s \<and>
    (more \<longrightarrow> npressed s' < npressed s)"
proof -
  obtain xs ys ps where r: "typing_rep s xs ys" "letters s xs = map fst ps" "aged c ps" "hit s + miss s + length ps = k"
    using assms by (auto simp: typing_inv_def)
  obtain more s' where u: "update_keypress s = Inr (more, s')" "typing_rep s' xs ys"
    "if more
     then \<exists>i < length xs. let l = letters s xs ! i
       in typed (letter_pressed s) l \<and> letters s' xs = (letters s xs)[i := sent_up l] \<and>
          (\<forall>k \<in> set (letters s xs). typed (letter_pressed s) k \<longrightarrow> height k \<le> height l) \<and>
          s' = s\<lparr>fly_pool := fly_pool s', letter_pressed := (letter_pressed s)(text_of l := False)\<rparr>
     else s' = s"
    using keypress_refines [OF r(1)] by blast
  show ?thesis
  proof (cases more)
    case False
    then show ?thesis using u assms by auto
  next
    case True
    have len: "length xs = length ps" using arg_cong [OF r(2), of length] by (simp add: letters_def)
    obtain i where i: "i < length ps" "typed (letter_pressed s) (fst (ps ! i))"
      "letters s' xs = (map fst ps)[i := sent_up (fst (ps ! i))]"
      "s' = s\<lparr>fly_pool := fly_pool s', letter_pressed := (letter_pressed s)(text_of (fst (ps ! i)) := False)\<rparr>"
      using u(3) True len r(2) by (auto simp: Let_def)
    let ?qs = "ps[i := (sent_up (fst (ps ! i)), snd (ps ! i))]" and ?t = "text_of (fst (ps ! i))"
    have same: "hit s' = hit s" "miss s' = miss s" "frames s' = frames s"
      "letter_pressed s' = (letter_pressed s)(?t := False)" by (subst i(4), simp)+
    have "typing_inv c k s'" unfolding typing_inv_def
      by (intro exI [of _ xs] exI [of _ ys] exI [of _ ?qs])
        (use u(2) i r aged_up [OF r(3) i(1,2)] same in \<open>simp add: map_update\<close>)
    moreover have "?t < 26" using text_of_ok [of "fst (ps ! i)" "snd (ps ! i)"] aged_ok [OF r(3), of "ps ! i"] i(1) by simp
    then have "npressed s' < npressed s"
      unfolding npressed_def by (intro psubset_card_mono) (use same typed_text [OF i(2)] in auto)
    ultimately show ?thesis using u(1) same by blast
  qed
qed

lemma keypresses_inv:
  "typing_inv c k s \<Longrightarrow> npressed s < n \<Longrightarrow>
     \<exists>s'. keypresses n s = Inr s' \<and> typing_inv c k s' \<and> frames s' = frames s"
proof (induction n arbitrary: s)
  case (Suc n)
  obtain more s' where u: "update_keypress s = Inr (more, s')" "typing_inv c k s'" "frames s' = frames s"
    "more \<longrightarrow> npressed s' < npressed s" using keypress_inv [OF Suc.prems(1)] by blast
  show ?case
  proof (cases more)
    case True
    then show ?thesis using Suc.IH [OF u(2)] u Suc.prems(2) by auto
  qed (use u in auto)
qed simp

lemma new_letter_ok:
  assumes "new_letter seed = (l, n)"
  shows "letter_ok (l, 0) \<and> text_of l < 26"
proof -
  have "int (r mod 38) * 8 + 8 \<le> 304" for r :: nat
    using mod_less_divisor [of 38 r] by linarith
  moreover have "r mod 1000 div 2000 = 0" for r :: nat
    using mod_less_divisor [of 1000 r] by (intro div_less) linarith
  ultimately show ?thesis using assms by (auto simp: new_letter_def W_def split: prod.splits)
qed

lemma create_inv:
  assumes "typing_inv 10 k s"
  shows "typing_inv 0 (k + 1) (create_new_letter s) \<and> frames (create_new_letter s) = frames s"
proof -
  obtain xs ys ps where r: "typing_rep s xs ys" "letters s xs = map fst ps" "aged 10 ps" "hit s + miss s + length ps = k"
    using assms by (auto simp: typing_inv_def)
  have "length xs = length ps" using arg_cong [OF r(2), of length] by (simp add: letters_def)
  then have room: "length xs \<le> POOL" using aged_length [OF r(3)] by (cases "ps = []") (auto simp: POOL_def)
  obtain x y t v n where new: "new_letter (rnd s) = ((x, y, t, v), n)" by (metis prod.exhaust)
  obtain p zs pl fh where c: "create_new_letter s =
      s\<lparr>fly_pool := pl, fly_free_head := fh, head := Some p, rnd := n, letter_pressed := (letter_pressed s)(t := False)\<rparr>"
    "typing_rep (create_new_letter s) (p # xs) zs"
    "letters (create_new_letter s) (p # xs) = (x, y, t, v) # letters s xs"
    using create_refines [OF r(1) room new] by blast
  have "aged 0 (((x, y, t, v), 0) # ps)" using new_letter_ok [OF new] r(3) by auto
  moreover have same: "hit (create_new_letter s) = hit s" "miss (create_new_letter s) = miss s"
    "frames (create_new_letter s) = frames s" by (simp_all add: c(1))
  ultimately show ?thesis unfolding typing_inv_def using c(2,3) r(2,4)
    by (intro conjI exI [of _ "p # xs"] exI [of _ zs] exI [of _ "((x, y, t, v), 0) # ps"]) auto
qed

lemma update_inv:
  assumes "typing_inv c k s"
  shows "\<exists>s'. update_letter_pos s = Inr s' \<and> typing_inv (c + 1) k s' \<and> frames s' = frames s"
proof -
  obtain xs ys ps where r: "typing_rep s xs ys" "letters s xs = map fst ps" "aged c ps" "hit s + miss s + length ps = k"
    using assms by (auto simp: typing_inv_def)
  obtain s' ks zs where u: "update_letter_pos s = Inr s'" "typing_rep s' ks zs"
    "letters s' ks = filter on_screen (map fall (letters s xs))"
    "s' = s\<lparr>fly_pool := fly_pool s', fly_free_head := fly_free_head s', head := head s',
       hit := hit s + hits_of (letters s xs), miss := miss s + misses_of (letters s xs)\<rparr>"
    using update_refines [OF r(1)] by blast
  let ?qs = "filter (\<lambda>p. on_screen (fst p)) (map older ps)"
  have same: "hit s' = hit s + hits_of (map fst ps)" "miss s' = miss s + misses_of (map fst ps)"
    "frames s' = frames s" by (subst u(4), simp add: r(2))+
  have old: "map fst (map older ps) = map fall (map fst ps)" by (simp add: older_def)
  have ls: "map fst ?qs = filter on_screen (map fall (map fst ps))"
    unfolding old [symmetric] filter_map by (simp add: comp_def)
  then have "length ?qs = length (filter on_screen (map fall (map fst ps)))" by (metis length_map)
  then have "hit s' + miss s' + length ?qs = k" using letters_gone [of "map fst ps"] r(4) same by simp
  then have "typing_inv (c + 1) k s'"
    unfolding typing_inv_def using u(2,3) ls r(2) aged_update [OF r(3)]
    by (intro exI [of _ ks] exI [of _ zs] exI [of _ ?qs]) simp
  then show ?thesis using u(1) same(3) by blast
qed

section \<open>Drawing\<close>

text \<open>Drawing changes the canvas only, and never reads or writes before its first row or column.\<close>

lemma put_pixel_ok: "0 \<le> x \<Longrightarrow> 0 \<le> y \<Longrightarrow> \<exists>cv. put_pixel x y color s = Inr (s\<lparr>canvas := cv\<rparr>)"
  by (cases "x < W \<and> y < H")
    (auto simp: put_pixel_def intro: exI [of _ "(canvas s)((y, x) := color)"] exI [of _ "canvas s"])

lemma draw_character_ok:
  assumes "0 \<le> x" and "0 \<le> y"
  shows "\<exists>cv. draw_character font ch x y color s = Inr (s\<lparr>canvas := cv\<rparr>)"
proof -
  have "\<exists>cv. fold (\<lambda>(i, j) r. bindr r (\<lambda>s.
         if bit (font (of_char ch) i) j then put_pixel (x + int j) (y + int i) color s else Inr s)) ps (Inr s) =
      Inr (s\<lparr>canvas := cv\<rparr>)" for ps
  proof (induction ps arbitrary: s)
    case Nil
    show ?case by (intro exI [of _ "canvas s"]) simp
  next
    case (Cons q ps)
    obtain i j where q: "q = (i, j)" by (cases q)
    obtain cv where "(if bit (font (of_char ch) i) j then put_pixel (x + int j) (y + int i) color s else Inr s) =
        Inr (s\<lparr>canvas := cv\<rparr>)"
      using put_pixel_ok [of "x + int j" "y + int i" color s] assms by (cases "bit (font (of_char ch) i) j")
        (auto intro: that [of "canvas s"])
    then show ?case using Cons.IH [of "s\<lparr>canvas := cv\<rparr>"] by (simp add: q)
  qed
  then show ?thesis unfolding draw_character_def .
qed

lemma draw_string_ok:
  "0 \<le> x \<Longrightarrow> 0 \<le> y \<Longrightarrow> \<exists>cv. draw_string font str x y color s = Inr (s\<lparr>canvas := cv\<rparr>)"
proof (induction str arbitrary: x y s)
  case Nil
  show ?case by (intro exI [of _ "canvas s"]) simp
next
  case (Cons ch str)
  obtain cv where "draw_character font ch x y color s = Inr (s\<lparr>canvas := cv\<rparr>)"
    using draw_character_ok Cons.prems by blast
  then show ?case using Cons.IH [of 0 "y + 8" "s\<lparr>canvas := cv\<rparr>"] Cons.IH [of "x + 8" y "s\<lparr>canvas := cv\<rparr>"] Cons.prems
    by simp
qed

lemma draw_letters_ok:
  "linked (fly_pool s) (as @ bs) \<Longrightarrow> length bs \<le> f \<Longrightarrow>
   \<forall>b \<in> set bs. 0 \<le> fl_x (fly_pool s b) \<and> 0 \<le> fl_y (fly_pool s b) \<Longrightarrow>
     \<exists>cv. draw_letters font f (hd_opt bs) s = Inr (s\<lparr>canvas := cv\<rparr>)"
proof (induction bs arbitrary: as f s)
  case Nil
  show ?case by (intro exI [of _ "canvas s"]) simp
next
  case (Cons b bs)
  then obtain g where f: "f = Suc g" "length bs \<le> g" by (cases f) auto
  have b: "0 \<le> fl_x (fly_pool s b)" "0 \<le> fl_y (fly_pool s b)" using Cons.prems(3) by simp_all
  obtain cv where "draw_string font [char_of (fl_text (fly_pool s b) + 65)] (fl_x (fly_pool s b)) (fl_y (fly_pool s b))
      0xFFFFFFFF s = Inr (s\<lparr>canvas := cv\<rparr>)" using draw_string_ok [OF b] by blast
  moreover have "\<exists>cv'. draw_letters font g (hd_opt bs) (s\<lparr>canvas := cv\<rparr>) = Inr (s\<lparr>canvas := cv\<rparr>\<lparr>canvas := cv'\<rparr>)"
    by (rule Cons.IH [of _ "as @ [b]"]) (use Cons.prems f in simp_all)
  moreover have "fl_next (fly_pool s b) = hd_opt bs" using linkedD(2) Cons.prems(1) by blast
  ultimately show ?case by (simp add: f Let_def)
qed

lemma itoa_length: "0 < d \<Longrightarrow> n < 10 ^ d \<Longrightarrow> length (itoa n) \<le> d"
proof (induction d arbitrary: n)
  case (Suc d)
  show ?case
  proof (cases "n div 10 > 0")
    case True
    then have "0 < d" using Suc.prems(2) by (cases d) auto
    moreover have "n div 10 < 10 ^ d" using Suc.prems(2) by (simp add: less_mult_imp_div_less mult.commute)
    ultimately have "length (itoa (n div 10)) \<le> d" by (rule Suc.IH)
    then show ?thesis using True by (subst itoa.simps) simp
  next
    case False
    then show ?thesis by (subst itoa.simps) simp
  qed
qed simp

lemma redraw_inv:
  assumes inv: "typing_inv c k s" and k: "k < 10 ^ 40" and size: "W \<le> sw" "H \<le> sh"
  shows "\<exists>s'. redraw_screen font sw sh s = Inr s' \<and> typing_inv c k s' \<and> frames s' = frames s"
proof -
  obtain xs ys ps where r: "typing_rep s xs ys" "letters s xs = map fst ps" "aged c ps" "hit s + miss s + length ps = k"
    using inv by (auto simp: typing_inv_def)
  have at: "0 \<le> fl_x (fly_pool s b) \<and> 0 \<le> fl_y (fly_pool s b)" if "b \<in> set xs" for b
  proof -
    have "letter_of (fly_pool s b) \<in> set (map fst ps)" unfolding r(2) [symmetric] using that by (simp add: letters_def)
    then obtain p where "p \<in> set ps" "letter_of (fly_pool s b) = fst p" by auto
    then show ?thesis using aged_ok [OF r(3), of p] by (cases p rule: letter_ok.cases) (auto simp: letter_of_def)
  qed
  have l: "linked (fly_pool s) ([] @ xs)" "head s = hd_opt xs" using r(1) by (simp_all add: typing_rep_def)
  obtain c1 where 1: "draw_letters font (POOL + 1) (head s) s = Inr (s\<lparr>canvas := c1\<rparr>)"
    using draw_letters_ok [OF l(1) typing_rep_length [OF r(1)]] at unfolding l(2) by blast
  have len: "length (itoa n) \<le> 40" if "n \<le> k" for n using itoa_length [of 40 n] that k by linarith
  have pos: "0 \<le> W - int (length (itoa n)) * 8" if "n \<le> k" for n using len [OF that] by (simp add: W_def)
  have str: "\<exists>cv. draw_string font str x y color s = Inr (s\<lparr>canvas := cv\<rparr>)" if "0 \<le> x" "0 \<le> y" for str x y color s
    using draw_string_ok that by blast
  have H: "0 \<le> H - 8" by (simp add: H_def)
  have cnt: "hit s \<le> k" "miss s \<le> k" using r(4) by simp_all
  obtain c2 where 2: "draw_string font (itoa (key_code s)) 0 (H - 8) 0xFFFFFFFF (s\<lparr>canvas := c1\<rparr>) = Inr (s\<lparr>canvas := c2\<rparr>)"
    using str [OF order_refl H, of "itoa (key_code s)" "0xFFFFFFFF" "s\<lparr>canvas := c1\<rparr>"] by auto
  obtain c3 where 3: "draw_string font (itoa (hit s)) (W - int (length (itoa (hit s))) * 8) 0 0x00FF00 (s\<lparr>canvas := c2\<rparr>) =
      Inr (s\<lparr>canvas := c3\<rparr>)"
    using str [OF pos [OF cnt(1)] order_refl, of "itoa (hit s)" "0x00FF00" "s\<lparr>canvas := c2\<rparr>"] by auto
  obtain c4 where 4: "draw_string font (itoa (miss s)) (W - int (length (itoa (miss s))) * 8) (H - 8) 0xFA5858 (s\<lparr>canvas := c3\<rparr>) =
      Inr (s\<lparr>canvas := c4\<rparr>)"
    using str [OF pos [OF cnt(2)] H, of "itoa (miss s)" "0xFA5858" "s\<lparr>canvas := c3\<rparr>"] by auto
  obtain c5 where 5: "draw_string font (itoa (real_fps s)) 0 0 0xF3F781 (s\<lparr>canvas := c4\<rparr>) = Inr (s\<lparr>canvas := c5\<rparr>)"
    using str [OF order_refl order_refl, of "itoa (real_fps s)" "0xF3F781" "s\<lparr>canvas := c4\<rparr>"] by auto
  obtain c6 where 6: "draw_string font ''FPS'' (int (length (itoa (real_fps s))) * 8) 0 0xF3F781 (s\<lparr>canvas := c5\<rparr>) =
      Inr (s\<lparr>canvas := c6\<rparr>)"
    using str [of "int (length (itoa (real_fps s))) * 8" 0 "''FPS''" "0xF3F781" "s\<lparr>canvas := c5\<rparr>"] by auto
  define sc where "sc = ((sw - W) div 2, (sh - H) div 2, c6)"
  define cv where "cv = (\<lambda>(y, x). if 0 \<le> y \<and> y < H \<and> 0 \<le> x \<and> x < W then 0x2A0A29 else canvas (s\<lparr>canvas := c6\<rparr>) (y, x))"
  have s': "redraw_screen font sw sh s = Inr (s\<lparr>shown := sc, canvas := cv\<rparr>)"
    using size by (simp add: redraw_screen_def Let_def sc_def cv_def 1 [unfolded Suc_eq_plus1 [symmetric]] 2 3 4 5 6
        del: draw_string.simps)
  have "core (s\<lparr>shown := sc, canvas := cv\<rparr>) = core s" by (simp add: core_def)
  then have "typing_inv c k (s\<lparr>shown := sc, canvas := cv\<rparr>)" using inv typing_inv_core by blast
  then show ?thesis using s' by auto
qed

section \<open>Frames\<close>

definition frame_inv :: "typing \<Rightarrow> bool" where
  "frame_inv s \<longleftrightarrow> typing_inv (int (frames s mod 10) + 1) (frames s div 10) s"

lemma next_frame: "Suc n mod 10 = (if n mod 10 = 9 then 0 else n mod 10 + 1)"
  "Suc n div 10 = (if n mod 10 = 9 then n div 10 + 1 else n div 10)"
  by presburger+

lemma frame_ok:
  assumes inv: "frame_inv s" and small: "frames s < 10 ^ 39" and size: "W \<le> sw" "H \<le> sh"
  shows "\<exists>s'. typing_frame font sw sh f s = Inr s' \<and> frame_inv s' \<and> frames s' = frames s + 1"
proof -
  obtain time keys where f: "f = (time, keys)" by (cases f)
  define redraw where "redraw \<longleftrightarrow> next_refresh s < time"
  define s1 where "s1 = s\<lparr>frames := frames s + 1,
      next_refresh := (if redraw then next_refresh s + 1000 div FPS else next_refresh s),
      next_frame := next_frame s + 1000 div HZ\<rparr>"
  let ?c = "int (frames s mod 10) + 1" and ?k = "frames s div 10" and ?f = "frames s + 1"
  have "typing_inv ?c ?k s1" "frames s1 = ?f"
    using inv typing_inv_same [of ?c ?k s s1] by (simp_all add: frame_inv_def s1_def)
  moreover have "core (keyboard_events keys s1) = core s1" by (rule keyboard_events_core)
  ultimately have "typing_inv ?c ?k (keyboard_events keys s1)" "frames (keyboard_events keys s1) = ?f"
    using typing_inv_core by (blast, simp add: core_def)
  then obtain s2 where s2: "keypresses 27 (keyboard_events keys s1) = Inr s2" "typing_inv ?c ?k s2" "frames s2 = ?f"
    using keypresses_inv [OF _ npressed_26] by metis
  define s3 where "s3 = (if frames s2 mod (HZ div CHARACTER_PER_SECOND) = 0 then create_new_letter s2 else s2)"
  have s3: "typing_inv (int (?f mod 10)) (?f div 10) s3" "frames s3 = ?f"
  proof -
    have hz: "HZ div CHARACTER_PER_SECOND = 10" by (simp add: HZ_def CHARACTER_PER_SECOND_def)
    show "typing_inv (int (?f mod 10)) (?f div 10) s3"
      using s2(2) create_inv [of ?k s2] next_frame [of "frames s"]
      unfolding s3_def s2(3) hz by (cases "frames s mod 10 = 9") (simp_all add: add.commute)
    show "frames s3 = ?f" using s2 create_inv [of ?k s2] next_frame [of "frames s"]
      by (cases "frames s mod 10 = 9") (simp_all add: s3_def hz)
  qed
  obtain s4 where s4: "update_letter_pos s3 = Inr s4" "typing_inv (int (?f mod 10) + 1) (?f div 10) s4" "frames s4 = ?f"
    using update_inv [OF s3(1)] s3(2) by auto
  have upd: "frames s3 mod (HZ div UPDATE_PER_SECOND) = 0" by (simp add: HZ_def UPDATE_PER_SECOND_def)
  have eq: "typing_frame font sw sh f s = (if redraw
      then redraw_screen font sw sh (s4\<lparr>num_draw := num_draw s4 + 1, real_fps := (num_draw s4 + 1) * 1000 div time\<rparr>)
      else Inr s4)"
    unfolding typing_frame_def f prod.case redraw_def [symmetric] Let_def s1_def [symmetric] s2(1) bindr_simps
      s3_def [symmetric] upd s4(1) by simp
  show ?thesis
  proof (cases redraw)
    case True
    let ?s = "s4\<lparr>num_draw := num_draw s4 + 1, real_fps := (num_draw s4 + 1) * 1000 div time\<rparr>"
    have "typing_inv (int (?f mod 10) + 1) (?f div 10) ?s" by (rule typing_inv_same [OF s4(2)]) simp_all
    moreover have "?f div 10 < 10 ^ 40" using small by simp
    ultimately obtain s' where "redraw_screen font sw sh ?s = Inr s'"
      "typing_inv (int (?f mod 10) + 1) (?f div 10) s'" "frames s' = frames ?s"
      using redraw_inv size by blast
    then show ?thesis using True s4(3) unfolding eq frame_inv_def by auto
  next
    case False
    then show ?thesis using s4 unfolding eq frame_inv_def by auto
  qed
qed

lemma start_inv: "frame_inv (typing_start seed)"
  unfolding frame_inv_def typing_inv_def
  by (intro exI [of _ "[]"]) (simp add: typing_start_def typing_rep_def linked_def letters_def)

lemma frames_ok:
  "frame_inv s \<Longrightarrow> frames s + length fs < 10 ^ 39 \<Longrightarrow> W \<le> sw \<Longrightarrow> H \<le> sh \<Longrightarrow>
     \<exists>s'. typing_frames font sw sh fs s = Inr s' \<and> frame_inv s' \<and> frames s' = frames s + length fs"
proof (induction fs arbitrary: s)
  case (Cons f fs)
  obtain s1 where s1: "typing_frame font sw sh f s = Inr s1" "frame_inv s1" "frames s1 = frames s + 1"
    using frame_ok [OF Cons.prems(1) _ Cons.prems(3,4), of font f] Cons.prems(2) by auto
  then show ?case using Cons.IH [OF s1(2) _ Cons.prems(3,4)] Cons.prems(2) by simp
qed simp

text \<open>
  C36. The typing game never fails: whatever keys come and whenever the frames are, on a screen the picture
  fits on, no loop over the letters is endless, the pool of nodes is never used up while they are linked and
  no pixel is drawn before the canvas; every tenth frame has made a letter, and every letter made is on the
  screen, one of at most 26, or was counted as a hit or a miss.
\<close>

theorem typing_runs:
  assumes "W \<le> sw" and "H \<le> sh" and "length fs < 2 ^ 31"
  shows "\<exists>s xs. typing_frames font sw sh fs (typing_start seed) = Inr s \<and>
    linked (fly_pool s) xs \<and> head s = hd_opt xs \<and> distinct xs \<and> set xs \<subseteq> {..POOL} \<and> length xs \<le> 26 \<and>
    list_all (\<lambda>(x, y, t, v). 0 \<le> x \<and> x + 8 \<le> W \<and> 0 \<le> y \<and> y + 8 \<le> H \<and> t < 26) (letters s xs) \<and>
    hit s + miss s + length xs = length fs div 10"
proof -
  have "frames (typing_start seed) + length fs < 10 ^ 39" using assms(3) by (simp add: typing_start_def)
  then obtain s where s: "typing_frames font sw sh fs (typing_start seed) = Inr s" "frame_inv s" "frames s = length fs"
    using frames_ok [OF start_inv _ assms(1,2), of seed fs font] by (auto simp: typing_start_def)
  obtain xs ys ps where r: "typing_rep s xs ys" "letters s xs = map fst ps"
    "aged (int (length fs mod 10) + 1) ps" "hit s + miss s + length ps = length fs div 10"
    using s(2) unfolding frame_inv_def typing_inv_def s(3) by blast
  have len: "length xs = length ps" using arg_cong [OF r(2), of length] by (simp add: letters_def)
  have "length xs \<le> 26" using aged_length [OF r(3)] len by (cases "ps = []") auto
  moreover have "list_all (\<lambda>(x, y, t, v). 0 \<le> x \<and> x + 8 \<le> W \<and> 0 \<le> y \<and> y + 8 \<le> H \<and> t < 26) (map fst ps)"
    using aged_ok [OF r(3)] by (fastforce simp: list_all_iff W_def H_def)
  moreover have "set xs \<subseteq> {..POOL}" "linked (fly_pool s) xs" "head s = hd_opt xs" "distinct xs"
    using r(1) by (auto simp: typing_rep_def)
  ultimately show ?thesis using s(1) r(2,4) len by auto
qed

theorem typing_runs_witness:
  "\<exists>s xs. typing_frames (\<lambda>_ _. 0x7F) 640 480 (replicate 25 (7, [0x801E, 0x1E])) (typing_start 1) = Inr s \<and>
    linked (fly_pool s) xs \<and> length xs \<le> 26 \<and> hit s + miss s + length xs = 2"
  using typing_runs [of 640 480 "replicate 25 (7, [0x801E, 0x1E])" "\<lambda>_ _. 0x7F" 1]
  by (auto simp: W_def H_def)

end
