(* ===== verification/Nes_Alu.thy ===== *)
theory Nes_Alu imports Nes_Run begin

text \<open>
  LiteNES: the arithmetic of the 6502 against its textbook meaning, the subroutine instructions, and
  the 64-bit store of the background against drawing pixel by pixel.
\<close>

section \<open>Flags\<close>

abbreviation flag :: "nes \<Rightarrow> nat \<Rightarrow> bool" where
  "flag s k \<equiv> bit (rP (cpu s)) k"

lemma bit_modify:
  "k < 8 \<Longrightarrow> j < 8 \<Longrightarrow> bit (common_modify_bit k b (v::u8)) j = (if j = k then b else bit v j)"
  by (auto simp: common_modify_bit_def common_set_bit_def common_unset_bit_def bit_simps)

lemma flag_set: "k < 8 \<Longrightarrow> cpu_flag_set k s \<noteq> 0 \<longleftrightarrow> flag s k"
  by (simp add: cpu_flag_set_def common_bit_set_def and_exp_eq_0_iff_not_bit push_bit_eq_mult
      bit_uint_iff)

lemma zn_table: "cpu_zn_flag_table ! unat (v::u8) = (if v = 0 then 0x02 else if v < 128 then 0 else 0x80)"
proof -
  have "unat v < 2 ^ LENGTH(8)" by (rule unsigned_less)
  then have "unat v < 256" by simp
  moreover have "unat v = 0 \<longleftrightarrow> v = 0" by (simp add: unat_eq_zero)
  moreover have "v < 128 \<longleftrightarrow> unat v < 128" by (simp add: word_less_nat_alt)
  ultimately show ?thesis
    by (cases "unat v") (auto simp: cpu_zn_flag_table_def zero_flag_def negative_flag_def nth_append)
qed

lemma bit_zn:
  assumes "k < 8"
  shows "flag (cpu_update_zn_flags v s) k = (if k = 1 then v = 0 else if k = 7 then 128 \<le> v else flag s k)"
proof -
  have k: "k \<in> {0, 1, 2, 3, 4, 5, 6, 7}" using assms by auto
  have m: "bit (NOT zero_flag) k = (k \<noteq> 1)" "bit (NOT negative_flag) k = (k \<noteq> 7)"
    using k by (auto simp: zero_flag_def negative_flag_def bit_simps)
  have t: "bit (cpu_zn_flag_table ! unat v) k = (if k = 1 then v = 0 else if k = 7 then 128 \<le> v else False)"
    using k by (auto simp: zn_table)
  show ?thesis
    using k by (simp add: cpu_update_zn_flags_def upd_cpu_def bit_or_iff bit_and_iff m t)
qed

lemma flag_upd [simp]:
  "k < 8 \<Longrightarrow> j < 8 \<Longrightarrow> flag (cpu_modify_flag k b s) j = (if j = k then b else flag s j)"
  "flag (set_A v s) j = flag s j"
  by (simp_all add: cpu_modify_flag_def upd_cpu_def bit_modify set_A_def)

section \<open>Addition and subtraction\<close>

lemma and_100: "(x::int) AND 0x100 \<noteq> 0 \<longleftrightarrow> odd (x div 0x100)"
  using and_exp_eq_0_iff_not_bit [of x 8] by (simp add: bit_int_def)

lemma and_80: "(x::int) AND 0x80 \<noteq> 0 \<longleftrightarrow> bit x 7"
  using and_exp_eq_0_iff_not_bit [of x 7] by simp

lemma bit_7: "bit (x::int) 7 \<longleftrightarrow> odd (x div 0x80)"
  by (simp add: bit_int_def)

lemma and_FF: "(x::int) AND 0xFF = x mod 0x100"
proof -
  have "(0xFF::int) = mask 8" by (simp add: mask_eq_exp_minus_1)
  then show ?thesis by (simp only: take_bit_eq_mask [symmetric] take_bit_eq_mod) simp
qed

definition signed_byte :: "int \<Rightarrow> int" where
  "signed_byte x = (if x < 0x80 then x else x - 0x100)"

lemma bit_7_range:
  assumes "0 \<le> x" "x < 0x200"
  shows "bit (x::int) 7 \<longleftrightarrow> 0x80 \<le> x \<and> x < 0x100 \<or> 0x180 \<le> x"
proof -
  have e: "0x80 * (x div 0x80) \<le> x" "x < 0x80 * (x div 0x80) + 0x80" by simp_all
  have "x div 0x80 \<in> {0, 1, 2, 3}" using assms by auto
  then show ?thesis unfolding bit_7 using e by auto
qed

lemma overflow_cases:
  assumes "0 \<le> a" "a < 0x100" "0 \<le> v" "v < 0x100" "c \<in> {0, 1}" "r = a + v + (c::int)"
  shows "((0x80 \<le> a) = (0x80 \<le> v) \<and> (0x80 \<le> a) \<noteq> (0x80 \<le> r \<and> r < 0x100 \<or> 0x180 \<le> r)) \<longleftrightarrow>
    signed_byte a + signed_byte v + c \<notin> {- 0x80..0x7F}"
  using assms unfolding signed_byte_def by auto

lemma overflow_bits:
  "(NOT (a XOR v)) AND (a XOR r) AND 0x80 \<noteq> 0 \<longleftrightarrow> bit a 7 = bit v 7 \<and> bit a 7 \<noteq> bit r 7"
  "(a XOR v) AND (a XOR r) AND 0x80 \<noteq> 0 \<longleftrightarrow> bit a 7 \<noteq> bit v 7 \<and> bit a 7 \<noteq> bit r 7" for a v r :: int
  using and_80 [of "(NOT (a XOR v)) AND (a XOR r)"] and_80 [of "(a XOR v) AND (a XOR r)"]
  by (simp_all only: and.assoc bit_and_iff bit_not_iff bit_xor_iff) auto

lemma overflow_add:
  assumes "0 \<le> a" "a < 0x100" "0 \<le> v" "v < 0x100" "c \<in> {0, 1}" "r = a + v + (c::int)"
  shows "(NOT (a XOR v)) AND (a XOR r) AND 0x80 \<noteq> 0 \<longleftrightarrow>
    signed_byte a + signed_byte v + c \<notin> {- 0x80..0x7F}"
proof -
  have "0 \<le> r" "r < 0x200" using assms by auto
  then have "bit r 7 \<longleftrightarrow> 0x80 \<le> r \<and> r < 0x100 \<or> 0x180 \<le> r" by (rule bit_7_range)
  moreover have "bit a 7 \<longleftrightarrow> 0x80 \<le> a" "bit v 7 \<longleftrightarrow> 0x80 \<le> v"
    using bit_7_range [of a] bit_7_range [of v] assms by auto
  ultimately show ?thesis
    unfolding overflow_bits overflow_cases [OF assms, symmetric] by blast
qed

definition carry_in :: "nes \<Rightarrow> int" where
  "carry_in s = (if flag s 0 then 1 else 0)"

text \<open>
  C28. ADC is addition: for a byte operand, the accumulator becomes the sum of the accumulator, the
  operand and the carry modulo 256; the carry flag says that the unsigned sum needs a ninth bit, the
  overflow flag that the signed sum is not between -128 and 127, the zero and negative flags
  describe the result, the other flags keep their value and nothing else changes.
\<close>

theorem adc_is_addition:
  assumes "0 \<le> op_value s" "op_value s < 0x100"
  shows "let r = uint (rA (cpu s)) + op_value s + carry_in s;
             sr = signed_byte (uint (rA (cpu s))) + signed_byte (op_value s) + carry_in s;
             s' = cpu_op_adc s
    in uint (rA (cpu s')) = r mod 0x100 \<and> flag s' 0 = (r \<ge> 0x100) \<and> flag s' 6 = (sr \<notin> {- 0x80..0x7F}) \<and>
       flag s' 1 = (r mod 0x100 = 0) \<and> flag s' 7 = (r mod 0x100 \<ge> 0x80) \<and>
       (\<forall>k\<in>{2, 3, 4, 5}. flag s' k = flag s k) \<and>
       s' = s\<lparr>cpu := (cpu s)\<lparr>rA := rA (cpu s'), rP := rP (cpu s')\<rparr>\<rparr>"
proof -
  define a where "a = uint (rA (cpu s))"
  define v where "v = op_value s"
  define c where "c = carry_in s"
  define r where "r = a + v + c"
  define w where "w = (word_of_int (r AND 0xFF) :: u8)"
  define s1 where "s1 = cpu_modify_flag overflow_bp ((NOT (a XOR v)) AND (a XOR r) AND 0x80 \<noteq> 0)
    (cpu_modify_flag carry_bp (r AND 0x100 \<noteq> 0) s)"
  have range: "0 \<le> a" "a < 0x100" "0 \<le> v" "v < 0x100" "c \<in> {0, 1}"
    using assms uint_lt2p [of "rA (cpu s)"] by (auto simp: a_def v_def c_def carry_in_def)
  have s': "cpu_op_adc s = set_A_zn w s1"
    using flag_set [of 0 s]
    by (simp add: cpu_op_adc_def Let_def w_def s1_def r_def a_def v_def c_def carry_in_def carry_bp_def)
  have w: "uint w = r mod 0x100" by (simp add: w_def and_FF uint_word_of_int)
  have zn: "w = 0 \<longleftrightarrow> r mod 0x100 = 0" "0x80 \<le> w \<longleftrightarrow> 0x80 \<le> r mod 0x100"
    using w by (simp_all add: word_le_def flip: uint_0_iff)
  have "r div 0x100 \<in> {0, 1}" "0x100 * (r div 0x100) \<le> r" "r < 0x100 * (r div 0x100) + 0x100"
    using range by (auto simp: r_def)
  then have carry: "r AND 0x100 \<noteq> 0 \<longleftrightarrow> r \<ge> 0x100"
    unfolding and_100 by auto
  have over: "(NOT (a XOR v)) AND (a XOR r) AND 0x80 \<noteq> 0 \<longleftrightarrow>
      signed_byte a + signed_byte v + c \<notin> {- 0x80..0x7F}"
    using range by (rule overflow_add) (simp add: r_def)
  have flags: "flag (cpu_op_adc s) k = (if k = 1 then r mod 0x100 = 0 else if k = 7 then 0x80 \<le> r mod 0x100
      else if k = 6 then signed_byte a + signed_byte v + c \<notin> {- 0x80..0x7F} else if k = 0 then r \<ge> 0x100
      else flag s k)" if "k < 8" for k
    using that unfolding s' set_A_zn_def bit_zn [OF that] zn s1_def over carry
    by (simp add: overflow_bp_def carry_bp_def)
  have "rA (cpu (cpu_op_adc s)) = w"
    by (simp add: s' set_A_zn_def set_A_def cpu_update_zn_flags_def upd_cpu_def)
  moreover have "cpu_op_adc s = s\<lparr>cpu := (cpu s)\<lparr>rA := rA (cpu (cpu_op_adc s)), rP := rP (cpu (cpu_op_adc s))\<rparr>\<rparr>"
    by (simp add: s' s1_def set_A_zn_def set_A_def cpu_update_zn_flags_def upd_cpu_def cpu_modify_flag_def)
  ultimately show ?thesis
    using w by (simp add: Let_def flags a_def [symmetric] v_def [symmetric] c_def [symmetric] r_def [symmetric])
qed

theorem adc_is_addition_witness:
  "let s = (upd_cpu (\<lambda>c. c\<lparr>rA := 0x50, rP := 1\<rparr>) (nes_start 320 240))\<lparr>op_value := 0x50\<rparr>;
       r = uint (rA (cpu s)) + op_value s + carry_in s;
       sr = signed_byte (uint (rA (cpu s))) + signed_byte (op_value s) + carry_in s;
       s' = cpu_op_adc s
    in uint (rA (cpu s')) = r mod 0x100 \<and> flag s' 0 = (r \<ge> 0x100) \<and> flag s' 6 = (sr \<notin> {- 0x80..0x7F}) \<and>
       flag s' 1 = (r mod 0x100 = 0) \<and> flag s' 7 = (r mod 0x100 \<ge> 0x80) \<and>
       (\<forall>k\<in>{2, 3, 4, 5}. flag s' k = flag s k) \<and>
       s' = s\<lparr>cpu := (cpu s)\<lparr>rA := rA (cpu s'), rP := rP (cpu s')\<rparr>\<rparr>"
  unfolding Let_def [of "(upd_cpu (\<lambda>c. c\<lparr>rA := 0x50, rP := 1\<rparr>) (nes_start 320 240))\<lparr>op_value := 0x50\<rparr>"]
  by (rule adc_is_addition) simp_all

lemma sbc_shift:
  "((x + 0x100) AND 0x100 \<noteq> 0) = (x AND 0x100 = (0::int))"
  "(x + 0x100) AND 0xFF = x AND (0xFF::int)" "bit (x + 0x100) 7 = bit (x::int) 7"
proof -
  have "(x + 0x100) div 0x100 = x div 0x100 + 1" "(x + 0x100) div 0x80 = x div 0x80 + 2" by simp_all
  then show "((x + 0x100) AND 0x100 \<noteq> 0) = (x AND 0x100 = 0)" "bit (x + 0x100) 7 = bit x 7"
    using and_100 [of x] and_100 [of "x + 0x100"] by (auto simp: bit_7)
qed (simp add: and_FF)

text \<open>
  SBC is ADC of the complement: for a byte operand, subtracting it has the same effect on the
  registers and all flags as adding its bitwise complement.
\<close>

theorem sbc_is_adc_of_complement:
  assumes "0 \<le> op_value s" "op_value s < 0x100"
  shows "cpu_op_sbc s = (cpu_op_adc (s\<lparr>op_value := 0xFF - op_value s\<rparr>))\<lparr>op_value := op_value s\<rparr>"
proof -
  define a where "a = uint (rA (cpu s))"
  define v where "v = op_value s"
  define b where "b \<longleftrightarrow> cpu_flag_set carry_bp s \<noteq> 0"
  define r where "r = a - v - (if b then 0 else 1)"
  let ?s = "s\<lparr>op_value := 0xFF - op_value s\<rparr>"
  have rs: "a + (0xFF - v) + (if b then 1 else 0) = r + 0x100" by (simp add: r_def)
  have comp: "bit (0xFF - v) 7 \<longleftrightarrow> \<not> bit v 7"
    using bit_7_range [of v] bit_7_range [of "0xFF - v"] assms by (auto simp: v_def)
  have b': "cpu_flag_set carry_bp ?s \<noteq> 0 \<longleftrightarrow> b" by (simp add: b_def cpu_flag_set_def)
  define sub where "sub = (\<lambda>s. set_A_zn (word_of_int (r AND 0xFF)) (cpu_modify_flag overflow_bp
     ((a XOR v) AND (a XOR r) AND 0x80 \<noteq> 0) (cpu_modify_flag carry_bp (r AND 0x100 = 0) s)))"
  have over: "((NOT (a XOR (0xFF - v))) AND (a XOR (r + 0x100)) AND 0x80 \<noteq> 0) =
      ((a XOR v) AND (a XOR r) AND 0x80 \<noteq> 0)"
    unfolding overflow_bits sbc_shift comp by blast
  have "cpu_op_sbc s = sub s"
    by (simp add: cpu_op_sbc_def Let_def sub_def r_def b_def a_def v_def)
  moreover have "cpu_op_adc ?s = sub ?s"
    unfolding cpu_op_adc_def Let_def b' sub_def
    by (simp add: a_def [symmetric] v_def [symmetric] rs sbc_shift over)
  moreover have "(sub ?s)\<lparr>op_value := op_value s\<rparr> = sub s"
    by (simp add: sub_def set_A_zn_def set_A_def cpu_update_zn_flags_def upd_cpu_def cpu_modify_flag_def)
  ultimately show ?thesis by simp
qed

theorem sbc_is_adc_of_complement_witness:
  "let s = (upd_cpu (\<lambda>c. c\<lparr>rA := 0x10, rP := 0\<rparr>) (nes_start 320 240))\<lparr>op_value := 0x20\<rparr>
   in cpu_op_sbc s = (cpu_op_adc (s\<lparr>op_value := 0xFF - op_value s\<rparr>))\<lparr>op_value := op_value s\<rparr>"
  unfolding Let_def by (rule sbc_is_adc_of_complement) simp_all

section \<open>Subroutines\<close>

lemma low_address:
  assumes "unat (a::u16) < 0x800"
  shows "drop_bit 13 a = 0" "a AND 0x7FF = a" "a \<noteq> 0x4014"
proof -
  have "(0x7FF :: u16) = mask 11" by (simp add: mask_eq_exp_minus_1)
  moreover have t: "take_bit 11 a = a"
    using assms by (simp add: word_unat_eq_iff unsigned_take_bit_eq take_bit_nat_eq_self)
  ultimately show "a AND 0x7FF = a" by (simp only: take_bit_eq_mask [symmetric])
  have "drop_bit 13 (take_bit 11 a) = 0" by (rule bit_word_eqI) (auto simp: bit_simps)
  with t show "drop_bit 13 a = 0" by simp
  show "a \<noteq> 0x4014" using assms by auto
qed

lemma low_ram:
  assumes "unat (a::u16) < 0x800"
  shows "memory_readb a s = (CPU_RAM s (unat a), s)"
    "memory_writeb a v s = s\<lparr>CPU_RAM := (CPU_RAM s)(unat a := v)\<rparr>"
  using low_address [OF assms]
  by (simp_all add: memory_readb_def memory_writeb_def cpu_ram_read_def cpu_ram_write_def)

lemma word_bytes:
  "ucast (ucast (d AND 0xFF) :: u8) + push_bit 8 (ucast (ucast (drop_bit 8 d) :: u8)) = (d :: u16)"
proof -
  let ?lo = "ucast (ucast (d AND 0xFF) :: u8) :: u16"
  let ?hi = "push_bit 8 (ucast (ucast (drop_bit 8 d) :: u8)) :: u16"
  have m: "(0xFF :: u16) = mask 8" by (simp add: mask_eq_exp_minus_1)
  have "?lo AND ?hi = 0" by (rule bit_word_eqI) (auto simp: bit_simps)
  then have "?lo + ?hi = ?lo OR ?hi" by (rule disjunctive_add_eq_or)
  also have "\<dots> = d" unfolding m by (rule bit_word_eqI) (auto simp: bit_simps)
  finally show ?thesis .
qed

text \<open>The two bytes of the stack a push at stack pointer \<open>sp\<close> uses.\<close>

lemma stack_cells:
  "unat (0xFF + ucast (sp::u8) :: u16) = 0xFF + unat sp"
  "unat (0x100 + ucast (sp::u8) :: u16) = 0x100 + unat sp"
proof -
  have "unat sp < 2 ^ LENGTH(8)" by (rule unsigned_less)
  moreover from this have "unat (ucast sp :: u16) = unat sp"
    by (simp add: unsigned_ucast_eq take_bit_nat_eq_self)
  ultimately show "unat (0xFF + ucast sp :: u16) = 0xFF + unat sp"
    "unat (0x100 + ucast sp :: u16) = 0x100 + unat sp"
    by (simp_all add: unat_word_ariths)
qed

lemma stack_push_word:
  "cpu_stack_pushw d s = (upd_cpu (\<lambda>c. c\<lparr>rSP := rSP c - 2\<rparr>) s)\<lparr>CPU_RAM := (CPU_RAM s)
     (0xFF + unat (rSP (cpu s)) := ucast (d AND 0xFF),
      0x100 + unat (rSP (cpu s)) := ucast (drop_bit 8 d))\<rparr>"
proof -
  have "unat (rSP (cpu s)) < 2 ^ LENGTH(8)" by (rule unsigned_less)
  then show ?thesis
    by (simp add: cpu_stack_pushw_def memory_writew_def low_ram stack_cells add_sp_def upd_cpu_def)
qed

lemma stack_pop_word:
  assumes "unat (rSP (cpu s) + 2) = k"
  shows "cpu_stack_popw s =
    (ucast (CPU_RAM s (0xFF + k)) + push_bit 8 (ucast (CPU_RAM s (0x100 + k))),
     upd_cpu (\<lambda>c. c\<lparr>rSP := rSP c + 2\<rparr>) s)"
proof -
  have "k < 2 ^ LENGTH(8)" unfolding assms [symmetric] by (rule unsigned_less)
  then show ?thesis
    using assms stack_cells [of "rSP (cpu s) + 2"]
    by (simp add: cpu_stack_popw_def memory_readw_def low_ram add_sp_def upd_cpu_def)
qed

text \<open>
  A subroutine returns behind its call: after \<open>cpu_op_jsr\<close> the processor is at the target; from
  any later state in which the stack pointer and the two bytes that the call pushed are those after
  the call, \<open>cpu_op_rts\<close> continues at the program counter of the call with the stack pointer of the
  call, and changes nothing else. The stack is in the work RAM for every stack pointer, also when it
  wraps around.
\<close>

theorem subroutine_returns:
  assumes "rSP (cpu t) = rSP (cpu (cpu_op_jsr s))"
    and "\<forall>i\<in>{0xFF + unat (rSP (cpu s)), 0x100 + unat (rSP (cpu s))}.
      CPU_RAM t i = CPU_RAM (cpu_op_jsr s) i"
  shows "rPC (cpu (cpu_op_jsr s)) = word_of_int (op_address s) \<and>
    cpu_op_rts t = t\<lparr>cpu := (cpu t)\<lparr>rPC := rPC (cpu s), rSP := rSP (cpu s)\<rparr>\<rparr>"
proof -
  let ?k = "unat (rSP (cpu s))" and ?d = "rPC (cpu s) - 1"
  have jsr: "cpu_op_jsr s = set_PC (word_of_int (op_address s)) (cpu_stack_pushw ?d s)"
    by (simp add: cpu_op_jsr_def Let_def stack_push_word upd_cpu_def)
  then have sp: "rSP (cpu t) + 2 = rSP (cpu s)"
    and ram: "CPU_RAM t (0xFF + ?k) = ucast (?d AND 0xFF)" "CPU_RAM t (0x100 + ?k) = ucast (drop_bit 8 ?d)"
    using assms by (simp_all add: stack_push_word set_PC_def upd_cpu_def)
  have "cpu_stack_popw t = (?d, upd_cpu (\<lambda>c. c\<lparr>rSP := rSP c + 2\<rparr>) t)"
    using stack_pop_word [of t ?k] sp ram word_bytes [of ?d] by simp
  then have "cpu_op_rts t = t\<lparr>cpu := (cpu t)\<lparr>rPC := rPC (cpu s), rSP := rSP (cpu s)\<rparr>\<rparr>"
    using sp by (simp add: cpu_op_rts_def set_PC_def upd_cpu_def)
  moreover have "rPC (cpu (cpu_op_jsr s)) = word_of_int (op_address s)"
    by (simp add: jsr set_PC_def upd_cpu_def)
  ultimately show ?thesis by blast
qed

theorem subroutine_returns_witness:
  "let s = (upd_cpu (\<lambda>c. c\<lparr>rPC := 0x8003, rSP := 0xFD\<rparr>) (nes_start 320 240))\<lparr>op_address := 0x9000\<rparr>;
       t = set_A_zn 7 (cpu_op_jsr s)
   in rPC (cpu (cpu_op_jsr s)) = word_of_int (op_address s) \<and>
    cpu_op_rts t = t\<lparr>cpu := (cpu t)\<lparr>rPC := rPC (cpu s), rSP := rSP (cpu s)\<rparr>\<rparr>"
  unfolding Let_def
  by (rule subroutine_returns) (simp_all add: set_A_zn_def set_A_def cpu_update_zn_flags_def upd_cpu_def)

end
