(* ===== verification/Nes_Background.thy ===== *)
theory Nes_Background imports Nes_Run begin

text \<open>
  LiteNES: the 64-bit store that keeps eight background colours at once, against the loop over the
  pixels that it replaces. \<open>int_shl\<close> extends the sign of its low half, so the mask of pixel 3 also
  covers the pixels 4 to 7, and a shift by 0 repeats its operand in the high half.
\<close>

definition byte_of :: "64 word \<Rightarrow> nat \<Rightarrow> u8" where
  "byte_of w i = ucast (drop_bit (8 * i) w)"

lemma int_shl_bytes:
  "\<forall>x\<in>set [0..<8]. \<forall>i\<in>set [0..<8]. byte_of (int_shl 0xff (x * 8)) i =
     (if i = x \<or> x = 0 \<and> i = 4 \<or> x = 3 \<and> 3 < i then 0xFF else 0)"
  by code_simp

lemma int_shl_color_bytes:
  "\<forall>c\<in>set [0..<4]. \<forall>x\<in>set [0..<8]. \<forall>i\<in>set [0..<8]. byte_of (int_shl (int c) (x * 8)) i =
     (if i = x \<or> x = 0 \<and> i = 4 then of_nat c else 0)"
  by code_simp

lemma byte_of_ops:
  "byte_of (a OR b) i = byte_of a i OR byte_of b i"
  "byte_of (a AND b) i = byte_of a i AND byte_of b i"
  "byte_of 0 i = 0"
  unfolding byte_of_def by (rule bit_word_eqI, auto simp: bit_simps)+

lemma pixel_color_less: "pixel_color x h l < 4"
proof -
  have "a AND 1 = (if odd a then 1 else 0)" for a :: nat by (simp add: and_one_eq mod_2_eq_odd)
  then show ?thesis by (simp add: pixel_color_def)
qed

lemma upt_8: "[0..<8] = [0, 1, 2, 3, 4, 5, 6, 7]"
  by (simp add: upt_rec)

definition pixel :: "nat \<Rightarrow> nat \<Rightarrow> nat \<Rightarrow> u8" where
  "pixel h l x = of_nat (pixel_color x h l)"

lemma color_byte:
  assumes "x < 8" "i < 8"
  shows "byte_of (int_shl (int (pixel_color x h l)) (x * 8)) i = (if i = x \<or> x = 0 \<and> i = 4 then pixel h l x else 0)"
  using int_shl_color_bytes pixel_color_less [of x h l] assms by (simp add: pixel_def)

lemma XHL64_byte:
  assumes "i < 8"
  shows "byte_of (XHL64_entry h l 0) i = (if i = 4 then pixel h l 0 OR pixel h l 4 else pixel h l i)"
proof -
  have "i \<in> {0, 1, 2, 3, 4, 5, 6, 7}" using assms by auto
  then show ?thesis
    by (auto simp: XHL64_entry_def upt_8 byte_of_ops color_byte [of 0, simplified] color_byte [of 1, simplified]
        color_byte [of 2, simplified] color_byte [of 3, simplified] color_byte [of 4, simplified]
        color_byte [of 5, simplified] color_byte [of 6, simplified] color_byte [of 7, simplified])
qed

lemma mask_byte:
  assumes "x < 8" "i < 8"
  shows "byte_of (int_shl 0xff (x * 8)) i = (if i = x \<or> x = 0 \<and> i = 4 \<or> x = 3 \<and> 3 < i then 0xFF else 0)"
  using int_shl_bytes assms by simp

lemma pixel_0: "pixel h l x = 0 \<longleftrightarrow> pixel_color x h l = 0"
proof -
  have "pixel_color x h l \<in> {0, 1, 2, 3}" using pixel_color_less [of x h l] by auto
  then show ?thesis by (auto simp: pixel_def)
qed

text \<open>Byte \<open>i\<close> of the mask is full exactly when one of these pixels is transparent.\<close>

definition keeps_old :: "nat \<Rightarrow> nat \<Rightarrow> nat \<Rightarrow> bool" where
  "keeps_old h l i = (pixel h l i = 0 \<or> i = 4 \<and> pixel h l 0 = 0 \<or> 3 < i \<and> pixel h l 3 = 0)"

lemma if_or: "(if b then v OR a else v) = v OR (if b then a else (0 :: ('a::len) word))"
  by simp

lemma XHLmask_byte:
  assumes "i < 8"
  shows "byte_of (XHLmask_entry h l 0) i = (if keeps_old h l i then 0xFF else 0)"
proof -
  have i: "i \<in> {0, 1, 2, 3, 4, 5, 6, 7}" using assms by auto
  have b: "byte_of (if q then a else 0) i = (if q then byte_of a i else 0)" for q a
    by (simp add: byte_of_ops)
  show ?thesis
    unfolding XHLmask_entry_def upt_8 fold_simps if_or o_apply id_apply pixel_0 [symmetric] byte_of_ops b
    using i by (elim insertE emptyE) (simp_all add: keeps_old_def mask_byte [of 0, simplified] mask_byte [of 1, simplified]
        mask_byte [of 2, simplified] mask_byte [of 3, simplified] mask_byte [of 4, simplified]
        mask_byte [of 5, simplified] mask_byte [of 6, simplified] mask_byte [of 7, simplified])
qed

lemma load64_byte:
  assumes "i < 8"
  shows "byte_of (load64 r c) i = r (c + i)"
proof -
  have s: "byte_of (push_bit (8 * j) (ucast (b::u8))) i = (if i = j then b else 0)" if "j < 8" for j b
    using that assms unfolding byte_of_def
    by (intro bit_word_eqI) (auto simp: bit_simps dest: bit_imp_le_length)
  have i: "i \<in> {0, 1, 2, 3, 4, 5, 6, 7}" using assms by auto
  then show ?thesis
    unfolding load64_def upt_8 foldr_Cons foldr_Nil o_apply id_apply byte_of_ops
    by (auto simp: s [of 0, simplified] s [of 1, simplified] s [of 2, simplified] s [of 3, simplified]
        s [of 4, simplified] s [of 5, simplified] s [of 6, simplified] s [of 7, simplified])
qed

lemma store64_byte:
  assumes "i < 8"
  shows "store64 r c w (c + i) = byte_of w i"
  using assms by (simp add: store64_def byte_of_def)

text \<open>
  C29. What the 64-bit store does to a row of the kept background, against drawing pixel by pixel
  (a transparent pixel, colour 0, keeps the old value): with the tables that \<open>table_init\<close> computes,
  the pixels 0 to 3 of the tile are drawn exactly; pixel 4 mixes in the colour of pixel 0, and the
  pixels 4 to 7 are combined with the old value instead of replacing it whenever pixel 3 is
  transparent (or, for pixel 4, pixel 0). Every other pixel of the background is unchanged.
\<close>

theorem background_store_pixels:
  assumes "XHL64 s h l = XHL64_entry h l 0" "XHLmask s h l = XHLmask_entry h l 0"
  shows "let old = ppu_screen_background s line; new = ppu_screen_background (background_store line c h l s) line
    in (\<forall>i<4. new (c + i) = (if pixel h l i = 0 then old (c + i) else pixel h l i)) \<and>
       (\<forall>i\<in>{4..7}. new (c + i) = pixel h l i OR (if i = 4 then pixel h l 0 else 0) OR
          (if keeps_old h l i then old (c + i) else 0)) \<and>
       (\<forall>j. j < c \<or> c + 8 \<le> j \<longrightarrow> new j = old j)"
proof -
  let ?old = "ppu_screen_background s line"
  let ?w = "XHL64 s h l OR (XHLmask s h l AND load64 ?old c)"
  have new: "ppu_screen_background (background_store line c h l s) line = store64 ?old c ?w"
    by (simp add: background_store_def Let_def in_bounds_def)
  have full: "(0xFF :: u8) AND x = x" for x
  proof -
    have "(0xFF :: u8) = - 1" by simp
    then show ?thesis by (simp only:) simp
  qed
  have b: "store64 ?old c ?w (c + i) = (if i = 4 then pixel h l 0 OR pixel h l 4 else pixel h l i) OR
      (if keeps_old h l i then ?old (c + i) else 0)" if "i < 8" for i
    using that by (simp add: store64_byte byte_of_ops assms XHL64_byte XHLmask_byte load64_byte full)
  show ?thesis
    unfolding Let_def new
    by (auto simp: b keeps_old_def or.commute or.left_commute) (simp_all add: store64_def)
qed

theorem background_store_pixels_witness:
  "let s = table_init (nes_start 320 240); h = 0xEF; l = 0x10; line = 0; c = 8;
       old = ppu_screen_background s line; new = ppu_screen_background (background_store line c h l s) line
    in (\<forall>i<4. new (c + i) = (if pixel h l i = 0 then old (c + i) else pixel h l i)) \<and>
       (\<forall>i\<in>{4..7}. new (c + i) = pixel h l i OR (if i = 4 then pixel h l 0 else 0) OR
          (if keeps_old h l i then old (c + i) else 0)) \<and>
       (\<forall>j. j < c \<or> c + 8 \<le> j \<longrightarrow> new j = old j)"
  using background_store_pixels [of "table_init (nes_start 320 240)" "0xEF" "0x10" 0 8]
  by (simp add: table_init_def nes_start_def)

end
