(* ===== verification/Kvdb.thy ===== *)
theory Kvdb imports C_Base "HOL-Library.Char_ord" begin

text \<open>
  libkvdb/kvdb.c: a key-value store whose file is a journal of records \<open>\n<key> <value>\n\<close>. The
  file is the string on the disk, the text that \<open>fprintf\<close> has put into the buffer of the stream, and
  the position of the stream; \<open>fseek\<close> writes the buffer out, \<open>fsync\<close> does not (it works on the file
  descriptor). Which of the system calls that can fail succeed is an argument. One process is
  modelled; a crash is described by the part of the buffer that has reached the disk.
\<close>

section \<open>State\<close>

record kvdb =
  kv_open :: bool
  kv_disk :: string
  kv_pending :: string
  kv_pos :: nat
  kv_mutex :: bool
  kv_flock :: bool

datatype syscall = Access_R | Access_W | Fopen_new | Fopen | Mutex_init | Mutex_lock | Flock_ex
  | Flock_un | Flock_sh | Mutex_unlock | Mutex_destroy

text \<open>
  The locks: taking the mutex again in the process that holds it never returns; a failed call leaves
  the locks as they are.
\<close>

definition mutex_lock :: "(syscall \<Rightarrow> bool) \<Rightarrow> kvdb \<Rightarrow> bool \<times> kvdb" where
  "mutex_lock sys db = (if sys Mutex_lock then (True, db\<lparr>kv_mutex := True\<rparr>) else (False, db))"

definition mutex_unlock :: "(syscall \<Rightarrow> bool) \<Rightarrow> kvdb \<Rightarrow> bool \<times> kvdb" where
  "mutex_unlock sys db = (if sys Mutex_unlock then (True, db\<lparr>kv_mutex := False\<rparr>) else (False, db))"

definition flock_set :: "(syscall \<Rightarrow> bool) \<Rightarrow> syscall \<Rightarrow> kvdb \<Rightarrow> bool \<times> kvdb" where
  "flock_set sys c db = (if sys c then (True, db\<lparr>kv_flock := c \<noteq> Flock_un\<rparr>) else (False, db))"

text \<open>\<open>fseek\<close> to the end: the buffer goes to the disk first.\<close>

definition seek_end :: "kvdb \<Rightarrow> kvdb" where
  "seek_end db = db\<lparr>kv_disk := kv_disk db @ kv_pending db, kv_pending := [],
     kv_pos := length (kv_disk db @ kv_pending db)\<rparr>"

section \<open>Recovery\<close>

definition newline :: char where "newline = CHR 0x0A"
definition blank :: char where "blank = CHR '' ''"

text \<open>
  The inner loop of \<open>check_journal\<close>: back to the previous newline or the head of the file, counting
  blanks; the result says whether a newline was read, where the stream is, and the count.
\<close>

fun line_back :: "string \<Rightarrow> nat \<Rightarrow> nat \<Rightarrow> bool \<times> nat \<times> nat" where
  "line_back s 0 b = (False, 0, b)"
| "line_back s (Suc p) b =
    (if s ! p = newline then (True, p, b)
     else line_back s p (if s ! p = blank then b + 1 else b))"

lemma line_back_le: "line_back s p b = (f, q, b') \<Longrightarrow> f \<Longrightarrow> q < p"
  by (induction s p b rule: line_back.induct) (fastforce split: if_splits)+

lemma line_back_bound: "line_back s p b = (f, q, b') \<Longrightarrow> q \<le> p"
  by (induction s p b rule: line_back.induct) (fastforce split: if_splits)+

text \<open>The outer loop from position \<open>p\<close>; the result is \<open>to_trun\<close>.\<close>

function journal_loop :: "string \<Rightarrow> nat \<Rightarrow> nat" where
  "journal_loop s 0 = 0"
| "journal_loop s (Suc p) =
    (if s ! p = newline then
      (let (found, q, has_blank) = line_back s p 0 in
       if found \<and> has_blank = 1 then Suc p
       else if found then journal_loop s (q + 1)
       else journal_loop s q)
     else journal_loop s p)"
  by pat_completeness auto

termination
  by (relation "measure snd")
    (auto dest: line_back_le [OF sym] line_back_bound [OF sym] simp: less_Suc_eq_le)

definition check_journal :: "kvdb \<Rightarrow> int \<times> kvdb" where
  "check_journal db0 =
    (let db = seek_end db0;
         to_trun = journal_loop (kv_disk db) (kv_pos db)
     in (0, db\<lparr>kv_disk := take to_trun (kv_disk db)\<rparr>))"

section \<open>Opening and closing\<close>

text \<open>The steps that \<open>kvdb_open\<close>, \<open>kvdb_close\<close> and \<open>kvdb_put\<close> share: lock, recover, body, unlock.\<close>

definition locked :: "(syscall \<Rightarrow> bool) \<Rightarrow> (kvdb \<Rightarrow> kvdb) \<Rightarrow> kvdb \<Rightarrow> (int \<times> kvdb) result" where
  "locked sys body db =
    (if sys Mutex_lock \<and> kv_mutex db then Inl Hang
     else
       (let (ok1, db1) = mutex_lock sys db in if \<not> ok1 then Inr (- 1, db1)
        else (let (ok2, db2) = flock_set sys Flock_ex db1 in if \<not> ok2 then Inr (- 1, db2)
        else (let (r, db3) = check_journal db2 in if r \<noteq> 0 then Inr (- 1, db3)
        else (let (ok4, db4) = flock_set sys Flock_un (body db3) in if \<not> ok4 then Inr (- 1, db4)
        else (let (ok5, db5) = mutex_unlock sys db4 in if \<not> ok5 then Inr (- 1, db5)
        else Inr (0, db5)))))))"

definition kvdb_open :: "(syscall \<Rightarrow> bool) \<Rightarrow> string option \<Rightarrow> kvdb \<Rightarrow> (int \<times> kvdb) result" where
  "kvdb_open sys file db =
    (case file of
      Some content \<Rightarrow>
        if \<not> sys Access_R \<or> \<not> sys Access_W then Inr (- 1, db)
        else if \<not> sys Fopen then Inr (- 1, db\<lparr>kv_open := False\<rparr>)
        else
          (let db1 = db\<lparr>kv_open := True, kv_disk := content, kv_pending := [], kv_pos := 0\<rparr>
           in if \<not> sys Mutex_init then Inr (- 1, db1)
              else locked sys (\<lambda>d. d) (db1\<lparr>kv_mutex := False\<rparr>))
    | None \<Rightarrow>
        if \<not> sys Fopen_new then Inr (- 1, db)
        else if \<not> sys Fopen then Inr (- 1, db\<lparr>kv_open := False\<rparr>)
        else
          (let db1 = db\<lparr>kv_open := True, kv_disk := [], kv_pending := [], kv_pos := 0\<rparr>
           in if \<not> sys Mutex_init then Inr (- 1, db1) else Inr (0, db1\<lparr>kv_mutex := False\<rparr>)))"

definition kvdb_close :: "(syscall \<Rightarrow> bool) \<Rightarrow> kvdb \<Rightarrow> (int \<times> kvdb) result" where
  "kvdb_close sys db =
    bindr (locked sys (\<lambda>d. d) db) (\<lambda>(r, db1).
      if r \<noteq> 0 then Inr (- 1, db1)
      else if \<not> sys Mutex_destroy then Inr (- 1, db1)
      else if \<not> kv_open db1 then Inr (- 1, db1)
      else Inr (0, db1\<lparr>kv_disk := kv_disk db1 @ kv_pending db1, kv_pending := []\<rparr>))"

section \<open>Writing\<close>

definition record_text :: "string \<Rightarrow> string \<Rightarrow> string" where
  "record_text key v = newline # key @ blank # v @ [newline]"

text \<open>\<open>fprintf\<close> fills the buffer of the stream; \<open>fsync\<close> of the descriptor leaves it there.\<close>

definition append_record :: "string \<Rightarrow> string \<Rightarrow> kvdb \<Rightarrow> kvdb" where
  "append_record key v db0 =
    (let db = seek_end db0
     in db\<lparr>kv_pending := kv_pending db @ record_text key v, kv_pos := kv_pos db + length (record_text key v)\<rparr>)"

definition kvdb_put :: "(syscall \<Rightarrow> bool) \<Rightarrow> string \<Rightarrow> string \<Rightarrow> kvdb \<Rightarrow> (int \<times> kvdb) result" where
  "kvdb_put sys key v db =
    (if \<not> kv_open db then Inr (- 1, db) else locked sys (append_record key v) db)"

section \<open>Reading\<close>

definition is_space :: "char \<Rightarrow> bool" where
  "is_space c = (c \<in> {CHR '' '', CHR 0x09, CHR 0x0A, CHR 0x0B, CHR 0x0C, CHR 0x0D})"

text \<open>Back to the character \<open>c\<close> or the head of the file; the number of characters read and the position.\<close>

fun back_to :: "char \<Rightarrow> string \<Rightarrow> nat \<Rightarrow> nat \<Rightarrow> nat \<times> nat" where
  "back_to c s 0 n = (n, 0)"
| "back_to c s (Suc p) n = (if s ! p = c then (n + 1, p) else back_to c s p (n + 1))"

text \<open>
  \<open>fscanf_val\<close>: a buffer of \<open>len\<close> bytes, \<open>fscanf\<close> with \<open>%s\<close> into it, and back by \<open>len\<close> (a seek before
  the head fails and does not move). Without a word the buffer stays uninitialised, and a word that
  does not fit overruns it.
\<close>

definition fscanf_val :: "string \<Rightarrow> nat \<Rightarrow> nat \<Rightarrow> (string \<times> nat) result" where
  "fscanf_val s pos len =
    (let rest = drop pos s;
         skipped = takeWhile is_space rest;
         word = takeWhile (\<lambda>c. \<not> is_space c) (dropWhile is_space rest);
         p = pos + length skipped + length word
     in if word = [] \<or> len < length word + 1 then Inl BadAccess
        else Inr (takeWhile (\<lambda>c. c \<noteq> CHR 0x00) word, if p < len then p else p - len))"

partial_function (option) get_loop :: "string \<Rightarrow> string \<Rightarrow> nat \<Rightarrow> string option result option" where
  "get_loop s key pos =
    (if pos = 0 then Some (Inr None)
     else
       (let (vlen, p1) = back_to blank s (pos - 1) 0 in
        case fscanf_val s p1 vlen of
          Inl e \<Rightarrow> Some (Inl e)
        | Inr (v, p2) \<Rightarrow>
            (let (klen, p3) = back_to newline s p2 0 in
             case fscanf_val s p3 klen of
               Inl e \<Rightarrow> Some (Inl e)
             | Inr (k, p4) \<Rightarrow> if k = key then Some (Inr (Some v)) else get_loop s key p4)))"

declare get_loop.simps [code]

text \<open>\<open>kvdb_get\<close>: \<open>None\<close> for NULL; a reading loop that never ends is the fault \<open>Hang\<close>.\<close>

definition kvdb_get :: "(syscall \<Rightarrow> bool) \<Rightarrow> string \<Rightarrow> kvdb \<Rightarrow> (string option \<times> kvdb) result" where
  "kvdb_get sys key db =
    (if \<not> kv_open db then Inr (None, db)
     else if sys Mutex_lock \<and> kv_mutex db then Inl Hang
     else
       (let (ok1, db1) = mutex_lock sys db in if \<not> ok1 then Inr (None, db1)
        else (let (ok2, db2) = flock_set sys Flock_ex db1 in if \<not> ok2 then Inr (None, db2)
        else (let (r, db3) = check_journal db2 in if r \<noteq> 0 then Inr (None, db3)
        else (let (ok4, db4) = flock_set sys Flock_un db3 in if \<not> ok4 then Inr (None, db4)
        else (let (ok5, db5) = flock_set sys Flock_sh db4 in if \<not> ok5 then Inr (None, db5)
        else
          (let db6 = seek_end db5 in
           case get_loop (kv_disk db6) key (kv_pos db6) of
             None \<Rightarrow> Inl Hang
           | Some (Inl e) \<Rightarrow> Inl e
           | Some (Inr found) \<Rightarrow>
              (let (ok7, db7) = flock_set sys Flock_un db6 in if \<not> ok7 then Inr (None, db7)
               else (let (ok8, db8) = mutex_unlock sys db7 in if \<not> ok8 then Inr (None, db8)
               else Inr (found, db8))))))))))"

end
