(* ===== verification/Kvdb_Map.thy ===== *)
theory Kvdb_Map imports Kvdb begin

text \<open>
  libkvdb: the journal as a list of records. Recovery cuts a torn record off, reading gives the
  latest value of a key, and together with \<open>kvdb_put\<close> the store is a map.
\<close>

section \<open>Rendered journals\<close>

definition render :: "(string \<times> string) list \<Rightarrow> string" where
  "render rs = concat (map (\<lambda>(k, v). record_text k v) rs)"

lemma render_simps [simp]:
  "render [] = []"
  "render (rs @ [(k, v)]) = render rs @ record_text k v"
  by (simp_all add: render_def)

definition plain :: "string \<Rightarrow> bool" where
  "plain w = (newline \<notin> set w \<and> blank \<notin> set w)"

lemma newline_blank [simp]: "newline \<noteq> blank" "blank \<noteq> newline"
  by (simp_all add: newline_def blank_def)

section \<open>Recovery\<close>

lemma line_back_segment:
  assumes "newline \<notin> set m"
  shows "line_back (a @ newline # m @ t) (Suc (length a + length m)) b =
    (True, length a, b + length (filter ((=) blank) m))"
  using assms
proof (induction m arbitrary: t b rule: rev_induct)
  case (snoc c m)
  from snoc.IH [of "c # t"] snoc.prems show ?case
    by (auto simp: nth_append)
qed simp

lemma journal_skip:
  assumes "newline \<notin> set m"
  shows "journal_loop (a @ m @ t) (length a + length m) = journal_loop (a @ m @ t) (length a)"
  using assms
proof (induction m arbitrary: t rule: rev_induct)
  case (snoc c m)
  from snoc.IH [of "c # t"] snoc.prems show ?case
    by (auto simp: nth_append)
qed simp

lemma no_blank_filter: "plain w \<Longrightarrow> filter ((=) blank) w = []"
  by (auto simp: plain_def filter_empty_conv)

lemma journal_record:
  assumes "plain k" "plain v"
  shows "journal_loop (a @ record_text k v @ t) (length a + length (record_text k v)) =
    length a + length (record_text k v)"
proof -
  define m where "m = k @ blank # v"
  have m: "newline \<notin> set m" "length (filter ((=) blank) m) = 1"
    using assms by (auto simp: m_def no_blank_filter) (simp_all add: plain_def)
  have s: "a @ record_text k v @ t = a @ newline # m @ newline # t"
    and len: "length a + length (record_text k v) = Suc (Suc (length a + length m))"
    by (simp_all add: record_text_def m_def)
  have "(a @ newline # m @ newline # t) ! Suc (length a + length m) = newline"
    using nth_append_length [of "a @ newline # m" newline t] by simp
  then show ?thesis
    unfolding s len using line_back_segment [OF m(1), of a "newline # t" 0] by (simp add: m(2))
qed

definition plain_journal :: "(string \<times> string) list \<Rightarrow> bool" where
  "plain_journal rs = (\<forall>(k, v)\<in>set rs. plain k \<and> plain v)"

lemma journal_render:
  assumes "plain_journal rs"
  shows "journal_loop (render rs @ t) (length (render rs)) = length (render rs)"
proof (cases rs rule: rev_cases)
  case (snoc rs' r)
  then show ?thesis using assms journal_record [of "fst r" "snd r" "render rs'" t]
    by (cases r) (simp add: plain_journal_def)
qed simp

text \<open>A torn record: the newline of its start and a part without a newline.\<close>

lemma journal_torn:
  assumes "plain_journal rs" "newline \<notin> set m"
  shows "journal_loop (render rs @ newline # m) (length (render rs) + Suc (length m)) = length (render rs)"
proof -
  let ?s = "render rs @ newline # m"
  have "journal_loop ?s (length (render rs) + Suc (length m)) = journal_loop ?s (Suc (length (render rs)))"
    using journal_skip [OF assms(2), of "render rs @ [newline]" "[]"] by simp
  also have "\<dots> = length (render rs)"
  proof (cases rs rule: rev_cases)
    case (snoc rs' r)
    obtain a where a: "render rs = a @ [newline]" using snoc by (cases r) (auto simp: record_text_def)
    have "line_back ?s (length (render rs)) 0 = (True, length a, 0)" by (simp add: a nth_append)
    then show ?thesis
      using journal_render [OF assms(1), of "newline # m"] by (simp add: a)
  qed simp
  finally show ?thesis .
qed

lemma take_record:
  assumes "plain k" "plain v" "0 < n" "n < length (record_text k v)"
  obtains m where "take n (record_text k v) = newline # m" "newline \<notin> set m"
proof -
  obtain j where n: "n = Suc j" using assms(3) by (cases n) auto
  have j: "j \<le> length (k @ blank # v)" using assms(4) n by (simp add: record_text_def)
  have "take n (record_text k v) = newline # take j (k @ blank # v)"
    using j take_append [of j "k @ blank # v" "[newline]"] by (simp add: n record_text_def)
  moreover have "newline \<notin> set (take j (k @ blank # v))"
    using assms(1,2) by (auto simp: plain_def dest!: in_set_takeD)
  ultimately show thesis using that by blast
qed

lemma journal_crash:
  assumes "plain_journal rs" "plain k" "plain v"
  shows "take (journal_loop (render rs @ take n (record_text k v)) (length (render rs @ take n (record_text k v))))
      (render rs @ take n (record_text k v)) =
    render (if length (record_text k v) \<le> n then rs @ [(k, v)] else rs)"
proof -
  consider "n = 0" | "0 < n" "n < length (record_text k v)" | "length (record_text k v) \<le> n" by linarith
  then show ?thesis
  proof cases
    case 1
    moreover have "0 < length (record_text k v)" by (simp add: record_text_def)
    ultimately show ?thesis using journal_render [OF assms(1), of "[]"] by simp
  next
    case 2
    then obtain m where m: "take n (record_text k v) = newline # m" "newline \<notin> set m"
      using take_record assms(2,3) by blast
    then show ?thesis using 2 journal_torn [OF assms(1) m(2)] by simp
  next
    case 3
    then show ?thesis using journal_record [OF assms(2,3), of "render rs" "[]"] by simp
  qed
qed

section \<open>Writing\<close>

text \<open>The store holds the records \<open>rs\<close>, on the disk or still in the buffer, and its mutex is free.\<close>

definition holds :: "(string \<times> string) list \<Rightarrow> kvdb \<Rightarrow> bool" where
  "holds rs db = (kv_open db \<and> \<not> kv_mutex db \<and> kv_disk db @ kv_pending db = render rs \<and> plain_journal rs)"

lemma check_journal_ok:
  assumes "kv_disk db @ kv_pending db = render rs" "plain_journal rs"
  shows "check_journal db = (0, db\<lparr>kv_disk := render rs, kv_pending := [], kv_pos := length (render rs)\<rparr>)"
proof -
  have "seek_end db = db\<lparr>kv_disk := render rs, kv_pending := [], kv_pos := length (render rs)\<rparr>"
    by (simp only: seek_end_def assms(1))
  then show ?thesis
    using journal_render [OF assms(2), of "[]"] by (simp add: check_journal_def Let_def)
qed

lemma put_holds:
  assumes "holds rs db"
  shows "kvdb_put (\<lambda>_. True) k v db = Inr (0, db\<lparr>kv_disk := render rs, kv_pending := record_text k v,
    kv_pos := length (render rs) + length (record_text k v), kv_mutex := False, kv_flock := False\<rparr>)"
proof -
  have "check_journal (db\<lparr>kv_mutex := True, kv_flock := True\<rparr>) = (0, (db\<lparr>kv_mutex := True, kv_flock := True\<rparr>)
      \<lparr>kv_disk := render rs, kv_pending := [], kv_pos := length (render rs)\<rparr>)"
    using assms by (intro check_journal_ok) (simp_all add: holds_def)
  with assms show ?thesis
    by (simp add: kvdb_put_def locked_def mutex_lock_def mutex_unlock_def flock_set_def Let_def
        append_record_def seek_end_def holds_def)
qed

lemma open_reads:
  "kvdb_open (\<lambda>_. True) (Some content) db = Inr (0, \<lparr>kv_open = True,
     kv_disk = take (journal_loop content (length content)) content, kv_pending = [],
     kv_pos = length content, kv_mutex = False, kv_flock = False\<rparr>)"
  by (simp add: kvdb_open_def locked_def mutex_lock_def mutex_unlock_def flock_set_def Let_def
      check_journal_def seek_end_def)


section \<open>Reading\<close>

text \<open>Words that \<open>%s\<close> reads back.\<close>

definition word_ok :: "string \<Rightarrow> bool" where
  "word_ok w = (w \<noteq> [] \<and> (\<forall>c\<in>set w. \<not> is_space c \<and> c \<noteq> CHR 0x00))"

lemma word_ok_plain: "word_ok w \<Longrightarrow> plain w"
  by (auto simp: word_ok_def plain_def is_space_def newline_def blank_def)

lemma back_to_segment:
  assumes "c \<notin> set m"
  shows "back_to c (a @ c # m @ t) (Suc (length a + length m)) n = (n + length m + 1, length a)"
  using assms
proof (induction m arbitrary: t n rule: rev_induct)
  case (snoc d m)
  from snoc.IH [of "d # t"] snoc.prems show ?case by (auto simp: nth_append)
qed simp

lemma fscanf_val_word:
  assumes "word_ok w" "is_space c" "is_space d"
  shows "fscanf_val (a @ c # w @ d # t) (length a) (length w + 1) = Inr (w, length a)"
proof -
  have w: "w \<noteq> []" "\<forall>x\<in>set w. \<not> is_space x" "\<forall>x\<in>set w. x \<noteq> CHR 0x00"
    using assms(1) by (auto simp: word_ok_def)
  then have "takeWhile is_space (w @ d # t) = []" "dropWhile is_space (w @ d # t) = w @ d # t"
    by (cases w; simp)+
  moreover have "takeWhile (\<lambda>x. \<not> is_space x) (w @ d # t) = w"
    using w(2) assms(3) by simp
  moreover have "takeWhile (\<lambda>x. x \<noteq> CHR 0x00) w = w" using w(3) by simp
  ultimately show ?thesis using assms(2) w(1) by (simp add: fscanf_val_def Let_def)
qed

definition words_ok :: "(string \<times> string) list \<Rightarrow> bool" where
  "words_ok rs = (\<forall>(k, v)\<in>set rs. word_ok k \<and> word_ok v)"

lemma words_plain: "words_ok rs \<Longrightarrow> plain_journal rs"
  by (auto simp: words_ok_def plain_journal_def word_ok_plain)

lemma spaces [simp]: "is_space blank" "is_space newline"
  by (simp_all add: is_space_def blank_def newline_def)

text \<open>One round of the loop of \<open>kvdb_get\<close> reads the record before the position.\<close>

lemma get_loop_record:
  assumes "word_ok k" "word_ok v"
  shows "get_loop (a @ record_text k v @ t) key (length a + length (record_text k v)) =
    (if k = key then Some (Inr (Some v)) else get_loop (a @ record_text k v @ t) key (length a))"
proof -
  let ?s = "a @ record_text k v @ t" and ?a = "a @ newline # k"
  have s1: "?s = ?a @ blank # v @ newline # t" and s2: "?s = a @ newline # k @ blank # (v @ newline # t)"
    by (simp_all add: record_text_def)
  have ns: "blank \<notin> set v" "newline \<notin> set k"
    using assms[THEN word_ok_plain] by (simp_all add: plain_def)
  have b1: "back_to blank ?s (length a + length (record_text k v) - 1) 0 = (length v + 1, length ?a)"
    using back_to_segment [OF ns(1), of ?a "newline # t" 0]
    by (simp add: record_text_def add.assoc del: back_to.simps)
  have f1: "fscanf_val ?s (length ?a) (length v + 1) = Inr (v, length ?a)"
    unfolding s1 by (rule fscanf_val_word) (simp_all add: assms)
  have b2: "back_to newline ?s (length ?a) 0 = (length k + 1, length a)"
    using back_to_segment [OF ns(2), of a "blank # v @ newline # t" 0]
    by (simp add: record_text_def del: back_to.simps)
  have f2: "fscanf_val ?s (length a) (length k + 1) = Inr (k, length a)"
    unfolding s2 by (rule fscanf_val_word) (simp_all add: assms)
  have nz: "length a + length (record_text k v) \<noteq> 0" by (simp add: record_text_def)
  show ?thesis
    by (subst get_loop.simps) (simp only: b1 f1 b2 f2 nz if_False Let_def prod.case sum.case)
qed

lemma get_loop_render:
  assumes "words_ok rs"
  shows "get_loop (render rs @ t) key (length (render rs)) = Some (Inr (map_of (rev rs) key))"
  using assms
proof (induction rs arbitrary: t rule: rev_induct)
  case Nil
  then show ?case by (subst get_loop.simps) simp
next
  case (snoc r rs)
  obtain k v where r: "r = (k, v)" by (cases r)
  with snoc.prems have ok: "word_ok k" "word_ok v" "words_ok rs" by (auto simp: words_ok_def)
  then show ?case
    using get_loop_record [OF ok(1,2), of "render rs" t key] snoc.IH [OF ok(3), of "record_text k v @ t"]
    by (simp add: r)
qed

definition holds_words :: "(string \<times> string) list \<Rightarrow> kvdb \<Rightarrow> bool" where
  "holds_words rs db = (holds rs db \<and> words_ok rs)"

lemma get_holds:
  assumes "holds_words rs db"
  shows "\<exists>db'. kvdb_get (\<lambda>_. True) key db = Inr (map_of (rev rs) key, db') \<and> holds_words rs db'"
proof -
  let ?l = "db\<lparr>kv_mutex := True, kv_flock := True\<rparr>"
  let ?r = "?l\<lparr>kv_disk := render rs, kv_pending := [], kv_pos := length (render rs)\<rparr>"
  have c: "check_journal ?l = (0, ?r)"
    using assms by (intro check_journal_ok) (simp_all add: holds_words_def holds_def)
  have g: "get_loop (render rs) key (length (render rs)) = Some (Inr (map_of (rev rs) key))"
    using get_loop_render [of rs "[]" key] assms by (simp add: holds_words_def)
  let ?db' = "?r\<lparr>kv_mutex := False, kv_flock := False\<rparr>"
  have "kvdb_get (\<lambda>_. True) key db = Inr (map_of (rev rs) key, ?db')"
    using assms c g
    by (simp add: kvdb_get_def mutex_lock_def mutex_unlock_def flock_set_def Let_def seek_end_def
        holds_words_def holds_def)
  moreover have "holds_words rs ?db'" using assms by (simp add: holds_words_def holds_def)
  ultimately show ?thesis by blast
qed

lemma put_holds_words:
  assumes "holds_words rs db" "word_ok k" "word_ok v"
  shows "\<exists>db'. kvdb_put (\<lambda>_. True) k v db = Inr (0, db') \<and> holds_words (rs @ [(k, v)]) db'"
  using put_holds [of rs db k v] assms
  by (auto simp: holds_words_def holds_def words_ok_def plain_journal_def word_ok_plain)


section \<open>The store as a map\<close>

text \<open>
  What a client relies on: an abstract map that \<open>put\<close> updates at one key and \<open>get\<close> reads. The
  client's lemma is about any sequence of writes and reads.
\<close>

datatype ('k, 'v) kv_op = Put 'k 'v | Get 'k

primrec kv_step :: "('k \<Rightarrow> 'v \<Rightarrow> 's \<Rightarrow> 's) \<Rightarrow> ('k \<Rightarrow> 's \<Rightarrow> 'v option \<times> 's) \<Rightarrow> ('k, 'v) kv_op \<Rightarrow> 's \<Rightarrow> 's" where
  "kv_step put get (Put k v) s = put k v s"
| "kv_step put get (Get k) s = snd (get k s)"

primrec puts_of :: "('k, 'v) kv_op \<Rightarrow> ('k \<times> 'v) list" where
  "puts_of (Put k v) = [(k, v)]"
| "puts_of (Get k) = []"

locale kv_store =
  fixes inv :: "'s \<Rightarrow> bool"
    and ok :: "'k \<Rightarrow> 'v \<Rightarrow> bool"
    and to_map :: "'s \<Rightarrow> 'k \<Rightarrow> 'v option"
    and put :: "'k \<Rightarrow> 'v \<Rightarrow> 's \<Rightarrow> 's"
    and get :: "'k \<Rightarrow> 's \<Rightarrow> 'v option \<times> 's"
  assumes put_inv: "inv s \<Longrightarrow> ok k v \<Longrightarrow> inv (put k v s)"
    and put_map: "inv s \<Longrightarrow> ok k v \<Longrightarrow> to_map (put k v s) = (to_map s)(k \<mapsto> v)"
    and get_result: "inv s \<Longrightarrow> fst (get k s) = to_map s k"
    and get_inv: "inv s \<Longrightarrow> inv (snd (get k s))"
    and get_map: "inv s \<Longrightarrow> to_map (snd (get k s)) = to_map s"
begin

lemma steps:
  assumes "inv s" "\<forall>(k, v)\<in>set (concat (map puts_of ops)). ok k v"
  shows "inv (fold (kv_step put get) ops s) \<and>
    to_map (fold (kv_step put get) ops s) = to_map s ++ map_of (rev (concat (map puts_of ops)))"
  using assms
proof (induction ops arbitrary: s)
  case (Cons x ops)
  show ?case
  proof (cases x)
    case (Put k v)
    with Cons.prems have "inv (put k v s)" "to_map (put k v s) = (to_map s)(k \<mapsto> v)"
      using put_inv put_map by simp_all
    with Cons.IH [of "put k v s"] Cons.prems(2) Put show ?thesis
      by (simp add: fun_eq_iff map_add_def split: option.split)
  next
    case (Get k)
    with Cons.prems get_inv get_map Cons.IH [of "snd (get k s)"] show ?thesis by simp
  qed
qed simp

lemma get_after:
  assumes "inv s" "\<forall>(k, v)\<in>set (concat (map puts_of ops)). ok k v"
  shows "fst (get k (fold (kv_step put get) ops s)) = (to_map s ++ map_of (rev (concat (map puts_of ops)))) k"
  using steps [OF assms] get_result by simp

end

text \<open>The operations of the library as such operations, when no system call fails.\<close>

definition put_state :: "string \<Rightarrow> string \<Rightarrow> kvdb \<Rightarrow> kvdb" where
  "put_state k v db = (case kvdb_put (\<lambda>_. True) k v db of Inr (_, db') \<Rightarrow> db' | Inl _ \<Rightarrow> db)"

definition get_state :: "string \<Rightarrow> kvdb \<Rightarrow> string option \<times> kvdb" where
  "get_state k db = (case kvdb_get (\<lambda>_. True) k db of Inr r \<Rightarrow> r | Inl _ \<Rightarrow> (None, db))"

definition kvdb_map :: "kvdb \<Rightarrow> string \<Rightarrow> string option" where
  "kvdb_map db key = (case get_loop (kv_disk db @ kv_pending db) key (length (kv_disk db @ kv_pending db)) of
     Some (Inr r) \<Rightarrow> r | _ \<Rightarrow> None)"

lemma kvdb_map_holds:
  assumes "holds_words rs db"
  shows "kvdb_map db = map_of (rev rs)"
proof -
  have "kv_disk db @ kv_pending db = render rs" "words_ok rs"
    using assms by (simp_all add: holds_words_def holds_def)
  then show ?thesis using get_loop_render [of rs "[]"] by (simp add: kvdb_map_def fun_eq_iff)
qed

interpretation kvdb_store: kv_store "\<lambda>db. \<exists>rs. holds_words rs db" "\<lambda>k v. word_ok k \<and> word_ok v"
  kvdb_map put_state get_state
proof
  fix db k v
  assume "\<exists>rs. holds_words rs db" and ok: "word_ok k \<and> word_ok v"
  then obtain rs where h: "holds_words rs db" by blast
  obtain db' where "kvdb_put (\<lambda>_. True) k v db = Inr (0, db')" "holds_words (rs @ [(k, v)]) db'"
    using put_holds_words [OF h] ok by blast
  then have p: "holds_words (rs @ [(k, v)]) (put_state k v db)" by (simp add: put_state_def)
  then show "\<exists>rs. holds_words rs (put_state k v db)" by blast
  show "kvdb_map (put_state k v db) = (kvdb_map db)(k \<mapsto> v)"
    using kvdb_map_holds [OF p] kvdb_map_holds [OF h] by simp
next
  fix db k
  assume "\<exists>rs. holds_words rs db"
  then obtain rs where h: "holds_words rs db" by blast
  from get_holds [OF this, of k] have g: "fst (get_state k db) = map_of (rev rs) k" "holds_words rs (snd (get_state k db))"
    by (auto simp: get_state_def)
  then show "fst (get_state k db) = kvdb_map db k" "\<exists>rs. holds_words rs (snd (get_state k db))"
    "kvdb_map (snd (get_state k db)) = kvdb_map db"
    using kvdb_map_holds [OF h] kvdb_map_holds [OF g(2)] by auto
qed

text \<open>
  C31. The store is a map: from a store that holds well-formed records, after any sequence of writes of
  words and of reads, \<open>kvdb_get\<close> returns the value of the last write of the key, or the latest value
  in the records when there was none, or NULL.
\<close>

theorem store_is_map:
  assumes "holds_words rs db" "\<forall>(k, v)\<in>set (concat (map puts_of ops)). word_ok k \<and> word_ok v"
  shows "\<exists>db'. kvdb_get (\<lambda>_. True) key (fold (kv_step put_state get_state) ops db) =
    Inr ((map_of (rev rs) ++ map_of (rev (concat (map puts_of ops)))) key, db')"
proof -
  let ?d = "fold (kv_step put_state get_state) ops db"
  have s: "(\<exists>rs'. holds_words rs' ?d) \<and> kvdb_map ?d = kvdb_map db ++ map_of (rev (concat (map puts_of ops)))"
    using assms by (intro kvdb_store.steps) auto
  then obtain rs' where h: "holds_words rs' ?d" by blast
  from get_holds [OF this, of key] s kvdb_map_holds [OF h] kvdb_map_holds [OF assms(1)]
  show ?thesis by auto
qed

theorem store_is_map_witness:
  "let ops = [Put ''zzw'' ''17'', Get ''x'', Put ''lyz'' ''jntm'', Put ''zzw'' ''awsl'']
   in \<exists>db'. kvdb_get (\<lambda>_. True) ''zzw'' (fold (kv_step put_state get_state) ops
       \<lparr>kv_open = True, kv_disk = [], kv_pending = [], kv_pos = 0, kv_mutex = False, kv_flock = False\<rparr>) =
    Inr ((map_of (rev []) ++ map_of (rev (concat (map puts_of ops)))) ''zzw'', db')"
  unfolding Let_def
  by (rule store_is_map)
    (simp_all add: holds_words_def holds_def render_def plain_journal_def words_ok_def word_ok_def is_space_def)

end
