(* ===== verification/Game.thy ===== *)
theory Game imports Klib_Rand begin

text \<open>
  The game of \<open>amgame/src/game.c\<close>: a player that falls and rises and obstacles that come from the right.
  One frame reads the keys, moves the game on and draws. Positions are the \<open>int\<close>s of the code as unbounded
  integers (they stay near the size of the screen); a remainder by zero traps. The rectangles drawn are
  recorded; the clock is left out, the keys of a frame are an argument.
\<close>

section \<open>State\<close>

definition R_VEC :: int where "R_VEC = -5"
definition R_GRA :: int where "R_GRA = -3"
definition GRAVITY :: int where "GRAVITY = 2"
definition PLAYER_FLASH :: nat where "PLAYER_FLASH = 8"
definition OBS_FLASH :: nat where "OBS_FLASH = 15"
definition KEY_SPACE :: u32 where "KEY_SPACE = 70"
definition KEY_P :: u32 where "KEY_P = 38"

record item =
  it_ddx :: int
  it_ddy :: int
  it_dx :: int
  it_dy :: int
  it_x :: int
  it_y :: int
  it_w :: int
  it_h :: int
  it_valid :: bool
  it_count :: bool

datatype image = Black | White | Orange | Heart bool

type_synonym rect = "image \<times> int \<times> int \<times> int \<times> int"

text \<open>\<open>g_flash\<close> and \<open>g_tick\<close> are the static counters of \<open>screen_update_player\<close> and \<open>game_progress\<close>.\<close>

record game =
  g_width :: int
  g_height :: int
  g_fail :: bool
  g_num_obs :: int
  g_score :: int
  g_max_score :: int
  g_obs :: "item list"
  g_player :: item
  g_flash :: nat
  g_tick :: nat
  g_rand :: u32
  g_first_press :: bool
  g_pause :: bool
  g_drawn :: "rect list"

section \<open>Drawing\<close>

definition draw_rect :: "image \<Rightarrow> int \<Rightarrow> int \<Rightarrow> int \<Rightarrow> int \<Rightarrow> game \<Rightarrow> game" where
  "draw_rect img x y w h g = g\<lparr>g_drawn := g_drawn g @ [(img, x, y, w, h)]\<rparr>"

definition clear_rect :: "item \<Rightarrow> game \<Rightarrow> game" where
  "clear_rect it = draw_rect Black (it_x it) (it_y it) (it_w it) (it_h it)"

text \<open>\<open>update(item)\<close>.\<close>

definition update :: "item \<Rightarrow> item" where
  "update it =
     (let it1 = it\<lparr>it_dx := it_dx it + it_ddx it\<rparr>;
          it2 = it1\<lparr>it_dy := it_dy it1 + it_ddy it1\<rparr>;
          it3 = it2\<lparr>it_x := it_x it2 + it_dx it2\<rparr>
      in it3\<lparr>it_y := it_y it3 + it_dy it3\<rparr>)"

definition screen_update_player :: "game \<Rightarrow> game" where
  "screen_update_player g0 =
     (let g = clear_rect (g_player g0) (g0\<lparr>g_flash := (g_flash g0 + 1) mod PLAYER_FLASH\<rparr>);
          p = update (g_player g)
      in draw_rect (Heart (g_flash g < 4)) (it_x p) (it_y p) (it_w p) (it_h p) (g\<lparr>g_player := p\<rparr>))"

definition screen_update_obs :: "nat \<Rightarrow> game \<Rightarrow> game" where
  "screen_update_obs i g0 =
     (let g = clear_rect (g_obs g0 ! i) g0;
          ob = update (g_obs g ! i)
      in draw_rect (if it_ddx ob \<noteq> 0 then White else Orange) (it_x ob) (it_y ob) (it_w ob) (it_h ob)
           (g\<lparr>g_obs := (g_obs g)[i := ob]\<rparr>))"

definition screen_update :: "game \<Rightarrow> game" where
  "screen_update g =
     fold (\<lambda>i g. if it_valid (g_obs g ! i) then screen_update_obs i g else g) [0..<10] (screen_update_player g)"

section \<open>The rules\<close>

definition inbound :: "game \<Rightarrow> item \<Rightarrow> bool" where
  "inbound g it \<longleftrightarrow> it_x it \<ge> 10 \<and> it_y it \<ge> 0 \<and> it_y it + it_h it \<le> g_height g"

definition collide :: "item \<Rightarrow> item \<Rightarrow> bool" where
  "collide p it \<longleftrightarrow> it_x p + it_w p > it_x it \<and> it_x it + it_w it > it_x p \<and>
     it_y p + it_h p > it_y it \<and> it_y it + it_h it > it_y p"

definition init_player :: "game \<Rightarrow> game" where
  "init_player g = g\<lparr>g_player := (g_player g)\<lparr>it_x := g_width g div 3, it_y := g_height g div 3, it_dy := 0, it_ddx := 0,
     it_dx := 0, it_ddy := GRAVITY, it_w := 20, it_h := 20, it_valid := True\<rparr>\<rparr>"

text \<open>\<open>rand() % m\<close>.\<close>

definition rand_mod :: "int \<Rightarrow> u32 \<Rightarrow> (int \<times> u32) result" where
  "rand_mod m s = (if m = 0 then Inl Halt else (case rand s of (r, s') \<Rightarrow> Inr (int r mod m, s')))"

text \<open>The \<open>switch\<close> of \<open>init_obs\<close>: there is no case for 0, so the old values stay.\<close>

definition choose_obs :: "int \<Rightarrow> int \<Rightarrow> u32 \<Rightarrow> item \<Rightarrow> (item \<times> u32) result" where
  "choose_obs height k s ob =
     (if k = 1 \<or> k = 2 then
        bindr (rand_mod (height div 3) s) (\<lambda>(a, s1). bindr (rand_mod (height div 2) s1) (\<lambda>(b, s2).
          bindr (rand_mod 7 s2) (\<lambda>(d, s3).
            Inr (ob\<lparr>it_y := a, it_h := b + height div 5, it_dx := - d - 3, it_ddx := 0\<rparr>, s3))))
      else if k = 3 then
        bindr (rand_mod (height div 2) s) (\<lambda>(a, s1). bindr (rand_mod (height div 3) s1) (\<lambda>(b, s2).
          Inr (ob\<lparr>it_y := a, it_h := b + height div 5, it_dx := -1, it_ddx := -1\<rparr>, s2)))
      else if k = 4 then
        bindr (rand_mod (height div 3) s) (\<lambda>(b, s1). bindr (rand_mod (height div 2) s1) (\<lambda>(a, s2).
          Inr (ob\<lparr>it_h := b + height div 5, it_y := height - a, it_dx := -1, it_ddx := -1\<rparr>, s2)))
      else if k = 5 \<or> k = 6 then
        bindr (rand_mod (height div 2) s) (\<lambda>(b, s1). bindr (rand_mod (height div 2) s1) (\<lambda>(a, s2).
          bindr (rand_mod 7 s2) (\<lambda>(d, s3).
            Inr (ob\<lparr>it_h := b + height div 5, it_y := height - a - height div 5, it_dx := - d - 3, it_ddx := 0\<rparr>, s3))))
      else Inr (ob, s))"

definition init_obs :: "game \<Rightarrow> item \<Rightarrow> (item \<times> u32) result" where
  "init_obs g ob0 =
     (let ob = ob0\<lparr>it_x := g_width g - 10, it_dy := 0, it_ddy := 0, it_w := g_width g div 200\<rparr> in
      bindr (rand_mod 7 (g_rand g)) (\<lambda>(k, s).
        bindr (choose_obs (g_height g) k s ob) (\<lambda>(ob1, s1).
          let ob2 = (if it_h ob1 + it_y ob1 \<ge> g_height g then ob1\<lparr>it_h := g_height g - it_y ob1 - 5\<rparr> else ob1)
          in Inr (ob2\<lparr>it_valid := True, it_count := True\<rparr>, s1))))"

definition score_obs :: "nat \<Rightarrow> game \<Rightarrow> game" where
  "score_obs i g =
     (let ob = g_obs g ! i in
      if it_x ob < it_x (g_player g) \<and> it_count ob
      then g\<lparr>g_obs := (g_obs g)[i := ob\<lparr>it_count := False\<rparr>], g_score := g_score g + 1\<rparr> else g)"

definition drop_obs :: "nat \<Rightarrow> game \<Rightarrow> game" where
  "drop_obs i g =
     (let ob = g_obs g ! i in
      if \<not> inbound g ob
      then (clear_rect ob g)\<lparr>g_obs := (g_obs g)[i := ob\<lparr>it_valid := False\<rparr>], g_num_obs := g_num_obs g - 1\<rparr> else g)"

text \<open>The loop over the obstacles; it returns when the player hits one.\<close>

fun progress_loop :: "nat list \<Rightarrow> bool \<Rightarrow> game \<Rightarrow> game result" where
  "progress_loop [] add g = Inr g"
| "progress_loop (i # is) add g =
     (let ob = g_obs g ! i in
      if it_valid ob then
        (if collide (g_player g) ob then Inr (g\<lparr>g_fail := True\<rparr>)
         else progress_loop is add (drop_obs i (score_obs i g)))
      else if add then
        bindr (init_obs g ob) (\<lambda>(ob', s).
          progress_loop is False (g\<lparr>g_obs := (g_obs g)[i := ob'], g_rand := s, g_num_obs := g_num_obs g + 1\<rparr>))
      else progress_loop is add g)"

definition game_progress :: "game \<Rightarrow> game result" where
  "game_progress g0 =
     (let g = g0\<lparr>g_tick := (g_tick g0 + 1) mod OBS_FLASH\<rparr>;
          add = (g_tick g = 0 \<and> g_num_obs g < 8)
      in if \<not> inbound g (g_player g) then Inr (g\<lparr>g_fail := True\<rparr>)
         else progress_loop [0..<10] add g)"

definition restart :: "game \<Rightarrow> game" where
  "restart g0 =
     (let g1 = clear_rect (g_player g0) (g0\<lparr>g_fail := False\<rparr>);
          g2 = fold (\<lambda>i g. (if it_valid (g_obs g ! i) then clear_rect (g_obs g ! i) g else g)
                 \<lparr>g_obs := (g_obs g)[i := (g_obs g ! i)\<lparr>it_valid := False\<rparr>]\<rparr>) [0..<10] g1
      in (init_player g2)\<lparr>g_num_obs := 0, g_score := 0\<rparr>)"

section \<open>Keys and frames\<close>

definition handle_key :: "u32 \<Rightarrow> game \<Rightarrow> game" where
  "handle_key key g0 =
     (let down = key AND 0x8000 \<noteq> 0; code = key AND 0x7fff;
          g1 = (if code = KEY_SPACE then
                  (if down then
                     (let g = (if g_first_press g0
                               then g0\<lparr>g_player := (g_player g0)\<lparr>it_dy := R_VEC\<rparr>, g_first_press := False\<rparr> else g0)
                      in g\<lparr>g_player := (g_player g)\<lparr>it_ddy := R_GRA\<rparr>\<rparr>)
                   else g0\<lparr>g_first_press := True, g_player := (g_player g0)\<lparr>it_ddy := GRAVITY\<rparr>\<rparr>)
                else g0)
      in if code = KEY_P \<and> \<not> down then g1\<lparr>g_pause := \<not> g_pause g1\<rparr> else g1)"

text \<open>One turn of the inner loop of \<open>main\<close>.\<close>

definition game_frame :: "u32 list \<Rightarrow> game \<Rightarrow> game result" where
  "game_frame keys g0 =
     (let g1 = fold handle_key keys g0 in
      bindr (if \<not> g_pause g1 then game_progress g1 else Inr g1) (\<lambda>g2.
        Inr (if g_fail g2 then g2 else if \<not> g_pause g2 then screen_update g2 else g2)))"

text \<open>The inner loop on the keys of the frames to come, until the game is lost.\<close>

fun game_frames :: "u32 list list \<Rightarrow> game \<Rightarrow> game result" where
  "game_frames [] g = Inr g"
| "game_frames (ks # kss) g =
     bindr (game_frame ks g) (\<lambda>g1. if g_fail g1 then Inr g1 else game_frames kss g1)"

text \<open>
  One turn of the outer loop: \<open>seed\<close> is the time \<open>srand\<close> gets. When the keys given end before the game is lost
  the inner loop is still running.
\<close>

definition game_round :: "u32 \<Rightarrow> u32 list list \<Rightarrow> game \<Rightarrow> game result" where
  "game_round seed kss g0 =
     bindr (game_frames kss ((restart (g0\<lparr>g_rand := srand seed\<rparr>))\<lparr>g_first_press := True, g_pause := False\<rparr>)) (\<lambda>g1.
       Inr (if g_fail g1 \<and> g_score g1 > g_max_score g1 then g1\<lparr>g_max_score := g_score g1\<rparr> else g1))"

fun game_rounds :: "(u32 \<times> u32 list list) list \<Rightarrow> game \<Rightarrow> game result" where
  "game_rounds [] g = Inr g"
| "game_rounds ((seed, kss) # rs) g =
     bindr (game_round seed kss g) (\<lambda>g1. if g_fail g1 then game_rounds rs g1 else Inr g1)"

text \<open>The state \<open>main\<close> starts with: zeroed globals and the size of the screen.\<close>

definition zero_item :: item where
  "zero_item = \<lparr>it_ddx = 0, it_ddy = 0, it_dx = 0, it_dy = 0, it_x = 0, it_y = 0, it_w = 0, it_h = 0, it_valid = False, it_count = False\<rparr>"

definition game_start :: "int \<Rightarrow> int \<Rightarrow> game" where
  "game_start width height = \<lparr>g_width = width, g_height = height, g_fail = False, g_num_obs = 0, g_score = 0, g_max_score = 0,
     g_obs = replicate 10 zero_item, g_player = zero_item, g_flash = 0, g_tick = 0, g_rand = 1,
     g_first_press = True, g_pause = False, g_drawn = []\<rparr>"

end
