(* ===== verification/Game_Inv.thy ===== *)
theory Game_Inv imports Game begin

text \<open>
  The invariant of the game: the number of obstacles is the number of valid slots and at most eight, and
  every obstacle stays within the height of the screen, moves only to the left and never up or down. So an
  obstacle leaves only over the left edge.
\<close>

section \<open>Counting\<close>

definition count_valid :: "item list \<Rightarrow> int" where
  "count_valid obs = (\<Sum>ob \<leftarrow> obs. if it_valid ob then 1 else 0)"

lemma count_valid_update:
  "i < length obs \<Longrightarrow> count_valid (obs[i := ob]) =
     count_valid obs + (if it_valid ob then 1 else 0) - (if it_valid (obs ! i) then 1 else 0)"
  by (induction obs arbitrary: i) (auto simp: count_valid_def less_Suc_eq_0_disj split: nat.splits)

section \<open>The invariant\<close>

definition item_ok :: "int \<Rightarrow> item \<Rightarrow> bool" where
  "item_ok height ob \<longleftrightarrow> 0 \<le> it_y ob \<and> it_y ob + it_h ob \<le> height \<and> it_dx ob \<le> 0 \<and> it_ddx ob \<le> 0 \<and> it_dy ob = 0 \<and> it_ddy ob = 0"

definition game_inv :: "game \<Rightarrow> bool" where
  "game_inv g \<longleftrightarrow> 0 \<le> g_height g \<and> length (g_obs g) = 10 \<and> (\<forall>ob \<in> set (g_obs g). item_ok (g_height g) ob) \<and>
     g_num_obs g = count_valid (g_obs g) \<and> g_num_obs g \<le> 8"

lemma item_okD: "game_inv g \<Longrightarrow> i < 10 \<Longrightarrow> item_ok (g_height g) (g_obs g ! i)"
  by (simp add: game_inv_def)

text \<open>Fields the invariant does not read.\<close>

lemma game_inv_fields [simp]:
  "game_inv (g\<lparr>g_fail := a\<rparr>) = game_inv g" "game_inv (g\<lparr>g_score := b\<rparr>) = game_inv g" "game_inv (g\<lparr>g_max_score := b\<rparr>) = game_inv g"
  "game_inv (g\<lparr>g_player := p\<rparr>) = game_inv g" "game_inv (g\<lparr>g_flash := n\<rparr>) = game_inv g" "game_inv (g\<lparr>g_tick := n\<rparr>) = game_inv g"
  "game_inv (g\<lparr>g_rand := s\<rparr>) = game_inv g" "game_inv (g\<lparr>g_first_press := a\<rparr>) = game_inv g" "game_inv (g\<lparr>g_pause := a\<rparr>) = game_inv g"
  "game_inv (draw_rect img x y w h g) = game_inv g" "game_inv (clear_rect it g) = game_inv g"
  by (simp_all add: game_inv_def draw_rect_def clear_rect_def)

lemma draw_fields [simp]:
  "g_obs (draw_rect img x y w h g) = g_obs g" "g_obs (clear_rect it g) = g_obs g" "g_num_obs (clear_rect it g) = g_num_obs g"
  "g_height (clear_rect it g) = g_height g" "g_height (draw_rect img x y w h g) = g_height g"
  by (simp_all add: draw_rect_def clear_rect_def)

text \<open>Storing an item in a slot, with the number of obstacles corrected.\<close>

lemma game_inv_store:
  assumes "game_inv g" and "i < 10" and "item_ok (g_height g) ob"
    and "n = g_num_obs g + (if it_valid ob then 1 else 0) - (if it_valid (g_obs g ! i) then 1 else 0)" and "n \<le> 8"
  shows "game_inv (g\<lparr>g_obs := (g_obs g)[i := ob], g_num_obs := n\<rparr>)"
  using assms by (auto simp: game_inv_def count_valid_update dest!: set_update_subset_insert [THEN subsetD])

lemma game_inv_same:
  assumes "game_inv g" and "i < 10" and "item_ok (g_height g) ob" and "it_valid ob = it_valid (g_obs g ! i)"
  shows "game_inv (g\<lparr>g_obs := (g_obs g)[i := ob]\<rparr>)"
proof -
  have "g\<lparr>g_obs := (g_obs g)[i := ob]\<rparr> = g\<lparr>g_obs := (g_obs g)[i := ob], g_num_obs := g_num_obs g\<rparr>" by simp
  also have "game_inv \<dots>" by (rule game_inv_store [OF assms(1-3)]) (use assms in \<open>auto simp: game_inv_def\<close>)
  finally show ?thesis .
qed

section \<open>The operations\<close>

lemma update_ok: "item_ok height ob \<Longrightarrow> item_ok height (update ob)"
  by (simp add: item_ok_def update_def Let_def)

lemma update_valid [simp]: "it_valid (update ob) = it_valid ob"
  by (simp add: update_def Let_def)

lemma screen_update_obs_inv: "game_inv g \<Longrightarrow> i < 10 \<Longrightarrow> game_inv (screen_update_obs i g)"
  using game_inv_same [of "clear_rect (g_obs g ! i) g" i "update (g_obs g ! i)"]
  by (simp add: screen_update_obs_def Let_def update_ok item_okD)

lemma screen_update_inv: "game_inv g \<Longrightarrow> game_inv (screen_update g)"
proof -
  assume inv: "game_inv g"
  have "game_inv (fold (\<lambda>i g. if it_valid (g_obs g ! i) then screen_update_obs i g else g) is g')"
    if "game_inv g'" "\<forall>i \<in> set is. i < 10" for "is" g'
    using that by (induction "is" arbitrary: g') (simp_all add: screen_update_obs_inv)
  with inv show ?thesis by (simp add: screen_update_def screen_update_player_def Let_def)
qed

lemma rand_mod_range: "rand_mod m s = Inr (a, s') \<Longrightarrow> 0 \<le> m \<Longrightarrow> 0 \<le> a \<and> a < m"
  by (auto simp: rand_mod_def split: if_splits prod.splits)

text \<open>The places and speeds \<open>init_obs\<close> draws.\<close>

lemma drawn_half:
  "rand_mod (height div 2) s = Inr (a, s') \<Longrightarrow> 0 \<le> height \<Longrightarrow> 0 \<le> a \<and> a \<le> height \<and> height div 5 \<le> height - a"
  by (drule rand_mod_range) linarith+

lemma drawn_third: "rand_mod (height div 3) s = Inr (a, s') \<Longrightarrow> 0 \<le> height \<Longrightarrow> 0 \<le> a"
  by (drule rand_mod_range) linarith+

lemma drawn_speed: "rand_mod 7 s = Inr (d, s') \<Longrightarrow> 0 \<le> d"
  by (drule rand_mod_range) simp_all

lemma choose_obs_ok:
  assumes "choose_obs height k s ob = Inr (ob', s')" and "0 \<le> height" and "item_ok height ob"
  shows "0 \<le> it_y ob' \<and> it_dx ob' \<le> 0 \<and> it_ddx ob' \<le> 0 \<and> it_dy ob' = 0 \<and> it_ddy ob' = 0"
proof -
  have still: "it_dy ob = 0" "it_ddy ob = 0" using assms(3) by (simp_all add: item_ok_def)
  consider "k = 1 \<or> k = 2" | "k = 3" | "k = 4" | "k = 5 \<or> k = 6" | "\<not> (1 \<le> k \<and> k \<le> 6)" by linarith
  then show ?thesis
  proof cases
    case 1
    with assms(1) still show ?thesis unfolding choose_obs_def
      by (auto simp: bindr_eq_Inr dest: drawn_third [OF _ assms(2)] drawn_speed)
  next
    case 2
    with assms(1) still show ?thesis unfolding choose_obs_def
      by (auto simp: bindr_eq_Inr dest: drawn_half [OF _ assms(2)])
  next
    case 3
    with assms(1) still show ?thesis unfolding choose_obs_def
      by (auto simp: bindr_eq_Inr dest: drawn_half [OF _ assms(2)])
  next
    case 4
    with assms(1) still show ?thesis unfolding choose_obs_def
      by (auto simp: bindr_eq_Inr dest!: drawn_half [OF _ assms(2)] drawn_speed)
  next
    case 5
    with assms(1,3) show ?thesis by (auto simp: choose_obs_def item_ok_def)
  qed
qed

lemma init_obs_ok:
  assumes "init_obs g ob = Inr (ob', s')" and "0 \<le> g_height g" and "item_ok (g_height g) ob"
  shows "item_ok (g_height g) ob' \<and> it_valid ob'"
proof -
  let ?ob = "ob\<lparr>it_x := g_width g - 10, it_dy := 0, it_ddy := 0, it_w := g_width g div 200\<rparr>"
  obtain k s ob1 s1 where c: "choose_obs (g_height g) k s ?ob = Inr (ob1, s1)"
    and ob': "ob' = (if it_h ob1 + it_y ob1 \<ge> g_height g then ob1\<lparr>it_h := g_height g - it_y ob1 - 5\<rparr> else ob1)\<lparr>it_valid := True, it_count := True\<rparr>"
    using assms(1) by (auto simp: init_obs_def Let_def bindr_eq_Inr)
  have "item_ok (g_height g) ?ob" using assms(3) by (simp add: item_ok_def)
  from choose_obs_ok [OF c assms(2) this] show ?thesis by (auto simp: ob' item_ok_def)
qed

lemma score_obs_inv: "game_inv g \<Longrightarrow> i < 10 \<Longrightarrow> game_inv (score_obs i g) \<and> it_valid (g_obs (score_obs i g) ! i) = it_valid (g_obs g ! i)
    \<and> g_num_obs (score_obs i g) = g_num_obs g"
proof -
  assume inv: "game_inv g" and i: "i < 10"
  have "item_ok (g_height g) ((g_obs g ! i)\<lparr>it_count := False\<rparr>)" using item_okD [OF inv i] by (simp add: item_ok_def)
  from game_inv_same [OF inv i this] have "game_inv (g\<lparr>g_obs := (g_obs g)[i := (g_obs g ! i)\<lparr>it_count := False\<rparr>]\<rparr>)" by simp
  moreover have "i < length (g_obs g)" using inv i by (simp add: game_inv_def)
  ultimately show ?thesis using inv by (simp add: score_obs_def Let_def)
qed

lemma drop_obs_inv:
  "game_inv g \<Longrightarrow> i < 10 \<Longrightarrow> it_valid (g_obs g ! i) \<Longrightarrow> game_inv (drop_obs i g) \<and> g_num_obs (drop_obs i g) \<le> g_num_obs g"
proof -
  assume inv: "game_inv g" and i: "i < 10" and v: "it_valid (g_obs g ! i)"
  let ?g = "clear_rect (g_obs g ! i) g"
  have "game_inv (?g\<lparr>g_obs := (g_obs ?g)[i := (g_obs g ! i)\<lparr>it_valid := False\<rparr>], g_num_obs := g_num_obs g - 1\<rparr>)"
    by (rule game_inv_store) (use inv i v item_okD [OF inv i] in \<open>auto simp: item_ok_def game_inv_def\<close>)
  with inv show ?thesis by (simp add: drop_obs_def Let_def)
qed

lemma progress_loop_inv:
  "game_inv g \<Longrightarrow> \<forall>i \<in> set is. i < 10 \<Longrightarrow> (add \<Longrightarrow> g_num_obs g < 8) \<Longrightarrow> progress_loop is add g = Inr g' \<Longrightarrow> game_inv g'"
proof (induction "is" add g rule: progress_loop.induct)
  case (2 i "is" add g)
  have i: "i < 10" using "2.prems"(2) by simp
  show ?case
  proof (cases "it_valid (g_obs g ! i)")
    case True
    let ?g1 = "drop_obs i (score_obs i g)"
    have g1: "game_inv ?g1" "g_num_obs ?g1 \<le> g_num_obs g"
      using score_obs_inv [OF "2.prems"(1) i] drop_obs_inv [of "score_obs i g" i] i True by auto
    have small: "g_num_obs ?g1 < 8" if add using "2.prems"(3) [OF that] g1(2) by linarith
    show ?thesis
    proof (cases "collide (g_player g) (g_obs g ! i)")
      case True
      with \<open>it_valid (g_obs g ! i)\<close> "2.prems"(1,4) show ?thesis by (auto simp: Let_def)
    next
      case False
      have run: "progress_loop is add ?g1 = Inr g'" using "2.prems"(4) True False by (simp add: Let_def)
      show ?thesis by (rule "2.IH"(1) [OF refl True False g1(1) _ small run]) (use "2.prems"(2) in auto)
    qed
  next
    case False
    show ?thesis
    proof (cases add)
      case True
      with False "2.prems"(4) obtain ob' s where ob': "init_obs g (g_obs g ! i) = Inr (ob', s)"
        "progress_loop is False (g\<lparr>g_obs := (g_obs g)[i := ob'], g_rand := s, g_num_obs := g_num_obs g + 1\<rparr>) = Inr g'"
        by (auto simp: Let_def bindr_eq_Inr)
      have "0 \<le> g_height g" using "2.prems"(1) by (simp add: game_inv_def)
      from init_obs_ok [OF ob'(1) this item_okD [OF "2.prems"(1) i]]
      have "game_inv (g\<lparr>g_obs := (g_obs g)[i := ob'], g_num_obs := g_num_obs g + 1\<rparr>)"
        using game_inv_store [OF "2.prems"(1) i, of ob' "g_num_obs g + 1"] False "2.prems"(3) [OF True] by simp
      then have "game_inv (g\<lparr>g_obs := (g_obs g)[i := ob'], g_rand := s, g_num_obs := g_num_obs g + 1\<rparr>)"
        by (simp add: game_inv_def)
      with "2.IH"(2) [OF refl False True] ob'(2) "2.prems"(2) show ?thesis by simp
    next
      case noadd: False
      with "2.IH"(3) [OF refl False noadd] "2.prems" False show ?thesis by (simp add: Let_def)
    qed
  qed
qed simp

lemma game_progress_inv: "game_inv g \<Longrightarrow> game_progress g = Inr g' \<Longrightarrow> game_inv g'"
  using progress_loop_inv [of "g\<lparr>g_tick := (g_tick g + 1) mod OBS_FLASH\<rparr>" "[0..<10]" "(g_tick g + 1) mod OBS_FLASH = 0 \<and> g_num_obs g < 8"]
  by (auto simp: game_progress_def Let_def split: if_splits)

lemma handle_key_inv: "game_inv g \<Longrightarrow> game_inv (handle_key key g)"
  by (simp add: handle_key_def Let_def)

lemma handle_keys_inv: "game_inv g \<Longrightarrow> game_inv (fold handle_key keys g)"
  by (induction keys arbitrary: g) (simp_all add: handle_key_inv)

lemma game_frame_inv: "game_inv g \<Longrightarrow> game_frame keys g = Inr g' \<Longrightarrow> game_inv g'"
  by (auto simp: game_frame_def Let_def bindr_eq_Inr split: if_splits
      intro: screen_update_inv game_progress_inv handle_keys_inv)

lemma game_frames_inv: "game_inv g \<Longrightarrow> game_frames kss g = Inr g' \<Longrightarrow> game_inv g'"
  by (induction kss arbitrary: g) (auto simp: bindr_eq_Inr split: if_splits intro: game_frame_inv)

text \<open>\<open>restart\<close> empties every slot.\<close>

definition slots_ok :: "game \<Rightarrow> bool" where
  "slots_ok g \<longleftrightarrow> 0 \<le> g_height g \<and> length (g_obs g) = 10 \<and> (\<forall>ob \<in> set (g_obs g). item_ok (g_height g) ob)"

definition empty_slot :: "nat \<Rightarrow> game \<Rightarrow> game" where
  "empty_slot i g = (if it_valid (g_obs g ! i) then clear_rect (g_obs g ! i) g else g)
     \<lparr>g_obs := (g_obs g)[i := (g_obs g ! i)\<lparr>it_valid := False\<rparr>]\<rparr>"

lemma empty_slot_ok: "slots_ok g \<Longrightarrow> i < 10 \<Longrightarrow> slots_ok (empty_slot i g)"
proof -
  assume ok: "slots_ok g" and i: "i < 10"
  then have "item_ok (g_height g) ((g_obs g ! i)\<lparr>it_valid := False\<rparr>)" by (simp add: slots_ok_def item_ok_def)
  with ok show ?thesis
    by (auto simp: slots_ok_def empty_slot_def dest!: set_update_subset_insert [THEN subsetD])
qed

lemma empty_slots:
  "slots_ok g \<Longrightarrow> n \<le> 10 \<Longrightarrow> (let g' = fold empty_slot [0..<n] g in slots_ok g' \<and> (\<forall>i < n. \<not> it_valid (g_obs g' ! i)))"
proof (induction n)
  case (Suc n)
  let ?g = "fold empty_slot [0..<n] g"
  have ok: "slots_ok ?g" "\<forall>i < n. \<not> it_valid (g_obs ?g ! i)" using Suc by (simp_all add: Let_def)
  then have "\<forall>i < Suc n. \<not> it_valid (g_obs (empty_slot n ?g) ! i)"
    using Suc.prems(2) by (auto simp: empty_slot_def slots_ok_def nth_list_update less_Suc_eq)
  with empty_slot_ok [OF ok(1), of n] Suc.prems(2) show ?case by (simp add: Let_def)
qed (simp add: Let_def)

lemma restart_inv: "slots_ok g \<Longrightarrow> game_inv (restart g)"
proof -
  assume ok: "slots_ok g"
  let ?g1 = "clear_rect (g_player g) (g\<lparr>g_fail := False\<rparr>)"
  let ?g2 = "fold empty_slot [0..<10] ?g1"
  have "slots_ok ?g1" using ok by (simp add: slots_ok_def)
  from empty_slots [OF this, of 10] have g2: "slots_ok ?g2" "\<forall>i < 10. \<not> it_valid (g_obs ?g2 ! i)" by (simp_all add: Let_def)
  then have none: "\<forall>ob \<in> set (g_obs ?g2). \<not> it_valid ob" by (auto simp: slots_ok_def in_set_conv_nth)
  have zero: "count_valid obs = 0" if "\<forall>ob \<in> set obs. \<not> it_valid ob" for obs
    using that by (induction obs) (simp_all add: count_valid_def)
  have "restart g = (init_player ?g2)\<lparr>g_num_obs := 0, g_score := 0\<rparr>"
    by (simp add: restart_def Let_def empty_slot_def [abs_def])
  with g2(1) zero [OF none] show ?thesis by (simp add: game_inv_def slots_ok_def init_player_def)
qed

lemma game_inv_slots: "game_inv g \<Longrightarrow> slots_ok g"
  by (simp add: game_inv_def slots_ok_def)

lemma game_round_inv: "slots_ok g \<Longrightarrow> game_round seed kss g = Inr g' \<Longrightarrow> game_inv g'"
proof -
  assume ok: "slots_ok g" and run: "game_round seed kss g = Inr g'"
  have "slots_ok (g\<lparr>g_rand := srand seed\<rparr>)" using ok by (simp add: slots_ok_def)
  from restart_inv [OF this]
  have "game_inv ((restart (g\<lparr>g_rand := srand seed\<rparr>))\<lparr>g_first_press := True, g_pause := False\<rparr>)" by simp
  from game_frames_inv [OF this] run show ?thesis by (auto simp: game_round_def bindr_eq_Inr)
qed

lemma game_rounds_inv: "game_inv g \<Longrightarrow> game_rounds rs g = Inr g' \<Longrightarrow> game_inv g'"
proof (induction rs g rule: game_rounds.induct)
  case (2 seed kss rs g)
  then obtain g1 where "game_round seed kss g = Inr g1" "(if g_fail g1 then game_rounds rs g1 else Inr g1) = Inr g'"
    by (auto simp: bindr_eq_Inr)
  with game_round_inv [OF game_inv_slots [OF "2.prems"(1)]] "2.IH" show ?case by (auto split: if_splits)
qed simp

lemma game_start_inv: "0 \<le> height \<Longrightarrow> game_inv (game_start width height)"
  by (simp add: game_inv_def game_start_def item_ok_def zero_item_def count_valid_def sum_list_replicate)

section \<open>Properties\<close>

text \<open>
  The obstacles of the game, in every state that any number of rounds and frames with any keys reach: the number
  of obstacles is the number of slots in use and at most eight, every obstacle lies between the top and the
  bottom of the screen and moves only to the left, so it leaves the screen only over the left edge.
\<close>

theorem obstacles_stay_in_height:
  assumes "0 \<le> height" and "game_rounds rs (game_start width height) = Inr g"
  shows "g_num_obs g = count_valid (g_obs g) \<and> 0 \<le> g_num_obs g \<and> g_num_obs g \<le> 8 \<and>
    (\<forall>i < 10. let ob = g_obs g ! i in 0 \<le> it_y ob \<and> it_y ob + it_h ob \<le> g_height g \<and> it_dy ob = 0 \<and> it_dx ob \<le> 0 \<and>
       (\<not> inbound g ob \<longleftrightarrow> it_x ob < 10))"
proof -
  have inv: "game_inv g" by (rule game_rounds_inv [OF game_start_inv [OF assms(1)] assms(2)])
  have "0 \<le> count_valid obs" for obs by (induction obs) (auto simp: count_valid_def)
  moreover have "item_ok (g_height g) (g_obs g ! i)" if "i < 10" for i using item_okD [OF inv that] .
  ultimately show ?thesis using inv by (auto simp: game_inv_def Let_def inbound_def item_ok_def)
qed

text \<open>Fifteen frames on a screen of 640 by 480: the first obstacle has come.\<close>

lemma fifteen_frames: "case game_rounds [(1, replicate 15 [])] (game_start 640 480) of Inr g \<Rightarrow> g_num_obs g = 1 | Inl _ \<Rightarrow> False"
  by code_simp

lemma obstacles_stay_in_height_witness:
  "\<exists>g. game_rounds [(1, replicate 15 [])] (game_start 640 480) = Inr g \<and> count_valid (g_obs g) = 1"
proof -
  obtain g where g: "game_rounds [(1, replicate 15 [])] (game_start 640 480) = Inr g" "g_num_obs g = 1"
    using fifteen_frames by (auto split: sum.splits)
  from obstacles_stay_in_height [OF _ g(1)] g show ?thesis by auto
qed

section \<open>An obstacle that stays\<close>

text \<open>
  One draw in seven is 0, for which the code has no case: in a slot not used before the obstacle then has no
  speed, and a step of the screen leaves it where it is.
\<close>

lemma obstacle_without_speed:
  assumes "rand_mod 7 (g_rand g) = Inr (0, s)" and "init_obs g zero_item = Inr (ob, s')"
  shows "it_dx ob = 0 \<and> it_ddx ob = 0 \<and> it_x (update ob) = g_width g - 10"
  using assms by (auto simp: init_obs_def choose_obs_def zero_item_def update_def Let_def split: if_splits)

end
