(* ===== verification/Exchange_Sort.thy ===== *)
theory Exchange_Sort imports C_Base "HOL-Library.Multiset" begin

text \<open>
  The exchange sort that \<open>pstree/pstree.c\<close> and \<open>sperf/sperf.c\<close> write out: two nested loops over the
  positions of an array that swap a pair whenever it is out of order. The order is a locale; the two
  programs interpret it with their comparisons.
\<close>

section \<open>The loops\<close>

definition exchange :: "('a \<Rightarrow> 'a \<Rightarrow> bool) \<Rightarrow> nat \<Rightarrow> nat \<Rightarrow> 'a list \<Rightarrow> 'a list" where
  "exchange gt i j xs = (if gt (xs ! i) (xs ! j) then xs[i := xs ! j, j := xs ! i] else xs)"

definition exchange_row :: "('a \<Rightarrow> 'a \<Rightarrow> bool) \<Rightarrow> nat \<Rightarrow> nat \<Rightarrow> 'a list \<Rightarrow> 'a list" where
  "exchange_row gt i n xs = fold (exchange gt i) [i + 1..<n] xs"

definition exchange_sort :: "('a \<Rightarrow> 'a \<Rightarrow> bool) \<Rightarrow> 'a list \<Rightarrow> 'a list" where
  "exchange_sort gt xs = fold (\<lambda>i. exchange_row gt i (length xs)) [0..<length xs] xs"

section \<open>Permutation\<close>

lemma length_exchange [simp]: "length (exchange gt i j xs) = length xs"
  by (simp add: exchange_def)

lemma mset_exchange: "i < length xs \<Longrightarrow> j < length xs \<Longrightarrow> mset (exchange gt i j xs) = mset xs"
  by (simp add: exchange_def mset_swap)

lemma fold_exchange:
  "i < length xs \<Longrightarrow> \<forall>j \<in> set js. j < length xs \<Longrightarrow>
     length (fold (exchange gt i) js xs) = length xs \<and> mset (fold (exchange gt i) js xs) = mset xs"
  by (induction js arbitrary: xs) (simp_all add: mset_exchange)

lemma exchange_row_mset:
  "i < length xs \<Longrightarrow> n \<le> length xs \<Longrightarrow> length (exchange_row gt i n xs) = length xs \<and> mset (exchange_row gt i n xs) = mset xs"
  unfolding exchange_row_def by (rule fold_exchange) auto

lemma exchange_rows_mset:
  "m \<le> length xs \<Longrightarrow> n \<le> length xs \<Longrightarrow>
     length (fold (\<lambda>i. exchange_row gt i n) [0..<m] xs) = length xs \<and> mset (fold (\<lambda>i. exchange_row gt i n) [0..<m] xs) = mset xs"
proof (induction m)
  case (Suc m)
  then have "length (fold (\<lambda>i. exchange_row gt i n) [0..<m] xs) = length xs"
    "mset (fold (\<lambda>i. exchange_row gt i n) [0..<m] xs) = mset xs" by simp_all
  with exchange_row_mset [of m "fold (\<lambda>i. exchange_row gt i n) [0..<m] xs" n gt] Suc.prems show ?case by simp
qed simp

lemma mset_exchange_sort: "mset (exchange_sort gt xs) = mset xs"
  unfolding exchange_sort_def using exchange_rows_mset by blast

lemma length_exchange_sort [simp]: "length (exchange_sort gt xs) = length xs"
  by (metis mset_exchange_sort size_mset)

section \<open>Order\<close>

locale exchange_order =
  fixes gt :: "'a \<Rightarrow> 'a \<Rightarrow> bool"
  assumes gt_asym: "gt x y \<Longrightarrow> \<not> gt y x"
    and not_gt_trans: "\<not> gt x y \<Longrightarrow> \<not> gt y z \<Longrightarrow> \<not> gt x z"
begin

text \<open>After the inner loop has reached \<open>n\<close>, place \<open>i\<close> holds a least element of what follows; what precedes is untouched.\<close>

lemma fold_exchange_least:
  assumes "i < length xs" and "n \<le> length xs" and "i < n"
  shows "let ys = fold (exchange gt i) [i + 1..<n] xs in
    length ys = length xs \<and> (\<forall>k < i. ys ! k = xs ! k) \<and> (\<forall>k. i < k \<and> k < n \<longrightarrow> \<not> gt (ys ! i) (ys ! k)) \<and>
    (\<forall>k \<ge> n. k < length xs \<longrightarrow> ys ! k = xs ! k)"
  using assms
proof (induction n)
  case (Suc n)
  show ?case
  proof (cases "i = n")
    case False
    then have i: "i < n" using Suc.prems(3) by simp
    let ?ys = "fold (exchange gt i) [i + 1..<n] xs"
    have ih: "length ?ys = length xs" "\<forall>k < i. ?ys ! k = xs ! k" "\<forall>k. i < k \<and> k < n \<longrightarrow> \<not> gt (?ys ! i) (?ys ! k)"
      "\<forall>k \<ge> n. k < length xs \<longrightarrow> ?ys ! k = xs ! k"
      using Suc.IH Suc.prems i by (simp_all add: Let_def)
    have step: "fold (exchange gt i) [i + 1..<Suc n] xs = exchange gt i n ?ys" using i by simp
    have n: "n < length ?ys" "i < length ?ys" using Suc.prems(2) ih(1) i by simp_all
    have "\<not> gt (exchange gt i n ?ys ! i) (exchange gt i n ?ys ! k)" if "i < k" "k < Suc n" for k
    proof (cases "gt (?ys ! i) (?ys ! n)")
      case True
      then have "\<not> gt (?ys ! n) (?ys ! i)" by (rule gt_asym)
      then show ?thesis using True that i n ih(3) not_gt_trans [of "?ys ! n" "?ys ! i" "?ys ! k"]
        by (cases "k = n") (auto simp: exchange_def nth_list_update)
    next
      case False
      then show ?thesis using that ih(3) by (cases "k = n") (auto simp: exchange_def)
    qed
    then show ?thesis
      unfolding step Let_def using ih n i by (auto simp: exchange_def nth_list_update)
  qed (use Suc.prems in \<open>auto simp: Let_def\<close>)
qed simp

lemma exchange_rows_sorted:
  assumes "m \<le> length xs"
  shows "let ys = fold (\<lambda>i. exchange_row gt i (length xs)) [0..<m] xs in
    length ys = length xs \<and> (\<forall>i < m. \<forall>k. i < k \<and> k < length xs \<longrightarrow> \<not> gt (ys ! i) (ys ! k))"
  using assms
proof (induction m)
  case (Suc m)
  let ?n = "length xs"
  let ?ys = "fold (\<lambda>i. exchange_row gt i ?n) [0..<m] xs"
  let ?zs = "exchange_row gt m ?n ?ys"
  have ih: "length ?ys = ?n" "\<forall>i < m. \<forall>k. i < k \<and> k < ?n \<longrightarrow> \<not> gt (?ys ! i) (?ys ! k)"
    using Suc by (simp_all add: Let_def)
  have m: "m < length ?ys" "?n \<le> length ?ys" using ih(1) Suc.prems by simp_all
  have row: "length ?zs = ?n" "\<forall>k < m. ?zs ! k = ?ys ! k" "\<forall>k. m < k \<and> k < ?n \<longrightarrow> \<not> gt (?zs ! m) (?zs ! k)"
    using fold_exchange_least [OF m] Suc.prems ih(1) by (simp_all add: exchange_row_def Let_def)
  have "mset ?zs = mset ?ys" using exchange_row_mset [OF m] by blast
  then have tail: "mset (drop m ?zs) = mset (drop m ?ys)"
  proof -
    have "take m ?zs = take m ?ys" by (rule nth_equalityI) (use row ih(1) in auto)
    with \<open>mset ?zs = mset ?ys\<close> show ?thesis
      by (metis append_take_drop_id mset_append add_left_cancel)
  qed
  have "\<not> gt (?zs ! i) (?zs ! k)" if "i < m" "i < k" "k < ?n" for i k
  proof (cases "k < m")
    case True
    then show ?thesis using that ih(2) row(2) by simp
  next
    case False
    then have "?zs ! k = drop m ?zs ! (k - m)" "k - m < length (drop m ?zs)" using that row(1) by simp_all
    then have "?zs ! k \<in> set (drop m ?zs)" by (metis nth_mem)
    then have "?zs ! k \<in> set (drop m ?ys)" using tail by (metis set_mset_mset)
    then obtain l where "l < ?n - m" "?zs ! k = ?ys ! (m + l)" using ih(1) by (auto simp: in_set_conv_nth)
    then show ?thesis using ih(2) row(2) that(1) by simp
  qed
  then show ?case using row(1,3) by (auto simp: Let_def less_Suc_eq)
qed simp

lemma sorted_exchange_sort: "sorted_wrt (\<lambda>x y. \<not> gt x y) (exchange_sort gt xs)"
  using exchange_rows_sorted [of "length xs" xs]
  by (auto simp: exchange_sort_def sorted_wrt_iff_nth_less Let_def)

end

end
