(* ===== verification/Pstree.thy ===== *)
theory Pstree imports Exchange_Sort begin

text \<open>
  \<open>pstree/pstree.c\<close>: the tree of processes is read from the files of \<open>/proc\<close> and printed with lines that
  connect a process to its children. The contents of \<open>/proc\<close> are an argument; the arrays keep their sizes,
  an index outside one or a variable that a failed \<open>fscanf\<close> left unset is \<open>BadAccess\<close>.
\<close>

section \<open>Reading\<close>

text \<open>\<open>None\<close> for a task directory that cannot be opened.\<close>

record proc_files =
  pf_stat :: "int \<Rightarrow> string"
  pf_children :: "int \<Rightarrow> string"
  pf_tasks :: "int \<Rightarrow> string list option"

datatype process = Process (p_pid: int) (p_name: string) (p_sons: "process list") (p_thrs: "process list")

text \<open>What \<open>fscanf\<close> of the C library does with \<open>%d\<close> and \<open>%s\<close>: blanks are skipped first.\<close>

definition is_blank :: "char \<Rightarrow> bool" where
  "is_blank ch \<longleftrightarrow> ch = CHR '' '' \<or> ch = CHR 0x0A \<or> ch = CHR 0x09 \<or> ch = CHR 0x0D \<or> ch = CHR 0x0B \<or> ch = CHR 0x0C"

definition is_number_char :: "char \<Rightarrow> bool" where
  "is_number_char ch \<longleftrightarrow> (48 :: nat) \<le> of_char ch \<and> of_char ch \<le> (57 :: nat)"

definition digits_value :: "string \<Rightarrow> int" where
  "digits_value ds = fold (\<lambda>ch n. 10 * n + (of_char ch - 48)) ds 0"

datatype 'a scanned = Eof | Mismatch | Got 'a string

definition scan_word :: "string \<Rightarrow> string scanned" where
  "scan_word s = (let t = dropWhile is_blank s in
     if t = [] then Eof else Got (takeWhile (\<lambda>ch. \<not> is_blank ch) t) (dropWhile (\<lambda>ch. \<not> is_blank ch) t))"

definition scan_int :: "string \<Rightarrow> int scanned" where
  "scan_int s =
     (let t = dropWhile is_blank s;
          neg = (take 1 t = ''-'');
          u = (if neg \<or> take 1 t = ''+'' then drop 1 t else t);
          ds = takeWhile is_number_char u
      in if t = [] then Eof
         else if ds = [] then Mismatch
         else Got (if neg then - digits_value ds else digits_value ds) (dropWhile is_number_char u))"

definition isnumber :: "string \<Rightarrow> bool" where
  "isnumber s \<longleftrightarrow> list_all is_number_char s"

text \<open>
  The first fields of \<open>stat\<close>: number, word, word, number. The name is the second without its first and
  last character; a word of \<open>tmp\<close> has room for 2047, a name for 511.
\<close>

definition scanned_word :: "string \<Rightarrow> (string \<times> string) result" where
  "scanned_word s = (case scan_word s of Got w r \<Rightarrow> if length w < 2048 then Inr (w, r) else Inl BadAccess | _ \<Rightarrow> Inl BadAccess)"

definition scanned_int :: "string \<Rightarrow> (int \<times> string) result" where
  "scanned_int s = (case scan_int s of Got n r \<Rightarrow> Inr (n, r) | _ \<Rightarrow> Inl BadAccess)"

definition read_stat :: "string \<Rightarrow> (int \<times> string) result" where
  "read_stat s =
     bindr (scanned_int s) (\<lambda>(pid, s1). bindr (scanned_word s1) (\<lambda>(w, s2).
       if length (butlast (tl w)) \<ge> 512 then Inl BadAccess
       else bindr (scanned_word s2) (\<lambda>(_, s3). bindr (scanned_int s3) (\<lambda>(_, _). Inr (pid, butlast (tl w))))))"

text \<open>The loop over the numbers of \<open>children\<close>: a mismatch reads the same character for ever.\<close>

lemma scan_int_shorter: "scan_int s = Got n r \<Longrightarrow> length r < length s"
proof -
  assume scan: "scan_int s = Got n r"
  define t where "t = dropWhile is_blank s"
  define u where "u = (if take 1 t = ''-'' \<or> take 1 t = ''+'' then drop 1 t else t)"
  have "takeWhile is_number_char u \<noteq> []" "r = dropWhile is_number_char u"
    using scan by (auto simp: scan_int_def Let_def t_def u_def split: if_splits)
  then have "length r < length u"
    by (metis append_self_conv2 length_append less_add_same_cancel2 length_greater_0_conv takeWhile_dropWhile_id)
  also have "length u \<le> length t" by (simp add: u_def)
  also have "\<dots> \<le> length s" by (simp add: t_def length_dropWhile_le)
  finally show ?thesis .
qed

function child_pids :: "string \<Rightarrow> int list result" where
  "child_pids s =
     (case scan_int s of
        Eof \<Rightarrow> Inr []
      | Mismatch \<Rightarrow> Inl Hang
      | Got n r \<Rightarrow> bindr (child_pids r) (\<lambda>ns. Inr (n # ns)))"
  by pat_completeness auto
termination
  by (relation "measure length") (simp_all add: scan_int_shorter)

declare child_pids.simps [simp del]

text \<open>
  The loop over the task directory. Without \<open>-p\<close> only one entry is kept: its \<open>pid\<close> is set to the number
  of threads so far, and the number of threads to one.
\<close>

definition thread_entry :: "bool \<Rightarrow> int \<Rightarrow> string \<Rightarrow> string \<Rightarrow> nat \<times> process list \<Rightarrow> (nat \<times> process list) result" where
  "thread_entry showpid pid name d = (\<lambda>(nthr, thr).
     let tid = digits_value d;
         other = (tid \<noteq> pid);
         thr1 = (if other \<and> showpid then take nthr thr @ [Process tid (''{'' @ name @ ''}'') [] []] else thr);
         nthr1 = (if other then nthr + 1 else nthr)
     in if nthr1 > 128 then Inl BadAccess
        else if \<not> showpid \<and> nthr1 > 0 then Inr (1, [Process (int nthr1) (''{'' @ name @ ''}'') [] []])
        else Inr (nthr1, thr1))"

fun thread_loop :: "bool \<Rightarrow> int \<Rightarrow> string \<Rightarrow> string list \<Rightarrow> nat \<times> process list \<Rightarrow> (nat \<times> process list) result" where
  "thread_loop showpid pid name [] nt = Inr nt"
| "thread_loop showpid pid name (d # ds) nt =
     bindr (if isnumber d then thread_entry showpid pid name d nt else Inr nt) (thread_loop showpid pid name ds)"

fun collect :: "('a \<Rightarrow> 'b result) \<Rightarrow> 'a list \<Rightarrow> 'b list result" where
  "collect f [] = Inr []"
| "collect f (x # xs) = bindr (f x) (\<lambda>y. bindr (collect f xs) (\<lambda>ys. Inr (y # ys)))"

text \<open>\<open>fuel\<close> bounds the depth of the tree.\<close>

fun getinfo :: "nat \<Rightarrow> proc_files \<Rightarrow> bool \<Rightarrow> int \<Rightarrow> process result" where
  "getinfo 0 pf showpid pid = Inl Hang"
| "getinfo (Suc fuel) pf showpid pid =
     bindr (read_stat (pf_stat pf pid)) (\<lambda>(rpid, name).
       bindr (child_pids (pf_children pf pid)) (\<lambda>chs.
         if length chs > 128 then Inl BadAccess
         else bindr (collect (getinfo fuel pf showpid) chs) (\<lambda>sons.
           case pf_tasks pf pid of
             None \<Rightarrow> Inl Halt
           | Some ents \<Rightarrow> bindr (thread_loop showpid pid name ents (0, [])) (\<lambda>(_, thrs). Inr (Process rpid name sons thrs)))))"

section \<open>Sorting the children\<close>

text \<open>Characters compare as signed bytes.\<close>

definition char_val :: "char \<Rightarrow> int" where
  "char_val ch = sint (of_char ch :: u8)"

fun cpr :: "string \<Rightarrow> string \<Rightarrow> bool" where
  "cpr (a # s) (b # t) = (if char_val a > char_val b then True else if char_val b > char_val a then False else cpr s t)"
| "cpr (a # s) [] = True"
| "cpr [] t = False"

definition son_order :: "bool \<Rightarrow> process \<Rightarrow> process \<Rightarrow> bool" where
  "son_order issort p q = (if issort then p_pid p > p_pid q else cpr (p_name p) (p_name q))"

section \<open>Printing\<close>

record pstate =
  ps_pre :: "char list"
  ps_stack :: "nat list"
  ps_head :: nat
  ps_isroot :: bool
  ps_out :: string

fun show_nat :: "nat \<Rightarrow> string" where
  "show_nat n = (if n < 10 then [char_of (n + 48)] else show_nat (n div 10) @ [char_of (n mod 10 + 48)])"

declare show_nat.simps [simp del]

definition show_int :: "int \<Rightarrow> string" where
  "show_int i = (if i < 0 then CHR ''-'' # show_nat (nat (- i)) else show_nat (nat i))"

definition label :: "bool \<Rightarrow> process \<Rightarrow> string" where
  "label showpid p = (if showpid then p_name p @ ''('' @ show_int (p_pid p) @ '')'' else p_name p)"

definition pre_str :: "pstate \<Rightarrow> string" where
  "pre_str st = takeWhile (\<lambda>ch. ch \<noteq> CHR 0x00) (ps_pre st)"

definition set_pre :: "nat \<Rightarrow> char \<Rightarrow> pstate \<Rightarrow> pstate result" where
  "set_pre i ch st = (if i < length (ps_pre st) then Inr (st\<lparr>ps_pre := (ps_pre st)[i := ch]\<rparr>) else Inl BadAccess)"

definition stack_at :: "nat \<Rightarrow> pstate \<Rightarrow> nat result" where
  "stack_at i st = (if i < length (ps_stack st) then Inr (ps_stack st ! i) else Inl BadAccess)"

definition set_stack :: "nat \<Rightarrow> nat \<Rightarrow> pstate \<Rightarrow> pstate result" where
  "set_stack i v st = (if i < length (ps_stack st) then Inr (st\<lparr>ps_stack := (ps_stack st)[i := v]\<rparr>) else Inl BadAccess)"

text \<open>\<open>pre[stack[i] - 1] = ch\<close>.\<close>

definition set_pre_before :: "nat \<Rightarrow> char \<Rightarrow> pstate \<Rightarrow> pstate result" where
  "set_pre_before i ch st = bindr (stack_at i st) (\<lambda>v. if v = 0 then Inl BadAccess else set_pre (v - 1) ch st)"

text \<open>The text of the line or the part of one, and the new top of the stack.\<close>

definition head_text :: "bool \<Rightarrow> process \<Rightarrow> int \<Rightarrow> pstate \<Rightarrow> (string \<times> pstate) result" where
  "head_text showpid cur type st =
     (if ps_isroot st then
        (let tmp = label showpid cur in
         bindr (set_stack (ps_head st + 1) (length tmp + 1) st) (\<lambda>st1. Inr (tmp, st1\<lparr>ps_isroot := False, ps_head := ps_head st + 1\<rparr>)))
      else if type = 0 then
        (let tmp = ''-'' @ label showpid cur in
         bindr (stack_at (ps_head st) st) (\<lambda>v.
           bindr (set_stack (ps_head st + 1) (v + length tmp + 1) st) (\<lambda>st1. Inr (tmp, st1\<lparr>ps_head := ps_head st + 1\<rparr>))))
      else
        bindr (if type = -1 then set_pre_before (ps_head st) (CHR 0x5C) st else Inr st) (\<lambda>st1.
          let tmp = pre_str st1 @ ''-'' @ label showpid cur in
          bindr (set_stack (ps_head st1 + 1) (length tmp + 1) st1) (\<lambda>st2. Inr (tmp, st2\<lparr>ps_head := ps_head st1 + 1\<rparr>))))"

fun blank_pre :: "nat list \<Rightarrow> pstate \<Rightarrow> pstate result" where
  "blank_pre [] st = Inr st"
| "blank_pre (i # is) st = bindr (set_pre i (CHR '' '') st) (blank_pre is)"

text \<open>\<open>if (type == -1) pre[stack[head-1]-1] = ' '\<close>, and the switch on the number of children.\<close>

definition clear_mark :: "int \<Rightarrow> pstate \<Rightarrow> pstate result" where
  "clear_mark type st = (if type = -1 then set_pre_before (ps_head st - 1) (CHR '' '') st else Inr st)"

definition branch_text :: "nat \<Rightarrow> nat \<Rightarrow> pstate \<Rightarrow> pstate result" where
  "branch_text n b st =
     (if n = 0 then Inr (st\<lparr>ps_out := ps_out st @ [CHR 0x0A]\<rparr>)
      else if n = 1 then set_pre b (CHR '' '') (st\<lparr>ps_out := ps_out st @ ''--''\<rparr>)
      else Inr (st\<lparr>ps_out := ps_out st @ ''-+''\<rparr>))"

text \<open>The part of \<open>search\<close> before the recursive calls; \<open>tmp\<close> has 2048 bytes.\<close>

definition search_enter :: "bool \<Rightarrow> process \<Rightarrow> int \<Rightarrow> pstate \<Rightarrow> pstate result" where
  "search_enter showpid cur type st =
     bindr (head_text showpid cur type st) (\<lambda>(tmp, st1).
       if length tmp \<ge> 2048 then Inl BadAccess
       else bindr (clear_mark type (st1\<lparr>ps_out := ps_out st1 @ tmp\<rparr>)) (\<lambda>st3.
         bindr (stack_at (ps_head st3 - 1) st3) (\<lambda>a. bindr (stack_at (ps_head st3) st3) (\<lambda>b.
           bindr (blank_pre [a..<b] st3) (\<lambda>st4. bindr (set_pre b (CHR ''|'') st4) (\<lambda>st5.
             bindr (branch_text (length (p_sons cur) + length (p_thrs cur)) b st5) (\<lambda>st6.
               bindr (set_stack (ps_head st6) (b + 1) st6) (\<lambda>st7. set_pre (b + 1) (CHR 0x00) st7))))))))"

definition search_leave :: "pstate \<Rightarrow> pstate result" where
  "search_leave st =
     (let st1 = st\<lparr>ps_head := ps_head st - 1\<rparr>
      in bindr (stack_at (ps_head st1) st1) (\<lambda>v. set_pre v (CHR 0x00) st1))"

text \<open>The recursive calls: \<open>type\<close>, \<open>isproc\<close> and the process of each, in order.\<close>

definition son_calls :: "process list \<Rightarrow> nat \<Rightarrow> (int \<times> bool \<times> process) list" where
  "son_calls sons nthr =
     map (\<lambda>i. (if length sons > 1 \<and> nthr = 0 \<and> i = length sons - 1 then -1 else int i, True, sons ! i)) [0..<length sons]"

definition thread_calls :: "bool \<Rightarrow> nat \<Rightarrow> process list \<Rightarrow> (int \<times> bool \<times> process) list" where
  "thread_calls showpid nson thrs =
     (if showpid then
        map (\<lambda>i. (if nson + length thrs > 1 \<and> length thrs - 1 + nson = i + nson then -1 else int (i + nson), False, thrs ! i)) [0..<length thrs]
      else case thrs of
        [] \<Rightarrow> []
      | Process n name sons ts # _ \<Rightarrow>
          [(if nson = 0 then 0 else -1, False, Process n (if n > 1 then show_int n @ ''*['' @ name @ '']'' else name) sons ts)])"

definition search_calls :: "bool \<Rightarrow> bool \<Rightarrow> bool \<Rightarrow> process \<Rightarrow> (int \<times> bool \<times> process) list" where
  "search_calls issort showpid isproc cur =
     (if isproc
      then son_calls (exchange_sort (son_order issort) (p_sons cur)) (length (p_thrs cur)) @
           thread_calls showpid (length (p_sons cur)) (p_thrs cur)
      else [])"

definition calls_size :: "(int \<times> bool \<times> process) list \<Rightarrow> nat" where
  "calls_size cs = (\<Sum>(_, _, p) \<leftarrow> cs. size p + 1)"

lemma calls_size_append [simp]: "calls_size (cs @ ds) = calls_size cs + calls_size ds"
  by (simp add: calls_size_def)

lemma calls_size_Cons [simp]: "calls_size ((t, b, p) # cs) = size p + 1 + calls_size cs"
  by (simp add: calls_size_def)

lemma calls_size_map: "calls_size (map (\<lambda>i. (t i, b, ps ! i)) [0..<length ps]) = size_list size ps"
proof -
  have "map (\<lambda>i. size (ps ! i) + 1) [0..<length ps] = map (\<lambda>p. size p + 1) ps"
    by (rule nth_equalityI) simp_all
  then have "calls_size (map (\<lambda>i. (t i, b, ps ! i)) [0..<length ps]) = sum_list (map (\<lambda>p. size p + 1) ps)"
    by (simp add: calls_size_def comp_def)
  also have "\<dots> = size_list size ps" by (induction ps) simp_all
  finally show ?thesis .
qed

lemma size_list_mset: "mset xs = mset ys \<Longrightarrow> size_list f xs = size_list f ys"
  by (simp add: size_list_conv_sum_list)
    (metis mset_map size_mset sum_mset_sum_list)

lemma size_process: "size p = size_list size (p_sons p) + size_list size (p_thrs p) + 1"
  by (cases p) simp

lemma thread_calls_size: "calls_size (thread_calls showpid nson thrs) \<le> size_list size thrs"
proof (cases showpid)
  case True
  then show ?thesis unfolding thread_calls_def if_P [OF True] by (subst calls_size_map) simp
next
  case False
  then show ?thesis by (auto simp: thread_calls_def calls_size_def split: list.splits process.splits)
qed

lemma son_calls_size: "calls_size (son_calls sons nthr) = size_list size sons"
  unfolding son_calls_def by (rule calls_size_map)

lemma search_calls_size: "calls_size (search_calls issort showpid isproc cur) < size cur + 1"
proof -
  have "size_list size (exchange_sort (son_order issort) (p_sons cur)) = size_list size (p_sons cur)"
    by (rule size_list_mset) (rule mset_exchange_sort)
  then show ?thesis
    using thread_calls_size [of showpid "length (p_sons cur)" "p_thrs cur"]
    by (simp add: search_calls_def son_calls_size size_process [of cur]) (simp add: calls_size_def)
qed

text \<open>\<open>search\<close> on each of a list of calls; \<open>search\<close> itself is the list of one.\<close>

function search_each :: "bool \<Rightarrow> bool \<Rightarrow> (int \<times> bool \<times> process) list \<Rightarrow> pstate \<Rightarrow> pstate result" where
  "search_each issort showpid [] st = Inr st"
| "search_each issort showpid ((type, isproc, cur) # cs) st =
     bindr (search_enter showpid cur type st) (\<lambda>st1.
       bindr (search_each issort showpid (search_calls issort showpid isproc cur) st1) (\<lambda>st2.
         bindr (search_leave st2) (search_each issort showpid cs)))"
  by pat_completeness auto
termination
  by (relation "measure (\<lambda>(issort, showpid, cs, st). calls_size cs)") (auto intro: less_le_trans [OF search_calls_size])

definition search :: "bool \<Rightarrow> bool \<Rightarrow> process \<Rightarrow> int \<Rightarrow> bool \<Rightarrow> pstate \<Rightarrow> pstate result" where
  "search issort showpid cur type isproc st = search_each issort showpid [(type, isproc, cur)] st"

definition pstree_start :: pstate where
  "pstree_start = \<lparr>ps_pre = replicate 512 (CHR 0x00), ps_stack = replicate 512 0, ps_head = 0, ps_isroot = True, ps_out = []\<rparr>"

text \<open>\<open>main\<close> with its two flags: what it prints.\<close>

definition pstree :: "nat \<Rightarrow> proc_files \<Rightarrow> bool \<Rightarrow> bool \<Rightarrow> string result" where
  "pstree fuel pf issort showpid =
     bindr (getinfo fuel pf showpid 1) (\<lambda>root. bindr (search issort showpid root 0 True pstree_start) (\<lambda>st. Inr (ps_out st)))"

end
