(* ===== verification/Pstree_Lines.thy ===== *)
theory Pstree_Lines imports Pstree begin

text \<open>
  What \<open>pstree\<close> prints: the children of a process in the order of their names or numbers, each once, and
  one line for every process or group of threads that has nothing below it. Also what the count of threads
  gets wrong.
\<close>

section \<open>The orders\<close>

lemma cpr_asym: "cpr s t \<Longrightarrow> \<not> cpr t s"
proof (induction s t rule: cpr.induct)
  case (1 a s b t)
  then show ?case by (cases "char_val a" "char_val b" rule: linorder_cases) simp_all
qed simp_all

lemma not_cpr_Cons: "\<not> cpr (a # s) (b # t) \<longleftrightarrow> char_val a < char_val b \<or> char_val a = char_val b \<and> \<not> cpr s t"
  by auto

lemma not_cpr_trans: "\<not> cpr s t \<Longrightarrow> \<not> cpr t u \<Longrightarrow> \<not> cpr s u"
proof (induction s t arbitrary: u rule: cpr.induct)
  case (1 a s b t)
  show ?case
  proof (cases u)
    case (Cons c v)
    show ?thesis
    proof (cases "char_val a = char_val b \<and> char_val b = char_val c")
      case True
      then have "\<not> cpr s v" using 1 unfolding Cons not_cpr_Cons by auto
      with True show ?thesis unfolding Cons not_cpr_Cons by simp
    next
      case False
      then have "char_val a < char_val c" using "1.prems" unfolding Cons not_cpr_Cons by linarith
      then show ?thesis unfolding Cons not_cpr_Cons ..
    qed
  qed (use 1 in simp)
next
  case (3 t)
  then show ?case by (cases u) auto
qed simp

interpretation by_pid: exchange_order "\<lambda>p q. p_pid p > p_pid q"
  by unfold_locales auto

interpretation by_name: exchange_order "\<lambda>p q. cpr (p_name p) (p_name q)"
  by unfold_locales (auto dest: cpr_asym not_cpr_trans)

interpretation son_order: exchange_order "son_order issort"
  by unfold_locales (auto simp: son_order_def dest: cpr_asym not_cpr_trans split: if_splits)

section \<open>No newlines but those of the leaves\<close>

abbreviation newline :: char where "newline \<equiv> CHR 0x0A"

abbreviation lines :: "string \<Rightarrow> nat" where "lines s \<equiv> count_list s newline"

lemma lines_zero: "newline \<notin> set s \<Longrightarrow> lines s = 0"
  by (simp add: count_list_0_iff)

lemma digit_no_newline: "n < 10 \<Longrightarrow> char_of (n + 48 :: nat) \<noteq> newline"
proof
  assume n: "n < 10" and "char_of (n + 48) = newline"
  then have "of_char (char_of (n + 48) :: char) = (10 :: nat)" by simp
  with n show False by simp
qed

lemma show_nat_plain: "newline \<notin> set (show_nat n)"
proof (induction n rule: show_nat.induct)
  case (1 n)
  then show ?case
    using digit_no_newline [of n] digit_no_newline [of "n mod 10"]
    by (subst show_nat.simps) (auto simp: add.commute)
qed

lemma show_int_plain: "newline \<notin> set (show_int n)"
  by (simp add: show_int_def show_nat_plain)

lemma label_plain: "newline \<notin> set (p_name p) \<Longrightarrow> newline \<notin> set (label showpid p)"
  by (simp add: label_def show_int_plain)

text \<open>A state whose prefix has no newline.\<close>

definition pre_plain :: "pstate \<Rightarrow> bool" where
  "pre_plain st \<longleftrightarrow> newline \<notin> set (ps_pre st)"

lemma pre_str_plain: "pre_plain st \<Longrightarrow> newline \<notin> set (pre_str st)"
  by (auto simp: pre_plain_def pre_str_def dest: set_takeWhileD)

lemma set_pre_plain: "set_pre i ch st = Inr st' \<Longrightarrow> ch \<noteq> newline \<Longrightarrow> (pre_plain st \<longrightarrow> pre_plain st') \<and> ps_out st' = ps_out st"
  by (auto simp: set_pre_def pre_plain_def dest!: set_update_subset_insert [THEN subsetD] split: if_splits)

lemma set_stack_plain: "set_stack i v st = Inr st' \<Longrightarrow> pre_plain st' = pre_plain st \<and> ps_out st' = ps_out st"
  by (auto simp: set_stack_def pre_plain_def split: if_splits)

lemma set_pre_before_plain:
  "set_pre_before i ch st = Inr st' \<Longrightarrow> ch \<noteq> newline \<Longrightarrow> (pre_plain st \<longrightarrow> pre_plain st') \<and> ps_out st' = ps_out st"
  by (auto simp: set_pre_before_def bindr_eq_Inr dest!: set_pre_plain split: if_splits)

lemma blank_pre_plain: "blank_pre is st = Inr st' \<Longrightarrow> (pre_plain st \<longrightarrow> pre_plain st') \<and> ps_out st' = ps_out st"
  by (induction "is" arbitrary: st) (auto simp: bindr_eq_Inr dest!: set_pre_plain)

lemma pre_plain_fields [simp]:
  "pre_plain (st\<lparr>ps_out := s\<rparr>) = pre_plain st" "pre_plain (st\<lparr>ps_head := n\<rparr>) = pre_plain st"
  "pre_plain (st\<lparr>ps_isroot := b\<rparr>) = pre_plain st"
  by (simp_all add: pre_plain_def)

lemma head_text_plain:
  assumes "head_text showpid cur type st = Inr (tmp, st')" and "pre_plain st" and "newline \<notin> set (p_name cur)"
  shows "newline \<notin> set tmp \<and> pre_plain st' \<and> ps_out st' = ps_out st"
  using assms label_plain [OF assms(3), of showpid]
  by (auto simp: head_text_def Let_def bindr_eq_Inr split: if_splits
      dest!: set_stack_plain set_pre_before_plain dest: pre_str_plain)

lemma clear_mark_plain: "clear_mark type st = Inr st' \<Longrightarrow> (pre_plain st \<longrightarrow> pre_plain st') \<and> ps_out st' = ps_out st"
  by (auto simp: clear_mark_def dest!: set_pre_before_plain split: if_splits)

lemma branch_text_lines:
  "branch_text n b st = Inr st' \<Longrightarrow> (pre_plain st \<longrightarrow> pre_plain st') \<and> lines (ps_out st') = lines (ps_out st) + (if n = 0 then 1 else 0)"
  by (auto simp: branch_text_def dest!: set_pre_plain split: if_splits)

lemma search_enter_lines:
  assumes "search_enter showpid cur type st = Inr st'" and "pre_plain st" and "newline \<notin> set (p_name cur)"
  shows "pre_plain st' \<and> lines (ps_out st') = lines (ps_out st) + (if p_sons cur = [] \<and> p_thrs cur = [] then 1 else 0)"
proof -
  obtain tmp st1 where h: "head_text showpid cur type st = Inr (tmp, st1)" using assms(1)
    by (auto simp: search_enter_def bindr_eq_Inr)
  from head_text_plain [OF this assms(2,3)] have st1: "newline \<notin> set tmp" "pre_plain st1" "ps_out st1 = ps_out st" by simp_all
  let ?n = "length (p_sons cur) + length (p_thrs cur)"
  obtain st3 a b st4 st5 st6 st7 where s3: "clear_mark type (st1\<lparr>ps_out := ps_out st1 @ tmp\<rparr>) = Inr st3"
    and s5: "blank_pre [a..<b] st3 = Inr st4" "set_pre b (CHR ''|'') st4 = Inr st5" "branch_text ?n b st5 = Inr st6"
    and s7: "set_stack (ps_head st6) (b + 1) st6 = Inr st7" "set_pre (b + 1) (CHR 0x00) st7 = Inr st'"
    using assms(1) h unfolding search_enter_def by (auto simp: bindr_eq_Inr split: if_splits)
  have "pre_plain st5 \<and> ps_out st5 = ps_out st @ tmp"
    using clear_mark_plain [OF s3] blank_pre_plain [OF s5(1)] set_pre_plain [OF s5(2)] st1 by simp
  then have "pre_plain st6 \<and> lines (ps_out st6) = lines (ps_out st) + (if ?n = 0 then 1 else 0)"
    using branch_text_lines [OF s5(3)] st1(1) by (simp add: lines_zero)
  then show ?thesis using set_stack_plain [OF s7(1)] set_pre_plain [OF s7(2)] by simp
qed

lemma search_leave_lines: "search_leave st = Inr st' \<Longrightarrow> (pre_plain st \<longrightarrow> pre_plain st') \<and> ps_out st' = ps_out st"
  by (auto simp: search_leave_def Let_def bindr_eq_Inr dest!: set_pre_plain)

section \<open>Leaves\<close>

fun leaves :: "process \<Rightarrow> nat" where
  "leaves (Process pid name sons thrs) =
     (if sons = [] \<and> thrs = [] then 1 else (\<Sum>q \<leftarrow> sons. leaves q) + (\<Sum>q \<leftarrow> thrs. leaves q))"

definition bare :: "process \<Rightarrow> bool" where
  "bare p \<longleftrightarrow> newline \<notin> set (p_name p) \<and> p_sons p = [] \<and> p_thrs p = []"

text \<open>The trees that \<open>getinfo\<close> builds.\<close>

fun tree_ok :: "bool \<Rightarrow> process \<Rightarrow> bool" where
  "tree_ok showpid (Process pid name sons thrs) \<longleftrightarrow>
     newline \<notin> set name \<and> (\<forall>q \<in> set sons. tree_ok showpid q) \<and> (\<forall>t \<in> set thrs. bare t) \<and> (showpid \<or> length thrs \<le> 1)"

definition call_ok :: "bool \<Rightarrow> int \<times> bool \<times> process \<Rightarrow> bool" where
  "call_ok showpid = (\<lambda>(_, isproc, p). if isproc then tree_ok showpid p else bare p)"

definition call_leaves :: "(int \<times> bool \<times> process) list \<Rightarrow> nat" where
  "call_leaves cs = (\<Sum>(_, _, p) \<leftarrow> cs. leaves p)"

lemma leaves_bare: "bare p \<Longrightarrow> leaves p = 1"
  by (cases p) (simp add: bare_def)

lemma tree_ok_name: "tree_ok showpid p \<Longrightarrow> newline \<notin> set (p_name p)"
  by (cases p) simp

lemma call_leaves_map: "call_leaves (map (\<lambda>i. (t i, b, ps ! i)) [0..<length ps]) = (\<Sum>p \<leftarrow> ps. leaves p)"
proof -
  have "map (\<lambda>i. leaves (ps ! i)) [0..<length ps] = map leaves ps" by (rule nth_equalityI) simp_all
  then show ?thesis by (simp add: call_leaves_def comp_def)
qed

lemma thread_calls_leaves:
  assumes "\<forall>t \<in> set thrs. bare t" and "showpid \<or> length thrs \<le> 1"
  shows "call_leaves (thread_calls showpid nson thrs) = (\<Sum>p \<leftarrow> thrs. leaves p)"
    and "\<forall>c \<in> set (thread_calls showpid nson thrs). call_ok showpid c"
proof -
  show "call_leaves (thread_calls showpid nson thrs) = (\<Sum>p \<leftarrow> thrs. leaves p)"
  proof (cases showpid)
    case True
    show ?thesis unfolding thread_calls_def if_P [OF True] by (rule call_leaves_map)
  next
    case False
    with assms(2) have "length thrs \<le> 1" by simp
    with False assms(1) show ?thesis
      by (cases thrs) (auto simp: thread_calls_def call_leaves_def bare_def split: process.splits)
  qed
  show "\<forall>c \<in> set (thread_calls showpid nson thrs). call_ok showpid c"
    using assms(1) show_int_plain
    by (auto simp: thread_calls_def call_ok_def bare_def split: list.splits process.splits)
qed

lemma search_calls_leaves:
  assumes "tree_ok showpid p"
  shows "call_leaves (search_calls issort showpid True p) = (\<Sum>q \<leftarrow> p_sons p. leaves q) + (\<Sum>q \<leftarrow> p_thrs p. leaves q)"
    and "\<forall>c \<in> set (search_calls issort showpid True p). call_ok showpid c"
proof -
  let ?sons = "exchange_sort (son_order issort) (p_sons p)"
  have same: "mset ?sons = mset (p_sons p)" by (rule mset_exchange_sort)
  have "(\<Sum>q \<leftarrow> ?sons. leaves q) = (\<Sum>q \<leftarrow> p_sons p. leaves q)"
    using same by (metis mset_map sum_mset_sum_list)
  moreover have "call_leaves (son_calls ?sons n) = (\<Sum>q \<leftarrow> ?sons. leaves q)" for n
    unfolding son_calls_def by (rule call_leaves_map)
  ultimately show "call_leaves (search_calls issort showpid True p) = (\<Sum>q \<leftarrow> p_sons p. leaves q) + (\<Sum>q \<leftarrow> p_thrs p. leaves q)"
    using thread_calls_leaves(1) [of "p_thrs p" showpid] assms
    by (cases p) (simp add: search_calls_def call_leaves_def)
  have "set ?sons = set (p_sons p)" using same by (rule mset_eq_setD)
  then have "\<forall>q \<in> set ?sons. tree_ok showpid q" using assms by (cases p) simp
  then have "\<forall>i < length (p_sons p). tree_ok showpid (?sons ! i)" by simp
  then have "\<forall>c \<in> set (son_calls ?sons n). call_ok showpid c" for n by (auto simp: son_calls_def call_ok_def)
  then show "\<forall>c \<in> set (search_calls issort showpid True p). call_ok showpid c"
    using thread_calls_leaves(2) [of "p_thrs p" showpid] assms by (cases p) (simp add: search_calls_def ball_Un)
qed

lemma search_each_lines:
  "search_each issort showpid cs st = Inr st' \<Longrightarrow> \<forall>c \<in> set cs. call_ok showpid c \<Longrightarrow> pre_plain st \<Longrightarrow>
     pre_plain st' \<and> lines (ps_out st') = lines (ps_out st) + call_leaves cs"
proof (induction issort showpid cs st arbitrary: st' rule: search_each.induct)
  case (1 issort showpid st)
  then show ?case by (simp add: call_leaves_def)
next
  case (2 issort showpid type isproc cur cs st)
  let ?calls = "search_calls issort showpid isproc cur"
  obtain st1 st2 st3 where run: "search_enter showpid cur type st = Inr st1" "search_each issort showpid ?calls st1 = Inr st2"
    "search_leave st2 = Inr st3" "search_each issort showpid cs st3 = Inr st'"
    using "2.prems"(1) by (auto simp: bindr_eq_Inr)
  have ok: "call_ok showpid (type, isproc, cur)" using "2.prems"(2) by simp
  then have "newline \<notin> set (p_name cur)" by (cases isproc) (auto simp: call_ok_def bare_def dest: tree_ok_name)
  from search_enter_lines [OF run(1) "2.prems"(3) this]
  have st1: "pre_plain st1" "lines (ps_out st1) = lines (ps_out st) + (if p_sons cur = [] \<and> p_thrs cur = [] then 1 else 0)" by simp_all
  have calls: "(\<forall>c \<in> set ?calls. call_ok showpid c) \<and>
    leaves cur = (if p_sons cur = [] \<and> p_thrs cur = [] then 1 else 0) + call_leaves ?calls"
  proof (cases isproc)
    case True
    with ok have "tree_ok showpid cur" by (simp add: call_ok_def)
    from search_calls_leaves [OF this, of issort] True show ?thesis by (cases cur) auto
  next
    case False
    with ok show ?thesis by (simp add: call_ok_def search_calls_def leaves_bare call_leaves_def bare_def)
  qed
  have st2: "pre_plain st2" "lines (ps_out st2) = lines (ps_out st1) + call_leaves ?calls"
    using "2.IH"(1) [OF run(2) _ st1(1)] calls by simp_all
  have "pre_plain st3" "ps_out st3 = ps_out st2" using search_leave_lines [OF run(3)] st2(1) by simp_all
  with "2.IH"(2) [OF run(4)] "2.prems"(2) st1 st2 calls show ?case by (simp add: call_leaves_def)
qed

section \<open>The trees read\<close>

lemma scan_word_plain: "scan_word s = Got w r \<Longrightarrow> newline \<notin> set w"
  by (auto simp: scan_word_def Let_def is_blank_def dest: set_takeWhileD split: if_splits)

lemma scanned_word_plain: "scanned_word s = Inr (w, r) \<Longrightarrow> newline \<notin> set w"
  by (auto simp: scanned_word_def dest: scan_word_plain split: scanned.splits if_splits)

lemma read_stat_plain: "read_stat s = Inr (pid, name) \<Longrightarrow> newline \<notin> set name"
  by (auto simp: read_stat_def bindr_eq_Inr split: if_splits dest!: scanned_word_plain dest: in_set_butlastD set_tlD)

definition threads_ok :: "bool \<Rightarrow> nat \<times> process list \<Rightarrow> bool" where
  "threads_ok showpid nt \<longleftrightarrow> (\<forall>t \<in> set (snd nt). bare t) \<and> (showpid \<or> length (snd nt) \<le> 1)"

lemma thread_entry_ok:
  "newline \<notin> set name \<Longrightarrow> threads_ok showpid nt \<Longrightarrow> thread_entry showpid pid name d nt = Inr nt' \<Longrightarrow> threads_ok showpid nt'"
  by (auto simp: thread_entry_def threads_ok_def bare_def Let_def dest!: in_set_takeD split: if_splits prod.splits)

lemma thread_loop_ok:
  "newline \<notin> set name \<Longrightarrow> threads_ok showpid nt \<Longrightarrow> thread_loop showpid pid name ds nt = Inr nt' \<Longrightarrow> threads_ok showpid nt'"
  by (induction ds arbitrary: nt) (auto simp: bindr_eq_Inr split: if_splits dest: thread_entry_ok)

lemma collect_set: "collect f xs = Inr ys \<Longrightarrow> y \<in> set ys \<Longrightarrow> \<exists>x. f x = Inr y"
  by (induction xs arbitrary: ys) (auto simp: bindr_eq_Inr)

lemma getinfo_ok: "getinfo fuel pf showpid pid = Inr p \<Longrightarrow> tree_ok showpid p"
proof (induction fuel arbitrary: pid p)
  case (Suc fuel)
  then obtain rpid name chs sons ents n thrs where r: "read_stat (pf_stat pf pid) = Inr (rpid, name)"
    "collect (getinfo fuel pf showpid) chs = Inr sons" "thread_loop showpid pid name ents (0, []) = Inr (n, thrs)"
    "p = Process rpid name sons thrs"
    by (auto simp: bindr_eq_Inr split: if_splits option.splits)
  have "\<forall>q \<in> set sons. tree_ok showpid q" using collect_set [OF r(2)] Suc.IH by blast
  moreover have "threads_ok showpid (n, thrs)"
    using thread_loop_ok [OF read_stat_plain [OF r(1)] _ r(3)] by (simp add: threads_ok_def)
  ultimately show ?case using read_stat_plain [OF r(1)] r(4) by (simp add: threads_ok_def)
qed simp

section \<open>Properties\<close>


text \<open>A machine with three processes.\<close>

definition sample_procs :: proc_files where
  "sample_procs = \<lparr>pf_stat = (\<lambda>p. if p = 1 then ''1 (init) S 0'' else if p = 2 then ''2 (sh) S 1'' else ''3 (awk) S 1''),
     pf_children = (\<lambda>p. if p = 1 then ''2 3 '' else []), pf_tasks = (\<lambda>p. Some [])\<rparr>"

lemma sample_tree: "getinfo 2 sample_procs False 1 = Inr (Process 1 ''init'' [Process 2 ''sh'' [] [], Process 3 ''awk'' [] []] [])"
  by code_simp

lemma sample_prints: "pstree 2 sample_procs False False = Inr (''init-+-awk'' @ [CHR 0x0A] @ ''     '' @ [CHR 0x5C] @ ''-sh'' @ [CHR 0x0A])"
  by code_simp


text \<open>
  The children of a process are printed each once and in order: the calls \<open>search\<close> makes for the children are a permutation of
  them, in which no child comes before one with a smaller number (with \<open>-n\<close>) or an earlier name.
\<close>

theorem children_in_order:
  "let sons = map (\<lambda>(_, _, p). p) (take (length (p_sons cur)) (search_calls issort showpid True cur)) in
     mset sons = mset (p_sons cur) \<and>
     sorted_wrt (\<lambda>p q. if issort then p_pid p \<le> p_pid q else \<not> cpr (p_name p) (p_name q)) sons"
proof -
  let ?sons = "exchange_sort (son_order issort) (p_sons cur)"
  have len: "length (son_calls ?sons n) = length (p_sons cur)" for n by (simp add: son_calls_def)
  have "map (\<lambda>(_, _, p). p) (son_calls ?sons n) = ?sons" for n
    unfolding son_calls_def by (rule nth_equalityI) simp_all
  then have "map (\<lambda>(_, _, p). p) (take (length (p_sons cur)) (search_calls issort showpid True cur)) = ?sons"
    by (simp add: search_calls_def len)
  moreover have "mset ?sons = mset (p_sons cur)" by (rule mset_exchange_sort)
  moreover have "sorted_wrt (\<lambda>p q. if issort then p_pid p \<le> p_pid q else \<not> cpr (p_name p) (p_name q)) ?sons"
    using son_order.sorted_exchange_sort [of issort "p_sons cur"] by (auto simp: son_order_def not_less elim: sorted_wrt_mono_rel [rotated])
  ultimately show ?thesis by (simp add: Let_def)
qed

section \<open>The count of threads\<close>

text \<open>Without \<open>-p\<close> the number of threads is set back to one at every entry, so a group is never counted beyond two.\<close>

lemma thread_entry_capped:
  "thread_entry False pid name d nt = Inr nt' \<Longrightarrow> fst nt \<le> 1 \<Longrightarrow> \<forall>t \<in> set (snd nt). p_pid t \<le> 2 \<Longrightarrow>
     fst nt' \<le> 1 \<and> (\<forall>t \<in> set (snd nt'). p_pid t \<le> 2)"
  by (auto simp: thread_entry_def Let_def split: if_splits prod.splits)

lemma thread_count_capped:
  "thread_loop False pid name ds nt = Inr nt' \<Longrightarrow> fst nt \<le> 1 \<Longrightarrow> \<forall>t \<in> set (snd nt). p_pid t \<le> 2 \<Longrightarrow>
     \<forall>t \<in> set (snd nt'). p_pid t \<le> 2"
proof (induction ds arbitrary: nt)
  case (Cons d ds)
  then obtain nt1 where nt1: "(if isnumber d then thread_entry False pid name d nt else Inr nt) = Inr nt1"
    "thread_loop False pid name ds nt1 = Inr nt'" by (auto simp: bindr_eq_Inr)
  then have "fst nt1 \<le> 1 \<and> (\<forall>t \<in> set (snd nt1). p_pid t \<le> 2)"
    using thread_entry_capped [of pid name d nt nt1] Cons.prems(2,3) by (auto split: if_splits)
  with Cons.IH nt1(2) show ?case by blast
qed simp

end
