(* ===== verification/Coroutine.thy ===== *)
theory Coroutine imports C_Base begin

text \<open>
  Coroutines of \<open>libco/co.c\<close>. The C code saves a processor state with \<open>setjmp\<close> and switches stacks
  with inline assembly; here a coroutine's code is a tree of the calls it makes, and a saved state
  is the point the code resumes at: the return of \<open>co_start\<close>, which reads \<open>co_num\<close> only then, or
  the return of \<open>co_yield\<close>. The stacks themselves are not represented. The values of \<open>rand\<close> are an
  argument, consumed from a list.
\<close>

section \<open>Programs and states\<close>

text \<open>
  What code running on coroutines does next: return, yield, start a coroutine with a name and a
  body and go on with its handle, wait for a handle, or change the data it shares.
\<close>

datatype 's prog =
    Ret
  | Yield "'s prog"
  | Start string "'s prog" "nat \<Rightarrow> 's prog"
  | Wait nat "'s prog"
  | Do "'s \<Rightarrow> 's" "'s \<Rightarrow> 's prog"

text \<open>
  The point \<open>longjmp\<close> to a saved \<open>env\<close> continues at. \<open>AfterDone\<close> is the \<open>co_yield\<close> that follows the
  return of a coroutine's function.
\<close>

datatype 's env =
    Unset
  | AfterStart "nat \<Rightarrow> 's prog"
  | AfterYield "'s prog"
  | AfterDone

record 's co =
  co_name :: string
  co_done :: bool
  co_env :: "'s env"

definition MAX_CO :: nat where "MAX_CO = 10"
definition CO_NAME :: nat where "CO_NAME = 64"

text \<open>The globals, with the code the running coroutine has left and the data of the program.\<close>

record 's cos =
  crs :: "'s co list"
  co_num :: nat
  cur :: nat
  code :: "'s prog"
  shared :: 's

definition upd_co :: "nat \<Rightarrow> ('s co \<Rightarrow> 's co) \<Rightarrow> 's cos \<Rightarrow> 's cos" where
  "upd_co i f s = s\<lparr>crs := (crs s)[i := f (crs s ! i)]\<rparr>"

section \<open>Operations\<close>

definition co_init :: "'s prog \<Rightarrow> 's \<Rightarrow> 's cos" where
  "co_init main d =
     \<lparr>crs = (replicate MAX_CO \<lparr>co_name = [], co_done = False, co_env = Unset\<rparr>)
               [0 := \<lparr>co_name = ''main'', co_done = False, co_env = Unset\<rparr>],
      co_num = 0, cur = 0, code = main, shared = d\<rparr>"

text \<open>\<open>longjmp(crs[i].env, 1)\<close> with \<open>cur\<close> already set to \<open>i\<close>, up to the return of the call saved there.\<close>

definition resume :: "nat \<Rightarrow> 's cos \<Rightarrow> 's cos result" where
  "resume i s =
     (case co_env (crs s ! i) of
        AfterStart k \<Rightarrow> Inr (s\<lparr>code := k (co_num s)\<rparr>)
      | AfterYield k \<Rightarrow> Inr (s\<lparr>code := k\<rparr>)
      | Unset \<Rightarrow> Inl BadAccess
      | AfterDone \<Rightarrow> Inl BadAccess)"

text \<open>\<open>do cur = rand() % (co_num + 1); while (crs[cur].done)\<close>\<close>

fun pick :: "nat list \<Rightarrow> 's cos \<Rightarrow> (nat \<times> nat list) result" where
  "pick [] s = Inl Hang"
| "pick (r # rs) s =
     (let i = r mod (co_num s + 1) in if co_done (crs s ! i) then pick rs s else Inr (i, rs))"

definition co_yield :: "nat list \<Rightarrow> 's env \<Rightarrow> 's cos \<Rightarrow> ('s cos \<times> nat list) result" where
  "co_yield rs env s =
     bindr (pick rs s) (\<lambda>(i, rs').
       bindr (resume i (upd_co (cur s) (\<lambda>c. c\<lparr>co_env := env\<rparr>) (s\<lparr>cur := i\<rparr>)))
         (\<lambda>s'. Inr (s', rs')))"

text \<open>\<open>co_start\<close>, up to the call of the function.\<close>

definition co_start :: "string \<Rightarrow> 's prog \<Rightarrow> (nat \<Rightarrow> 's prog) \<Rightarrow> 's cos \<Rightarrow> 's cos result" where
  "co_start name body k s =
     (let n = co_num s + 1
      in if n \<ge> MAX_CO \<or> length name \<ge> CO_NAME then Inl BadAccess
         else (let s1 = upd_co n (\<lambda>c. c\<lparr>co_name := name, co_done := False\<rparr>) (s\<lparr>co_num := n\<rparr>);
                   s2 = upd_co (cur s) (\<lambda>c. c\<lparr>co_env := AfterStart k\<rparr>) s1
               in Inr (s2\<lparr>cur := n, code := body\<rparr>)))"

text \<open>
  One step of the running coroutine. The function of a coroutine that returns marks it done and
  yields; \<open>main\<close> returning ends the program, which then has no next step (\<open>Inl Halt\<close>).
\<close>

definition co_exec :: "nat list \<Rightarrow> 's cos \<Rightarrow> ('s cos \<times> nat list) result" where
  "co_exec rs s =
     (case code s of
        Ret \<Rightarrow> if cur s = 0 then Inl Halt
               else co_yield rs AfterDone (upd_co (cur s) (\<lambda>c. c\<lparr>co_done := True\<rparr>) s)
      | Yield k \<Rightarrow> co_yield rs (AfterYield k) s
      | Start name body k \<Rightarrow> bindr (co_start name body k s) (\<lambda>s'. Inr (s', rs))
      | Wait t k \<Rightarrow> if t \<ge> MAX_CO then Inl BadAccess
                    else if co_done (crs s ! t) then Inr (s\<lparr>code := k\<rparr>, rs)
                    else co_yield rs (AfterYield (Wait t k)) s
      | Do f k \<Rightarrow> let d = f (shared s) in Inr (s\<lparr>shared := d, code := k d\<rparr>, rs))"

definition finished :: "'s cos \<Rightarrow> bool" where
  "finished s \<longleftrightarrow> cur s = 0 \<and> (case code s of Ret \<Rightarrow> True | _ \<Rightarrow> False)"

text \<open>A run of at most \<open>n\<close> steps; it stops at the return of \<open>main\<close>.\<close>

fun co_run :: "nat \<Rightarrow> nat list \<Rightarrow> 's cos \<Rightarrow> 's cos result" where
  "co_run 0 rs s = Inr s"
| "co_run (Suc n) rs s =
     (if finished s then Inr s
      else bindr (co_exec rs s) (\<lambda>(s', rs'). co_run n rs' s'))"

text \<open>All the schedules \<open>rand\<close> can produce.\<close>

inductive co_step :: "'s cos \<Rightarrow> 's cos \<Rightarrow> bool" where
  exec: "co_exec rs s = Inr (s', rs') \<Longrightarrow> co_step s s'"

end
