(* ===== verification/Coroutine_Inv.thy ===== *)
theory Coroutine_Inv imports Coroutine begin

text \<open>
  The scheduler of libco under every sequence of random numbers: a switch always reaches a
  coroutine with a saved point to continue at, so the only faults are a full table, a name that does
  not fit and a handle that is none. \<open>co_start\<close> returns the handle of the coroutine started last.
\<close>

section \<open>Invariant\<close>

definition resumable :: "'s env \<Rightarrow> bool" where
  "resumable e \<longleftrightarrow> (case e of AfterStart k \<Rightarrow> True | AfterYield k \<Rightarrow> True | _ \<Rightarrow> False)"

lemma resumable_simps [simp]:
  "resumable (AfterStart k)" "resumable (AfterYield p)" "\<not> resumable Unset" "\<not> resumable AfterDone"
  by (simp_all add: resumable_def)

definition co_inv :: "'s cos \<Rightarrow> bool" where
  "co_inv s \<longleftrightarrow> length (crs s) = MAX_CO \<and> co_num s < MAX_CO \<and> cur s \<le> co_num s
     \<and> \<not> co_done (crs s ! 0) \<and> \<not> co_done (crs s ! cur s)
     \<and> (\<forall>i \<le> co_num s. i \<noteq> cur s \<longrightarrow> co_done (crs s ! i) \<or> resumable (co_env (crs s ! i)))"

lemma co_init_inv: "co_inv (co_init main d)"
  by (simp add: co_inv_def co_init_def MAX_CO_def)

lemma upd_co_simps [simp]:
  "co_num (upd_co i f s) = co_num s" "cur (upd_co i f s) = cur s" "code (upd_co i f s) = code s"
  "shared (upd_co i f s) = shared s" "length (crs (upd_co i f s)) = length (crs s)"
  by (simp_all add: upd_co_def)

lemma nth_upd_co:
  "i < length (crs s) \<Longrightarrow> crs (upd_co i f s) ! j = (if j = i then f (crs s ! i) else crs s ! j)"
  by (simp add: upd_co_def nth_list_update)

section \<open>Picking\<close>

lemma pick_Inr:
  "pick rs s = Inr (i, rs') \<Longrightarrow> i \<le> co_num s \<and> \<not> co_done (crs s ! i)"
  by (induction rs s rule: pick.induct) (auto simp: Let_def split: if_splits)

lemma pick_Inl: "pick rs s = Inl e \<Longrightarrow> e = Hang"
  by (induction rs s rule: pick.induct) (auto simp: Let_def split: if_splits)

text \<open>The loop ends as soon as a random number selects a coroutine that is not done.\<close>

lemma pick_returns:
  assumes "r \<in> set rs" "\<not> co_done (crs s ! (r mod (co_num s + 1)))"
  shows "\<exists>i rs'. pick rs s = Inr (i, rs')"
  using assms by (induction rs s rule: pick.induct) (auto simp: Let_def)

section \<open>Steps\<close>

text \<open>
  A yield of a coroutine that leaves a point to continue at, or is done, switches to a coroutine
  that is not done.
\<close>

lemma co_yield_ok:
  assumes len: "length (crs s) = MAX_CO" "co_num s < MAX_CO" "cur s \<le> co_num s"
    and zero: "\<not> co_done (crs s ! 0)"
    and env: "co_done (crs s ! cur s) \<or> resumable env"
    and others: "\<forall>i \<le> co_num s. i \<noteq> cur s \<longrightarrow> co_done (crs s ! i) \<or> resumable (co_env (crs s ! i))"
  shows "(\<exists>s' rs'. co_yield rs env s = Inr (s', rs') \<and> co_inv s' \<and> co_num s' = co_num s
            \<and> (\<forall>i. co_done (crs s' ! i) = co_done (crs s ! i)))
     \<or> co_yield rs env s = Inl Hang"
proof (cases "pick rs s")
  case (Inl e)
  with pick_Inl [OF Inl] show ?thesis by (simp add: co_yield_def)
next
  case (Inr p)
  obtain i rs' where p: "p = (i, rs')" by (cases p)
  have i: "i \<le> co_num s" "\<not> co_done (crs s ! i)" using pick_Inr Inr p by blast+
  define s1 where "s1 = upd_co (cur s) (\<lambda>c. c\<lparr>co_env := env\<rparr>) (s\<lparr>cur := i\<rparr>)"
  have cur: "cur s < length (crs (s\<lparr>cur := i\<rparr>))" using len by simp
  have nth: "crs s1 ! j = (if j = cur s then (crs s ! j)\<lparr>co_env := env\<rparr> else crs s ! j)" for j
    unfolding s1_def by (subst nth_upd_co [OF cur]) simp
  have res: "resumable (co_env (crs s1 ! i))" using i env others by (auto simp: nth)
  then obtain k where k: "resume i s1 = Inr (s1\<lparr>code := k\<rparr>)"
    by (auto simp: resumable_def resume_def split: env.splits)
  have done_eq: "co_done (crs s1 ! j) = co_done (crs s ! j)" for j
    by (simp add: nth)
  have "co_inv (s1\<lparr>code := k\<rparr>)"
    using len zero i env others nth unfolding co_inv_def by (auto simp: s1_def)
  then show ?thesis
    using k done_eq Inr p by (simp add: co_yield_def s1_def [symmetric]) (simp add: s1_def)
qed

lemma co_yield_of_inv:
  assumes "co_inv s" "resumable env"
  shows "(\<exists>s' rs'. co_yield rs env s = Inr (s', rs') \<and> co_inv s' \<and> co_num s' = co_num s
            \<and> (\<forall>i. co_done (crs s' ! i) = co_done (crs s ! i)))
     \<or> co_yield rs env s = Inl Hang"
  using assms by (intro co_yield_ok) (auto simp: co_inv_def)

text \<open>The states \<open>co_start\<close> and \<open>co_wait\<close> fault in.\<close>

definition misuse :: "'s cos \<Rightarrow> bool" where
  "misuse s \<longleftrightarrow> (case code s of
       Start name body k \<Rightarrow> co_num s + 1 \<ge> MAX_CO \<or> length name \<ge> CO_NAME
     | Wait t k \<Rightarrow> t \<ge> MAX_CO
     | _ \<Rightarrow> False)"

lemma co_start_ok:
  assumes inv: "co_inv s" and ok: "co_num s + 1 < MAX_CO" "length name < CO_NAME"
  shows "\<exists>s'. co_start name body k s = Inr s' \<and> co_inv s' \<and> co_num s' = co_num s + 1
     \<and> cur s' = co_num s + 1 \<and> code s' = body
     \<and> (\<forall>i \<le> co_num s. co_done (crs s' ! i) = co_done (crs s ! i))"
proof -
  let ?n = "co_num s + 1"
  let ?s1 = "upd_co ?n (\<lambda>c. c\<lparr>co_name := name, co_done := False\<rparr>) (s\<lparr>co_num := ?n\<rparr>)"
  let ?s2 = "upd_co (cur s) (\<lambda>c. c\<lparr>co_env := AfterStart k\<rparr>) ?s1"
  have len: "length (crs s) = MAX_CO" "cur s \<le> co_num s" using inv by (simp_all add: co_inv_def)
  have nth: "crs ?s2 ! j = (if j = cur s then (crs s ! j)\<lparr>co_env := AfterStart k\<rparr>
      else if j = ?n then (crs s ! j)\<lparr>co_name := name, co_done := False\<rparr> else crs s ! j)" for j
    using len ok by (subst nth_upd_co; simp add: nth_upd_co)
  have "co_inv (?s2\<lparr>cur := ?n, code := body\<rparr>)"
    using inv ok nth unfolding co_inv_def by (auto simp: le_Suc_eq)
  then show ?thesis using ok nth by (auto simp: co_start_def Let_def)
qed

lemma co_exec_cases:
  assumes inv: "co_inv s"
  shows "(\<exists>s' rs'. co_exec rs s = Inr (s', rs') \<and> co_inv s'
            \<and> (\<forall>i \<le> co_num s. co_done (crs s ! i) \<longrightarrow> co_done (crs s' ! i)))
     \<or> co_exec rs s = Inl Hang \<or> (co_exec rs s = Inl Halt \<and> finished s) \<or> (co_exec rs s = Inl BadAccess \<and> misuse s)"
proof (cases "code s")
  case Ret
  show ?thesis
  proof (cases "cur s = 0")
    case True
    with Ret show ?thesis by (simp add: co_exec_def finished_def)
  next
    case False
    let ?s = "upd_co (cur s) (\<lambda>c. c\<lparr>co_done := True\<rparr>) s"
    have cur: "cur s < length (crs s)" "co_num s < length (crs s)" using inv by (auto simp: co_inv_def)
    note nth = nth_upd_co [OF cur(1)]
    have "(\<exists>s' rs'. co_yield rs AfterDone ?s = Inr (s', rs') \<and> co_inv s' \<and> co_num s' = co_num ?s
            \<and> (\<forall>i. co_done (crs s' ! i) = co_done (crs ?s ! i))) \<or> co_yield rs AfterDone ?s = Inl Hang"
      using inv False by (intro co_yield_ok) (auto simp: co_inv_def nth)
    then show ?thesis using Ret False by (auto simp: co_exec_def nth)
  qed
next
  case (Yield k)
  then show ?thesis using co_yield_of_inv [OF inv, of "AfterYield k" rs] by (auto simp: co_exec_def)
next
  case (Start name body k)
  then show ?thesis using co_start_ok [OF inv, of name body k]
    by (cases "co_num s + 1 < MAX_CO \<and> length name < CO_NAME")
      (auto simp: co_exec_def misuse_def co_start_def)
next
  case (Wait t k)
  then show ?thesis using co_yield_of_inv [OF inv, of "AfterYield (Wait t k)" rs] inv
    by (auto simp: co_exec_def misuse_def co_inv_def)
next
  case (Do f k)
  then show ?thesis using inv by (simp add: co_exec_def Let_def co_inv_def)
qed

section \<open>Reachable states\<close>

inductive_cases co_stepE: "co_step s s'"

lemma co_step_inv: "co_step s s' \<Longrightarrow> co_inv s \<Longrightarrow> co_inv s'"
proof (erule co_stepE)
  fix rs rs' assume "co_inv s" "co_exec rs s = Inr (s', rs')"
  with co_exec_cases [of s rs] show "co_inv s'" by auto
qed

lemma reachable_inv: "co_step\<^sup>*\<^sup>* (co_init main d) s \<Longrightarrow> co_inv s"
  by (induction rule: rtranclp_induct) (auto intro: co_init_inv co_step_inv)

lemma co_num_mono:
  assumes "co_inv s" "co_exec rs s = Inr (s', rs')" shows "co_num s \<le> co_num s'"
proof -
  have resume: "co_num t' = co_num t" if "resume i t = Inr t'" for i and t t' :: "'a cos"
    using that by (auto simp: resume_def split: env.splits)
  have yield: "co_num t' = co_num t" if "co_yield rs e t = Inr (t', rs')" for rs rs' e and t t' :: "'a cos"
    using that by (auto simp: co_yield_def bindr_eq_Inr dest!: resume)
  show ?thesis using assms(2)
    by (auto simp: co_exec_def co_start_def Let_def bindr_eq_Inr split: prog.splits if_splits dest!: yield)
qed

text \<open>A coroutine that is done stays done, so every \<open>co_wait\<close> for it returns at once from then on.\<close>

lemma done_is_permanent:
  assumes "co_step\<^sup>*\<^sup>* s s'" "co_inv s" "i \<le> co_num s" "co_done (crs s ! i)"
  shows "co_inv s' \<and> i \<le> co_num s' \<and> co_done (crs s' ! i)"
  using assms
proof (induction rule: rtranclp_induct)
  case (step t u)
  then have t: "co_inv t" "i \<le> co_num t" "co_done (crs t ! i)" by simp_all
  from step(2) obtain rs rs' where ex: "co_exec rs t = Inr (u, rs')" by (rule co_stepE)
  show ?case using co_exec_cases [OF t(1), of rs] co_num_mono [OF t(1) ex] ex t by auto
qed simp

text \<open>
  C33. Whatever numbers \<open>rand\<close> returns, a coroutine switch never jumps to a coroutine that has no
  saved state: the only memory faults of the library are a table or a name that overflows and a
  handle that is none. And the library never gets stuck: unless \<open>main\<close> has returned, every
  operation completes as soon as \<open>rand\<close> returns a multiple of \<open>co_num + 1\<close>, because \<open>main\<close> is never
  done.
\<close>

lemma co_switch_safe:
  assumes reach: "co_step\<^sup>*\<^sup>* (co_init main d) s"
  shows "(co_exec rs s = Inl BadAccess \<longrightarrow> misuse s)
     \<and> (\<not> finished s \<and> \<not> misuse s \<and> (\<exists>r \<in> set rs. (co_num s + 1) dvd r) \<longrightarrow>
          (\<exists>s' rs'. co_exec rs s = Inr (s', rs')))"
proof -
  have inv: "co_inv s" by (rule reachable_inv [OF reach])
  have nohang: "co_exec rs s \<noteq> Inl Hang" if r: "r \<in> set rs" "(co_num s + 1) dvd r" for r
  proof
    assume hang: "co_exec rs s = Inl Hang"
    have len: "0 < length (crs s)" "cur s < length (crs s)" using inv by (auto simp: co_inv_def MAX_CO_def)
    have main: "\<not> co_done (crs t ! (r mod (co_num t + 1)))"
      if "co_num t = co_num s" "\<not> co_done (crs t ! 0)" for t :: "'a cos"
      using r that by simp
    have yield: "co_yield rs e t \<noteq> Inl Hang"
      if t: "co_num t = co_num s" "\<not> co_done (crs t ! 0)" for e and t :: "'a cos"
    proof -
      obtain i rs' where "pick rs t = Inr (i, rs')" using pick_returns [OF r(1) main [OF t]] by blast
      then show ?thesis
        by (cases "resume i (upd_co (cur t) (\<lambda>c. c\<lparr>co_env := e\<rparr>) (t\<lparr>cur := i\<rparr>))")
          (auto simp: co_yield_def resume_def split: env.splits)
    qed
    have zero: "\<not> co_done (crs s ! 0)" using inv by (simp add: co_inv_def)
    then have zero': "\<not> co_done (crs (upd_co (cur s) (\<lambda>c. c\<lparr>co_done := True\<rparr>) s) ! 0)" if "cur s \<noteq> 0"
      using that by (simp add: nth_upd_co [OF len(2)])
    show False using hang yield [OF refl zero] yield [OF _ zero']
      by (auto simp: co_exec_def co_start_def Let_def split: prog.splits if_splits)
  qed
  show ?thesis using co_exec_cases [OF inv, of rs] nohang by auto
qed

text \<open>A program that starts a coroutine which starts another.\<close>

definition nested :: "nat prog" where
  "nested = Start ''a'' (Start ''b'' (Yield Ret) (\<lambda>_. Yield Ret)) (\<lambda>h. Do (\<lambda>_. h) (\<lambda>_. Wait h Ret))"

lemma co_switch_safe_witness:
  "\<exists>s s' rs'. co_step\<^sup>*\<^sup>* (co_init nested 0) s \<and> cur s = 1 \<and> \<not> finished s \<and> \<not> misuse s
     \<and> co_exec [3, 4] s = Inr (s', rs')"
proof -
  obtain s where s: "co_exec [] (co_init nested 0) = Inr (s, [])" and s_eq: "cur s = 1" "co_num s = 1"
      "code s = Start ''b'' (Yield Ret) (\<lambda>_. Yield Ret)"
    by (simp add: co_exec_def co_init_def nested_def co_start_def MAX_CO_def CO_NAME_def Let_def)
  have r: "co_step\<^sup>*\<^sup>* (co_init nested 0) s" using co_step.exec [OF s] by blast
  have ok: "\<not> finished s" "\<not> misuse s"
    by (simp_all add: finished_def misuse_def s_eq MAX_CO_def CO_NAME_def)
  have "co_num s + 1 = 2" by (simp add: s_eq)
  then have "\<exists>x \<in> set [3, 4]. (co_num s + 1) dvd x" by (simp only:) simp
  with co_switch_safe [OF r, of "[3, 4]"] ok obtain s' rs' where "co_exec [3, 4] s = Inr (s', rs')"
    by blast
  with r ok s_eq show ?thesis by blast
qed

text \<open>
  The handle \<open>co_start\<close> returns is that of the coroutine started last when it returns, not of the
  one it started: here \<open>main\<close> receives 2, the coroutine its own coroutine 1 started.
\<close>

lemma nested_start_wrong_handle:
  "case co_run 4 [0] (co_init nested 0) of
     Inr s \<Rightarrow> shared s = 2 \<and> co_name (crs s ! 1) = ''a'' \<and> co_name (crs s ! 2) = ''b'' \<and> cur s = 0
   | Inl e \<Rightarrow> False"
  by code_simp

end
