(* ===== verification/Frecov.thy ===== *)
theory Frecov imports C_Memory begin

text \<open>
  \<open>frecov/frecov.c\<close>: the search of a FAT32 image for bitmap files. The process sees the image as
  bytes at offsets from the start of its mapping; what lies outside the file is either some other
  memory or not readable (\<open>None\<close>), and reading that ends the process. The program \<open>sha1sum\<close> that
  the C code runs is a parameter. Wide characters are 32-bit integers.
\<close>

type_synonym image = "int \<Rightarrow> u8 option"

section \<open>Reading the packed structs\<close>

fun rd_bytes :: "image \<Rightarrow> int \<Rightarrow> nat \<Rightarrow> u8 list result" where
  "rd_bytes m a 0 = Inr []"
| "rd_bytes m a (Suc n) =
     (case m a of None \<Rightarrow> Inl BadAccess
      | Some b \<Rightarrow> bindr (rd_bytes m (a + 1) n) (\<lambda>bs. Inr (b # bs)))"

definition rd8 :: "image \<Rightarrow> int \<Rightarrow> u8 result" where
  "rd8 m a = (case m a of None \<Rightarrow> Inl BadAccess | Some b \<Rightarrow> Inr b)"

definition rd16 :: "image \<Rightarrow> int \<Rightarrow> u16 result" where
  "rd16 m a = bindr (rd_bytes m a 2) (\<lambda>bs. Inr (of_bytes16 bs))"

definition rd32 :: "image \<Rightarrow> int \<Rightarrow> u32 result" where
  "rd32 m a = bindr (rd_bytes m a 4) (\<lambda>bs. Inr (of_bytes32 bs))"

text \<open>The fields of \<open>struct DBR\<close> the program uses, and their places in the 48 bytes copied.\<close>

definition DBR_SIZE :: nat where "DBR_SIZE = 48"

record dbr =
  byte_per_sector :: u16
  sector_per_cluster :: u8
  num_of_res_sector :: u16
  num_of_fat :: u8
  num_of_fat_sector :: u32

definition dbr_of :: "u8 list \<Rightarrow> dbr" where
  "dbr_of bs =
     \<lparr>byte_per_sector = of_bytes16 (drop 11 bs), sector_per_cluster = bs ! 13,
      num_of_res_sector = of_bytes16 (drop 14 bs), num_of_fat = bs ! 16,
      num_of_fat_sector = of_bytes32 (drop 36 bs)\<rparr>"

text \<open>Offsets in \<open>struct SFILE\<close>, \<open>struct LFILE\<close> (32 bytes each) and \<open>struct bmp_header\<close>.\<close>

definition SF_EXT :: int where "SF_EXT = 8"
definition SF_HIGH_CLUSTER :: int where "SF_HIGH_CLUSTER = 20"
definition SF_LOW_CLUSTER :: int where "SF_LOW_CLUSTER = 26"
definition SF_SIZE :: int where "SF_SIZE = 28"
definition LF_LOW_NAME :: int where "LF_LOW_NAME = 1"
definition LF_FLAG :: int where "LF_FLAG = 11"
definition LF_MIDDLE_NAME :: int where "LF_MIDDLE_NAME = 14"
definition LF_CLUSTER :: int where "LF_CLUSTER = 26"
definition LF_HIGH_NAME :: int where "LF_HIGH_NAME = 28"
definition BMP_SIZE :: int where "BMP_SIZE = 2"

section \<open>Tests\<close>

text \<open>\<open>isbmp\<close>: the three bytes are read one after the other.\<close>

definition isbmp :: "image \<Rightarrow> int \<Rightarrow> bool result" where
  "isbmp m a =
     bindr (rd8 m a) (\<lambda>c0. if c0 \<noteq> 0x62 \<and> c0 \<noteq> 0x42 then Inr False
     else bindr (rd8 m (a + 1)) (\<lambda>c1. if c1 \<noteq> 0x6D \<and> c1 \<noteq> 0x4D then Inr False
     else bindr (rd8 m (a + 2)) (\<lambda>c2. Inr (c2 = 0x70 \<or> c2 = 0x50))))"

definition NAME_LEN :: nat where "NAME_LEN = 128"

definition wcslen :: "u32 list \<Rightarrow> nat" where
  "wcslen w = length (takeWhile (\<lambda>c. c \<noteq> 0) w)"

text \<open>\<open>iswbmp\<close>: the first dot of the name, if any, is made to be followed by \<open>bmp\<close>.\<close>

definition iswbmp :: "u32 list \<Rightarrow> (bool \<times> u32 list) result" where
  "iswbmp w =
     (let ppos = length (takeWhile (\<lambda>c. c \<noteq> 0x2E) (take (wcslen w) w))
      in if ppos = wcslen w then Inr (False, w)
         else if ppos + 3 < length w
         then Inr (True, w[ppos + 1 := 0x62, ppos + 2 := 0x6D, ppos + 3 := 0x70])
         else Inl BadAccess)"

text \<open>\<open>validbmp\<close>; the second argument is converted to \<open>unsigned\<close> for the comparison.\<close>

definition validbmp :: "image \<Rightarrow> int \<Rightarrow> u32 \<Rightarrow> bool result" where
  "validbmp m a sz =
     bindr (rd8 m a) (\<lambda>c0. if c0 \<noteq> 0x42 then Inr False
     else bindr (rd8 m (a + 1)) (\<lambda>c1. if c1 \<noteq> 0x4D then Inr False
     else bindr (rd32 m (a + BMP_SIZE)) (\<lambda>s. Inr (s = sz))))"

section \<open>Long names\<close>

text \<open>\<open>for (i < n) name[base + i] = field[i]\<close>: a store past the 128 characters is a fault.\<close>

fun copy_units :: "image \<Rightarrow> int \<Rightarrow> nat \<Rightarrow> nat \<Rightarrow> u32 list \<Rightarrow> u32 list result" where
  "copy_units m a 0 pos name = Inr name"
| "copy_units m a (Suc n) pos name =
     bindr (rd16 m a) (\<lambda>u.
       if pos < length name then copy_units m (a + 2) n (pos + 1) (name[pos := ucast u])
       else Inl BadAccess)"

lemma copy_units_length: "copy_units m a n pos name = Inr r \<Longrightarrow> length r = length name \<and> (n = 0 \<or> pos + n \<le> length name)"
  by (induction m a n pos name rule: copy_units.induct) (auto simp: bindr_eq_Inr split: if_splits, fastforce)

lemma bindr_cong [fundef_cong]:
  "x = y \<Longrightarrow> (\<And>a. y = Inr a \<Longrightarrow> f a = g a) \<Longrightarrow> bindr x f = bindr y g"
  by (cases y) simp_all

text \<open>
  The loop over the long-name entries before a short entry, towards lower addresses. Every round
  stores 13 characters, so it ends with a fault at the latest when the name is full.
\<close>

function long_name :: "image \<Rightarrow> int \<Rightarrow> nat \<Rightarrow> u32 list \<Rightarrow> u32 list result" where
  "long_name m l base name =
     bindr (rd8 m (l + LF_FLAG)) (\<lambda>flag. if flag \<noteq> 0xF then Inr name
     else bindr (rd16 m (l + LF_CLUSTER)) (\<lambda>cl. if cl \<noteq> 0 then Inr name
     else bindr (copy_units m (l + LF_LOW_NAME) 5 base name) (\<lambda>n1.
          bindr (copy_units m (l + LF_MIDDLE_NAME) 6 (base + 5) n1) (\<lambda>n2.
          bindr (copy_units m (l + LF_HIGH_NAME) 2 (base + 11) n2) (\<lambda>n3.
            long_name m (l - 32) (base + 13) n3)))))"
  by pat_completeness auto
termination
  by (relation "measure (\<lambda>(m, l, base, name). length name - base)")
    (auto dest!: copy_units_length)

declare long_name.simps [simp del]

section \<open>The scan\<close>

text \<open>\<open>struct Entry\<close>; \<open>ans\<close> has room for 8192.\<close>

record 'h entry =
  e_name :: "u32 list"
  e_sha1sum :: 'h
  e_size :: u32

definition ANS_LEN :: nat where "ANS_LEN = 8192"

text \<open>
  The body of the loop for the entry at \<open>p\<close>: \<open>None\<close> is \<open>continue\<close> or no bitmap at all. \<open>data\<close> is
  \<open>data_ptr\<close>, \<open>cluster\<close> is \<open>cluster_size\<close>; the address in the data area is computed modulo
  \<open>2 ^ 32\<close>.
\<close>

definition scan_entry :: "(u8 list \<Rightarrow> 'h) \<Rightarrow> image \<Rightarrow> int \<Rightarrow> u32 \<Rightarrow> int \<Rightarrow> 'h entry option result" where
  "scan_entry sha1sum m data cluster p =
     bindr (isbmp m (p + SF_EXT)) (\<lambda>bmp. if \<not> bmp then Inr None
     else bindr (long_name m (p - 32) 0 (replicate NAME_LEN 0)) (\<lambda>w.
          bindr (iswbmp w) (\<lambda>(dot, name). if \<not> dot then Inr None
     else bindr (rd32 m (p + SF_SIZE)) (\<lambda>sz. if sz = 0 then Inr None
     else bindr (rd16 m (p + SF_LOW_CLUSTER)) (\<lambda>lo. if lo = 0 then Inr None
     else bindr (rd16 m (p + SF_HIGH_CLUSTER)) (\<lambda>hi.
       let offset = push_bit 16 (ucast hi) OR ucast lo :: u32;
           addr = (offset - 2) * cluster;
           bmp_ptr = data + uint addr
       in bindr (validbmp m bmp_ptr sz) (\<lambda>ok. if \<not> ok then Inr None
          else bindr (rd_bytes m bmp_ptr (unat sz)) (\<lambda>content.
            Inr (Some \<lparr>e_name = takeWhile (\<lambda>c. c \<noteq> 0) name, e_sha1sum = sha1sum content,
                       e_size = sz\<rparr>)))))))))"

fun scan_from :: "(u8 list \<Rightarrow> 'h) \<Rightarrow> image \<Rightarrow> int \<Rightarrow> u32 \<Rightarrow> nat \<Rightarrow> int \<Rightarrow> 'h entry list \<Rightarrow> 'h entry list result" where
  "scan_from sha1sum m data cluster 0 p ans = Inr ans"
| "scan_from sha1sum m data cluster (Suc n) p ans =
     bindr (scan_entry sha1sum m data cluster p) (\<lambda>e.
       case e of
         None \<Rightarrow> scan_from sha1sum m data cluster n (p + 32) ans
       | Some x \<Rightarrow> if length ans < ANS_LEN then scan_from sha1sum m data cluster n (p + 32) (ans @ [x])
                   else Inl BadAccess)"

text \<open>\<open>for (ptr = data_ptr; ptr <= end_ptr; ptr++)\<close>: the number of rounds.\<close>

definition rounds :: "int \<Rightarrow> int \<Rightarrow> nat" where
  "rounds data len = (if data \<le> len then nat ((len - data) div 32) + 1 else 0)"

section \<open>Sorting and the program\<close>

text \<open>\<open>cmp\<close>: the difference of two unsigned sizes, as an \<open>int\<close>.\<close>

definition size_cmp :: "'h entry \<Rightarrow> 'h entry \<Rightarrow> int" where
  "size_cmp a b = sint (e_size a - e_size b)"

text \<open>\<open>qsort\<close> of the C library, as the stable sort it is for arrays of this size.\<close>

fun insert_by :: "('a \<Rightarrow> 'a \<Rightarrow> int) \<Rightarrow> 'a \<Rightarrow> 'a list \<Rightarrow> 'a list" where
  "insert_by cmp x [] = [x]"
| "insert_by cmp x (y # ys) = (if cmp x y \<le> 0 then x # y # ys else y # insert_by cmp x ys)"

definition qsort_by :: "('a \<Rightarrow> 'a \<Rightarrow> int) \<Rightarrow> 'a list \<Rightarrow> 'a list" where
  "qsort_by cmp xs = foldr (insert_by cmp) xs []"

text \<open>\<open>main\<close> on an image of \<open>len\<close> bytes: the lines printed, as checksums and names.\<close>

definition frecov :: "(u8 list \<Rightarrow> 'h) \<Rightarrow> image \<Rightarrow> int \<Rightarrow> ('h \<times> u32 list) list result" where
  "frecov sha1sum m len =
     bindr (rd_bytes m 0 DBR_SIZE) (\<lambda>bs.
       let d = dbr_of bs;
           cluster = ucast (byte_per_sector d) * ucast (sector_per_cluster d) :: u32;
           data = uint (ucast (byte_per_sector d) *
                    (ucast (num_of_res_sector d) + ucast (num_of_fat d) * num_of_fat_sector d) :: u32)
       in bindr (scan_from sha1sum m data cluster (rounds data len) data []) (\<lambda>ans.
            Inr (map (\<lambda>e. (e_sha1sum e, e_name e)) (qsort_by size_cmp ans))))"

end
