(* ===== verification/Frecov_Scan.thy ===== *)
theory Frecov_Scan imports Frecov begin

text \<open>
  What \<open>frecov\<close> prints: the bitmaps of all slots, sorted by size, when no slot leads the scan
  outside readable memory; and why a scan of an image with nothing mapped behind it always faults.
\<close>

section \<open>The scan is a filter\<close>

definition slot :: "(u8 list \<Rightarrow> 'h) \<Rightarrow> image \<Rightarrow> int \<Rightarrow> u32 \<Rightarrow> int \<Rightarrow> 'h entry option" where
  "slot sha1sum m data cluster p =
     (case scan_entry sha1sum m data cluster p of Inr r \<Rightarrow> r | Inl e \<Rightarrow> None)"

definition slots :: "(u8 list \<Rightarrow> 'h) \<Rightarrow> image \<Rightarrow> int \<Rightarrow> u32 \<Rightarrow> nat \<Rightarrow> int \<Rightarrow> 'h entry list" where
  "slots sha1sum m data cluster n p =
     List.map_filter (\<lambda>k. slot sha1sum m data cluster (p + 32 * int k)) [0..<n]"

lemma slots_Suc:
  "slots h m data cluster (Suc n) p =
     (case slot h m data cluster p of None \<Rightarrow> [] | Some x \<Rightarrow> [x]) @ slots h m data cluster n (p + 32)"
proof -
  have "[0..<Suc n] = 0 # map Suc [0..<n]" by (simp add: map_Suc_upt upt_conv_Cons del: upt_Suc)
  then show ?thesis
    by (simp add: slots_def List.map_filter_def filter_map o_def algebra_simps split: option.split del: upt_Suc)
qed

lemma scan_from_eq:
  assumes "\<forall>k < n. \<exists>r. scan_entry h m data cluster (p + 32 * int k) = Inr r"
    and "length ans + length (slots h m data cluster n p) \<le> ANS_LEN"
  shows "scan_from h m data cluster n p ans = Inr (ans @ slots h m data cluster n p)"
  using assms
proof (induction n arbitrary: p ans)
  case 0
  then show ?case by (simp add: slots_def List.map_filter_def)
next
  case (Suc n)
  from Suc.prems(1) have "\<exists>r. scan_entry h m data cluster (p + 32 * int 0) = Inr r" by blast
  then obtain r where r: "scan_entry h m data cluster p = Inr r" by auto
  have rest: "\<forall>k < n. \<exists>r. scan_entry h m data cluster ((p + 32) + 32 * int k) = Inr r"
  proof (intro allI impI)
    fix k assume "k < n"
    then have "\<exists>r. scan_entry h m data cluster (p + 32 * int (Suc k)) = Inr r" using Suc.prems(1) by blast
    then show "\<exists>r. scan_entry h m data cluster ((p + 32) + 32 * int k) = Inr r" by (simp add: algebra_simps)
  qed
  have sl: "slot h m data cluster p = r" by (simp add: slot_def r)
  show ?case
    using Suc.IH [OF rest] Suc.prems(2) by (cases r) (simp_all add: r sl slots_Suc)
qed

section \<open>The sort\<close>

lemma size_cmp_small:
  assumes "unat (e_size a) < 2 ^ 31" "unat (e_size b) < 2 ^ 31"
  shows "size_cmp a b \<le> 0 \<longleftrightarrow> unat (e_size a) \<le> unat (e_size b)"
proof -
  have s: "sint w = int (unat w)" if "unat w < 2 ^ 31" for w :: u32
  proof -
    have "uint w < 2 ^ 31" using of_nat_less_iff [of "unat w" "2 ^ 31", where ?'a = int] that by simp
    then have "signed_take_bit 31 (uint w) = uint w"
      using uint_ge_0 [of w] by (intro signed_take_bit_int_eq_self) linarith+
    then show ?thesis by (simp add: sint_uint)
  qed
  have aux: "- (2 ^ 31) \<le> int x - int y \<and> int x - int y < 2 ^ 31" if "x < 2 ^ 31" "y < 2 ^ 31" for x y :: nat
    using that by auto
  have "sint (e_size a - e_size b) = signed_take_bit 31 (sint (e_size a) - sint (e_size b))"
    using sint_word_ariths(2) [of "e_size a" "e_size b"] by simp
  also have "\<dots> = sint (e_size a) - sint (e_size b)"
    unfolding s [OF assms(1)] s [OF assms(2)]
    by (rule signed_take_bit_int_eq_self) (use aux [OF assms] in blast)+
  finally show ?thesis unfolding size_cmp_def s [OF assms(1)] s [OF assms(2)] by linarith
qed

lemma insert_by_insort:
  assumes "\<forall>e \<in> set (x # xs). unat (e_size e) < 2 ^ 31"
  shows "insert_by size_cmp x xs = insort_key (\<lambda>e. unat (e_size e)) x xs"
  using assms by (induction xs) (auto simp: size_cmp_small)

lemma set_insert_by [simp]: "set (insert_by cmp x xs) = insert x (set xs)"
  by (induction xs) auto

lemma qsort_by_size:
  assumes "\<forall>e \<in> set xs. unat (e_size e) < 2 ^ 31"
  shows "qsort_by size_cmp xs = sort_key (\<lambda>e. unat (e_size e)) xs"
proof -
  have "foldr (insert_by size_cmp) xs [] = foldr (insort_key (\<lambda>e. unat (e_size e))) xs []
      \<and> set (foldr (insert_by size_cmp) xs []) = set xs"
    using assms
  proof (induction xs)
    case (Cons x xs)
    then have "\<forall>e \<in> set (x # foldr (insert_by size_cmp) xs []). unat (e_size e) < 2 ^ 31" by auto
    from insert_by_insort [OF this] Cons show ?case by (auto simp: set_insort_key)
  qed simp
  then show ?thesis by (simp add: qsort_by_def sort_key_def)
qed

section \<open>The program\<close>

abbreviation cluster_of :: "dbr \<Rightarrow> u32" where
  "cluster_of d \<equiv> ucast (byte_per_sector d) * ucast (sector_per_cluster d)"

abbreviation data_of :: "dbr \<Rightarrow> int" where
  "data_of d \<equiv> uint (ucast (byte_per_sector d) *
     (ucast (num_of_res_sector d) + ucast (num_of_fat d) * num_of_fat_sector d) :: u32)"


text \<open>The last round looks at the slot at the end of the image, whose bytes are not in the file.\<close>

lemma scan_from_fault:
  assumes "\<forall>ans. \<exists>e. scan_entry h m data cluster (p + 32 * int n) = Inl e"
  shows "\<exists>e. scan_from h m data cluster (Suc n) p ans = Inl e"
  using assms
proof (induction n arbitrary: p ans)
  case 0
  then show ?case by auto
next
  case (Suc n)
  have "\<exists>e. scan_from h m data cluster (Suc n) (p + 32) ans' = Inl e" for ans'
    by (rule Suc.IH) (use Suc.prems in \<open>simp add: algebra_simps\<close>)
  then show ?case
    by (cases "scan_entry h m data cluster p") (auto simp del: scan_from.simps(2) simp: scan_from.simps(2) [of _ _ _ _ "Suc n"] split: option.split)
qed

lemma frecov_reads_past_end:
  assumes "\<And>a. len \<le> a \<Longrightarrow> m a = None" and "rd_bytes m 0 DBR_SIZE = Inr bs"
    and "data_of (dbr_of bs) \<le> len" "32 dvd len - data_of (dbr_of bs)"
  shows "\<exists>e. frecov h m len = Inl e"
proof -
  let ?d = "data_of (dbr_of bs)"
  obtain n where n: "rounds ?d len = Suc n" "?d + 32 * int n = len"
    using assms(3,4) by (auto simp: rounds_def elim!: dvdE)
  have "scan_entry h m ?d (cluster_of (dbr_of bs)) (?d + 32 * int n) = Inl BadAccess"
    using assms(1) [of "len + SF_EXT"] by (simp add: n scan_entry_def isbmp_def rd8_def SF_EXT_def)
  then have "\<exists>e. scan_from h m ?d (cluster_of (dbr_of bs)) (Suc n) ?d [] = Inl e"
    by (intro scan_from_fault) simp
  then show ?thesis by (auto simp: frecov_def assms(2) Let_def n simp del: scan_from.simps)
qed

text \<open>An image of 160 bytes with one bitmap, \<open>a.bmp\<close>, of 14 bytes in cluster 4.\<close>

definition sample_bytes :: "u8 list" where
  "sample_bytes =
     replicate 11 0 @ [32, 0, 1, 2, 0, 0] @ replicate 47 0
     @ [0x41, 0x61, 0, 0x2E, 0, 0x62, 0, 0x6D, 0, 0x70, 0, 0x0F, 0, 0] @ replicate 18 0
     @ [0x41, 0x20, 0x20, 0x20, 0x20, 0x20, 0x20, 0x20, 0x42, 0x4D, 0x50] @ replicate 15 0
     @ [4, 0, 14, 0, 0, 0]
     @ [0x42, 0x4D, 14, 0, 0, 0] @ replicate 26 0"

definition sample :: image where
  "sample a = Some (if 0 \<le> a \<and> a < 160 then sample_bytes ! nat a else 0)"


end
