(* ===== verification/Sperf.thy ===== *)
theory Sperf imports Exchange_Sort Complex_Main "HOL-Library.Signed_Division" begin

text \<open>
  \<open>sperf/sperf.c\<close>: the profile of system calls of a command, from the output of \<open>strace -Txx\<close>. The
  input is the list of lines the pipe delivers; the terminal is the list of what is drawn. Numbers
  of type \<open>double\<close> are rationals here: rounding is not represented.
\<close>

section \<open>The table\<close>

record syscall =
  sc_name :: string
  sc_time :: rat
  sc_color :: int

text \<open>The array \<open>info\<close>, of which the first \<open>h_info\<close> entries are in use, and the next colour.\<close>

record sperf =
  info :: "syscall list"
  h_info :: nat
  color_p :: nat

definition INFO_LEN :: nat where "INFO_LEN = 1024"
definition SC_NAME :: nat where "SC_NAME = 64"
definition TMP_LEN :: nat where "TMP_LEN = 1024"
definition COLORNUM :: nat where "COLORNUM = 7"

definition color_set :: "int list" where
  "color_set = [41, 42, 43, 44, 45, 46, 47, 101]"

definition sperf_init :: sperf where
  "sperf_init = \<lparr>info = replicate INFO_LEN \<lparr>sc_name = [], sc_time = 0, sc_color = 0\<rparr>, h_info = 0,
     color_p = 0\<rparr>"

text \<open>
  \<open>loc\<close>: the entry of a name. A new entry gets its name and colour; its time is what the array
  holds there.
\<close>

fun loc_from :: "string \<Rightarrow> nat \<Rightarrow> syscall list \<Rightarrow> nat" where
  "loc_from n i [] = i"
| "loc_from n i (x # xs) = (if n = sc_name x then i else loc_from n (i + 1) xs)"

definition loc :: "string \<Rightarrow> sperf \<Rightarrow> (nat \<times> sperf) result" where
  "loc n s =
     (let i = loc_from n 0 (take (h_info s) (info s))
      in if i = h_info s
         then if i \<ge> INFO_LEN \<or> length n \<ge> SC_NAME then Inl BadAccess
              else Inr (i, s\<lparr>info := (info s)[i := (info s ! i)\<lparr>sc_name := n,
                                                 sc_color := color_set ! color_p s\<rparr>],
                            color_p := (color_p s + 1) mod COLORNUM, h_info := h_info s + 1\<rparr>)
         else Inr (i, s))"

text \<open>\<open>sort\<close>: longest first.\<close>

definition shorter :: "syscall \<Rightarrow> syscall \<Rightarrow> bool" where
  "shorter a b \<longleftrightarrow> sc_time a < sc_time b"

definition sperf_sort :: "sperf \<Rightarrow> sperf" where
  "sperf_sort s =
     s\<lparr>info := exchange_sort shorter (take (h_info s) (info s)) @ drop (h_info s) (info s)\<rparr>"

section \<open>Reading a record\<close>

datatype record_read =
    Failed string
  | Finished
  | Record string

text \<open>
  \<open>fgets(ttmp, 1024, input)\<close> of a line, at most 1023 characters of it; the rest stays in the pipe.
\<close>

definition fgets_line :: "string list \<Rightarrow> (string \<times> string list) option" where
  "fgets_line ls =
     (case ls of
        [] \<Rightarrow> None
      | l # ls' \<Rightarrow> if length l < TMP_LEN then Some (l, ls')
                   else Some (take (TMP_LEN - 1) l, drop (TMP_LEN - 1) l # ls'))"

definition is_prefix :: "string \<Rightarrow> string \<Rightarrow> bool" where
  "is_prefix p t \<longleftrightarrow> take (length p) t = p"

text \<open>
  The inner loop: lines are appended to \<open>tmp\<close> until its last character but one is \<open>>\<close>. At the end
  of the input \<open>fgets\<close> leaves the previous line, which is appended until \<open>tmp\<close> overflows. The first
  argument bounds the rounds: each appends a character or faults, so \<open>TMP_LEN\<close> are enough.
\<close>

fun read_record :: "nat \<Rightarrow> string \<Rightarrow> string \<Rightarrow> string list \<Rightarrow> (record_read \<times> string \<times> string list) result" where
  "read_record 0 tmp ttmp ls = Inl Hang"
| "read_record (Suc n) tmp ttmp ls =
     (let (t, ls') = (case fgets_line ls of None \<Rightarrow> (ttmp, ls) | Some p \<Rightarrow> p);
          tmp' = tmp @ t
      in if length tmp' \<ge> TMP_LEN then Inl BadAccess
         else if is_prefix ''/usr/bin/strace'' t then Inr (Failed tmp', t, ls')
         else if is_prefix ''+++'' t then Inr (Finished, t, ls')
         else if length tmp' < 2 then Inl BadAccess
         else if tmp' ! (length tmp' - 2) = CHR ''>'' then Inr (Record tmp', t, ls')
         else read_record n tmp' t ls')"

section \<open>Parsing a record\<close>

text \<open>The position of the first \<open>(\<close> and of the last \<open><\<close>.\<close>

definition first_pos :: "char \<Rightarrow> string \<Rightarrow> nat option" where
  "first_pos c t = (let i = length (takeWhile (\<lambda>x. x \<noteq> c) t) in if i = length t then None else Some i)"

definition last_pos :: "char \<Rightarrow> string \<Rightarrow> nat option" where
  "last_pos c t = map_option (\<lambda>i. length t - 1 - i) (first_pos c (rev t))"

text \<open>\<open>sscanf("%lf")\<close> on a decimal number, as \<open>strace\<close> writes it: digits and a fraction.\<close>

definition is_digit :: "char \<Rightarrow> bool" where
  "is_digit c \<longleftrightarrow> c \<in> set ''0123456789''"

definition digit_val :: "char \<Rightarrow> nat" where
  "digit_val c = length (takeWhile (\<lambda>x. x \<noteq> c) ''0123456789'')"

definition nat_val :: "string \<Rightarrow> nat" where
  "nat_val ds = foldl (\<lambda>n c. 10 * n + digit_val c) 0 ds"

definition scan_lf :: "string \<Rightarrow> rat option" where
  "scan_lf t =
     (let ip = takeWhile is_digit t; r = dropWhile is_digit t;
          fp = (case r of c # r' \<Rightarrow> if c = CHR ''.'' then takeWhile is_digit r' else [] | [] \<Rightarrow> [])
      in if ip = [] \<and> fp = [] then None
         else Some (of_nat (nat_val ip) + of_nat (nat_val fp) / 10 ^ length fp))"

text \<open>A record without a name or without a time: the body of the loop ends at \<open>continue\<close>.\<close>

definition skipped :: "string \<Rightarrow> bool" where
  "skipped t \<longleftrightarrow> first_pos (CHR ''('') t = None \<or> last_pos (CHR ''<'') t = None"

text \<open>
  The body of the main loop for a record: without a name or a time it is skipped. \<open>dur\<close> is not
  initialised, so a number that cannot be read is a fault.
\<close>

definition account :: "string \<Rightarrow> sperf \<Rightarrow> sperf result" where
  "account t s =
     (case first_pos (CHR ''('') t of
        None \<Rightarrow> Inr s
      | Some i \<Rightarrow>
          (case last_pos (CHR ''<'') t of
             None \<Rightarrow> Inr s
           | Some j \<Rightarrow>
               (case scan_lf (drop (j + 1) t) of
                  None \<Rightarrow> Inl BadAccess
                | Some dur \<Rightarrow> bindr (loc (take i t) s) (\<lambda>(k, s').
                    Inr (s'\<lparr>info := (info s')[k := (info s' ! k)\<lparr>sc_time := sc_time (info s' ! k) + dur\<rparr>]\<rparr>)))))"

section \<open>Drawing\<close>

text \<open>What is written to the terminal; a percentage of a total of zero is not a number (\<open>None\<close>).\<close>

datatype draw =
    Clear_Screen
  | Show_Cursor
  | Move_To int int
  | Blank
  | Cell int
  | Line_End
  | Label int string
  | Percent int "rat option"
  | Text string

text \<open>The size of the window: \<open>ws_row\<close> and \<open>ws_col\<close>, with \<open>ws_ratio = ws_col / ws_row\<close>.\<close>

record window =
  ws_row :: int
  ws_col :: int

definition SX :: int where "SX = 1"
definition SY :: "window \<Rightarrow> int" where "SY w = SX * (ws_col w sdiv ws_row w)"
definition XM :: "window \<Rightarrow> int" where "XM w = ws_row w * 4 sdiv 5"
definition YM :: "window \<Rightarrow> int" where "YM w = ws_col w * 4 sdiv 5"

definition draw_rect :: "int \<Rightarrow> int \<Rightarrow> int \<Rightarrow> int \<Rightarrow> syscall \<Rightarrow> draw list" where
  "draw_rect x y s t e =
     Move_To x y # concat (map (\<lambda>i. Move_To (x + i) y # map (\<lambda>j. Cell (sc_color e)) [0..t - y] @ [Line_End])
                               [0..s - x])"

definition draw_label :: "int \<Rightarrow> int \<Rightarrow> int \<Rightarrow> int \<Rightarrow> syscall \<Rightarrow> rat \<Rightarrow> draw list" where
  "draw_label x y s t e tot =
     [Move_To ((s + x) sdiv 2) ((t + y) sdiv 2 - int (length (sc_name e)) sdiv 2),
      Label (sc_color e) (sc_name e),
      Move_To ((s + x) sdiv 2 + 1) ((t + y) sdiv 2 - 4),
      Percent (sc_color e) (if tot = 0 then None else Some (sc_time e * 100 / tot))]"

definition draw_rect_label :: "int \<Rightarrow> int \<Rightarrow> int \<Rightarrow> int \<Rightarrow> syscall \<Rightarrow> rat \<Rightarrow> draw list" where
  "draw_rect_label x y s t e tot = draw_rect x y s t e @ draw_label x y s t e tot"

definition clear_graph :: "window \<Rightarrow> draw list" where
  "clear_graph w =
     Move_To SX (SY w) # concat (map (\<lambda>i. Move_To i 0 # map (\<lambda>j. Blank) [0..YM w + 10]) [0..XM w + 10])"

text \<open>\<open>(int)\<close> of a number that is the quotient by \<open>d\<close>: undefined when \<open>d\<close> is zero.\<close>

definition int_quot :: "rat \<Rightarrow> rat \<Rightarrow> int result" where
  "int_quot n d = (if d = 0 then Inl BadAccess
     else Inr (if 0 \<le> n / d then \<lfloor>n / d\<rfloor> else - \<lfloor>- (n / d)\<rfloor>))"

text \<open>
  The loop of \<open>draw_graph\<close>: the area left of the rectangle is cut alternately in its two directions
  until 95 percent of the time are shown. The result is the corner left and the time shown.
\<close>

fun draw_parts ::
  "window \<Rightarrow> rat \<Rightarrow> syscall list \<Rightarrow> bool \<Rightarrow> int \<Rightarrow> int \<Rightarrow> rat \<Rightarrow> draw list \<Rightarrow> (int \<times> int \<times> rat \<times> draw list) result" where
  "draw_parts win tot [] flip x y shown ds = Inr (x, y, shown, ds)"
| "draw_parts win tot (e # es) flip x y shown ds =
     (if tot \<noteq> 0 \<and> shown / tot > 95 / 100 then Inr (x, y, shown, ds)
      else if \<not> flip
      then bindr (int_quot (of_int (XM win) * of_int (YM win) * sc_time e) (tot * of_int (XM win - x + 1)))
             (\<lambda>w. draw_parts win tot es True x (y + w) (shown + sc_time e)
                    (ds @ draw_rect_label x y (XM win) (y + w - 3) e tot))
      else bindr (int_quot (of_int (XM win) * of_int (YM win) * sc_time e) (tot * of_int (YM win - y + 1)))
             (\<lambda>w. draw_parts win tot es False (x + w) y (shown + sc_time e)
                    (ds @ draw_rect_label x y (x + w - 2) (YM win) e tot)))"

definition total_of :: "sperf \<Rightarrow> rat" where
  "total_of s = sum_list (map sc_time (take (h_info s) (info s)))"

text \<open>\<open>set_others\<close> writes the first entry that is not in use.\<close>

definition set_others :: "rat \<Rightarrow> sperf \<Rightarrow> sperf result" where
  "set_others rest s =
     (if h_info s \<ge> INFO_LEN then Inl BadAccess
      else Inr (s\<lparr>info := (info s)[h_info s := \<lparr>sc_name = ''others'', sc_time = rest, sc_color = 101\<rparr>]\<rparr>))"

definition draw_graph :: "window \<Rightarrow> sperf \<Rightarrow> (draw list \<times> sperf) result" where
  "draw_graph win s =
     (let tot = total_of s
      in bindr (draw_parts win tot (take (h_info s) (info s)) False SX (SY win) 0
                  (Move_To SX (SY win) # clear_graph win)) (\<lambda>(x, y, shown, ds).
         bindr (set_others (tot - shown) s) (\<lambda>s'.
           Inr (ds @ draw_rect_label x y (XM win) (YM win) (info s' ! h_info s') tot, s'))))"

text \<open>\<open>draw()\<close> of the build without \<open>TABLE\<close>: \<open>sort(); draw_graph()\<close>.\<close>

definition sperf_draw :: "window \<Rightarrow> sperf \<Rightarrow> (draw list \<times> sperf) result" where
  "sperf_draw win s = draw_graph win (sperf_sort s)"

definition terminated :: "window \<Rightarrow> draw list" where
  "terminated win = [Move_To (XM win + 1) (YM win sdiv 2), Text ''TERMINATED'', Show_Cursor]"

section \<open>The program\<close>

text \<open>
  The main loop: \<open>clock k\<close> is the time in seconds after the \<open>k\<close>-th record, \<open>begin\<close> the time of the
  last drawing. The result is what was drawn, the final table and the exit status. The first argument
  bounds the number of records.
\<close>

fun sperf_loop ::
  "nat \<Rightarrow> window \<Rightarrow> (nat \<Rightarrow> int) \<Rightarrow> nat \<Rightarrow> int \<Rightarrow> string \<Rightarrow> string list \<Rightarrow> draw list \<Rightarrow> sperf \<Rightarrow>
     (draw list \<times> sperf \<times> int) result" where
  "sperf_loop 0 win clock k started ttmp ls ds s = Inl Hang"
| "sperf_loop (Suc n) win clock k started ttmp ls ds s =
     bindr (read_record TMP_LEN [] ttmp ls) (\<lambda>(r, ttmp', ls').
       case r of
         Failed t \<Rightarrow> Inr (ds @ [Text (t @ ''+++  Fail to run sperf +++'')] @ terminated win, s, 1)
       | Finished \<Rightarrow> bindr (sperf_draw win s) (\<lambda>(d, s'). Inr (ds @ d @ terminated win, s', 0))
       | Record t \<Rightarrow>
           bindr (account t s) (\<lambda>s1.
             if skipped t then sperf_loop n win clock k started ttmp' ls' ds s1
             else if clock k - started \<ge> 1
             then bindr (sperf_draw win s1) (\<lambda>(d, s2).
                    sperf_loop n win clock (k + 1) (clock k) ttmp' ls' (ds @ d) s2)
             else sperf_loop n win clock (k + 1) started ttmp' ls' ds s1))"

definition sperf_main :: "nat \<Rightarrow> window \<Rightarrow> (nat \<Rightarrow> int) \<Rightarrow> int \<Rightarrow> string list \<Rightarrow> (draw list \<times> sperf \<times> int) result" where
  "sperf_main n win clock started ls =
     (if ws_row win = 0 then Inl BadAccess
      else sperf_loop n win clock 0 started [] ls [Clear_Screen] sperf_init)"

end
