(* ===== verification/Sperf_Table.thy ===== *)
theory Sperf_Table imports Sperf begin

text \<open>
  The table of \<open>sperf\<close> as a map from names to times: what a record adds to it, the order after a
  sort, the entry that a drawing leaves behind, and the end of the program.
\<close>

section \<open>Sorting\<close>

interpretation by_time: exchange_order shorter
  by unfold_locales (auto simp: shorter_def)

lemma sperf_sort_longest_first:
  "h_info s \<le> length (info s) \<Longrightarrow> sorted_wrt (\<lambda>a b. sc_time b \<le> sc_time a) (take (h_info s) (info (sperf_sort s)))"
proof -
  assume "h_info s \<le> length (info s)"
  then have "take (h_info s) (info (sperf_sort s)) = exchange_sort shorter (take (h_info s) (info s))"
    by (simp add: sperf_sort_def)
  then show ?thesis
    using by_time.sorted_exchange_sort [of "take (h_info s) (info s)"]
    by (simp add: shorter_def not_less)
qed

section \<open>The profile\<close>

definition used :: "sperf \<Rightarrow> syscall list" where
  "used s = take (h_info s) (info s)"

definition profile :: "sperf \<Rightarrow> string \<Rightarrow> rat option" where
  "profile s = map_of (map (\<lambda>e. (sc_name e, sc_time e)) (used s))"

text \<open>The table is well formed, and entries that are not in use have no time.\<close>

definition table_ok :: "sperf \<Rightarrow> bool" where
  "table_ok s \<longleftrightarrow> length (info s) = INFO_LEN \<and> h_info s \<le> INFO_LEN \<and> distinct (map sc_name (used s))"

definition unused_clean :: "sperf \<Rightarrow> bool" where
  "unused_clean s \<longleftrightarrow> (\<forall>e \<in> set (drop (h_info s) (info s)). sc_time e = 0)"

lemma sperf_init_ok: "table_ok sperf_init" "unused_clean sperf_init" "profile sperf_init = Map.empty"
  by (simp_all add: table_ok_def unused_clean_def sperf_init_def used_def profile_def)

lemma loc_from_eq:
  "loc_from n i xs = i + length (takeWhile (\<lambda>e. sc_name e \<noteq> n) xs)"
  by (induction xs arbitrary: i) auto

lemma loc_from_found:
  "n \<in> sc_name ` set xs \<Longrightarrow> loc_from n 0 xs < length xs \<and> sc_name (xs ! loc_from n 0 xs) = n"
proof -
  assume n: "n \<in> sc_name ` set xs"
  then have "length (takeWhile (\<lambda>e. sc_name e \<noteq> n) xs) < length xs"
    by (metis (mono_tags, lifting) image_iff length_takeWhile_le nless_le takeWhile_eq_all_conv
        takeWhile_eq_take take_all_iff)
  moreover from this have "sc_name (xs ! length (takeWhile (\<lambda>e. sc_name e \<noteq> n) xs)) = n"
    using nth_length_takeWhile by fastforce
  ultimately show ?thesis by (simp add: loc_from_eq)
qed

lemma loc_from_missing: "n \<notin> sc_name ` set xs \<Longrightarrow> loc_from n 0 xs = length xs"
  unfolding loc_from_eq by (metis (mono_tags, lifting) add_0 image_eqI takeWhile_eq_all_conv)

lemma map_of_update_nth:
  assumes "distinct (map f xs)" "k < length xs" "f y = f (xs ! k)"
  shows "map_of (map (\<lambda>e. (f e, g e)) (xs[k := y])) = (map_of (map (\<lambda>e. (f e, g e)) xs))(f y \<mapsto> g y)"
  using assms
proof (induction xs arbitrary: k)
  case (Cons x xs)
  show ?case
  proof (cases k)
    case (Suc j)
    have "f (xs ! j) \<in> f ` set xs" by (rule imageI, rule nth_mem) (use Suc Cons.prems in simp)
    moreover have "f x \<notin> f ` set xs" "f y = f (xs ! j)" using Suc Cons.prems by simp_all
    ultimately have "f y \<noteq> f x" by metis
    with Suc Cons show ?thesis by (auto simp: fun_upd_twist)
  qed (use Cons in \<open>auto simp: fun_eq_iff\<close>)
qed simp

lemma map_of_snoc_new:
  "f y \<notin> f ` set xs \<Longrightarrow>
     map_of (map (\<lambda>e. (f e, g e)) (xs @ [y])) = (map_of (map (\<lambda>e. (f e, g e)) xs))(f y \<mapsto> g y)"
  by (induction xs) (auto simp: fun_upd_twist)

text \<open>The name and the duration of a record.\<close>

definition parsed :: "string \<Rightarrow> (string \<times> rat) option" where
  "parsed t =
     (case (first_pos (CHR ''('') t, last_pos (CHR ''<'') t) of
        (Some i, Some j) \<Rightarrow> map_option (\<lambda>d. (take i t, d)) (scan_lf (drop (j + 1) t))
      | _ \<Rightarrow> None)"

definition spent :: "sperf \<Rightarrow> string \<Rightarrow> rat" where
  "spent s n = (case profile s n of None \<Rightarrow> 0 | Some x \<Rightarrow> x)"

lemma parsed_cuts:
  assumes "parsed t = Some (n, d)"
  obtains i j where "first_pos (CHR ''('') t = Some i" "last_pos (CHR ''<'') t = Some j"
    "scan_lf (drop (j + 1) t) = Some d" "take i t = n"
  using assms by (auto simp: parsed_def split: option.splits)

lemma used_lengths:
  assumes "table_ok s"
  shows "length (used s) = h_info s" "length (info s) = INFO_LEN" "h_info s \<le> INFO_LEN"
  using assms by (auto simp: table_ok_def used_def)

lemma profile_of_entry:
  assumes "table_ok s" and "e \<in> set (used s)"
  shows "profile s (sc_name e) = Some (sc_time e)"
proof (unfold profile_def, rule map_of_is_SomeI)
  show "distinct (map fst (map (\<lambda>e. (sc_name e, sc_time e)) (used s)))"
    using assms(1) by (simp add: table_ok_def comp_def)
qed (use assms(2) in auto)

text \<open>A record of a name that has an entry adds to it in place.\<close>

lemma account_known:
  assumes ok: "table_ok s" and clean: "unused_clean s" and t: "parsed t = Some (n, d)"
    and known: "n \<in> sc_name ` set (used s)"
  shows "\<exists>s'. account t s = Inr s' \<and> table_ok s' \<and> unused_clean s'
     \<and> profile s' = (profile s)(n \<mapsto> spent s n + d)"
proof -
  let ?u = "used s" and ?k = "loc_from n 0 (used s)"
  obtain i j where ij: "first_pos (CHR ''('') t = Some i" "last_pos (CHR ''<'') t = Some j"
      "scan_lf (drop (j + 1) t) = Some d" "take i t = n"
    using parsed_cuts [OF t] by blast
  note len = used_lengths [OF ok]
  have k: "?k < h_info s" "sc_name (?u ! ?k) = n" using loc_from_found [OF known] len by simp_all
  let ?e = "(info s ! ?k)\<lparr>sc_time := sc_time (info s ! ?k) + d\<rparr>"
  let ?s = "s\<lparr>info := (info s)[?k := ?e]\<rparr>"
  have uk: "info s ! ?k = ?u ! ?k" using k len by (simp add: used_def)
  have acc: "account t s = Inr ?s"
    using ij k by (auto simp: account_def loc_def Let_def used_def [symmetric])
  have used': "used ?s = ?u[?k := ?e]" by (simp add: used_def take_update_swap)
  have names: "map sc_name (used ?s) = map sc_name ?u"
    unfolding used' by (rule nth_equalityI) (use k len in \<open>simp_all add: nth_list_update uk\<close>)
  have ok': "table_ok ?s" using ok names by (simp add: table_ok_def)
  have clean': "unused_clean ?s" using clean k by (simp add: unused_clean_def drop_update_cancel)
  have prof: "profile ?s = (profile s)(n \<mapsto> sc_time (?u ! ?k) + d)"
    unfolding profile_def used' using ok k len map_of_update_nth [of sc_name ?u ?k ?e sc_time]
    by (simp add: table_ok_def uk)
  have "?u ! ?k \<in> set ?u" by (rule nth_mem) (use k len in simp)
  from profile_of_entry [OF ok this] have "spent s n = sc_time (?u ! ?k)"
    using k(2) by (simp add: spent_def)
  then show ?thesis using acc ok' clean' prof by auto
qed

text \<open>A record of a new name takes the first free entry, whose time is zero.\<close>

lemma account_new:
  assumes ok: "table_ok s" and clean: "unused_clean s" and t: "parsed t = Some (n, d)"
    and new: "n \<notin> sc_name ` set (used s)" and room: "length n < SC_NAME" "h_info s < INFO_LEN"
  shows "\<exists>s'. account t s = Inr s' \<and> table_ok s' \<and> unused_clean s'
     \<and> profile s' = (profile s)(n \<mapsto> spent s n + d)"
proof -
  let ?u = "used s" and ?h = "h_info s"
  obtain i j where ij: "first_pos (CHR ''('') t = Some i" "last_pos (CHR ''<'') t = Some j"
      "scan_lf (drop (j + 1) t) = Some d" "take i t = n"
    using parsed_cuts [OF t] by blast
  note len = used_lengths [OF ok]
  let ?e0 = "(info s ! ?h)\<lparr>sc_name := n, sc_color := color_set ! color_p s\<rparr>"
  let ?e = "?e0\<lparr>sc_time := sc_time ?e0 + d\<rparr>"
  let ?s = "s\<lparr>info := (info s)[?h := ?e], color_p := (color_p s + 1) mod COLORNUM, h_info := ?h + 1\<rparr>"
  have t0: "sc_time (info s ! ?h) = 0"
    using clean room len by (simp add: unused_clean_def Cons_nth_drop_Suc [symmetric])
  have acc: "account t s = Inr ?s"
    using ij len room loc_from_missing [OF new]
    by (auto simp: account_def loc_def Let_def used_def [symmetric])
  have used': "used ?s = ?u @ [?e]" using room len by (simp add: used_def take_Suc_conv_app_nth)
  have ok': "table_ok ?s" using ok room new len unfolding table_ok_def used' by auto
  have "set (drop (Suc ?h) (info s)) \<subseteq> set (drop ?h (info s))"
    by (rule set_drop_subset_set_drop) simp
  then have clean': "unused_clean ?s" using clean by (auto simp: unused_clean_def)
  have "profile s n = None"
    unfolding profile_def using new by (simp add: map_of_eq_None_iff image_image)
  moreover have "profile ?s = (profile s)(n \<mapsto> d)"
    unfolding profile_def used' using map_of_snoc_new [of sc_name ?e ?u sc_time] new t0 by simp
  ultimately show ?thesis using acc ok' clean' by (auto simp: spent_def)
qed



text \<open>
  A drawing writes \<open>others\<close> into the first free entry. The next new system call takes that entry over
  with its time: it starts with the time of \<open>others\<close> instead of zero.
\<close>

lemma new_after_drawing:
  assumes "set_others rest s = Inr s'" and "n \<notin> sc_name ` set (used s)" "length n < SC_NAME"
    and "h_info s < length (info s)"
  shows "\<exists>s''. loc n s' = Inr (h_info s, s'') \<and> sc_time (info s'' ! h_info s) = rest"
proof -
  have s': "s' = s\<lparr>info := (info s)[h_info s := \<lparr>sc_name = ''others'', sc_time = rest, sc_color = 101\<rparr>]\<rparr>"
    and h: "h_info s < INFO_LEN" using assms(1) by (auto simp: set_others_def split: if_splits)
  have u: "take (h_info s') (info s') = used s" by (simp add: s' used_def)
  have "loc_from n 0 (used s) = h_info s"
    using loc_from_missing [OF assms(2)] assms(4) by (simp add: used_def)
  then show ?thesis using u h assms(3,4) by (simp add: loc_def Let_def) (simp add: s')
qed

section \<open>The end of the program\<close>

text \<open>
  A record is read in at most \<open>TMP_LEN\<close> rounds, because every line has a character; reading one keeps
  the last line of the trace in the pipe until it is the line read.
\<close>

definition last_line :: "string list \<Rightarrow> bool" where
  "last_line ls \<longleftrightarrow> (\<exists>l \<in> set ls. is_prefix ''+++'' l \<and> length l < TMP_LEN)"

lemma fgets_line_cases:
  assumes "fgets_line ls = Some (t, ls')" "last_line ls" "[] \<notin> set ls"
  shows "t \<noteq> [] \<and> [] \<notin> set ls' \<and> length (concat ls') < length (concat ls)
     \<and> (is_prefix ''+++'' t \<or> last_line ls')"
proof -
  from assms(1) obtain l r where ls: "ls = l # r" by (auto simp: fgets_line_def split: list.splits)
  show ?thesis
  proof (cases "length l < TMP_LEN")
    case True
    then show ?thesis using assms ls by (auto simp: fgets_line_def last_line_def)
  next
    case False
    then have "t = take (TMP_LEN - 1) l" "ls' = drop (TMP_LEN - 1) l # r"
      using assms(1) ls by (simp_all add: fgets_line_def)
    moreover have "length (concat (drop (TMP_LEN - 1) l # r)) < length (concat ls)"
      "take (TMP_LEN - 1) l \<noteq> []" "drop (TMP_LEN - 1) l \<noteq> []"
      using False ls by (auto simp: TMP_LEN_def)
    moreover have "last_line r" using assms(2) ls False by (auto simp: last_line_def)
    ultimately show ?thesis using assms(3) ls by (auto simp: last_line_def)
  qed
qed

lemma read_record_cases:
  assumes "last_line ls" "[] \<notin> set ls" "TMP_LEN \<le> n + length tmp" "length tmp < TMP_LEN"
  shows "case read_record n tmp t ls of
       Inl e \<Rightarrow> e = BadAccess
     | Inr (r, t', ls') \<Rightarrow> (case r of
           Record x \<Rightarrow> last_line ls' \<and> [] \<notin> set ls' \<and> length (concat ls') < length (concat ls)
         | _ \<Rightarrow> True)"
  using assms
proof (induction n arbitrary: tmp t ls)
  case (Suc n)
  obtain u ls' where u: "fgets_line ls = Some (u, ls')"
  proof -
    have "fgets_line ls \<noteq> None"
      using Suc.prems(1) by (auto simp: last_line_def fgets_line_def split: list.splits if_splits)
    then show ?thesis using that by auto
  qed
  note c = fgets_line_cases [OF u Suc.prems(1,2)]
  show ?case
  proof (cases "is_prefix ''+++'' u")
    case True
    then show ?thesis by (auto simp: u Let_def)
  next
    case False
    then have ll: "last_line ls'" "[] \<notin> set ls'" "length (concat ls') < length (concat ls)" using c by blast+
    show ?thesis
    proof (cases "length (tmp @ u) < TMP_LEN")
      case True
      have "TMP_LEN \<le> n + length (tmp @ u)" using Suc.prems(3) c by (cases u) auto
      from Suc.IH [OF ll(1,2) this True, of u] ll False True show ?thesis
        by (auto simp: u Let_def split: sum.splits record_read.splits)
    qed (auto simp: u Let_def)
  qed
qed simp

lemma draw_not_hang: "draw_parts win tot es f x y shown ds \<noteq> Inl Hang" "sperf_draw win s \<noteq> Inl Hang"
proof -
  have *: "draw_parts win tot es f x y shown ds \<noteq> Inl Hang" for tot es f x y shown ds
    by (induction win tot es f x y shown ds rule: draw_parts.induct) (auto simp: int_quot_def bindr_def)
  then show "draw_parts win tot es f x y shown ds \<noteq> Inl Hang" .
  show "sperf_draw win s \<noteq> Inl Hang"
    using * by (auto simp: sperf_draw_def draw_graph_def Let_def set_others_def bindr_def split: sum.splits)
qed

lemma account_not_hang: "account t s \<noteq> Inl Hang"
  by (auto simp: account_def loc_def Let_def bindr_def split: option.splits sum.splits if_splits)

text \<open>The main loop ends: on a trace with its last line there are fewer records than characters.\<close>

lemma sperf_loop_ends:
  assumes "last_line ls" "[] \<notin> set ls" "length (concat ls) < n"
  shows "sperf_loop n win clock k started t ls ds s \<noteq> Inl Hang"
  using assms
proof (induction n arbitrary: k started t ls ds s)
  case (Suc n)
  note rc = read_record_cases [OF Suc.prems(1,2), of TMP_LEN "[]" t]
  show ?case
  proof (cases "read_record TMP_LEN [] t ls")
    case (Inl e)
    with rc show ?thesis by (simp add: TMP_LEN_def)
  next
    case (Inr p)
    obtain r t' ls' where p: "p = (r, t', ls')" by (cases p)
    show ?thesis
    proof (cases r)
      case (Record x)
      have l: "last_line ls'" "[] \<notin> set ls'" "length (concat ls') < n"
        using rc Inr p Record Suc.prems(3) by (auto simp: TMP_LEN_def)
      show ?thesis
        using Suc.IH [OF l] account_not_hang [of x s] draw_not_hang(2)
        by (auto simp: Inr p Record bindr_def split: sum.splits)
    qed (use Inr p draw_not_hang(2) in \<open>auto simp: bindr_def split: sum.splits\<close>)
  qed
qed simp

end
