(* ===== verification/Paging.thy ===== *)
theory Paging imports C_Memory begin

text \<open>
  The virtual memory of the x86-qemu machine, \<open>am/src/x86/qemu/vme.c\<close>: a page directory of 1024
  entries whose present entries point to page tables of 1024 entries, all of them in one byte
  memory. The page allocator the kernel registers with \<open>vme_init\<close> is a parameter of the
  operations: \<open>al\<close> returns the address of a page (0 is NULL) and its new state, \<open>fr\<close> takes a page
  back. Loading CR3 and CR0 (\<open>percpu_initpg\<close>) is hardware access and has no effect on this state.
\<close>

section \<open>Entries and indices\<close>

definition PGSIZE :: nat where "PGSIZE = 4096"

definition PTE_P :: u32 where "PTE_P = 1"
definition PTE_W :: u32 where "PTE_W = 2"
definition PTE_U :: u32 where "PTE_U = 4"

definition PROT_NONE :: u32 where "PROT_NONE = 1"
definition PROT_READ :: u32 where "PROT_READ = 2"
definition PROT_WRITE :: u32 where "PROT_WRITE = 4"

definition PDX :: "u32 \<Rightarrow> nat" where "PDX va = unat (drop_bit 22 va AND 0x3FF)"
definition PTX :: "u32 \<Rightarrow> nat" where "PTX va = unat (drop_bit 12 va AND 0x3FF)"
definition PTE_ADDR :: "u32 \<Rightarrow> u32" where "PTE_ADDR pte = pte AND NOT 0xFFF"
definition PG_ROUNDDOWN :: "u32 \<Rightarrow> u32" where "PG_ROUNDDOWN a = a AND NOT 0xFFF"

text \<open>\<open>((uint32_t *)t)[i]\<close>\<close>

definition entry :: "memory \<Rightarrow> u32 \<Rightarrow> nat \<Rightarrow> u32" where
  "entry m t i = ld32 m (unat t + 4 * i)"

definition set_entry :: "memory \<Rightarrow> u32 \<Rightarrow> nat \<Rightarrow> u32 \<Rightarrow> memory" where
  "set_entry m t i w = st32 m (unat t + 4 * i) w"

definition present :: "u32 \<Rightarrow> bool" where
  "present e \<longleftrightarrow> e AND PTE_P \<noteq> 0"

section \<open>State\<close>

text \<open>\<open>struct vm_area\<close> and \<open>areas\<close>: the address range and whether it is mapped to itself.\<close>

record vm_area =
  area_start :: u32
  area_end :: u32
  area_physical :: bool

definition areas :: "vm_area list" where
  "areas =
    [\<lparr>area_start = 0x00000000, area_end = 0x20000000, area_physical = True\<rparr>,
     \<lparr>area_start = 0x40000000, area_end = 0x80000000, area_physical = False\<rparr>,
     \<lparr>area_start = 0xf0000000, area_end = 0x00000000, area_physical = True\<rparr>]"

definition uvm_area :: vm_area where
  "uvm_area = areas ! 1"

definition in_range :: "u32 \<Rightarrow> vm_area \<Rightarrow> bool" where
  "in_range p a \<longleftrightarrow> area_start a \<le> p \<and> p < area_end a"

text \<open>\<open>_AddressSpace\<close>\<close>

record address_space =
  as_pgsize :: nat
  as_area :: vm_area
  as_ptr :: u32

record 'h vme =
  ram :: memory
  kpt :: u32
  pages :: 'h

section \<open>Operations\<close>

definition pgalloc :: "('h \<Rightarrow> u32 \<times> 'h) \<Rightarrow> 'h vme \<Rightarrow> (u32 \<times> 'h vme) result" where
  "pgalloc al s =
     (let (ret, h) = al (pages s)
      in if ret = 0 then Inl Halt
         else Inr (ret, s\<lparr>ram := overlay (ram s) (unat ret) (words32 (replicate (PGSIZE div 4) 0)),
                          pages := h\<rparr>))"

definition pgfree :: "(u32 \<Rightarrow> 'h \<Rightarrow> 'h) \<Rightarrow> u32 \<Rightarrow> 'h vme \<Rightarrow> 'h vme" where
  "pgfree fr p s = s\<lparr>pages := fr p (pages s)\<rparr>"

text \<open>
  The body of the loop of \<open>vme_init\<close> for one physical page: a page table is allocated when the
  directory has none, otherwise its address is read from the directory.
\<close>

definition kmap_page :: "('h \<Rightarrow> u32 \<times> 'h) \<Rightarrow> u32 \<Rightarrow> 'h vme \<Rightarrow> 'h vme result" where
  "kmap_page al pa s =
     bindr (if \<not> present (entry (ram s) (kpt s) (PDX pa))
            then bindr (pgalloc al s) (\<lambda>(ptab, s1).
                   Inr (ptab, s1\<lparr>ram := set_entry (ram s1) (kpt s1) (PDX pa) (PTE_P OR PTE_W OR ptab)\<rparr>))
            else Inr (PTE_ADDR (entry (ram s) (kpt s) (PDX pa)), s))
       (\<lambda>(ptab, s2). Inr (s2\<lparr>ram := set_entry (ram s2) ptab (PTX pa) (PTE_P OR PTE_W OR pa)\<rparr>))"

text \<open>
  \<open>for (pa = start; pa != end; pa += PGSIZE)\<close>: 32-bit addresses wrap around, which the area that
  ends at 0 relies on. \<open>None\<close> is a loop that steps over its end for ever.
\<close>

partial_function (option) kmap_range ::
  "('h \<Rightarrow> u32 \<times> 'h) \<Rightarrow> u32 \<Rightarrow> u32 \<Rightarrow> 'h vme \<Rightarrow> 'h vme result option" where
  "kmap_range al pa pend s =
     (if pa = pend then Some (Inr s)
      else case kmap_page al pa s of
             Inl e \<Rightarrow> Some (Inl e)
           | Inr s' \<Rightarrow> kmap_range al (pa + word_of_nat PGSIZE) pend s')"

declare kmap_range.simps [code]

fun kmap_areas :: "('h \<Rightarrow> u32 \<times> 'h) \<Rightarrow> vm_area list \<Rightarrow> 'h vme \<Rightarrow> 'h vme result option" where
  "kmap_areas al [] s = Some (Inr s)"
| "kmap_areas al (a # as) s =
     (if \<not> area_physical a then kmap_areas al as s
      else case kmap_range al (area_start a) (area_end a) s of
             None \<Rightarrow> None
           | Some (Inl e) \<Rightarrow> Some (Inl e)
           | Some (Inr s') \<Rightarrow> kmap_areas al as s')"

text \<open>\<open>vme_init\<close>; \<open>c\<close> is \<open>_cpu()\<close>.\<close>

definition vme_init :: "nat \<Rightarrow> ('h \<Rightarrow> u32 \<times> 'h) \<Rightarrow> 'h vme \<Rightarrow> 'h vme result option" where
  "vme_init c al s =
     (if c \<noteq> 0 then Some (Inl Halt)
      else case pgalloc al s of
             Inl e \<Rightarrow> Some (Inl e)
           | Inr (t, s1) \<Rightarrow> kmap_areas al areas (s1\<lparr>kpt := t\<rparr>))"

text \<open>\<open>protect\<close>: a new directory with a copy of the kernel's entries.\<close>

definition protect :: "('h \<Rightarrow> u32 \<times> 'h) \<Rightarrow> 'h vme \<Rightarrow> (address_space \<times> 'h vme) result" where
  "protect al s =
     bindr (pgalloc al s) (\<lambda>(upt, s1).
       let m = fold (\<lambda>i m. set_entry m upt i (entry m (kpt s1) i)) [0..<PGSIZE div 4] (ram s1)
       in Inr (\<lparr>as_pgsize = PGSIZE, as_area = uvm_area, as_ptr = upt\<rparr>, s1\<lparr>ram := m\<rparr>))"

text \<open>\<open>unprotect\<close>: the directory indices of the user area, in the order of the loop.\<close>

definition user_indices :: "nat list" where
  "user_indices = [PDX (area_start uvm_area)..<PDX (area_end uvm_area)]"

definition unprotect :: "(u32 \<Rightarrow> 'h \<Rightarrow> 'h) \<Rightarrow> address_space \<Rightarrow> 'h vme \<Rightarrow> 'h vme" where
  "unprotect fr p s =
     pgfree fr (as_ptr p)
       (fold (\<lambda>i s. let pde = entry (ram s) (as_ptr p) i
                    in if present pde then pgfree fr (PTE_ADDR pde) s else s) user_indices s)"

text \<open>\<open>map\<close>; the first component of the result is the value returned.\<close>

definition vm_map ::
  "('h \<Rightarrow> u32 \<times> 'h) \<Rightarrow> address_space \<Rightarrow> u32 \<Rightarrow> u32 \<Rightarrow> u32 \<Rightarrow> 'h vme \<Rightarrow> (int \<times> 'h vme) result" where
  "vm_map al p va pa prot s =
     (if prot AND PROT_NONE \<noteq> 0 \<and> prot \<noteq> PROT_NONE then Inl Halt
      else if va \<noteq> PG_ROUNDDOWN va \<or> pa \<noteq> PG_ROUNDDOWN pa then Inl Halt
      else if \<not> in_range va uvm_area then Inr (1, s)
      else bindr (if \<not> present (entry (ram s) (as_ptr p) (PDX va))
                  then bindr (pgalloc al s) (\<lambda>(t, s1).
                    Inr (s1\<lparr>ram := set_entry (ram s1) (as_ptr p) (PDX va)
                                     (PTE_P OR PTE_W OR PTE_U OR t)\<rparr>))
                  else Inr s)
             (\<lambda>s2. let ptab = PTE_ADDR (entry (ram s2) (as_ptr p) (PDX va))
                   in Inr (0, s2\<lparr>ram := set_entry (ram s2) ptab (PTX va)
                        (if prot AND PROT_NONE \<noteq> 0 then 0
                         else PTE_P OR (if prot AND PROT_WRITE \<noteq> 0 then PTE_W else 0)
                              OR PTE_U OR pa)\<rparr>)))"

end
