(* ===== verification/Paging_Refine.thy ===== *)
theory Paging_Refine imports Paging begin

text \<open>
  What the page table operations compute, stated on the walk the processor makes: \<open>walk m dir va\<close>
  is the page table entry that translates \<open>va\<close> under the directory \<open>dir\<close>. An address space is well
  formed when its directory and its page tables are distinct pages; \<open>map\<close> keeps that and changes
  the walk at one page only, and \<open>vme_init\<close> maps the kernel's areas to themselves.
\<close>

section \<open>Pages and entries\<close>

definition page_aligned :: "u32 \<Rightarrow> bool" where
  "page_aligned a \<longleftrightarrow> take_bit 12 a = 0"

lemma aligned_bit: "page_aligned a \<Longrightarrow> n < 12 \<Longrightarrow> \<not> bit a n"
  unfolding page_aligned_def by (metis bit_0_eq bit_take_bit_iff bot_apply bot_bool_def)

lemma bit_0xFFF: "bit (0xFFF :: u32) n \<longleftrightarrow> n < 12"
proof -
  have "(0xFFF :: u32) = mask 12" by (simp add: mask_eq_exp_minus_1)
  then have "bit (0xFFF :: u32) n = bit (mask 12 :: u32) n" by (rule arg_cong)
  also have "\<dots> \<longleftrightarrow> n < 12" by (auto simp only: bit_mask_iff) simp
  finally show ?thesis .
qed

lemma page_aligned_iff: "page_aligned a \<longleftrightarrow> 4096 dvd unat a"
proof -
  have "page_aligned a \<longleftrightarrow> unat (take_bit 12 a) = 0" by (simp only: page_aligned_def word_unat_eq_iff) simp
  also have "unat (take_bit 12 a) = unat a mod 4096" by (simp only: unsigned_take_bit_eq) (simp add: take_bit_eq_mod)
  finally show ?thesis by (simp add: mod_eq_0_iff_dvd)
qed

lemmas page_aligned_unat = page_aligned_iff [THEN iffD1]

lemma page_aligned_add: "page_aligned a \<Longrightarrow> page_aligned (a + 0x1000)"
  unfolding page_aligned_iff by (simp add: unat_word_ariths dvd_mod_iff)

lemma aligned_disjoint:
  assumes "page_aligned a" "page_aligned b" "a \<noteq> b" "x < 4096" "y < 4096"
  shows "unat a + x \<noteq> unat b + y"
proof
  assume eq: "unat a + x = unat b + y"
  obtain p q where pq: "unat a = 4096 * p" "unat b = 4096 * q"
    using assms(1,2)[THEN page_aligned_unat] by (auto elim!: dvdE)
  from eq have "(4096 * p + x) div 4096 = (4096 * q + y) div 4096" by (simp add: pq)
  then have "p = q" using assms(4,5) by simp
  then have "a = b" using pq by (metis word_unat_eq_iff)
  with assms(3) show False by simp
qed

lemma page_aligned_PTE_ADDR [simp]: "page_aligned (PTE_ADDR e)"
  unfolding page_aligned_def PTE_ADDR_def
  by (rule bit_word_eqI) (auto simp: bit_simps bit_0xFFF)

lemma flag_bits:
  "bit PTE_P n \<longleftrightarrow> n = 0" "bit PTE_W n \<longleftrightarrow> n = 1" "bit PTE_U n \<longleftrightarrow> n = 2"
proof -
  have eq: "PTE_P = push_bit 0 1" "PTE_W = push_bit 1 1" "PTE_U = push_bit 2 1"
    by (simp_all add: PTE_P_def PTE_W_def PTE_U_def push_bit_eq_mult)
  show "bit PTE_P n \<longleftrightarrow> n = 0" "bit PTE_W n \<longleftrightarrow> n = 1" "bit PTE_U n \<longleftrightarrow> n = 2"
    unfolding eq by (auto simp only: bit_push_bit_iff bit_1_iff possible_bit_word) simp_all
qed

lemma PTE_ADDR_entry [simp]:
  assumes "page_aligned t"
  shows "PTE_ADDR (PTE_P OR PTE_W OR t) = t" "PTE_ADDR (PTE_P OR PTE_W OR PTE_U OR t) = t"
    "PTE_ADDR (PTE_P OR PTE_U OR t) = t"
  unfolding PTE_ADDR_def
  by (rule bit_word_eqI; use aligned_bit [OF assms] in
      \<open>auto simp only: bit_and_iff bit_not_iff_eq bit_or_iff possible_bit_word bit_0xFFF flag_bits\<close>;
      simp)+

lemma present_iff: "present e \<longleftrightarrow> bit e 0"
  unfolding present_def PTE_P_def by (simp add: and_one_eq odd_iff_mod_2_eq_one bit_0)

lemma present_entry [simp]: "present (PTE_P OR e)" "\<not> present 0"
  by (simp_all add: present_iff bit_or_iff flag_bits)

lemma index_less [simp]: "PDX va < 1024" "PTX va < 1024"
proof -
  have *: "unat (w AND 0x3FF) < 1024" for w :: u32
  proof -
    have "(0x3FF :: u32) = mask 10" by (simp add: mask_eq_exp_minus_1)
    then have "w AND 0x3FF = take_bit 10 w" by (simp add: take_bit_eq_mask)
    then have "unat (w AND 0x3FF) = take_bit 10 (unat w)" by (simp only: unsigned_take_bit_eq)
    then show ?thesis by (simp only: take_bit_eq_mod) simp
  qed
  show "PDX va < 1024" "PTX va < 1024" by (simp_all only: PDX_def PTX_def *)
qed

lemma entry_set_same [simp]: "entry (set_entry m t i w) t i = w"
  by (simp add: entry_def set_entry_def)

lemma entry_set_other [simp]: "i \<noteq> j \<Longrightarrow> entry (set_entry m t i w) t j = entry m t j"
  unfolding entry_def set_entry_def by (rule ld32_st32_disjoint) linarith

lemma entry_cong:
  assumes "\<And>x. x < 4096 \<Longrightarrow> m (unat t + x) = m' (unat t + x)" and "j < 1024"
  shows "entry m t j = entry m' t j"
  unfolding entry_def
proof (rule ld32_cong)
  fix x assume "unat t + 4 * j \<le> x" "x < unat t + 4 * j + 4"
  with assms(2) have "x - unat t < 4096" "unat t + (x - unat t) = x" by linarith+
  with assms(1) [of "x - unat t"] show "m x = m' x" by simp
qed

lemma entry_set_page [simp]:
  assumes "page_aligned t" "page_aligned u" "t \<noteq> u" "i < 1024" "j < 1024"
  shows "entry (set_entry m t i w) u j = entry m u j"
  unfolding entry_def set_entry_def
proof (rule ld32_st32_disjoint, rule ccontr)
  assume no: "\<not> (unat t + 4 * i + 4 \<le> unat u + 4 * j \<or> unat u + 4 * j + 4 \<le> unat t + 4 * i)"
  have 1: "unat t + (4 * i + k) \<noteq> unat u + (4 * j + l)" if "k < 4" "l < 4" for k l
    using assms that by (intro aligned_disjoint) auto
  show False
  proof (cases "unat t + 4 * i \<le> unat u + 4 * j")
    case True
    with no 1 [of "unat u + 4 * j - (unat t + 4 * i)" 0] show False by linarith
  next
    case False
    with no 1 [of 0 "unat t + 4 * i - (unat u + 4 * j)"] show False by linarith
  qed
qed

lemma same_page_iff: "PDX v = PDX va \<and> PTX v = PTX va \<longleftrightarrow> drop_bit 12 v = drop_bit 12 va"
proof -
  have mask: "w AND 0x3FF = take_bit 10 w" for w :: u32
    by (simp add: take_bit_eq_mask mask_eq_exp_minus_1)
  have *: "PDX v = PDX va \<longleftrightarrow> take_bit 10 (drop_bit 22 v) = take_bit 10 (drop_bit 22 va)"
    "PTX v = PTX va \<longleftrightarrow> take_bit 10 (drop_bit 12 v) = take_bit 10 (drop_bit 12 va)"
    unfolding PDX_def PTX_def mask by (simp_all only: word_unat_eq_iff)
  show ?thesis
  proof
    assume eq: "drop_bit 12 v = drop_bit 12 va"
    have "drop_bit 22 w = drop_bit 10 (drop_bit 12 w)" for w :: u32 by simp
    with eq show "PDX v = PDX va \<and> PTX v = PTX va" unfolding * by metis
  next
    assume "PDX v = PDX va \<and> PTX v = PTX va"
    then have hi: "bit (drop_bit 22 v) k = bit (drop_bit 22 va) k"
      and lo: "bit (drop_bit 12 v) k = bit (drop_bit 12 va) k" if "k < 10" for k
      unfolding * using that by (metis bit_take_bit_iff)+
    show "drop_bit 12 v = drop_bit 12 va"
    proof (rule bit_word_eqI)
      fix n assume "n < LENGTH(32)"
      show "bit (drop_bit 12 v) n = bit (drop_bit 12 va) n"
      proof (cases "n < 10")
        case True then show ?thesis by (rule lo)
      next
        case False
        show ?thesis
        proof (cases "n < 20")
          case True
          with hi [of "n - 10"] False show ?thesis by (simp add: bit_drop_bit_eq)
        next
          case beyond: False
          then have "\<not> bit v (12 + n)" "\<not> bit va (12 + n)" by (auto dest: bit_imp_le_length)
          then show ?thesis by (simp add: bit_drop_bit_eq)
        qed
      qed
    qed
  qed
qed

section \<open>The walk\<close>

text \<open>The two-level walk of the processor: the entry that translates \<open>va\<close>, if both are present.\<close>

definition walk :: "memory \<Rightarrow> u32 \<Rightarrow> u32 \<Rightarrow> u32 option" where
  "walk m dir va =
     (let pde = entry m dir (PDX va); pte = entry m (PTE_ADDR pde) (PTX va)
      in if present pde \<and> present pte then Some pte else None)"

definition translate :: "memory \<Rightarrow> u32 \<Rightarrow> u32 \<Rightarrow> u32 option" where
  "translate m dir va = map_option (\<lambda>pte. PTE_ADDR pte OR (va AND 0xFFF)) (walk m dir va)"

definition tables :: "memory \<Rightarrow> u32 \<Rightarrow> u32 list" where
  "tables m dir = map (\<lambda>i. PTE_ADDR (entry m dir i)) (filter (\<lambda>i. present (entry m dir i)) [0..<1024])"

definition space_ok :: "memory \<Rightarrow> u32 \<Rightarrow> bool" where
  "space_ok m dir \<longleftrightarrow> page_aligned dir \<and> distinct (dir # tables m dir)"

lemma space_ok_inj:
  assumes "space_ok m dir" "i < 1024" "j < 1024" "i \<noteq> j"
    "present (entry m dir i)" "present (entry m dir j)"
  shows "PTE_ADDR (entry m dir i) \<noteq> PTE_ADDR (entry m dir j)"
  using assms by (auto simp: space_ok_def tables_def distinct_map inj_on_def)

lemma space_ok_dir:
  "space_ok m dir \<Longrightarrow> i < 1024 \<Longrightarrow> present (entry m dir i) \<Longrightarrow> PTE_ADDR (entry m dir i) \<noteq> dir"
  unfolding space_ok_def tables_def by force

lemma space_ok_aligned: "space_ok m dir \<Longrightarrow> page_aligned dir"
  by (simp add: space_ok_def)

lemma tables_cong:
  "(\<And>i. i < 1024 \<Longrightarrow> entry m' dir i = entry m dir i) \<Longrightarrow> tables m' dir = tables m dir"
  unfolding tables_def by (intro map_cong filter_cong) auto

text \<open>A store into the page table of \<open>va\<close> changes the walk on the page of \<open>va\<close> only.\<close>

lemma set_leaf:
  fixes w v :: u32
  assumes ok: "space_ok m dir" and pr: "present (entry m dir (PDX va))"
  defines "m' \<equiv> set_entry m (PTE_ADDR (entry m dir (PDX va))) (PTX va) w"
  shows "space_ok m' dir" and "tables m' dir = tables m dir"
    and "walk m' dir v = (if drop_bit 12 v = drop_bit 12 va then if present w then Some w else None
                          else walk m dir v)"
proof -
  have dir: "entry m' dir i = entry m dir i" if "i < 1024" for i
    unfolding m'_def
    by (rule entry_set_page) (use that ok pr space_ok_dir [OF ok _ pr] in \<open>auto simp: space_ok_aligned\<close>)
  then show tab: "tables m' dir = tables m dir" by (rule tables_cong)
  then show "space_ok m' dir" using ok by (simp add: space_ok_def)
  show "walk m' dir v = (if drop_bit 12 v = drop_bit 12 va then if present w then Some w else None
                          else walk m dir v)"
  proof (cases "PDX v = PDX va")
    case True
    then show ?thesis
    proof (cases "PTX v = PTX va")
      case same: True
      then show ?thesis using True pr dir same_page_iff [of v va] by (simp add: walk_def Let_def m'_def)
    next
      case other: False
      then show ?thesis using True dir same_page_iff [of v va]
        by (auto simp: walk_def Let_def m'_def)
    qed
  next
    case False
    have "entry m' (PTE_ADDR (entry m dir (PDX v))) (PTX v) =
          entry m (PTE_ADDR (entry m dir (PDX v))) (PTX v)" if "present (entry m dir (PDX v))"
      unfolding m'_def
      by (rule entry_set_page) (use space_ok_inj [OF ok _ _ _ pr that] False in auto)
    then show ?thesis using False dir same_page_iff [of v va] by (auto simp: walk_def Let_def)
  qed
qed

lemma zero_page:
  assumes "j < 1024" shows "entry (overlay m (unat r) (words32 (replicate (PGSIZE div 4) 0))) r j = 0"
proof -
  have "words32 (replicate n 0) = replicate (4 * n) 0" for n
    by (induction n) (simp_all add: bytes32_def numeral_eq_Suc replicate_app_Cons_same)
  then have "ld32 (overlay m (unat r) (words32 (replicate (PGSIZE div 4) 0))) (unat r + 4 * j) =
      ld32 (\<lambda>_. 0) (unat r + 4 * j)"
    using assms by (intro ld32_cong) (simp add: PGSIZE_def overlay_def)
  also have "\<dots> = 0" by (simp add: ld32_def of_bytes32_def window_def upt_rec)
  finally show ?thesis by (simp add: entry_def)
qed

lemma overlay_page:
  assumes "page_aligned r" "page_aligned t" "r \<noteq> t" "j < 1024" "length xs \<le> 4096"
  shows "entry (overlay m (unat r) xs) t j = entry m t j"
proof (rule entry_cong [OF _ assms(4)])
  fix x :: nat assume "x < 4096"
  then have "unat r + y \<noteq> unat t + x" if "y < 4096" for y
    using aligned_disjoint [OF assms(1-3) that] by blast
  from this [of "unat t + x - unat r"] have "\<not> (unat r \<le> unat t + x \<and> unat t + x < unat r + length xs)"
    using assms(5) by linarith
  then show "overlay m (unat r) xs (unat t + x) = m (unat t + x)"
    by (intro overlay_outside) linarith
qed

text \<open>A page the allocator may hand out: aligned, not NULL, not in use by the address space.\<close>

definition fresh_page :: "memory \<Rightarrow> u32 \<Rightarrow> u32 \<Rightarrow> bool" where
  "fresh_page m dir r \<longleftrightarrow> page_aligned r \<and> r \<noteq> 0 \<and> r \<notin> set (dir # tables m dir)"

definition zeroed :: "memory \<Rightarrow> u32 \<Rightarrow> memory" where
  "zeroed m r = overlay m (unat r) (words32 (replicate (PGSIZE div 4) 0))"

lemma pgalloc_eq:
  "pgalloc al s = (if fst (al (pages s)) = 0 then Inl Halt
     else Inr (fst (al (pages s)), s\<lparr>ram := zeroed (ram s) (fst (al (pages s))), pages := snd (al (pages s))\<rparr>))"
  by (simp add: pgalloc_def zeroed_def split: prod.split)

lemma entry_zeroed [simp]: "j < 1024 \<Longrightarrow> entry (zeroed m r) r j = 0"
  unfolding zeroed_def by (rule zero_page)

lemma entry_zeroed_other [simp]:
  "page_aligned r \<Longrightarrow> page_aligned t \<Longrightarrow> r \<noteq> t \<Longrightarrow> j < 1024 \<Longrightarrow> entry (zeroed m r) t j = entry m t j"
  unfolding zeroed_def by (rule overlay_page) (simp_all add: PGSIZE_def)

text \<open>A new empty page table in a free slot of the directory translates nothing.\<close>

lemma install_table:
  fixes m :: memory and w v :: u32
  assumes ok: "space_ok m dir" and fr: "fresh_page m dir r" and i: "i < 1024"
    and abs: "\<not> present (entry m dir i)" and w: "PTE_ADDR w = r" "present w"
  defines "m' \<equiv> set_entry (zeroed m r) dir i w"
  shows "entry m' dir i = w" and "space_ok m' dir" and "set (tables m' dir) = insert r (set (tables m dir))"
    and "walk m' dir v = walk m dir v"
proof -
  have al: "page_aligned r" "page_aligned dir" "r \<noteq> dir" "r \<notin> set (tables m dir)"
    using fr ok by (auto simp: fresh_page_def space_ok_def)
  have dir: "entry m' dir j = (if j = i then w else entry m dir j)" if "j < 1024" for j
    using al that by (auto simp: m'_def)
  then show "entry m' dir i = w" using i by simp
  have new: "entry m' r j = 0" if "j < 1024" for j
    unfolding m'_def using al i that by (subst entry_set_page) auto
  have old: "entry m' (PTE_ADDR (entry m dir k)) j = entry m (PTE_ADDR (entry m dir k)) j"
    if "k < 1024" "j < 1024" "present (entry m dir k)" for j k
  proof -
    have "PTE_ADDR (entry m dir k) \<noteq> dir" "PTE_ADDR (entry m dir k) \<noteq> r"
      using space_ok_dir [OF ok that(1,3)] al(4) that(1,3) by (auto simp: tables_def)
    then show ?thesis unfolding m'_def using al i that by (subst entry_set_page) auto
  qed
  have split: "[0..<1024] = [0..<i] @ i # [Suc i..<1024]"
    using i by (metis le_add_diff_inverse less_imp_le_nat upt_add_eq_append upt_conv_Cons zero_le)
  define pre post where "pre = map (\<lambda>i. PTE_ADDR (entry m dir i)) (filter (\<lambda>i. present (entry m dir i)) [0..<i])"
    and "post = map (\<lambda>i. PTE_ADDR (entry m dir i)) (filter (\<lambda>i. present (entry m dir i)) [Suc i..<1024])"
  have tab: "tables m dir = pre @ post"
    unfolding tables_def split pre_def post_def using abs by simp
  have tab': "tables m' dir = pre @ r # post"
  proof -
    have "map (\<lambda>i. PTE_ADDR (entry m' dir i)) (filter (\<lambda>i. present (entry m' dir i)) [0..<i]) = pre"
      "map (\<lambda>i. PTE_ADDR (entry m' dir i)) (filter (\<lambda>i. present (entry m' dir i)) [Suc i..<1024]) = post"
      unfolding pre_def post_def using i by (auto intro!: map_cong filter_cong simp: dir)
    then show ?thesis unfolding tables_def split using dir [OF i] w by simp
  qed
  show "set (tables m' dir) = insert r (set (tables m dir))" by (auto simp: tab tab')
  show "space_ok m' dir" using ok al by (auto simp: space_ok_def tab tab')
  show "walk m' dir v = walk m dir v"
    using dir [of "PDX v"] w abs new old by (auto simp: walk_def Let_def)
qed

section \<open>Mapping a page\<close>

lemma prot_none_cases: "prot AND PROT_NONE \<noteq> 0 \<and> prot \<noteq> PROT_NONE \<or> prot = PROT_NONE \<or> prot AND PROT_NONE = 0"
  by blast

lemma rounddown_aligned: "va = PG_ROUNDDOWN va \<longleftrightarrow> page_aligned va"
proof
  assume "va = PG_ROUNDDOWN va"
  also have "PG_ROUNDDOWN va = PTE_ADDR va" by (simp add: PG_ROUNDDOWN_def PTE_ADDR_def)
  finally have *: "va = PTE_ADDR va" .
  show "page_aligned va" by (subst *) simp
next
  assume al: "page_aligned va"
  show "va = PG_ROUNDDOWN va"
    unfolding PG_ROUNDDOWN_def
    by (rule bit_word_eqI; use aligned_bit [OF al] in
      \<open>auto simp only: bit_and_iff bit_not_iff_eq possible_bit_word bit_0xFFF\<close>; simp)
qed

text \<open>The entry that \<open>map\<close> stores for a page with the given protection.\<close>

definition user_pte :: "u32 \<Rightarrow> u32 \<Rightarrow> u32" where
  "user_pte pa prot = PTE_P OR (if prot AND PROT_WRITE \<noteq> 0 then PTE_W else 0) OR PTE_U OR pa"

lemma user_pte_simps [simp]:
  "present (user_pte pa prot)" "page_aligned pa \<Longrightarrow> PTE_ADDR (user_pte pa prot) = pa"
  by (simp_all add: user_pte_def)

abbreviation same_page :: "u32 \<Rightarrow> u32 \<Rightarrow> bool" where
  "same_page v va \<equiv> drop_bit 12 v = drop_bit 12 va"

text \<open>
  C7. \<open>map\<close> refines an update of the translation: it succeeds, keeps the address space well
  formed, and the processor's walk afterwards gives the new entry (none, when the page is unmapped)
  on the page of \<open>va\<close> and what it gave before on every other page.
\<close>

lemma vm_map_refines:
  assumes ok: "space_ok (ram s) (as_ptr p)"
    and fr: "fresh_page (ram s) (as_ptr p) (fst (al (pages s)))"
    and al: "page_aligned va" "page_aligned pa" and rng: "in_range va uvm_area"
    and prot: "prot = PROT_NONE \<or> prot AND PROT_NONE = 0"
  shows "\<exists>s'. vm_map al p va pa prot s = Inr (0, s') \<and> space_ok (ram s') (as_ptr p)
     \<and> (\<forall>v. walk (ram s') (as_ptr p) v =
          (if same_page v va then if prot = PROT_NONE then None else Some (user_pte pa prot)
           else walk (ram s) (as_ptr p) v))
     \<and> (\<forall>v. same_page v va \<and> prot \<noteq> PROT_NONE \<longrightarrow>
          translate (ram s') (as_ptr p) v = Some (pa OR (v AND 0xFFF)))"
proof -
  let ?d = "as_ptr p" and ?i = "PDX va"
  let ?w = "if prot AND PROT_NONE \<noteq> 0 then 0 else user_pte pa prot"
  have none: "prot AND PROT_NONE \<noteq> 0 \<longleftrightarrow> prot = PROT_NONE"
    using prot by (auto simp: PROT_NONE_def)
  obtain s2 where s2: "vm_map al p va pa prot s =
        Inr (0, s2\<lparr>ram := set_entry (ram s2) (PTE_ADDR (entry (ram s2) ?d ?i)) (PTX va) ?w\<rparr>)"
    and ok2: "space_ok (ram s2) ?d" and pr2: "present (entry (ram s2) ?d ?i)"
    and walk2: "\<And>v. walk (ram s2) ?d v = walk (ram s) ?d v"
  proof (cases "present (entry (ram s) ?d ?i)")
    case True
    show thesis
      by (rule that [of s]) (use True ok prot al rng none in
        \<open>simp_all add: vm_map_def Let_def user_pte_def rounddown_aligned [THEN iffD2]
           rounddown_aligned [symmetric]\<close>)
  next
    case False
    let ?r = "fst (al (pages s))" and ?e = "PTE_P OR PTE_W OR PTE_U OR fst (al (pages s))"
    let ?s = "s\<lparr>ram := set_entry (zeroed (ram s) ?r) ?d ?i ?e, pages := snd (al (pages s))\<rparr>"
    have r: "?r \<noteq> 0" "PTE_ADDR ?e = ?r" using fr by (simp_all add: fresh_page_def)
    note inst = install_table [OF ok fr index_less(1) False r(2) present_entry(1)]
    show thesis
      by (rule that [of ?s]) (use False inst r prot al rng none in
        \<open>simp_all add: vm_map_def Let_def user_pte_def pgalloc_eq rounddown_aligned [symmetric]\<close>)
  qed
  note leaf = set_leaf [OF ok2 pr2, of ?w]
  show ?thesis
    by (rule exI, rule conjI, rule s2)
      (use leaf walk2 none al in \<open>auto simp: translate_def\<close>)
qed

lemma vm_map_refines_witness:
  "\<exists>s'. vm_map (\<lambda>n. (0x200000 + 4096 * n, n + 1)) \<lparr>as_pgsize = 4096, as_area = uvm_area, as_ptr = 0x100000\<rparr>
       0x40001000 0x300000 PROT_READ \<lparr>ram = \<lambda>_. 0, kpt = 0x100000, pages = 0\<rparr> = Inr (0, s')
     \<and> translate (ram s') 0x100000 0x40001234 = Some 0x300234"
proof -
  have zero: "entry (\<lambda>_. 0) t i = 0" for t i
    by (simp add: entry_def ld32_def of_bytes32_def window_def upt_rec)
  have tab: "tables (\<lambda>_. 0) t = []" for t by (simp add: tables_def zero)
  have pages: "drop_bit 12 (0x40001234 :: u32) = drop_bit 12 0x40001000" by simp
  show ?thesis
    using vm_map_refines [where s = "\<lparr>ram = \<lambda>_. 0, kpt = 0x100000, pages = 0\<rparr>"
        and p = "\<lparr>as_pgsize = 4096, as_area = uvm_area, as_ptr = 0x100000\<rparr>"
        and al = "\<lambda>n. (0x200000 + 4096 * n, n + 1)"
        and va = "0x40001000" and pa = "0x300000" and prot = PROT_READ] pages
    by (auto simp: space_ok_def fresh_page_def tab page_aligned_def in_range_def uvm_area_def areas_def
        PROT_READ_def PROT_NONE_def)
qed

section \<open>The kernel's areas\<close>

text \<open>The pages the allocator hands out next, and a state from which it cannot run out of fresh ones.\<close>

primrec alloc_seq :: "('h \<Rightarrow> u32 \<times> 'h) \<Rightarrow> nat \<Rightarrow> 'h \<Rightarrow> u32 list" where
  "alloc_seq al 0 h = []"
| "alloc_seq al (Suc n) h = fst (al h) # alloc_seq al n (snd (al h))"

definition good_pages :: "u32 list \<Rightarrow> bool" where
  "good_pages ps \<longleftrightarrow> distinct ps \<and> (\<forall>p \<in> set ps. page_aligned p \<and> p \<noteq> 0)"

definition supplied :: "('h \<Rightarrow> u32 \<times> 'h) \<Rightarrow> 'h vme \<Rightarrow> bool" where
  "supplied al s \<longleftrightarrow>
     (let ts = tables (ram s) (kpt s); ps = alloc_seq al (1024 - length ts) (pages s)
      in space_ok (ram s) (kpt s) \<and> good_pages ps \<and> set ps \<inter> set (kpt s # ts) = {})"

lemma length_tables: "i < 1024 \<Longrightarrow> \<not> present (entry m d i) \<Longrightarrow> length (tables m d) < 1024"
proof -
  assume "i < 1024" "\<not> present (entry m d i)"
  then have "length (filter (\<lambda>i. present (entry m d i)) [0..<1024]) < length [0..<1024::nat]"
    by (intro length_filter_less [of i]) auto
  then show ?thesis by (simp add: tables_def)
qed

lemma supplied_fresh:
  assumes "supplied al s" "i < 1024" "\<not> present (entry (ram s) (kpt s) i)"
  shows "fresh_page (ram s) (kpt s) (fst (al (pages s)))"
proof -
  obtain k where "1024 - length (tables (ram s) (kpt s)) = Suc k"
    using length_tables [OF assms(2,3)] by (metis Suc_diff_Suc)
  with assms(1) show ?thesis by (auto simp: supplied_def good_pages_def fresh_page_def Let_def)
qed

lemma kmap_page_step:
  assumes sup: "supplied al s" and pa: "page_aligned pa"
  shows "\<exists>s'. kmap_page al pa s = Inr s' \<and> supplied al s' \<and> kpt s' = kpt s
     \<and> (\<forall>v. walk (ram s') (kpt s) v =
          (if same_page v pa then Some (PTE_P OR PTE_W OR pa) else walk (ram s) (kpt s) v))"
proof -
  let ?d = "kpt s" and ?i = "PDX pa" and ?w = "PTE_P OR PTE_W OR pa"
  have ok: "space_ok (ram s) ?d" using sup by (simp add: supplied_def Let_def)
  obtain s2 where s2: "kmap_page al pa s =
        Inr (s2\<lparr>ram := set_entry (ram s2) (PTE_ADDR (entry (ram s2) ?d ?i)) (PTX pa) ?w\<rparr>)"
    and sup2: "supplied al s2" and k2: "kpt s2 = ?d" and pr2: "present (entry (ram s2) ?d ?i)"
    and walk2: "\<And>v. walk (ram s2) ?d v = walk (ram s) ?d v"
  proof (cases "present (entry (ram s) ?d ?i)")
    case True
    show thesis by (rule that [of s]) (use True sup in \<open>simp_all add: kmap_page_def\<close>)
  next
    case False
    let ?r = "fst (al (pages s))" and ?e = "PTE_P OR PTE_W OR fst (al (pages s))"
    let ?s = "s\<lparr>ram := set_entry (zeroed (ram s) ?r) ?d ?i ?e, pages := snd (al (pages s))\<rparr>"
    have fr: "fresh_page (ram s) ?d ?r" by (rule supplied_fresh [OF sup _ False]) simp
    have r: "?r \<noteq> 0" "PTE_ADDR ?e = ?r" using fr by (simp_all add: fresh_page_def)
    note inst = install_table [OF ok fr index_less(1) False r(2) present_entry(1)]
    have len: "length (tables (ram ?s) ?d) = Suc (length (tables (ram s) ?d))"
    proof -
      have "card (set (tables (ram ?s) ?d)) = Suc (card (set (tables (ram s) ?d)))"
        using inst(3) fr by (simp add: fresh_page_def)
      then show ?thesis using ok inst(2) by (simp add: space_ok_def distinct_card)
    qed
    obtain k where k: "1024 - length (tables (ram s) ?d) = Suc k" "1024 - length (tables (ram ?s) ?d) = k"
      using length_tables [OF index_less(1) False] len by (metis Suc_diff_Suc diff_Suc_Suc old.nat.inject)
    have "supplied al ?s"
      using sup inst(2,3) k by (auto simp: supplied_def good_pages_def Let_def)
    then show thesis
      by (intro that [of ?s]) (use False inst r in \<open>simp_all add: kmap_page_def pgalloc_eq\<close>)
  qed
  have ok2: "space_ok (ram s2) ?d" using sup2 k2 by (simp add: supplied_def Let_def)
  note leaf = set_leaf [OF ok2 pr2, of ?w]
  show ?thesis
    by (rule exI, rule conjI, rule s2) (use leaf walk2 sup2 k2 in \<open>auto simp: supplied_def Let_def\<close>)
qed

lemma same_page_aligned:
  assumes "page_aligned pa"
  shows "same_page v pa \<longleftrightarrow> v - pa < 0x1000" and "same_page v pa \<Longrightarrow> PG_ROUNDDOWN v = pa"
proof -
  obtain q where q: "unat pa = 4096 * q" using page_aligned_unat [OF assms] by (auto elim!: dvdE)
  have pg: "same_page v pa \<longleftrightarrow> unat v div 4096 = q"
    by (simp only: word_unat_eq_iff unat_drop_bit_eq) (simp add: drop_bit_eq_div q)
  show "same_page v pa \<longleftrightarrow> v - pa < 0x1000"
  proof (cases "pa \<le> v")
    case True
    then have "unat (v - pa) = unat v - 4096 * q" "4096 * q \<le> unat v"
      by (simp_all add: unat_sub q word_le_nat_alt)
    moreover have "x div 4096 = q \<longleftrightarrow> x - 4096 * q < 4096" if "4096 * q \<le> x" for x :: nat
      using that by auto
    ultimately show ?thesis unfolding pg word_less_nat_alt by simp
  next
    case False
    then have lt: "unat v < 4096 * q" using q by (simp add: word_le_nat_alt)
    then have "unat v div 4096 < q" by (simp add: div_less_iff_less_mult mult.commute)
    moreover have "unat (v - pa) = 2 ^ 32 - (4096 * q - unat v)"
      using False q lt by (simp add: unat_sub_if' word_le_nat_alt)
    moreover have "4096 * q + 4096 \<le> 2 ^ 32" using unat_u32_less [of pa] q by simp
    ultimately show ?thesis unfolding pg word_less_nat_alt by simp
  qed
  show "same_page v pa \<Longrightarrow> PG_ROUNDDOWN v = pa"
  proof -
    assume eq: "same_page v pa"
    show "PG_ROUNDDOWN v = pa" unfolding PG_ROUNDDOWN_def
    proof (rule bit_word_eqI)
      fix n assume "n < LENGTH(32)"
      moreover have "bit v n = bit pa n" if "\<not> n < 12"
      proof -
        from eq have "bit (drop_bit 12 v) (n - 12) = bit (drop_bit 12 pa) (n - 12)" by simp
        with that show ?thesis by (simp add: bit_drop_bit_eq)
      qed
      ultimately show "bit (v AND NOT 0xFFF) n = bit pa n"
        using aligned_bit [OF assms]
        by (auto simp only: bit_and_iff bit_not_iff_eq possible_bit_word bit_0xFFF) simp_all
    qed
  qed
qed

lemma kmap_range_maps:
  assumes "supplied al s" "page_aligned pa" "4096 * n < (2 :: nat) ^ 32" "pend = pa + word_of_nat (4096 * n)"
  shows "\<exists>s'. kmap_range al pa pend s = Some (Inr s') \<and> supplied al s' \<and> kpt s' = kpt s
     \<and> (\<forall>v. walk (ram s') (kpt s) v =
          (if unat (v - pa) < 4096 * n then Some (PTE_P OR PTE_W OR PG_ROUNDDOWN v)
           else walk (ram s) (kpt s) v))"
  using assms
proof (induction n arbitrary: pa s)
  case 0
  then show ?case by (subst kmap_range.simps) simp
next
  case (Suc n)
  let ?n = "word_of_nat PGSIZE :: u32"
  have n: "?n = 0x1000" by (simp add: PGSIZE_def)
  obtain s1 where s1: "kmap_page al pa s = Inr s1" "supplied al s1" "kpt s1 = kpt s"
    and w1: "\<And>v. walk (ram s1) (kpt s) v =
          (if same_page v pa then Some (PTE_P OR PTE_W OR pa) else walk (ram s) (kpt s) v)"
    using kmap_page_step [OF Suc.prems(1,2)] by blast
  have al: "page_aligned (pa + ?n)" using page_aligned_add [OF Suc.prems(2)] by (simp add: n)
  have pend: "pend = (pa + ?n) + word_of_nat (4096 * n)"
    using Suc.prems(4) by (simp add: n algebra_simps)
  obtain s' where s': "kmap_range al (pa + ?n) pend s1 = Some (Inr s')" "supplied al s'" "kpt s' = kpt s"
    and w': "\<And>v. walk (ram s') (kpt s) v =
          (if unat (v - (pa + ?n)) < 4096 * n then Some (PTE_P OR PTE_W OR PG_ROUNDDOWN v)
           else walk (ram s1) (kpt s) v)"
    using Suc.IH [OF s1(2) al _ pend] Suc.prems(3) s1(3) by auto
  have "pend - pa = word_of_nat (4096 * Suc n)" using Suc.prems(4) by simp
  then have "unat (pend - pa) = 4096 * Suc n"
    using Suc.prems(3) by (simp only: unat_of_nat) simp
  then have ne: "pa \<noteq> pend" by auto
  have part: "unat (v - pa) < 4096 * Suc n \<longleftrightarrow> unat (v - (pa + ?n)) < 4096 * n \<or> same_page v pa" for v
  proof -
    have sp: "same_page v pa \<longleftrightarrow> unat (v - pa) < 4096"
      using same_page_aligned(1) [OF Suc.prems(2)] by (simp add: word_less_nat_alt)
    have diff: "v - (pa + ?n) = (v - pa) - 0x1000" by (simp add: n)
    show ?thesis
    proof (cases "unat (v - pa) < 4096")
      case True
      then show ?thesis using sp by simp
    next
      case False
      then have "unat (v - (pa + ?n)) = unat (v - pa) - 4096"
        unfolding diff by (subst unat_sub) (simp_all add: word_le_nat_alt)
      with False show ?thesis using sp by auto
    qed
  qed
  show ?case
  proof (intro exI conjI allI)
    show "kmap_range al pa pend s = Some (Inr s')"
      using ne s1(1) s'(1) by (subst kmap_range.simps) simp
    show "supplied al s'" "kpt s' = kpt s" by (fact s')+
    show "walk (ram s') (kpt s) v = (if unat (v - pa) < 4096 * Suc n
        then Some (PTE_P OR PTE_W OR PG_ROUNDDOWN v) else walk (ram s) (kpt s) v)" for v
      using w' [of v] w1 [of v] part [of v] same_page_aligned(2) [OF Suc.prems(2), of v] by auto
  qed
qed

lemma zeroed_space:
  assumes "page_aligned r"
  shows "tables (zeroed m r) r = []" "space_ok (zeroed m r) r" "walk (zeroed m r) r v = None"
proof -
  show t: "tables (zeroed m r) r = []" by (simp add: tables_def)
  show "space_ok (zeroed m r) r" using assms by (simp add: space_ok_def t)
  show "walk (zeroed m r) r v = None" by (simp add: walk_def Let_def)
qed

lemma PTE_ADDR_kernel: "PTE_ADDR (PTE_P OR PTE_W OR PG_ROUNDDOWN v) OR (v AND 0xFFF) = v"
proof -
  have "page_aligned (PG_ROUNDDOWN v)"
    using page_aligned_PTE_ADDR [of v] by (simp add: PG_ROUNDDOWN_def PTE_ADDR_def)
  then have "PTE_ADDR (PTE_P OR PTE_W OR PG_ROUNDDOWN v) = PG_ROUNDDOWN v" by (rule PTE_ADDR_entry)
  then show ?thesis unfolding PG_ROUNDDOWN_def
    by (simp add: bit.conj_disj_distrib [symmetric] bit.disj_cancel_left disj_commute or.commute)
qed

text \<open>
  C8. \<open>vme_init\<close> returns (its loops, one of which ends by wrapping around to address 0, do
  terminate) and gives the kernel a page directory under which the addresses of the two physical
  areas translate to themselves and no other address is mapped, when the allocator can supply 1025
  distinct pages.
\<close>

lemma vme_init_identity:
  assumes "good_pages (alloc_seq al 1025 (pages s))"
  shows "\<exists>s'. vme_init 0 al s = Some (Inr s') \<and> supplied al s'
     \<and> (\<forall>v. translate (ram s') (kpt s') v =
          (if v < 0x20000000 \<or> 0xF0000000 \<le> v then Some v else None))"
proof -
  let ?r = "fst (al (pages s))" and ?h = "snd (al (pages s))"
  let ?s = "s\<lparr>ram := zeroed (ram s) ?r, pages := ?h, kpt := ?r\<rparr>"
  have gp: "good_pages (?r # alloc_seq al 1024 ?h)"
    using assms alloc_seq.simps(2) [of al 1024 "pages s"] by simp
  then have r: "page_aligned ?r" "?r \<noteq> 0" by (simp_all add: good_pages_def)
  note z = zeroed_space [OF r(1)]
  have sup: "supplied al ?s" using gp z by (auto simp: supplied_def good_pages_def Let_def)
  have zero: "page_aligned 0" "page_aligned 0xF0000000" by (simp_all add: page_aligned_def)
  obtain s1 where s1: "kmap_range al 0 0x20000000 ?s = Some (Inr s1)" "supplied al s1" "kpt s1 = ?r"
    and w1: "\<And>v. walk (ram s1) ?r v = (if v < 0x20000000 then Some (PTE_P OR PTE_W OR PG_ROUNDDOWN v) else None)"
    using kmap_range_maps [OF sup zero(1), of 131072 "0x20000000"] z by (auto simp: word_less_nat_alt)
  obtain s2 where s2: "kmap_range al 0xF0000000 0 s1 = Some (Inr s2)" "supplied al s2" "kpt s2 = ?r"
    and w2: "\<And>v. walk (ram s2) ?r v = (if unat (v - 0xF0000000) < 4096 * 65536
        then Some (PTE_P OR PTE_W OR PG_ROUNDDOWN v) else walk (ram s1) ?r v)"
    using kmap_range_maps [OF s1(2) zero(2), of 65536 0] s1(3) by auto
  have hi: "unat (v - 0xF0000000) < 4096 * 65536 \<longleftrightarrow> 0xF0000000 \<le> v" for v :: u32
  proof (cases "0xF0000000 \<le> v")
    case True
    then have "unat (v - 0xF0000000) = unat v - 0xF0000000" by (simp add: unat_sub)
    then show ?thesis using True unat_u32_less [of v] by simp
  next
    case False
    then show ?thesis by (simp add: unat_sub_if' word_le_nat_alt)
  qed
  have init: "vme_init 0 al s = Some (Inr s2)"
    using r(2) s1(1) s2(1) by (simp add: vme_init_def pgalloc_eq areas_def)
  show ?thesis
    by (rule exI [of _ s2]) (use init s2 w1 w2 hi in \<open>auto simp: translate_def PTE_ADDR_kernel\<close>)
qed

lemma alloc_seq_bump:
  "alloc_seq (\<lambda>k. (0x1000000 + 4096 * word_of_nat k, Suc k)) n k =
     map (\<lambda>i. 0x1000000 + 4096 * word_of_nat i) [k..<k + n]"
proof (induction n arbitrary: k)
  case (Suc n)
  have "[k..<k + Suc n] = k # [Suc k..<Suc k + n]" by (simp add: upt_conv_Cons del: upt_Suc)
  then show ?case using Suc by (simp del: upt_Suc)
qed simp

lemma vme_init_identity_witness:
  "\<exists>s'. vme_init 0 (\<lambda>k. (0x1000000 + 4096 * word_of_nat k, Suc k)) \<lparr>ram = \<lambda>_. 0xFF, kpt = 0, pages = 0\<rparr> =
          Some (Inr s')
     \<and> translate (ram s') (kpt s') 0x00100ABC = Some 0x00100ABC \<and> translate (ram s') (kpt s') 0x40000000 = None"
proof -
  have un: "unat (0x1000000 + 4096 * word_of_nat i :: u32) = 0x1000000 + 4096 * i" if "i < 1025" for i
  proof -
    have "0x1000000 + 4096 * word_of_nat i = (word_of_nat (0x1000000 + 4096 * i) :: u32)" by simp
    then show ?thesis using that by (simp only: unat_of_nat) simp
  qed
  have "good_pages (map (\<lambda>i. 0x1000000 + 4096 * word_of_nat i) [0..<1025])"
    unfolding good_pages_def
  proof
    show "distinct (map (\<lambda>i. 0x1000000 + 4096 * word_of_nat i :: u32) [0..<1025])"
      by (simp only: distinct_map, rule conjI, simp, rule inj_onI) (metis add_left_cancel atLeastLessThan_iff
          mult_left_cancel set_upt un zero_neq_numeral)
    show "\<forall>p\<in>set (map (\<lambda>i. 0x1000000 + 4096 * word_of_nat i :: u32) [0..<1025]). page_aligned p \<and> p \<noteq> 0"
      by (auto simp: page_aligned_iff un word_unat_eq_iff simp del: unat_eq_zero)
  qed
  then show ?thesis
    using vme_init_identity [where al = "\<lambda>k. (0x1000000 + 4096 * word_of_nat k, Suc k)"
        and s = "\<lparr>ram = \<lambda>_. 0xFF, kpt = 0, pages = 0\<rparr>"]
    by (auto simp: alloc_seq_bump)
qed

section \<open>Creating and destroying an address space\<close>

lemma copy_entries:
  fixes m :: memory
  assumes "page_aligned u" "page_aligned t" "u \<noteq> t" "n \<le> 1024"
  defines "copy \<equiv> \<lambda>n. fold (\<lambda>i m. set_entry m u i (entry m t i)) [0..<n] m"
  shows "i < n \<Longrightarrow> entry (copy n) u i = entry m t i"
    and "page_aligned v \<Longrightarrow> u \<noteq> v \<Longrightarrow> j < 1024 \<Longrightarrow> entry (copy n) v j = entry m v j"
proof -
  have step: "copy (Suc n) = set_entry (copy n) u n (entry (copy n) t n)" for n
    by (simp add: copy_def)
  have other: "entry (copy n) v j = entry m v j"
    if "page_aligned v" "u \<noteq> v" "j < 1024" "n \<le> 1024" for n v j
    using that(4)
  proof (induction n)
    case (Suc n)
    then show ?case using assms(1) that by (simp add: step)
  qed (simp add: copy_def)
  then show "page_aligned v \<Longrightarrow> u \<noteq> v \<Longrightarrow> j < 1024 \<Longrightarrow> entry (copy n) v j = entry m v j"
    using assms(4) by blast
  show "i < n \<Longrightarrow> entry (copy n) u i = entry m t i"
    using assms(4)
  proof (induction n)
    case (Suc n)
    then show ?case using other [OF assms(2,3)] by (cases "i = n") (auto simp: step)
  qed simp
qed

text \<open>A new address space shares the kernel's tables: it starts with the kernel's translation.\<close>

lemma protect_shares:
  assumes ok: "space_ok (ram s) (kpt s)" and fr: "fresh_page (ram s) (kpt s) (fst (al (pages s)))"
  shows "\<exists>p s'. protect al s = Inr (p, s') \<and> as_ptr p = fst (al (pages s)) \<and> space_ok (ram s') (as_ptr p)
     \<and> (\<forall>v. walk (ram s') (as_ptr p) v = walk (ram s) (kpt s) v)
     \<and> (\<forall>v. walk (ram s') (kpt s) v = walk (ram s) (kpt s) v)"
proof -
  let ?r = "fst (al (pages s))" and ?k = "kpt s"
  define m where "m = fold (\<lambda>i m. set_entry m ?r i (entry m ?k i)) [0..<1024] (zeroed (ram s) ?r)"
  have r: "page_aligned ?r" "?r \<noteq> 0" "?r \<noteq> ?k" "?r \<notin> set (tables (ram s) ?k)" and k: "page_aligned ?k"
    using fr ok by (auto simp: fresh_page_def space_ok_def)
  have new: "entry m ?r i = entry (ram s) ?k i" if "i < 1024" for i
    unfolding m_def using copy_entries(1) [OF r(1) k r(3) order_refl that] r k that by simp
  have old: "entry m v j = entry (ram s) v j" if "page_aligned v" "?r \<noteq> v" "j < 1024" for v j
    unfolding m_def using copy_entries(2) [OF r(1) k r(3) order_refl that] r that by simp
  have tab: "tables m ?r = tables (ram s) ?k" 
    unfolding tables_def by (intro map_cong filter_cong) (auto simp: new)
  have leaf: "entry m (PTE_ADDR (entry (ram s) ?k i)) j = entry (ram s) (PTE_ADDR (entry (ram s) ?k i)) j"
    if "i < 1024" "j < 1024" "present (entry (ram s) ?k i)" for i j
    using r(4) that by (intro old) (auto simp: tables_def)
  have w: "walk m ?r v = walk (ram s) ?k v" "walk m ?k v = walk (ram s) ?k v" for v
    using old [OF k r(3)] by (auto simp: walk_def Let_def new leaf)
  have ok': "space_ok m ?r" using ok r by (simp add: space_ok_def tab)
  have eq: "protect al s = Inr (\<lparr>as_pgsize = PGSIZE, as_area = uvm_area, as_ptr = ?r\<rparr>,
      s\<lparr>ram := m, pages := snd (al (pages s))\<rparr>)"
    using r(2) by (simp add: protect_def pgalloc_eq m_def PGSIZE_def Let_def)
  show ?thesis by (rule exI, rule exI, rule conjI, rule eq) (use w ok' in simp)
qed

text \<open>\<open>unprotect\<close> gives back each table of the user area once, then the directory, and no other page.\<close>

lemma unprotect_frees:
  assumes "space_ok (ram s) (as_ptr p)"
  shows "unprotect fr p s = s\<lparr>pages := fr (as_ptr p) (fold fr
           (map (\<lambda>i. PTE_ADDR (entry (ram s) (as_ptr p) i))
             (filter (\<lambda>i. present (entry (ram s) (as_ptr p) i)) user_indices)) (pages s))\<rparr>"
    and "distinct (as_ptr p # map (\<lambda>i. PTE_ADDR (entry (ram s) (as_ptr p) i))
             (filter (\<lambda>i. present (entry (ram s) (as_ptr p) i)) user_indices))"
proof -
  let ?d = "as_ptr p"
  have idx: "user_indices = [256..<512]"
    unfolding user_indices_def by (rule arg_cong2 [where f = upt]) (simp_all add: uvm_area_def areas_def PDX_def)
  have "fold (\<lambda>i s. let pde = entry (ram s) ?d i in if present pde then pgfree fr (PTE_ADDR pde) s else s) is s' =
      s'\<lparr>pages := fold fr (map (\<lambda>i. PTE_ADDR (entry (ram s') ?d i))
             (filter (\<lambda>i. present (entry (ram s') ?d i)) is)) (pages s')\<rparr>" for "is" and s' :: "'a vme"
    by (induction "is" arbitrary: s') (simp_all add: pgfree_def Let_def)
  then show "unprotect fr p s = s\<lparr>pages := fr ?d (fold fr (map (\<lambda>i. PTE_ADDR (entry (ram s) ?d i))
             (filter (\<lambda>i. present (entry (ram s) ?d i)) user_indices)) (pages s))\<rparr>"
    by (simp add: unprotect_def pgfree_def)
  show "distinct (?d # map (\<lambda>i. PTE_ADDR (entry (ram s) ?d i)) (filter (\<lambda>i. present (entry (ram s) ?d i)) user_indices))"
  proof -
    have lt: "i < 1024" if "i \<in> set (filter (\<lambda>i. present (entry (ram s) ?d i)) user_indices)" for i
    proof -
      have "i \<in> set user_indices" using that by auto
      then show ?thesis unfolding idx set_upt by simp
    qed
    show ?thesis unfolding distinct.simps distinct_map
    proof (intro conjI inj_onI)
      show "?d \<notin> set (map (\<lambda>i. PTE_ADDR (entry (ram s) ?d i))
          (filter (\<lambda>i. present (entry (ram s) ?d i)) user_indices))"
        using space_ok_dir [OF assms lt] by fastforce
      show "distinct (filter (\<lambda>i. present (entry (ram s) ?d i)) user_indices)"
        by (rule distinct_filter) (simp only: idx distinct_upt)
    next
      fix i j
      assume i: "i \<in> set (filter (\<lambda>i. present (entry (ram s) ?d i)) user_indices)"
        and j: "j \<in> set (filter (\<lambda>i. present (entry (ram s) ?d i)) user_indices)"
        and eq: "PTE_ADDR (entry (ram s) ?d i) = PTE_ADDR (entry (ram s) ?d j)"
      then show "i = j" using space_ok_inj [OF assms lt [OF i] lt [OF j]] by auto
    qed
  qed
qed

end
