(* ===== verification/Trap.thy ===== *)
theory Trap imports C_Memory Os_Irq begin

text \<open>
  Interrupts and contexts of the x86-qemu machine: \<open>am/src/x86/qemu/cte.c\<close>, the entry stub
  \<open>cte_trap.S\<close> and \<open>ucontext\<close> of \<open>vme.c\<close>. The machine is its registers, the stack pointer of the
  task state segment and a byte memory; \<open>push\<close>, \<open>popal\<close> and \<open>iret\<close> are the instructions the code
  uses. The handler that \<open>cte_init\<close> registers is a parameter: \<open>None\<close> before registration, otherwise a
  function of the event, the interrupted context and the kernel state, such as \<open>os_trap\<close>. The texts
  of \<open>ev.msg\<close> are not represented.
\<close>

section \<open>The machine\<close>

record x86 =
  m_eax :: u32
  m_ebx :: u32
  m_ecx :: u32
  m_edx :: u32
  m_esi :: u32
  m_edi :: u32
  m_ebp :: u32
  m_esp :: u32
  m_eip :: u32
  m_eflags :: u32
  m_cs :: u32
  m_ds :: u32
  m_es :: u32
  m_ss :: u32
  cr2 :: u32
  cr3 :: u32
  tss_ss0 :: u32
  tss_esp0 :: u32
  cpu_prot :: u32
  eois :: nat
  mem :: memory

text \<open>Constants of \<open>x86.h\<close>.\<close>

definition FL_IF :: u32 where "FL_IF = 0x200"
definition DPL_KERN :: u32 where "DPL_KERN = 0"
definition DPL_USER :: u32 where "DPL_USER = 3"
definition KSEL :: "u32 \<Rightarrow> u32" where "KSEL d = push_bit 3 d OR DPL_KERN"
definition USEL :: "u32 \<Rightarrow> u32" where "USEL d = push_bit 3 d OR DPL_USER"
definition SEG_KCODE :: u32 where "SEG_KCODE = 1"
definition SEG_KDATA :: u32 where "SEG_KDATA = 2"
definition SEG_UCODE :: u32 where "SEG_UCODE = 3"
definition SEG_UDATA :: u32 where "SEG_UDATA = 4"

text \<open>\<open>pushl\<close>, and \<open>pushl\<close> of several values in order.\<close>

definition push32 :: "u32 \<Rightarrow> x86 \<Rightarrow> x86" where
  "push32 w x = x\<lparr>m_esp := m_esp x - 4, mem := st32 (mem x) (unat (m_esp x - 4)) w\<rparr>"

definition pushes :: "u32 list \<Rightarrow> x86 \<Rightarrow> x86" where
  "pushes ws x = fold push32 ws x"

definition pop32 :: "x86 \<Rightarrow> u32 \<times> x86" where
  "pop32 x = (ld32 (mem x) (unat (m_esp x)), x\<lparr>m_esp := m_esp x + 4\<rparr>)"

text \<open>The last instructions of \<open>irq_handle\<close>: \<open>popal; popl %es; popl %ds; iret\<close>.\<close>

definition popal :: "x86 \<Rightarrow> x86" where
  "popal x =
     (let (edi, x) = pop32 x; (esi, x) = pop32 x; (ebp, x) = pop32 x; (_, x) = pop32 x;
          (ebx, x) = pop32 x; (edx, x) = pop32 x; (ecx, x) = pop32 x; (eax, x) = pop32 x
      in x\<lparr>m_edi := edi, m_esi := esi, m_ebp := ebp, m_ebx := ebx, m_edx := edx, m_ecx := ecx,
           m_eax := eax\<rparr>)"

definition iret :: "x86 \<Rightarrow> x86" where
  "iret x =
     (let (eip, x) = pop32 x; (cs, x) = pop32 x; (efl, x) = pop32 x;
          x = x\<lparr>m_eip := eip, m_cs := cs, m_eflags := efl\<rparr>
      in if cs AND DPL_USER \<noteq> 0
         then (let (esp, x) = pop32 x; (ss, x) = pop32 x in x\<lparr>m_esp := esp, m_ss := ss\<rparr>)
         else x)"

definition iret_path :: "x86 \<Rightarrow> x86" where
  "iret_path x =
     (let x = popal x; (es, x) = pop32 x; (ds, x) = pop32 x in iret (x\<lparr>m_es := es, m_ds := ds\<rparr>))"

section \<open>Trap frames and contexts\<close>

record trap_frame =
  tf_edi :: u32
  tf_esi :: u32
  tf_ebp :: u32
  tf_ebx :: u32
  tf_edx :: u32
  tf_ecx :: u32
  tf_eax :: u32
  tf_es :: u32
  tf_ds :: u32
  tf_irq :: u32
  tf_err :: u32
  tf_eip :: u32
  tf_cs :: u32
  tf_eflags :: u32
  tf_esp :: u32
  tf_ss :: u32

definition frame_at :: "memory \<Rightarrow> u32 \<Rightarrow> trap_frame" where
  "frame_at m tf =
     (let w = (\<lambda>i. ld32 m (unat tf + 4 * i))
      in \<lparr>tf_edi = w 0, tf_esi = w 1, tf_ebp = w 2, tf_ebx = w 4, tf_edx = w 5, tf_ecx = w 6,
          tf_eax = w 7, tf_es = w 8, tf_ds = w 9, tf_irq = w 10, tf_err = w 11, tf_eip = w 12,
          tf_cs = w 13, tf_eflags = w 14, tf_esp = w 15, tf_ss = w 16\<rparr>)"

text \<open>\<open>sizeof(TrapFrame)\<close>\<close>

definition TF_SIZE :: u32 where "TF_SIZE = 68"

text \<open>\<open>struct _Context\<close>; \<open>prot\<close> is the address of an \<open>_AddressSpace\<close> or 0.\<close>

record cpu_context =
  c_prot :: u32
  c_eax :: u32
  c_ebx :: u32
  c_ecx :: u32
  c_edx :: u32
  c_esi :: u32
  c_edi :: u32
  c_ebp :: u32
  c_esp3 :: u32
  c_eip :: u32
  c_eflags :: u32
  c_cs :: u32
  c_ds :: u32
  c_es :: u32
  c_ss :: u32
  c_ss0 :: u32
  c_esp0 :: u32

text \<open>The layout of the struct in memory.\<close>

definition context_words :: "cpu_context \<Rightarrow> u32 list" where
  "context_words c = [c_prot c, c_eax c, c_ebx c, c_ecx c, c_edx c, c_esi c, c_edi c, c_ebp c, c_esp3 c, c_eip c,
     c_eflags c, c_cs c, c_ds c, c_es c, c_ss c, c_ss0 c, c_esp0 c]"

definition put_context :: "memory \<Rightarrow> u32 \<Rightarrow> cpu_context \<Rightarrow> memory" where
  "put_context m p c = overlay m (unat p) (words32 (context_words c))"

definition context_at :: "memory \<Rightarrow> u32 \<Rightarrow> cpu_context" where
  "context_at m p =
     (let w = (\<lambda>i. ld32 m (unat p + 4 * i))
      in \<lparr>c_prot = w 0, c_eax = w 1, c_ebx = w 2, c_ecx = w 3, c_edx = w 4, c_esi = w 5, c_edi = w 6, c_ebp = w 7,
          c_esp3 = w 8, c_eip = w 9, c_eflags = w 10, c_cs = w 11, c_ds = w 12, c_es = w 13, c_ss = w 14,
          c_ss0 = w 15, c_esp0 = w 16\<rparr>)"

section \<open>Creating contexts\<close>

text \<open>
  \<open>kcontext\<close>: the context is stored at the bottom of the stack, the return address
  (\<open>por\<close>, the address of \<open>panic_on_return\<close>) and the argument at its top; the result is the address
  of the context.
\<close>

definition kcontext :: "u32 \<Rightarrow> u32 \<Rightarrow> u32 \<Rightarrow> u32 \<Rightarrow> u32 \<Rightarrow> memory \<Rightarrow> u32 \<times> memory" where
  "kcontext por start stack_end ent arg m =
     (let m1 = put_context m start
            \<lparr>c_prot = 0, c_eax = 0, c_ebx = 0, c_ecx = 0, c_edx = 0, c_esi = 0, c_edi = 0, c_ebp = 0, c_esp3 = 0,
             c_eip = ent, c_eflags = FL_IF, c_cs = KSEL SEG_KCODE, c_ds = KSEL SEG_KDATA,
             c_es = KSEL SEG_KDATA, c_ss = KSEL SEG_KDATA, c_ss0 = 0, c_esp0 = stack_end\<rparr>;
          sp = c_esp0 (context_at m1 start) - 8;
          m2 = st32 m1 (unat start + 64) sp;
          m3 = st32 m2 (unat sp) por;
          m4 = st32 m3 (unat sp + 4) arg
      in (start, m4))"

definition ucontext :: "u32 \<Rightarrow> u32 \<Rightarrow> u32 \<Rightarrow> u32 \<Rightarrow> u32 \<Rightarrow> u32 \<Rightarrow> memory \<Rightarrow> u32 \<times> memory" where
  "ucontext p ustack_end kstart kend ent args m =
     (kstart, put_context m kstart
        \<lparr>c_prot = p, c_eax = args, c_ebx = 0, c_ecx = 0, c_edx = 0, c_esi = 0, c_edi = 0, c_ebp = 0,
         c_esp3 = ustack_end, c_eip = ent, c_eflags = FL_IF, c_cs = USEL SEG_UCODE, c_ds = USEL SEG_UDATA,
         c_es = USEL SEG_UDATA, c_ss = USEL SEG_UDATA, c_ss0 = KSEL SEG_KDATA, c_esp0 = kend\<rparr>)"

section \<open>Entry\<close>

text \<open>
  An interrupt with vector \<open>irq\<close>: the processor switches to the kernel stack when it comes from user
  code and pushes the interrupted state and, for some exceptions, an error code; the stub of the
  vector disables interrupts, pushes 0 in place of a missing error code and the number, and
  \<open>trap\<close> pushes the other registers. The frame is then at \<open>m_esp\<close>.
\<close>

definition cpu_interrupt :: "u32 option \<Rightarrow> x86 \<Rightarrow> x86" where
  "cpu_interrupt err x =
     (let x1 = (if m_cs x AND DPL_USER \<noteq> 0
                then pushes [m_ss x, m_esp x] (x\<lparr>m_ss := tss_ss0 x, m_esp := tss_esp0 x\<rparr>) else x);
          x2 = pushes [m_eflags x, m_cs x, m_eip x] x1
      in (case err of None \<Rightarrow> x2 | Some e \<Rightarrow> push32 e x2)\<lparr>m_cs := KSEL SEG_KCODE\<rparr>)"

definition irq_stub :: "u32 \<Rightarrow> bool \<Rightarrow> x86 \<Rightarrow> x86" where
  "irq_stub irq has_err x =
     (let x1 = x\<lparr>m_eflags := m_eflags x AND NOT FL_IF\<rparr>
      in push32 irq (if has_err then x1 else push32 0 x1))"

definition trap_stub :: "x86 \<Rightarrow> x86" where
  "trap_stub x =
     (let x1 = pushes [m_ds x, m_es x] x;
          x2 = pushes [m_eax x1, m_ecx x1, m_edx x1, m_ebx x1, m_esp x1, m_ebp x1, m_esi x1, m_edi x1] x1
      in x2\<lparr>m_ds := KSEL SEG_KDATA, m_es := KSEL SEG_KDATA\<rparr>)"

definition trap_entry :: "u32 \<Rightarrow> u32 option \<Rightarrow> x86 \<Rightarrow> x86" where
  "trap_entry irq err x = trap_stub (irq_stub irq (err \<noteq> None) (cpu_interrupt err x))"

section \<open>Handling\<close>

text \<open>\<open>irq_handle\<close>: the saved context of the frame at \<open>tf\<close>.\<close>

definition saved_context :: "u32 \<Rightarrow> u32 \<Rightarrow> trap_frame \<Rightarrow> cpu_context" where
  "saved_context cprot tf f =
     (let ctx = \<lparr>c_prot = cprot, c_eax = tf_eax f, c_ebx = tf_ebx f, c_ecx = tf_ecx f,
                 c_edx = tf_edx f, c_esi = tf_esi f, c_edi = tf_edi f, c_ebp = tf_ebp f, c_esp3 = 0,
                 c_eip = tf_eip f, c_eflags = tf_eflags f, c_cs = tf_cs f, c_ds = tf_ds f,
                 c_es = tf_es f, c_ss = 0, c_ss0 = KSEL SEG_KDATA, c_esp0 = tf + TF_SIZE\<rparr>
      in if tf_cs f AND DPL_USER \<noteq> 0 then ctx\<lparr>c_ss := tf_ss f, c_esp3 := tf_esp f\<rparr>
         else ctx\<lparr>c_esp0 := c_esp0 ctx - 8\<rparr>)"

definition T_IRQ0 :: int where "T_IRQ0 = 32"
definition EX_SYSCALL :: int where "EX_SYSCALL = 0x80"
definition EX_PF :: int where "EX_PF = 14"

text \<open>\<open>EX_DIV\<close>, \<open>EX_UD\<close>, \<open>EX_NM\<close>, \<open>EX_DF\<close>, \<open>EX_TS\<close>, \<open>EX_NP\<close>, \<open>EX_SS\<close>, \<open>EX_GP\<close>\<close>

definition error_vectors :: "int list" where
  "error_vectors = [0, 6, 7, 8, 10, 11, 12, 13]"

definition PF_PROT_NONE :: u32 where "PF_PROT_NONE = 1"
definition PF_PROT_READ :: u32 where "PF_PROT_READ = 2"
definition PF_PROT_WRITE :: u32 where "PF_PROT_WRITE = 4"

definition trap_event :: "u32 \<Rightarrow> trap_frame \<Rightarrow> event" where
  "trap_event fault_addr f =
     (let irq = sint (tf_irq f); ev = \<lparr>ev_event = EVENT_NULL, ev_cause = 0, ev_ref = 0\<rparr>
      in if irq = T_IRQ0 + 0 then ev\<lparr>ev_event := EVENT_IRQ_TIMER\<rparr>
         else if irq = T_IRQ0 + 1 then ev\<lparr>ev_event := EVENT_IRQ_IODEV\<rparr>
         else if irq = EX_SYSCALL
         then ev\<lparr>ev_event := (if sint (tf_eax f) = -1 then EVENT_YIELD else EVENT_SYSCALL)\<rparr>
         else if irq \<in> set error_vectors then ev\<lparr>ev_event := EVENT_ERROR\<rparr>
         else if irq = EX_PF
         then ev\<lparr>ev_event := EVENT_PAGEFAULT,
                 ev_cause := (if tf_err f AND 1 \<noteq> 0 then PF_PROT_NONE else 0)
                   OR (if tf_err f AND 2 \<noteq> 0 then PF_PROT_WRITE else PF_PROT_READ),
                 ev_ref := fault_addr\<rparr>
         else ev\<lparr>ev_event := EVENT_ERROR, ev_cause := tf_err f\<rparr>)"

text \<open>The return to a context: its stack, its registers pushed there, and the pops.\<close>

definition kernel_regs :: "cpu_context \<Rightarrow> u32 list" where
  "kernel_regs c = [c_eflags c, c_cs c, c_eip c, c_ds c, c_es c, c_eax c, c_ecx c, c_edx c, c_ebx c,
     c_esp0 c, c_ebp c, c_esi c, c_edi c]"

definition return_to :: "cpu_context \<Rightarrow> x86 \<Rightarrow> x86" where
  "return_to c x0 =
     (let x = x0\<lparr>cpu_prot := c_prot c\<rparr>
      in if c_cs c AND DPL_USER \<noteq> 0
         then (let x1 = (if c_prot c \<noteq> 0 then x\<lparr>cr3 := ld32 (mem x) (unat (c_prot c) + 12)\<rparr> else x);
                   x2 = x1\<lparr>tss_ss0 := c_ss0 c, tss_esp0 := c_esp0 c, m_esp := c_esp0 c\<rparr>
               in iret_path (pushes ([c_ss c, c_esp3 c] @ kernel_regs c) x2))
         else iret_path (pushes (kernel_regs c) (x\<lparr>m_esp := c_esp0 c\<rparr>)))"

text \<open>The handler of \<open>cte_init\<close>, and \<open>irq_handle\<close> for the frame at \<open>m_esp\<close>.\<close>

type_synonym 's trap_handler =
  "event \<Rightarrow> cpu_context \<Rightarrow> 's \<Rightarrow> (cpu_context option \<times> 's) result"

definition irq_handle :: "'s trap_handler option \<Rightarrow> x86 \<Rightarrow> 's \<Rightarrow> (x86 \<times> 's) result" where
  "irq_handle user_handler x st =
     (let tf = m_esp x; f = frame_at (mem x) tf; ctx = saved_context (cpu_prot x) tf f;
          irq = sint (tf_irq f);
          x1 = (if T_IRQ0 + 0 \<le> irq \<and> irq < T_IRQ0 + 32 then x\<lparr>eois := eois x + 1\<rparr> else x);
          ev = trap_event (cr2 x) f
      in case user_handler of
           None \<Rightarrow> Inr (return_to ctx x1, st)
         | Some h \<Rightarrow> bindr (h ev ctx st) (\<lambda>(nxt, st').
             case nxt of None \<Rightarrow> Inl Halt | Some c \<Rightarrow> Inr (return_to c x1, st')))"

text \<open>\<open>yield\<close>, \<open>intr_read\<close> and \<open>intr_write\<close>: they halt the machine before \<open>cte_init\<close>.\<close>

definition trap_yield :: "'s trap_handler option \<Rightarrow> x86 \<Rightarrow> 's \<Rightarrow> (x86 \<times> 's) result" where
  "trap_yield user_handler x st =
     (if user_handler = None then Inl Halt
      else irq_handle user_handler (trap_entry 0x80 None (x\<lparr>m_eax := -1\<rparr>)) st)"

definition trap_intr_read :: "'s trap_handler option \<Rightarrow> x86 \<Rightarrow> bool result" where
  "trap_intr_read user_handler x =
     (if user_handler = None then Inl Halt else Inr (m_eflags x AND FL_IF \<noteq> 0))"

definition trap_intr_write :: "'s trap_handler option \<Rightarrow> bool \<Rightarrow> x86 \<Rightarrow> x86 result" where
  "trap_intr_write user_handler enable x =
     (if user_handler = None then Inl Halt
      else Inr (x\<lparr>m_eflags := (if enable then m_eflags x OR FL_IF else m_eflags x AND NOT FL_IF)\<rparr>))"

section \<open>The interrupt table\<close>

text \<open>The vectors of \<open>IRQS\<close>: number, whether user code may raise it, whether the processor pushes an error code.\<close>

definition IRQS :: "(nat \<times> bool \<times> bool) list" where
  "IRQS = [(0, False, False), (1, False, False), (2, False, False), (3, False, False),
     (4, False, False), (5, False, False), (6, False, False), (7, False, False),
     (8, False, True), (9, False, False), (10, False, True), (11, False, True),
     (12, False, True), (13, False, True), (14, False, True), (15, False, False),
     (16, False, False), (19, False, False), (31, False, False),
     (32, False, False), (33, False, False), (34, False, False), (35, False, False),
     (36, False, False), (37, False, False), (38, False, False), (39, False, False),
     (40, False, False), (41, False, False), (42, False, False), (43, False, False),
     (44, False, False), (45, False, False), (46, False, False), (47, False, False),
     (128, True, False)]"

definition STS_TG32 :: "4 word" where "STS_TG32 = 0xF"
definition NR_IRQ :: nat where "NR_IRQ = 256"

record gate_desc =
  off_15_0 :: u16
  gate_cs :: u16
  gate_args :: "5 word"
  gate_rsv1 :: "3 word"
  gate_type :: "4 word"
  gate_s :: "1 word"
  gate_dpl :: "2 word"
  gate_p :: "1 word"
  off_31_16 :: u16

definition GATE :: "4 word \<Rightarrow> u32 \<Rightarrow> u32 \<Rightarrow> u32 \<Rightarrow> gate_desc" where
  "GATE ty sel ent dpl =
     \<lparr>off_15_0 = ucast (ent AND 0xFFFF), gate_cs = ucast sel, gate_args = 0, gate_rsv1 = 0,
      gate_type = ty, gate_s = 0, gate_dpl = ucast dpl, gate_p = 1,
      off_31_16 = ucast (drop_bit 16 ent)\<rparr>"

text \<open>
  \<open>cte_init\<close>: every entry first goes to \<open>irqall\<close>, then the listed vectors get their own stub
  (\<open>irqs i\<close> is the address of \<open>irq<i>\<close>). The registered handler is the second component.
\<close>

definition cte_init ::
  "nat \<Rightarrow> u32 \<Rightarrow> (nat \<Rightarrow> u32) \<Rightarrow> 's trap_handler \<Rightarrow> (gate_desc list \<times> 's trap_handler option) result" where
  "cte_init c irqall irqs handler =
     (if c \<noteq> 0 then Inl Halt
      else (let idt = map (\<lambda>i. GATE STS_TG32 (KSEL SEG_KCODE) irqall DPL_KERN) [0..<NR_IRQ];
                idt' = fold (\<lambda>(i, user, err) t.
                   t[i := GATE STS_TG32 (KSEL SEG_KCODE) (irqs i) (if user then DPL_USER else DPL_KERN)])
                   IRQS idt
            in Inr (idt', Some handler)))"

end
