(* ===== verification/Trap_Return.thy ===== *)
theory Trap_Return imports Trap begin

text \<open>
  What the trap code guarantees: a handler that returns the interrupted context makes the interrupt
  invisible to the code it interrupted, in kernel and in user mode, and a context made by
  \<open>kcontext\<close> starts its entry function with the argument and the return address in place.
\<close>

section \<open>Pushes and pops\<close>

lemma ld32_overlay_words:
  "i < length ws \<Longrightarrow> ld32 (overlay m a (words32 ws)) (a + 4 * i) = ws ! i"
proof (induction ws arbitrary: m a i)
  case (Cons w ws)
  show ?case
  proof (cases i)
    case 0
    have "overlay m a (words32 (w # ws)) = overlay (st32 m a w) (a + 4) (words32 ws)"
      by (simp add: st32_def overlay_append)
    with 0 show ?thesis by (simp add: ld32_overlay)
  next
    case (Suc j)
    have "overlay m a (words32 (w # ws)) = overlay (st32 m a w) (a + 4) (words32 ws)"
      by (simp add: st32_def overlay_append)
    with Suc Cons.IH [of j "st32 m a w" "a + 4"] Cons.prems show ?thesis by (simp add: add.assoc)
  qed
qed simp

lemma unat_minus: "k \<le> unat e \<Longrightarrow> unat (e - word_of_nat k :: u32) = unat e - k"
  by (metis le_unat_uoi unat_sub word_le_nat_alt)

lemma pushes_simps [simp]:
  "pushes [] x = x" "pushes (w # ws) x = pushes ws (push32 w x)"
  "pushes ws (pushes vs x) = pushes (vs @ ws) x"
  by (simp_all add: pushes_def)

lemma pushes_eq:
  assumes "4 * length ws \<le> unat (m_esp x)"
  shows "pushes ws x = x\<lparr>m_esp := m_esp x - word_of_nat (4 * length ws),
     mem := overlay (mem x) (unat (m_esp x) - 4 * length ws) (words32 (rev ws))\<rparr>"
  using assms
proof (induction ws arbitrary: x)
  case (Cons w ws)
  let ?x = "push32 w x" and ?n = "4 * length ws"
  have e4: "unat (m_esp x - 4) = unat (m_esp x) - 4" using unat_minus [of 4 "m_esp x"] Cons.prems by simp
  have "pushes (w # ws) x = ?x\<lparr>m_esp := m_esp ?x - word_of_nat ?n,
     mem := overlay (mem ?x) (unat (m_esp ?x) - ?n) (words32 (rev ws))\<rparr>"
    using Cons by (simp add: push32_def e4)
  also have "overlay (mem ?x) (unat (m_esp ?x) - ?n) (words32 (rev ws)) =
      overlay (mem x) (unat (m_esp x) - 4 * length (w # ws)) (words32 (rev (w # ws)))"
    using Cons.prems
    by (simp add: push32_def e4 st32_def words32_def overlay_append overlay_commute
        length_words32 [unfolded words32_def])
  finally show ?case by (simp add: push32_def algebra_simps)
qed simp

lemma push32_fields [simp]:
  "m_cs (push32 w x) = m_cs x" "m_ss (push32 w x) = m_ss x" "m_eax (push32 w x) = m_eax x"
  "m_ecx (push32 w x) = m_ecx x" "m_edx (push32 w x) = m_edx x" "m_ebx (push32 w x) = m_ebx x"
  "m_ebp (push32 w x) = m_ebp x" "m_esi (push32 w x) = m_esi x" "m_edi (push32 w x) = m_edi x"
  "m_ds (push32 w x) = m_ds x" "m_es (push32 w x) = m_es x" "m_eflags (push32 w x) = m_eflags x"
  by (simp_all add: push32_def)

lemma push32_update [simp]:
  "push32 w (x\<lparr>m_cs := v\<rparr>) = (push32 w x)\<lparr>m_cs := v\<rparr>"
  "push32 w (x\<lparr>m_eflags := v\<rparr>) = (push32 w x)\<lparr>m_eflags := v\<rparr>"
  by (cases x, simp add: push32_def)+

lemma pushes_update [simp]:
  "pushes ws (x\<lparr>m_cs := v\<rparr>) = (pushes ws x)\<lparr>m_cs := v\<rparr>"
  "pushes ws (x\<lparr>m_eflags := v\<rparr>) = (pushes ws x)\<lparr>m_eflags := v\<rparr>"
  by (induction ws arbitrary: x) simp_all

text \<open>What the last instructions of \<open>irq_handle\<close> load, from consecutive words of the stack.\<close>

lemma popal_eq:
  "popal x = x\<lparr>m_esp := m_esp x + 32, m_edi := ld32 (mem x) (unat (m_esp x)),
     m_esi := ld32 (mem x) (unat (m_esp x + 4)), m_ebp := ld32 (mem x) (unat (m_esp x + 8)),
     m_ebx := ld32 (mem x) (unat (m_esp x + 16)), m_edx := ld32 (mem x) (unat (m_esp x + 20)),
     m_ecx := ld32 (mem x) (unat (m_esp x + 24)), m_eax := ld32 (mem x) (unat (m_esp x + 28))\<rparr>"
  unfolding popal_def pop32_def by (simp add: Let_def add.commute)

lemma iret_eq:
  "iret x = (let cs = ld32 (mem x) (unat (m_esp x + 4));
      y = x\<lparr>m_eip := ld32 (mem x) (unat (m_esp x)), m_cs := cs,
            m_eflags := ld32 (mem x) (unat (m_esp x + 8))\<rparr>
    in if cs AND DPL_USER \<noteq> 0
       then y\<lparr>m_esp := ld32 (mem x) (unat (m_esp x + 12)), m_ss := ld32 (mem x) (unat (m_esp x + 16))\<rparr>
       else y\<lparr>m_esp := m_esp x + 12\<rparr>)"
  by (cases x) (simp add: iret_def pop32_def Let_def add.commute)

lemma iret_path_eq:
  fixes x
  defines "w \<equiv> \<lambda>i. ld32 (mem x) (unat (m_esp x) + 4 * i)"
  assumes fit: "unat (m_esp x) + (if w 11 AND DPL_USER \<noteq> 0 then 60 else 52) \<le> 2 ^ 32"
  shows "iret_path x = (let y = x\<lparr>m_edi := w 0, m_esi := w 1, m_ebp := w 2, m_ebx := w 4, m_edx := w 5,
      m_ecx := w 6, m_eax := w 7, m_es := w 8, m_ds := w 9, m_eip := w 10, m_cs := w 11,
      m_eflags := w 12\<rparr>
    in if w 11 AND DPL_USER \<noteq> 0 then y\<lparr>m_esp := w 13, m_ss := w 14\<rparr> else y\<lparr>m_esp := m_esp x + 52\<rparr>)"
proof -
  have un: "ld32 (mem x) (unat (m_esp x + word_of_nat (4 * i))) = w i"
    if "i < (if w 11 AND DPL_USER \<noteq> 0 then 15 else 13)" for i
    using fit that by (simp add: w_def unat_word_ariths unat_of_nat split: if_splits)
  have W: "ld32 (mem x) (unat (m_esp x + 4)) = w 1" "ld32 (mem x) (unat (m_esp x + 8)) = w 2"
    "ld32 (mem x) (unat (m_esp x + 16)) = w 4" "ld32 (mem x) (unat (m_esp x + 20)) = w 5"
    "ld32 (mem x) (unat (m_esp x + 24)) = w 6" "ld32 (mem x) (unat (m_esp x + 28)) = w 7"
    "ld32 (mem x) (unat (m_esp x + 32)) = w 8" "ld32 (mem x) (unat (m_esp x + 36)) = w 9"
    "ld32 (mem x) (unat (m_esp x + 40)) = w 10" "ld32 (mem x) (unat (m_esp x + 44)) = w 11"
    "ld32 (mem x) (unat (m_esp x + 48)) = w 12"
    using un [of 1] un [of 2] un [of 4] un [of 5] un [of 6] un [of 7] un [of 8] un [of 9] un [of 10]
      un [of 11] un [of 12] by simp_all
  have WU: "w 11 AND DPL_USER \<noteq> 0 \<Longrightarrow> ld32 (mem x) (unat (m_esp x + 52)) = w 13"
    "w 11 AND DPL_USER \<noteq> 0 \<Longrightarrow> ld32 (mem x) (unat (m_esp x + 56)) = w 14"
    using un [of 13] un [of 14] by simp_all
  have W0: "ld32 (mem x) (unat (m_esp x)) = w 0" by (simp add: w_def)
  have esp: "m_esp (popal x) = m_esp x + 32" "mem (popal x) = mem x" by (simp_all add: popal_eq)
  have "iret_path x = iret ((popal x)\<lparr>m_esp := m_esp x + 40, m_es := w 8, m_ds := w 9\<rparr>)"
    by (simp add: iret_path_def Let_def pop32_def esp W add.assoc)
  then show ?thesis
    by (simp add: iret_eq popal_eq Let_def W W0 WU add.assoc)
qed

section \<open>The frame\<close>

definition from_user :: "x86 \<Rightarrow> bool" where
  "from_user x \<longleftrightarrow> m_cs x AND DPL_USER \<noteq> 0"

text \<open>The stack the frame is pushed on, and the words of the frame from the lowest address up.\<close>

definition trap_base :: "x86 \<Rightarrow> u32" where
  "trap_base x = (if from_user x then tss_esp0 x else m_esp x)"

definition frame_words :: "u32 \<Rightarrow> u32 option \<Rightarrow> u32 \<Rightarrow> x86 \<Rightarrow> u32 list" where
  "frame_words irq err e x =
     [m_edi x, m_esi x, m_ebp x, e, m_ebx x, m_edx x, m_ecx x, m_eax x, m_es x, m_ds x, irq,
      (case err of None \<Rightarrow> 0 | Some c \<Rightarrow> c), m_eip x, m_cs x, m_eflags x]
     @ (if from_user x then [m_esp x, m_ss x] else [])"

lemma trap_entry_pushes:
  "\<exists>e. trap_entry irq err x =
     (pushes (rev (frame_words irq err e x))
       (if from_user x then x\<lparr>m_ss := tss_ss0 x, m_esp := tss_esp0 x\<rparr> else x))
     \<lparr>m_cs := KSEL SEG_KCODE, m_eflags := m_eflags x AND NOT FL_IF, m_ds := KSEL SEG_KDATA,
      m_es := KSEL SEG_KDATA\<rparr>"
  unfolding trap_entry_def trap_stub_def irq_stub_def cpu_interrupt_def frame_words_def from_user_def Let_def
  by (cases err; cases "from_user x"; simp add: from_user_def; rule exI; rule refl)

text \<open>The registers of the interrupted code.\<close>

definition regs_of :: "x86 \<Rightarrow> u32 list" where
  "regs_of x = [m_eax x, m_ebx x, m_ecx x, m_edx x, m_esi x, m_edi x, m_ebp x, m_esp x, m_eip x,
     m_eflags x, m_cs x, m_ds x, m_es x, m_ss x]"

definition interrupted :: "x86 \<Rightarrow> cpu_context" where
  "interrupted x = \<lparr>c_prot = cpu_prot x, c_eax = m_eax x, c_ebx = m_ebx x, c_ecx = m_ecx x,
     c_edx = m_edx x, c_esi = m_esi x, c_edi = m_edi x, c_ebp = m_ebp x,
     c_esp3 = (if from_user x then m_esp x else 0), c_eip = m_eip x, c_eflags = m_eflags x,
     c_cs = m_cs x, c_ds = m_ds x, c_es = m_es x, c_ss = (if from_user x then m_ss x else 0),
     c_ss0 = KSEL SEG_KDATA, c_esp0 = trap_base x\<rparr>"

lemma length_frame_words: "length (frame_words irq err e x) = (if from_user x then 17 else 15)"
  by (simp add: frame_words_def)

lemma trap_entry_frame:
  fixes irq err a
  assumes room: "68 \<le> unat (trap_base x)"
  defines "y \<equiv> trap_entry irq err x"
  shows "saved_context (cpu_prot y) (m_esp y) (frame_at (mem y) (m_esp y)) = interrupted x"
    and "tf_irq (frame_at (mem y) (m_esp y)) = irq"
    and "a \<ge> unat (trap_base x) \<Longrightarrow> mem y a = mem x a"
    and "m_ss y = (if from_user x then tss_ss0 x else m_ss x)"
proof -
  obtain e where y: "y = (pushes (rev (frame_words irq err e x))
       (if from_user x then x\<lparr>m_ss := tss_ss0 x, m_esp := tss_esp0 x\<rparr> else x))
     \<lparr>m_cs := KSEL SEG_KCODE, m_eflags := m_eflags x AND NOT FL_IF, m_ds := KSEL SEG_KDATA,
      m_es := KSEL SEG_KDATA\<rparr>"
    using trap_entry_pushes [of irq err x] unfolding y_def by blast
  let ?fw = "frame_words irq err e x" and ?n = "if from_user x then 17 else 15 :: nat"
  let ?x0 = "if from_user x then x\<lparr>m_ss := tss_ss0 x, m_esp := tss_esp0 x\<rparr> else x"
  have x0: "m_esp ?x0 = trap_base x" "mem ?x0 = mem x" "cpu_prot ?x0 = cpu_prot x"
    "m_ss ?x0 = (if from_user x then tss_ss0 x else m_ss x)"
    by (simp_all add: trap_base_def)
  have "4 * length (rev ?fw) \<le> unat (m_esp ?x0)"
    unfolding x0 using room by (simp add: length_frame_words)
  note pushed = pushes_eq [OF this, unfolded x0 length_rev length_frame_words rev_rev_ident]
  have esp: "m_esp y = trap_base x - word_of_nat (4 * ?n)"
    and mem: "mem y = overlay (mem x) (unat (trap_base x) - 4 * ?n) (words32 ?fw)"
    and rest: "cpu_prot y = cpu_prot x" "m_ss y = (if from_user x then tss_ss0 x else m_ss x)"
    unfolding y pushed using x0 by simp_all
  have un: "unat (m_esp y) = unat (trap_base x) - 4 * ?n"
    unfolding esp by (rule unat_minus) (use room in simp)
  have w: "ld32 (mem y) (unat (m_esp y) + 4 * i) = ?fw ! i" if "i < ?n" for i
    unfolding mem un by (rule ld32_overlay_words) (use that in \<open>simp add: length_frame_words\<close>)
  show "tf_irq (frame_at (mem y) (m_esp y)) = irq"
    using w [of 10] by (simp add: frame_at_def Let_def frame_words_def)
  show "a \<ge> unat (trap_base x) \<Longrightarrow> mem y a = mem x a"
    unfolding mem using room by (intro overlay_outside) (auto simp: length_frame_words)
  show "m_ss y = (if from_user x then tss_ss0 x else m_ss x)" by (fact rest)
  note W = w [of 0] w [of 1] w [of 2] w [of 4] w [of 5] w [of 6] w [of 7] w [of 8] w [of 9] w [of 12]
    w [of 13] w [of 14]
  show "saved_context (cpu_prot y) (m_esp y) (frame_at (mem y) (m_esp y)) = interrupted x"
  proof (cases "from_user x")
    case True
    then show ?thesis
      using W w [of 15] w [of 16] rest
      by (simp add: saved_context_def frame_at_def Let_def interrupted_def frame_words_def esp TF_SIZE_def
          from_user_def [symmetric])
  next
    case False
    then show ?thesis
      using W rest
      by (simp add: saved_context_def frame_at_def Let_def interrupted_def frame_words_def esp TF_SIZE_def
          from_user_def [symmetric])
  qed
qed

text \<open>The registers of the machine after a return to a context.\<close>

definition context_regs :: "cpu_context \<Rightarrow> u32 \<Rightarrow> u32 list" where
  "context_regs c ss =
     (let user = c_cs c AND DPL_USER \<noteq> 0
      in [c_eax c, c_ebx c, c_ecx c, c_edx c, c_esi c, c_edi c, c_ebp c,
          (if user then c_esp3 c else c_esp0 c), c_eip c, c_eflags c, c_cs c, c_ds c, c_es c,
          (if user then c_ss c else ss)])"

lemma return_to_regs:
  assumes room: "60 \<le> unat (c_esp0 c)"
  shows "regs_of (return_to c x) = context_regs c (m_ss x)"
    and "a \<ge> unat (c_esp0 c) \<Longrightarrow> mem (return_to c x) a = mem x a"
proof -
  define user where "user \<longleftrightarrow> c_cs c AND DPL_USER \<noteq> 0"
  define ws where "ws = (if user then [c_ss c, c_esp3 c] else []) @ kernel_regs c"
  let ?p = "x\<lparr>cpu_prot := c_prot c\<rparr>"
  define x1 where "x1 = (if user
     then (if c_prot c \<noteq> 0 then ?p\<lparr>cr3 := ld32 (mem ?p) (unat (c_prot c) + 12)\<rparr> else ?p)
            \<lparr>tss_ss0 := c_ss0 c, tss_esp0 := c_esp0 c, m_esp := c_esp0 c\<rparr>
     else ?p\<lparr>m_esp := c_esp0 c\<rparr>)"
  have ret: "return_to c x = iret_path (pushes ws x1)"
    unfolding return_to_def Let_def ws_def x1_def user_def by (cases "c_cs c AND DPL_USER \<noteq> 0") simp_all
  have x1: "m_esp x1 = c_esp0 c" "mem x1 = mem x" "m_ss x1 = m_ss x"
    by (simp_all add: x1_def)
  let ?y = "pushes ws x1"
  have len: "length ws = (if user then 15 else 13)" by (simp add: ws_def kernel_regs_def)
  have y: "m_esp ?y = c_esp0 c - word_of_nat (4 * length ws)"
    "mem ?y = overlay (mem x) (unat (c_esp0 c) - 4 * length ws) (words32 (rev ws))" "m_ss ?y = m_ss x"
    using room x1 len by (subst pushes_eq; simp)+
  have un: "unat (m_esp ?y) = unat (c_esp0 c) - 4 * length ws"
    unfolding y(1) by (rule unat_minus) (use room len in simp)
  have w: "ld32 (mem ?y) (unat (m_esp ?y) + 4 * i) = rev ws ! i" if "i < length ws" for i
    unfolding y(2) un by (rule ld32_overlay_words) (use that in simp)
  note W = w [of 0] w [of 1] w [of 2] w [of 4] w [of 5] w [of 6] w [of 7] w [of 8] w [of 9] w [of 10]
    w [of 11] w [of 12]
  have cs: "ld32 (mem ?y) (unat (m_esp ?y) + 4 * 11) = c_cs c"
    using w [of 11] len by (simp add: ws_def kernel_regs_def)
  have fit: "unat (m_esp ?y) + (if ld32 (mem ?y) (unat (m_esp ?y) + 4 * 11) AND DPL_USER \<noteq> 0
      then 60 else 52) \<le> 2 ^ 32"
    unfolding cs unfolding un using room len unat_u32_less [of "c_esp0 c"] by (simp add: user_def)
  show "regs_of (return_to c x) = context_regs c (m_ss x)"
  proof (cases user)
    case True
    then show ?thesis unfolding ret iret_path_eq [OF fit]
      using W w [of 13] w [of 14] len
      by (simp add: regs_of_def context_regs_def Let_def ws_def kernel_regs_def user_def [symmetric])
  next
    case False
    then show ?thesis unfolding ret iret_path_eq [OF fit]
      using W len y
      by (simp add: regs_of_def context_regs_def Let_def ws_def kernel_regs_def user_def [symmetric])
  qed
  show "a \<ge> unat (c_esp0 c) \<Longrightarrow> mem (return_to c x) a = mem x a"
    unfolding ret iret_path_eq [OF fit] using y(2) len room
    by (simp add: Let_def)
qed

section \<open>Transparency\<close>

text \<open>
  C12. An interrupt whose handler returns the interrupted context is invisible: after
  \<open>irq_handle\<close> every register, the stack pointer and the flags included, has the value it had when
  the interrupt came, in kernel and in user mode, and no byte at or above the stack pointer of the
  kernel stack has changed.
\<close>

lemma trap_is_transparent:
  assumes room: "68 \<le> unat (trap_base x)"
    and handler: "h (trap_event (cr2 y) (frame_at (mem y) (m_esp y))) (interrupted x) st
       = Inr (Some (interrupted x), st')"
    and y: "y = trap_entry irq err x"
  shows "\<exists>z. irq_handle (Some h) y st = Inr (z, st') \<and> regs_of z = regs_of x
     \<and> (\<forall>a \<ge> unat (trap_base x). mem z a = mem x a)"
proof -
  note fr = trap_entry_frame [where irq = irq and err = err, OF room, folded y]
  have esp0: "c_esp0 (interrupted x) = trap_base x" by (simp add: interrupted_def)
  have r60: "60 \<le> unat (c_esp0 (interrupted x))" using room by (simp add: esp0)
  obtain w where w: "irq_handle (Some h) y st = Inr (return_to (interrupted x) w, st')"
    and mw: "mem w = mem y" "m_ss w = m_ss y"
    using fr(1) handler by (simp add: irq_handle_def Let_def)
  have "regs_of (return_to (interrupted x) w) = context_regs (interrupted x) (m_ss y)"
    using return_to_regs(1) [OF r60, of w] mw by simp
  also have "\<dots> = regs_of x"
    using fr(4) by (simp add: context_regs_def regs_of_def interrupted_def trap_base_def Let_def
        from_user_def [symmetric])
  finally have "regs_of (return_to (interrupted x) w) = regs_of x" .
  moreover have "mem (return_to (interrupted x) w) a = mem x a" if "a \<ge> unat (trap_base x)" for a
    using return_to_regs(2) [OF r60, of a w] fr(3) [OF that] that mw by (simp add: esp0)
  ultimately show ?thesis using w by blast
qed

definition idle_machine :: "u32 \<Rightarrow> x86" where
  "idle_machine sel = \<lparr>m_eax = 1, m_ebx = 2, m_ecx = 3, m_edx = 4, m_esi = 5, m_edi = 6, m_ebp = 7,
     m_esp = 0x9000, m_eip = 0x100000, m_eflags = FL_IF, m_cs = sel, m_ds = 0x10, m_es = 0x10,
     m_ss = 0x10, cr2 = 0, cr3 = 0, tss_ss0 = 0x10, tss_esp0 = 0x8000, cpu_prot = 0, eois = 0,
     mem = \<lambda>_. 0\<rparr>"

lemma trap_is_transparent_witness:
  "\<exists>z. irq_handle (Some (\<lambda>ev c n. Inr (Some c, n + 1))) (trap_entry 32 None (idle_machine (USEL SEG_UCODE)))
         (0 :: nat) = Inr (z, 1) \<and> regs_of z = regs_of (idle_machine (USEL SEG_UCODE))"
  using trap_is_transparent [where x = "idle_machine (USEL SEG_UCODE)" and irq = "32" and err = None
      and h = "\<lambda>ev c n. Inr (Some c, n + 1)" and st = "0 :: nat" and st' = 1,
      OF _ _ refl]
  by (auto simp: trap_base_def from_user_def idle_machine_def USEL_def SEG_UCODE_def DPL_USER_def)

section \<open>Contexts made by the kernel\<close>

lemma context_at_put:
  "context_at (put_context m p c) p = c"
proof -
  have w: "ld32 (put_context m p c) (unat p + 4 * i) = context_words c ! i" if "i < 17" for i
    unfolding put_context_def by (rule ld32_overlay_words) (use that in \<open>simp add: context_words_def\<close>)
  show ?thesis
    using w [of 0] w [of 1] w [of 2] w [of 3] w [of 4] w [of 5] w [of 6] w [of 7] w [of 8] w [of 9]
      w [of 10] w [of 11] w [of 12] w [of 13] w [of 14] w [of 15] w [of 16]
    by (simp add: context_at_def Let_def context_words_def)
qed

text \<open>
  What \<open>kcontext\<close> leaves at the bottom of the stack: a context with cleared registers whose stack
  pointer is 8 below the end of the stack, where the return address and the argument are.
\<close>

definition fresh_context :: "u32 \<Rightarrow> u32 \<Rightarrow> cpu_context" where
  "fresh_context ent sp = \<lparr>c_prot = 0, c_eax = 0, c_ebx = 0, c_ecx = 0, c_edx = 0, c_esi = 0,
    c_edi = 0, c_ebp = 0, c_esp3 = 0, c_eip = ent, c_eflags = FL_IF, c_cs = KSEL SEG_KCODE,
    c_ds = KSEL SEG_KDATA, c_es = KSEL SEG_KDATA, c_ss = KSEL SEG_KDATA, c_ss0 = 0, c_esp0 = sp\<rparr>"

lemma kcontext_stores:
  "kcontext por start stack_end ent arg f = (start,
     st32 (st32 (st32 (put_context f start (fresh_context ent stack_end)) (unat start + 64)
       (stack_end - 8)) (unat (stack_end - 8)) por) (unat (stack_end - 8) + 4) arg)"
proof -
  have "c_esp0 (fresh_context ent stack_end) = stack_end" by (simp add: fresh_context_def)
  then show ?thesis
    unfolding kcontext_def Let_def context_at_put fresh_context_def [symmetric] by simp
qed

lemma kcontext_builds:
  assumes room: "unat start + 136 \<le> unat stack_end"
    and kc: "kcontext por start stack_end ent arg f = (p, m)"
  shows "context_at m p = fresh_context ent (stack_end - 8)"
    and "ld32 m (unat (stack_end - 8)) = por" and "ld32 m (unat (stack_end - 8) + 4) = arg"
proof -
  let ?c = "fresh_context ent stack_end" and ?sp = "stack_end - 8"
  let ?m1 = "put_context f start ?c"
  have m: "m = st32 (st32 (st32 ?m1 (unat start + 64) ?sp) (unat ?sp) por) (unat ?sp + 4) arg"
    and p: "p = start" using kc unfolding kcontext_stores by auto
  have un: "unat ?sp = unat stack_end - 8" using unat_minus [of 8 stack_end] room by simp
  have w: "ld32 m (unat start + 4 * i) = context_words ?c ! i" if "i < 16" for i
  proof -
    have "ld32 ?m1 (unat start + 4 * i) = context_words ?c ! i"
      unfolding put_context_def by (rule ld32_overlay_words) (use that in \<open>simp add: context_words_def\<close>)
    moreover have "unat start + 4 * i + 4 \<le> unat ?sp" "unat start + 4 * i + 4 \<le> unat start + 64"
      using room un that by linarith+
    ultimately show ?thesis unfolding m by simp
  qed
  have "unat start + 64 + 4 \<le> unat ?sp" using room un by linarith
  then have w16: "ld32 m (unat start + 64) = ?sp" unfolding m by simp
  show "context_at m p = fresh_context ent ?sp"
    using w [of 0] w [of 1] w [of 2] w [of 3] w [of 4] w [of 5] w [of 6] w [of 7] w [of 8] w [of 9]
      w [of 10] w [of 11] w [of 12] w [of 13] w [of 14] w [of 15] w16
    by (simp add: context_at_def Let_def context_words_def p fresh_context_def)
  show "ld32 m (unat ?sp) = por" "ld32 m (unat ?sp + 4) = arg" by (simp_all add: m)
qed

text \<open>
  C13. \<open>kcontext\<close> builds at the bottom of a stack what starts a thread: returning to it continues at
  the entry function, with interrupts enabled and the kernel's segments, the stack pointer 8 below
  the end of the stack, the return address \<open>panic_on_return\<close> there and the argument above it.
\<close>

lemma kcontext_starts:
  assumes room: "unat start + 136 \<le> unat stack_end"
    and kc: "kcontext por start stack_end ent arg (mem x) = (p, m)"
    and z: "z = return_to (context_at m p) (x\<lparr>mem := m\<rparr>)"
  shows "p = start \<and> m_eip z = ent \<and> m_eflags z = FL_IF \<and> m_cs z = KSEL SEG_KCODE
     \<and> m_ds z = KSEL SEG_KDATA \<and> m_es z = KSEL SEG_KDATA \<and> m_esp z = stack_end - 8
     \<and> ld32 (mem z) (unat (m_esp z)) = por \<and> ld32 (mem z) (unat (m_esp z) + 4) = arg"
proof -
  let ?sp = "stack_end - 8"
  note built = kcontext_builds [OF room kc]
  have sp: "c_esp0 (context_at m p) = ?sp" by (simp add: built fresh_context_def)
  have r60: "60 \<le> unat (c_esp0 (context_at m p))"
    using unat_minus [of 8 stack_end] room by (simp add: sp)
  have kern: "KSEL SEG_KCODE AND DPL_USER = 0"
    by (simp add: KSEL_def SEG_KCODE_def DPL_KERN_def DPL_USER_def)
  have "regs_of z = context_regs (context_at m p) (m_ss x)"
    using return_to_regs(1) [OF r60, of "x\<lparr>mem := m\<rparr>"] by (simp add: z)
  then have fields: "m_eip z = ent" "m_eflags z = FL_IF" "m_cs z = KSEL SEG_KCODE" "m_esp z = ?sp"
    "m_ds z = KSEL SEG_KDATA" "m_es z = KSEL SEG_KDATA"
    by (simp_all add: regs_of_def context_regs_def built fresh_context_def kern Let_def)
  have above: "ld32 (mem z) a = ld32 m a" if "a \<ge> unat ?sp" for a
    using return_to_regs(2) [OF r60, of _ "x\<lparr>mem := m\<rparr>"] that
    by (intro ld32_cong) (simp add: z sp)
  have "p = start" using kc unfolding kcontext_stores by simp
  then show ?thesis using fields built(2,3) by (simp add: above)
qed

lemma kcontext_starts_witness:
  "m_eip (return_to (context_at (snd (kcontext 0x1234 0x4000 0x5000 0x100000 42 (\<lambda>_. 0))) 0x4000)
       ((idle_machine (KSEL SEG_KCODE))\<lparr>mem := snd (kcontext 0x1234 0x4000 0x5000 0x100000 42 (\<lambda>_. 0))\<rparr>))
     = 0x100000"
proof -
  obtain p m where kc: "kcontext 0x1234 0x4000 0x5000 0x100000 42 (mem (idle_machine (KSEL SEG_KCODE))) = (p, m)"
    by (cases "kcontext 0x1234 0x4000 0x5000 0x100000 42 (mem (idle_machine (KSEL SEG_KCODE)))")
  have "p = 0x4000 \<and> m_eip (return_to (context_at m p) ((idle_machine (KSEL SEG_KCODE))\<lparr>mem := m\<rparr>)) = 0x100000"
    using kcontext_starts [OF _ kc refl] by auto
  with kc show ?thesis by (auto simp: idle_machine_def)
qed

text \<open>
  A context saved at one interrupt and returned to at a later one, from whatever state the machine
  is in then, gives the thread its registers back: this is what makes a context switch work.
\<close>

lemma resume_later:
  assumes "60 \<le> unat (trap_base x)" and "\<not> from_user x \<longrightarrow> m_ss z = m_ss x"
  shows "regs_of (return_to (interrupted x) z) = regs_of x"
proof -
  have "60 \<le> unat (c_esp0 (interrupted x))" using assms(1) by (simp add: interrupted_def)
  from return_to_regs(1) [OF this, of z] show ?thesis
    using assms(2)
    by (simp add: context_regs_def regs_of_def interrupted_def trap_base_def Let_def from_user_def [symmetric])
qed

section \<open>The interrupt table\<close>

definition gate_target :: "gate_desc \<Rightarrow> u32" where
  "gate_target g = ucast (off_15_0 g) OR push_bit 16 (ucast (off_31_16 g))"

lemma gate_target_GATE [simp]: "gate_target (GATE ty sel ent dpl) = ent"
proof (rule bit_word_eqI)
  fix n assume n: "n < LENGTH(32)"
  have "(0xFFFF :: u32) = mask 16" by (simp add: mask_eq_exp_minus_1)
  then have lo: "bit (ent AND 0xFFFF) k = (bit ent k \<and> k < 16)" for k
    by (metis and.commute bit_and_iff bit_imp_le_length bit_mask_iff possible_bit_word)
  show "bit (gate_target (GATE ty sel ent dpl)) n = bit ent n"
    using n by (auto simp: gate_target_def GATE_def bit_or_iff bit_ucast_iff bit_push_bit_iff bit_drop_bit_eq lo
        dest: bit_imp_le_length)
qed

text \<open>User code can raise vector 128 only; every vector reaches a stub.\<close>

lemma user_gates:
  assumes "cte_init 0 irqall irqs h = Inr (idt, r)"
  shows "\<forall>i < NR_IRQ. (gate_dpl (idt ! i) = 3 \<longleftrightarrow> i = 128) \<and> gate_p (idt ! i) = 1
     \<and> gate_target (idt ! i) = (if i \<in> fst ` set IRQS then irqs i else irqall)"
proof -
  have upd: "fold (\<lambda>(i, user, err) t. t[i := g i user]) es t ! i =
      (case rev (filter (\<lambda>e. fst e = i) es) of [] \<Rightarrow> t ! i | e # _ \<Rightarrow> g i (fst (snd e)))"
    if "i < length t" for g :: "nat \<Rightarrow> bool \<Rightarrow> gate_desc" and es :: "(nat \<times> bool \<times> bool) list" and t i
    using that
  proof (induction es arbitrary: t)
    case (Cons e es)
    then show ?case by (cases e; cases "rev (filter (\<lambda>e. fst e = i) es)") auto
  qed simp
  let ?g = "\<lambda>i user. GATE STS_TG32 (KSEL SEG_KCODE) (irqs i) (if user then DPL_USER else DPL_KERN)"
  let ?t = "map (\<lambda>i. GATE STS_TG32 (KSEL SEG_KCODE) irqall DPL_KERN) [0..<NR_IRQ]"
  have idt: "idt = fold (\<lambda>(i, user, err) t. t[i := ?g i user]) IRQS ?t"
    using assms by (simp add: cte_init_def Let_def)
  have val: "idt ! i = (case rev (filter (\<lambda>e. fst e = i) IRQS) of
      [] \<Rightarrow> GATE STS_TG32 (KSEL SEG_KCODE) irqall DPL_KERN | e # _ \<Rightarrow> ?g i (fst (snd e)))"
    if "i < NR_IRQ" for i
    unfolding idt using that by (subst upd) (simp_all add: nth_append split: list.split)
  have dpl: "gate_dpl (GATE t s e DPL_KERN) = 0" "gate_dpl (GATE t s e DPL_USER) = 3"
    "gate_p (GATE t s e d) = 1" for t s e d
    by (simp_all add: GATE_def DPL_KERN_def DPL_USER_def)
  show ?thesis
  proof (intro allI impI)
    fix i assume i: "i < NR_IRQ"
    show "(gate_dpl (idt ! i) = 3 \<longleftrightarrow> i = 128) \<and> gate_p (idt ! i) = 1
       \<and> gate_target (idt ! i) = (if i \<in> fst ` set IRQS then irqs i else irqall)"
    proof (cases "i \<in> fst ` set IRQS")
      case True
      then show ?thesis unfolding val [OF i] by (auto simp: IRQS_def dpl)
    next
      case False
      then have "filter (\<lambda>e. fst e = i) IRQS = []" by (auto simp: filter_empty_conv)
      moreover have "128 \<in> fst ` set IRQS" by (simp add: IRQS_def)
      ultimately show ?thesis unfolding val [OF i] using False by (auto simp: dpl)
    qed
  qed
qed

end
