(* ===== verification/Kernel_Switch.thy ===== *)
theory Kernel_Switch imports Kmt_Inv Trap_Return begin

text \<open>
  The machine layer, the trap handler and the scheduler together: \<open>os_trap\<close> with the two callbacks
  of \<open>kmt_init\<close> is the handler that \<open>irq_handle\<close> calls, and the contexts the scheduler keeps are those
  of the machine. A thread that is interrupted, put aside and chosen again later, on whatever CPU,
  continues with the registers it had.
\<close>

section \<open>The handler of the kernel\<close>

type_synonym kernel = "(cpu_context, cpu_context kmt_state) os_state \<times> cpu_state \<times> cpu_context kmt_state"

text \<open>\<open>_cte_init(os->trap)\<close>: the handler of CPU \<open>c\<close>.\<close>

definition kernel_handler :: "nat \<Rightarrow> kernel trap_handler" where
  "kernel_handler c = (\<lambda>ev ctx (os, cs, s).
     bindr (os_trap c ev ctx os (cs, s)) (\<lambda>(ret, os', cs', s'). Inr (ret, os', cs', s')))"

definition save_callback :: "nat \<Rightarrow> ('ctx, 'ctx kmt_state) callback" where
  "save_callback c = \<lparr>cb_handler = save_handler c, cb_event = EVENT_NULL, cb_seq = INT_MIN\<rparr>"

definition switch_callback :: "nat \<Rightarrow> ('ctx, 'ctx kmt_state) callback" where
  "switch_callback c = \<lparr>cb_handler = switch_handler c, cb_event = EVENT_NULL, cb_seq = INT_MAX\<rparr>"

text \<open>\<open>kmt_init\<close> registers the two callbacks, in this order, and clears the tables.\<close>

lemma kmt_init_registers:
  assumes "lock_free (lock_os os)" and "cli_ok (kcpu (kpmm s))" and "handlers os = []"
  shows "\<exists>cs. kmt_init c os s = Inr (os\<lparr>handlers := [save_callback c, switch_callback c]\<rparr>,
     kmt_clear (s\<lparr>lock_kmt := spin_init (lock_kmt s) ''kmt'', kpmm := (kpmm s)\<lparr>kcpu := cs\<rparr>\<rparr>)) \<and> cli_ok cs"
proof -
  have ok: "cli_ok (cli_refresh (kcpu (kpmm s)))" using assms(2) by (simp add: inv_intros)
  have "os_on_irq c INT_MIN EVENT_NULL (save_handler c) (kcpu (kpmm s), os)
      = Inr (cli_refresh (kcpu (kpmm s)), os\<lparr>handlers := [save_callback c]\<rparr>)"
    using assms by (simp add: on_irq_registered registered_def MAXCB_def save_callback_def)
  moreover have "os_on_irq c INT_MAX EVENT_NULL (switch_handler c)
        (cli_refresh (kcpu (kpmm s)), os\<lparr>handlers := [save_callback c]\<rparr>)
      = Inr (cli_refresh (cli_refresh (kcpu (kpmm s))), os\<lparr>handlers := [save_callback c, switch_callback c]\<rparr>)"
    using assms ok
    by (simp add: on_irq_registered registered_def MAXCB_def save_callback_def switch_callback_def
        INT_MIN_def INT_MAX_def)
  ultimately show ?thesis
    using ok by (auto simp: kmt_init_def Let_def intro!: exI inv_intros)
qed

text \<open>The callbacks that an event reaches are those two.\<close>

definition scheduling :: "nat \<Rightarrow> event \<Rightarrow> ('ctx, 'ctx kmt_state) os_state \<Rightarrow> bool" where
  "scheduling c ev os \<longleftrightarrow> lock_free (lock_os os) \<and> ev_event ev \<noteq> EVENT_ERROR \<and>
     filter (relevant ev) (handlers os) = [save_callback c, switch_callback c]"

definition at_cpu :: "cpu_state \<Rightarrow> 'ctx kmt_state \<Rightarrow> 'ctx kmt_state" where
  "at_cpu cs s = s\<lparr>kpmm := (kpmm s)\<lparr>kcpu := cs\<rparr>\<rparr>"

lemma at_cpu_simps [simp]:
  "tasks (at_cpu cs s) = tasks s" "cnt_tasks (at_cpu cs s) = cnt_tasks s"
  "cputask (at_cpu cs s) = cputask s" "cputask_last (at_cpu cs s) = cputask_last s"
  "notdefault (at_cpu cs s) = notdefault s" "tstore (at_cpu cs s) = tstore s"
  "lock_kmt (at_cpu cs s) = lock_kmt s" "kcpu (kpmm (at_cpu cs s)) = cs"
  by (simp_all add: at_cpu_def)

lemma saved_kcpu [simp]: "kcpu (kpmm (saved c ctx s)) = cli_refresh (kcpu (kpmm s))"
  by (simp add: saved_def kmt_refresh_def)

lemma switched_kcpu [simp]: "kcpu (kpmm (switched c s)) = cli_refresh (kcpu (kpmm s))"
  by (simp add: switched_def kmt_refresh_def Let_def)

lemma at_cpu_idem: "kcpu (kpmm s) = cs \<Longrightarrow> at_cpu cs s = s"
  by (simp add: at_cpu_def)

text \<open>What a trap that reschedules does to the kernel.\<close>

definition rescheduled :: "nat \<Rightarrow> cpu_state \<Rightarrow> 'ctx \<Rightarrow> 'ctx kmt_state \<Rightarrow> 'ctx kmt_state" where
  "rescheduled c cs ctx s = switched c (saved c ctx (at_cpu (pushcli cs) s))"

lemma kernel_handler_reschedules:
  fixes ctx
  assumes sch: "scheduling c ev os" and cs: "cli_ok cs" and lk: "lock_free (lock_kmt s)"
  defines "s1 \<equiv> saved c ctx (at_cpu (pushcli cs) s)"
  shows "kernel_handler c ev ctx (os, cs, s) =
    Inr (Some (t_context (tstore s1 (chosen c s1))), os, cli_refresh cs, rescheduled c cs ctx s)"
proof -
  have push: "cli_ok (pushcli cs)" "0 \<le> ncli cs" using cs by (auto simp: inv_intros cli_ok_def)
  have ready: "kmt_ready (at_cpu (pushcli cs) s)" using lk push by (simp add: kmt_ready_def)
  have cpu1: "kcpu (kpmm s1) = pushcli cs" using push by (simp add: s1_def)
  have save: "run_handlers ev ctx [save_callback c] None (pushcli cs, s) = Inr (None, pushcli cs, s1)"
    using sch context_save_saved [OF ready, of c ctx] cpu1
    by (simp add: save_callback_def save_handler_def on_cpu_def at_cpu_def s1_def)
  have "kmt_ready s1" unfolding s1_def by (rule kmt_ready_saved [OF ready])
  from context_switch_switched [OF this, of c ctx]
  have switch: "cb_handler (switch_callback c) ev ctx (pushcli cs, s1) =
      Inr (Some (t_context (tstore s1 (chosen c s1))), pushcli cs, switched c s1)"
    using cpu1 push by (simp add: switch_callback_def switch_handler_def on_cpu_def at_cpu_def
        [symmetric] at_cpu_idem)
  have "filter (relevant ev) (handlers os) = [save_callback c] @ [switch_callback c]"
    using sch by (simp add: scheduling_def)
  from os_trap_last_handler_wins [OF _ cs _ this save switch] sch
  have "os_trap c ev ctx os (cs, s) =
      Inr (Some (t_context (tstore s1 (chosen c s1))), os, cli_refresh cs, switched c s1)"
    by (simp add: scheduling_def)
  then show ?thesis by (simp add: kernel_handler_def rescheduled_def s1_def)
qed

section \<open>A suspended thread\<close>

text \<open>
  What the CPUs may do while the task \<open>t\<close> is put aside: every step of the scheduler that does not
  make \<open>t\<close> current again or remove it, on CPUs with interrupt states of their own.
\<close>

inductive meanwhile ::
  "(u32 \<Rightarrow> u32 \<Rightarrow> 'e \<Rightarrow> 'a \<Rightarrow> 'ctx) \<Rightarrow> task_ref \<Rightarrow> 'ctx kmt_state \<Rightarrow> 'ctx kmt_state \<Rightarrow> bool" for kc t where
  other_step: "kmt_step kc s s' \<Longrightarrow> \<forall>d. cputask s' d \<noteq> Some t \<Longrightarrow> in_table s' t \<Longrightarrow> meanwhile kc t s s'"
| other_cpu: "cli_ok cs \<Longrightarrow> meanwhile kc t s (at_cpu cs s)"

definition suspended :: "nat \<Rightarrow> 'ctx \<Rightarrow> 'ctx kmt_state \<Rightarrow> bool" where
  "suspended k ctx s \<longleftrightarrow> kmt_inv s \<and> in_table s (Task k) \<and> (\<forall>d. cputask s d \<noteq> Some (Task k)) \<and>
     t_context (tstore s (Task k)) = ctx"

lemma kmt_inv_at_cpu: "kmt_inv s \<Longrightarrow> cli_ok cs \<Longrightarrow> kmt_inv (at_cpu cs s)"
  by (simp add: kmt_inv_def kmt_ready_def table_inv_def sched_inv_def uses_def)

lemma saved_context_kept:
  "cputask s c \<noteq> Some (Task k) \<Longrightarrow> t_context (tstore (saved c ctx s) (Task k)) = t_context (tstore s (Task k))"
  by (simp add: saved_def Let_def)

lemma switched_context [simp]: "t_context (tstore (switched c s) p) = t_context (tstore s p)"
  by (simp add: switched_def Let_def)

lemma step_context_kept:
  assumes "kmt_step kc s s'" and "suspended k ctx s"
  shows "t_context (tstore s' (Task k)) = ctx"
  using assms(1)
proof cases
  case (save c ctx' r)
  then show ?thesis
    using assms(2) by (auto simp: suspended_def kmt_inv_def context_save_saved saved_context_kept)
next
  case (switch c ctx' r)
  then show ?thesis
    using assms(2) by (auto simp: suspended_def kmt_inv_def context_switch_switched)
next
  case (create c p name entry arg r)
  then have "p \<noteq> k" using assms(2) by (auto simp: suspended_def)
  then show ?thesis
    using create_result [OF create(1)] assms(2)
    by (auto simp: suspended_def kmt_inv_def create_rejected_def create_done_def)
next
  case (teardown c p)
  then show ?thesis using teardown_result(4) [OF teardown(1)] assms(2) by (auto simp: suspended_def kmt_inv_def)
next
  case (sleep p v)
  then show ?thesis using assms(2) by (auto simp: suspended_def)
qed

lemma suspended_meanwhile:
  assumes "meanwhile kc (Task k) s s'" and "suspended k ctx s"
  shows "suspended k ctx s'"
  using assms(1)
proof cases
  case other_step
  then show ?thesis
    using assms(2) step_context_kept [OF other_step(1) assms(2)] kmt_inv_step [OF other_step(1)]
    by (simp add: suspended_def)
next
  case (other_cpu cs)
  then show ?thesis using assms(2) kmt_inv_at_cpu by (auto simp: suspended_def in_table_def)
qed

lemma suspended_meanwhiles: "(meanwhile kc (Task k))\<^sup>*\<^sup>* s s' \<Longrightarrow> suspended k ctx s \<Longrightarrow> suspended k ctx s'"
  by (induction rule: rtranclp_induct) (auto intro: suspended_meanwhile)

text \<open>Two parts of the story: a trap puts the current task aside, a later one takes it up.\<close>

lemma uses_saved: "cputask s c = Some p \<Longrightarrow> uses (saved c ctx s) c p"
  by (simp add: uses_def saved_def)

lemma interrupted_not_chosen:
  assumes "sched_inv s" and "uses s c (Task k)"
  shows "chosen c s \<noteq> Task k"
  using assms by (cases rule: chosen_cases [of c s]) (auto simp: sched_inv_def runnable_def)

lemma rescheduled_chosen:
  "cputask (rescheduled d cs ctx s) d = Some (chosen d (saved d ctx (at_cpu (pushcli cs) s)))"
  by (simp add: rescheduled_def switched_def Let_def)

lemma rescheduled_suspends:
  assumes inv: "kmt_inv s" and cur: "cputask s c = Some (Task k)" and tab: "in_table s (Task k)"
    and cs: "cli_ok cs"
  shows "suspended k ctx (rescheduled c cs ctx s)"
proof -
  let ?s0 = "at_cpu (pushcli cs) s"
  have i0: "kmt_inv ?s0" using inv cs by (intro kmt_inv_at_cpu inv_intros)
  have i1: "kmt_inv (rescheduled c cs ctx s)"
    unfolding rescheduled_def using i0
    by (simp add: kmt_inv_def kmt_ready_saved table_inv_saved sched_inv_saved
        kmt_ready_switched table_inv_switched sched_inv_switched)
  have "cputask (rescheduled c cs ctx s) d \<noteq> Some (Task k)" if "d \<noteq> c" for d
  proof -
    have "cputask s d \<noteq> Some (Task k)"
      using inv cur that unfolding kmt_inv_def sched_inv_def uses_def by metis
    then show ?thesis using that by (simp add: rescheduled_def switched_def saved_def Let_def)
  qed
  moreover have "t_context (tstore (rescheduled c cs ctx s) (Task k)) = ctx"
    using cur by (simp add: rescheduled_def) (simp add: saved_def Let_def)
  moreover have "in_table (rescheduled c cs ctx s) (Task k)"
    using tab by (simp add: rescheduled_def in_table_def switched_def saved_def Let_def)
  moreover have "cputask (rescheduled c cs ctx s) c \<noteq> Some (Task k)"
    unfolding rescheduled_chosen using i0 cur
    by (simp add: kmt_inv_def interrupted_not_chosen sched_inv_saved uses_saved)
  ultimately show ?thesis using i1 unfolding suspended_def by metis
qed

lemma suspended_resumes:
  assumes "suspended k ctx s" and "cli_ok cs" and "cputask (rescheduled d cs ctx' s) d = Some (Task k)"
  defines "s1 \<equiv> saved d ctx' (at_cpu (pushcli cs) s)"
  shows "t_context (tstore s1 (chosen d s1)) = ctx"
  using assms(1,3) saved_context_kept [of "at_cpu (pushcli cs) s" d k ctx']
  by (simp add: rescheduled_chosen s1_def suspended_def)

section \<open>The machine\<close>

text \<open>A trap with the handler of the kernel ends in the context the scheduler chose.\<close>

lemma irq_handle_reschedules:
  fixes irq err
  assumes room: "68 \<le> unat (trap_base x)" and y: "y = trap_entry irq err x"
    and sch: "scheduling c (trap_event (cr2 y) (frame_at (mem y) (m_esp y))) os"
    and cs: "cli_ok cs" and lk: "lock_free (lock_kmt s)"
  defines "s1 \<equiv> saved c (interrupted x) (at_cpu (pushcli cs) s)"
  shows "\<exists>w. m_ss w = (if from_user x then tss_ss0 x else m_ss x) \<and>
    irq_handle (Some (kernel_handler c)) y (os, cs, s) =
      Inr (return_to (t_context (tstore s1 (chosen c s1))) w, os, cli_refresh cs,
        rescheduled c cs (interrupted x) s)"
proof -
  note fr = trap_entry_frame [where irq = irq and err = err, OF room, folded y]
  note h = kernel_handler_reschedules [OF sch cs lk, of "interrupted x", folded s1_def]
  define w where "w = (if T_IRQ0 + 0 \<le> sint (tf_irq (frame_at (mem y) (m_esp y))) \<and>
    sint (tf_irq (frame_at (mem y) (m_esp y))) < T_IRQ0 + 32 then y\<lparr>eois := eois y + 1\<rparr> else y)"
  show ?thesis using fr(1,4) h by (intro exI [of _ w]) (simp add: irq_handle_def Let_def w_def)
qed

text \<open>
  C2. A context switch gives a thread its registers back: when a trap on CPU \<open>c\<close> interrupts the task
  \<open>k\<close> in the machine state \<open>x\<close>, and a later trap, on any CPU \<open>d\<close> and after any steps of the scheduler
  that neither resume nor remove \<open>k\<close>, makes \<open>k\<close> current again, then the machine after this trap has all the registers of
  \<open>x\<close>, the stack pointer, the program counter and the flags included.
\<close>

theorem thread_resumes:
  assumes "kmt_inv s" and "cputask s c = Some (Task k)" and "in_table s (Task k)"
    and "68 \<le> unat (trap_base x)" and "y = trap_entry irq err x" and "cli_ok cs"
    and "scheduling c (trap_event (cr2 y) (frame_at (mem y) (m_esp y))) os"
    and "irq_handle (Some (kernel_handler c)) y (os, cs, s) = Inr (z, os1, cs1, s1)"
    and "(meanwhile kc (Task k))\<^sup>*\<^sup>* s1 s2"
    and "68 \<le> unat (trap_base x')" and "y' = trap_entry irq' err' x'" and "cli_ok cs2"
    and "scheduling d (trap_event (cr2 y') (frame_at (mem y') (m_esp y'))) os2"
    and "irq_handle (Some (kernel_handler d)) y' (os2, cs2, s2) = Inr (z', os3, cs3, s3)"
    and "cputask s3 d = Some (Task k)"
    and "\<not> from_user x \<longrightarrow> m_ss x = (if from_user x' then tss_ss0 x' else m_ss x')"
  shows "regs_of z' = regs_of x"
proof -
  have lk: "lock_free (lock_kmt s)" using assms(1) by (simp add: kmt_inv_def kmt_ready_def)
  have "s1 = rescheduled c cs (interrupted x) s"
    using irq_handle_reschedules [OF assms(4,5,7,6) lk] assms(8) by auto
  then have "suspended k (interrupted x) s1" using rescheduled_suspends [OF assms(1-3,6)] by simp
  then have sus: "suspended k (interrupted x) s2" by (rule suspended_meanwhiles [OF assms(9)])
  then have lk2: "lock_free (lock_kmt s2)" by (simp add: suspended_def kmt_inv_def kmt_ready_def)
  let ?t = "saved d (interrupted x') (at_cpu (pushcli cs2) s2)"
  obtain w where w: "z' = return_to (t_context (tstore ?t (chosen d ?t))) w"
      "m_ss w = (if from_user x' then tss_ss0 x' else m_ss x')"
      "s3 = rescheduled d cs2 (interrupted x') s2"
    using irq_handle_reschedules [OF assms(10,11,13,12) lk2] assms(14) by auto
  have "t_context (tstore ?t (chosen d ?t)) = interrupted x"
    by (rule suspended_resumes [OF sus assms(12)]) (use assms(15) w(3) in simp)
  then show ?thesis using resume_later [of x w] w assms(4,16) by simp
qed

definition demo_kernel :: "cpu_context kmt_state" where
  "demo_kernel = \<lparr>tasks = (\<lambda>_. None)(3 := Some (Task 1)), cnt_tasks = 1,
     cputask = (\<lambda>_. None)(0 := Some (Task 1)), cputask_last = (\<lambda>_. None)(0 := Some (Task 1)),
     notdefault = (\<lambda>_. True),
     tstore = (\<lambda>_. \<lparr>t_name = '''', t_context = interrupted (idle_machine 8), t_run = 1, t_id = 3,
       t_sleep = 0, t_stack = 0\<rparr>),
     lock_kmt = \<lparr>lk_name = ''kmt'', locked = 0, lk_cpu = -1\<rparr>, rand_next = 1,
     kpmm = pmm_init 4096 65536 boot_pmm\<rparr>"

definition demo_os :: "(cpu_context, cpu_context kmt_state) os_state" where
  "demo_os = \<lparr>handlers = [save_callback 0, switch_callback 0],
     lock_os = \<lparr>lk_name = ''os'', locked = 0, lk_cpu = -1\<rparr>\<rparr>"

lemma demo_kernel_inv: "kmt_inv demo_kernel" "lock_free (lock_kmt demo_kernel)"
proof -
  have "{i. i < MAXTASK \<and> ((\<lambda>_. None)(3 \<mapsto> Task 1)) i \<noteq> None} = {3}" by (auto simp: MAXTASK_def)
  then have "table_inv demo_kernel" by (auto simp: table_inv_def demo_kernel_def MAXTASK_def split: if_splits)
  moreover have "kcpu (kpmm demo_kernel) = kcpu (kpmm boot_kmt)" by (simp add: demo_kernel_def boot_kmt_def)
  then have "kmt_ready demo_kernel"
    using boot_kmt_simps(5) by (simp add: kmt_ready_def) (simp add: demo_kernel_def lock_free_def)
  moreover have "sched_inv demo_kernel" by (auto simp: sched_inv_def uses_def demo_kernel_def split: if_splits)
  ultimately show "kmt_inv demo_kernel" "lock_free (lock_kmt demo_kernel)"
    by (simp_all add: kmt_inv_def kmt_ready_def)
qed

lemma demo_timer:
  assumes "68 \<le> unat (trap_base x)" and "y = trap_entry 32 None x"
  shows "scheduling 0 (trap_event (cr2 y) (frame_at (mem y) (m_esp y))) demo_os"
  using trap_entry_frame(2) [where irq = 32 and err = None, OF assms(1)] assms(2)
  by (simp add: scheduling_def demo_os_def trap_event_def Let_def T_IRQ0_def relevant_def
      save_callback_def switch_callback_def lock_free_def)

lemma demo_first:
  "chosen 0 (saved 0 ctx (at_cpu cs demo_kernel)) = Default 0"
  by (cases rule: chosen_cases [of 0 "saved 0 ctx (at_cpu cs demo_kernel)"])
    (auto simp: runnable_def saved_def demo_kernel_def Let_def split: if_splits)

lemma demo_second:
  fixes ctx ctx' cs
  defines "s1 \<equiv> rescheduled 0 cs ctx demo_kernel"
  shows "cputask (rescheduled 0 cs ctx' s1) 0 = Some (Task 1)"
proof -
  have s1: "tasks s1 = (\<lambda>_. None)(3 := Some (Task 1))" "cputask s1 0 = Some (Default 0)"
    "cputask_last s1 0 = Some (Task 1)" "t_sleep (tstore s1 (Task 1)) = 0"
    by (simp_all add: s1_def rescheduled_def switched_def Let_def demo_first)
      (simp_all add: saved_def demo_kernel_def Let_def)
  let ?b = "saved 0 ctx' (at_cpu (pushcli cs) s1)"
  have "tasks ?b = (\<lambda>_. None)(3 := Some (Task 1))" "runnable ?b (Task 1)"
    using s1 by (simp_all add: saved_def runnable_def Let_def)
  then have "chosen 0 ?b = Task 1"
    unfolding chosen_def using pick_idle_iff [of ?b "fst (switch_seed 0 ?b)"]
      pick_Some [of ?b "fst (switch_seed 0 ?b)" "[0..<MAXTASK]"]
    by (cases "pick ?b (fst (switch_seed 0 ?b)) [0..<MAXTASK]") (auto simp: MAXTASK_def split: if_splits)
  then show ?thesis by (simp add: rescheduled_chosen)
qed

lemma thread_resumes_witness:
  "\<exists>z s1 z' s2. irq_handle (Some (kernel_handler 0)) (trap_entry 32 None (idle_machine (USEL SEG_UCODE)))
      (demo_os, idle_cpu, demo_kernel) = Inr (z, demo_os, cli_refresh idle_cpu, s1) \<and>
    irq_handle (Some (kernel_handler 0)) (trap_entry 32 None z)
      (demo_os, idle_cpu, s1) = Inr (z', demo_os, cli_refresh idle_cpu, s2) \<and>
    regs_of z' = regs_of (idle_machine (USEL SEG_UCODE))"
proof -
  let ?x = "idle_machine (USEL SEG_UCODE)" and ?k = "idle_machine 8"
  let ?s1 = "rescheduled 0 idle_cpu (interrupted ?x) demo_kernel"
  have user: "from_user ?x" "\<not> from_user ?k" "68 \<le> unat (trap_base ?x)" "60 \<le> unat (trap_base ?k)"
    "tss_ss0 ?x = m_ss ?k" "m_esp ?k = 0x9000" "m_cs ?k = 8"
    by (simp_all add: trap_base_def from_user_def idle_machine_def USEL_def SEG_UCODE_def DPL_USER_def)
  have cli: "cli_ok idle_cpu" by (simp add: idle_cpu_def cli_ok_def)
  have "t_context (tstore (saved 0 (interrupted ?x) (at_cpu (pushcli idle_cpu) demo_kernel)) (Default 0))
      = interrupted ?k"
    by (simp add: saved_def Let_def demo_kernel_def)
  then obtain w where w: "m_ss w = m_ss ?k"
      "irq_handle (Some (kernel_handler 0)) (trap_entry 32 None ?x) (demo_os, idle_cpu, demo_kernel)
        = Inr (return_to (interrupted ?k) w, demo_os, cli_refresh idle_cpu, ?s1)"
    using irq_handle_reschedules [OF user(3) refl demo_timer [OF user(3) refl] cli demo_kernel_inv(2)]
    by (auto simp: demo_first user)
  let ?z = "return_to (interrupted ?k) w"
  have "regs_of ?z = regs_of ?k" using resume_later [of ?k w] user w(1) by simp
  then have "68 \<le> unat (trap_base ?z)"
    using user by (simp add: regs_of_def trap_base_def from_user_def DPL_USER_def)
  note z = this demo_timer [OF this refl]
  have lk: "lock_free (lock_kmt ?s1)"
    using demo_kernel_inv(2) by (simp add: rescheduled_def switched_def saved_def Let_def)
  obtain z' s2 where t2: "irq_handle (Some (kernel_handler 0)) (trap_entry 32 None ?z) (demo_os, idle_cpu, ?s1)
      = Inr (z', demo_os, cli_refresh idle_cpu, s2)" "s2 = rescheduled 0 idle_cpu (interrupted ?z) ?s1"
    using irq_handle_reschedules [OF z(1) refl z(2) cli lk] by blast
  have "cputask s2 0 = Some (Task 1)" using demo_second t2(2) by simp
  moreover have "in_table demo_kernel (Task 1)" "cputask demo_kernel 0 = Some (Task 1)"
    by (auto simp: in_table_def demo_kernel_def intro!: exI [of _ 3])
  ultimately have "regs_of z' = regs_of ?x"
    using thread_resumes [OF demo_kernel_inv(1) _ _ user(3) refl cli demo_timer [OF user(3) refl] w(2)
        rtranclp.rtrancl_refl z(1) refl cli z(2) t2(1)] user(1) by blast
  with w t2 show ?thesis by blast
qed

end
