(* ===== verification/Bench.thy ===== *)
theory Bench imports C_Base begin

text \<open>
  The library of the benchmark suite, \<open>apps/microbench/src/bench.c\<close>: the heap that every benchmark
  starts with empty, the random numbers its input is made of, and the checksum its result is
  validated with. The main program, which runs the benchmarks and prints times, is left out.
\<close>

section \<open>The heap\<close>

text \<open>\<open>_heap.start\<close>, \<open>_heap.end\<close>, the limit \<open>setting->mlim\<close>, the break and the memory.\<close>

record bench =
  bn_start :: u32
  bn_end :: u32
  bn_mlim :: u32
  hbrk :: u32
  bn_mem :: memory

definition ROUNDUP :: "u32 \<Rightarrow> u32 \<Rightarrow> u32" where
  "ROUNDUP a sz = (a + sz - 1) AND NOT (sz - 1)"

definition bench_reset :: "bench \<Rightarrow> bench" where
  "bench_reset b = b\<lparr>hbrk := ROUNDUP (bn_start b) 8\<rparr>"

text \<open>
  The loop that clears the block goes up in steps of 8 until it meets the break: when the break has
  wrapped around below the block it leaves the memory.
\<close>

definition bench_alloc :: "u32 \<Rightarrow> bench \<Rightarrow> (u32 \<times> bench) result" where
  "bench_alloc sz b =
     (let sz' = ROUNDUP sz 8; old = hbrk b; b1 = b\<lparr>hbrk := old + sz'\<rparr>
      in bindr (assert_that (bn_start b \<le> hbrk b1 \<and> hbrk b1 < bn_end b)) (\<lambda>_.
         if hbrk b1 < old then Inl BadAccess
         else let b2 = b1\<lparr>bn_mem := (\<lambda>a. if unat old \<le> a \<and> a < unat (hbrk b1) then 0 else bn_mem b1 a)\<rparr>
              in bindr (assert_that (hbrk b2 - bn_start b \<le> bn_mlim b)) (\<lambda>_. Inr (old, b2))))"

definition bench_check :: "bench \<Rightarrow> bool" where
  "bench_check b \<longleftrightarrow> \<not> (bn_end b - bn_start b < bn_mlim b)"

definition REF_SCORE :: u32 where "REF_SCORE = 100000"

definition score :: "u32 \<Rightarrow> u32 \<Rightarrow> u32" where
  "score ref msec = (if msec = 0 then 0 else (REF_SCORE div 1000) * ref div msec)"

section \<open>Random numbers\<close>

definition bench_srand :: "u32 \<Rightarrow> u32" where
  "bench_srand s = s AND 0x7FFF"

definition bench_rand :: "u32 \<Rightarrow> u32 \<times> u32" where
  "bench_rand seed = (let s = seed * 214013 + 2531011 in (drop_bit 16 s AND 0x7FFF, s))"

lemma bench_rand_range: "bench_rand seed = (r, seed') \<Longrightarrow> r < 0x8000"
  by (auto simp: bench_rand_def Let_def word_and_le1 intro!: le_less_trans [OF word_and_le1])

section \<open>Checksum\<close>

text \<open>The hash takes four bytes at a time while more than four are left.\<close>

function fnv_loop :: "u32 \<Rightarrow> u8 list \<Rightarrow> u32" where
  "fnv_loop h p =
     (if 4 < length p
      then fnv_loop (fold (\<lambda>b h. (h XOR ucast b) * 16777619) (take 4 p) h) (drop 4 p)
      else h)"
  by pat_completeness auto

termination by (relation "measure (length \<circ> snd)") auto

declare fnv_loop.simps [simp del]

definition checksum :: "u8 list \<Rightarrow> u32" where
  "checksum bytes =
     (let hash = fnv_loop 2166136261 bytes;
          hash = hash + push_bit 13 hash;
          hash = hash XOR signed_drop_bit 7 hash;
          hash = hash + push_bit 3 hash;
          hash = hash XOR signed_drop_bit 17 hash
      in hash + push_bit 5 hash)"

text \<open>
  The bytes of an array of integers: its last element does not enter the checksum, so a benchmark
  whose result is wrong only there still passes.
\<close>

lemma fnv_loop_last:
  assumes "4 dvd length bs" and "length xs = 4" and "length ys = 4"
  shows "fnv_loop h (bs @ xs) = fnv_loop h (bs @ ys)"
  using assms(1)
proof (induction "length bs" arbitrary: bs h rule: less_induct)
  case less
  show ?case
  proof (cases "bs = []")
    case True
    then show ?thesis using assms(2,3) by (simp add: fnv_loop.simps)
  next
    case False
    then have len: "4 \<le> length bs" using less.prems by (meson dvd_imp_le length_greater_0_conv)
    then have "4 dvd length (drop 4 bs)" using less.prems by (simp add: dvd_diff_nat)
    moreover have "length (drop 4 bs) < length bs" using False by simp
    ultimately have "fnv_loop k (drop 4 bs @ xs) = fnv_loop k (drop 4 bs @ ys)" for k
      using less.hyps by blast
    moreover have "4 < length (bs @ xs)" "4 < length (bs @ ys)" using False len assms(2,3) by simp_all
    ultimately show ?thesis
      using len False by (subst (1 2) fnv_loop.simps) simp
  qed
qed

lemma checksum_ignores_last:
  assumes "4 dvd length bs" and "length xs = 4" and "length ys = 4"
  shows "checksum (bs @ xs) = checksum (bs @ ys)"
  using fnv_loop_last [OF assms] by (simp add: checksum_def)

section \<open>What allocation gives\<close>

text \<open>A new block begins at the break, is zero, and leaves everything outside of it alone.\<close>

lemma ROUNDUP_8:
  assumes "unat sz \<le> 2 ^ 32 - 8"
  shows "unat sz \<le> unat (ROUNDUP sz 8)" and "unat (ROUNDUP sz 8) < unat sz + 8"
    and "8 dvd unat (ROUNDUP sz 8)"
proof -
  have m: "NOT (mask 3 :: u32) = - 8" by (simp add: mask_eq_exp_minus_1)
  have "ROUNDUP sz 8 = (sz + 7) AND NOT (mask 3)" unfolding m by (simp add: ROUNDUP_def add.commute)
  also have "\<dots> = push_bit 3 (drop_bit 3 (sz + 7))"
    by (rule bit_word_eqI) (auto simp: bit_simps)
  finally have "unat (ROUNDUP sz 8) = unat (push_bit 3 (drop_bit 3 (sz + 7)))" by simp
  also have "\<dots> = take_bit 32 (push_bit 3 (drop_bit 3 (unat (sz + 7))))"
    by (simp only: unsigned_push_bit_eq unat_drop_bit_eq) simp
  also have "\<dots> = take_bit 32 (8 * (unat (sz + 7) div 8))"
    by (simp add: drop_bit_eq_div push_bit_eq_mult mult.commute)
  finally have "unat (ROUNDUP sz 8) = take_bit 32 (8 * (unat (sz + 7) div 8))" .
  moreover have "unat (sz + 7) = unat sz + 7" using assms by (simp add: unat_word_ariths)
  ultimately have "unat (ROUNDUP sz 8) = 8 * ((unat sz + 7) div 8)"
    using assms by (simp add: take_bit_eq_mod)
  then show "unat sz \<le> unat (ROUNDUP sz 8)" "unat (ROUNDUP sz 8) < unat sz + 8"
    "8 dvd unat (ROUNDUP sz 8)" by simp_all
qed

lemma bench_alloc_block:
  assumes "bench_alloc sz b = Inr (p, b')" and "unat sz \<le> 2 ^ 32 - 8"
  shows "p = hbrk b \<and> unat p + unat sz \<le> unat (hbrk b') \<and> bn_start b \<le> hbrk b' \<and> hbrk b' < bn_end b \<and>
    (\<forall>a. unat p \<le> a \<and> a < unat p + unat sz \<longrightarrow> bn_mem b' a = 0) \<and>
    (\<forall>a. a < unat p \<or> unat (hbrk b') \<le> a \<longrightarrow> bn_mem b' a = bn_mem b a)"
proof -
  let ?sz = "ROUNDUP sz 8"
  have r: "p = hbrk b" "hbrk b' = hbrk b + ?sz" "hbrk b \<le> hbrk b + ?sz" "bn_start b \<le> hbrk b'" "hbrk b' < bn_end b"
    "bn_mem b' = (\<lambda>a. if unat (hbrk b) \<le> a \<and> a < unat (hbrk b + ?sz) then 0 else bn_mem b a)"
    using assms(1) by (auto simp: bench_alloc_def Let_def assert_that_def bindr_eq_Inr not_less split: if_splits)
  have "unat (hbrk b + ?sz) = unat (hbrk b) + unat ?sz"
    using r(3) by (simp only: unat_plus_simple [symmetric])
  then show ?thesis using r ROUNDUP_8 [OF assms(2)] by auto
qed

end
