(* ===== verification/Bench_Sort.thy ===== *)
theory Bench_Sort imports Bench "HOL-Library.Multiset" begin

text \<open>
  The quicksort benchmark, \<open>apps/microbench/src/qsort/qsort.c\<close>, on an array of integers as a list.
  Positions are natural numbers: the code never goes below the left end. The array is sorted between the two positions,
  holds the same elements there and is unchanged outside.
\<close>

section \<open>The code\<close>

text \<open>\<open>bench_qsort_prepare\<close>: \<open>n\<close> elements from two random numbers each.\<close>

fun qsort_data :: "nat \<Rightarrow> u32 \<Rightarrow> int list \<times> u32" where
  "qsort_data 0 seed = ([], seed)"
| "qsort_data (Suc n) seed =
     (let (a, s1) = bench_rand seed; (b, s2) = bench_rand s1; (xs, s3) = qsort_data n s2
      in (sint (push_bit 16 a OR b) # xs, s3))"

definition bench_qsort_prepare :: "nat \<Rightarrow> int list" where
  "bench_qsort_prepare n = fst (qsort_data n (bench_srand 1))"

definition swap_at :: "nat \<Rightarrow> nat \<Rightarrow> int list \<Rightarrow> int list" where
  "swap_at i j a = (let t = a ! i; a1 = a[i := a ! j] in a1[j := t])"

text \<open>The loop over \<open>j\<close>, with the pivot value \<open>p\<close> and the position \<open>pivot\<close>.\<close>

function part_loop :: "int \<Rightarrow> nat \<Rightarrow> nat \<Rightarrow> nat \<Rightarrow> int list \<Rightarrow> nat \<times> int list" where
  "part_loop p r j pivot a =
     (if j < r
      then (if a ! j < p then part_loop p r (j + 1) (pivot + 1) (swap_at (pivot + 1) j a)
            else part_loop p r (j + 1) pivot a)
      else (pivot, a))"
  by pat_completeness auto

termination by (relation "measure (\<lambda>(p, r, j, pivot, a). r - j)") auto

declare part_loop.simps [simp del]

lemma part_loop_end [simp]: "r \<le> j \<Longrightarrow> part_loop p r j pivot a = (pivot, a)"
  by (simp add: part_loop.simps)

lemma part_loop_step:
  "j < r \<Longrightarrow> part_loop p r j pivot a =
     (if a ! j < p then part_loop p r (j + 1) (pivot + 1) (swap_at (pivot + 1) j a)
      else part_loop p r (j + 1) pivot a)"
  by (subst part_loop.simps) simp

lemma part_loop_pivot:
  "k < j \<Longrightarrow> j \<le> r \<Longrightarrow> k \<le> fst (part_loop p r j k a) \<and> fst (part_loop p r j k a) < r"
proof (induction p r j k a rule: part_loop.induct)
  case (1 p r j k a)
  show ?case
  proof (cases "j < r")
    case True
    then show ?thesis using 1(1,2) [OF True] 1(3) by (cases "a ! j < p") (simp_all add: part_loop_step)
  qed (use 1(3,4) in simp)
qed

function myqsort :: "int list \<Rightarrow> nat \<Rightarrow> nat \<Rightarrow> int list" where
  "myqsort a l r =
     (if l < r
      then (let (pivot, a1) = part_loop (a ! l) r (l + 1) l a; a2 = swap_at pivot l a1
            in myqsort (myqsort a2 l pivot) (pivot + 1) r)
      else a)"
  by pat_completeness auto

termination
proof (relation "measure (\<lambda>(a, l, r). r - l)"; clarsimp)
  fix a :: "int list" and l r k a1
  assume "l < r" "(k, a1) = part_loop (a ! l) r (Suc l) l a"
  then have "l \<le> k \<and> k < r" using part_loop_pivot [of l "Suc l" r "a ! l" a] by (metis Suc_leI fst_conv lessI)
  then show "k - l < r - l" "r - Suc k < r - l" by auto
qed

declare myqsort.simps [simp del]

definition bench_qsort_run :: "nat \<Rightarrow> int list \<Rightarrow> int list" where
  "bench_qsort_run n data = myqsort data 0 n"

definition bytes_of_ints :: "int list \<Rightarrow> u8 list" where
  "bytes_of_ints xs = concat (map (\<lambda>x. map (\<lambda>i. ucast (drop_bit (8 * i) (word_of_int x :: u32))) [0..<4]) xs)"

definition bench_qsort_validate :: "u32 \<Rightarrow> int list \<Rightarrow> bool" where
  "bench_qsort_validate expected data \<longleftrightarrow> checksum (bytes_of_ints data) = expected"

section \<open>Permuting a range\<close>

definition perm_on :: "nat \<Rightarrow> nat \<Rightarrow> int list \<Rightarrow> int list \<Rightarrow> bool" where
  "perm_on l r a b \<longleftrightarrow> mset b = mset a \<and> (\<forall>i < length a. i < l \<or> r \<le> i \<longrightarrow> b ! i = a ! i)"

lemma perm_on_refl [simp, intro]: "perm_on l r a a"
  by (simp add: perm_on_def)

lemma perm_on_length: "perm_on l r a b \<Longrightarrow> length b = length a"
  unfolding perm_on_def by (metis size_mset)

lemma perm_on_trans: "perm_on l r a b \<Longrightarrow> perm_on l r b c \<Longrightarrow> perm_on l r a c"
  using perm_on_length [of l r a b] by (simp add: perm_on_def)

lemma perm_on_mono: "perm_on l r a b \<Longrightarrow> l' \<le> l \<Longrightarrow> r \<le> r' \<Longrightarrow> perm_on l' r' a b"
  by (simp add: perm_on_def)

lemma perm_on_outside: "perm_on l r a b \<Longrightarrow> i < length a \<Longrightarrow> i < l \<or> r \<le> i \<Longrightarrow> b ! i = a ! i"
  by (auto simp: perm_on_def)

lemma perm_on_swap:
  "i < length a \<Longrightarrow> j < length a \<Longrightarrow> l \<le> i \<Longrightarrow> i < r \<Longrightarrow> l \<le> j \<Longrightarrow> j < r \<Longrightarrow> perm_on l r a (swap_at i j a)"
  by (auto simp: perm_on_def swap_at_def Let_def mset_swap nth_list_update)

lemma nth_swap_at:
  "i < length a \<Longrightarrow> j < length a \<Longrightarrow> swap_at i j a ! k = (if k = i then a ! j else if k = j then a ! i else a ! k)"
  by (auto simp: swap_at_def Let_def nth_list_update)

text \<open>Inside the range the elements are the same.\<close>

lemma perm_on_slice:
  assumes "perm_on l r a b" and "r \<le> length a"
  shows "mset (take (r - l) (drop l b)) = mset (take (r - l) (drop l a))"
proof -
  have len: "length b = length a" by (rule perm_on_length [OF assms(1)])
  have split: "mset xs = mset (take l xs) + mset (take (r - l) (drop l xs)) + mset (drop (r - l) (drop l xs))"
    for xs :: "int list"
    by (metis append_take_drop_id mset_append union_assoc)
  have "take l b = take l a"
    by (rule nth_equalityI) (use assms perm_on_outside [OF assms(1)] len in auto)
  moreover have "drop (r - l) (drop l b) = drop (r - l) (drop l a)"
    by (rule nth_equalityI) (use assms perm_on_outside [OF assms(1)] len in auto)
  moreover have "mset b = mset a" using assms(1) by (simp add: perm_on_def)
  ultimately show ?thesis using split [of a] split [of b] by simp
qed

lemma perm_on_elem:
  assumes "perm_on l r a b" and "r \<le> length a" and "l \<le> i" and "i < r"
  obtains j where "l \<le> j" "j < r" "b ! i = a ! j"
proof -
  have "b ! i = take (r - l) (drop l b) ! (i - l)" using assms perm_on_length [OF assms(1)] by simp
  then have "b ! i \<in> set (take (r - l) (drop l b))"
    using assms perm_on_length [OF assms(1)] by (auto simp: in_set_conv_nth intro!: exI [of _ "i - l"])
  then have "b ! i \<in> set (take (r - l) (drop l a))"
    using perm_on_slice [OF assms(1,2)] by (metis set_mset_mset)
  then obtain k where "k < r - l" "b ! i = a ! (l + k)" using assms(2) by (auto simp: in_set_conv_nth)
  then show ?thesis using that [of "l + k"] by simp
qed

section \<open>Partition and sorting\<close>

text \<open>The elements up to the pivot are smaller than the pivot value, those behind are not.\<close>

definition parted :: "int \<Rightarrow> nat \<Rightarrow> nat \<Rightarrow> nat \<Rightarrow> int list \<Rightarrow> bool" where
  "parted p l k j a \<longleftrightarrow> (\<forall>i. l < i \<and> i \<le> k \<longrightarrow> a ! i < p) \<and> (\<forall>i. k < i \<and> i < j \<longrightarrow> p \<le> a ! i)"

lemma part_loop_parts:
  "part_loop p r j k a = (k', a') \<Longrightarrow> parted p l k j a \<Longrightarrow> l \<le> k \<Longrightarrow> k < j \<Longrightarrow> j \<le> r \<Longrightarrow> r \<le> length a \<Longrightarrow>
     parted p l k' r a' \<and> perm_on (Suc l) r a a'"
proof (induction p r j k a rule: part_loop.induct)
  case (1 p r j k a)
  show ?case
  proof (cases "j < r")
    case True
    show ?thesis
    proof (cases "a ! j < p")
      case less: True
      let ?a = "swap_at (k + 1) j a"
      have swap: "perm_on (Suc l) r a ?a" using 1(4-8) True by (intro perm_on_swap) auto
      have "parted p l (k + 1) (j + 1) ?a"
        using 1(4-8) True less by (auto simp: parted_def nth_swap_at)
      moreover have "part_loop p r (j + 1) (k + 1) ?a = (k', a')" using 1(3) True less by (simp add: part_loop_step)
      ultimately have "parted p l k' r a' \<and> perm_on (Suc l) r ?a a'"
        using 1(1) [OF True less] 1(5-8) True perm_on_length [OF swap] by simp
      then show ?thesis using perm_on_trans [OF swap] by blast
    next
      case False
      moreover have "parted p l k (j + 1) a" using 1(4) False by (auto simp: parted_def less_Suc_eq)
      ultimately show ?thesis using 1(2) [OF True False] 1(3,5-8) True by (simp add: part_loop_step)
    qed
  next
    case False
    then show ?thesis using 1(3,4,7) by auto
  qed
qed

definition sorted_on :: "nat \<Rightarrow> nat \<Rightarrow> int list \<Rightarrow> bool" where
  "sorted_on l r a \<longleftrightarrow> (\<forall>i j. l \<le> i \<and> i \<le> j \<and> j < r \<longrightarrow> a ! i \<le> a ! j)"

text \<open>A sorted left part below the pivot value and a sorted right part above it.\<close>

lemma sorted_on_join:
  assumes "sorted_on l k a" and "sorted_on (Suc k) r a"
    and "\<forall>i. l \<le> i \<and> i < k \<longrightarrow> a ! i \<le> a ! k" and "\<forall>i. k < i \<and> i < r \<longrightarrow> a ! k \<le> a ! i"
  shows "sorted_on l r a"
  unfolding sorted_on_def
proof (intro allI impI)
  fix i j assume ij: "l \<le> i \<and> i \<le> j \<and> j < r"
  consider "j < k" | "j = k" | "k < j" "i \<le> k" | "k < i" by linarith
  then show "a ! i \<le> a ! j"
  proof cases
    case 3
    then have "a ! i \<le> a ! k" "a ! k \<le> a ! j" using assms(3,4) ij by (cases "i = k"; simp)+
    then show ?thesis by simp
  next
    case 1
    then show ?thesis using assms(1) ij by (simp add: sorted_on_def)
  next
    case 2
    then show ?thesis using assms(3) ij by (cases "i = k") auto
  next
    case 4
    then show ?thesis using assms(2) ij by (simp add: sorted_on_def)
  qed
qed

text \<open>One partition: the pivot value is at its place, nothing outside has changed.\<close>

lemma partition_step:
  assumes "l < r" and "r \<le> length a" and "part_loop (a ! l) r (l + 1) l a = (k, a1)"
  shows "l \<le> k \<and> k < r \<and> perm_on l r a (swap_at k l a1) \<and>
    (\<forall>i. l \<le> i \<and> i < k \<longrightarrow> swap_at k l a1 ! i < swap_at k l a1 ! k) \<and>
    (\<forall>i. k < i \<and> i < r \<longrightarrow> swap_at k l a1 ! k \<le> swap_at k l a1 ! i)"
proof -
  have k: "l \<le> k" "k < r" using part_loop_pivot [of l "l + 1" r "a ! l" a] assms by simp_all
  have "parted (a ! l) l l (l + 1) a" by (auto simp: parted_def)
  from part_loop_parts [OF assms(3) this] assms(1,2)
  have p: "parted (a ! l) l k r a1" "perm_on (Suc l) r a a1" by simp_all
  have len: "length a1 = length a" by (rule perm_on_length [OF p(2)])
  have "a1 ! l = a ! l" by (rule perm_on_outside [OF p(2)]) (use assms in simp_all)
  moreover have "perm_on l r a (swap_at k l a1)"
    using perm_on_mono [OF p(2), of l r] perm_on_swap [of k a1 l l r] k assms len
    by (auto intro: perm_on_trans)
  ultimately show ?thesis
    using p(1) k assms len by (auto simp: parted_def nth_swap_at)
qed

text \<open>A bound on all elements of a range stays one when they are permuted.\<close>

lemma perm_on_all:
  assumes "perm_on l r a b" and "r \<le> length a" and "\<forall>i. l \<le> i \<and> i < r \<longrightarrow> P (a ! i)"
  shows "\<forall>i. l \<le> i \<and> i < r \<longrightarrow> P (b ! i)"
  using assms(3) by (metis perm_on_elem [OF assms(1,2)])

lemma myqsort_sorts:
  "r \<le> length a \<Longrightarrow> perm_on l r a (myqsort a l r) \<and> sorted_on l r (myqsort a l r)"
proof (induction a l r rule: myqsort.induct)
  case (1 a l r)
  show ?case
  proof (cases "l < r")
    case False
    then show ?thesis by (subst (1 2) myqsort.simps) (auto simp: sorted_on_def)
  next
    case True
    obtain k a1 where part: "part_loop (a ! l) r (l + 1) l a = (k, a1)" by fastforce
    note step = partition_step [OF True 1(3) part]
    define a2 where "a2 = swap_at k l a1"
    define a3 where "a3 = myqsort a2 l k"
    define a4 where "a4 = myqsort a3 (k + 1) r"
    have res: "myqsort a l r = a4"
      by (subst myqsort.simps) (simp only: True part Let_def prod.case if_True a4_def a3_def a2_def)
    have p2: "perm_on l r a a2" and lt: "\<forall>i. l \<le> i \<and> i < k \<longrightarrow> a2 ! i \<le> a2 ! k"
      and ge: "\<forall>i. Suc k \<le> i \<and> i < r \<longrightarrow> a2 ! k \<le> a2 ! i" and k: "l \<le> k" "k < r"
      using step by (auto simp: a2_def less_imp_le)
    have l2: "length a2 = length a" by (rule perm_on_length [OF p2])
    have i3: "perm_on l k a2 a3" "sorted_on l k a3"
      using 1(1) [OF True part [symmetric] refl refl] k 1(3) l2 by (simp_all add: a2_def a3_def)
    have l3: "length a3 = length a" using perm_on_length [OF i3(1)] l2 by simp
    have i4: "perm_on (Suc k) r a3 a4" "sorted_on (Suc k) r a4"
      using 1(2) [OF True part [symmetric] refl refl] 1(3) l3 by (simp_all add: a2_def a3_def a4_def)
    have perm: "perm_on l r a a4"
      using perm_on_mono [OF i3(1), of l r] perm_on_mono [OF i4(1), of l r] p2 k
      by (auto intro: perm_on_trans)
    have left: "a4 ! i = a3 ! i" if "i \<le> k" for i
      by (rule perm_on_outside [OF i4(1)]) (use that k 1(3) l3 in auto)
    have right: "a3 ! i = a2 ! i" if "k \<le> i" "i < r" for i
      by (rule perm_on_outside [OF i3(1)]) (use that 1(3) l2 in auto)
    have "\<forall>i. l \<le> i \<and> i < k \<longrightarrow> a3 ! i \<le> a2 ! k" by (rule perm_on_all [OF i3(1) _ lt]) (use k 1(3) l2 in simp)
    moreover have "\<forall>i. Suc k \<le> i \<and> i < r \<longrightarrow> a2 ! k \<le> a4 ! i"
      by (rule perm_on_all [OF i4(1)]) (use 1(3) l3 ge right in auto)
    moreover have "sorted_on l k a4" using i3(2) left by (auto simp: sorted_on_def)
    ultimately have "sorted_on l r a4"
      using i4(2) left [of k] right [of k] k by (intro sorted_on_join [of l k a4 r]) (auto simp: left)
    then show ?thesis using perm by (simp add: res)
  qed
qed

lemma sorted_on_slice: "sorted_on l r b \<Longrightarrow> r \<le> length b \<Longrightarrow> sorted (take (r - l) (drop l b))"
  by (auto simp: sorted_iff_nth_mono sorted_on_def)

text \<open>
  C37. \<open>myqsort(a, l, r)\<close> sorts the elements at the positions from \<open>l\<close> up to \<open>r\<close>: afterwards they are in
  ascending order and the same elements as before, each as often, and every other position is unchanged.
\<close>

theorem myqsort_sorts_range:
  assumes "l \<le> r" and "r \<le> length a"
  shows "sorted (take (r - l) (drop l (myqsort a l r))) \<and>
    mset (take (r - l) (drop l (myqsort a l r))) = mset (take (r - l) (drop l a)) \<and>
    take l (myqsort a l r) = take l a \<and> drop r (myqsort a l r) = drop r a"
proof -
  let ?b = "myqsort a l r"
  have p: "perm_on l r a ?b" "sorted_on l r ?b" using myqsort_sorts [OF assms(2)] by simp_all
  have len: "length ?b = length a" by (rule perm_on_length [OF p(1)])
  have "sorted (take (r - l) (drop l ?b))" using sorted_on_slice [OF p(2)] assms len by simp
  moreover have "take l ?b = take l a" "drop r ?b = drop r a"
    by (rule nth_equalityI; use assms perm_on_outside [OF p(1)] len in auto)+
  ultimately show ?thesis using perm_on_slice [OF p(1) assms(2)] by blast
qed

lemma myqsort_sorts_range_witness:
  "sorted (take 3 (drop 1 (myqsort [9, 5, 2, 7, 0] 1 4))) \<and> drop 4 (myqsort [9, 5, 2, 7, 0] 1 4) = [0]"
  using myqsort_sorts_range [of 1 4 "[9, 5, 2, 7, 0]"] by simp

text \<open>The whole benchmark.\<close>

lemma bench_qsort_run_sort: "bench_qsort_run (length data) data = sort data"
proof -
  let ?b = "myqsort data 0 (length data)"
  have p: "perm_on 0 (length data) data ?b" "sorted_on 0 (length data) ?b" using myqsort_sorts by blast+
  have len: "length ?b = length data" by (rule perm_on_length [OF p(1)])
  have "sorted ?b \<and> mset ?b = mset data"
    using sorted_on_slice [OF p(2)] perm_on_slice [OF p(1)] len by simp
  then show ?thesis unfolding bench_qsort_run_def by (metis properties_for_sort)
qed

end
