(* ===== verification/Bench_Sieve.thy ===== *)
theory Bench_Sieve imports Bench begin

text \<open>
  The sieve of Eratosthenes, \<open>apps/microbench/src/sieve/sieve.c\<close>, on the bits of an array of 32-bit
  words, and the proof that it counts the primes. Numbers are natural numbers: with the sizes of the
  benchmark, at most ten million, nothing the code computes leaves the range of \<open>int\<close>.
\<close>

section \<open>The code\<close>

definition get :: "u32 list \<Rightarrow> nat \<Rightarrow> u32" where
  "get primes n = drop_bit (n AND 31) (primes ! drop_bit 5 n) AND 1"

definition clear :: "nat \<Rightarrow> u32 list \<Rightarrow> u32 list" where
  "clear n primes =
     primes[drop_bit 5 n := (primes ! drop_bit 5 n) AND NOT (push_bit (n AND 31) 1)]"

text \<open>\<open>bench_alloc(N / 8 + 128)\<close> words of zero, of which the first \<open>N / 32 + 1\<close> are set.\<close>

definition bench_sieve_prepare :: "nat \<Rightarrow> u32 list" where
  "bench_sieve_prepare N =
     fold (\<lambda>i ps. ps[i := 0xFFFFFFFF]) [0..<N div 32 + 1] (replicate ((N div 8 + 128 + 7) div 8 * 8 div 4) 0)"

text \<open>The loop over \<open>j\<close>; \<open>i\<close> is at least 2.\<close>

function clear_multiples :: "nat \<Rightarrow> nat \<Rightarrow> nat \<Rightarrow> u32 list \<Rightarrow> u32 list" where
  "clear_multiples N i j primes =
     (if j \<le> N \<and> 0 < i then clear_multiples N i (j + i) (clear j primes) else primes)"
  by pat_completeness auto

termination by (relation "measure (\<lambda>(N, i, j, primes). Suc N - j)") auto

declare clear_multiples.simps [simp del]

function sieve_loop :: "nat \<Rightarrow> nat \<Rightarrow> u32 list \<Rightarrow> u32 list" where
  "sieve_loop N i primes =
     (if i * i \<le> N
      then sieve_loop N (i + 1) (if get primes i \<noteq> 0 then clear_multiples N i (i + i) primes else primes)
      else primes)"
  by pat_completeness auto

termination
proof (relation "measure (\<lambda>(N, i, primes). Suc N - i)"; clarsimp)
  fix N i :: nat assume "i * i \<le> N"
  moreover have "i \<le> i * i" by simp
  ultimately have "i \<le> N" by linarith
  then show "N - i < Suc N - i" by simp
qed

declare sieve_loop.simps [simp del]

text \<open>The run: \<open>ans\<close> stays as it was when a bit is not set at the start.\<close>

definition bench_sieve_run :: "nat \<Rightarrow> nat \<times> u32 list \<Rightarrow> nat \<times> u32 list" where
  "bench_sieve_run N = (\<lambda>(ans, primes).
     if \<not> list_all (\<lambda>i. get primes i \<noteq> 0) [1..<N + 1] then (ans, primes)
     else let ps = sieve_loop N 2 primes
          in (fold (\<lambda>i n. if get ps i \<noteq> 0 then n + 1 else n) [2..<N + 1] 0, ps))"

definition bench_sieve_validate :: "nat \<Rightarrow> nat \<Rightarrow> bool" where
  "bench_sieve_validate expected ans \<longleftrightarrow> ans = expected"

section \<open>The bits of the array\<close>

definition holds_bits :: "nat \<Rightarrow> u32 list \<Rightarrow> bool" where
  "holds_bits N ps \<longleftrightarrow> N div 32 < length ps"

lemma index_div: "drop_bit 5 n = n div 32" for n :: nat
  by (simp add: drop_bit_eq_div)

lemma index_mod: "n AND 31 = n mod 32" for n :: nat
proof -
  have "n AND 31 = take_bit 5 n" by (simp add: take_bit_eq_mask mask_eq_exp_minus_1)
  then show ?thesis by (simp add: take_bit_eq_mod)
qed

lemma get_bit: "get ps n \<noteq> 0 \<longleftrightarrow> bit (ps ! (n div 32)) (n mod 32)"
  unfolding get_def index_div index_mod by (simp add: and_one_eq odd_iff_mod_2_eq_one [symmetric] bit_iff_odd_drop_bit)

lemma get_clear:
  assumes "holds_bits N ps" and "m \<le> N"
  shows "get (clear m ps) n \<noteq> 0 \<longleftrightarrow> n \<noteq> m \<and> get ps n \<noteq> 0"
proof -
  have "m div 32 < length ps" using assms div_le_mono [of m N 32] by (simp add: holds_bits_def)
  moreover have "n = m \<longleftrightarrow> n div 32 = m div 32 \<and> n mod 32 = m mod 32"
    by (metis div_mult_mod_eq)
  ultimately have "bit (clear m ps ! (n div 32)) (n mod 32) \<longleftrightarrow> n \<noteq> m \<and> bit (ps ! (n div 32)) (n mod 32)"
    by (auto simp: clear_def index_div index_mod nth_list_update bit_simps)
  then show ?thesis by (simp only: get_bit)
qed

lemma holds_bits_clear [simp]: "holds_bits N (clear m ps) = holds_bits N ps"
  by (simp add: holds_bits_def clear_def)

lemma next_multiple:
  assumes "(i :: nat) dvd j" and "i dvd n" and "j < n"
  shows "j + i \<le> n"
proof -
  have "i dvd n - j" using assms by (simp add: dvd_diff_nat)
  then have "i \<le> n - j" using assms(3) by (intro dvd_imp_le) simp_all
  then show ?thesis using assms(3) by simp
qed

lemma clear_multiples_bits:
  "holds_bits N ps \<Longrightarrow> 0 < i \<Longrightarrow> i dvd j \<Longrightarrow>
     holds_bits N (clear_multiples N i j ps) \<and>
     (\<forall>n \<le> N. get (clear_multiples N i j ps) n \<noteq> 0 \<longleftrightarrow> get ps n \<noteq> 0 \<and> \<not> (j \<le> n \<and> i dvd n))"
proof (induction N i j ps rule: clear_multiples.induct)
  case (1 N i j ps)
  show ?case
  proof (cases "j \<le> N")
    case True
    then have step: "clear_multiples N i j ps = clear_multiples N i (j + i) (clear j ps)"
      using 1(3) by (subst clear_multiples.simps) simp
    have "(n \<noteq> j \<and> \<not> (j + i \<le> n \<and> i dvd n)) \<longleftrightarrow> \<not> (j \<le> n \<and> i dvd n)" for n
      using next_multiple [of i j n] 1(3,4) by (cases "n < j"; cases "n = j") auto
    then show ?thesis
      using 1(1) True 1(2-4) get_clear [OF 1(2) True] unfolding step by auto
  next
    case False
    then show ?thesis using 1(2) by (subst (1 2) clear_multiples.simps) auto
  qed
qed

section \<open>The sieve\<close>

text \<open>After the turns below \<open>i\<close>, the numbers still set have no proper divisor from 2 up to there.\<close>

definition sieved :: "nat \<Rightarrow> nat \<Rightarrow> u32 list \<Rightarrow> bool" where
  "sieved N i ps \<longleftrightarrow> holds_bits N ps \<and>
     (\<forall>n. 2 \<le> n \<and> n \<le> N \<longrightarrow> (get ps n \<noteq> 0 \<longleftrightarrow> \<not> (\<exists>d. 2 \<le> d \<and> d < i \<and> d < n \<and> d dvd n)))"

lemma sieved_set:
  assumes "sieved N i ps" and "2 \<le> i" and "get ps i \<noteq> 0"
  shows "sieved N (i + 1) (clear_multiples N i (i + i) ps)"
proof -
  have "(i + i \<le> n \<and> i dvd n) \<longleftrightarrow> (i < n \<and> i dvd n)" for n
    using next_multiple [of i i n] assms(2) by auto
  then show ?thesis
    using assms clear_multiples_bits [of N ps i "i + i"]
    by (auto simp: sieved_def less_Suc_eq)
qed

text \<open>A number that is no longer set has a smaller divisor, which divides its multiples too.\<close>

lemma sieved_unset:
  assumes "sieved N i ps" and "2 \<le> i" and "i \<le> N" and "get ps i = 0"
  shows "sieved N (i + 1) ps"
proof -
  obtain d where "2 \<le> d" "d < i" "d dvd i" using assms unfolding sieved_def by blast
  then have "\<exists>d. 2 \<le> d \<and> d < i \<and> d < n \<and> d dvd n" if "i < n" "i dvd n" for n
    using that by (meson dvd_trans less_trans)
  then show ?thesis using assms(1) by (auto simp: sieved_def less_Suc_eq)
qed

lemma sieve_loop_sieved:
  "sieved N i ps \<Longrightarrow> 2 \<le> i \<Longrightarrow> \<exists>k. N < k * k \<and> sieved N k (sieve_loop N i ps)"
proof (induction N i ps rule: sieve_loop.induct)
  case (1 N i ps)
  show ?case
  proof (cases "i * i \<le> N")
    case True
    have "i \<le> i * i" by simp
    then have "i \<le> N" using True by linarith
    then have "sieved N (i + 1) (if get ps i \<noteq> 0 then clear_multiples N i (i + i) ps else ps)"
      using sieved_set [OF 1(2,3)] sieved_unset [OF 1(2,3)] by simp
    then show ?thesis using 1(1) [OF True] 1(3) True by (subst sieve_loop.simps) simp
  next
    case False
    then have "sieve_loop N i ps = ps" by (subst sieve_loop.simps) simp
    then show ?thesis using False 1(2) by (auto simp: not_le)
  qed
qed

section \<open>Primes\<close>

definition is_prime :: "nat \<Rightarrow> bool" where
  "is_prime p \<longleftrightarrow> 2 \<le> p \<and> (\<forall>d. d dvd p \<longrightarrow> d = 1 \<or> d = p)"

lemma small_divisor:
  assumes "2 \<le> n" and "\<not> is_prime n"
  obtains d where "2 \<le> d" "d < n" "d dvd n" "d * d \<le> n"
proof -
  obtain d where d: "d dvd n" "d \<noteq> 1" "d \<noteq> n" using assms by (auto simp: is_prime_def)
  then obtain e where e: "n = d * e" by (auto elim: dvdE)
  have pos: "2 \<le> d" "2 \<le> e" using d e assms(1) by (cases d; cases e; auto simp: Suc_le_eq intro!: Nat.gr0I)+
  show ?thesis
  proof (cases "d \<le> e")
    case True
    then show ?thesis using that [of d] pos e d by auto
  next
    case False
    then show ?thesis using that [of e] pos e by auto
  qed
qed

lemma sieved_primes:
  assumes "sieved N k ps" and "N < k * k" and "2 \<le> n" and "n \<le> N"
  shows "get ps n \<noteq> 0 \<longleftrightarrow> is_prime n"
proof
  assume "is_prime n"
  then show "get ps n \<noteq> 0" using assms unfolding sieved_def is_prime_def
    by (metis numeral_le_one_iff semiring_norm(69) nat_neq_iff)
next
  assume set: "get ps n \<noteq> 0"
  show "is_prime n"
  proof (rule ccontr)
    assume "\<not> is_prime n"
    then obtain d where d: "2 \<le> d" "d < n" "d dvd n" "d * d \<le> n" using small_divisor [OF assms(3)] by blast
    have "d < k" using d(4) assms(2,4) by (meson le_less_trans less_le_trans mult_le_mono not_less order_trans)
    then show False using set assms d unfolding sieved_def by blast
  qed
qed

section \<open>The benchmark\<close>

lemma fold_set_prefix: "k \<le> length xs \<Longrightarrow> fold (\<lambda>i ps. ps[i := c]) [0..<k] xs = replicate k c @ drop k xs"
proof (induction k)
  case (Suc k)
  then have "fold (\<lambda>i ps. ps[i := c]) [0..<Suc k] xs = (replicate k c @ drop k xs)[k := c]" by simp
  also have "\<dots> = replicate k c @ c # drop (Suc k) xs"
    using Suc.prems by (simp add: list_update_append Cons_nth_drop_Suc [symmetric])
  finally show ?case by (simp add: replicate_app_Cons_same)
qed simp

lemma prepared_bits: "holds_bits N (bench_sieve_prepare N)"
  "n \<le> N \<Longrightarrow> get (bench_sieve_prepare N) n \<noteq> 0"
proof -
  let ?w = "(N div 8 + 128 + 7) div 8 * 8 div 4"
  have w: "N div 32 < ?w" by linarith
  then have ps: "bench_sieve_prepare N = replicate (N div 32 + 1) 0xFFFFFFFF @ replicate (?w - (N div 32 + 1)) 0"
    unfolding bench_sieve_prepare_def by (subst fold_set_prefix) simp_all
  show "holds_bits N (bench_sieve_prepare N)" using w unfolding holds_bits_def ps by simp
  assume "n \<le> N"
  then have "bench_sieve_prepare N ! (n div 32) = 0xFFFFFFFF"
    unfolding ps by (simp add: nth_append div_le_mono less_Suc_eq_le del: replicate_Suc)
  moreover have "(0xFFFFFFFF :: u32) = mask 32" by (simp add: mask_eq_exp_minus_1)
  ultimately show "get (bench_sieve_prepare N) n \<noteq> 0"
    by (simp only: get_bit bit_mask_iff) simp
qed

lemma fold_count: "fold (\<lambda>i n. if P i then n + 1 else n) xs k = k + length (filter P xs)" for k :: nat
  by (induction xs arbitrary: k) simp_all

text \<open>
  C38. The sieve counts the primes: from the array that \<open>bench_sieve_prepare\<close> leaves, the run ends with \<open>ans\<close> being
  the number of primes up to \<open>N\<close>, and the bits that are still set above 1 are those of the primes.
\<close>

theorem sieve_counts_primes:
  "fst (bench_sieve_run N (ans, bench_sieve_prepare N)) = card {p. p \<le> N \<and> is_prime p} \<and>
   (\<forall>n \<in> {2..N}. get (snd (bench_sieve_run N (ans, bench_sieve_prepare N))) n \<noteq> 0 \<longleftrightarrow> is_prime n)"
proof -
  let ?p = "bench_sieve_prepare N"
  have "sieved N 2 ?p" using prepared_bits by (auto simp: sieved_def)
  then obtain k where k: "N < k * k" "sieved N k (sieve_loop N 2 ?p)" using sieve_loop_sieved by blast
  let ?ps = "sieve_loop N 2 ?p"
  have prime: "get ?ps n \<noteq> 0 \<longleftrightarrow> is_prime n" if "2 \<le> n" "n \<le> N" for n
    by (rule sieved_primes [OF k(2,1) that])
  have all: "list_all (\<lambda>i. get ?p i \<noteq> 0) [1..<N + 1]" using prepared_bits(2) [of _ N] by (auto simp: list_all_iff)
  have run: "bench_sieve_run N (ans, ?p) = (length (filter (\<lambda>i. get ?ps i \<noteq> 0) [2..<N + 1]), ?ps)"
    unfolding bench_sieve_run_def Let_def fold_count using all by (simp del: upt_Suc)
  have "filter (\<lambda>i. get ?ps i \<noteq> 0) [2..<N + 1] = filter is_prime [2..<N + 1]"
    by (rule filter_cong [OF refl], rule prime) auto
  moreover have "length (filter is_prime [2..<N + 1]) = card {p. p \<le> N \<and> is_prime p}"
    by (subst distinct_length_filter) (auto simp: is_prime_def intro!: arg_cong [of _ _ card])
  ultimately show ?thesis using prime run by simp
qed

lemma sieve_counts_primes_witness:
  "fst (bench_sieve_run 10 (0, bench_sieve_prepare 10)) = 4 \<and> card {p. p \<le> 10 \<and> is_prime p} = 4"
proof -
  have "fst (bench_sieve_run 10 (0, bench_sieve_prepare 10)) = 4" by code_simp
  with sieve_counts_primes [of 10 0] show ?thesis by simp
qed

end
