(* ===== verification/Bench_Queen.thy ===== *)
theory Bench_Queen imports Bench begin

text \<open>
  The queens benchmark, \<open>apps/microbench/src/queen/queen.c\<close>: a search that keeps the occupied columns
  and both directions of diagonals as bits of three words, against the number of ways to place queens that do not attack
  each other.
\<close>

section \<open>Lowest bits\<close>

text \<open>The bit \<open>pos & (~pos + 1)\<close>.\<close>

definition low_bit :: "u32 \<Rightarrow> u32" where
  "low_bit pos = pos AND (NOT pos + 1)"

lemma minus_low_bit:
  fixes pos :: u32
  assumes "bit pos k" and "k < 32"
  shows "pos - 2 ^ k = pos AND NOT (2 ^ k)"
proof -
  have "pos = (pos AND NOT (2 ^ k)) OR 2 ^ k"
    using assms by (intro bit_word_eqI) (auto simp: bit_simps)
  also have "\<dots> = (pos AND NOT (2 ^ k)) + 2 ^ k"
    by (rule disjunctive_add [symmetric]) (auto simp: bit_simps)
  finally show ?thesis by (simp only: diff_eq_eq)
qed

lemma odd_and_neg:
  fixes d :: u32
  assumes "odd d"
  shows "d AND - d = 1"
proof -
  have "d - 1 = d AND NOT 1" using minus_low_bit [of d 0] assms by (simp add: bit_0)
  then have "- d = NOT d OR 1"
    unfolding minus_eq_not_minus_1 by (simp only: bit.de_Morgan_conj bit.double_compl)
  then have "d AND - d = (d AND NOT d) OR (d AND 1)" by (simp only: bit.conj_disj_distrib)
  also have "\<dots> = 0 OR (d AND 1)" by simp
  also have "\<dots> = 1" using assms by (simp only: and_one_eq odd_iff_mod_2_eq_one or.left_neutral)
  finally show ?thesis .
qed

lemma low_bit_pos:
  assumes "pos \<noteq> 0"
  obtains k where "k < 32" "bit pos k" "low_bit pos = 2 ^ k"
proof -
  have "\<exists>k. bit pos k" using assms by (auto simp: bit_eq_iff)
  then obtain k where k: "bit pos k" "\<forall>i < k. \<not> bit pos i"
    by (metis (no_types, lifting) exists_least_iff)
  have k32: "k < 32" using bit_imp_le_length [OF k(1)] by simp
  define d where "d = drop_bit k pos"
  have "odd d" using k(1) by (simp add: d_def bit_iff_odd_drop_bit)
  have pos: "pos = push_bit k d"
  proof (rule bit_word_eqI)
    fix n assume "n < LENGTH(32)"
    then show "bit pos n = bit (push_bit k d) n"
      using k(2) by (cases "n < k") (auto simp: d_def bit_simps)
  qed
  have "NOT pos + 1 = - pos" by (simp add: minus_eq_not_plus_1)
  also have "\<dots> = push_bit k (- d)" unfolding pos by (simp add: push_bit_eq_mult)
  finally have "low_bit pos = push_bit k (d AND - d)" unfolding low_bit_def by (subst pos) simp
  also have "\<dots> = 2 ^ k" using odd_and_neg [OF \<open>odd d\<close>] by simp
  finally show ?thesis using that k k32 by blast
qed

definition ones :: "u32 \<Rightarrow> nat set" where
  "ones w = {c. bit w c}"

lemma finite_ones [simp]: "finite (ones w)"
  by (rule finite_subset [of _ "{..<32}"]) (auto simp: ones_def dest: bit_imp_le_length)

lemma ones_simps:
  "ones (v OR w) = ones v \<union> ones w" "ones (v AND NOT w) = ones v - ones w"
  "k < 32 \<Longrightarrow> ones (2 ^ k) = {k}"
  by (auto simp: ones_def bit_simps bit_not_iff_eq dest: bit_imp_le_length)

text \<open>One turn takes one element off the set of bits.\<close>

lemma low_bit_step:
  assumes "pos \<noteq> 0"
  obtains k where "k < 32" "k \<in> ones pos" "low_bit pos = 2 ^ k" "ones (pos - low_bit pos) = ones pos - {k}"
proof -
  obtain k where k: "k < 32" "bit pos k" "low_bit pos = 2 ^ k" using low_bit_pos [OF assms] .
  then have "ones (pos - low_bit pos) = ones pos - {k}" by (simp add: minus_low_bit ones_simps)
  then show ?thesis using that k by (simp add: ones_def)
qed

section \<open>Free columns\<close>

text \<open>
  Every level fills a free column. The measure also covers the calls of the loop that \<open>dfs\<close> does not
  make, with bits of occupied columns.
\<close>

definition free_columns :: "u32 \<Rightarrow> nat" where
  "free_columns row = card ({..<32} - ones row)"

lemma free_columns_less:
  "k < 32 \<Longrightarrow> k \<notin> ones row \<Longrightarrow> free_columns (row OR 2 ^ k) < free_columns row"
  unfolding free_columns_def by (rule psubset_card_mono) (auto simp: ones_simps)

lemma free_columns_mono: "free_columns (row OR p) \<le> free_columns row"
  unfolding free_columns_def by (rule card_mono) (auto simp: ones_simps)

definition loop_rank :: "u32 \<Rightarrow> u32 \<Rightarrow> nat" where
  "loop_rank row pos = (if ones pos \<inter> ones row = {} then 2 * free_columns row else 2 * free_columns row + 2)"

lemma loop_rank_step:
  assumes "pos \<noteq> 0"
  shows "loop_rank row (pos - low_bit pos) \<le> loop_rank row pos"
    and "card (ones (pos - low_bit pos)) < card (ones pos)"
    and "2 * free_columns (row OR low_bit pos) + 1 < loop_rank row pos"
proof -
  obtain k where k: "k < 32" "k \<in> ones pos" "low_bit pos = 2 ^ k" "ones (pos - low_bit pos) = ones pos - {k}"
    using low_bit_step [OF assms] .
  show "loop_rank row (pos - low_bit pos) \<le> loop_rank row pos" using k(4) by (auto simp: loop_rank_def)
  show "card (ones (pos - low_bit pos)) < card (ones pos)" unfolding k(4) by (rule card_Diff1_less) (use k in simp_all)
  have "k \<notin> ones row" if "ones pos \<inter> ones row = {}" using k(2) that by blast
  then show "2 * free_columns (row OR low_bit pos) + 1 < loop_rank row pos"
    using free_columns_less [of k row] free_columns_mono [of row "2 ^ k"] k(1)
    by (auto simp: loop_rank_def k(3))
qed

lemma loop_rank_start: "loop_rank row (FULL AND NOT row AND w) = 2 * free_columns row"
  by (auto simp: loop_rank_def ones_def bit_simps)

section \<open>The code\<close>

text \<open>\<open>queen_loop\<close> is the loop \<open>while (pos)\<close> of \<open>dfs\<close>.\<close>

function dfs :: "u32 \<Rightarrow> u32 \<Rightarrow> u32 \<Rightarrow> u32 \<Rightarrow> u32"
  and queen_loop :: "u32 \<Rightarrow> u32 \<Rightarrow> u32 \<Rightarrow> u32 \<Rightarrow> u32 \<Rightarrow> u32 \<Rightarrow> u32" where
  "dfs FULL row ld rd =
     (if row = FULL then 1 else queen_loop FULL row ld rd (FULL AND NOT (row OR ld OR rd)) 0)"
| "queen_loop FULL row ld rd pos ans =
     (if pos \<noteq> 0
      then (let p = low_bit pos; pos1 = pos - p
            in queen_loop FULL row ld rd pos1
                 (ans + dfs FULL (row OR p) (push_bit 1 (ld OR p)) (drop_bit 1 (rd OR p))))
      else ans)"
  by pat_completeness auto

termination
  by (relation "inv_image (less_than <*lex*> less_than)
    (\<lambda>x. case x of Inl (FULL, row, ld, rd) \<Rightarrow> (2 * free_columns row + 1, 0)
       | Inr (FULL, row, ld, rd, pos, ans) \<Rightarrow> (loop_rank row pos, card (ones pos)))")
    (auto simp: loop_rank_start loop_rank_step [simplified] intro: le_neq_implies_less loop_rank_step(1))

declare dfs.simps [simp del] queen_loop.simps [simp del]

text \<open>\<open>bench_queen_prepare\<close> sets \<open>FULL\<close> to \<open>(1 << size) - 1\<close>.\<close>

definition bench_queen_prepare :: "nat \<Rightarrow> u32" where
  "bench_queen_prepare n = push_bit n 1 - 1"

definition bench_queen_run :: "u32 \<Rightarrow> u32" where
  "bench_queen_run FULL = dfs FULL 0 0 0"

definition bench_queen_validate :: "u32 \<Rightarrow> u32 \<Rightarrow> bool" where
  "bench_queen_validate expected ans \<longleftrightarrow> ans = expected"

section \<open>Placements\<close>

text \<open>
  A placement lists the columns of the queens row by row; two queens attack each other when they are in one column
  or as many columns as rows apart.
\<close>

definition no_attack :: "nat list \<Rightarrow> bool" where
  "no_attack qs \<longleftrightarrow> (\<forall>i j. i < j \<and> j < length qs \<longrightarrow>
     qs ! i \<noteq> qs ! j \<and> qs ! i + (j - i) \<noteq> qs ! j \<and> qs ! j + (j - i) \<noteq> qs ! i)"

definition placements :: "nat \<Rightarrow> nat list set" where
  "placements n = {qs. length qs = n \<and> set qs \<subseteq> {..<n} \<and> no_attack qs}"

definition safe :: "nat \<Rightarrow> nat list \<Rightarrow> bool" where
  "safe c qs \<longleftrightarrow> (\<forall>i < length qs. qs ! i \<noteq> c \<and> qs ! i + (i + 1) \<noteq> c \<and> c + (i + 1) \<noteq> qs ! i)"

lemma no_attack_Cons: "no_attack (c # qs) \<longleftrightarrow> safe c qs \<and> no_attack qs"
proof
  assume na: "no_attack (c # qs)"
  have "safe c qs" unfolding safe_def
  proof (intro allI impI)
    fix i assume "i < length qs"
    then have "0 < Suc i \<and> Suc i < length (c # qs)" by simp
    with na [unfolded no_attack_def, rule_format, of 0 "Suc i"]
    show "qs ! i \<noteq> c \<and> qs ! i + (i + 1) \<noteq> c \<and> c + (i + 1) \<noteq> qs ! i" by auto
  qed
  moreover have "no_attack qs" unfolding no_attack_def
  proof (intro allI impI)
    fix i j assume "i < j \<and> j < length qs"
    then have "Suc i < Suc j \<and> Suc j < length (c # qs)" by simp
    with na [unfolded no_attack_def, rule_format, of "Suc i" "Suc j"]
    show "qs ! i \<noteq> qs ! j \<and> qs ! i + (j - i) \<noteq> qs ! j \<and> qs ! j + (j - i) \<noteq> qs ! i" by simp
  qed
  ultimately show "safe c qs \<and> no_attack qs" ..
next
  assume sn: "safe c qs \<and> no_attack qs"
  show "no_attack (c # qs)" unfolding no_attack_def
  proof (intro allI impI)
    fix i j assume ij: "i < j \<and> j < length (c # qs)"
    then obtain k where k: "j = Suc k" "k < length qs" by (cases j) auto
    show "(c # qs) ! i \<noteq> (c # qs) ! j \<and> (c # qs) ! i + (j - i) \<noteq> (c # qs) ! j \<and>
        (c # qs) ! j + (j - i) \<noteq> (c # qs) ! i"
    proof (cases i)
      case 0
      then show ?thesis using sn k unfolding safe_def by fastforce
    next
      case (Suc m)
      then show ?thesis using sn k ij unfolding no_attack_def by simp
    qed
  qed
qed

lemma no_attack_distinct: "no_attack qs \<Longrightarrow> distinct qs"
  by (induction qs) (auto simp: no_attack_Cons safe_def in_set_conv_nth)

lemma no_attack_append: "no_attack (rs @ qs) \<Longrightarrow> no_attack qs"
  by (induction rs) (simp_all add: no_attack_Cons)

definition completions :: "nat \<Rightarrow> nat list \<Rightarrow> nat list set" where
  "completions n qs = {rs. length rs + length qs = n \<and> set rs \<subseteq> {..<n} \<and> no_attack (rs @ qs)}"

lemma finite_completions: "finite (completions n qs)"
  by (rule finite_subset [OF _ finite_lists_length_le [of "{..<n}" n]]) (auto simp: completions_def)

lemma completions_full: "no_attack qs \<Longrightarrow> length qs = n \<Longrightarrow> completions n qs = {[]}"
  by (auto simp: completions_def)

lemma completions_split:
  assumes "length qs < n"
  shows "completions n qs = (\<Union>c\<in>{c. c < n \<and> safe c qs}. (\<lambda>rs. rs @ [c]) ` completions n (c # qs))"
proof (intro set_eqI iffI)
  fix rs assume rs: "rs \<in> completions n qs"
  then have "rs \<noteq> []" using assms by (auto simp: completions_def)
  then obtain ps c where ps: "rs = ps @ [c]" by (cases rs rule: rev_cases) auto
  then have na: "no_attack (ps @ c # qs)" using rs by (simp add: completions_def)
  then have "safe c qs" using no_attack_append no_attack_Cons by blast
  then show "rs \<in> (\<Union>c\<in>{c. c < n \<and> safe c qs}. (\<lambda>rs. rs @ [c]) ` completions n (c # qs))"
    using rs ps na by (auto simp: completions_def)
next
  fix rs assume "rs \<in> (\<Union>c\<in>{c. c < n \<and> safe c qs}. (\<lambda>rs. rs @ [c]) ` completions n (c # qs))"
  then show "rs \<in> completions n qs" by (auto simp: completions_def)
qed

lemma card_completions:
  assumes "length qs < n"
  shows "card (completions n qs) = (\<Sum>c | c < n \<and> safe c qs. card (completions n (c # qs)))"
proof -
  have "card (completions n qs) = (\<Sum>c | c < n \<and> safe c qs. card ((\<lambda>rs. rs @ [c]) ` completions n (c # qs)))"
    unfolding completions_split [OF assms] by (rule card_UN_disjoint) (auto simp: finite_completions)
  then show ?thesis by (simp add: card_image inj_on_def)
qed

section \<open>The words as a board\<close>

definition board :: "nat \<Rightarrow> nat list \<Rightarrow> u32 \<Rightarrow> u32 \<Rightarrow> u32 \<Rightarrow> bool" where
  "board n qs row ld rd \<longleftrightarrow> set qs \<subseteq> {..<n} \<and> no_attack qs \<and> ones row = set qs \<and>
     (\<forall>c < 32. bit ld c \<longleftrightarrow> (\<exists>i < length qs. qs ! i + (i + 1) = c)) \<and>
     (\<forall>c. bit rd c \<longleftrightarrow> (\<exists>i < length qs. c + (i + 1) = qs ! i))"

lemma board_empty: "board n [] 0 0 0"
  by (simp add: board_def ones_def no_attack_def)

lemma bit_up: "Suc m < 32 \<Longrightarrow> bit (push_bit 1 w) (Suc m) \<longleftrightarrow> bit w m" for w :: u32
  by (simp only: bit_push_bit_iff) simp

lemma bit_up_0: "\<not> bit (push_bit 1 w) 0" for w :: u32
  by (simp only: bit_push_bit_iff) simp

lemma board_next:
  assumes "board n qs row ld rd" and "c < n" and "safe c qs" and "n < 32"
  shows "board n (c # qs) (row OR 2 ^ c) (push_bit 1 (ld OR 2 ^ c)) (drop_bit 1 (rd OR 2 ^ c))"
proof -
  have "bit (push_bit 1 (ld OR 2 ^ c)) k \<longleftrightarrow> (\<exists>i < length (c # qs). (c # qs) ! i + (i + 1) = k)" if "k < 32" for k
  proof (cases k)
    case (Suc m)
    have "bit ld m \<longleftrightarrow> (\<exists>i < length qs. qs ! i + (i + 1) = m)" using assms(1) Suc that by (simp add: board_def)
    moreover have "bit (push_bit 1 (ld OR 2 ^ c)) k \<longleftrightarrow> bit ld m \<or> m = c"
      using Suc that assms(2,4) bit_up [of m "ld OR 2 ^ c"] by (auto simp only: bit_or_iff bit_exp_iff) auto
    ultimately show ?thesis using Suc by (auto simp: Ex_less_Suc2)
  next
    case 0
    then show ?thesis using bit_up_0 [of "ld OR 2 ^ c"] by simp
  qed
  moreover have "bit (drop_bit 1 (rd OR 2 ^ c)) k \<longleftrightarrow> (\<exists>i < length (c # qs). k + (i + 1) = (c # qs) ! i)" for k
  proof -
    have "bit rd (Suc k) \<longleftrightarrow> (\<exists>i < length qs. Suc k + (i + 1) = qs ! i)" using assms(1) by (simp add: board_def)
    then show ?thesis using assms(2,4) by (auto simp: bit_simps Ex_less_Suc2)
  qed
  ultimately show ?thesis using assms by (auto simp: board_def no_attack_Cons ones_simps)
qed

lemma board_free:
  assumes "board n qs row ld rd" and "ones FULL = {..<n}" and "n < 32"
  shows "ones (FULL AND NOT (row OR ld OR rd)) = {c. c < n \<and> safe c qs}"
proof -
  have "ones row = set qs" using assms(1) by (simp add: board_def)
  then have "bit row c \<longleftrightarrow> c \<in> set qs" for c unfolding ones_def by blast
  then have "bit row c \<longleftrightarrow> (\<exists>i < length qs. qs ! i = c)" for c by (simp add: in_set_conv_nth)
  moreover have "bit FULL c \<longleftrightarrow> c < n" for c using assms(2) by (auto simp: ones_def)
  moreover have "c < 32 \<Longrightarrow> bit ld c \<longleftrightarrow> (\<exists>i < length qs. qs ! i + (i + 1) = c)"
    "bit rd c \<longleftrightarrow> (\<exists>i < length qs. c + (i + 1) = qs ! i)" for c
    using assms(1) by (simp_all add: board_def)
  ultimately have "bit FULL c \<and> \<not> (bit row c \<or> bit ld c \<or> bit rd c) \<longleftrightarrow> c < n \<and> safe c qs" for c
    using assms(3) by (cases "c < n") (auto simp: safe_def)
  moreover have "ones (FULL AND NOT (row OR ld OR rd)) = ones FULL - (ones row \<union> (ones ld \<union> ones rd))"
    by (simp only: ones_simps Un_assoc)
  ultimately show ?thesis unfolding ones_def by blast
qed

lemma ones_inj: "ones v = ones w \<Longrightarrow> v = w"
  by (rule bit_word_eqI) (auto simp: ones_def)

lemma board_complete:
  assumes "board n qs row ld rd" and "ones FULL = {..<n}"
  shows "length qs \<le> n" and "row = FULL \<longleftrightarrow> length qs = n"
proof -
  have b: "set qs \<subseteq> {..<n}" "ones row = set qs" "length qs = card (set qs)"
    using assms(1) no_attack_distinct by (auto simp: board_def distinct_card)
  then show "length qs \<le> n" using card_mono [of "{..<n}" "set qs"] by simp
  have "row = FULL \<longleftrightarrow> set qs = {..<n}" using b(2) assms(2) ones_inj by metis
  also have "\<dots> \<longleftrightarrow> card (set qs) = n" using card_subset_eq [OF finite_lessThan b(1)] by force
  also have "\<dots> \<longleftrightarrow> length qs = n" using b(3) by simp
  finally show "row = FULL \<longleftrightarrow> length qs = n" .
qed

section \<open>The search counts the placements\<close>

lemma dfs_counts:
  "n < 32 \<Longrightarrow> ones FULL = {..<n} \<Longrightarrow> board n qs row ld rd \<Longrightarrow>
     dfs FULL row ld rd = of_nat (card (completions n qs))"
  "n < 32 \<Longrightarrow> ones FULL = {..<n} \<Longrightarrow> board n qs row ld rd \<Longrightarrow> ones pos \<subseteq> {c. c < n \<and> safe c qs} \<Longrightarrow>
     queen_loop FULL row ld rd pos ans = ans + (\<Sum>c\<in>ones pos. of_nat (card (completions n (c # qs))))"
proof (induction FULL row ld rd and FULL row ld rd pos ans arbitrary: qs and qs rule: dfs_queen_loop.induct)
  case (1 FULL row ld rd)
  note len = board_complete [OF 1(4,3)]
  show ?case
  proof (cases "row = FULL")
    case True
    then show ?thesis using len 1(4) by (subst dfs.simps) (simp add: completions_full board_def)
  next
    case False
    then have "dfs FULL row ld rd = (\<Sum>c\<in>{c. c < n \<and> safe c qs}. of_nat (card (completions n (c # qs))))"
      using 1(1) [OF False 1(2-4)] board_free [OF 1(4,3,2)] by (subst dfs.simps) simp
    also have "\<dots> = of_nat (card (completions n qs))"
      using card_completions [of qs n] len False by simp
    finally show ?thesis .
  qed
next
  case (2 FULL row ld rd pos ans)
  show ?case
  proof (cases "pos = 0")
    case True
    then show ?thesis by (subst queen_loop.simps) (simp add: ones_def)
  next
    case False
    let ?p = "low_bit pos"
    obtain k where k: "k < 32" "k \<in> ones pos" "?p = 2 ^ k" "ones (pos - ?p) = ones pos - {k}"
      using low_bit_step [OF False] .
    let ?d = "dfs FULL (row OR ?p) (push_bit 1 (ld OR ?p)) (drop_bit 1 (rd OR ?p))"
    have "board n (k # qs) (row OR ?p) (push_bit 1 (ld OR ?p)) (drop_bit 1 (rd OR ?p))"
      unfolding k(3) by (rule board_next [OF 2(5)]) (use 2(3,6) k(2) in auto)
    from 2(1) [OF False refl refl 2(3,4) this] have d: "?d = of_nat (card (completions n (k # qs)))" .
    have "queen_loop FULL row ld rd pos ans = queen_loop FULL row ld rd (pos - ?p) (ans + ?d)"
      using False by (subst queen_loop.simps) (simp only: Let_def if_True simp_thms)
    also have "\<dots> = ans + ?d + (\<Sum>c\<in>ones pos - {k}. of_nat (card (completions n (c # qs))))"
      using 2(2) [OF False refl refl 2(3-5)] 2(6) k(4) by auto
    also have "\<dots> = ans + (\<Sum>c\<in>ones pos. of_nat (card (completions n (c # qs))))"
      unfolding d using sum.remove [OF finite_ones k(2), of "\<lambda>c. of_nat (card (completions n (c # qs))) :: u32"]
      by (simp add: add.assoc)
    finally show ?thesis .
  qed
qed

text \<open>
  C39. For a board of \<open>n\<close> columns, up to 31, the search returns the number of placements of \<open>n\<close> queens, one in each
  row, no two of which attack each other, modulo \<open>2 ^ 32\<close>.
\<close>

theorem queens_counted:
  assumes "n < 32"
  shows "bench_queen_run (bench_queen_prepare n) = of_nat (card (placements n))"
proof -
  have "bench_queen_prepare n = mask n" by (simp add: bench_queen_prepare_def mask_eq_exp_minus_1)
  then have "ones (bench_queen_prepare n) = {..<n}" using assms by (auto simp: ones_def bit_mask_iff)
  moreover have "completions n [] = placements n" by (simp add: completions_def placements_def)
  ultimately show ?thesis
    unfolding bench_queen_run_def using dfs_counts(1) [OF assms _ board_empty] by simp
qed

lemma queens_counted_witness: "of_nat (card (placements 4)) = (2 :: u32)"
proof -
  have "bench_queen_run (bench_queen_prepare 4) = 2" by code_simp
  with queens_counted [of 4] show ?thesis by simp
qed

end
