(* ===== verification/Bench_Fib.thy ===== *)
theory Bench_Fib imports Bench begin

text \<open>
  The Fibonacci benchmark, \<open>apps/microbench/src/fib/fib.c\<close>: a power of an \<open>M\<close> by \<open>M\<close> matrix by repeated
  squaring, on flat arrays of 32-bit words, against the recurrence the comment of the file names.
\<close>

section \<open>The code\<close>

type_synonym matrix = "nat \<Rightarrow> u32"

definition fib_put :: "nat \<Rightarrow> matrix \<Rightarrow> nat \<Rightarrow> nat \<Rightarrow> u32 \<Rightarrow> matrix" where
  "fib_put M m i j data = m(i * M + j := data)"

definition fib_get :: "nat \<Rightarrow> matrix \<Rightarrow> nat \<Rightarrow> nat \<Rightarrow> u32" where
  "fib_get M m i j = m (i * M + j)"

definition fib_mult :: "nat \<Rightarrow> matrix \<Rightarrow> matrix \<Rightarrow> matrix \<Rightarrow> matrix" where
  "fib_mult M c a b =
     fold (\<lambda>i c. fold (\<lambda>j c.
       fold (\<lambda>k c. fib_put M c i j (fib_get M c i j + fib_get M a i k * fib_get M b k j)) [0..<M]
         (fib_put M c i j 0)) [0..<M] c) [0..<M] c"

definition fib_assign :: "nat \<Rightarrow> matrix \<Rightarrow> matrix \<Rightarrow> matrix" where
  "fib_assign M a b =
     fold (\<lambda>i a. fold (\<lambda>j a. fib_put M a i j (fib_get M b i j)) [0..<M] a) [0..<M] a"

text \<open>\<open>N\<close> of the source, and the arrays \<open>A\<close>, \<open>T\<close>, \<open>ans\<close>, \<open>tmp\<close>.\<close>

definition FIB_N :: nat where "FIB_N = 2147483603"

record fib_arrays =
  fA :: matrix
  fT :: matrix
  fans :: matrix
  ftmp :: matrix

definition fib_fill :: "nat \<Rightarrow> fib_arrays \<Rightarrow> fib_arrays" where
  "fib_fill M s =
     fold (\<lambda>i s. fold (\<lambda>j s.
       (let x = (if i = M - 1 \<or> j = i + 1 then 1 else 0)
        in s\<lparr>fA := fib_put M (fA s) i j x, fT := fib_put M (fT s) i j x,
             fans := fib_put M (fans s) i j (if i = j then 1 else 0)\<rparr>)) [0..<M] s) [0..<M] s"

definition fib_turn :: "nat \<Rightarrow> nat \<Rightarrow> fib_arrays \<Rightarrow> fib_arrays" where
  "fib_turn M n s =
     (let s1 = (if n AND 1 \<noteq> 0
                then (let t = fib_mult M (ftmp s) (fans s) (fT s) in s\<lparr>ftmp := t, fans := fib_assign M (fans s) t\<rparr>)
                else s);
          t = fib_mult M (ftmp s1) (fT s1) (fT s1)
      in s1\<lparr>ftmp := t, fT := fib_assign M (fT s1) t\<rparr>)"

function fib_loop :: "nat \<Rightarrow> nat \<Rightarrow> fib_arrays \<Rightarrow> fib_arrays" where
  "fib_loop M n s = (if 0 < n then fib_loop M (drop_bit 1 n) (fib_turn M n s) else s)"
  by pat_completeness auto

termination by (relation "measure (\<lambda>(M, n, s). n)") (auto simp: drop_bit_eq_div)

declare fib_loop.simps [simp del]

definition bench_fib_run :: "nat \<Rightarrow> nat \<Rightarrow> fib_arrays \<Rightarrow> fib_arrays" where
  "bench_fib_run M n s = fib_loop M n (fib_fill M s)"

definition bench_fib_validate :: "nat \<Rightarrow> u32 \<Rightarrow> fib_arrays \<Rightarrow> bool" where
  "bench_fib_validate M expected s \<longleftrightarrow> fib_get M (fans s) (M - 1) (M - 1) = expected"

definition bench_fib_prepare :: fib_arrays where
  "bench_fib_prepare = \<lparr>fA = (\<lambda>_. 0), fT = (\<lambda>_. 0), fans = (\<lambda>_. 0), ftmp = (\<lambda>_. 0)\<rparr>"

section \<open>Arrays as matrices\<close>

definition mat :: "nat \<Rightarrow> matrix \<Rightarrow> nat \<Rightarrow> nat \<Rightarrow> u32" where
  "mat M m = (\<lambda>i j. if i < M \<and> j < M then fib_get M m i j else 0)"

definition mm :: "nat \<Rightarrow> (nat \<Rightarrow> nat \<Rightarrow> u32) \<Rightarrow> (nat \<Rightarrow> nat \<Rightarrow> u32) \<Rightarrow> nat \<Rightarrow> nat \<Rightarrow> u32" where
  "mm M f g = (\<lambda>i j. \<Sum>k<M. f i k * g k j)"

lemma get_put:
  assumes "j < M" and "j' < M"
  shows "fib_get M (fib_put M m i j x) i' j' = (if i' = i \<and> j' = j then x else fib_get M m i' j')"
proof -
  have "i' * M + j' = i * M + j \<longleftrightarrow> i' = i \<and> j' = j"
  proof
    assume eq: "i' * M + j' = i * M + j"
    then have "(i' * M + j') div M = (i * M + j) div M" by simp
    then have "i' = i" using assms by simp
    with eq show "i' = i \<and> j' = j" by simp
  qed simp
  then show ?thesis by (simp add: fib_get_def fib_put_def)
qed

text \<open>A double loop that stores \<open>f i j\<close> at every position.\<close>

lemma fold_store_row:
  assumes "\<And>j c. j < M \<Longrightarrow> \<forall>i' < M. \<forall>j' < M. fib_get M (step j c) i' j' =
    (if i' = i \<and> j' = j then f i j else fib_get M c i' j')" and "n \<le> M"
  shows "\<forall>i' < M. \<forall>j' < M. fib_get M (fold step [0..<n] c) i' j' =
    (if i' = i \<and> j' < n then f i j' else fib_get M c i' j')"
  using assms(2)
proof (induction n)
  case (Suc n)
  then show ?case using assms(1) [of n "fold step [0..<n] c"] by (auto simp: less_Suc_eq)
qed simp

lemma fold_store:
  assumes "\<And>i j c. i < M \<Longrightarrow> j < M \<Longrightarrow> \<forall>i' < M. \<forall>j' < M. fib_get M (step i j c) i' j' =
    (if i' = i \<and> j' = j then f i j else fib_get M c i' j')" and "n \<le> M"
  shows "\<forall>i' < M. \<forall>j' < M. fib_get M (fold (\<lambda>i. fold (step i) [0..<M]) [0..<n] c) i' j' =
    (if i' < n then f i' j' else fib_get M c i' j')"
  using assms(2)
proof (induction n)
  case (Suc n)
  then show ?case
    using fold_store_row [of M "step n" n f M "fold (\<lambda>i. fold (step i) [0..<M]) [0..<n] c"] assms(1) [of n]
    by (auto simp: less_Suc_eq)
qed simp

lemma mat_store:
  assumes "\<And>i j c. i < M \<Longrightarrow> j < M \<Longrightarrow> \<forall>i' < M. \<forall>j' < M. fib_get M (step i j c) i' j' =
    (if i' = i \<and> j' = j then f i j else fib_get M c i' j')"
  shows "mat M (fold (\<lambda>i. fold (step i) [0..<M]) [0..<M] c) = (\<lambda>i j. if i < M \<and> j < M then f i j else 0)"
  using fold_store [of M step f M c, OF assms] by (auto simp: mat_def fun_eq_iff)

lemma fold_sum:
  assumes "i < M" and "j < M" and "n \<le> M"
  shows "\<forall>i' < M. \<forall>j' < M. fib_get M (fold (\<lambda>k c. fib_put M c i j (fib_get M c i j + g k)) [0..<n] c) i' j' =
    (if i' = i \<and> j' = j then fib_get M c i j + (\<Sum>k<n. g k) else fib_get M c i' j')"
  using assms by (induction n) (auto simp: get_put add.assoc)

lemma mat_mult: "mat M (fib_mult M c a b) = mm M (mat M a) (mat M b)"
proof -
  have "mat M (fib_mult M c a b) =
      (\<lambda>i j. if i < M \<and> j < M then \<Sum>k<M. fib_get M a i k * fib_get M b k j else 0)"
    unfolding fib_mult_def by (rule mat_store) (simp add: fold_sum get_put)
  then show ?thesis by (auto simp: mm_def mat_def fun_eq_iff)
qed

lemma mat_assign: "mat M (fib_assign M a b) = mat M b"
proof -
  have "mat M (fib_assign M a b) = (\<lambda>i j. if i < M \<and> j < M then fib_get M b i j else 0)"
    unfolding fib_assign_def by (rule mat_store) (simp add: get_put)
  then show ?thesis by (simp add: mat_def)
qed

section \<open>Powers\<close>

definition unit_mat :: "nat \<Rightarrow> nat \<Rightarrow> nat \<Rightarrow> u32" where
  "unit_mat M = (\<lambda>i j. if i = j \<and> i < M then 1 else 0)"

fun mpow :: "nat \<Rightarrow> (nat \<Rightarrow> nat \<Rightarrow> u32) \<Rightarrow> nat \<Rightarrow> nat \<Rightarrow> nat \<Rightarrow> u32" where
  "mpow M f 0 = unit_mat M"
| "mpow M f (Suc n) = mm M f (mpow M f n)"

definition square :: "nat \<Rightarrow> (nat \<Rightarrow> nat \<Rightarrow> u32) \<Rightarrow> bool" where
  "square M f \<longleftrightarrow> (\<forall>i j. M \<le> i \<or> M \<le> j \<longrightarrow> f i j = 0)"

lemma mm_assoc: "mm M (mm M f g) h = mm M f (mm M g h)"
proof (intro ext)
  fix i j
  have "mm M (mm M f g) h i j = (\<Sum>k<M. \<Sum>l<M. f i l * g l k * h k j)"
    by (simp add: mm_def sum_distrib_right)
  also have "\<dots> = (\<Sum>l<M. \<Sum>k<M. f i l * g l k * h k j)" by (rule sum.swap)
  also have "\<dots> = mm M f (mm M g h) i j"
    by (simp add: mm_def sum_distrib_left mult.assoc)
  finally show "mm M (mm M f g) h i j = mm M f (mm M g h) i j" .
qed

lemma mm_unit_left:
  assumes "square M f"
  shows "mm M (unit_mat M) f = f"
proof (intro ext)
  fix i j
  have "mm M (unit_mat M) f i j = (\<Sum>k<M. if k = i then f k j else 0)"
    unfolding mm_def unit_mat_def by (rule sum.cong) auto
  also have "\<dots> = f i j" using assms by (simp add: square_def not_less)
  finally show "mm M (unit_mat M) f i j = f i j" .
qed

lemma mm_unit_right: "square M f \<Longrightarrow> mm M f (unit_mat M) = f"
  by (intro ext) (auto simp: mm_def unit_mat_def square_def if_distrib [of "\<lambda>x. _ * x"] not_less cong: if_cong)

lemma square_mat [simp]: "square M (mat M m)"
  by (auto simp: square_def mat_def)

lemma square_mm: "square M f \<Longrightarrow> square M g \<Longrightarrow> square M (mm M f g)"
  by (auto simp: square_def mm_def)

lemma square_mpow [simp]: "square M f \<Longrightarrow> square M (mpow M f n)"
proof (induction n)
  case 0
  then show ?case by (auto simp: square_def unit_mat_def)
qed (simp add: square_mm)

lemma mpow_add: "square M f \<Longrightarrow> mpow M f (a + b) = mm M (mpow M f a) (mpow M f b)"
  by (induction a) (simp_all add: mm_unit_left mm_assoc)

lemma mpow_double: "square M f \<Longrightarrow> mpow M (mm M f f) n = mpow M f (2 * n)"
  by (induction n) (simp_all add: mm_assoc)

text \<open>The loop multiplies \<open>ans\<close> by the power of \<open>T\<close>.\<close>

lemma fib_turn_mats:
  "mat M (fans (fib_turn M n s)) = (if odd n then mm M (mat M (fans s)) (mat M (fT s)) else mat M (fans s))"
  "mat M (fT (fib_turn M n s)) = mm M (mat M (fT s)) (mat M (fT s))"
  by (auto simp: fib_turn_def Let_def mat_mult mat_assign and_one_eq odd_iff_mod_2_eq_one)

lemma fib_loop_power:
  "mat M (fans (fib_loop M n s)) = mm M (mat M (fans s)) (mpow M (mat M (fT s)) n)"
proof (induction M n s rule: fib_loop.induct)
  case (1 M n s)
  let ?X = "mat M (fT s)" and ?P = "mat M (fans s)"
  show ?case
  proof (cases "0 < n")
    case True
    have split: "mpow M ?X n = (if odd n then mm M ?X (mpow M ?X (2 * (n div 2))) else mpow M ?X (2 * (n div 2)))"
      by (metis dvd_mult_div_cancel mpow.simps(2) odd_two_times_div_two_succ Suc_eq_plus1)
    have "mat M (fans (fib_loop M n s)) = mm M (mat M (fans (fib_turn M n s))) (mpow M (mm M ?X ?X) (n div 2))"
      using 1 [OF True] True by (subst fib_loop.simps) (simp add: fib_turn_mats drop_bit_eq_div)
    also have "\<dots> = mm M ?P (mpow M ?X n)"
      unfolding split by (simp add: fib_turn_mats mpow_double mm_assoc)
    finally show ?thesis .
  next
    case False
    then show ?thesis by (subst fib_loop.simps) (simp add: mm_unit_right)
  qed
qed

section \<open>The recurrence\<close>

text \<open>The sequence \<open>0, ..., 0, 1\<close> of \<open>M\<close> numbers, continued by the sums of the last \<open>M\<close>, modulo \<open>2 ^ 32\<close>.\<close>

function bonacci :: "nat \<Rightarrow> nat \<Rightarrow> u32" where
  "bonacci M n = (if n + 1 < M then 0 else if n + 1 = M then 1 else \<Sum>k\<in>{1..M}. bonacci M (n - k))"
  by pat_completeness auto

termination by (relation "measure snd") auto

declare bonacci.simps [simp del]

definition step_mat :: "nat \<Rightarrow> nat \<Rightarrow> nat \<Rightarrow> u32" where
  "step_mat M = (\<lambda>i j. if i < M \<and> j < M \<and> (i = M - 1 \<or> j = i + 1) then 1 else 0)"

lemma bonacci_next: "0 < M \<Longrightarrow> bonacci M (n + M) = (\<Sum>j<M. bonacci M (n + j))"
proof -
  assume M: "0 < M"
  then have "bonacci M (n + M) = (\<Sum>k\<in>{1..M}. bonacci M (n + M - k))"
    by (subst bonacci.simps) simp
  also have "\<dots> = (\<Sum>j<M. bonacci M (n + j))"
    by (rule sum.reindex_bij_witness [of _ "\<lambda>j. M - j" "\<lambda>k. M - k"]) auto
  finally show ?thesis .
qed

lemma step_mat_shifts:
  assumes "i < M"
  shows "(\<Sum>j<M. step_mat M i j * bonacci M (n + j)) = bonacci M (Suc n + i)"
proof (cases "i = M - 1")
  case True
  then have "(\<Sum>j<M. step_mat M i j * bonacci M (n + j)) = (\<Sum>j<M. bonacci M (n + j))"
    using assms by (intro sum.cong) (simp_all add: step_mat_def)
  also have "\<dots> = bonacci M (n + M)" using bonacci_next [of M n] assms by simp
  finally show ?thesis using True assms by simp
next
  case False
  then have "(\<Sum>j<M. step_mat M i j * bonacci M (n + j)) = (\<Sum>j<M. if j = i + 1 then bonacci M (n + j) else 0)"
    using assms by (intro sum.cong) (simp_all add: step_mat_def)
  also have "\<dots> = bonacci M (n + (i + 1))"
  proof -
    have "i + 1 < M" using False assms by linarith
    then show ?thesis by simp
  qed
  finally show ?thesis by simp
qed

lemma mpow_step:
  "i < M \<Longrightarrow> (\<Sum>j<M. mpow M (step_mat M) n i j * bonacci M j) = bonacci M (n + i)"
proof (induction n arbitrary: i)
  case 0
  then show ?case by (simp add: unit_mat_def if_distrib [of "\<lambda>x. x * _"] cong: if_cong)
next
  case (Suc n)
  have "(\<Sum>j<M. mpow M (step_mat M) (Suc n) i j * bonacci M j)
      = (\<Sum>j<M. \<Sum>k<M. step_mat M i k * (mpow M (step_mat M) n k j * bonacci M j))"
    by (simp add: mm_def sum_distrib_right mult.assoc)
  also have "\<dots> = (\<Sum>k<M. \<Sum>j<M. step_mat M i k * (mpow M (step_mat M) n k j * bonacci M j))"
    by (rule sum.swap)
  also have "\<dots> = (\<Sum>k<M. step_mat M i k * bonacci M (n + k))"
    using Suc.IH by (simp add: sum_distrib_left [symmetric])
  also have "\<dots> = bonacci M (Suc n + i)" by (rule step_mat_shifts [OF Suc.prems])
  finally show ?case .
qed

section \<open>The benchmark\<close>

lemma fib_fill_arrays:
  "mat M (fT (fib_fill M s)) = step_mat M" "mat M (fans (fib_fill M s)) = unit_mat M"
proof -
  define x where "x i j = (if i = M - 1 \<or> j = i + 1 then 1 else 0 :: u32)" for i j
  define step where "step = (\<lambda>i j (s :: fib_arrays). s\<lparr>fA := fib_put M (fA s) i j (x i j), fT := fib_put M (fT s) i j (x i j),
      fans := fib_put M (fans s) i j (if i = j then 1 else 0)\<rparr>)"
  have fill: "fib_fill M s = fold (\<lambda>i. fold (step i) [0..<M]) [0..<M] s"
    by (simp add: fib_fill_def step_def x_def Let_def)
  have rows: "fT (fold (step i) js s) = fold (\<lambda>j c. fib_put M c i j (x i j)) js (fT s)"
    "fans (fold (step i) js s) = fold (\<lambda>j c. fib_put M c i j (if i = j then 1 else 0)) js (fans s)" for i js s
    by (induction js arbitrary: s) (simp_all add: step_def)
  have all: "fT (fold (\<lambda>i. fold (step i) [0..<M]) is s) =
      fold (\<lambda>i. fold (\<lambda>j c. fib_put M c i j (x i j)) [0..<M]) is (fT s)"
    "fans (fold (\<lambda>i. fold (step i) [0..<M]) is s) =
      fold (\<lambda>i. fold (\<lambda>j c. fib_put M c i j (if i = j then 1 else 0)) [0..<M]) is (fans s)" for "is" s
    by (induction "is" arbitrary: s) (simp_all add: rows)
  have "mat M (fT (fib_fill M s)) = (\<lambda>i j. if i < M \<and> j < M then x i j else 0)"
    unfolding fill all by (rule mat_store) (simp add: get_put)
  then show "mat M (fT (fib_fill M s)) = step_mat M" by (auto simp: step_mat_def x_def fun_eq_iff)
  have "mat M (fans (fib_fill M s)) = (\<lambda>i j. if i < M \<and> j < M then if i = j then 1 else 0 else 0)"
    unfolding fill all by (rule mat_store) (simp add: get_put)
  then show "mat M (fans (fib_fill M s)) = unit_mat M" by (auto simp: unit_mat_def fun_eq_iff)
qed

text \<open>
  C40. The Fibonacci benchmark computes the number at position \<open>n + M - 1\<close> of the sequence in which
  every number is the sum of the \<open>M\<close> numbers before it, modulo \<open>2 ^ 32\<close>, whatever the arrays held.
\<close>

theorem fib_is_bonacci:
  assumes "0 < M"
  shows "fib_get M (fans (bench_fib_run M n s)) (M - 1) (M - 1) = bonacci M (n + (M - 1))"
proof -
  have "mat M (fans (bench_fib_run M n s)) = mpow M (step_mat M) n"
    unfolding bench_fib_run_def fib_loop_power fib_fill_arrays
    by (rule mm_unit_left [OF square_mpow]) (simp add: square_def step_mat_def)
  then have "mat M (fans (bench_fib_run M n s)) (M - 1) (M - 1) = mpow M (step_mat M) n (M - 1) (M - 1)"
    by simp
  moreover have "mat M (fans (bench_fib_run M n s)) (M - 1) (M - 1) =
      fib_get M (fans (bench_fib_run M n s)) (M - 1) (M - 1)"
    using assms by (simp add: mat_def)
  ultimately have "fib_get M (fans (bench_fib_run M n s)) (M - 1) (M - 1) = mpow M (step_mat M) n (M - 1) (M - 1)"
    by simp
  also have "\<dots> = (\<Sum>j<M. mpow M (step_mat M) n (M - 1) j * bonacci M j)"
  proof -
    have "bonacci M j = (if j = M - 1 then 1 else 0)" if "j < M" for j
      using that by (subst bonacci.simps) auto
    then have "(\<Sum>j<M. mpow M (step_mat M) n (M - 1) j * bonacci M j) =
        (\<Sum>j<M. if j = M - 1 then mpow M (step_mat M) n (M - 1) j else 0)"
      by (intro sum.cong) simp_all
    then show ?thesis using assms by simp
  qed
  also have "\<dots> = bonacci M (n + (M - 1))" by (rule mpow_step) (use assms in simp)
  finally show ?thesis .
qed

lemma fib_is_bonacci_witness:
  "fib_get 2 (fans (bench_fib_run 2 5 bench_fib_prepare)) 1 1 = 8 \<and> bonacci 2 6 = 8"
proof -
  have "bonacci 2 6 = 8" by code_simp
  with fib_is_bonacci [of 2 5 bench_fib_prepare] show ?thesis by simp
qed

end
