(* ===== verification/Spec2Isabelle.thy ===== *)
theory Spec2Isabelle imports
  Klib_String
  Klib_Rand
  C_Memory
  Spinlock
  Spinlock_SMP
  Pmm_Contract
  Os_Irq
  Kmt_Inv
  Semaphore_Fifo
  Input
  Tty
  Tty_Screen
  Util
  Shell_Paths
  Video_Render
  Nes_Exec
  Typing_Inv
  Nes_Alu
  Nes_Background
  Kvdb_Map
  Game_Inv
  Pstree_Lines
  Coroutine_Inv
  Frecov_Scan
  Sperf_Table
  Paging_Refine
  Trap_Return
  Kernel_Switch
  Bench_Sort
  Bench_Sieve
  Bench_Queen
  Bench_Fib
begin

text \<open>
  A verification development of the course repository of an operating-systems class: a kernel for
  the x86-qemu machine of the abstract machine (AM), the part of AM's machine layer that holds the
  kernel's page tables and contexts, its C library klib, the NES emulator LiteNES that runs on the
  same machine, and the user programs of the assignments. The theories are translated from the
  sources under \<open>src/\<close>; every definition that models code names the function or type it translates.

  \<^bold>\<open>The program.\<close> The kernel (\<open>kernel/\<close>) boots with a heap that the physical memory manager hands out
  in blocks. A timer or device interrupt enters the assembly stub of the machine layer, which saves
  the registers as a context and calls the kernel's trap handler \<open>os_trap\<close>; the handler runs the
  callbacks registered with \<open>on_irq\<close> in the order of their numbers. The scheduler registers two of
  them: the first saves the interrupted context in the task of this CPU, the last picks the next
  task, whose context the stub then returns to. Spinlocks disable interrupts and count nesting for
  each CPU; semaphores put tasks to sleep in a linked list of blocks of the allocator. Interrupt
  handlers and tasks exchange keyboard events and characters through ring buffers: the input device
  turns key codes into events, a terminal turns events into lines, and its screen of characters is
  drawn through the texture table of the video device. The virtual file system maps paths to the
  mounted file systems: ext2 on a RAM disk, devfs for the device table, procfs for the tasks. The
  shell tasks use all of this through the system calls of the file system.

  \<^bold>\<open>Conventions.\<close>
  \<^item> The build is the x86-qemu one: \<open>int\<close>, \<open>long\<close>, \<open>size_t\<close> and pointers are 32 bits. Values whose
    width matters are words (\<open>u8\<close>, \<open>u16\<close>, \<open>u32\<close>); a signed value that the code keeps small is an
    \<open>int\<close>, and its theory says why that is enough. Assertions are active; the branches under \<open>DEBUG\<close>
    and \<open>CORRECTNESS_FIRST\<close> are not compiled.
  \<^item> An operation takes the state of its component and returns the new one. An operation that can
    fail to return gives \<open>'a result = fault + 'a\<close>: \<open>Halt\<close> for a failed assertion, \<open>panic\<close> or exit,
    \<open>BadAccess\<close> for an access outside an object, \<open>Hang\<close> for a wait that never ends. The prelude
    \<open>C_Base\<close> holds the sequencing \<open>bindr\<close>, its rules and the lemmas all components share; \<open>C_Memory\<close>
    is the little-endian layout of integers and packed structs in byte memory.
  \<^item> Kernel operations take the CPU \<open>c\<close> they run on; each runs between taking and releasing its lock,
    and the question whether that is atomic is answered in \<open>Spinlock_SMP\<close>, where the CPUs interleave
    at every access to shared memory.
  \<^item> Pointers that alias (headers in the heap, task pointers, waiter nodes) are addresses in a store;
    other structs are records.
  \<^item> A definition that models code computes; what a property quantifies over is in the property.

  \<^bold>\<open>Kernel.\<close>
  \<^item> \<open>Spinlock\<close> models \<open>spin_init\<close>, \<open>spin_lock\<close>, \<open>spin_unlock\<close>, \<open>pushcli\<close>, \<open>popcli\<close> of \<open>kmt.c\<close> on one
    CPU, under the contract \<open>lock_contract\<close>. \<open>Spinlock_SMP\<close> has the same code as a step relation
    for all CPUs; rule induction over its reachable states gives mutual exclusion, and a step is
    always possible.
  \<^item> \<open>Pmm\<close> models \<open>pmm.c\<close> with the headers as bytes of the heap. \<open>Pmm_Refine\<close> and \<open>Pmm_Contract\<close>
    show that allocation and release refine a sorted list of intervals with first fit, that live
    blocks are disjoint from each other and from the headers, and give the contract \<open>allocator\<close>
    that clients use.
  \<^item> \<open>Os_Irq\<close> models the callback list and \<open>os_trap\<close> of \<open>os.c\<close>.
  \<^item> \<open>Kmt_Sched\<close> models tasks, \<open>kmt_create\<close>, \<open>kmt_teardown\<close>, \<open>kmt_context_save\<close> and
    \<open>kmt_context_switch\<close> of \<open>kmt.c\<close>. \<open>Kmt_Inv\<close> has their invariants: no task is current on two CPUs
    or picked before its last CPU has left its stack, table and counter agree; the switch takes the
    next ready task of the table in cyclic order.
  \<^item> \<open>Semaphore\<close> models \<open>sem_init\<close>, \<open>sem_wait\<close>, \<open>sem_signal\<close>; \<open>Semaphore_Fifo\<close> shows that the waiter
    list is a queue in allocator blocks and that the counter counts tokens or sleeping tasks.
  \<^item> \<open>Fifo\<close> is the contract of a bounded queue. The waiter list, the event ring of the input device
    and the line buffer of a terminal are its interpretations.
  \<^item> \<open>Input\<close> (\<open>input.c\<close>, \<open>keymaps.c\<close>), \<open>Tty_Core\<close> and \<open>Tty\<close> (\<open>tty.c\<close>), \<open>Video\<close> (\<open>video.c\<close>) model
    the devices. \<open>Tty_Screen\<close>: the cursor stays on the screen and every changed cell is marked for
    drawing. \<open>Video_Render\<close>: a rendering puts the picture of the characters on the screen, pixel by
    pixel. \<open>Util\<close> models the path functions of \<open>util.c\<close>.
  \<^item> \<open>Ramdisk\<close>, \<open>Ext2\<close>, \<open>Ext2_Fs\<close>, \<open>Devfs\<close>, \<open>Vfs\<close> model \<open>ramdisk.c\<close>, \<open>ext2.c\<close>, \<open>ext2fs.c\<close>, \<open>dev.c\<close>
    with \<open>devfs.c\<close> and \<open>procfs.c\<close>, and \<open>vfs.c\<close>. \<open>Ext2_Bitmap\<close>, \<open>Ext2_File\<close>, \<open>Ext2_Dir\<close> show what a
    disk operation does to bitmaps, to a file as a sequence of bytes and to a directory as a list of
    entries, over the contract \<open>byte_device\<close>; \<open>Vfs_Files\<close> shows which mount a path belongs to,
    how descriptors are given and that locks are free when a call returns.
  \<^item> \<open>Shell\<close> models the commands and the loop of \<open>shell.c\<close>; \<open>Shell_Paths\<close> shows that the working
    directory is an absolute path whatever lines are typed.

  \<^bold>\<open>Machine layer.\<close>
  \<^item> \<open>Paging\<close> models the page tables of \<open>vme.c\<close>: \<open>vme_init\<close>, \<open>protect\<close>, \<open>unprotect\<close>, \<open>map\<close>. The page
    allocator is a parameter; \<open>space_ok\<close> says that the tables of an address space are its own.
    \<open>Paging_Refine\<close> shows that \<open>map\<close> changes exactly the pages asked for in the translation the
    processor computes (\<open>walk\<close>), and that \<open>vme_init\<close> maps its ranges to themselves.
  \<^item> \<open>Trap\<close> models \<open>cte.c\<close>, the stub \<open>cte_trap.S\<close> instruction by instruction, and \<open>ucontext\<close>.
    \<open>Trap_Return\<close> shows that a handler that returns the interrupted context is invisible to the
    interrupted code, and that a context of \<open>kcontext\<close> starts its entry function.
  \<^item> \<open>Kernel_Switch\<close> joins the two sides: the context type of \<open>Kmt_Sched\<close> is the one of \<open>Trap\<close>, and
    the handler that \<open>irq_handle\<close> calls is \<open>os_trap\<close> with the callbacks of \<open>kmt_init\<close>. A task that a
    trap puts aside has all its registers back when a later trap, on any CPU, takes it up again.
  \<^item> \<open>Klib_String\<close>, \<open>Klib_Rand\<close>, \<open>Klib_Stdio\<close> model \<open>string.c\<close>, \<open>stdlib.c\<close>, \<open>stdio.c\<close> of klib.
    String loops that only a NUL ends are partial functions; they return exactly when a NUL is
    there. Formatted output is parsed back by a reference parser.

  \<^bold>\<open>LiteNES\<close> (\<open>apps/litenes\<close>).
  \<^item> \<open>Nes_State\<close> has the globals of all files as one record, \<open>Nes_Bus\<close> the address space, \<open>Nes_Ppu\<close> the
    picture unit, \<open>Nes_Cpu\<close> every instruction and addressing mode, the opcode tables and the
    execution loop, \<open>Nes_Run\<close> loading a cartridge and the frames. An access that can leave its array
    sets the flag \<open>oob\<close> instead of failing, so that boundedness is the statement that the flag stays
    unset.
  \<^item> \<open>Nes_Inv\<close> collects what each operation leaves unchanged and states preservation once, in the
    locale \<open>nes_invariant\<close>, for the ranges of the operands and for bounded accesses; \<open>Nes_Exec\<close>
    draws the conclusions for the loops, with termination. \<open>Nes_Alu\<close> compares the arithmetic with
    integer addition, \<open>Nes_Background\<close> the 64-bit store of the background with drawing pixels.

  \<^bold>\<open>User programs.\<close>
  \<^item> \<open>Kvdb\<close> models \<open>libkvdb/kvdb.c\<close>; the results of system calls are an argument. \<open>Kvdb_Map\<close>: the
    journal recovers to a prefix of its records after a crash, and the store is a map.
  \<^item> \<open>Game\<close> models \<open>amgame/src/game.c\<close>, with the keys of every frame as an argument; \<open>Game_Inv\<close> has the
    invariant of its obstacles.
  \<^item> \<open>Typing\<close> models the typing game of \<open>apps/typing\<close>: pool and list of letters of \<open>game.h\<close>, keys, rules,
    drawing and the frames of \<open>main\<close>; times, key codes and the font are arguments. \<open>Typing_List\<close> refines
    the linked nodes to the list of letters, operation by operation; \<open>Typing_Inv\<close> has the invariant of the
    frames. A traversal may visit 1001 nodes and a frame 26 keys; \<open>typing_runs\<close> shows that this is enough.
  \<^item> \<open>Exchange_Sort\<close> is the sorting loop of \<open>pstree\<close> and \<open>sperf\<close>, with a locale for the order used.
    \<open>Pstree\<close> models \<open>pstree.c\<close>, \<open>Pstree_Lines\<close> shows that the output has one line for each leaf.
  \<^item> \<open>Coroutine\<close> models \<open>libco/co.c\<close>: a coroutine is a tree of the calls its code makes, the saved
    processor states are the points of that tree, the values of \<open>rand\<close> are a list. \<open>Coroutine_Inv\<close>:
    a switch always reaches a point that can be resumed.
  \<^item> \<open>Frecov\<close> models \<open>frecov.c\<close> on an image of bytes, \<open>Frecov_Scan\<close> shows that the output lists the
    bitmaps of all directory slots by size. \<open>Sperf\<close> models \<open>sperf.c\<close> on the lines of a trace, with
    rationals for \<open>double\<close>; \<open>Sperf_Table\<close> shows that the table is a map from names to times.

  \<^bold>\<open>Benchmarks\<close> (\<open>apps/microbench\<close>). \<open>Bench\<close> models the heap, the random numbers and the checksum of
  \<open>bench.c\<close>; each of four programs has a theory with its proof: \<open>Bench_Sort\<close> (quicksort sorts a range
  of the array), \<open>Bench_Sieve\<close> (the sieve counts primes), \<open>Bench_Queen\<close> (the search on words of bits
  counts placements of queens), \<open>Bench_Fib\<close> (powers of a matrix give the recurrence, modulo \<open>2 ^ 32\<close>).

  \<^bold>\<open>Loops and fuel.\<close> Most loops are structural or have a measure (the distance to the end of a range
  or of a list). Bounded counters remain where the bound is the code's own: \<open>getinfo\<close> of \<open>Pstree\<close>
  counts the depth of the process tree, and what its theorems say holds for every depth at which it
  returns a tree; \<open>read_record\<close> of \<open>Sperf\<close> makes at most \<open>TMP_LEN\<close> rounds, one for each character
  its buffer can take; \<open>sperf_loop\<close> counts lines, and \<open>sperf_loop_ends\<close> shows that more rounds than
  the trace has characters are never used up. The CPU loop of LiteNES runs on its cycle
  budget, which every instruction lowers. Endless loops of tasks are modelled by the finite number of
  rounds they have done so far.

  \<^bold>\<open>Not modelled.\<close>
  \<^item> The boot code and test workloads of \<open>kernel/framework\<close>, and the rest of AM: ports, devices, the
    simulation on Linux, start of further CPUs. This is hardware access; what the kernel relies on
    (a context is given back as it was saved, pages are fresh) is modelled at its interface.
  \<^item> \<open>io.c\<close> of klib, \<open>LogBlock\<close> of \<open>ext2.c\<close>, \<open>wait_for_frame\<close> of LiteNES, \<open>draw_table\<close> of \<open>sperf.c\<close>,
    \<open>display\<close> of \<open>frecov.c\<close>, the clock and texts of the game: they only print or wait.
  \<^item> \<open>crepl\<close>: it compiles each line with gcc and loads the result, so that its behaviour is that of
    the compiler and the loader.
  \<^item> The cartridge image \<open>rom_mario.c\<close> (data), the libraries fixmath, imgui, compiler-rt, the
    benchmarks coremark and dhrystone and those of microbench that are C++ or taken from elsewhere
    (third-party), and the demos \<open>hello\<close> and \<open>slider\<close>.
  \<^item> Weak memory order, and the faults of the processor itself. Stack overflow is not represented.
\<close>

end
